(* ===== verification/Mc_Prelude.thy ===== *)
theory Mc_Prelude
  imports Main "HOL-Library.Word"
begin

text \<open>
  Shared vocabulary of the development.

  \<^item> the error type of C++ executions and its sequencing operator \<open>bindE\<close>;
  \<^item> heap blocks as byte lists, with checked reads, writes and block copies
    (\<open>memcpy\<close>, \<open>memmove\<close>), and \<open>malloc\<close> as a parameter with the documented contract
    \<open>malloc_spec\<close>;
  \<^item> the C string functions and the \<open>std::string\<close> members the sources call
    (\<open>strlen\<close>, \<open>strstr\<close>, \<open>find\<close>, \<open>substr\<close>, \<open>atoi\<close>);
  \<^item> the generic lemmas about them that the component theories use.

  A byte is a HOL \<open>char\<close>. A value of type \<open>int\<close> of the source is a HOL \<open>int\<close> wherever the
  sources keep it far from the ends of its range (buffer sizes, offsets, ports, time stamps; for
  buffer sizes theory \<open>BufferInt\<close> shows where the bound is);
  where wrap-around is part of the result the code is modelled on words.
\<close>

named_theorems mc_defs \<open>definitions that proofs of the components unfold\<close>
named_theorems res_simps \<open>rewrite rules for the result type\<close>

section \<open>Results of C++ executions\<close>

text \<open>
  An execution that does not return a value ends in one of these ways. \<open>MemFault\<close> is an access
  outside a live heap block (including a null pointer), \<open>BadIterator\<close> the use of a singular or
  past-the-end iterator, \<open>BadAlloc\<close> the exception the sources throw when \<open>malloc\<close> returns
  null, \<open>StdException\<close> an exception of the standard library, \<open>AssertFailed\<close> a failing
  \<open>MC_ASSERT\<close>, and \<open>Diverge\<close> a loop that used up the fuel of the model.
\<close>

datatype error = MemFault | BadIterator | BadAlloc | StdException | AssertFailed | Diverge

type_synonym 'a res = "error + 'a"

fun bindE :: "'a res \<Rightarrow> ('a \<Rightarrow> 'b res) \<Rightarrow> 'b res" where
  "bindE (Inl e) f = Inl e"
| "bindE (Inr x) f = f x"

lemma bindE_eq_Inr [res_simps]:
  "bindE m f = Inr y \<longleftrightarrow> (\<exists>x. m = Inr x \<and> f x = Inr y)"
  by (cases m) auto

lemma bindE_eq_Inl [res_simps]:
  "bindE m f = Inl e \<longleftrightarrow> m = Inl e \<or> (\<exists>x. m = Inr x \<and> f x = Inl e)"
  by (cases m) auto

lemma bindE_assoc: "bindE (bindE m f) g = bindE m (\<lambda>x. bindE (f x) g)"
  by (cases m) auto

lemma bindE_cong [fundef_cong]:
  "m = m' \<Longrightarrow> (\<And>x. m' = Inr x \<Longrightarrow> f x = f' x) \<Longrightarrow> bindE m f = bindE m' f'"
  by (cases m') auto

section \<open>Integers\<close>

lemma nat_int_minus [simp]: "nat (int a - int b) = a - b"
  by arith

lemma nat_int_minus_add [simp]: "nat (int a - (int b + int c)) = a - (b + c)"
  by arith

lemma nat_int_add3 [simp]: "nat (int a + int b + int c) = a + b + c"
  by arith

declare nat_int_add [simp]

section \<open>Bytes\<close>

text \<open>Bytes as 8-bit words, for the code that computes with them.\<close>

definition byte_of :: "char \<Rightarrow> 8 word" where
  "byte_of c = of_nat (of_char c)"

definition char_of_byte :: "8 word \<Rightarrow> char" where
  "char_of_byte w = char_of (unat w)"

lemma of_char_less_256: "(of_char c :: nat) < 256"
  by (metis mod_less_divisor of_char_mod_256 zero_less_numeral)

lemma unat_byte_of [simp]: "unat (byte_of c) = of_char c"
  by (simp add: byte_of_def unat_of_nat of_char_less_256)

lemma char_of_byte_of [simp]: "char_of_byte (byte_of c) = c"
  by (simp add: char_of_byte_def)

lemma byte_of_char_of_byte [simp]: "byte_of (char_of_byte w) = w"
proof -
  have "unat w < 256" using unsigned_less[of w] by simp
  then show ?thesis by (simp add: byte_of_def char_of_byte_def)
qed

lemma byte_of_inject [simp]: "byte_of c = byte_of d \<longleftrightarrow> c = d"
  by (metis char_of_byte_of)

lemma word8_eqI: "(\<And>n. n < 8 \<Longrightarrow> bit (x :: 8 word) n = bit y n) \<Longrightarrow> x = y"
  by (rule bit_word_eqI) simp

lemma word8_bits:
  "(x :: 8 word) = y \<longleftrightarrow> (bit x 0 = bit y 0 \<and> bit x 1 = bit y 1 \<and> bit x 2 = bit y 2 \<and>
     bit x 3 = bit y 3 \<and> bit x 4 = bit y 4 \<and> bit x 5 = bit y 5 \<and> bit x 6 = bit y 6 \<and>
     bit x 7 = bit y 7)"
  (is "_ \<longleftrightarrow> ?bits")
proof
  assume B: ?bits
  show "x = y"
  proof (rule word8_eqI)
    fix n :: nat assume "n < 8"
    then have "n = 0 \<or> n = 1 \<or> n = 2 \<or> n = 3 \<or> n = 4 \<or> n = 5 \<or> n = 6 \<or> n = 7" by arith
    with B show "bit x n = bit y n" by (elim disjE) simp_all
  qed
qed simp

section \<open>Heap blocks\<close>

abbreviation NUL :: char where "NUL \<equiv> CHR 0x00"
abbreviation CR :: char where "CR \<equiv> CHR 0x0D"
abbreviation LF :: char where "LF \<equiv> CHR 0x0A"
abbreviation TAB :: char where "TAB \<equiv> CHR 0x09"

type_synonym block = "char list"

definition mem_read :: "block \<Rightarrow> int \<Rightarrow> char res" where
  "mem_read blk i =
     (if 0 \<le> i \<and> i < int (length blk) then Inr (blk ! nat i) else Inl MemFault)"

definition mem_write :: "block \<Rightarrow> int \<Rightarrow> char \<Rightarrow> block res" where
  "mem_write blk i c =
     (if 0 \<le> i \<and> i < int (length blk) then Inr (blk[nat i := c]) else Inl MemFault)"

text \<open>
  \<open>mem_get blk off n\<close> are the \<open>n\<close> bytes a copy reads at \<open>off\<close>, \<open>mem_put blk off d\<close> the block
  after a copy has written \<open>d\<close> at \<open>off\<close>. A copy of zero bytes touches no memory; a negative
  length becomes a huge \<open>size_t\<close> and runs out of every block.
\<close>

definition mem_get :: "block \<Rightarrow> int \<Rightarrow> int \<Rightarrow> char list res" where
  "mem_get blk off n =
     (if n = 0 then Inr []
      else if 0 < n \<and> 0 \<le> off \<and> off + n \<le> int (length blk)
      then Inr (take (nat n) (drop (nat off) blk)) else Inl MemFault)"

definition mem_put :: "block \<Rightarrow> int \<Rightarrow> char list \<Rightarrow> block res" where
  "mem_put blk off d =
     (if d = [] then Inr blk
      else if 0 \<le> off \<and> off + int (length d) \<le> int (length blk)
      then Inr (take (nat off) blk @ d @ drop (nat off + length d) blk) else Inl MemFault)"

text \<open>The bytes of the pointer \<open>m_pBuffer\<close>: a null pointer has none.\<close>

definition deref :: "block option \<Rightarrow> block" where
  "deref p = (case p of None \<Rightarrow> [] | Some blk \<Rightarrow> blk)"

lemma deref_simps [simp]: "deref None = []" "deref (Some blk) = blk"
  by (simp_all add: deref_def)

text \<open>
  \<open>malloc\<close> is a parameter: it may return null for any request, and otherwise returns a block of
  the requested size whose contents are arbitrary. A negative request is a huge \<open>size_t\<close> and
  always fails.
\<close>

type_synonym malloc = "int \<Rightarrow> block option"

definition malloc_spec :: "malloc \<Rightarrow> bool" where
  "malloc_spec ml \<longleftrightarrow> (\<forall>n blk. ml n = Some blk \<longrightarrow> 0 \<le> n \<and> int (length blk) = n)"

definition malloc_total :: "malloc \<Rightarrow> bool" where
  "malloc_total ml \<longleftrightarrow> malloc_spec ml \<and> (\<forall>n. 0 \<le> n \<longrightarrow> ml n \<noteq> None)"

definition do_malloc :: "malloc \<Rightarrow> int \<Rightarrow> block res" where
  "do_malloc ml n = (case ml n of None \<Rightarrow> Inl BadAlloc | Some blk \<Rightarrow> Inr blk)"

definition zero_malloc :: malloc where
  "zero_malloc n = (if n < 0 then None else Some (replicate (nat n) NUL))"

lemma malloc_total_zero: "malloc_total zero_malloc"
  by (auto simp: malloc_total_def malloc_spec_def zero_malloc_def split: if_splits)

lemma malloc_total_spec: "malloc_total ml \<Longrightarrow> malloc_spec ml"
  by (simp add: malloc_total_def)

text \<open>
  \<open>safe_res ml r P\<close>: the execution returns a value with \<open>P\<close>, or ends in the allocation exception,
  and the latter only when \<open>malloc\<close> may fail. It excludes every memory fault.
\<close>

definition safe_res :: "malloc \<Rightarrow> 'a res \<Rightarrow> ('a \<Rightarrow> bool) \<Rightarrow> bool" where
  "safe_res ml r P =
     (case r of Inl e \<Rightarrow> e = BadAlloc \<and> \<not> malloc_total ml | Inr x \<Rightarrow> P x)"

lemma safe_res_Inr [simp]: "safe_res ml (Inr x) P = P x"
  by (simp add: safe_res_def)

lemma safe_res_Inl [simp]: "safe_res ml (Inl e) P \<longleftrightarrow> e = BadAlloc \<and> \<not> malloc_total ml"
  by (simp add: safe_res_def)

lemma safe_res_bindE:
  assumes "safe_res ml m Q" and "\<And>x. Q x \<Longrightarrow> safe_res ml (f x) P"
  shows "safe_res ml (bindE m f) P"
  using assms by (cases m) auto

lemma safe_res_mono: "safe_res ml m Q \<Longrightarrow> (\<And>x. Q x \<Longrightarrow> P x) \<Longrightarrow> safe_res ml m P"
  by (cases m) auto

lemma safe_res_total:
  "safe_res ml r P \<Longrightarrow> malloc_total ml \<Longrightarrow> \<exists>x. r = Inr x \<and> P x"
  by (cases r) auto

lemma safe_res_conj:
  "safe_res ml r P \<Longrightarrow> (\<And>x. r = Inr x \<Longrightarrow> Q x) \<Longrightarrow> safe_res ml r (\<lambda>x. P x \<and> Q x)"
  by (cases r) auto

lemma safe_res_InrD: "safe_res ml r P \<Longrightarrow> r = Inr x \<Longrightarrow> P x"
  by simp

lemma do_malloc_safe:
  assumes "malloc_spec ml" and "0 \<le> n"
  shows "safe_res ml (do_malloc ml n) (\<lambda>blk. length blk = nat n)"
  using assms
  by (cases "ml n") (fastforce simp: do_malloc_def malloc_spec_def malloc_total_def)+

lemma mem_get_ok:
  "0 \<le> off \<Longrightarrow> 0 \<le> n \<Longrightarrow> off + n \<le> int (length blk) \<Longrightarrow>
     mem_get blk off n = Inr (take (nat n) (drop (nat off) blk))"
  by (simp add: mem_get_def)

lemma mem_put_ok:
  "0 \<le> off \<Longrightarrow> off + int (length d) \<le> int (length blk) \<Longrightarrow>
     mem_put blk off d = Inr (take (nat off) blk @ d @ drop (nat off + length d) blk)"
  by (simp add: mem_put_def)

lemma mem_write_ok:
  "0 \<le> i \<Longrightarrow> i < int (length blk) \<Longrightarrow> mem_write blk i c = Inr (blk[nat i := c])"
  by (simp add: mem_write_def)

lemma mem_read_ok:
  "0 \<le> i \<Longrightarrow> i < int (length blk) \<Longrightarrow> mem_read blk i = Inr (blk ! nat i)"
  by (simp add: mem_read_def)

lemmas mem_ok = mem_get_ok mem_put_ok mem_write_ok mem_read_ok

lemma mem_put_0: "length d \<le> length blk \<Longrightarrow> mem_put blk 0 d = Inr (d @ drop (length d) blk)"
  by (simp add: mem_put_def)

lemma mem_put_length: "mem_put blk off d = Inr blk' \<Longrightarrow> length blk' = length blk"
  by (auto simp: mem_put_def split: if_splits)

section \<open>C strings\<close>

text \<open>
  \<open>cstr_at blk i\<close> is the C string that starts at offset \<open>i\<close>; reading it faults when \<open>i\<close> is
  outside the block or no terminator follows. \<open>cstr s\<close> is the object of a C string \<open>s\<close>.
\<close>

definition cstr :: "string \<Rightarrow> block" where
  "cstr s = s @ [NUL]"

definition c_prefix :: "char list \<Rightarrow> string" where
  "c_prefix cs = takeWhile (\<lambda>c. c \<noteq> NUL) cs"

definition cstr_at :: "block \<Rightarrow> int \<Rightarrow> string res" where
  "cstr_at blk i =
     (if 0 \<le> i \<and> NUL \<in> set (drop (nat i) blk)
      then Inr (c_prefix (drop (nat i) blk)) else Inl MemFault)"

lemma c_prefix_append: "NUL \<notin> set s \<Longrightarrow> c_prefix (s @ NUL # t) = s"
  by (simp add: c_prefix_def takeWhile_append)

lemma c_prefix_id: "NUL \<notin> set s \<Longrightarrow> c_prefix s = s"
  by (auto simp: c_prefix_def takeWhile_eq_all_conv)

lemma c_prefix_no_NUL: "NUL \<notin> set (c_prefix s)"
  by (auto simp: c_prefix_def dest: set_takeWhileD)

lemma length_cstr [simp]: "length (cstr s) = Suc (length s)"
  by (simp add: cstr_def)

lemma take_cstr [simp]: "n \<le> length s \<Longrightarrow> take n (cstr s) = take n s"
  by (simp add: cstr_def)

lemma cstr_at_cstr: "NUL \<notin> set s \<Longrightarrow> cstr_at (cstr s) 0 = Inr s"
  by (simp add: cstr_at_def cstr_def c_prefix_append)

fun starts_with :: "string \<Rightarrow> string \<Rightarrow> bool" where
  "starts_with [] s = True"
| "starts_with (p # ps) [] = False"
| "starts_with (p # ps) (c # cs) = (p = c \<and> starts_with ps cs)"

text \<open>
  The first occurrence of a pattern: \<open>strstr\<close> on C strings and \<open>std::string::find\<close>, with
  \<open>None\<close> for a null pointer and for \<open>npos\<close>.
\<close>

fun str_find :: "string \<Rightarrow> string \<Rightarrow> nat option" where
  "str_find [] p = (if p = [] then Some 0 else None)"
| "str_find (c # cs) p =
     (if starts_with p (c # cs) then Some 0 else map_option Suc (str_find cs p))"

fun char_find :: "string \<Rightarrow> char \<Rightarrow> nat option" where
  "char_find [] x = None"
| "char_find (c # cs) x = (if c = x then Some 0 else map_option Suc (char_find cs x))"

text \<open>\<open>s.substr(pos, n)\<close>, which throws when \<open>pos\<close> is past the end.\<close>

definition substr :: "string \<Rightarrow> nat \<Rightarrow> nat \<Rightarrow> string res" where
  "substr s pos n = (if pos \<le> length s then Inr (take n (drop pos s)) else Inl StdException)"

lemma starts_with_iff: "starts_with p s \<longleftrightarrow> (\<exists>t. s = p @ t)"
  by (induction p s rule: starts_with.induct) auto

lemma starts_with_take: "starts_with p s \<longleftrightarrow> take (length p) s = p"
  by (induction p s rule: starts_with.induct) auto

lemma starts_with_append [simp]: "starts_with p (p @ t)"
  by (simp add: starts_with_iff)

lemma str_find_Some_split:
  "str_find s p = Some i \<Longrightarrow> s = take i s @ p @ drop (i + length p) s"
proof (induction s arbitrary: i)
  case (Cons c cs)
  show ?case
  proof (cases "starts_with p (c # cs)")
    case True
    with Cons.prems have "i = 0" by simp
    with True show ?thesis by (auto simp: starts_with_iff)
  next
    case False
    with Cons.prems obtain j where j: "str_find cs p = Some j" and "i = Suc j" by auto
    with Cons.IH[OF j] show ?thesis by simp
  qed
qed (simp split: if_splits)

lemma str_find_Some_bound: "str_find s p = Some i \<Longrightarrow> i + length p \<le> length s"
proof (induction s arbitrary: i)
  case (Cons c cs)
  then show ?case
    by (cases "starts_with p (c # cs)") (auto simp: starts_with_iff dest: arg_cong[where f = length])
qed (simp split: if_splits)

lemma str_find_Some_at: "str_find s p = Some i \<Longrightarrow> starts_with p (drop i s)"
  by (induction s arbitrary: i) (auto split: if_splits)

lemma str_find_Some_first:
  "str_find s p = Some i \<Longrightarrow> j < i \<Longrightarrow> \<not> starts_with p (drop j s)"
proof (induction s arbitrary: i j)
  case (Cons c cs)
  then show ?case by (cases j) (auto split: if_splits)
qed (simp split: if_splits)

lemma str_find_None_iff: "str_find s p = None \<longleftrightarrow> (\<forall>j \<le> length s. \<not> starts_with p (drop j s))"
proof (induction s)
  case Nil
  then show ?case by (cases p) auto
next
  case (Cons c cs)
  have "(\<forall>j \<le> length (c # cs). \<not> starts_with p (drop j (c # cs))) \<longleftrightarrow>
      \<not> starts_with p (c # cs) \<and> (\<forall>j \<le> length cs. \<not> starts_with p (drop j cs))"
    by (metis Suc_le_mono drop0 drop_Suc_Cons length_Cons not0_implies_Suc zero_le)
  with Cons.IH show ?case by auto
qed

lemma str_find_empty [simp]: "str_find s [] = Some 0"
  by (cases s) auto

lemma char_find_Some:
  "char_find s x = Some i \<Longrightarrow> i < length s \<and> s ! i = x \<and> x \<notin> set (take i s)"
  by (induction s arbitrary: i) (auto split: if_splits)

lemma char_find_None: "char_find s x = None \<longleftrightarrow> x \<notin> set s"
  by (induction s) auto

lemma char_find_append: "x \<notin> set s \<Longrightarrow> char_find (s @ x # t) x = Some (length s)"
  by (induction s) auto

lemma char_find_takeWhile:
  "char_find s x = (if x \<in> set s then Some (length (takeWhile (\<lambda>c. c \<noteq> x) s)) else None)"
  by (induction s) auto

text \<open>\<open>atoi\<close>: optional blanks, an optional sign and the longest run of digits.\<close>

definition is_digit :: "char \<Rightarrow> bool" where
  "is_digit c \<longleftrightarrow> 48 \<le> (of_char c :: nat) \<and> (of_char c :: nat) \<le> 57"

definition is_space :: "char \<Rightarrow> bool" where
  "is_space c \<longleftrightarrow> c = CHR '' '' \<or> (9 \<le> (of_char c :: nat) \<and> (of_char c :: nat) \<le> 13)"

fun digits_val :: "int \<Rightarrow> string \<Rightarrow> int" where
  "digits_val acc [] = acc"
| "digits_val acc (c # cs) =
     (if is_digit c then digits_val (10 * acc + (int (of_char c) - 48)) cs else acc)"

definition atoi :: "string \<Rightarrow> int" where
  "atoi s =
     (case dropWhile is_space s of
        [] \<Rightarrow> 0
      | c # cs \<Rightarrow>
          if c = CHR ''-'' then - digits_val 0 cs
          else if c = CHR ''+'' then digits_val 0 cs
          else digits_val 0 (c # cs))"

text \<open>Decimal output: \<open>ostream << int\<close> and \<open>sprintf\<close> with \<open>%d\<close>.\<close>

definition digit :: "nat \<Rightarrow> char" where
  "digit d = char_of (48 + d)"

fun show_nat :: "nat \<Rightarrow> string" where
  "show_nat n = (if n < 10 then [digit n] else show_nat (n div 10) @ [digit (n mod 10)])"

declare show_nat.simps [simp del]

definition show_int :: "int \<Rightarrow> string" where
  "show_int x = (if x < 0 then ''-'' @ show_nat (nat (- x)) else show_nat (nat x))"

lemma of_char_digit [simp]: "d < 10 \<Longrightarrow> (of_char (digit d) :: nat) = 48 + d"
  by (simp add: digit_def)

lemma is_digit_digit [simp]: "d < 10 \<Longrightarrow> is_digit (digit d)"
  by (simp add: is_digit_def)

lemma digits_val_append_digit:
  "\<forall>c \<in> set s. is_digit c \<Longrightarrow> d < 10 \<Longrightarrow>
     digits_val acc (s @ [digit d]) = 10 * digits_val acc s + int d"
  by (induction s arbitrary: acc) auto

lemma show_nat_digits: "c \<in> set (show_nat n) \<Longrightarrow> is_digit c"
  by (induction n rule: show_nat.induct)
    (subst (asm) (2) show_nat.simps, auto split: if_splits)

lemma digits_val_show_nat: "digits_val 0 (show_nat n) = int n"
proof (induction n rule: show_nat.induct)
  case (1 n)
  show ?case
  proof (cases "n < 10")
    case True
    then show ?thesis by (simp add: show_nat.simps[of n])
  next
    case False
    with 1 have "digits_val 0 (show_nat n) = 10 * int (n div 10) + int (n mod 10)"
      by (simp add: show_nat.simps[of n] digits_val_append_digit show_nat_digits)
    also have "\<dots> = int (10 * (n div 10) + n mod 10)" by (simp only: of_nat_add of_nat_mult of_nat_numeral)
    finally show ?thesis by (simp only: mult_div_mod_eq)
  qed
qed

lemma show_nat_nonempty [simp]: "show_nat n \<noteq> []"
  by (subst show_nat.simps) simp

lemma atoi_digits: "s \<noteq> [] \<Longrightarrow> \<forall>c \<in> set s. is_digit c \<Longrightarrow> atoi s = digits_val 0 s"
  by (cases s) (auto simp: atoi_def is_digit_def is_space_def)

lemma atoi_show_int: "atoi (show_int x) = x"
proof (cases "x < 0")
  case True
  then show ?thesis by (simp add: show_int_def atoi_def is_space_def digits_val_show_nat)
next
  case False
  then show ?thesis
    by (simp add: show_int_def atoi_digits[OF show_nat_nonempty] show_nat_digits digits_val_show_nat)
qed

lemma digits_val_nonneg: "0 \<le> acc \<Longrightarrow> 0 \<le> digits_val acc s"
  by (induction s arbitrary: acc) (auto simp: is_digit_def)

end
