(* ===== verification/Buffer.thy ===== *)
theory Buffer
  imports Mc_Prelude "HOL-Library.Signed_Division"
begin

text \<open>
  The memory buffer class \<open>cBuffer\<close> (\<open>buffer.h\<close>, \<open>buffer.cpp\<close>): a growable heap block with a
  length. The record has the five members of the class; \<open>m_pBuffer\<close> is the heap block itself,
  \<open>None\<close> for the null pointer. \<open>m_iBufferSize\<close> is kept apart from the length of the block,
  because \<open>Insert\<close> allocates one byte more than it records.

  Every operation is a definition of its own, with every copy checked against the block it
  reads or writes: an access outside of it is \<open>MemFault\<close>. Operations whose return value is a
  constant return the new buffer only. The \<open>malloc\<close> of the platform is the first argument of
  every operation that allocates.

  Lengths and sizes are integers without a bound here. Theory \<open>BufferInt\<close> repeats the operations that
  compute with them in the 32-bit \<open>int\<close> of the source and shows, one by one, that the two agree for
  buffers below two gigabytes; what the other theories show of the classes built on buffers is meant
  for such buffers.

  The lemmas show the class invariant \<open>buf_inv\<close> is kept, that no operation within its contract
  can fault, and what each does to the abstract value \<open>buf_contents\<close>, the bytes before
  \<open>m_iTail\<close>; the interface to the classes built on buffers is the locale \<open>byte_buffer\<close>.
\<close>

section \<open>State\<close>

record cBuffer =
  m_pBuffer :: "block option"
  m_iBufferSize :: int
  m_iTail :: int
  m_minAlloc :: int
  m_midAlloc :: int

definition BUFFER_NO_ERROR :: int where "BUFFER_NO_ERROR = 0"
definition BUFFER_REGION_OUTOFBOUNDS :: int where "BUFFER_REGION_OUTOFBOUNDS = 4"
definition BUFFER_PARAM_INVALID :: int where "BUFFER_PARAM_INVALID = 5"
definition BUFFER_REPLACE_FAILED :: int where "BUFFER_REPLACE_FAILED = 6"
definition BUFFER_IS_EMPTY :: int where "BUFFER_IS_EMPTY = 7"

lemmas buffer_codes = BUFFER_NO_ERROR_def BUFFER_REGION_OUTOFBOUNDS_def
  BUFFER_PARAM_INVALID_def BUFFER_REPLACE_FAILED_def BUFFER_IS_EMPTY_def

text \<open>\<open>sizeof(long)\<close> of the LP64 platforms.\<close>

definition sizeof_long :: int where "sizeof_long = 8"

definition cBuffer_new :: cBuffer where
  "cBuffer_new = \<lparr>m_pBuffer = None, m_iBufferSize = 0, m_iTail = 0,
     m_minAlloc = 32, m_midAlloc = 256\<rparr>"

section \<open>Size management\<close>

definition cBuffer_SetMemAlgo :: "int \<Rightarrow> int \<Rightarrow> cBuffer \<Rightarrow> cBuffer" where
  "cBuffer_SetMemAlgo minAlloc midAlloc b = b\<lparr>m_minAlloc := minAlloc, m_midAlloc := midAlloc\<rparr>"

definition cBuffer_AdjustSize :: "cBuffer \<Rightarrow> int \<Rightarrow> int" where
  "cBuffer_AdjustSize b iSize =
     (let s = iSize + sizeof_long in
      if s \<le> m_minAlloc b then m_minAlloc b
      else if s > m_minAlloc b \<and> s < m_midAlloc b then (s * 3) sdiv 2
      else s)"

definition cBuffer_SetBufferSize :: "malloc \<Rightarrow> int \<Rightarrow> cBuffer \<Rightarrow> cBuffer res" where
  "cBuffer_SetBufferSize ml iSize b =
     (case m_pBuffer b of
        Some blk \<Rightarrow>
          if iSize \<ge> m_iBufferSize b then
            (let n = cBuffer_AdjustSize b iSize in
             bindE (do_malloc ml n) (\<lambda>p.
             bindE (mem_get blk 0 (m_iBufferSize b)) (\<lambda>d.
             bindE (mem_put p 0 d) (\<lambda>p.
             Inr (b\<lparr>m_pBuffer := Some p, m_iBufferSize := n\<rparr>)))))
          else Inr b
      | None \<Rightarrow>
          (let n = cBuffer_AdjustSize b iSize in
           bindE (do_malloc ml n) (\<lambda>p.
           Inr (b\<lparr>m_pBuffer := Some p, m_iBufferSize := n, m_iTail := 0\<rparr>))))"

definition cBuffer_SetBufferLength :: "malloc \<Rightarrow> int \<Rightarrow> cBuffer \<Rightarrow> cBuffer res" where
  "cBuffer_SetBufferLength ml iSize b =
     bindE (cBuffer_SetBufferSize ml iSize b) (\<lambda>b. Inr (b\<lparr>m_iTail := iSize\<rparr>))"

definition cBuffer_GetBufferSize :: "cBuffer \<Rightarrow> int" where
  "cBuffer_GetBufferSize b = m_iBufferSize b"

definition cBuffer_GetBufferCount :: "cBuffer \<Rightarrow> int" where
  "cBuffer_GetBufferCount b = m_iTail b"

definition cBuffer_Flush :: "cBuffer \<Rightarrow> cBuffer" where
  "cBuffer_Flush b = b\<lparr>m_pBuffer := None, m_iBufferSize := 0, m_iTail := 0\<rparr>"

definition cBuffer_Reset :: "cBuffer \<Rightarrow> cBuffer" where
  "cBuffer_Reset b = b\<lparr>m_iTail := 0\<rparr>"

section \<open>Access to the block\<close>

definition cBuffer_MakeString :: "cBuffer \<Rightarrow> cBuffer res" where
  "cBuffer_MakeString b =
     (case m_pBuffer b of
        None \<Rightarrow> Inr b
      | Some blk \<Rightarrow> bindE (mem_write blk (m_iTail b) NUL) (\<lambda>blk. Inr (b\<lparr>m_pBuffer := Some blk\<rparr>)))"

text \<open>\<open>operator char*\<close>, \<open>operator const char*\<close>, \<open>cstr\<close>, \<open>c_str\<close> and \<open>GetBuffer\<close> have the same
  body: the returned pointer is the block, null when there is none.\<close>

definition cBuffer_cstr :: "cBuffer \<Rightarrow> (block option \<times> cBuffer) res" where
  "cBuffer_cstr b =
     (case m_pBuffer b of
        None \<Rightarrow> Inr (None, b)
      | Some blk \<Rightarrow>
          bindE (mem_write blk (m_iTail b) NUL) (\<lambda>blk.
          Inr (Some blk, b\<lparr>m_pBuffer := Some blk\<rparr>)))"

definition cBuffer_ReleaseBuffer :: "cBuffer \<Rightarrow> cBuffer res" where
  "cBuffer_ReleaseBuffer b =
     bindE (cstr_at (deref (m_pBuffer b)) 0) (\<lambda>s. Inr (b\<lparr>m_iTail := int (length s)\<rparr>))"

definition cBuffer_GetRawBuffer :: "cBuffer \<Rightarrow> block option" where
  "cBuffer_GetRawBuffer b = m_pBuffer b"

definition cBuffer_StringLen :: "cBuffer \<Rightarrow> int" where
  "cBuffer_StringLen b = m_iTail b"

definition cBuffer_IsEmpty :: "cBuffer \<Rightarrow> int" where
  "cBuffer_IsEmpty b = (if m_iTail b = 0 then 1 else 0)"

definition cBuffer_at :: "cBuffer \<Rightarrow> int \<Rightarrow> char res" where
  "cBuffer_at b idx =
     (if 0 \<le> idx \<and> idx < m_iTail b then mem_read (deref (m_pBuffer b)) idx else Inr NUL)"

text \<open>\<open>operator[](char*)\<close>: the offset of the match, \<open>None\<close> for the null pointer.\<close>

definition cBuffer_at_pattern :: "cBuffer \<Rightarrow> string \<Rightarrow> nat option res" where
  "cBuffer_at_pattern b pat =
     bindE (cstr_at (deref (m_pBuffer b)) 0) (\<lambda>s. Inr (str_find s pat))"

section \<open>Editing\<close>

definition set_block :: "block \<Rightarrow> cBuffer \<Rightarrow> cBuffer" where
  "set_block blk b = b\<lparr>m_pBuffer := map_option (\<lambda>_. blk) (m_pBuffer b)\<rparr>"

definition cBuffer_Remove :: "int \<Rightarrow> int \<Rightarrow> cBuffer \<Rightarrow> (int \<times> cBuffer) res" where
  "cBuffer_Remove iIndex iLength b =
     (if m_iTail b = 0 then Inr (BUFFER_IS_EMPTY, b)
      else
        let iLen = (if iLength > m_iBufferSize b then m_iBufferSize b else iLength);
            iCalcOffset = iLen + iIndex
        in if iLen = 0 \<or> iCalcOffset > m_iBufferSize b then Inr (BUFFER_REGION_OUTOFBOUNDS, b)
        else
          bindE
            (if m_iTail b \<noteq> iCalcOffset then
               bindE (mem_get (deref (m_pBuffer b)) iCalcOffset (m_iTail b - iCalcOffset)) (\<lambda>d.
               mem_put (deref (m_pBuffer b)) iIndex d)
             else Inr (deref (m_pBuffer b))) (\<lambda>blk.
          Inr (BUFFER_NO_ERROR, (set_block blk b)\<lparr>m_iTail := m_iTail b - iLen\<rparr>)))"

text \<open>The length argument of \<open>Insert\<close>, \<open>Append\<close> and \<open>ReplaceWith\<close>: \<open>-1\<close> asks for \<open>strlen\<close>.\<close>

definition arg_len :: "block \<Rightarrow> int \<Rightarrow> int res" where
  "arg_len d n = (if n = -1 then bindE (cstr_at d 0) (\<lambda>s. Inr (int (length s))) else Inr n)"

definition cBuffer_Insert :: "malloc \<Rightarrow> int \<Rightarrow> block \<Rightarrow> int \<Rightarrow> cBuffer \<Rightarrow> cBuffer res" where
  "cBuffer_Insert ml iIndex pData iLength b =
     bindE (arg_len pData iLength) (\<lambda>n.
     let iNewSize = n + m_iTail b + 1 in
     if iNewSize > m_iBufferSize b then
       (let iNewSize = cBuffer_AdjustSize b iNewSize in
        bindE (do_malloc ml (iNewSize + 1)) (\<lambda>p.
        bindE (mem_get (deref (m_pBuffer b)) iIndex (m_iTail b - iIndex)) (\<lambda>suf.
        bindE (mem_put p (iIndex + n) suf) (\<lambda>p.
        bindE (mem_get pData 0 n) (\<lambda>d.
        bindE (mem_put p iIndex d) (\<lambda>p.
        bindE (if iIndex \<noteq> 0 then bindE (mem_get (deref (m_pBuffer b)) 0 iIndex) (mem_put p 0)
               else Inr p) (\<lambda>p.
        cBuffer_MakeString (b\<lparr>m_pBuffer := Some p, m_iBufferSize := iNewSize,
          m_iTail := m_iTail b + n\<rparr>))))))))
     else
       bindE (mem_get (deref (m_pBuffer b)) iIndex (m_iTail b - iIndex)) (\<lambda>suf.
       bindE (mem_put (deref (m_pBuffer b)) (iIndex + n) suf) (\<lambda>p.
       bindE (mem_get pData 0 n) (\<lambda>d.
       bindE (mem_put p iIndex d) (\<lambda>p.
       cBuffer_MakeString ((set_block p b)\<lparr>m_iTail := m_iTail b + n\<rparr>))))))"

definition cBuffer_Append :: "malloc \<Rightarrow> block option \<Rightarrow> int \<Rightarrow> cBuffer \<Rightarrow> (int \<times> cBuffer) res" where
  "cBuffer_Append ml pData iLen b =
     (if iLen = 0 then Inr (0, b)
      else case pData of
        None \<Rightarrow> Inr (BUFFER_PARAM_INVALID, b)
      | Some src \<Rightarrow>
          bindE (arg_len src iLen) (\<lambda>n.
          bindE
            (if n \<ge> m_iBufferSize b - m_iTail b then
               cBuffer_SetBufferSize ml (n - (m_iBufferSize b - m_iTail b) + m_iBufferSize b) b
             else Inr b) (\<lambda>b.
          bindE (mem_get src 0 n) (\<lambda>d.
          bindE (mem_put (deref (m_pBuffer b)) (m_iTail b) d) (\<lambda>p.
          bindE (cBuffer_MakeString ((set_block p b)\<lparr>m_iTail := m_iTail b + n\<rparr>)) (\<lambda>b.
          Inr (BUFFER_NO_ERROR, b)))))))"

definition cBuffer_Prepend :: "malloc \<Rightarrow> block option \<Rightarrow> int \<Rightarrow> cBuffer \<Rightarrow> (int \<times> cBuffer) res" where
  "cBuffer_Prepend ml pData iSize b =
     (case pData of
        None \<Rightarrow> Inr (BUFFER_PARAM_INVALID, b)
      | Some src \<Rightarrow>
          bindE (arg_len src iSize) (\<lambda>n.
          bindE (cBuffer_Insert ml 0 src n b) (\<lambda>b. Inr (BUFFER_NO_ERROR, b))))"

definition cBuffer_ReplaceWith :: "malloc \<Rightarrow> block option \<Rightarrow> int \<Rightarrow> cBuffer \<Rightarrow> (int \<times> cBuffer) res" where
  "cBuffer_ReplaceWith ml pData iSize b =
     (case pData of
        None \<Rightarrow> Inr (BUFFER_NO_ERROR, cBuffer_Reset b)
      | Some src \<Rightarrow>
          bindE (arg_len src iSize) (\<lambda>n. cBuffer_Append ml (Some src) n (cBuffer_Reset b)))"

definition cBuffer_Truncate :: "int \<Rightarrow> cBuffer \<Rightarrow> cBuffer" where
  "cBuffer_Truncate iCount b = b\<lparr>m_iTail := m_iTail b - iCount\<rparr>"

section \<open>Searching\<close>

definition cBuffer_Find :: "string \<Rightarrow> int \<Rightarrow> cBuffer \<Rightarrow> (int \<times> cBuffer) res" where
  "cBuffer_Find pszText iOffset b =
     (if m_iTail b = 0 then Inr (-1, b)
      else
        bindE (cBuffer_MakeString b) (\<lambda>b.
        bindE (cstr_at (deref (m_pBuffer b)) iOffset) (\<lambda>s.
        Inr (case str_find s pszText of Some i \<Rightarrow> iOffset + int i | None \<Rightarrow> -1, b))))"

text \<open>The inner loop of \<open>BinaryFind\<close> compares the pattern with the bytes at one position, the
  outer loop tries \<open>datalen\<close> positions.\<close>

fun bf_inner :: "block \<Rightarrow> int \<Rightarrow> string \<Rightarrow> bool res" where
  "bf_inner blk i [] = Inr True"
| "bf_inner blk i (p # ps) =
     bindE (mem_read blk i) (\<lambda>c. if p = c then bf_inner blk (i + 1) ps else Inr False)"

fun bf_outer :: "block \<Rightarrow> int \<Rightarrow> string \<Rightarrow> int \<Rightarrow> nat \<Rightarrow> int res" where
  "bf_outer blk index pat k 0 = Inr (-1)"
| "bf_outer blk index pat k (Suc n) =
     bindE (bf_inner blk (index + k) pat) (\<lambda>found.
     if found then Inr (k + index) else bf_outer blk index pat (k + 1) n)"

definition cBuffer_BinaryFind :: "int \<Rightarrow> string \<Rightarrow> cBuffer \<Rightarrow> int res" where
  "cBuffer_BinaryFind index pat b =
     (if m_iTail b = 0 \<or> index > m_iTail b then Inr (-1)
      else bf_outer (deref (m_pBuffer b)) index pat 0 (nat (m_iTail b)))"

definition cBuffer_CopyBetween ::
    "malloc \<Rightarrow> string \<Rightarrow> string \<Rightarrow> cBuffer \<Rightarrow> cBuffer \<Rightarrow> (int \<times> cBuffer \<times> cBuffer) res" where
  "cBuffer_CopyBetween ml pPattern1 pPattern2 into b =
     (let into = cBuffer_Reset into in
      bindE (cBuffer_Find pPattern1 0 b) (\<lambda>(iStart, b).
      if iStart = -1 then Inr (-1, into, b)
      else
        bindE (cBuffer_Find pPattern2 (iStart + 1) b) (\<lambda>(iEnd, b).
        if iEnd = 1 then Inr (-1, into, b)
        else
          (let iStart = iStart + int (length pPattern1) in
           bindE (cBuffer_ReplaceWith ml (Some (drop (nat iStart) (deref (m_pBuffer b))))
                    (iEnd - iStart) into) (\<lambda>(_, into).
           bindE (cBuffer_MakeString into) (\<lambda>into. Inr (0, into, b)))))))"

fun fc_loop :: "block \<Rightarrow> char \<Rightarrow> int \<Rightarrow> nat \<Rightarrow> int res" where
  "fc_loop blk ch i 0 = Inr (-1)"
| "fc_loop blk ch i (Suc n) =
     bindE (mem_read blk i) (\<lambda>c. if c = ch then Inr i else fc_loop blk ch (i + 1) n)"

definition cBuffer_FindChar :: "char \<Rightarrow> int \<Rightarrow> cBuffer \<Rightarrow> int res" where
  "cBuffer_FindChar ch iStart b = fc_loop (deref (m_pBuffer b)) ch iStart (nat (m_iTail b - iStart))"

fun rfc_loop :: "block \<Rightarrow> char \<Rightarrow> nat \<Rightarrow> int res" where
  "rfc_loop blk ch 0 = Inr (-1)"
| "rfc_loop blk ch (Suc n) =
     bindE (mem_read blk (int n)) (\<lambda>c. if c = ch then Inr (int n) else rfc_loop blk ch n)"

definition cBuffer_ReverseFindChar :: "char \<Rightarrow> int \<Rightarrow> cBuffer \<Rightarrow> int res" where
  "cBuffer_ReverseFindChar ch iStart b =
     (let iEnd = (if iStart = -1 then m_iTail b else iStart) in
      if iEnd > -1 then rfc_loop (deref (m_pBuffer b)) ch (nat (iEnd + 1)) else Inr iEnd)"

section \<open>Replacement\<close>

definition cBuffer_Replace :: "malloc \<Rightarrow> string \<Rightarrow> string \<Rightarrow> cBuffer \<Rightarrow> (int \<times> cBuffer) res" where
  "cBuffer_Replace ml pPattern with b =
     bindE (cBuffer_Find pPattern 0 b) (\<lambda>(iStart, b).
     if iStart = -1 then Inr (BUFFER_REPLACE_FAILED, b)
     else
       bindE (cBuffer_Remove iStart (int (length pPattern)) b) (\<lambda>(_, b).
       bindE (cBuffer_Insert ml iStart (cstr with) (int (length with)) b) (\<lambda>b.
       Inr (BUFFER_NO_ERROR, b))))"

text \<open>The loop of \<open>ReplaceAll\<close>. It ends for every pattern but the empty one, on which the source
  inserts without end; the fuel of the caller covers every pattern that is not empty.\<close>

fun replace_loop :: "nat \<Rightarrow> malloc \<Rightarrow> string \<Rightarrow> string \<Rightarrow> int \<Rightarrow> cBuffer \<Rightarrow> cBuffer res" where
  "replace_loop 0 ml pat with idx b = Inl Diverge"
| "replace_loop (Suc fuel) ml pat with idx b =
     bindE (cBuffer_Find pat idx b) (\<lambda>(idx, b).
     if idx = -1 then Inr b
     else
       bindE (cBuffer_Remove idx (int (length pat)) b) (\<lambda>(_, b).
       bindE (cBuffer_Insert ml idx (cstr with) (int (length with)) b) (\<lambda>b.
       replace_loop fuel ml pat with (idx + int (length with)) b)))"

definition cBuffer_ReplaceAll :: "malloc \<Rightarrow> string \<Rightarrow> string \<Rightarrow> cBuffer \<Rightarrow> cBuffer res" where
  "cBuffer_ReplaceAll ml pPattern with b =
     replace_loop (Suc (nat (m_iTail b))) ml pPattern with 0 b"

text \<open>\<open>Sprintf\<close> with the text \<open>out\<close> that \<open>vsprintf\<close> formats; \<open>vsprintf\<close> knows no bound.\<close>

definition cBuffer_Sprintf :: "malloc \<Rightarrow> int \<Rightarrow> string \<Rightarrow> cBuffer \<Rightarrow> (int \<times> cBuffer) res" where
  "cBuffer_Sprintf ml iBufferSize out b =
     bindE (cBuffer_SetBufferSize ml iBufferSize b) (\<lambda>b.
     bindE (cBuffer_cstr b) (\<lambda>(p, b).
     case p of
       None \<Rightarrow> Inr (0, b)
     | Some blk \<Rightarrow>
         bindE (mem_put blk 0 (cstr out)) (\<lambda>blk.
         bindE (cBuffer_ReleaseBuffer (set_block blk b)) (\<lambda>b.
         bindE (cBuffer_MakeString b) (\<lambda>b.
         Inr (cBuffer_StringLen b, b))))))"

section \<open>Whole-buffer transformations\<close>

text \<open>Plain \<open>char\<close> is signed: a byte above 127 is negative when it is widened.\<close>

definition schar :: "char \<Rightarrow> 32 word" where
  "schar c = scast (byte_of c)"

definition cBuffer_HashKey :: "cBuffer \<Rightarrow> 32 word res" where
  "cBuffer_HashKey b =
     bindE (mem_get (deref (m_pBuffer b)) 0 (m_iTail b)) (\<lambda>cs.
     Inr (foldl (\<lambda>iHash c. push_bit 5 iHash + iHash + schar c) 0 cs))"

text \<open>\<open>Crypto\<close>: \<open>key\<close> is the memory of the key string, \<open>pKey\<close> the offset of the key pointer.
  The byte and the counter are xor-ed as \<open>char\<close>.\<close>

definition xor_char :: "char \<Rightarrow> char \<Rightarrow> nat \<Rightarrow> char" where
  "xor_char c k i =
     char_of_byte (Bit_Operations.xor (Bit_Operations.xor (byte_of c) (byte_of k)) (of_nat i))"

fun crypto_loop :: "block \<Rightarrow> nat \<Rightarrow> nat \<Rightarrow> char list \<Rightarrow> char list res" where
  "crypto_loop key pKey i [] = Inr []"
| "crypto_loop key pKey i (c # cs) =
     bindE (mem_read key (int pKey)) (\<lambda>k.
     let pKey = (if k = NUL then 0 else pKey) in
     bindE (mem_read key (int pKey)) (\<lambda>k.
     bindE (crypto_loop key (Suc pKey) (Suc i) cs) (\<lambda>out.
     Inr (xor_char c k i # out))))"

definition cBuffer_Crypto :: "block \<Rightarrow> cBuffer \<Rightarrow> cBuffer res" where
  "cBuffer_Crypto pszKey b =
     bindE (mem_get (deref (m_pBuffer b)) 0 (m_iTail b)) (\<lambda>cs.
     bindE (crypto_loop pszKey 0 0 cs) (\<lambda>out.
     bindE (mem_put (deref (m_pBuffer b)) 0 out) (\<lambda>blk. Inr (set_block blk b))))"

definition to_upper :: "char \<Rightarrow> char" where
  "to_upper c = (if (of_char c :: nat) > 96 \<and> (of_char c :: nat) < 123
     then char_of ((of_char c :: nat) - 97 + 65) else c)"

definition to_lower :: "char \<Rightarrow> char" where
  "to_lower c = (if (of_char c :: nat) > 64 \<and> (of_char c :: nat) < 91
     then char_of ((of_char c :: nat) - 65 + 97) else c)"

definition map_buffer :: "(char \<Rightarrow> char) \<Rightarrow> cBuffer \<Rightarrow> cBuffer res" where
  "map_buffer f b =
     bindE (mem_get (deref (m_pBuffer b)) 0 (m_iTail b)) (\<lambda>cs.
     bindE (mem_put (deref (m_pBuffer b)) 0 (map f cs)) (\<lambda>blk. Inr (set_block blk b)))"

definition cBuffer_ToUpper :: "cBuffer \<Rightarrow> cBuffer res" where
  "cBuffer_ToUpper b = map_buffer to_upper b"

definition cBuffer_ToLower :: "cBuffer \<Rightarrow> cBuffer res" where
  "cBuffer_ToLower b = map_buffer to_lower b"

definition is_blank :: "char \<Rightarrow> bool" where "is_blank c = (c = CHR '' '')"

definition cBuffer_Cleanup :: "malloc \<Rightarrow> cBuffer \<Rightarrow> cBuffer res" where
  "cBuffer_Cleanup ml b =
     bindE (cBuffer_ReplaceAll ml [TAB] [] b) (\<lambda>b.
     bindE (cBuffer_ReplaceAll ml [CR] [] b) (\<lambda>b.
     bindE (cBuffer_ReplaceAll ml [LF] [] b) (\<lambda>b.
     if m_pBuffer b = None then Inr b
     else
       bindE (cstr_at (deref (m_pBuffer b)) 0) (\<lambda>s.
       let j = int (length (takeWhile is_blank s)) in
       bindE (if j \<noteq> 0 then bindE (cBuffer_Remove 0 j b) (\<lambda>(_, b). Inr b) else Inr b) (\<lambda>b.
       bindE (cstr_at (deref (m_pBuffer b)) 0) (\<lambda>s.
       let j = int (length (takeWhile is_blank (rev s))) in
       cBuffer_MakeString (if j \<noteq> 0 then cBuffer_Truncate j b else b)))))))"

section \<open>The class invariant\<close>

text \<open>
  The invariant of a buffer: either there is no block and the sizes are zero, or the tail lies
  strictly inside the recorded size, which leaves room for the terminator, and the recorded size
  does not exceed the block.
\<close>

definition buf_inv :: "cBuffer \<Rightarrow> bool" where
  "buf_inv b =
     (case m_pBuffer b of
        None \<Rightarrow> m_iBufferSize b = 0 \<and> m_iTail b = 0
      | Some blk \<Rightarrow> 0 \<le> m_iTail b \<and> m_iTail b < m_iBufferSize b \<and>
          m_iBufferSize b \<le> int (length blk))"

text \<open>The abstract value of a buffer, and the buffers that hold a terminated string.\<close>

definition buf_contents :: "cBuffer \<Rightarrow> char list" where
  "buf_contents b = take (nat (m_iTail b)) (deref (m_pBuffer b))"

definition buf_terminated :: "cBuffer \<Rightarrow> bool" where
  "buf_terminated b \<longleftrightarrow>
     m_pBuffer b = None \<or> deref (m_pBuffer b) ! nat (m_iTail b) = NUL"

lemma buf_inv_new [simp]: "buf_inv cBuffer_new"
  by (simp add: buf_inv_def cBuffer_new_def)

lemma buf_contents_new [simp]: "buf_contents cBuffer_new = []"
  by (simp add: buf_contents_def cBuffer_new_def)

lemma buf_terminated_new [simp]: "buf_terminated cBuffer_new"
  by (simp add: buf_terminated_def cBuffer_new_def)

lemma buf_inv_NoneD: "buf_inv b \<Longrightarrow> m_pBuffer b = None \<Longrightarrow> m_iBufferSize b = 0 \<and> m_iTail b = 0"
  by (simp add: buf_inv_def)

lemma buf_inv_SomeD:
  "buf_inv b \<Longrightarrow> m_pBuffer b = Some blk \<Longrightarrow>
     0 \<le> m_iTail b \<and> m_iTail b < m_iBufferSize b \<and> m_iBufferSize b \<le> int (length blk)"
  by (simp add: buf_inv_def)

lemma buf_inv_Some_nat:
  assumes "buf_inv b" and "m_pBuffer b = Some blk"
  obtains t z where "m_iTail b = int t" "m_iBufferSize b = int z" "t < z" "z \<le> length blk"
proof -
  note B = buf_inv_SomeD[OF assms]
  then obtain t z where "m_iTail b = int t" "m_iBufferSize b = int z"
    by (metis int_nat_eq less_imp_le order_trans)
  with B show ?thesis by (intro that) auto
qed

lemma buf_inv_tail_nonneg: "buf_inv b \<Longrightarrow> 0 \<le> m_iTail b"
  by (cases "m_pBuffer b") (auto simp: buf_inv_def)

lemma length_buf_contents: "buf_inv b \<Longrightarrow> int (length (buf_contents b)) = m_iTail b"
  by (cases "m_pBuffer b") (auto simp: buf_inv_def buf_contents_def)

lemma buf_contents_block: "buf_contents b \<noteq> [] \<Longrightarrow> m_pBuffer b \<noteq> None"
  by (cases "m_pBuffer b") (auto simp: buf_contents_def)

lemma buf_size_nonneg: "buf_inv b \<Longrightarrow> 0 \<le> m_iBufferSize b"
  by (cases "m_pBuffer b") (auto simp: buf_inv_def)

subsection \<open>Size management\<close>

lemma AdjustSize_ge: "0 \<le> n \<Longrightarrow> n + 8 \<le> cBuffer_AdjustSize b n"
  by (auto simp: cBuffer_AdjustSize_def sizeof_long_def Let_def signed_divide_int_def)

lemma SetBufferSize_safe:
  assumes ml: "malloc_spec ml" and inv: "buf_inv b" and n: "0 \<le> n"
  shows "safe_res ml (cBuffer_SetBufferSize ml n b) (\<lambda>b'.
    buf_inv b' \<and> buf_contents b' = buf_contents b \<and> m_iTail b' = m_iTail b \<and>
    m_pBuffer b' \<noteq> None \<and> n < m_iBufferSize b')"
proof -
  from n obtain k where k: "n = int k" using nonneg_int_cases by blast
  have adj: "n + 8 \<le> cBuffer_AdjustSize b n" using n by (rule AdjustSize_ge)
  then obtain a where a: "cBuffer_AdjustSize b n = int a" and "k + 8 \<le> a"
    using k by (metis nonneg_int_cases[of "cBuffer_AdjustSize b n"] of_nat_0_le_iff
      of_nat_add of_nat_le_iff of_nat_numeral order_trans)
  have alloc: "safe_res ml (do_malloc ml (int a)) (\<lambda>p. length p = a)"
    using do_malloc_safe[OF ml, of "int a"] by simp
  show ?thesis
  proof (cases "m_pBuffer b")
    case None
    from safe_res_bindE[OF alloc] buf_inv_NoneD[OF inv None] show ?thesis
      unfolding cBuffer_SetBufferSize_def Let_def None option.case a
      using \<open>k + 8 \<le> a\<close> k
      by (intro safe_res_bindE[OF alloc]) (auto simp: buf_inv_def buf_contents_def None)
  next
    case (Some blk)
    with inv obtain t z where tz: "m_iTail b = int t" "m_iBufferSize b = int z" "t < z"
      "z \<le> length blk" by (rule buf_inv_Some_nat)
    show ?thesis
    proof (cases "n \<ge> m_iBufferSize b")
      case True
      with tz k \<open>k + 8 \<le> a\<close> have "z \<le> k" "z \<le> a" by auto
      then have "safe_res ml (bindE (do_malloc ml (int a)) (\<lambda>p.
          bindE (mem_get blk 0 (int z)) (\<lambda>d. bindE (mem_put p 0 d) (\<lambda>p.
          Inr (b\<lparr>m_pBuffer := Some p, m_iBufferSize := int a\<rparr>)))))
        (\<lambda>b'. buf_inv b' \<and> buf_contents b' = buf_contents b \<and> m_iTail b' = m_iTail b \<and>
           m_pBuffer b' \<noteq> None \<and> n < m_iBufferSize b')"
        using tz k \<open>k + 8 \<le> a\<close>
        by (intro safe_res_bindE [OF alloc])
          (auto simp: mem_ok buf_inv_def buf_contents_def Some)
      with True Some tz a show ?thesis by (simp add: cBuffer_SetBufferSize_def Let_def)
    next
      case False
      with inv Some show ?thesis by (simp add: cBuffer_SetBufferSize_def)
    qed
  qed
qed

text \<open>An allocated block has room for at least the eight bytes that \<open>AdjustSize\<close> adds.\<close>

lemma SetBufferSize_ge8:
  "cBuffer_SetBufferSize ml n b = Inr b' \<Longrightarrow> 0 \<le> n \<Longrightarrow>
     m_pBuffer b = None \<or> 8 \<le> m_iBufferSize b \<Longrightarrow> 8 \<le> m_iBufferSize b'"
  using AdjustSize_ge[of n b]
  by (auto simp: cBuffer_SetBufferSize_def Let_def res_simps split: option.splits if_splits)

lemma MakeString_Some:
  "m_pBuffer b = Some blk \<Longrightarrow> m_iTail b = int t \<Longrightarrow> t < length blk \<Longrightarrow>
     cBuffer_MakeString b = Inr (b\<lparr>m_pBuffer := Some (blk[t := NUL])\<rparr>)"
  by (simp add: cBuffer_MakeString_def mem_ok)

lemma MakeString_ok:
  assumes "buf_inv b"
  shows "\<exists>b'. cBuffer_MakeString b = Inr b' \<and> buf_inv b' \<and> buf_contents b' = buf_contents b \<and>
    m_iTail b' = m_iTail b \<and> m_iBufferSize b' = m_iBufferSize b \<and> buf_terminated b' \<and>
    (m_pBuffer b' = None \<longleftrightarrow> m_pBuffer b = None)"
proof (cases "m_pBuffer b")
  case None
  with assms show ?thesis by (simp add: cBuffer_MakeString_def buf_terminated_def)
next
  case (Some blk)
  with assms obtain t z where "m_iTail b = int t" "m_iBufferSize b = int z" "t < z"
    "z \<le> length blk" by (rule buf_inv_Some_nat)
  with assms Some show ?thesis
    by (auto simp: MakeString_Some buf_inv_def buf_contents_def buf_terminated_def take_update_cancel)
qed

lemma set_block_simps [simp]:
  "m_pBuffer (set_block blk b) = map_option (\<lambda>_. blk) (m_pBuffer b)"
  "m_iTail (set_block blk b) = m_iTail b"
  "m_iBufferSize (set_block blk b) = m_iBufferSize b"
  by (simp_all add: set_block_def)

subsection \<open>Editing\<close>

lemma arg_len_cstr: "NUL \<notin> set s \<Longrightarrow> arg_len (cstr s) (-1) = Inr (int (length s))"
  by (simp add: arg_len_def cstr_at_cstr)

lemma arg_len_nat [simp]: "arg_len d (int n) = Inr (int n)"
  by (simp add: arg_len_def)

text \<open>The tail of \<open>Append\<close>, after the room has been made.\<close>

lemma append_store:
  assumes inv: "buf_inv b" and p: "m_pBuffer b = Some blk" and n: "n \<le> length src"
    and room: "m_iTail b + int n < m_iBufferSize b"
  shows "\<exists>b'. bindE (mem_get src 0 (int n)) (\<lambda>d.
      bindE (mem_put (deref (m_pBuffer b)) (m_iTail b) d) (\<lambda>p.
      bindE (cBuffer_MakeString ((set_block p b)\<lparr>m_iTail := m_iTail b + int n\<rparr>)) (\<lambda>b.
      Inr (BUFFER_NO_ERROR, b)))) = Inr (BUFFER_NO_ERROR, b') \<and>
    buf_inv b' \<and> buf_contents b' = buf_contents b @ take n src \<and> buf_terminated b' \<and>
    m_pBuffer b' \<noteq> None"
proof -
  from inv p obtain t z where tz: "m_iTail b = int t" "m_iBufferSize b = int z" "t < z"
    "z \<le> length blk" by (rule buf_inv_Some_nat)
  with room have tn: "t + n < z" by simp
  let ?blk = "take t blk @ take n src @ drop (t + n) blk"
  have "mem_put blk (int t) (take n src) = Inr ?blk"
    using tn tz n by (simp add: mem_ok)
  moreover have "cBuffer_MakeString ((set_block ?blk b)\<lparr>m_iTail := int (t + n)\<rparr>) =
      Inr ((set_block ?blk b)\<lparr>m_iTail := int (t + n), m_pBuffer := Some (?blk[t + n := NUL])\<rparr>)"
    using p tn tz n by (intro MakeString_Some) auto
  ultimately show ?thesis
    using tn tz n p
    by (auto simp: nat_int_add mem_ok buf_inv_def buf_contents_def buf_terminated_def take_update_cancel)
qed

lemma Append_core_safe:
  assumes ml: "malloc_spec ml" and inv: "buf_inv b" and n: "n \<le> length src"
  shows "safe_res ml
    (bindE
      (if int n \<ge> m_iBufferSize b - m_iTail b then
         cBuffer_SetBufferSize ml (int n - (m_iBufferSize b - m_iTail b) + m_iBufferSize b) b
       else Inr b) (\<lambda>b.
     bindE (mem_get src 0 (int n)) (\<lambda>d.
     bindE (mem_put (deref (m_pBuffer b)) (m_iTail b) d) (\<lambda>p.
     bindE (cBuffer_MakeString ((set_block p b)\<lparr>m_iTail := m_iTail b + int n\<rparr>)) (\<lambda>b.
     Inr (BUFFER_NO_ERROR, b))))))
    (\<lambda>(rc, b'). rc = BUFFER_NO_ERROR \<and> buf_inv b' \<and>
       buf_contents b' = buf_contents b @ take n src \<and> buf_terminated b' \<and> m_pBuffer b' \<noteq> None)"
  (is "safe_res ml (bindE ?room ?store) ?P")
proof -
  have "safe_res ml ?room (\<lambda>b'. buf_inv b' \<and> buf_contents b' = buf_contents b \<and>
      m_pBuffer b' \<noteq> None \<and> m_iTail b' + int n < m_iBufferSize b')"
  proof (cases "int n \<ge> m_iBufferSize b - m_iTail b")
    case True
    have "0 \<le> int n + m_iTail b" using buf_inv_tail_nonneg[OF inv] by simp
    from SetBufferSize_safe[OF ml inv this] show ?thesis
      using True by (auto elim!: safe_res_mono simp: algebra_simps)
  next
    case False
    then have "m_pBuffer b \<noteq> None" using inv
      by (cases "m_pBuffer b") (auto dest: buf_inv_NoneD)
    with False inv show ?thesis by auto
  qed
  then show ?thesis
  proof (rule safe_res_bindE)
    fix b' assume b': "buf_inv b' \<and> buf_contents b' = buf_contents b \<and>
      m_pBuffer b' \<noteq> None \<and> m_iTail b' + int n < m_iBufferSize b'"
    then obtain blk where "m_pBuffer b' = Some blk" by auto
    with append_store[of b' blk n src] b' n show "safe_res ml (?store b') ?P" by auto
  qed
qed

lemma Append_safe:
  assumes "malloc_spec ml" "buf_inv b" "n \<le> length src"
  shows "safe_res ml (cBuffer_Append ml (Some src) (int n) b) (\<lambda>(rc, b'). rc = BUFFER_NO_ERROR \<and>
    buf_inv b' \<and> buf_contents b' = buf_contents b @ take n src \<and>
    (n \<noteq> 0 \<longrightarrow> buf_terminated b' \<and> m_pBuffer b' \<noteq> None) \<and> (n = 0 \<longrightarrow> b' = b))"
proof (cases "n = 0")
  case True
  with assms show ?thesis by (simp add: cBuffer_Append_def BUFFER_NO_ERROR_def)
next
  case False
  with Append_core_safe[OF assms] show ?thesis
    by (auto simp: cBuffer_Append_def elim!: safe_res_mono)
qed

lemma Append_cstr_safe:
  assumes "malloc_spec ml" "buf_inv b" "NUL \<notin> set s"
  shows "safe_res ml (cBuffer_Append ml (Some (cstr s)) (-1) b) (\<lambda>(rc, b'). rc = BUFFER_NO_ERROR \<and>
    buf_inv b' \<and> buf_contents b' = buf_contents b @ s \<and> buf_terminated b' \<and> m_pBuffer b' \<noteq> None)"
proof -
  have "length s \<le> length (cstr s)" by simp
  from Append_core_safe[OF assms(1,2) this] assms(3) show ?thesis
    by (auto simp: cBuffer_Append_def arg_len_cstr elim!: safe_res_mono)
qed

lemma buf_inv_Reset: "buf_inv b \<Longrightarrow> buf_inv (cBuffer_Reset b)"
  by (cases "m_pBuffer b") (auto simp: buf_inv_def cBuffer_Reset_def)

lemma buf_contents_Reset [simp]: "buf_contents (cBuffer_Reset b) = []"
  by (simp add: buf_contents_def cBuffer_Reset_def)

lemma ReplaceWith_safe:
  assumes "malloc_spec ml" "buf_inv b" "n \<le> length src"
  shows "safe_res ml (cBuffer_ReplaceWith ml (Some src) (int n) b) (\<lambda>(rc, b').
    rc = BUFFER_NO_ERROR \<and> buf_inv b' \<and> buf_contents b' = take n src)"
  using Append_safe[OF assms(1) buf_inv_Reset[OF assms(2)] assms(3)]
  by (auto simp: cBuffer_ReplaceWith_def elim!: safe_res_mono)

text \<open>The two ways \<open>Insert\<close> makes room, on the blocks alone: \<open>c\<close> are the old contents.\<close>

lemma insert_grow:
  assumes "take t m = c" "t \<le> length m" "i \<le> t" "n \<le> length d" "t + n \<le> length p"
  shows "bindE (mem_put p (int i + int n) (drop i c)) (\<lambda>p.
     bindE (mem_get d 0 (int n)) (\<lambda>d.
     bindE (mem_put p (int i) d) (\<lambda>p.
     bindE (if int i \<noteq> 0 then bindE (mem_get m 0 (int i)) (mem_put p 0) else Inr p) f))) =
   f ((take i c @ take n d @ drop i c) @ drop (t + n) p)"
proof -
  let ?p1 = "take (i + n) p @ drop i c @ drop (t + n) p"
  let ?p2 = "take i p @ take n d @ drop i c @ drop (t + n) p"
  have len: "length c = t" using assms by auto
  have 1: "mem_put p (int i + int n) (drop i c) = Inr ?p1"
    using assms len by (simp add: mem_ok ac_simps)
  have 2: "mem_get d 0 (int n) = Inr (take n d)" using assms by (simp add: mem_ok)
  have 3: "mem_put ?p1 (int i) (take n d) = Inr ?p2"
    using assms len by (simp add: mem_ok min_def)
  have "take i m = take i c" using assms by (auto simp: min_def)
  then have 4: "(if int i \<noteq> 0 then bindE (mem_get m 0 (int i)) (mem_put ?p2 0) else Inr ?p2) =
      Inr ((take i c @ take n d @ drop i c) @ drop (t + n) p)"
    using assms len by (auto simp: mem_ok min_def)
  show ?thesis unfolding 1 2 bindE.simps 3 4 ..
qed

lemma insert_in_place:
  assumes "take t m = c" "i \<le> t" "n \<le> length d" "t + n \<le> length m"
  shows "bindE (mem_put m (int i + int n) (drop i c)) (\<lambda>p.
     bindE (mem_get d 0 (int n)) (\<lambda>d. bindE (mem_put p (int i) d) f)) =
   f ((take i c @ take n d @ drop i c) @ drop (t + n) m)"
proof -
  let ?p1 = "take (i + n) m @ drop i c @ drop (t + n) m"
  have len: "length c = t" using assms by auto
  have 1: "mem_put m (int i + int n) (drop i c) = Inr ?p1"
    using assms len by (simp add: mem_ok ac_simps)
  have 2: "mem_get d 0 (int n) = Inr (take n d)" using assms by (simp add: mem_ok)
  have "take i m = take i c" using assms by (auto simp: min_def)
  then have 3: "mem_put ?p1 (int i) (take n d) = Inr ((take i c @ take n d @ drop i c) @ drop (t + n) m)"
    using assms len by (simp add: mem_ok min_def)
  show ?thesis unfolding 1 2 bindE.simps 3 ..
qed

text \<open>The sizes of a buffer as natural numbers.\<close>

lemma buf_inv_nat:
  assumes "buf_inv b"
  obtains t z where "m_iTail b = int t" "m_iBufferSize b = int z" "t \<le> z"
    "z \<le> length (deref (m_pBuffer b))" "m_pBuffer b \<noteq> None \<longrightarrow> t < z"
    "buf_contents b = take t (deref (m_pBuffer b))"
proof (cases "m_pBuffer b")
  case None
  with buf_inv_NoneD[OF assms] that[of 0 0] show ?thesis by (simp add: buf_contents_def)
next
  case (Some blk)
  with assms obtain t z where "m_iTail b = int t" "m_iBufferSize b = int z" "t < z"
    "z \<le> length blk" by (rule buf_inv_Some_nat)
  with that[of t z] Some show ?thesis by (simp add: buf_contents_def)
qed

lemma MakeString_new_block:
  assumes "length c = k" "r \<noteq> []" "k < z" "z \<le> k + length r"
  shows "safe_res ml (cBuffer_MakeString (b\<lparr>m_pBuffer := Some (c @ r), m_iBufferSize := int z,
      m_iTail := int k\<rparr>)) (\<lambda>b'. buf_inv b' \<and> buf_contents b' = c \<and> buf_terminated b')"
proof -
  let ?b = "b\<lparr>m_pBuffer := Some (c @ r), m_iBufferSize := int z, m_iTail := int k\<rparr>"
  have "buf_inv ?b" "buf_contents ?b = c"
    using assms by (auto simp: buf_inv_def buf_contents_def)
  with MakeString_ok[of ?b] show ?thesis by auto
qed

text \<open>Insertion splits the contents at the index; both ways of making room give the same result.\<close>

lemma Insert_safe:
  assumes ml: "malloc_spec ml" and inv: "buf_inv b" and i: "i \<le> length (buf_contents b)"
    and n: "n \<le> length d"
  shows "safe_res ml (cBuffer_Insert ml (int i) d (int n) b) (\<lambda>b'. buf_inv b' \<and>
    buf_contents b' = take i (buf_contents b) @ take n d @ drop i (buf_contents b) \<and>
    buf_terminated b')"
proof -
  from inv obtain t z where tz: "m_iTail b = int t" "m_iBufferSize b = int z" "t \<le> z"
    "z \<le> length (deref (m_pBuffer b))" "m_pBuffer b \<noteq> None \<longrightarrow> t < z"
    "buf_contents b = take t (deref (m_pBuffer b))" by (rule buf_inv_nat)
  let ?m = "deref (m_pBuffer b)" and ?c = "buf_contents b"
  let ?new = "take i ?c @ take n d @ drop i ?c"
  have it: "i \<le> t" and len: "length ?new = t + n" using i n tz by auto
  have get: "mem_get ?m (int i) (int t - int i) = Inr (drop i ?c)"
    using mem_get_ok[of "int i" "int t - int i" ?m] it tz by (simp add: drop_take)
  show ?thesis
  proof (cases "int n + m_iTail b + 1 > m_iBufferSize b")
    case True
    obtain k where k: "cBuffer_AdjustSize b (int n + int t + 1) = int k" "n + t + 9 \<le> k"
      using AdjustSize_ge[of "int n + int t + 1" b] that[of "nat (cBuffer_AdjustSize b (int n + int t + 1))"]
      by simp
    have alloc: "safe_res ml (do_malloc ml (int k + 1)) (\<lambda>p. length p = k + 1)"
      using do_malloc_safe[OF ml, of "int k + 1"] by (simp add: nat_add_distrib)
    show ?thesis
      unfolding cBuffer_Insert_def arg_len_nat bindE.simps Let_def tz(1) get k(1)
        if_P[OF True[unfolded tz(1)]]
    proof (rule safe_res_bindE[OF alloc])
      fix p :: block assume p: "length p = k + 1"
      have "safe_res ml (cBuffer_MakeString (b\<lparr>m_pBuffer := Some (?new @ drop (t + n) p),
          m_iBufferSize := int k, m_iTail := int t + int n\<rparr>))
        (\<lambda>b'. buf_inv b' \<and> buf_contents b' = ?new \<and> buf_terminated b')"
        using MakeString_new_block[OF len, of "drop (t + n) p" k] p k by simp
      then show "safe_res ml (bindE (mem_put p (int i + int n) (drop i ?c)) (\<lambda>p.
          bindE (mem_get d 0 (int n)) (\<lambda>d. bindE (mem_put p (int i) d) (\<lambda>p.
          bindE (if int i \<noteq> 0 then bindE (mem_get ?m 0 (int i)) (mem_put p 0) else Inr p) (\<lambda>p.
          cBuffer_MakeString (b\<lparr>m_pBuffer := Some p, m_iBufferSize := int k,
            m_iTail := int t + int n\<rparr>))))))
        (\<lambda>b'. buf_inv b' \<and> buf_contents b' = ?new \<and> buf_terminated b')"
        by (subst insert_grow[OF tz(6)[symmetric]]) (use tz it n p k in auto)
    qed
  next
    case False
    then have room: "n + t < z" using tz by auto
    then have some: "m_pBuffer b \<noteq> None" using tz by (cases "m_pBuffer b") auto
    have upd: "(set_block q b)\<lparr>m_iTail := int t + int n\<rparr> =
        b\<lparr>m_pBuffer := Some q, m_iBufferSize := int z, m_iTail := int (t + n)\<rparr>" for q
      using some tz by (auto simp: set_block_def)
    show ?thesis
      unfolding cBuffer_Insert_def arg_len_nat bindE.simps Let_def tz(1) get upd
        if_not_P[OF False[unfolded tz(1)]]
      by (subst insert_in_place[OF tz(6)[symmetric]])
        (use tz it n room MakeString_new_block[OF len, of "drop (t + n) ?m" z] in auto)
  qed
qed

lemma Remove_ok:
  assumes inv: "buf_inv b" and n: "0 < n" and i: "i + n \<le> length (buf_contents b)"
  shows "\<exists>b'. cBuffer_Remove (int i) (int n) b = Inr (BUFFER_NO_ERROR, b') \<and> buf_inv b' \<and>
    buf_contents b' = take i (buf_contents b) @ drop (i + n) (buf_contents b)"
proof -
  from i n have "m_pBuffer b \<noteq> None" by (cases "m_pBuffer b") (auto simp: buf_contents_def)
  then obtain blk where p: "m_pBuffer b = Some blk" by auto
  with inv obtain t z where tz: "m_iTail b = int t" "m_iBufferSize b = int z" "t < z"
    "z \<le> length blk" by (rule buf_inv_Some_nat)
  have cont: "buf_contents b = take t blk" using tz p by (simp add: buf_contents_def)
  have "i + n \<le> t" using i tz by (simp add: cont)
  then obtain u where u: "t = i + n + u" using le_iff_add by blast
  let ?suf = "take u (drop (i + n) blk)"
  have suf: "drop (i + n) (take t blk) = ?suf" "take i (take t blk) = take i blk"
    using u by (simp_all add: drop_take)
  have lens: "length (take i blk) = i" "length ?suf = u" using u tz by auto
  show ?thesis
  proof (cases "u = 0")
    case True
    then show ?thesis
      using tz p n u by (auto simp: cBuffer_Remove_def Let_def cont buf_inv_def buf_contents_def
        set_block_def)
  next
    case False
    have get: "mem_get blk (int n + int i) (int u) = Inr ?suf"
      using u tz by (simp add: mem_ok add.commute)
    have put: "mem_put blk (int i) ?suf = Inr (take i blk @ ?suf @ drop (i + u) blk)"
      using u tz by (simp add: mem_ok)
    have "cBuffer_Remove (int i) (int n) b = Inr (BUFFER_NO_ERROR,
        (set_block (take i blk @ ?suf @ drop (i + u) blk) b)\<lparr>m_iTail := int (i + u)\<rparr>)"
      using False tz p n u get put by (auto simp: cBuffer_Remove_def Let_def)
    then show ?thesis
      using tz p u suf lens by (auto simp: buf_inv_def buf_contents_def cont)
  qed
qed

subsection \<open>Searching and replacing\<close>

text \<open>On contents without a NUL byte, \<open>Find\<close> is the first occurrence at or after the offset.\<close>

lemma c_prefix_NUL: "c_prefix (s @ NUL # t) = c_prefix s"
  by (induction s) (auto simp: c_prefix_def)

lemma cstr_at_prefix:
  assumes "buf_inv b" "buf_terminated b" "m_pBuffer b \<noteq> None" "i \<le> length (buf_contents b)"
  shows "cstr_at (deref (m_pBuffer b)) (int i) = Inr (c_prefix (drop i (buf_contents b)))"
proof -
  from assms(3) obtain blk where p: "m_pBuffer b = Some blk" by auto
  with assms(1) obtain t z where tz: "m_iTail b = int t" "m_iBufferSize b = int z" "t < z"
    "z \<le> length blk" by (rule buf_inv_Some_nat)
  have c: "buf_contents b = take t blk" using tz p by (simp add: buf_contents_def)
  have "blk ! t = NUL" using assms(2) tz p by (simp add: buf_terminated_def)
  then have split: "blk = take t blk @ NUL # drop (Suc t) blk"
    using tz id_take_nth_drop[of t blk] by simp
  have "i \<le> t" using assms(4) c by auto
  then have "drop i blk = drop i (take t blk) @ NUL # drop (Suc t) blk"
    using arg_cong[OF split, of "drop i"] tz by simp
  then show ?thesis using p c by (simp add: cstr_at_def c_prefix_NUL)
qed

lemma cstr_at_contents:
  assumes "buf_inv b" "buf_terminated b" "m_pBuffer b \<noteq> None" "NUL \<notin> set (buf_contents b)"
    "i \<le> length (buf_contents b)"
  shows "cstr_at (deref (m_pBuffer b)) (int i) = Inr (drop i (buf_contents b))"
  using cstr_at_prefix[OF assms(1-3,5)] c_prefix_id[of "drop i (buf_contents b)"] assms(4)
  by (auto dest: in_set_dropD)

lemma Find_prefix:
  assumes inv: "buf_inv b" and i: "i \<le> length (buf_contents b)" and ne: "buf_contents b \<noteq> []"
  shows "\<exists>b'. cBuffer_Find pat (int i) b =
      Inr (case str_find (c_prefix (drop i (buf_contents b))) pat of Some j \<Rightarrow> int (i + j) | None \<Rightarrow> -1, b') \<and>
    buf_inv b' \<and> buf_contents b' = buf_contents b \<and> buf_terminated b'"
proof -
  obtain b' where b': "cBuffer_MakeString b = Inr b'" "buf_inv b'" "buf_contents b' = buf_contents b"
    "buf_terminated b'" "m_pBuffer b' = None \<longleftrightarrow> m_pBuffer b = None"
    using MakeString_ok[OF inv] by auto
  have "m_pBuffer b \<noteq> None" "m_iTail b \<noteq> 0"
    using ne buf_contents_block[OF ne] by (auto simp: buf_contents_def)
  with b' cstr_at_prefix[of b' i] i show ?thesis
    by (auto simp: cBuffer_Find_def split: option.splits)
qed

lemma Find_ok:
  assumes inv: "buf_inv b" and nz: "NUL \<notin> set (buf_contents b)"
    and i: "i \<le> length (buf_contents b)" and ne: "buf_contents b \<noteq> []"
  shows "\<exists>b'. cBuffer_Find pat (int i) b =
      Inr (case str_find (drop i (buf_contents b)) pat of Some j \<Rightarrow> int (i + j) | None \<Rightarrow> -1, b') \<and>
    buf_inv b' \<and> buf_contents b' = buf_contents b \<and> buf_terminated b'"
proof -
  have "c_prefix (drop i (buf_contents b)) = drop i (buf_contents b)"
    using nz by (intro c_prefix_id) (auto dest: in_set_dropD)
  with Find_prefix[OF inv i ne, of pat] show ?thesis by simp
qed

lemma Find_empty: "buf_inv b \<Longrightarrow> buf_contents b = [] \<Longrightarrow> cBuffer_Find pat i b = Inr (-1, b)"
  using length_buf_contents[of b] by (simp add: cBuffer_Find_def)

text \<open>The reference for \<open>ReplaceAll\<close>: every occurrence, left to right, without overlap.\<close>

function replace_all :: "string \<Rightarrow> string \<Rightarrow> string \<Rightarrow> string" where
  "replace_all pat w s =
     (if pat = [] then s
      else case str_find s pat of
        None \<Rightarrow> s
      | Some i \<Rightarrow> take i s @ w @ replace_all pat w (drop (i + length pat) s))"
  by pat_completeness auto
termination
proof (relation "measure (\<lambda>(pat, w, s). length s)")
  fix pat w s :: string and i
  assume "pat \<noteq> []" and i: "str_find s pat = Some i"
  then show "((pat, w, drop (i + length pat) s), pat, w, s) \<in> measure (\<lambda>(pat, w, s). length s)"
    using str_find_Some_bound[OF i] by (cases pat) auto
qed simp

declare replace_all.simps [simp del]

lemma replace_all_nil [simp]: "replace_all pat w [] = []"
  by (simp add: replace_all.simps)

lemma replace_all_no_NUL:
  "NUL \<notin> set s \<Longrightarrow> NUL \<notin> set w \<Longrightarrow> NUL \<notin> set (replace_all pat w s)"
proof (induction pat w s rule: replace_all.induct)
  case (1 pat w s)
  then show ?case
    by (subst replace_all.simps)
      (auto split: option.splits dest: in_set_takeD in_set_dropD)
qed

text \<open>One round of the loop: the occurrence found at \<open>i + j\<close> is taken out and \<open>w\<close> put in.\<close>

lemma replace_round:
  assumes ml: "malloc_spec ml" and inv: "buf_inv b" and c: "buf_contents b = pre @ s"
    and j: "str_find s pat = Some j" and pat: "pat \<noteq> []"
    and k: "\<And>b'. buf_inv b' \<Longrightarrow>
      buf_contents b' = (pre @ take j s @ w) @ drop (j + length pat) s \<Longrightarrow> safe_res ml (k b') Q"
  shows "safe_res ml (bindE (cBuffer_Remove (int (length pre + j)) (int (length pat)) b) (\<lambda>(_, b).
    bindE (cBuffer_Insert ml (int (length pre + j)) (cstr w) (int (length w)) b) k)) Q"
proof -
  let ?i = "length pre + j"
  have jl: "j + length pat \<le> length s" using j by (rule str_find_Some_bound)
  have "0 < length pat" "?i + length pat \<le> length (buf_contents b)" using pat jl c by auto
  from Remove_ok[OF inv this] obtain b1 where b1:
    "cBuffer_Remove (int ?i) (int (length pat)) b = Inr (BUFFER_NO_ERROR, b1)" "buf_inv b1"
    "buf_contents b1 = take ?i (buf_contents b) @ drop (?i + length pat) (buf_contents b)"
    by blast
  have c1: "buf_contents b1 = (pre @ take j s) @ drop (j + length pat) s"
    using b1(3) c jl by simp
  have "?i \<le> length (buf_contents b1)" "length w \<le> length (cstr w)" using c1 jl by auto
  from safe_res_bindE[OF Insert_safe[OF ml b1(2) this], of k Q] show ?thesis
    unfolding b1(1) bindE.simps prod.case using k c1 jl by simp
qed

lemma replace_loop_safe:
  assumes ml: "malloc_spec ml" and pat: "pat \<noteq> []" and w: "NUL \<notin> set w"
  shows "buf_inv b \<Longrightarrow> buf_contents b = pre @ s \<Longrightarrow> NUL \<notin> set (pre @ s) \<Longrightarrow> length s < fuel \<Longrightarrow>
    safe_res ml (replace_loop fuel ml pat w (int (length pre)) b)
      (\<lambda>b'. buf_inv b' \<and> buf_contents b' = pre @ replace_all pat w s)"
proof (induction fuel arbitrary: b pre s)
  case (Suc fuel)
  show ?case
  proof (cases "pre @ s = []")
    case True
    with Suc.prems show ?thesis by (simp add: Find_empty)
  next
    case False
    then have "\<exists>b'. cBuffer_Find pat (int (length pre)) b =
        Inr (case str_find s pat of Some j \<Rightarrow> int (length pre + j) | None \<Rightarrow> -1, b') \<and>
      buf_inv b' \<and> buf_contents b' = pre @ s"
      using Find_ok[OF Suc.prems(1), of "length pre" pat] Suc.prems(2,3) by auto
    then obtain b1 where b1: "cBuffer_Find pat (int (length pre)) b =
        Inr (case str_find s pat of Some j \<Rightarrow> int (length pre + j) | None \<Rightarrow> -1, b1)"
      "buf_inv b1" "buf_contents b1 = pre @ s" by blast
    show ?thesis
    proof (cases "str_find s pat")
      case None
      with b1 pat show ?thesis by (simp add: replace_all.simps)
    next
      case (Some j)
      note bound = str_find_Some_bound[OF Some]
      have rest: "length (drop (j + length pat) s) < fuel" using Suc.prems(4) pat bound
        by (cases pat) auto
      have loop: "safe_res ml (replace_loop fuel ml pat w (int (length pre + j) + int (length w)) b2)
          (\<lambda>b'. buf_inv b' \<and> buf_contents b' = pre @ replace_all pat w s)"
        if b2: "buf_inv b2" "buf_contents b2 = (pre @ take j s @ w) @ drop (j + length pat) s" for b2
      proof -
        have "NUL \<notin> set ((pre @ take j s @ w) @ drop (j + length pat) s)"
          using Suc.prems(3) w by (auto dest: in_set_takeD in_set_dropD)
        moreover have "int (length (pre @ take j s @ w)) = int (length pre + j) + int (length w)"
          using bound by simp
        ultimately show ?thesis
          using Suc.IH[OF b2 _ rest] pat Some by (simp add: replace_all.simps[of pat w s] add.assoc)
      qed
      have ne: "int (length pre + j) \<noteq> -1" by simp
      show ?thesis
        unfolding replace_loop.simps b1(1) Some option.case bindE.simps prod.case if_not_P[OF ne]
        by (rule replace_round[OF ml b1(2,3) Some pat loop])
    qed
  qed
qed simp

lemma ReplaceAll_safe:
  assumes "malloc_spec ml" "buf_inv b" "pat \<noteq> []" "NUL \<notin> set w" "NUL \<notin> set (buf_contents b)"
  shows "safe_res ml (cBuffer_ReplaceAll ml pat w b)
    (\<lambda>b'. buf_inv b' \<and> buf_contents b' = replace_all pat w (buf_contents b))"
proof -
  have "nat (m_iTail b) = length (buf_contents b)"
    using length_buf_contents[OF assms(2)] by simp
  then show ?thesis
    using replace_loop_safe[OF assms(1,3,4) assms(2), of "[]" "buf_contents b"
      "Suc (length (buf_contents b))"] assms(5)
    by (simp add: cBuffer_ReplaceAll_def del: replace_loop.simps)
qed

lemma bf_inner_starts:
  assumes "t < length blk" "blk ! t = NUL" "NUL \<notin> set pat"
  shows "i \<le> t \<Longrightarrow> bf_inner blk (int i) pat = Inr (starts_with pat (drop i (take t blk)))"
  using assms(3)
proof (induction pat arbitrary: i)
  case (Cons p ps)
  show ?case
  proof (cases "i < t")
    case True
    then have "drop i (take t blk) = blk ! i # drop (Suc i) (take t blk)"
      using assms(1) by (metis Cons_nth_drop_Suc length_take min.absorb4 nth_take)
    with True Cons.IH[of "Suc i"] Cons.prems assms(1) show ?thesis
      by (simp add: mem_ok add.commute)
  next
    case False
    with Cons.prems have "i = t" by simp
    with assms Cons.prems show ?thesis by (auto simp: mem_ok)
  qed
qed simp

lemma bf_outer_find:
  assumes "t < length blk" "blk ! t = NUL" "NUL \<notin> set pat" "pat \<noteq> []"
  shows "k + n = t \<Longrightarrow> bf_outer blk 0 pat (int k) n =
    Inr (case str_find (drop k (take t blk)) pat of Some j \<Rightarrow> int (k + j) | None \<Rightarrow> -1)"
proof (induction n arbitrary: k)
  case 0
  with assms show ?case by simp
next
  case (Suc n)
  then have "drop k (take t blk) = blk ! k # drop (Suc k) (take t blk)"
    using assms(1) by (metis Cons_nth_drop_Suc length_take less_add_Suc1 min.absorb4 nth_take
      add_Suc_right)
  with Suc.IH[of "Suc k"] Suc.prems bf_inner_starts[OF assms(1-3), of k] show ?case
    by (auto simp: add.commute split: option.splits)
qed

lemma fc_loop_find:
  "i + n \<le> length blk \<Longrightarrow> fc_loop blk ch (int i) n =
     Inr (case char_find (take n (drop i blk)) ch of Some j \<Rightarrow> int (i + j) | None \<Rightarrow> -1)"
proof (induction n arbitrary: i)
  case (Suc n)
  then have "take (Suc n) (drop i blk) = blk ! i # take n (drop (Suc i) blk)"
    by (simp add: take_Suc_conv_app_nth Cons_nth_drop_Suc [symmetric])
  with Suc.IH[of "Suc i"] Suc.prems show ?case
    by (auto simp: mem_ok add.commute split: option.splits)
qed simp

lemma FindChar_ok:
  assumes "buf_inv b" "i \<le> length (buf_contents b)"
  shows "cBuffer_FindChar ch (int i) b =
    Inr (case char_find (drop i (buf_contents b)) ch of Some j \<Rightarrow> int (i + j) | None \<Rightarrow> -1)"
proof -
  from assms(1) obtain t z where tz: "m_iTail b = int t" "m_iBufferSize b = int z" "t \<le> z"
    "z \<le> length (deref (m_pBuffer b))" "m_pBuffer b \<noteq> None \<longrightarrow> t < z"
    "buf_contents b = take t (deref (m_pBuffer b))" by (rule buf_inv_nat)
  with assms(2) fc_loop_find[of i "t - i" "deref (m_pBuffer b)" ch] show ?thesis
    by (simp add: cBuffer_FindChar_def drop_take)
qed

subsection \<open>Whole-buffer transformations\<close>

lemma xor_char_involution: "xor_char (xor_char c k i) k i = c"
proof -
  have "Bit_Operations.xor (Bit_Operations.xor (Bit_Operations.xor (Bit_Operations.xor x y) z) y) z = x"
    for x y z :: "8 word"
    by (simp add: ac_simps)
  then show ?thesis by (simp add: xor_char_def)
qed

lemma crypto_loop_involution:
  "crypto_loop key p i cs = Inr out \<Longrightarrow> crypto_loop key p i out = Inr cs"
proof (induction cs arbitrary: p i out)
  case (Cons c cs)
  from Cons.prems obtain k k2 out' where k: "mem_read key (int p) = Inr k"
      "mem_read key (int (if k = NUL then 0 else p)) = Inr k2"
    and rec: "crypto_loop key (Suc (if k = NUL then 0 else p)) (Suc i) cs = Inr out'"
    and out: "out = xor_char c k2 i # out'"
    by (auto simp: res_simps Let_def)
  from Cons.IH[OF rec] k out show ?case
    by (simp only: crypto_loop.simps Let_def bindE.simps xor_char_involution)
qed simp

lemma crypto_loop_length: "crypto_loop key p i cs = Inr out \<Longrightarrow> length out = length cs"
  by (induction cs arbitrary: p i out) (auto simp: res_simps Let_def)

lemma crypto_loop_returns:
  assumes "k \<noteq> []" "NUL \<notin> set k"
  shows "p \<le> length k \<Longrightarrow> \<exists>out. crypto_loop (cstr k) p i cs = Inr out"
proof (induction cs arbitrary: p i)
  case (Cons c cs)
  have 0: "cstr k ! 0 \<noteq> NUL" using assms by (cases k) (auto simp: cstr_def)
  show ?case
  proof (cases "cstr k ! p = NUL")
    case True
    obtain out where "crypto_loop (cstr k) (Suc 0) (Suc i) cs = Inr out"
      using Cons.IH[of "Suc 0" "Suc i"] assms(1) by (cases k) auto
    with True Cons.prems show ?thesis by (simp add: mem_ok)
  next
    case False
    then have "p < length k" using Cons.prems by (cases "p = length k") (auto simp: cstr_def)
    with Cons.IH[of "Suc p" "Suc i"] obtain out where
      "crypto_loop (cstr k) (Suc p) (Suc i) cs = Inr out" by auto
    with False Cons.prems show ?thesis by (simp add: mem_ok)
  qed
qed simp

text \<open>Overwriting the contents with as many bytes.\<close>

lemma overwrite_contents:
  assumes "buf_inv b" "length out = length (buf_contents b)"
  shows "\<exists>blk. mem_put (deref (m_pBuffer b)) 0 out = Inr blk \<and> buf_inv (set_block blk b) \<and>
    buf_contents (set_block blk b) = out"
proof -
  from assms(1) obtain t z where tz: "m_iTail b = int t" "m_iBufferSize b = int z" "t \<le> z"
    "z \<le> length (deref (m_pBuffer b))" "m_pBuffer b \<noteq> None \<longrightarrow> t < z"
    "buf_contents b = take t (deref (m_pBuffer b))" by (rule buf_inv_nat)
  with assms show ?thesis
    by (cases "m_pBuffer b") (auto simp: mem_put_0 buf_inv_def buf_contents_def)
qed

lemma get_contents:
  "buf_inv b \<Longrightarrow> mem_get (deref (m_pBuffer b)) 0 (m_iTail b) = Inr (buf_contents b)"
  by (erule buf_inv_nat) (simp add: mem_ok)

lemma map_buffer_ok:
  assumes "buf_inv b"
  shows "\<exists>b'. map_buffer f b = Inr b' \<and> buf_inv b' \<and> buf_contents b' = map f (buf_contents b)"
  using overwrite_contents[OF assms, of "map f (buf_contents b)"]
  by (auto simp: map_buffer_def get_contents[OF assms])

lemma Crypto_ok:
  assumes "buf_inv b" "crypto_loop key 0 0 (buf_contents b) = Inr out"
  shows "\<exists>b'. cBuffer_Crypto key b = Inr b' \<and> buf_inv b' \<and> buf_contents b' = out"
  using overwrite_contents[OF assms(1) crypto_loop_length[OF assms(2)]] assms(2)
  by (auto simp: cBuffer_Crypto_def get_contents[OF assms(1)])

section \<open>The interface of a byte buffer\<close>

text \<open>
  What the classes built on \<open>cBuffer\<close> rely on: a fresh buffer is empty, replacing and appending
  put exactly the given bytes, emptying leaves nothing, and none of it can fault. \<open>put_all\<close> is
  the pattern of the writers that append piece after piece.
\<close>

fun foldE :: "('a \<Rightarrow> 'b \<Rightarrow> 'b res) \<Rightarrow> 'a list \<Rightarrow> 'b \<Rightarrow> 'b res" where
  "foldE f [] b = Inr b"
| "foldE f (x # xs) b = bindE (f x b) (foldE f xs)"

locale byte_buffer =
  fixes inv :: "'b \<Rightarrow> bool"
    and bytes :: "'b \<Rightarrow> string"
    and fresh :: 'b
    and clear :: "'b \<Rightarrow> 'b"
    and assign :: "malloc \<Rightarrow> string \<Rightarrow> 'b \<Rightarrow> 'b res"
    and extend :: "malloc \<Rightarrow> string \<Rightarrow> 'b \<Rightarrow> 'b res"
  assumes inv_fresh: "inv fresh" and bytes_fresh: "bytes fresh = []"
    and inv_clear: "inv b \<Longrightarrow> inv (clear b)" and bytes_clear: "bytes (clear b) = []"
    and assign_safe: "malloc_spec ml \<Longrightarrow> inv b \<Longrightarrow>
      safe_res ml (assign ml s b) (\<lambda>b'. inv b' \<and> bytes b' = s)"
    and extend_safe: "malloc_spec ml \<Longrightarrow> inv b \<Longrightarrow>
      safe_res ml (extend ml s b) (\<lambda>b'. inv b' \<and> bytes b' = bytes b @ s)"
begin

lemma extend_all_safe:
  "malloc_spec ml \<Longrightarrow> inv b \<Longrightarrow>
    safe_res ml (foldE (extend ml) xs b) (\<lambda>b'. inv b' \<and> bytes b' = bytes b @ concat xs)"
proof (induction xs arbitrary: b)
  case (Cons x xs)
  show ?case
    unfolding foldE.simps
    by (rule safe_res_bindE[OF extend_safe[OF Cons.prems]])
      (auto intro!: safe_res_mono[OF Cons.IH[OF Cons.prems(1)]])
qed simp

lemma rewrite_safe:
  "malloc_spec ml \<Longrightarrow> inv b \<Longrightarrow>
    safe_res ml (bindE (assign ml s b) (foldE (extend ml) xs)) (\<lambda>b'. inv b' \<and> bytes b' = s @ concat xs)"
  by (rule safe_res_bindE[OF assign_safe])
    (auto intro!: safe_res_mono[OF extend_all_safe])

lemma assign_returns:
  "malloc_total ml \<Longrightarrow> inv b \<Longrightarrow> \<exists>b'. assign ml s b = Inr b' \<and> inv b' \<and> bytes b' = s"
  using safe_res_total[OF assign_safe] malloc_total_spec by blast

lemma extend_returns:
  "malloc_total ml \<Longrightarrow> inv b \<Longrightarrow>
     \<exists>b'. extend ml s b = Inr b' \<and> inv b' \<and> bytes b' = bytes b @ s"
  using safe_res_total[OF extend_safe] malloc_total_spec by blast

end

text \<open>The calls \<open>b.ReplaceWith(p, n)\<close> and \<open>b.Append(p, n)\<close> on the \<open>n\<close> bytes of a string.\<close>

definition buf_assign :: "malloc \<Rightarrow> string \<Rightarrow> cBuffer \<Rightarrow> cBuffer res" where
  "buf_assign ml s b =
     bindE (cBuffer_ReplaceWith ml (Some s) (int (length s)) b) (\<lambda>(_, b). Inr b)"

definition buf_extend :: "malloc \<Rightarrow> string \<Rightarrow> cBuffer \<Rightarrow> cBuffer res" where
  "buf_extend ml s b = bindE (cBuffer_Append ml (Some s) (int (length s)) b) (\<lambda>(_, b). Inr b)"

interpretation buf: byte_buffer buf_inv buf_contents cBuffer_new cBuffer_Reset buf_assign buf_extend
proof unfold_locales
  fix ml b and s :: string
  assume A: "malloc_spec ml" "buf_inv b"
  show "safe_res ml (buf_assign ml s b) (\<lambda>b'. buf_inv b' \<and> buf_contents b' = s)"
    unfolding buf_assign_def
    by (rule safe_res_bindE[OF ReplaceWith_safe[OF A, of "length s" s]]) auto
  show "safe_res ml (buf_extend ml s b) (\<lambda>b'. buf_inv b' \<and> buf_contents b' = buf_contents b @ s)"
    unfolding buf_extend_def
    by (rule safe_res_bindE[OF Append_safe[OF A, of "length s" s]]) auto
qed (simp_all add: buf_inv_Reset)

section \<open>Refinement: editing calls are list edits\<close>

text \<open>
  The editing calls of the class, the call each stands for, and the list edit it promises;
  \<open>None\<close> marks a call outside its contract.
\<close>

datatype buf_op =
    OpAppend string
  | OpAppendCStr string
  | OpPrepend string
  | OpInsert nat string
  | OpRemove nat nat
  | OpReplaceWith string
  | OpReplaceAll string string
  | OpTruncate nat
  | OpSetBufferSize nat
  | OpMakeString
  | OpToUpper
  | OpToLower
  | OpReset
  | OpFlush

fun exec_op :: "malloc \<Rightarrow> buf_op \<Rightarrow> cBuffer \<Rightarrow> cBuffer res" where
  "exec_op ml (OpAppend s) b = buf_extend ml s b"
| "exec_op ml (OpAppendCStr s) b =
     bindE (cBuffer_Append ml (Some (cstr s)) (-1) b) (\<lambda>(_, b). Inr b)"
| "exec_op ml (OpPrepend s) b =
     bindE (cBuffer_Prepend ml (Some s) (int (length s)) b) (\<lambda>(_, b). Inr b)"
| "exec_op ml (OpInsert i s) b = cBuffer_Insert ml (int i) s (int (length s)) b"
| "exec_op ml (OpRemove i n) b = bindE (cBuffer_Remove (int i) (int n) b) (\<lambda>(_, b). Inr b)"
| "exec_op ml (OpReplaceWith s) b = buf_assign ml s b"
| "exec_op ml (OpReplaceAll pat w) b = cBuffer_ReplaceAll ml pat w b"
| "exec_op ml (OpTruncate n) b = Inr (cBuffer_Truncate (int n) b)"
| "exec_op ml (OpSetBufferSize n) b = cBuffer_SetBufferSize ml (int n) b"
| "exec_op ml OpMakeString b = cBuffer_MakeString b"
| "exec_op ml OpToUpper b = cBuffer_ToUpper b"
| "exec_op ml OpToLower b = cBuffer_ToLower b"
| "exec_op ml OpReset b = Inr (cBuffer_Reset b)"
| "exec_op ml OpFlush b = Inr (cBuffer_Flush b)"

fun abs_op :: "buf_op \<Rightarrow> string \<Rightarrow> string option" where
  "abs_op (OpAppend s) c = Some (c @ s)"
| "abs_op (OpAppendCStr s) c = (if NUL \<in> set s then None else Some (c @ s))"
| "abs_op (OpPrepend s) c = Some (s @ c)"
| "abs_op (OpInsert i s) c = (if i \<le> length c then Some (take i c @ s @ drop i c) else None)"
| "abs_op (OpRemove i n) c =
     (if 0 < n \<and> i + n \<le> length c then Some (take i c @ drop (i + n) c) else None)"
| "abs_op (OpReplaceWith s) c = Some s"
| "abs_op (OpReplaceAll pat w) c =
     (if pat = [] \<or> NUL \<in> set w \<or> NUL \<in> set c then None else Some (replace_all pat w c))"
| "abs_op (OpTruncate n) c = (if n \<le> length c then Some (take (length c - n) c) else None)"
| "abs_op (OpSetBufferSize n) c = Some c"
| "abs_op OpMakeString c = Some c"
| "abs_op OpToUpper c = Some (map to_upper c)"
| "abs_op OpToLower c = Some (map to_lower c)"
| "abs_op OpReset c = Some []"
| "abs_op OpFlush c = Some []"

fun abs_run :: "buf_op list \<Rightarrow> string \<Rightarrow> string option" where
  "abs_run [] c = Some c"
| "abs_run (x # xs) c = (case abs_op x c of None \<Rightarrow> None | Some c' \<Rightarrow> abs_run xs c')"

lemma Truncate_ok:
  assumes "buf_inv b" "n \<le> length (buf_contents b)"
  shows "buf_inv (cBuffer_Truncate (int n) b) \<and>
    buf_contents (cBuffer_Truncate (int n) b) = take (length (buf_contents b) - n) (buf_contents b)"
  using assms(1)
  by (rule buf_inv_nat)
    (use assms in \<open>auto simp: cBuffer_Truncate_def buf_inv_def buf_contents_def min_def
       split: option.splits\<close>)

lemma buf_inv_Flush: "buf_inv (cBuffer_Flush b) \<and> buf_contents (cBuffer_Flush b) = []"
  by (simp add: cBuffer_Flush_def buf_inv_def buf_contents_def)

lemma Prepend_safe:
  assumes "malloc_spec ml" "buf_inv b"
  shows "safe_res ml (cBuffer_Prepend ml (Some s) (int (length s)) b)
    (\<lambda>(rc, b'). buf_inv b' \<and> buf_contents b' = s @ buf_contents b)"
  unfolding cBuffer_Prepend_def option.case arg_len_nat bindE.simps
  by (rule safe_res_bindE[OF Insert_safe[OF assms, of 0 "length s" s, simplified]]) auto

lemma exec_op_refines:
  assumes "malloc_spec ml" "buf_inv b" "abs_op x (buf_contents b) = Some c"
  shows "safe_res ml (exec_op ml x b) (\<lambda>b'. buf_inv b' \<and> buf_contents b' = c)"
proof (cases x)
  case (OpAppend s)
  with assms buf.extend_safe show ?thesis by auto
next
  case (OpAppendCStr s)
  with assms show ?thesis
    by (auto intro!: safe_res_bindE[OF Append_cstr_safe] split: if_splits)
next
  case (OpPrepend s)
  with assms show ?thesis by (auto intro!: safe_res_bindE[OF Prepend_safe])
next
  case (OpInsert i s)
  with assms safe_res_mono[OF Insert_safe[OF assms(1,2), of i "length s" s]] show ?thesis
    by (auto split: if_splits)
next
  case (OpRemove i n)
  with assms Remove_ok[OF assms(2), of n i] show ?thesis by (auto split: if_splits)
next
  case (OpReplaceAll pat w)
  with assms ReplaceAll_safe[OF assms(1,2)] show ?thesis by (auto split: if_splits)
next
  case (OpTruncate n)
  with assms Truncate_ok[OF assms(2), of n] show ?thesis by (auto split: if_splits)
next
  case (OpSetBufferSize n)
  with assms safe_res_mono[OF SetBufferSize_safe[OF assms(1,2), of "int n"]] show ?thesis by auto
next
  case OpMakeString
  with assms MakeString_ok[OF assms(2)] show ?thesis by auto
next
  case OpToUpper
  with assms map_buffer_ok[OF assms(2), of to_upper] show ?thesis by (auto simp: cBuffer_ToUpper_def)
next
  case OpToLower
  with assms map_buffer_ok[OF assms(2), of to_lower] show ?thesis by (auto simp: cBuffer_ToLower_def)
qed (use assms buf.assign_safe buf_inv_Reset buf_inv_Flush in auto)

lemma exec_run_refines:
  assumes ml: "malloc_spec ml"
  shows "buf_inv b \<Longrightarrow> abs_run xs (buf_contents b) = Some c \<Longrightarrow>
    safe_res ml (foldE (exec_op ml) xs b) (\<lambda>b'. buf_inv b' \<and> buf_contents b' = c)"
proof (induction xs arbitrary: b)
  case (Cons x xs)
  from Cons.prems obtain c' where c': "abs_op x (buf_contents b) = Some c'" "abs_run xs c' = Some c"
    by (auto split: option.splits)
  show ?case
    unfolding foldE.simps
    by (rule safe_res_bindE[OF exec_op_refines[OF ml Cons.prems(1) c'(1)]])
      (use Cons.IH c'(2) in auto)
qed simp

section \<open>Calls outside the contract\<close>

text \<open>\<open>ReplaceAll\<close> with a pattern that does not occur leaves a terminated buffer.\<close>

lemma ReplaceAll_absent:
  assumes inv: "buf_inv b" and nz: "NUL \<notin> set (buf_contents b)" and ne: "buf_contents b \<noteq> []"
    and none: "str_find (buf_contents b) pat = None"
  shows "\<exists>b'. cBuffer_ReplaceAll ml pat w b = Inr b' \<and> buf_inv b' \<and>
    buf_contents b' = buf_contents b \<and> buf_terminated b'"
  using Find_ok[OF inv nz _ ne, of 0 pat] none by (auto simp: cBuffer_ReplaceAll_def)

lemma str_find_char_None: "x \<notin> set s \<Longrightarrow> str_find s [x] = None"
  by (induction s) auto

lemma Cleanup_blank:
  assumes inv: "buf_inv b" and c: "buf_contents b = replicate n (CHR '' '')" and n: "0 < n"
  shows "cBuffer_Cleanup ml b = Inl MemFault"
proof -
  have step: "\<exists>b'. cBuffer_ReplaceAll ml [x] [] b1 = Inr b' \<and> buf_inv b' \<and>
      buf_contents b' = replicate n (CHR '' '') \<and> buf_terminated b'"
    if "buf_inv b1" "buf_contents b1 = replicate n (CHR '' '')" "x \<noteq> CHR '' ''" for b1 x
    using ReplaceAll_absent[OF that(1), of "[x]" ml "[]"] that n by (auto simp: str_find_char_None)
  obtain b1 where b1: "cBuffer_ReplaceAll ml [TAB] [] b = Inr b1" "buf_inv b1"
    "buf_contents b1 = replicate n (CHR '' '')" using step[OF inv c, of TAB] by auto
  obtain b2 where b2: "cBuffer_ReplaceAll ml [CR] [] b1 = Inr b2" "buf_inv b2"
    "buf_contents b2 = replicate n (CHR '' '')" using step[OF b1(2,3), of CR] by auto
  obtain b3 where b3: "cBuffer_ReplaceAll ml [LF] [] b2 = Inr b3" "buf_inv b3"
    "buf_contents b3 = replicate n (CHR '' '')" "buf_terminated b3"
    using step[OF b2(2,3), of LF] by auto
  have "m_pBuffer b3 \<noteq> None" using b3 n buf_contents_block[of b3] by auto
  then obtain blk where p: "m_pBuffer b3 = Some blk" by auto
  have cs: "cstr_at blk 0 = Inr (replicate n (CHR '' ''))"
    using cstr_at_contents[OF b3(2,4), of 0] b3 p by simp
  have tail: "m_iTail b3 = int n" using length_buf_contents[OF b3(2)] b3(3) by simp
  have size: "int n < m_iBufferSize b3" using buf_inv_SomeD[OF b3(2) p] tail by simp
  have blanks: "takeWhile is_blank (replicate n (CHR '' '')) = replicate n (CHR '' '')"
    by (simp add: takeWhile_eq_all_conv is_blank_def)
  have "cBuffer_Remove 0 (int n) b3 = Inr (BUFFER_NO_ERROR, b3\<lparr>m_iTail := 0\<rparr>)"
    using tail size n p by (simp add: cBuffer_Remove_def Let_def set_block_def)
  then show ?thesis
    using b1(1) b2(1) b3(1) p cs n
    by (simp add: cBuffer_Cleanup_def Let_def blanks is_blank_def cBuffer_Truncate_def cBuffer_MakeString_def
      mem_write_def)
qed

lemma mem_get_negative: "n < 0 \<Longrightarrow> mem_get blk off n = Inl MemFault"
  by (simp add: mem_get_def)

lemma ReplaceWith_negative:
  assumes "n < -1" "buf_inv b"
  shows "cBuffer_ReplaceWith ml (Some src) n b = Inl MemFault"
  using assms buf_size_nonneg[OF assms(2)]
  by (simp add: cBuffer_ReplaceWith_def arg_len_def cBuffer_Append_def cBuffer_Reset_def mem_get_negative)

section \<open>Properties\<close>

lemma BinaryFind_ok:
  assumes "buf_inv b" and "buf_terminated b" and "NUL \<notin> set pat" and "pat \<noteq> []"
  shows "cBuffer_BinaryFind 0 pat b =
    Inr (case str_find (buf_contents b) pat of Some j \<Rightarrow> int j | None \<Rightarrow> -1)"
proof (cases "m_pBuffer b")
  case None
  with assms show ?thesis by (simp add: cBuffer_BinaryFind_def buf_inv_def buf_contents_def)
next
  case (Some blk)
  with assms(1) obtain t z where tz: "m_iTail b = int t" "m_iBufferSize b = int z" "t < z"
    "z \<le> length blk" by (rule buf_inv_Some_nat)
  with bf_outer_find[of t blk pat 0 t] Some assms show ?thesis
    by (auto simp: cBuffer_BinaryFind_def buf_contents_def buf_terminated_def split: option.splits)
qed

text \<open>
  (C23) \<open>BinaryFind\<close> from offset 0 returns the position of the first occurrence of the pattern in
  the contents, or \<open>-1\<close>, and reads only memory of the block, for every terminated buffer and
  every pattern without NUL bytes. This is how \<open>cMsg::Parse\<close> finds the end of the header.
\<close>

theorem BinaryFind_first_occurrence:
  assumes "buf_inv b" and "buf_terminated b" and "NUL \<notin> set pat" and "pat \<noteq> []"
  shows "cBuffer_BinaryFind 0 pat b =
    Inr (case str_find (buf_contents b) pat of Some j \<Rightarrow> int j | None \<Rightarrow> -1)"
  using assms by (rule BinaryFind_ok)

theorem BinaryFind_first_occurrence_witness:
  "\<exists>b. buf_extend zero_malloc [CHR ''A'', CR, LF, CHR ''B''] cBuffer_new = Inr b \<and>
    cBuffer_BinaryFind 0 [CR, LF] b = Inr 1"
proof -
  obtain b where b: "cBuffer_Append zero_malloc (Some [CHR ''A'', CR, LF, CHR ''B'']) (int 4) cBuffer_new =
      Inr (BUFFER_NO_ERROR, b)" "buf_inv b" "buf_terminated b"
      "buf_contents b = [CHR ''A'', CR, LF, CHR ''B'']"
    using safe_res_total[OF Append_safe[of zero_malloc cBuffer_new 4 "[CHR ''A'', CR, LF, CHR ''B'']"]]
      malloc_total_zero malloc_total_spec by auto
  from BinaryFind_first_occurrence[OF b(2,3), of "[CR, LF]"] b show ?thesis
    by (simp add: buf_extend_def)
qed

text \<open>
  \<open>Remove\<close> checks the region against the allocated size and not against the length: a region
  that starts in the contents and ends in the unused part of the block makes the \<open>memmove\<close> copy
  a negative number of bytes, a memory fault.
\<close>

theorem Remove_past_tail_faults:
  assumes "0 < m_iTail b" and "0 < n" and "m_iTail b < i + n" and "i + n \<le> m_iBufferSize b"
    and "0 \<le> i"
  shows "cBuffer_Remove i n b = Inl MemFault"
  using assms by (simp add: cBuffer_Remove_def Let_def mem_get_negative)

theorem Remove_past_tail_faults_witness:
  "cBuffer_Remove 1 2 \<lparr>m_pBuffer = Some (replicate 32 NUL), m_iBufferSize = 32, m_iTail = 2,
     m_minAlloc = 32, m_midAlloc = 256\<rparr> = Inl MemFault"
  by (rule Remove_past_tail_faults) simp_all

text \<open>
  \<open>Cleanup\<close> on a buffer that holds only blanks writes its terminator before the start of the
  block: the leading blanks are removed, the stale copy of them behind the new tail is counted
  again as trailing blanks, and the tail becomes negative.
\<close>

theorem Cleanup_blank_faults:
  assumes "buf_inv b" and "buf_contents b = replicate n (CHR '' '')" and "0 < n"
  shows "cBuffer_Cleanup ml b = Inl MemFault"
  using assms by (rule Cleanup_blank)

theorem Cleanup_blank_faults_witness:
  "\<exists>b. buf_extend zero_malloc ''  '' cBuffer_new = Inr b \<and> cBuffer_Cleanup zero_malloc b = Inl MemFault"
proof -
  obtain b where "buf_extend zero_malloc ''  '' cBuffer_new = Inr b" "buf_inv b"
      "buf_contents b = ''  ''"
    using buf.extend_returns[OF malloc_total_zero, of cBuffer_new "''  ''"] by auto
  with Cleanup_blank_faults[of b 2 zero_malloc] show ?thesis by (simp add: numeral_2_eq_2)
qed

text \<open>
  \<open>Crypto\<close> is an involution: for every key that is not empty, scrambling returns, and
  scrambling the result with the same key gives the original contents back.
\<close>

theorem Crypto_involution:
  assumes "buf_inv b" and "k \<noteq> []" and "NUL \<notin> set k"
  shows "\<exists>b' b''. cBuffer_Crypto (cstr k) b = Inr b' \<and> cBuffer_Crypto (cstr k) b' = Inr b'' \<and>
    buf_contents b'' = buf_contents b \<and> length (buf_contents b') = length (buf_contents b)"
proof -
  obtain out where out: "crypto_loop (cstr k) 0 0 (buf_contents b) = Inr out"
    using crypto_loop_returns[OF assms(2,3)] by blast
  with Crypto_ok[OF assms(1)] obtain b' where b': "cBuffer_Crypto (cstr k) b = Inr b'" "buf_inv b'"
    "buf_contents b' = out" by blast
  with Crypto_ok[OF b'(2), of "cstr k" "buf_contents b"] crypto_loop_involution[OF out]
    crypto_loop_length[OF out] show ?thesis by auto
qed

theorem Crypto_involution_witness:
  "\<exists>b' b''. cBuffer_Crypto (cstr ''k'') cBuffer_new = Inr b' \<and> cBuffer_Crypto (cstr ''k'') b' = Inr b'' \<and>
    buf_contents b'' = buf_contents cBuffer_new \<and>
    length (buf_contents b') = length (buf_contents cBuffer_new)"
  by (rule Crypto_involution) simp_all

text \<open>
  \<open>CopyBetween\<close> tests the second search for \<open>1\<close> instead of \<open>-1\<close>: when the first pattern occurs
  and the second does not occur after it, the copy is asked for a negative number of bytes and
  faults instead of returning \<open>-1\<close>.
\<close>

theorem CopyBetween_missing_end_faults:
  assumes inv: "buf_inv b" and nz: "NUL \<notin> set (buf_contents b)" and into: "buf_inv into"
    and p1: "pat1 \<noteq> []" and s1: "str_find (buf_contents b) pat1 = Some i"
    and s2: "str_find (drop (Suc i) (buf_contents b)) pat2 = None"
  shows "cBuffer_CopyBetween ml pat1 pat2 into b = Inl MemFault"
proof -
  have ne: "buf_contents b \<noteq> []" using s1 p1 by auto
  have i: "i + length pat1 \<le> length (buf_contents b)" using s1 by (rule str_find_Some_bound)
  obtain b1 where b1: "cBuffer_Find pat1 0 b = Inr (int i, b1)" "buf_inv b1"
    "buf_contents b1 = buf_contents b"
    using Find_ok[OF inv nz _ ne, of 0 pat1] s1 by auto
  have "Suc i \<le> length (buf_contents b1)" using i p1 b1 by (cases pat1) auto
  then obtain b2 where b2: "cBuffer_Find pat2 (int i + 1) b1 = Inr (-1, b2)"
    using Find_ok[OF b1(2), of "Suc i" pat2] b1(3) nz ne s2 by (auto simp: add.commute)
  have "0 < int (length pat1)" using p1 by simp
  then have "-1 - (int i + int (length pat1)) < -1" by linarith
  from ReplaceWith_negative[OF this buf_inv_Reset[OF into]] show ?thesis by (simp add: cBuffer_CopyBetween_def b1(1) b2 Let_def)
qed

theorem CopyBetween_missing_end_faults_witness:
  "\<exists>b. buf_extend zero_malloc ''a<b'' cBuffer_new = Inr b \<and>
    cBuffer_CopyBetween zero_malloc ''<'' ''>'' cBuffer_new b = Inl MemFault"
proof -
  obtain b where b: "buf_extend zero_malloc ''a<b'' cBuffer_new = Inr b" "buf_inv b"
      "buf_contents b = ''a<b''"
    using buf.extend_returns[OF malloc_total_zero, of cBuffer_new "''a<b''"] by auto
  have "cBuffer_CopyBetween zero_malloc ''<'' ''>'' cBuffer_new b = Inl MemFault"
    by (rule CopyBetween_missing_end_faults[OF b(2), of _ _ 1]) (simp_all add: b(3))
  with b show ?thesis by blast
qed

end
