(* ===== verification/HeaderExtract.thy ===== *)
theory HeaderExtract
  imports Buffer
begin

text \<open>
  The header parser \<open>cHeaderExtract\<close> (\<open>headerextract.h\<close>, \<open>headerextract.cpp\<close>): a map from field
  names to values, filled from the lines of the text in front of the first blank line.

  \<open>Parse\<close> looks for the blank line with \<open>Find("\r\n\r\n", 4)\<close>; the second argument of \<open>Find\<close> is
  the offset of the search, not the length of the pattern, so the search starts at byte 4.

  Shown: a header built from field lines is parsed into exactly those fields, with the last
  occurrence of a name winning.
\<close>

record cHeaderExtract =
  m_Params :: "string \<rightharpoonup> string"
  m_sHeader :: string

definition cHeaderExtract_new :: cHeaderExtract where
  "cHeaderExtract_new = \<lparr>m_Params = Map.empty, m_sHeader = []\<rparr>"

text \<open>
  One line: \<open>line[split+1]\<close> may be the position after the last character, where a string has its
  terminator; \<open>erase\<close> removes at most what is left.
\<close>

definition add_line :: "string \<Rightarrow> (string \<rightharpoonup> string) \<Rightarrow> (string \<rightharpoonup> string)" where
  "add_line line ps =
     (case char_find line (CHR '':'') of
        None \<Rightarrow> ps
      | Some split \<Rightarrow>
          (let n = (if (line @ [NUL]) ! (split + 1) = CHR '' '' then 2 else 1);
               line = take split line @ drop (split + n) line
           in ps(take split line \<mapsto> drop split line)))"

function parse_lines :: "string \<Rightarrow> (string \<rightharpoonup> string) \<Rightarrow> (string \<rightharpoonup> string)" where
  "parse_lines s ps =
     (case char_find s CR of
        None \<Rightarrow> ps
      | Some i \<Rightarrow> parse_lines (drop (i + 2) s) (add_line (take i s) ps))"
  by pat_completeness auto
termination
  by (relation "measure (\<lambda>(s, ps). length s)") (auto dest: char_find_Some)

declare parse_lines.simps [simp del]

definition cHeaderExtract_Parse ::
    "cBuffer \<Rightarrow> cHeaderExtract \<Rightarrow> (cBuffer \<times> cHeaderExtract) res" where
  "cHeaderExtract_Parse pBuf h =
     (let h = h\<lparr>m_Params := Map.empty\<rparr> in
      bindE (cBuffer_Find [CR, LF, CR, LF] 4 pBuf) (\<lambda>(len, pBuf).
      if len = -1 then Inr (pBuf, h)
      else
        bindE (mem_get (deref (cBuffer_GetRawBuffer pBuf)) 0 len) (\<lambda>hdr.
        let s = hdr @ [CR, LF] @ ''end'' @ [CR, LF] in
        Inr (pBuf, h\<lparr>m_sHeader := s, m_Params := parse_lines s Map.empty\<rparr>))))"

text \<open>Both overloads of \<open>GetValue\<close>: an absent field reads as the empty string.\<close>

definition cHeaderExtract_GetValue :: "string \<Rightarrow> cHeaderExtract \<Rightarrow> string" where
  "cHeaderExtract_GetValue pName h = (case m_Params h pName of Some v \<Rightarrow> v | None \<Rightarrow> [])"

definition cHeaderExtract_GetRawHeader :: "cHeaderExtract \<Rightarrow> string" where
  "cHeaderExtract_GetRawHeader h = m_sHeader h"

section \<open>Lines\<close>

text \<open>A field as a client writes it.\<close>

definition field_line :: "string \<times> string \<Rightarrow> string" where
  "field_line kv = fst kv @ '': '' @ snd kv"

definition header_text :: "string \<Rightarrow> (string \<times> string) list \<Rightarrow> string" where
  "header_text status flds = status @ concat (map (\<lambda>kv. [CR, LF] @ field_line kv) flds)"

definition fields_ok :: "(string \<times> string) list \<Rightarrow> bool" where
  "fields_ok flds \<longleftrightarrow> (\<forall>(k, v) \<in> set flds. CHR '':'' \<notin> set k \<and> CR \<notin> set k \<and> CR \<notin> set v \<and>
     NUL \<notin> set k \<and> NUL \<notin> set v)"

lemma add_line_field:
  assumes "CHR '':'' \<notin> set k"
  shows "add_line (field_line (k, v)) ps = ps(k \<mapsto> v)"
proof -
  have "char_find (field_line (k, v)) (CHR '':'') = Some (length k)"
    using char_find_append[OF assms, of "CHR '' '' # v"] by (simp add: field_line_def)
  then show ?thesis by (simp add: add_line_def Let_def field_line_def nth_append)
qed

lemma parse_lines_line:
  assumes "CR \<notin> set l"
  shows "parse_lines (l @ CR # LF # rest) ps = parse_lines rest (add_line l ps)"
  by (subst parse_lines.simps) (simp add: char_find_append[OF assms])

lemma parse_lines_fields:
  assumes "fields_ok flds"
  shows "parse_lines (concat (map (\<lambda>kv. field_line kv @ [CR, LF]) flds) @ rest) ps =
    parse_lines rest (ps ++ map_of (rev flds))"
  using assms
proof (induction flds arbitrary: ps)
  case (Cons kv flds)
  obtain k v where kv: "kv = (k, v)" by fastforce
  with Cons.prems have "CR \<notin> set (field_line kv)" "CHR '':'' \<notin> set k" "fields_ok flds"
    by (auto simp: fields_ok_def field_line_def)
  moreover have "ps ++ map_of (rev (kv # flds)) = ps(k \<mapsto> v) ++ map_of (rev flds)"
    by (rule ext) (auto simp: kv map_add_def split: option.split)
  ultimately show ?case
    using kv by (simp add: parse_lines_line add_line_field Cons.IH fun_upd_def)
qed simp

lemma header_shift:
  "header_text status flds @ [CR, LF] @ t =
     status @ [CR, LF] @ concat (map (\<lambda>kv. field_line kv @ [CR, LF]) flds) @ t"
proof (induction flds arbitrary: t)
  case (Cons kv flds)
  have "concat (map (\<lambda>kv. [CR, LF] @ field_line kv) fs) @ [CR, LF] =
      [CR, LF] @ concat (map (\<lambda>kv. field_line kv @ [CR, LF]) fs)" for fs
    by (induction fs) auto
  then have "concat (map (\<lambda>kv. [CR, LF] @ field_line kv) (kv # flds)) @ [CR, LF] @ t =
      [CR, LF] @ concat (map (\<lambda>kv. field_line kv @ [CR, LF]) (kv # flds)) @ t"
    by (metis append.assoc)
  then show ?case by (simp add: header_text_def)
qed (simp add: header_text_def)

lemma parse_header_text:
  assumes "fields_ok flds" "CR \<notin> set status" "CHR '':'' \<notin> set status"
  shows "parse_lines (header_text status flds @ [CR, LF] @ ''end'' @ [CR, LF]) Map.empty =
    map_of (rev flds)"
proof -
  have st: "add_line status Map.empty = Map.empty"
    using assms(3) by (simp add: add_line_def char_find_None[THEN iffD2])
  have e: "parse_lines (''end'' @ [CR, LF]) ps = ps" for ps
    using parse_lines_line[of "''end''" "[]" ps]
    by (simp add: add_line_def parse_lines.simps[of "[]"])
  show ?thesis
    using parse_lines_line[OF assms(2), of "concat (map (\<lambda>kv. field_line kv @ [CR, LF]) flds) @ ''end'' @ [CR, LF]" Map.empty]
      parse_lines_fields[OF assms(1), of "''end'' @ [CR, LF]" Map.empty] e
    unfolding header_shift st by simp
qed

section \<open>The end of the header\<close>

abbreviation CRLF2 :: string where "CRLF2 \<equiv> [CR, LF, CR, LF]"

lemma find_skip_line:
  "CR \<notin> set l \<Longrightarrow> str_find (l @ t) CRLF2 = map_option (\<lambda>j. length l + j) (str_find t CRLF2)"
proof (induction l)
  case Nil
  have "(+) (0 :: nat) = id" by auto
  then show ?case by (simp only: append_Nil list.size option.map_id0) simp
next
  case (Cons c l)
  have "(\<lambda>j. Suc (length l + j)) = (+) (Suc (length l))" by auto
  with Cons show ?case by (auto simp: option.map_comp comp_def)
qed

lemma find_skip_field:
  assumes "CR \<notin> set l" "l \<noteq> []"
  shows "str_find (CR # LF # l @ t) CRLF2 = map_option (\<lambda>j. 2 + length l + j) (str_find t CRLF2)"
proof -
  obtain c cs where l: "l = c # cs" using assms(2) by (cases l) auto
  then have "c \<noteq> CR" using assms(1) by auto
  then have "str_find (CR # LF # l @ t) CRLF2 = map_option (\<lambda>j. Suc (Suc j)) (str_find (l @ t) CRLF2)"
    using l by (simp add: option.map_comp comp_def)
  then show ?thesis by (simp add: find_skip_line[OF assms(1)] option.map_comp comp_def)
qed

lemma find_end_of_fields:
  "fields_ok flds \<Longrightarrow>
     str_find (concat (map (\<lambda>kv. [CR, LF] @ field_line kv) flds) @ CRLF2 @ t) CRLF2 =
       Some (length (concat (map (\<lambda>kv. [CR, LF] @ field_line kv) flds)))"
proof (induction flds)
  case (Cons kv flds)
  have "CR \<notin> set (field_line kv)" "field_line kv \<noteq> []" "fields_ok flds"
    using Cons.prems by (auto simp: fields_ok_def field_line_def split: prod.splits)
  with Cons.IH find_skip_field[of "field_line kv"] show ?case by simp
qed simp

lemma find_end_of_header:
  assumes "fields_ok flds" "CR \<notin> set status"
  shows "str_find (header_text status flds @ CRLF2 @ t) CRLF2 = Some (length (header_text status flds))"
  using find_skip_line[OF assms(2), of "concat (map (\<lambda>kv. [CR, LF] @ field_line kv) flds) @ CRLF2 @ t"]
    find_end_of_fields[OF assms(1), of t]
  by (simp add: header_text_def)

lemma c_prefix_append_left: "NUL \<notin> set s \<Longrightarrow> c_prefix (s @ t) = s @ c_prefix t"
  by (induction s) (auto simp: c_prefix_def)

lemma NUL_header: "fields_ok flds \<Longrightarrow> NUL \<notin> set status \<Longrightarrow> NUL \<notin> set (header_text status flds)"
  by (auto simp: header_text_def field_line_def fields_ok_def split: prod.splits)

text \<open>A status line of four characters or more, free of the separators of the format.\<close>

definition status_ok :: "string \<Rightarrow> bool" where
  "status_ok s \<longleftrightarrow> 4 \<le> length s \<and> CR \<notin> set s \<and> NUL \<notin> set s \<and> CHR '':'' \<notin> set s"

lemma find_header_from_4:
  assumes "fields_ok flds" "status_ok status"
  shows "str_find (c_prefix (drop 4 (header_text status flds @ CRLF2 @ body))) CRLF2 =
    Some (length (header_text status flds) - 4)"
proof -
  let ?h = "header_text status flds" and ?h' = "header_text (drop 4 status) flds"
  have d: "drop 4 (?h @ CRLF2 @ body) = ?h' @ CRLF2 @ body"
    using assms(2) by (simp add: header_text_def status_ok_def)
  have "NUL \<notin> set (?h' @ CRLF2)"
    using NUL_header[OF assms(1), of "drop 4 status"] assms(2)
    by (auto simp: status_ok_def dest: in_set_dropD)
  then have "c_prefix (?h' @ CRLF2 @ body) = ?h' @ CRLF2 @ c_prefix body"
    using c_prefix_append_left[of "?h' @ CRLF2" body] by simp
  then show ?thesis
    using find_end_of_header[OF assms(1), of "drop 4 status" "c_prefix body"] assms(2)
    by (simp only: d) (auto simp: status_ok_def header_text_def dest: in_set_dropD)
qed

lemma take_header: "take t s = h @ r \<Longrightarrow> length h \<le> t \<Longrightarrow> take (length h) s = h"
  by (metis append_eq_conv_conj min.absorb1 take_take)

lemma Parse_ok:
  assumes inv: "buf_inv b" and "fields_ok flds" "status_ok status"
    and c: "buf_contents b = header_text status flds @ CRLF2 @ body"
  shows "\<exists>b' h'. cHeaderExtract_Parse b h = Inr (b', h') \<and> buf_inv b' \<and> buf_terminated b' \<and>
    buf_contents b' = buf_contents b \<and> m_Params h' = map_of (rev flds) \<and>
    m_sHeader h' = header_text status flds @ [CR, LF] @ ''end'' @ [CR, LF]"
proof -
  let ?h = "header_text status flds"
  have len: "4 \<le> length ?h" using assms(3) by (simp add: status_ok_def header_text_def)
  have "str_find (c_prefix (drop 4 (buf_contents b))) CRLF2 = Some (length ?h - 4)"
    unfolding c by (rule find_header_from_4[OF assms(2,3)])
  then obtain b' where b': "cBuffer_Find CRLF2 4 b = Inr (int (length ?h), b')" "buf_inv b'"
    "buf_contents b' = buf_contents b" "buf_terminated b'"
    using Find_prefix[OF inv, of 4 CRLF2] len c by auto
  have "int (length ?h) \<le> m_iTail b'" using length_buf_contents[OF b'(2)] b'(3) c by simp
  then have "mem_get (deref (m_pBuffer b')) 0 (int (length ?h)) = Inr ?h"
    using b'(2,3) c len by (auto elim!: buf_inv_nat simp: mem_ok take_header)
  moreover have "parse_lines (?h @ [CR, LF] @ ''end'' @ [CR, LF]) Map.empty = map_of (rev flds)"
    using parse_header_text[OF assms(2)] assms(3) by (simp add: status_ok_def)
  ultimately show ?thesis using b' by (simp add: cHeaderExtract_Parse_def cBuffer_GetRawBuffer_def Let_def)
qed

section \<open>Properties\<close>

text \<open>
  (C36) Parsing inverts writing: a buffer that holds a status line, any list of \<open>name: value\<close>
  lines, a blank line and any body is parsed, whatever the parser held before, so that every
  lookup returns the value written last under that name, and the empty string for a name that was
  not written. The buffer keeps its contents.
\<close>

theorem header_parse_roundtrip:
  assumes "fields_ok flds" and "status_ok status" and "buf_inv b"
    and "buf_contents b = header_text status flds @ CRLF2 @ body"
  shows "\<exists>b' h'. cHeaderExtract_Parse b h = Inr (b', h') \<and> buf_contents b' = buf_contents b \<and>
    (\<forall>k. cHeaderExtract_GetValue k h' = (case map_of (rev flds) k of Some v \<Rightarrow> v | None \<Rightarrow> []))"
  using Parse_ok[OF assms(3,1,2,4), of h] by (auto simp: cHeaderExtract_GetValue_def)

theorem header_parse_roundtrip_witness:
  "\<exists>b b' h'. buf_contents b = header_text ''PING'' [(''To'', ''a''), (''To'', ''b'')] @ CRLF2 @ [] \<and>
    cHeaderExtract_Parse b cHeaderExtract_new = Inr (b', h') \<and> cHeaderExtract_GetValue ''To'' h' = ''b'' \<and>
    cHeaderExtract_GetValue ''From'' h' = []"
proof -
  let ?s = "header_text ''PING'' [(''To'', ''a''), (''To'', ''b'')] @ CRLF2 @ []"
  obtain b where b: "buf_inv b" "buf_contents b = ?s"
    using safe_res_total[OF ReplaceWith_safe[of zero_malloc cBuffer_new "length ?s" ?s] malloc_total_zero]
      malloc_total_spec[OF malloc_total_zero] by auto
  have "fields_ok [(''To'', ''a''), (''To'', ''b'')]" "status_ok ''PING''"
    by (simp_all add: fields_ok_def status_ok_def)
  from header_parse_roundtrip[OF this b, of cHeaderExtract_new] b show ?thesis by fastforce
qed

end
