(* ===== verification/RoutingTag.thy ===== *)
theory RoutingTag
  imports Mc_Prelude
begin

text \<open>
  Routing addresses \<open>name@ip:port\<close>, \<open>cRoutingTag\<close> (\<open>routingtag.h\<close>, \<open>routingtag.cpp\<close>).
  \<open>SetTag\<close> computes the length of the address part by unsigned subtraction of two positions
  either of which may be \<open>npos\<close>, and stores it in an \<open>int\<close>. With \<open>npos\<close> as -1 that is the
  difference of the positions reduced to 32 signed bits, which is how \<open>iplen\<close> is written here.

  Shown: a complete tag is split into its three parts and printed back unchanged; what happens
  to partial tags.
\<close>

record cRoutingTag =
  m_sFullTag :: string
  m_sTagName :: string
  m_sTagIPAddr :: string
  m_sTagPort :: string

definition cRoutingTag_new :: cRoutingTag where
  "cRoutingTag_new = \<lparr>m_sFullTag = [], m_sTagName = [], m_sTagIPAddr = [], m_sTagPort = []\<rparr>"

definition cRoutingTag_BuildFullTag :: "cRoutingTag \<Rightarrow> cRoutingTag" where
  "cRoutingTag_BuildFullTag t =
     t\<lparr>m_sFullTag := m_sTagName t @ ''@'' @ m_sTagIPAddr t @ '':'' @ m_sTagPort t\<rparr>"

definition idx :: "nat option \<Rightarrow> int" where
  "idx r = (case r of None \<Rightarrow> -1 | Some i \<Rightarrow> int i)"

text \<open>The conversion of a \<open>size_t\<close> to \<open>int\<close>.\<close>

definition to_int32 :: "int \<Rightarrow> int" where
  "to_int32 x = signed_take_bit 31 x"

definition cRoutingTag_SetTag :: "string \<Rightarrow> cRoutingTag \<Rightarrow> cRoutingTag res" where
  "cRoutingTag_SetTag tag t =
     (let at_idx = idx (str_find tag ''@''); colon_idx = idx (str_find tag '':'') in
      if \<not> (at_idx \<noteq> -1 \<and> at_idx > 0) \<and> at_idx = -1 \<and> colon_idx = -1
      then Inr (t\<lparr>m_sTagName := tag, m_sFullTag := tag\<rparr>)
      else
        bindE (if at_idx \<noteq> -1 \<and> at_idx > 0 then substr tag 0 (nat at_idx) else Inr ''unknown'') (\<lambda>name.
        bindE (if colon_idx \<noteq> -1 \<and> colon_idx > 0
               then substr tag (nat (colon_idx + 1)) (length tag) else Inr ''0000'') (\<lambda>port.
        let iplen = to_int32 (colon_idx - at_idx - 1) in
        bindE (if iplen > 0 then substr tag (nat (at_idx + 1)) (nat iplen)
               else Inr (if str_find tag ''.'' \<noteq> None then tag else ''0.0.0.0'')) (\<lambda>ip.
        Inr (cRoutingTag_BuildFullTag
          (t\<lparr>m_sTagName := name, m_sTagPort := port, m_sTagIPAddr := ip\<rparr>))))))"

definition cRoutingTag_SetTagName :: "string \<Rightarrow> cRoutingTag \<Rightarrow> cRoutingTag" where
  "cRoutingTag_SetTagName s t = cRoutingTag_BuildFullTag (t\<lparr>m_sTagName := s\<rparr>)"

definition cRoutingTag_SetTagIPAddr :: "string \<Rightarrow> cRoutingTag \<Rightarrow> cRoutingTag" where
  "cRoutingTag_SetTagIPAddr s t = cRoutingTag_BuildFullTag (t\<lparr>m_sTagIPAddr := s\<rparr>)"

definition cRoutingTag_SetTagPort :: "string \<Rightarrow> cRoutingTag \<Rightarrow> cRoutingTag" where
  "cRoutingTag_SetTagPort s t = cRoutingTag_BuildFullTag (t\<lparr>m_sTagPort := s\<rparr>)"

definition cRoutingTag_GetTag :: "cRoutingTag \<Rightarrow> string" where
  "cRoutingTag_GetTag t = m_sFullTag t"

definition cRoutingTag_GetTagName :: "cRoutingTag \<Rightarrow> string" where
  "cRoutingTag_GetTagName t = m_sTagName t"

definition cRoutingTag_GetTagIPAddr :: "cRoutingTag \<Rightarrow> string" where
  "cRoutingTag_GetTagIPAddr t = m_sTagIPAddr t"

definition cRoutingTag_GetTagPort :: "cRoutingTag \<Rightarrow> string" where
  "cRoutingTag_GetTagPort t = m_sTagPort t"

section \<open>Lemmas\<close>

lemma str_find_char: "str_find s [x] = char_find s x"
  by (induction s) auto

lemma to_int32_small: "- (2 ^ 31) \<le> x \<Longrightarrow> x < 2 ^ 31 \<Longrightarrow> to_int32 x = x"
  by (simp add: to_int32_def signed_take_bit_int_eq_self_iff)

lemma substr_ok: "pos \<le> length s \<Longrightarrow> substr s pos n = Inr (take n (drop pos s))"
  by (simp add: substr_def)

lemma SetTag_complete:
  assumes "CHR ''@'' \<notin> set name" "CHR '':'' \<notin> set name" "name \<noteq> []" "CHR '':'' \<notin> set ip" "ip \<noteq> []"
    and "length ip < 2 ^ 31"
  shows "cRoutingTag_SetTag (name @ ''@'' @ ip @ '':'' @ port) t =
    Inr \<lparr>m_sFullTag = name @ ''@'' @ ip @ '':'' @ port, m_sTagName = name, m_sTagIPAddr = ip,
      m_sTagPort = port, \<dots> = cRoutingTag.more t\<rparr>"
proof -
  let ?tag = "name @ ''@'' @ ip @ '':'' @ port"
  have at: "str_find ?tag ''@'' = Some (length name)"
    using char_find_append[OF assms(1)] by (simp add: str_find_char)
  have colon: "str_find ?tag '':'' = Some (length name + 1 + length ip)"
    using char_find_append[of "CHR '':''" "name @ ''@'' @ ip" port] assms by (simp add: str_find_char)
  have ip32: "to_int32 (int (length name + 1 + length ip) - int (length name) - 1) = int (length ip)"
    using assms(6) by (subst to_int32_small) auto
  have nz: "int (length name) > 0" "int (length ip) > 0" using assms by auto
  show ?thesis
    unfolding cRoutingTag_SetTag_def Let_def at colon idx_def option.case ip32
    using nz by (simp add: substr_ok cRoutingTag_BuildFullTag_def nat_add_distrib)
qed

lemma SetTag_returns: "\<exists>t'. cRoutingTag_SetTag tag t = Inr t'"
proof -
  have b: "str_find tag [x] = Some i \<Longrightarrow> Suc i \<le> length tag" for x i
    using str_find_Some_bound[of tag "[x]" i] by simp
  show ?thesis
    by (auto simp: cRoutingTag_SetTag_def Let_def idx_def substr_ok nat_add_distrib
          split: option.split dest!: b)
qed

lemma SetTag_plain:
  assumes "CHR ''@'' \<notin> set tag" "CHR '':'' \<notin> set tag"
  shows "cRoutingTag_SetTag tag t = Inr (t\<lparr>m_sTagName := tag, m_sFullTag := tag\<rparr>)"
  using assms by (simp add: cRoutingTag_SetTag_def str_find_char char_find_None[THEN iffD2] idx_def)

section \<open>Properties\<close>

text \<open>
  Parsing and printing a routing tag round trip: a complete tag \<open>name@ip:port\<close> is split into
  exactly its three parts, whatever the tag object held before, and printing the parts gives the
  tag back; and \<open>SetTag\<close> returns, without an exception of \<open>substr\<close>, on every string.
\<close>

theorem routing_tag_roundtrip:
  assumes "name \<noteq> []" and "set name \<inter> {CHR ''@'', CHR '':''} = {}"
    and "ip \<noteq> []" and "CHR '':'' \<notin> set ip" and "length ip < 2 ^ 31"
  shows "(\<exists>t'. cRoutingTag_SetTag (name @ ''@'' @ ip @ '':'' @ port) t = Inr t' \<and>
      cRoutingTag_GetTagName t' = name \<and> cRoutingTag_GetTagIPAddr t' = ip \<and>
      cRoutingTag_GetTagPort t' = port \<and> cRoutingTag_GetTag t' = name @ ''@'' @ ip @ '':'' @ port) \<and>
    (\<forall>s. \<exists>t'. cRoutingTag_SetTag s t = Inr t')"
  using SetTag_complete[of name ip port t] assms SetTag_returns
  by (auto simp: cRoutingTag_GetTagName_def cRoutingTag_GetTagIPAddr_def cRoutingTag_GetTagPort_def
      cRoutingTag_GetTag_def)

theorem routing_tag_roundtrip_witness:
  "(\<exists>t'. cRoutingTag_SetTag (''alice'' @ ''@'' @ ''10.0.0.1'' @ '':'' @ ''3400'') cRoutingTag_new = Inr t' \<and>
      cRoutingTag_GetTagName t' = ''alice'' \<and> cRoutingTag_GetTagIPAddr t' = ''10.0.0.1'' \<and>
      cRoutingTag_GetTagPort t' = ''3400'' \<and>
      cRoutingTag_GetTag t' = ''alice'' @ ''@'' @ ''10.0.0.1'' @ '':'' @ ''3400'') \<and>
    (\<forall>s. \<exists>t'. cRoutingTag_SetTag s cRoutingTag_new = Inr t')"
  by (rule routing_tag_roundtrip) simp_all

end
