(* ===== verification/UniqueId.thy ===== *)
theory UniqueId
  imports Mc_Prelude
begin

text \<open>
  The pool of message identifiers, \<open>cUniqueIDProvider\<close> (\<open>uniqueidprovider.h\<close>,
  \<open>uniqueidprovider.cpp\<close>). A provider keeps 256 identifiers ready; \<open>GetID\<close> takes the first one
  left and blanks its slot, and the thread body \<open>Run\<close> refills the blank slots. Both run under the
  provider's lock, so an execution of the server is a sequence of such steps.

  The identifiers come from the OSSP uuid library, which is not part of the sources: it is a
  parameter \<open>gen\<close>, the identifier made by the n-th call, and \<open>m_Calls\<close> counts the calls made so
  far. The contract used is that the library never repeats itself and never returns an empty
  string (\<open>uuid_spec\<close>).
\<close>

definition MAX_UNIQUE_IDS :: nat where "MAX_UNIQUE_IDS = 256"

record cUniqueIDProvider =
  m_iIndex :: int
  m_sGUID :: string
  m_vector :: "string list"
  m_Calls :: nat

type_synonym uuid_gen = "nat \<Rightarrow> string"

definition uuid_spec :: "uuid_gen \<Rightarrow> bool" where
  "uuid_spec gen \<longleftrightarrow> inj gen \<and> (\<forall>n. gen n \<noteq> [])"

definition cUniqueIDProvider_CreateNewID ::
    "uuid_gen \<Rightarrow> cUniqueIDProvider \<Rightarrow> string \<times> cUniqueIDProvider" where
  "cUniqueIDProvider_CreateNewID gen p = (gen (m_Calls p), p\<lparr>m_Calls := Suc (m_Calls p)\<rparr>)"

fun fill_vector :: "uuid_gen \<Rightarrow> nat \<Rightarrow> cUniqueIDProvider \<Rightarrow> cUniqueIDProvider" where
  "fill_vector gen 0 p = p"
| "fill_vector gen (Suc n) p =
     (let (s, p) = cUniqueIDProvider_CreateNewID gen p in
      fill_vector gen n (p\<lparr>m_sGUID := s, m_vector := m_vector p @ [s]\<rparr>))"

definition cUniqueIDProvider_new :: "uuid_gen \<Rightarrow> nat \<Rightarrow> cUniqueIDProvider" where
  "cUniqueIDProvider_new gen calls =
     fill_vector gen MAX_UNIQUE_IDS \<lparr>m_iIndex = 0, m_sGUID = [], m_vector = [], m_Calls = calls\<rparr>"

text \<open>\<open>operator[]\<close> of a vector is not checked: outside the vector it is a memory fault.\<close>

definition vec_at :: "string list \<Rightarrow> nat \<Rightarrow> string res" where
  "vec_at v i = (if i < length v then Inr (v ! i) else Inl MemFault)"

text \<open>One pass of the loop of \<open>Run\<close> over the slots \<open>i, i + 1, ..., MAX_UNIQUE_IDS - 1\<close>.\<close>

function refill :: "uuid_gen \<Rightarrow> nat \<Rightarrow> cUniqueIDProvider \<Rightarrow> cUniqueIDProvider res" where
  "refill gen i p =
     (if i < MAX_UNIQUE_IDS then
        bindE (vec_at (m_vector p) i) (\<lambda>newGUID.
        if newGUID = [] then
          (let (s, p) = cUniqueIDProvider_CreateNewID gen p
           in refill gen (Suc i) (p\<lparr>m_vector := (m_vector p)[i := s]\<rparr>))
        else refill gen (Suc i) p)
      else Inr p)"
  by pat_completeness auto
termination
  by (relation "measure (\<lambda>(gen, i, p). MAX_UNIQUE_IDS - i)") auto

definition cUniqueIDProvider_Run :: "uuid_gen \<Rightarrow> cUniqueIDProvider \<Rightarrow> cUniqueIDProvider res" where
  "cUniqueIDProvider_Run gen p = refill gen 0 p"

function get_loop :: "nat \<Rightarrow> cUniqueIDProvider \<Rightarrow> (string \<times> cUniqueIDProvider) option res" where
  "get_loop i p =
     (if i < MAX_UNIQUE_IDS then
        bindE (vec_at (m_vector p) i) (\<lambda>s.
        if s \<noteq> [] then Inr (Some (s, p\<lparr>m_vector := (m_vector p)[i := []]\<rparr>))
        else get_loop (Suc i) p)
      else Inr None)"
  by pat_completeness auto
termination
  by (relation "measure (\<lambda>(i, p). MAX_UNIQUE_IDS - i)") auto

definition cUniqueIDProvider_GetID ::
    "uuid_gen \<Rightarrow> cUniqueIDProvider \<Rightarrow> (string \<times> cUniqueIDProvider) res" where
  "cUniqueIDProvider_GetID gen p =
     bindE (get_loop 0 p) (\<lambda>r. Inr (case r of
        Some sp \<Rightarrow> sp
      | None \<Rightarrow> cUniqueIDProvider_CreateNewID gen p))"

declare get_loop.simps [simp del] refill.simps [simp del]

section \<open>The invariant\<close>

text \<open>
  \<open>uid_inv gen issued p\<close>: the pool has its 256 slots, and the identifiers handed out so far
  together with those waiting in the pool are pairwise different and were all made by the library.
\<close>

definition pooled :: "cUniqueIDProvider \<Rightarrow> string list" where
  "pooled p = filter (\<lambda>s. s \<noteq> []) (m_vector p)"

definition uid_inv :: "uuid_gen \<Rightarrow> string list \<Rightarrow> cUniqueIDProvider \<Rightarrow> bool" where
  "uid_inv gen issued p \<longleftrightarrow> length (m_vector p) = MAX_UNIQUE_IDS \<and> distinct (issued @ pooled p) \<and>
     set (issued @ pooled p) \<subseteq> gen ` {..<m_Calls p}"

lemma gen_fresh: "uuid_spec gen \<Longrightarrow> gen n \<notin> gen ` {..<n}"
  by (auto simp: uuid_spec_def dest: injD)

lemma gen_nonempty: "uuid_spec gen \<Longrightarrow> gen n \<noteq> []"
  by (simp add: uuid_spec_def)

lemma filter_update_blank:
  "i < length v \<Longrightarrow> v ! i = [] \<Longrightarrow> s \<noteq> [] \<Longrightarrow>
     filter (\<lambda>x. x \<noteq> []) (v[i := s]) =
       filter (\<lambda>x. x \<noteq> []) (take i v) @ s # filter (\<lambda>x. x \<noteq> []) (drop (Suc i) v)"
  by (simp add: upd_conv_take_nth_drop)

lemma filter_split_at:
  "i < length v \<Longrightarrow> filter P v = filter P (take i v) @ filter P [v ! i] @ filter P (drop (Suc i) v)"
  by (subst id_take_nth_drop[of i v]) (simp_all)

lemma uid_inv_refill_slot:
  assumes g: "uuid_spec gen" and inv: "uid_inv gen issued p"
    and i: "i < MAX_UNIQUE_IDS" and blank: "m_vector p ! i = []"
  shows "uid_inv gen issued (p\<lparr>m_Calls := Suc (m_Calls p), m_vector := (m_vector p)[i := gen (m_Calls p)]\<rparr>)"
proof -
  let ?v = "m_vector p" and ?s = "gen (m_Calls p)"
  have len: "i < length ?v" using inv i by (simp add: uid_inv_def)
  have old: "pooled p = filter (\<lambda>x. x \<noteq> []) (take i ?v) @ filter (\<lambda>x. x \<noteq> []) (drop (Suc i) ?v)"
    using filter_split_at[OF len, of "\<lambda>x. x \<noteq> []"] blank by (simp add: pooled_def)
  have new: "filter (\<lambda>x. x \<noteq> []) (?v[i := ?s]) =
      filter (\<lambda>x. x \<noteq> []) (take i ?v) @ ?s # filter (\<lambda>x. x \<noteq> []) (drop (Suc i) ?v)"
    by (rule filter_update_blank[OF len blank gen_nonempty[OF g]])
  have "?s \<notin> set (issued @ pooled p)" using inv gen_fresh[OF g, of "m_Calls p"] by (auto simp: uid_inv_def)
  then show ?thesis
    using inv unfolding uid_inv_def pooled_def[of "_\<lparr>m_Calls := _, m_vector := _\<rparr>"] old
    by (auto simp: new lessThan_Suc)
qed

lemma refill_ok:
  "uuid_spec gen \<Longrightarrow> uid_inv gen issued p \<Longrightarrow> \<exists>p'. refill gen i p = Inr p' \<and> uid_inv gen issued p' \<and>
    (\<forall>j < MAX_UNIQUE_IDS. i \<le> j \<or> m_vector p ! j \<noteq> [] \<longrightarrow> m_vector p' ! j \<noteq> [])"
proof (induction gen i p rule: refill.induct)
  case (1 gen i p)
  note g = "1.prems"(1) and prev = "1.prems"(2)
  show ?case
  proof (cases "i < MAX_UNIQUE_IDS")
    case False
    with "1.prems" show ?thesis by (auto simp: refill.simps[of gen i p])
  next
    case i: True
    with "1.prems" have at: "vec_at (m_vector p) i = Inr (m_vector p ! i)"
      by (simp add: vec_at_def uid_inv_def)
    show ?thesis
    proof (cases "m_vector p ! i = []")
      case True
      let ?p = "p\<lparr>m_Calls := Suc (m_Calls p), m_vector := (m_vector p)[i := gen (m_Calls p)]\<rparr>"
      have inv: "uid_inv gen issued ?p" by (rule uid_inv_refill_slot) (use g prev i True in auto)
      obtain p' where p': "refill gen (Suc i) ?p = Inr p'" "uid_inv gen issued p'"
        "\<forall>j < MAX_UNIQUE_IDS. Suc i \<le> j \<or> m_vector ?p ! j \<noteq> [] \<longrightarrow> m_vector p' ! j \<noteq> []"
        using "1.IH"(1)[OF i at True _ refl, of "gen (m_Calls p)" "p\<lparr>m_Calls := Suc (m_Calls p)\<rparr>"] inv g
        by (auto simp: cUniqueIDProvider_CreateNewID_def)
      have "refill gen i p = Inr p'"
        using i at True p'(1) by (simp add: refill.simps[of gen i p] cUniqueIDProvider_CreateNewID_def)
      moreover have "m_vector p' ! j \<noteq> []"
        if "j < MAX_UNIQUE_IDS" "i \<le> j \<or> m_vector p ! j \<noteq> []" for j
        using p'(3) that prev gen_nonempty[OF g] True
        by (cases "j = i") (auto simp: uid_inv_def nth_list_update Suc_le_eq)
      ultimately show ?thesis using p'(2) by blast
    next
      case False
      with "1.IH"(2)[OF i at False g prev] i at obtain p' where p': "refill gen i p = Inr p'"
        "uid_inv gen issued p'"
        "\<forall>j < MAX_UNIQUE_IDS. Suc i \<le> j \<or> m_vector p ! j \<noteq> [] \<longrightarrow> m_vector p' ! j \<noteq> []"
        by (auto simp: refill.simps[of gen i p])
      with False show ?thesis by (metis Suc_leI le_neq_implies_less)
    qed
  qed
qed

lemma get_loop_ok:
  assumes "length (m_vector p) = MAX_UNIQUE_IDS"
  shows "get_loop i p = Inr None \<and> (\<forall>j < MAX_UNIQUE_IDS. i \<le> j \<longrightarrow> m_vector p ! j = []) \<or>
    (\<exists>j < MAX_UNIQUE_IDS. m_vector p ! j \<noteq> [] \<and>
       get_loop i p = Inr (Some (m_vector p ! j, p\<lparr>m_vector := (m_vector p)[j := []]\<rparr>)))"
  using assms
proof (induction i p rule: get_loop.induct)
  case (1 i p)
  show ?case
  proof (cases "i < MAX_UNIQUE_IDS")
    case True
    with 1 have at: "vec_at (m_vector p) i = Inr (m_vector p ! i)" by (simp add: vec_at_def)
    show ?thesis
    proof (cases "m_vector p ! i = []")
      case blank: True
      have step: "get_loop i p = get_loop (Suc i) p"
        using True at blank by (simp add: get_loop.simps[of i p])
      have "i \<le> j \<longleftrightarrow> j = i \<or> Suc i \<le> j" for j by auto
      with "1.IH"[OF True at] "1.prems" blank show ?thesis unfolding step by auto
    next
      case False
      with True at show ?thesis by (auto simp: get_loop.simps[of i p])
    qed
  qed (simp add: get_loop.simps[of i p])
qed

lemma uid_inv_take_slot:
  assumes "uid_inv gen issued p" "j < MAX_UNIQUE_IDS" "m_vector p ! j \<noteq> []"
  shows "uid_inv gen (m_vector p ! j # issued) (p\<lparr>m_vector := (m_vector p)[j := []]\<rparr>)"
proof -
  let ?v = "m_vector p"
  have len: "j < length ?v" using assms by (simp add: uid_inv_def)
  have "pooled p = filter (\<lambda>x. x \<noteq> []) (take j ?v) @ ?v ! j # filter (\<lambda>x. x \<noteq> []) (drop (Suc j) ?v)"
    using filter_split_at[OF len, of "\<lambda>x. x \<noteq> []"] assms(3) by (simp add: pooled_def)
  moreover have "filter (\<lambda>x. x \<noteq> []) (?v[j := []]) =
      filter (\<lambda>x. x \<noteq> []) (take j ?v) @ filter (\<lambda>x. x \<noteq> []) (drop (Suc j) ?v)"
    using len by (simp add: upd_conv_take_nth_drop)
  ultimately show ?thesis
    using assms(1) unfolding uid_inv_def pooled_def[of "_\<lparr>m_vector := _\<rparr>"] by auto
qed

lemma uid_inv_create:
  assumes "uuid_spec gen" "uid_inv gen issued p"
  shows "uid_inv gen (gen (m_Calls p) # issued) (p\<lparr>m_Calls := Suc (m_Calls p)\<rparr>)"
  using assms gen_fresh[OF assms(1), of "m_Calls p"]
  by (auto simp: uid_inv_def pooled_def lessThan_Suc)

lemma GetID_ok:
  assumes "uuid_spec gen" "uid_inv gen issued p"
  shows "\<exists>s p'. cUniqueIDProvider_GetID gen p = Inr (s, p') \<and> uid_inv gen (s # issued) p' \<and> s \<noteq> []"
  using get_loop_ok[of p 0] assms uid_inv_take_slot[OF assms(2)] uid_inv_create[OF assms]
    gen_nonempty[OF assms(1)]
  by (auto simp: cUniqueIDProvider_GetID_def cUniqueIDProvider_CreateNewID_def uid_inv_def)

lemma Run_ok:
  assumes "uuid_spec gen" "uid_inv gen issued p"
  shows "\<exists>p'. cUniqueIDProvider_Run gen p = Inr p' \<and> uid_inv gen issued p' \<and> [] \<notin> set (m_vector p')"
  using refill_ok[OF assms, of 0]
  by (fastforce simp: cUniqueIDProvider_Run_def uid_inv_def in_set_conv_nth)

lemma fill_vector_ok:
  "m_vector (fill_vector gen n p) = m_vector p @ map gen [m_Calls p ..< m_Calls p + n] \<and>
   m_Calls (fill_vector gen n p) = m_Calls p + n"
proof (induction n arbitrary: p)
  case (Suc n)
  then show ?case
    by (simp add: cUniqueIDProvider_CreateNewID_def upt_conv_Cons del: upt_Suc)
qed simp

lemma uid_inv_new:
  assumes "uuid_spec gen"
  shows "uid_inv gen [] (cUniqueIDProvider_new gen calls)"
proof -
  have "distinct (map gen [calls ..< calls + MAX_UNIQUE_IDS])"
    using assms by (simp add: uuid_spec_def distinct_map inj_on_def)
  then show ?thesis
    by (auto simp: uid_inv_def pooled_def cUniqueIDProvider_new_def fill_vector_ok)
qed

section \<open>Executions\<close>

text \<open>A step of the server: some thread asks for an identifier, or the provider's thread refills.\<close>

datatype uid_step = StepGetID | StepRun

fun uid_exec :: "uuid_gen \<Rightarrow> uid_step list \<Rightarrow> cUniqueIDProvider \<Rightarrow> (string list \<times> cUniqueIDProvider) res"
where
  "uid_exec gen [] p = Inr ([], p)"
| "uid_exec gen (StepGetID # ss) p =
     bindE (cUniqueIDProvider_GetID gen p) (\<lambda>(s, p).
     bindE (uid_exec gen ss p) (\<lambda>(ids, p). Inr (s # ids, p)))"
| "uid_exec gen (StepRun # ss) p = bindE (cUniqueIDProvider_Run gen p) (uid_exec gen ss)"

lemma uid_exec_ok:
  assumes "uuid_spec gen"
  shows "uid_inv gen issued p \<Longrightarrow> \<exists>ids p'. uid_exec gen steps p = Inr (ids, p') \<and>
    uid_inv gen (rev ids @ issued) p' \<and> length ids = count_list steps StepGetID \<and> [] \<notin> set ids"
proof (induction steps arbitrary: issued p)
  case (Cons s ss)
  show ?case
  proof (cases s)
    case StepGetID
    obtain x p1 where 1: "cUniqueIDProvider_GetID gen p = Inr (x, p1)" "uid_inv gen (x # issued) p1"
      "x \<noteq> []" using GetID_ok[OF assms Cons.prems] by blast
    with Cons.IH[OF 1(2)] StepGetID show ?thesis by auto
  next
    case StepRun
    obtain p1 where 1: "cUniqueIDProvider_Run gen p = Inr p1" "uid_inv gen issued p1"
      using Run_ok[OF assms Cons.prems] by blast
    with Cons.IH[OF 1(2)] StepRun show ?thesis by auto
  qed
qed simp

text \<open>
  (C19) Message identifiers are unique: with a library that never repeats an identifier, every
  execution of a fresh provider, under any interleaving of identifier requests with refills by
  the provider's thread, runs without a fault and answers each request with a non-empty
  identifier never handed out before.
\<close>

theorem identifiers_unique:
  assumes "uuid_spec gen"
  shows "\<exists>ids p. uid_exec gen steps (cUniqueIDProvider_new gen calls) = Inr (ids, p) \<and>
    distinct ids \<and> [] \<notin> set ids \<and> length ids = count_list steps StepGetID"
  using uid_exec_ok[OF assms uid_inv_new[OF assms, of calls], of steps]
  by (fastforce simp: uid_inv_def)

theorem identifiers_unique_witness:
  "\<exists>ids p. uid_exec (\<lambda>n. replicate (Suc n) (CHR ''x'')) [StepGetID, StepRun, StepGetID]
      (cUniqueIDProvider_new (\<lambda>n. replicate (Suc n) (CHR ''x'')) 0) = Inr (ids, p) \<and>
    distinct ids \<and> [] \<notin> set ids \<and> length ids = count_list [StepGetID, StepRun, StepGetID] StepGetID"
  by (rule identifiers_unique) (auto simp: uuid_spec_def inj_def dest: arg_cong[where f = length])

end
