(* ===== verification/Clock.thy ===== *)
theory Clock
  imports Mc_Prelude
begin

text \<open>
  The time based helpers: the polled timer \<open>cTimer\<close> (\<open>timer.h\<close>, \<open>timer.cpp\<close>), the profiler
  \<open>cBench\<close> (\<open>bench.h\<close>, \<open>bench.cpp\<close>, POSIX branch) and the date line of \<open>cDate\<close>
  (\<open>date.cpp\<close>). The clocks are arguments: \<open>now\<close> is the value of \<open>time(0)\<close>, a \<open>timeval\<close> that of
  \<open>gettimeofday\<close>, and \<open>tm\<close> the broken-down time \<open>gmtime\<close> returns.
\<close>

section \<open>The timer\<close>

record cTimer =
  m_bStopped :: bool
  m_seconds :: int
  m_timestamp :: int

definition cTimer_new :: cTimer where
  "cTimer_new = \<lparr>m_bStopped = True, m_seconds = 0, m_timestamp = 0\<rparr>"

definition cTimer_SetInterval :: "int \<Rightarrow> cTimer \<Rightarrow> cTimer" where
  "cTimer_SetInterval seconds t = t\<lparr>m_seconds := seconds\<rparr>"

definition cTimer_Reset :: "int \<Rightarrow> cTimer \<Rightarrow> cTimer" where
  "cTimer_Reset now t = t\<lparr>m_timestamp := now + m_seconds t, m_bStopped := False\<rparr>"

definition cTimer_Start :: "int \<Rightarrow> cTimer \<Rightarrow> cTimer" where
  "cTimer_Start now t = cTimer_Reset now t"

definition cTimer_Stop :: "cTimer \<Rightarrow> cTimer" where
  "cTimer_Stop t = t\<lparr>m_bStopped := True\<rparr>"

definition cTimer_IsReady :: "int \<Rightarrow> cTimer \<Rightarrow> bool" where
  "cTimer_IsReady now t = (if m_bStopped t then False else if now \<ge> m_timestamp t then True else False)"

definition cTimer_GetInterval :: "cTimer \<Rightarrow> int" where
  "cTimer_GetInterval t = m_seconds t"

lemma timer_started:
  "cTimer_IsReady now (cTimer_Start t0 (cTimer_SetInterval s t)) \<longleftrightarrow> t0 + s \<le> now"
  by (simp add: cTimer_IsReady_def cTimer_Start_def cTimer_Reset_def cTimer_SetInterval_def)

lemma timer_stopped: "\<not> cTimer_IsReady now (cTimer_Stop t)"
  by (simp add: cTimer_IsReady_def cTimer_Stop_def)

section \<open>The profiler\<close>

record timeval =
  tv_sec :: int
  tv_usec :: int

record cBench =
  m_sLabel :: string
  m_tvalStart :: timeval
  m_tvalStop :: timeval

definition cBench_new :: cBench where
  "cBench_new = \<lparr>m_sLabel = [], m_tvalStart = \<lparr>tv_sec = 0, tv_usec = 0\<rparr>,
     m_tvalStop = \<lparr>tv_sec = 0, tv_usec = 0\<rparr>\<rparr>"

definition cBench_Start :: "timeval \<Rightarrow> cBench \<Rightarrow> cBench" where
  "cBench_Start tv b = b\<lparr>m_tvalStart := tv\<rparr>"

definition cBench_new_label :: "string \<Rightarrow> string \<Rightarrow> int \<Rightarrow> timeval \<Rightarrow> cBench" where
  "cBench_new_label pFile pLabel iLine tv =
     cBench_Start tv (cBench_new\<lparr>m_sLabel :=
       ''BENCH: '' @ pFile @ ''('' @ pLabel @ '')['' @ show_int iLine @ '']''\<rparr>)"

definition cBench_assign :: "cBench \<Rightarrow> cBench \<Rightarrow> cBench" where
  "cBench_assign that b = b\<lparr>m_sLabel := m_sLabel that, m_tvalStart := m_tvalStart that,
     m_tvalStop := m_tvalStop that\<rparr>"

definition cBench_Stop :: "timeval \<Rightarrow> cBench \<Rightarrow> cBench" where
  "cBench_Stop tv b = b\<lparr>m_tvalStop := tv\<rparr>"

definition cBench_SetStart :: "timeval \<Rightarrow> cBench \<Rightarrow> cBench" where
  "cBench_SetStart tv b = b\<lparr>m_tvalStart := \<lparr>tv_sec = tv_sec tv, tv_usec = tv_usec tv\<rparr>\<rparr>"

text \<open>
  \<open>ElapsedMicroSeconds\<close> adds seconds and microseconds; both are far below \<open>2 ^ 52\<close>, so the
  \<open>double\<close> computation is exact and is written on integers.
\<close>

definition cBench_ElapsedMicroSeconds :: "cBench \<Rightarrow> int" where
  "cBench_ElapsedMicroSeconds b =
     (let t1 = tv_sec (m_tvalStart b) + tv_usec (m_tvalStart b);
          t2 = tv_sec (m_tvalStop b) + tv_usec (m_tvalStop b)
      in t2 - t1)"

section \<open>The date line\<close>

record tm =
  tm_sec :: int
  tm_min :: int
  tm_hour :: int
  tm_mday :: int
  tm_mon :: int
  tm_year :: int
  tm_wday :: int

text \<open>\<open>%2.2d\<close>: at least two digits, padded with zeros.\<close>

definition fmt2 :: "int \<Rightarrow> string" where
  "fmt2 x = (if 0 \<le> x \<and> x < 10 then ''0'' @ show_int x else show_int x)"

definition day_name :: "int \<Rightarrow> string" where
  "day_name d =
     (if d = 0 then ''Sun, '' else if d = 1 then ''Mon, '' else if d = 2 then ''Tue, ''
      else if d = 3 then ''Wed, '' else if d = 4 then ''Thu, '' else if d = 5 then ''Fri, ''
      else if d = 6 then ''Sat, '' else [])"

definition mon_name :: "int \<Rightarrow> string" where
  "mon_name m =
     (if m = 0 then ''Jan '' else if m = 1 then ''Feb '' else if m = 2 then ''Mar ''
      else if m = 3 then ''Apr '' else if m = 4 then ''May '' else if m = 5 then ''Jun ''
      else if m = 6 then ''Jul '' else if m = 7 then ''Aug '' else if m = 8 then ''Sep ''
      else if m = 9 then ''Oct '' else if m = 10 then ''Nov '' else if m = 11 then ''Dec '' else [])"

definition cDate_GetDate :: "tm \<Rightarrow> string" where
  "cDate_GetDate t =
     (let year = tm_year t - 100 + 2000 in
      day_name (tm_wday t) @ fmt2 (tm_mday t) @ '' '' @ mon_name (tm_mon t) @
      show_int year @ '' '' @ fmt2 (tm_hour t) @ '':'' @ fmt2 (tm_min t) @ '':'' @ fmt2 (tm_sec t) @
      '' GMT'')"

text \<open>What \<open>gmtime\<close> returns, for years 1000 to 9999 (\<open>tm_sec\<close> may be 60 for a leap second).\<close>

definition tm_valid :: "tm \<Rightarrow> bool" where
  "tm_valid t \<longleftrightarrow> 0 \<le> tm_sec t \<and> tm_sec t \<le> 60 \<and> 0 \<le> tm_min t \<and> tm_min t \<le> 59 \<and>
     0 \<le> tm_hour t \<and> tm_hour t \<le> 23 \<and> 1 \<le> tm_mday t \<and> tm_mday t \<le> 31 \<and>
     0 \<le> tm_mon t \<and> tm_mon t \<le> 11 \<and> -900 \<le> tm_year t \<and> tm_year t \<le> 8099 \<and>
     0 \<le> tm_wday t \<and> tm_wday t \<le> 6"

lemma length_show_nat1: "n < 10 \<Longrightarrow> length (show_nat n) = 1"
  by (simp add: show_nat.simps[of n])

lemma length_show_nat_step: "10 \<le> n \<Longrightarrow> length (show_nat n) = Suc (length (show_nat (n div 10)))"
  by (simp add: show_nat.simps[of n])

lemma length_show_nat2: "10 \<le> n \<Longrightarrow> n < 100 \<Longrightarrow> length (show_nat n) = 2"
  by (simp add: length_show_nat_step length_show_nat1)

lemma length_show_nat3: "100 \<le> n \<Longrightarrow> n < 1000 \<Longrightarrow> length (show_nat n) = 3"
  using length_show_nat2[of "n div 10"] by (subst length_show_nat_step) auto

lemma length_show_nat4: "1000 \<le> n \<Longrightarrow> n < 10000 \<Longrightarrow> length (show_nat n) = 4"
  using length_show_nat3[of "n div 10"] by (subst length_show_nat_step) auto

lemma length_show_year: "-900 \<le> y \<Longrightarrow> y \<le> 8099 \<Longrightarrow> length (show_int (y - 100 + 2000)) = 4"
  by (simp add: show_int_def length_show_nat4)

lemma length_fmt2: "0 \<le> x \<Longrightarrow> x < 100 \<Longrightarrow> length (fmt2 x) = 2"
  by (simp add: fmt2_def show_int_def length_show_nat1 length_show_nat2)

lemma length_day_name: "0 \<le> d \<Longrightarrow> d \<le> 6 \<Longrightarrow> length (day_name d) = 5"
  by (auto simp: day_name_def)

lemma length_mon_name: "0 \<le> m \<Longrightarrow> m \<le> 11 \<Longrightarrow> length (mon_name m) = 4"
  by (simp add: mon_name_def) presburger

lemma length_GetDate: "tm_valid t \<Longrightarrow> length (cDate_GetDate t) = 29"
  using length_show_year[of "tm_year t"]
  by (simp add: tm_valid_def cDate_GetDate_def Let_def length_fmt2 length_day_name length_mon_name)

lemma atoi_fmt2:
  assumes "0 \<le> x"
  shows "atoi (fmt2 x) = x"
proof -
  have d: "\<forall>c \<in> set (show_nat (nat x)). is_digit c" using show_nat_digits by blast
  have "is_digit (CHR ''0'')" by (simp add: is_digit_def)
  then have "atoi (CHR ''0'' # show_nat (nat x)) = digits_val 0 (CHR ''0'' # show_nat (nat x))"
    using d by (intro atoi_digits) auto
  also have "\<dots> = x" using assms by (simp add: is_digit_def digits_val_show_nat)
  finally show ?thesis using assms atoi_show_int[of x] by (simp add: fmt2_def show_int_def)
qed

section \<open>Properties\<close>

text \<open>
  A date line always has the 29 characters of the HTTP date format, so neither of the two
  \<open>sprintf\<close> calls can overrun its 60 byte array, and its day of the month, hour, minute and
  second fields read back as the numbers that were printed.
\<close>

theorem date_line_format:
  assumes "tm_valid t"
  shows "length (cDate_GetDate t) = 29 \<and>
    atoi (take 2 (drop 5 (cDate_GetDate t))) = tm_mday t \<and>
    atoi (take 2 (drop 17 (cDate_GetDate t))) = tm_hour t \<and>
    atoi (take 2 (drop 20 (cDate_GetDate t))) = tm_min t \<and>
    atoi (take 2 (drop 23 (cDate_GetDate t))) = tm_sec t"
proof -
  have pick: "take 2 (drop n (a @ fmt2 x @ r)) = fmt2 x" if "length a = n" "0 \<le> x" "x < 100" for n a x r
    using that length_fmt2[of x] by simp
  note v = assms[unfolded tm_valid_def]
  have len: "length (day_name (tm_wday t)) = 5" "length (mon_name (tm_mon t)) = 4"
    "length (fmt2 (tm_mday t)) = 2" "length (fmt2 (tm_hour t)) = 2" "length (fmt2 (tm_min t)) = 2"
    "length (show_int (tm_year t - 100 + 2000)) = 4"
    using v length_show_year[of "tm_year t"] by (simp_all add: length_fmt2 length_day_name length_mon_name)
  let ?d = "day_name (tm_wday t)" and ?y = "show_int (tm_year t - 100 + 2000)"
  let ?a = "?d @ fmt2 (tm_mday t) @ '' '' @ mon_name (tm_mon t) @ ?y @ '' ''"
  show ?thesis
    using length_GetDate[OF assms] v len
      pick[of ?d 5 "tm_mday t"] pick[of ?a 17 "tm_hour t"]
      pick[of "?a @ fmt2 (tm_hour t) @ '':''" 20 "tm_min t"]
      pick[of "?a @ fmt2 (tm_hour t) @ '':'' @ fmt2 (tm_min t) @ '':''" 23 "tm_sec t"]
    by (simp add: cDate_GetDate_def Let_def atoi_fmt2)
qed

theorem date_line_format_witness:
  "length (cDate_GetDate \<lparr>tm_sec = 37, tm_min = 49, tm_hour = 8, tm_mday = 6, tm_mon = 10, tm_year = 94,
      tm_wday = 0\<rparr>) = 29"
  using date_line_format[of "\<lparr>tm_sec = 37, tm_min = 49, tm_hour = 8, tm_mday = 6, tm_mon = 10,
      tm_year = 94, tm_wday = 0\<rparr>"]
  by (simp add: tm_valid_def)

end
