(* ===== verification/Msg.thy ===== *)
theory Msg
  imports HeaderExtract RoutingTag UniqueId Clock
begin

text \<open>
  Messages, \<open>cMsg\<close> (\<open>imsg.h\<close>, \<open>msg.h\<close>, \<open>msg.cpp\<close>). A message is a record with the members of
  the class; the lock of the class only makes each operation atomic and has no field, and the
  debugging trace (\<open>m_Travels\<close>, \<open>m_touchCode\<close>), absent from release builds, is left out.

  The pointer \<open>m_pPayload\<close> is a value of type \<open>payload\<close>: null, an offset into the buffer of the
  message at some address, or a string object outside every message. Messages therefore live at
  addresses, and the operations that look through the pointer work on the store \<open>msg_heap\<close>.

  A getter that returns \<open>c_str()\<close> is modelled by the C string its callers read: the text up to
  the first NUL.
\<close>

section \<open>The data\<close>

datatype eMsgConnectionType = MSG_CT_NOTSET | MSG_CT_IB_UDP | MSG_CT_OB_UDP | MSG_CT_IB_TCP
  | MSG_CT_OB_TCP | MSG_CT_INTERNAL

datatype eMsgFormat = MSG_FORMAT_NOTSET | MSG_FORMAT_REQ | MSG_FORMAT_RES | MSG_FORMAT_NOTIFY

datatype eMsgReplyActionType = MSG_REPLY_ACTION_NONE | MSG_REPLY_ACTION_WAIT | MSG_REPLY_ACTION_NOWAIT

datatype eMsgNotifyActionType = MSG_NOTIFY_ACTION_YES | MSG_NOTIFY_ACTION_NO

datatype eMsgProtocolType = MSG_PROTOCOL_UNKNOWN | MSG_PROTOCOL_UNKNOWN_TCP | MSG_PROTOCOL_UNKNOWN_UDP
  | MSG_PROTOCOL_HTTP_MCP | MSG_PROTOCOL_MCP | MSG_PROTOCOL_HTTP_GET | MSG_PROTOCOL_HTTP_POST

definition MSG_PRIORITY_LOWEST :: int where "MSG_PRIORITY_LOWEST = 0"
definition MSG_PRIORITY_LOW :: int where "MSG_PRIORITY_LOW = 64"
definition MSG_PRIORITY_MID :: int where "MSG_PRIORITY_MID = 128"
definition MSG_PRIORITY_HIGH :: int where "MSG_PRIORITY_HIGH = 192"
definition MSG_PRIORITY_HIGHEST :: int where "MSG_PRIORITY_HIGHEST = 255"

lemmas priority_defs = MSG_PRIORITY_LOWEST_def MSG_PRIORITY_LOW_def MSG_PRIORITY_MID_def
  MSG_PRIORITY_HIGH_def MSG_PRIORITY_HIGHEST_def

datatype eMsgState = MSG_STATE_INACTIVE | MSG_STATE_PENDING | MSG_STATE_INUSE | MSG_STATE_UNDELIVERED
  | MSG_STATE_DELIVERED | MSG_STATE_PROCESSED | MSG_STATE_MARKFORREUSE

type_synonym msg_addr = nat
type_synonym service_addr = nat

datatype payload = PNull | PMsg msg_addr int | PExt string

record cMsg =
  m_HeaderExtract :: cHeaderExtract
  TCPSocketHandle :: int
  UDPSocketHandle :: int
  MsgSendRetryCount :: int
  MsgSendRetryDelay :: int
  MsgID :: string
  MsgConnectionType :: eMsgConnectionType
  MsgProtocolType :: eMsgProtocolType
  MsgFormat :: eMsgFormat
  MsgResponseCode :: int
  MsgState :: eMsgState
  MsgCommand :: string
  MsgTo :: string
  MsgFrom :: string
  MsgSubject :: string
  MsgOptions :: string
  MsgReplyActionType :: eMsgReplyActionType
  MsgNotifyActionType :: eMsgNotifyActionType
  MsgStatusLine :: string
  MsgContentType :: string
  MsgContentLength :: int
  MsgBuffer :: cBuffer
  MsgRawBuffer :: cBuffer
  m_pPayload :: payload
  MsgHeaderSize :: int
  MsgMD5 :: string
  MsgCRC32 :: string
  SourceIP :: string
  SourcePort :: int
  MsgPriority :: int
  MsgProfiler :: cBench
  MsgArrivalPort :: int
  HeaderFieldTemp :: string
  MsgInUseTS :: int
  MsgLastRetryTS :: int
  MsgCloned :: bool
  MsgService :: "service_addr option"
  m_bKeepAlive :: bool
  MsgToString :: string

type_synonym msg_heap = "msg_addr \<rightharpoonup> cMsg"

definition HRC_MSG_OK :: int where "HRC_MSG_OK = 0"
definition CMSG_MAX_RETRY_DELAY :: int where "CMSG_MAX_RETRY_DELAY = 1"

section \<open>Getters\<close>

definition cMsg_GetBuffer :: "cMsg \<Rightarrow> cBuffer" where
  "cMsg_GetBuffer m = MsgBuffer m"

definition cMsg_GetRawBuffer :: "cMsg \<Rightarrow> block option" where
  "cMsg_GetRawBuffer m = cBuffer_GetRawBuffer (MsgRawBuffer m)"

definition cMsg_GetRawBufferSize :: "cMsg \<Rightarrow> int" where
  "cMsg_GetRawBufferSize m = cBuffer_GetBufferCount (MsgRawBuffer m)"

definition cMsg_GetTCPSocketHandle :: "cMsg \<Rightarrow> int" where
  "cMsg_GetTCPSocketHandle m = TCPSocketHandle m"

definition cMsg_GetUDPSocketHandle :: "cMsg \<Rightarrow> int" where
  "cMsg_GetUDPSocketHandle m = UDPSocketHandle m"

definition cMsg_GetMsgID :: "cMsg \<Rightarrow> string" where
  "cMsg_GetMsgID m = c_prefix (MsgID m)"

definition cMsg_GetMsgState :: "cMsg \<Rightarrow> eMsgState" where
  "cMsg_GetMsgState m = MsgState m"

definition cMsg_GetSendRetryDelay :: "cMsg \<Rightarrow> int" where
  "cMsg_GetSendRetryDelay m = MsgSendRetryDelay m"

definition cMsg_GetSendRetryCount :: "cMsg \<Rightarrow> int" where
  "cMsg_GetSendRetryCount m = MsgSendRetryCount m"

definition cMsg_GetConnectionType :: "cMsg \<Rightarrow> eMsgConnectionType" where
  "cMsg_GetConnectionType m = MsgConnectionType m"

definition cMsg_GetProtocolType :: "cMsg \<Rightarrow> eMsgProtocolType" where
  "cMsg_GetProtocolType m = MsgProtocolType m"

definition cMsg_GetFormat :: "cMsg \<Rightarrow> eMsgFormat" where
  "cMsg_GetFormat m = MsgFormat m"

definition cMsg_GetResponseCode :: "cMsg \<Rightarrow> int" where
  "cMsg_GetResponseCode m = MsgResponseCode m"

definition cMsg_GetCommand :: "cMsg \<Rightarrow> string" where
  "cMsg_GetCommand m = c_prefix (MsgCommand m)"

definition cMsg_GetTo :: "cMsg \<Rightarrow> string" where
  "cMsg_GetTo m = c_prefix (MsgTo m)"

definition cMsg_GetFrom :: "cMsg \<Rightarrow> string" where
  "cMsg_GetFrom m = c_prefix (MsgFrom m)"

definition cMsg_GetSubject :: "cMsg \<Rightarrow> string" where
  "cMsg_GetSubject m = c_prefix (MsgSubject m)"

definition cMsg_GetOptions :: "cMsg \<Rightarrow> string" where
  "cMsg_GetOptions m = c_prefix (MsgOptions m)"

definition cMsg_GetReplyAction :: "cMsg \<Rightarrow> eMsgReplyActionType" where
  "cMsg_GetReplyAction m = MsgReplyActionType m"

definition cMsg_GetNotifyAction :: "cMsg \<Rightarrow> eMsgNotifyActionType" where
  "cMsg_GetNotifyAction m = MsgNotifyActionType m"

definition cMsg_GetStatusLine :: "cMsg \<Rightarrow> string" where
  "cMsg_GetStatusLine m = c_prefix (MsgStatusLine m)"

definition cMsg_GetContentType :: "cMsg \<Rightarrow> string" where
  "cMsg_GetContentType m = c_prefix (MsgContentType m)"

definition cMsg_GetContentLength :: "cMsg \<Rightarrow> int" where
  "cMsg_GetContentLength m = MsgContentLength m"

definition cMsg_GetContentPayload :: "cMsg \<Rightarrow> payload" where
  "cMsg_GetContentPayload m = m_pPayload m"

definition cMsg_GetCRC32 :: "cMsg \<Rightarrow> string" where
  "cMsg_GetCRC32 m = c_prefix (MsgCRC32 m)"

definition cMsg_GetMD5 :: "cMsg \<Rightarrow> string" where
  "cMsg_GetMD5 m = c_prefix (MsgMD5 m)"

definition cMsg_GetSourceIP :: "cMsg \<Rightarrow> string" where
  "cMsg_GetSourceIP m = c_prefix (SourceIP m)"

definition cMsg_GetSourcePort :: "cMsg \<Rightarrow> int" where
  "cMsg_GetSourcePort m = SourcePort m"

definition cMsg_GetMsgPriority :: "cMsg \<Rightarrow> int" where
  "cMsg_GetMsgPriority m = MsgPriority m"

definition cMsg_GetHeaderExtract :: "cMsg \<Rightarrow> cHeaderExtract" where
  "cMsg_GetHeaderExtract m = m_HeaderExtract m"

definition cMsg_GetBench :: "cMsg \<Rightarrow> cBench" where
  "cMsg_GetBench m = MsgProfiler m"

definition cMsg_GetHeaderSize :: "cMsg \<Rightarrow> int" where
  "cMsg_GetHeaderSize m = MsgHeaderSize m"

definition cMsg_GetArrivalPort :: "cMsg \<Rightarrow> int" where
  "cMsg_GetArrivalPort m = MsgArrivalPort m"

definition cMsg_GetMsgInUseTS :: "cMsg \<Rightarrow> int" where
  "cMsg_GetMsgInUseTS m = MsgInUseTS m"

definition cMsg_GetMsgLastRetryTS :: "cMsg \<Rightarrow> int" where
  "cMsg_GetMsgLastRetryTS m = MsgLastRetryTS m"

definition cMsg_GetRemoteHandler :: "cMsg \<Rightarrow> service_addr option" where
  "cMsg_GetRemoteHandler m = MsgService m"

definition cMsg_IsKeepAlive :: "cMsg \<Rightarrow> bool" where
  "cMsg_IsKeepAlive m = m_bKeepAlive m"

definition cMsg_GetHeaderFieldValue :: "string \<Rightarrow> cMsg \<Rightarrow> string \<times> cMsg" where
  "cMsg_GetHeaderFieldValue pFieldName m =
     (let v = c_prefix (cHeaderExtract_GetValue pFieldName (m_HeaderExtract m))
      in (v, m\<lparr>HeaderFieldTemp := v\<rparr>))"

section \<open>Setters\<close>

definition cMsg_SetTCPSocketHandle :: "int \<Rightarrow> cMsg \<Rightarrow> cMsg" where
  "cMsg_SetTCPSocketHandle i m = m\<lparr>TCPSocketHandle := i\<rparr>"

definition cMsg_SetUDPSocketHandle :: "int \<Rightarrow> cMsg \<Rightarrow> cMsg" where
  "cMsg_SetUDPSocketHandle i m = m\<lparr>UDPSocketHandle := i\<rparr>"

definition cMsg_SetMsgID :: "string \<Rightarrow> cMsg \<Rightarrow> cMsg" where
  "cMsg_SetMsgID p m = m\<lparr>MsgID := p\<rparr>"

definition cMsg_SetMsgState :: "eMsgState \<Rightarrow> cMsg \<Rightarrow> cMsg" where
  "cMsg_SetMsgState x m = m\<lparr>MsgState := x\<rparr>"

definition cMsg_SetSendRetryDelay :: "int \<Rightarrow> cMsg \<Rightarrow> cMsg" where
  "cMsg_SetSendRetryDelay i m = m\<lparr>MsgSendRetryDelay := i\<rparr>"

definition cMsg_SetSendRetryCount :: "int \<Rightarrow> cMsg \<Rightarrow> cMsg" where
  "cMsg_SetSendRetryCount i m = m\<lparr>MsgSendRetryCount := i\<rparr>"

definition cMsg_SetProtocolType :: "eMsgProtocolType \<Rightarrow> cMsg \<Rightarrow> cMsg" where
  "cMsg_SetProtocolType x m = m\<lparr>MsgProtocolType := x\<rparr>"

definition cMsg_SetFormat :: "eMsgFormat \<Rightarrow> cMsg \<Rightarrow> cMsg" where
  "cMsg_SetFormat x m = m\<lparr>MsgFormat := x\<rparr>"

definition cMsg_SetResponseCode :: "int \<Rightarrow> cMsg \<Rightarrow> cMsg" where
  "cMsg_SetResponseCode i m = m\<lparr>MsgResponseCode := i\<rparr>"

definition cMsg_SetCommand :: "string \<Rightarrow> cMsg \<Rightarrow> cMsg" where
  "cMsg_SetCommand p m = m\<lparr>MsgCommand := p\<rparr>"

definition cMsg_SetTo :: "string \<Rightarrow> cMsg \<Rightarrow> cMsg" where
  "cMsg_SetTo p m = m\<lparr>MsgTo := p\<rparr>"

definition cMsg_SetFrom :: "string \<Rightarrow> cMsg \<Rightarrow> cMsg" where
  "cMsg_SetFrom p m = m\<lparr>MsgFrom := p\<rparr>"

definition cMsg_SetSubject :: "string \<Rightarrow> cMsg \<Rightarrow> cMsg" where
  "cMsg_SetSubject p m = m\<lparr>MsgSubject := p\<rparr>"

definition cMsg_SetOptions :: "string \<Rightarrow> cMsg \<Rightarrow> cMsg" where
  "cMsg_SetOptions p m = m\<lparr>MsgOptions := p\<rparr>"

definition cMsg_SetReplyAction :: "eMsgReplyActionType \<Rightarrow> cMsg \<Rightarrow> cMsg" where
  "cMsg_SetReplyAction x m = m\<lparr>MsgReplyActionType := x\<rparr>"

definition cMsg_SetNotifyAction :: "eMsgNotifyActionType \<Rightarrow> cMsg \<Rightarrow> cMsg" where
  "cMsg_SetNotifyAction x m = m\<lparr>MsgNotifyActionType := x\<rparr>"

definition cMsg_SetContentType :: "string \<Rightarrow> cMsg \<Rightarrow> cMsg" where
  "cMsg_SetContentType p m = m\<lparr>MsgContentType := p\<rparr>"

definition cMsg_SetContentLength :: "int \<Rightarrow> cMsg \<Rightarrow> cMsg" where
  "cMsg_SetContentLength i m = m\<lparr>MsgContentLength := i\<rparr>"

definition cMsg_SetContentPayloadPointer :: "payload \<Rightarrow> cMsg \<Rightarrow> cMsg" where
  "cMsg_SetContentPayloadPointer x m = m\<lparr>m_pPayload := x\<rparr>"

definition cMsg_SetSourceIP :: "string \<Rightarrow> cMsg \<Rightarrow> cMsg" where
  "cMsg_SetSourceIP p m = m\<lparr>SourceIP := p\<rparr>"

definition cMsg_SetSourcePort :: "int \<Rightarrow> cMsg \<Rightarrow> cMsg" where
  "cMsg_SetSourcePort i m = m\<lparr>SourcePort := i\<rparr>"

definition cMsg_SetMsgPriority :: "int \<Rightarrow> cMsg \<Rightarrow> cMsg" where
  "cMsg_SetMsgPriority i m = m\<lparr>MsgPriority := i\<rparr>"

definition cMsg_SetArrivalPort :: "int \<Rightarrow> cMsg \<Rightarrow> cMsg" where
  "cMsg_SetArrivalPort i m = m\<lparr>MsgArrivalPort := i\<rparr>"

definition cMsg_SetRemoteHandler :: "service_addr option \<Rightarrow> cMsg \<Rightarrow> cMsg" where
  "cMsg_SetRemoteHandler x m = m\<lparr>MsgService := x\<rparr>"

definition cMsg_SetKeepAlive :: "bool \<Rightarrow> cMsg \<Rightarrow> cMsg" where
  "cMsg_SetKeepAlive b m = m\<lparr>m_bKeepAlive := b\<rparr>"

definition cMsg_SetStatusLine :: "string \<Rightarrow> cMsg \<Rightarrow> cMsg" where
  "cMsg_SetStatusLine s m = m\<lparr>MsgStatusLine := s\<rparr>"

definition cMsg_SetCRC32 :: "cMsg \<Rightarrow> cMsg" where
  "cMsg_SetCRC32 m = m\<lparr>MsgCRC32 := ''0''\<rparr>"

definition cMsg_SetMD5 :: "cMsg \<Rightarrow> cMsg" where
  "cMsg_SetMD5 m = m"

definition cMsg_SetMsgLastRetryTS :: "int \<Rightarrow> cMsg \<Rightarrow> cMsg" where
  "cMsg_SetMsgLastRetryTS now m = m\<lparr>MsgLastRetryTS := now\<rparr>"

definition cMsg_SetBench :: "cBench \<Rightarrow> cMsg \<Rightarrow> cMsg" where
  "cMsg_SetBench b m = m\<lparr>MsgProfiler := cBench_assign b (MsgProfiler m)\<rparr>"

definition cMsg_SetCloned :: "cMsg \<Rightarrow> cMsg" where
  "cMsg_SetCloned m = m\<lparr>MsgCloned := True\<rparr>"

text \<open>The body of \<open>CloseIfCloned\<close> is commented out.\<close>

definition cMsg_CloseIfCloned :: "cMsg \<Rightarrow> cMsg" where
  "cMsg_CloseIfCloned m = m"

definition cMsg_DestroyMsg :: "cMsg \<Rightarrow> cMsg" where
  "cMsg_DestroyMsg m = m"

text \<open>\<open>CloseSocket\<close> returns the descriptor it closes, if any.\<close>

definition cMsg_CloseSocket :: "cMsg \<Rightarrow> int option \<times> cMsg" where
  "cMsg_CloseSocket m =
     (if TCPSocketHandle m \<noteq> -1 then (Some (TCPSocketHandle m), m\<lparr>TCPSocketHandle := -1\<rparr>)
      else (None, m))"

definition cMsg_UpdateMsgConnectionType :: "eMsgConnectionType \<Rightarrow> cMsg \<Rightarrow> cMsg" where
  "cMsg_UpdateMsgConnectionType ct m =
     (let m = m\<lparr>MsgConnectionType := ct\<rparr> in
      if MsgConnectionType m = MSG_CT_INTERNAL
      then m\<lparr>MsgPriority := MSG_PRIORITY_HIGH, MsgProtocolType := MSG_PROTOCOL_MCP,
             MsgTo := [], MsgFrom := []\<rparr>
      else m)"

definition cMsg_SetConnectionType :: "eMsgConnectionType \<Rightarrow> cMsg \<Rightarrow> cMsg" where
  "cMsg_SetConnectionType ct m =
     (let m = cMsg_UpdateMsgConnectionType ct m; m = m\<lparr>MsgConnectionType := ct\<rparr> in
      if MsgConnectionType m = MSG_CT_INTERNAL
      then m\<lparr>MsgPriority := MSG_PRIORITY_HIGH, MsgProtocolType := MSG_PROTOCOL_MCP,
             MsgTo := [], MsgFrom := []\<rparr>
      else m)"

text \<open>
  \<open>SetContentPayload\<close> on the message at address \<open>self\<close>; \<open>src\<close> is the object the pointer
  argument points to, from the pointer on.
\<close>

definition cMsg_SetContentPayload ::
    "malloc \<Rightarrow> msg_addr \<Rightarrow> block option \<Rightarrow> int \<Rightarrow> cMsg \<Rightarrow> cMsg res" where
  "cMsg_SetContentPayload ml self src iLength m =
     bindE (cBuffer_ReplaceWith ml src iLength (MsgBuffer m)) (\<lambda>(_, b).
     Inr (m\<lparr>MsgBuffer := b,
            m_pPayload := (if cBuffer_GetRawBuffer b = None then PNull else PMsg self 0),
            MsgContentLength := iLength\<rparr>))"

definition cMsg_UpdateMsgID :: "uuid_gen \<Rightarrow> cUniqueIDProvider \<Rightarrow> cMsg \<Rightarrow> (cMsg \<times> cUniqueIDProvider) res" where
  "cMsg_UpdateMsgID gen p m =
     bindE (cUniqueIDProvider_GetID gen p) (\<lambda>(s, p). Inr (m\<lparr>MsgID := s\<rparr>, p))"

definition cMsg_MarkProcessed :: "cMsg \<Rightarrow> cMsg" where
  "cMsg_MarkProcessed m = (cMsg_CloseIfCloned m)\<lparr>MsgState := MSG_STATE_DELIVERED\<rparr>"

text \<open>\<open>name\<close> and \<open>addr\<close> are \<open>cCore::GetServerName()\<close> and \<open>cCore::GetServerPrimaryAddr()\<close>.\<close>

definition cMsg_DispatchMsg :: "string \<Rightarrow> string \<Rightarrow> cMsg \<Rightarrow> cMsg" where
  "cMsg_DispatchMsg name addr m =
     (let m =
        (if MsgConnectionType m = MSG_CT_NOTSET then m\<lparr>MsgConnectionType := MSG_CT_INTERNAL\<rparr>
         else if MsgConnectionType m = MSG_CT_OB_UDP
         then m\<lparr>MsgFrom := name @ ''@'' @ addr @ '':'' @ show_int (MsgArrivalPort m)\<rparr>
         else m)
      in m\<lparr>MsgState := MSG_STATE_PENDING\<rparr>)"

text \<open>
  \<open>ResetMsg\<close> at time \<open>now\<close>; \<open>tv1\<close> and \<open>tv2\<close> are the clock readings of the profiler's \<open>Stop\<close> and
  \<open>Start\<close>. It leaves \<open>m_HeaderExtract\<close>, \<open>MsgMD5\<close>, \<open>HeaderFieldTemp\<close> and \<open>MsgToString\<close> alone.
\<close>

definition cMsg_ResetMsg ::
    "uuid_gen \<Rightarrow> int \<Rightarrow> timeval \<Rightarrow> timeval \<Rightarrow> cUniqueIDProvider \<Rightarrow> cMsg \<Rightarrow> (cMsg \<times> cUniqueIDProvider) res"
where
  "cMsg_ResetMsg gen now tv1 tv2 p m =
     (let m = cMsg_CloseIfCloned m;
          m = m\<lparr>MsgProfiler := cBench_Start tv2 (cBench_Stop tv1 (MsgProfiler m))\<rparr> in
      bindE (cUniqueIDProvider_GetID gen p) (\<lambda>(guid, p).
      Inr (m\<lparr>MsgID := guid, TCPSocketHandle := -1, MsgSendRetryCount := 0,
             MsgSendRetryDelay := CMSG_MAX_RETRY_DELAY, MsgReplyActionType := MSG_REPLY_ACTION_NONE,
             MsgNotifyActionType := MSG_NOTIFY_ACTION_NO, MsgConnectionType := MSG_CT_NOTSET,
             MsgFormat := MSG_FORMAT_NOTSET, MsgProtocolType := MSG_PROTOCOL_UNKNOWN,
             MsgResponseCode := 0, MsgState := MSG_STATE_INACTIVE, MsgCommand := [], MsgTo := [],
             MsgFrom := [], MsgSubject := [], MsgOptions := [], MsgCRC32 := [], MsgStatusLine := [],
             MsgContentType := [], MsgContentLength := 0, MsgPriority := MSG_PRIORITY_MID,
             m_pPayload := PNull, MsgHeaderSize := 0, MsgBuffer := cBuffer_Reset (MsgBuffer m),
             MsgRawBuffer := cBuffer_Reset (MsgRawBuffer m), MsgArrivalPort := 0, MsgInUseTS := now,
             MsgLastRetryTS := 0, MsgCloned := False, SourceIP := [], SourcePort := -1,
             UDPSocketHandle := -1, MsgService := None, m_bKeepAlive := True\<rparr>, p)))"

text \<open>The constructor: default-initialised members (the scalars, still indeterminate here, are all
  set by \<open>ResetMsg\<close>), then \<open>ResetMsg\<close>.\<close>

definition cMsg_raw :: cMsg where
  "cMsg_raw = \<lparr>m_HeaderExtract = cHeaderExtract_new, TCPSocketHandle = 0, UDPSocketHandle = 0,
     MsgSendRetryCount = 0, MsgSendRetryDelay = 0, MsgID = [], MsgConnectionType = MSG_CT_NOTSET,
     MsgProtocolType = MSG_PROTOCOL_UNKNOWN, MsgFormat = MSG_FORMAT_NOTSET, MsgResponseCode = 0,
     MsgState = MSG_STATE_INACTIVE, MsgCommand = [], MsgTo = [], MsgFrom = [], MsgSubject = [],
     MsgOptions = [], MsgReplyActionType = MSG_REPLY_ACTION_NONE,
     MsgNotifyActionType = MSG_NOTIFY_ACTION_YES, MsgStatusLine = [], MsgContentType = [],
     MsgContentLength = 0, MsgBuffer = cBuffer_new, MsgRawBuffer = cBuffer_new, m_pPayload = PNull,
     MsgHeaderSize = 0, MsgMD5 = [], MsgCRC32 = [], SourceIP = [], SourcePort = 0, MsgPriority = 0,
     MsgProfiler = cBench_new, MsgArrivalPort = 0, HeaderFieldTemp = [], MsgInUseTS = 0,
     MsgLastRetryTS = 0, MsgCloned = False, MsgService = None, m_bKeepAlive = False,
     MsgToString = []\<rparr>"

definition cMsg_new ::
    "uuid_gen \<Rightarrow> int \<Rightarrow> timeval \<Rightarrow> timeval \<Rightarrow> cUniqueIDProvider \<Rightarrow> (cMsg \<times> cUniqueIDProvider) res" where
  "cMsg_new gen now tv1 tv2 p = cMsg_ResetMsg gen now tv1 tv2 p cMsg_raw"

definition cMsg_ToString :: "cMsg \<Rightarrow> string \<times> cMsg" where
  "cMsg_ToString m =
     (let s = (if MsgCommand m \<noteq> [] then c_prefix (MsgCommand m) @ [LF] else []) @
              (if MsgID m \<noteq> [] then ''MsgID: '' @ c_prefix (MsgID m) @ [LF] else []) @
              (if cMsg_IsKeepAlive m then ''Connection: keep-alive'' @ [LF]
               else ''Connection: close'' @ [LF]) @
              (if MsgTo m \<noteq> [] then ''To: '' @ c_prefix (MsgTo m) @ [LF] else []) @
              (if MsgFrom m \<noteq> [] then ''From: '' @ c_prefix (MsgFrom m) @ [LF] else [])
      in (c_prefix s, m\<lparr>MsgToString := s\<rparr>))"

section \<open>Parsing\<close>

definition parse_priority :: "string \<Rightarrow> int" where
  "parse_priority sMsgOptions =
     (if str_find sMsgOptions ''priority-lowest'' \<noteq> None then MSG_PRIORITY_LOWEST
      else if str_find sMsgOptions ''priority-low'' \<noteq> None then MSG_PRIORITY_LOW
      else if str_find sMsgOptions ''priority-mid'' \<noteq> None then MSG_PRIORITY_MID
      else if str_find sMsgOptions ''priority-highest'' \<noteq> None then MSG_PRIORITY_HIGHEST
      else if str_find sMsgOptions ''priority-high'' \<noteq> None then MSG_PRIORITY_HIGH
      else MSG_PRIORITY_LOWEST)"

text \<open>Without a reply option the connection type decides; a message that came over neither UDP nor
  TCP keeps its reply action \<open>old\<close>.\<close>

definition parse_reply :: "string \<Rightarrow> eMsgConnectionType \<Rightarrow> eMsgReplyActionType \<Rightarrow> eMsgReplyActionType" where
  "parse_reply sMsgOptions ct old =
     (if str_find sMsgOptions ''reply-none'' \<noteq> None then MSG_REPLY_ACTION_NONE
      else if str_find sMsgOptions ''reply-wait'' \<noteq> None then MSG_REPLY_ACTION_WAIT
      else if str_find sMsgOptions ''reply-nowait'' \<noteq> None then MSG_REPLY_ACTION_NOWAIT
      else if ct = MSG_CT_OB_TCP \<or> ct = MSG_CT_IB_TCP then MSG_REPLY_ACTION_WAIT
      else if ct = MSG_CT_OB_UDP \<or> ct = MSG_CT_IB_UDP then MSG_REPLY_ACTION_NOWAIT
      else old)"

definition parse_notify :: "string \<Rightarrow> eMsgNotifyActionType" where
  "parse_notify sMsgOptions =
     (if str_find sMsgOptions ''notify-yes'' \<noteq> None then MSG_NOTIFY_ACTION_YES
      else if str_find sMsgOptions ''notify-no'' \<noteq> None then MSG_NOTIFY_ACTION_NO
      else MSG_NOTIFY_ACTION_NO)"

definition parse_tag :: "string \<Rightarrow> string res" where
  "parse_tag s =
     (if s \<noteq> [] then
        bindE (cRoutingTag_SetTag (c_prefix s) cRoutingTag_new) (\<lambda>t. Inr (c_prefix (cRoutingTag_GetTag t)))
      else Inr s)"

text \<open>The part of \<open>Parse\<close> after the end of the header has been found at \<open>iEndOfHeader\<close>.\<close>

definition parse_fields ::
    "uuid_gen \<Rightarrow> msg_addr \<Rightarrow> eMsgConnectionType \<Rightarrow> eMsgFormat \<Rightarrow> int \<Rightarrow> cUniqueIDProvider \<Rightarrow> cMsg \<Rightarrow>
       (cMsg \<times> cUniqueIDProvider) res" where
  "parse_fields gen self ct ms iEndOfHeader p m =
     (let m = (cMsg_UpdateMsgConnectionType ct m)\<lparr>MsgFormat := ms\<rparr> in
      bindE (cHeaderExtract_Parse (MsgBuffer m) (m_HeaderExtract m)) (\<lambda>(b, h).
      let m = m\<lparr>MsgBuffer := b, m_HeaderExtract := h\<rparr>;
          val = (\<lambda>k. cHeaderExtract_GetValue k h);
          m = (if length (val ''Connection'') > 0 \<and>
                  (val ''Connection'' = ''close'' \<or> val ''Connection'' = ''Close'')
               then m\<lparr>m_bKeepAlive := False\<rparr> else m);
          m = m\<lparr>MsgID := val ''MsgID''\<rparr> in
      bindE (if MsgID m = [] \<or> MsgID m = ''0'' then cMsg_UpdateMsgID gen p m else Inr (m, p)) (\<lambda>(m, p).
      bindE (parse_tag (val ''To'')) (\<lambda>to.
      bindE (parse_tag (val ''From'')) (\<lambda>from.
      let m = m\<lparr>MsgTo := to, MsgFrom := from, MsgSubject := val ''Subject'',
                MsgPriority := parse_priority (val ''Options''),
                MsgReplyActionType :=
                  parse_reply (val ''Options'') (MsgConnectionType m) (MsgReplyActionType m),
                MsgNotifyActionType := parse_notify (val ''Options''),
                MsgCRC32 := val ''CRC32'', MsgContentType := val ''Content-Type'',
                MsgContentLength := 0\<rparr> in
      if val ''Content-Length'' \<noteq> []
      then Inr (m\<lparr>MsgContentLength := atoi (c_prefix (val ''Content-Length'')),
                  m_pPayload := PMsg self (iEndOfHeader + 4)\<rparr>, p)
      else Inr (m, p))))))"

text \<open>
  \<open>Parse\<close> of the message at address \<open>self\<close>. When there is no line end, \<open>assign(pData, -1)\<close>
  throws \<open>length_error\<close>, whose text the handler of \<open>Parse\<close> throws again (\<open>LOGALL\<close> on Linux). A
  failing \<open>MC_ASSERT\<close> throws a \<open>char*\<close>, which that handler does not catch.
\<close>

definition cMsg_Parse ::
    "malloc \<Rightarrow> uuid_gen \<Rightarrow> msg_addr \<Rightarrow> eMsgConnectionType \<Rightarrow> eMsgFormat \<Rightarrow> cUniqueIDProvider \<Rightarrow> cMsg \<Rightarrow>
       (int \<times> cMsg \<times> cUniqueIDProvider) res" where
  "cMsg_Parse ml gen self ct ms p m =
     bindE (cBuffer_ReplaceWith ml (cBuffer_GetRawBuffer (MsgBuffer m))
              (cBuffer_GetBufferCount (MsgBuffer m)) (MsgRawBuffer m)) (\<lambda>(_, raw).
     let m = m\<lparr>MsgRawBuffer := raw\<rparr> in
     case cBuffer_GetRawBuffer (MsgBuffer m) of
       None \<Rightarrow> Inl AssertFailed
     | Some pData \<Rightarrow>
         bindE (cBuffer_BinaryFind 0 [CR, LF] (MsgBuffer m)) (\<lambda>iFirstLine.
         if iFirstLine = -1 then Inl StdException
         else
           bindE (if iFirstLine \<noteq> 0
                  then bindE (mem_get pData 0 iFirstLine) (\<lambda>s. Inr (m\<lparr>MsgStatusLine := s\<rparr>))
                  else Inr m) (\<lambda>m.
           bindE (cBuffer_BinaryFind 0 CRLF2 (MsgBuffer m)) (\<lambda>iEndOfHeader.
           if iEndOfHeader = -1 then Inl AssertFailed
           else
             let m = m\<lparr>MsgHeaderSize := iEndOfHeader\<rparr> in
             bindE (cBuffer_Find '' '' 0 (MsgBuffer m)) (\<lambda>(i, b).
             let m = m\<lparr>MsgBuffer := b\<rparr> in
             bindE (if i \<noteq> -1
                    then bindE (mem_get pData 0 i) (\<lambda>s. Inr (m\<lparr>MsgCommand := s\<rparr>))
                    else Inr m) (\<lambda>m.
             bindE (parse_fields gen self ct ms iEndOfHeader p m) (\<lambda>(m, p).
             Inr (HRC_MSG_OK, m, p))))))))"

section \<open>Copying\<close>

text \<open>
  The object \<open>m_pPayload\<close> points to, from the pointer on. A pointer into a message's buffer is
  taken to follow that buffer.
\<close>

definition payload_block :: "msg_heap \<Rightarrow> payload \<Rightarrow> block option" where
  "payload_block h pl =
     (case pl of
        PNull \<Rightarrow> None
      | PExt s \<Rightarrow> Some (cstr s)
      | PMsg a off \<Rightarrow>
          (case h a of
             None \<Rightarrow> Some []
           | Some m \<Rightarrow> map_option (drop (nat off)) (m_pBuffer (MsgBuffer m))))"

text \<open>\<open>DeepCopy\<close> from the message \<open>f\<close> to the message \<open>t\<close> at another address \<open>tAddr\<close>.\<close>

definition copy_fields :: "cMsg \<Rightarrow> cMsg \<Rightarrow> cMsg" where
  "copy_fields f t =
     (let t = cMsg_SetTCPSocketHandle (cMsg_GetTCPSocketHandle f) t;
          t = cMsg_SetUDPSocketHandle (cMsg_GetUDPSocketHandle f) t;
          t = cMsg_SetMsgID (cMsg_GetMsgID f) t;
          t = cMsg_SetMsgState (cMsg_GetMsgState f) t;
          t = cMsg_SetConnectionType (cMsg_GetConnectionType f) t;
          t = cMsg_SetProtocolType (cMsg_GetProtocolType f) t;
          t = cMsg_SetFormat (cMsg_GetFormat f) t;
          t = cMsg_SetResponseCode (cMsg_GetResponseCode f) t;
          t = cMsg_SetCommand (cMsg_GetCommand f) t;
          t = cMsg_SetTo (cMsg_GetTo f) t;
          t = cMsg_SetFrom (cMsg_GetFrom f) t;
          t = cMsg_SetSubject (cMsg_GetSubject f) t;
          t = cMsg_SetOptions (cMsg_GetOptions f) t;
          t = cMsg_SetReplyAction (cMsg_GetReplyAction f) t;
          t = cMsg_SetNotifyAction (cMsg_GetNotifyAction f) t;
          t = cMsg_SetStatusLine (cMsg_GetStatusLine f) t;
          t = cMsg_SetContentType (cMsg_GetContentType f) t
      in cMsg_SetContentLength (cMsg_GetContentLength f) t)"

definition copy_rest :: "cMsg \<Rightarrow> cMsg \<Rightarrow> cMsg" where
  "copy_rest f t =
     (let t = cMsg_SetContentPayloadPointer (m_pPayload f) t;
          t = cMsg_SetSourceIP (cMsg_GetSourceIP f) t;
          t = cMsg_SetSourcePort (cMsg_GetSourcePort f) t;
          t = cMsg_SetMsgPriority (cMsg_GetMsgPriority f) t;
          t = cMsg_SetArrivalPort (cMsg_GetArrivalPort f) t;
          t = cMsg_SetBench (cMsg_GetBench f) t
      in cMsg_SetKeepAlive (cMsg_IsKeepAlive f) t)"

definition cMsg_DeepCopy :: "malloc \<Rightarrow> msg_heap \<Rightarrow> cMsg \<Rightarrow> msg_addr \<Rightarrow> cMsg \<Rightarrow> cMsg res" where
  "cMsg_DeepCopy ml h f tAddr t =
     bindE (cMsg_SetContentPayload ml tAddr (payload_block h (m_pPayload f)) (MsgContentLength f)
              (copy_fields f t)) (\<lambda>t.
     Inr (copy_rest f t))"

lemmas getter_defs =
  cMsg_GetBuffer_def cMsg_GetRawBuffer_def cMsg_GetRawBufferSize_def cMsg_GetTCPSocketHandle_def
  cMsg_GetUDPSocketHandle_def cMsg_GetMsgID_def cMsg_GetMsgState_def cMsg_GetSendRetryDelay_def
  cMsg_GetSendRetryCount_def cMsg_GetConnectionType_def cMsg_GetProtocolType_def
  cMsg_GetFormat_def cMsg_GetResponseCode_def cMsg_GetCommand_def cMsg_GetTo_def
  cMsg_GetFrom_def cMsg_GetSubject_def cMsg_GetOptions_def cMsg_GetReplyAction_def
  cMsg_GetNotifyAction_def cMsg_GetStatusLine_def cMsg_GetContentType_def
  cMsg_GetContentLength_def cMsg_GetContentPayload_def cMsg_GetCRC32_def cMsg_GetMD5_def
  cMsg_GetSourceIP_def cMsg_GetSourcePort_def cMsg_GetMsgPriority_def cMsg_GetHeaderExtract_def
  cMsg_GetBench_def cMsg_GetHeaderSize_def cMsg_GetArrivalPort_def cMsg_GetMsgInUseTS_def
  cMsg_GetMsgLastRetryTS_def cMsg_GetRemoteHandler_def cMsg_IsKeepAlive_def

lemmas setter_defs =
  cMsg_SetTCPSocketHandle_def cMsg_SetUDPSocketHandle_def cMsg_SetMsgID_def cMsg_SetMsgState_def
  cMsg_SetSendRetryDelay_def cMsg_SetSendRetryCount_def cMsg_SetProtocolType_def
  cMsg_SetFormat_def cMsg_SetResponseCode_def cMsg_SetCommand_def cMsg_SetTo_def
  cMsg_SetFrom_def cMsg_SetSubject_def cMsg_SetOptions_def cMsg_SetReplyAction_def
  cMsg_SetNotifyAction_def cMsg_SetContentType_def cMsg_SetContentLength_def
  cMsg_SetContentPayloadPointer_def cMsg_SetSourceIP_def cMsg_SetSourcePort_def
  cMsg_SetMsgPriority_def cMsg_SetArrivalPort_def cMsg_SetRemoteHandler_def
  cMsg_SetKeepAlive_def cMsg_SetStatusLine_def cMsg_SetCRC32_def cMsg_SetMD5_def
  cMsg_SetMsgLastRetryTS_def cMsg_SetCloned_def cMsg_SetConnectionType_def
  cMsg_UpdateMsgConnectionType_def cMsg_CloseIfCloned_def cMsg_MarkProcessed_def

section \<open>Lemmas on parsing\<close>

definition field_value :: "(string \<times> string) list \<Rightarrow> string \<Rightarrow> string" where
  "field_value flds k = (case map_of (rev flds) k of Some v \<Rightarrow> v | None \<Rightarrow> [])"

lemma find_line_end: "CR \<notin> set l \<Longrightarrow> str_find (l @ CR # LF # t) [CR, LF] = Some (length l)"
  by (induction l) auto

lemma header_text_line: "\<exists>t. header_text status flds @ CRLF2 @ body = status @ CR # LF # t"
  by (cases flds) (auto simp: header_text_def)

lemma parse_tag_returns: "\<exists>s. parse_tag x = Inr s"
  using SetTag_returns[of "c_prefix x" cRoutingTag_new] by (auto simp: parse_tag_def)

lemma field_value_no_NUL: "fields_ok flds \<Longrightarrow> NUL \<notin> set (field_value flds k)"
  by (cases "map_of (rev flds) k") (auto simp: field_value_def fields_ok_def dest!: map_of_SomeD)

text \<open>What a parsed message says, in terms of the fields of its header.\<close>

definition msg_from_fields ::
    "msg_addr \<Rightarrow> eMsgConnectionType \<Rightarrow> eMsgFormat \<Rightarrow> string \<Rightarrow> (string \<times> string) list \<Rightarrow> cMsg \<Rightarrow> bool" where
  "msg_from_fields self ct ms status flds m \<longleftrightarrow>
     (let val = field_value flds in
      MsgConnectionType m = ct \<and> MsgFormat m = ms \<and> MsgID m \<noteq> [] \<and>
      (val ''MsgID'' \<noteq> [] \<and> val ''MsgID'' \<noteq> ''0'' \<longrightarrow> MsgID m = val ''MsgID'') \<and>
      parse_tag (val ''To'') = Inr (MsgTo m) \<and> parse_tag (val ''From'') = Inr (MsgFrom m) \<and>
      MsgSubject m = val ''Subject'' \<and> MsgPriority m = parse_priority (val ''Options'') \<and>
      MsgNotifyActionType m = parse_notify (val ''Options'') \<and>
      MsgCRC32 m = val ''CRC32'' \<and> MsgContentType m = val ''Content-Type'' \<and>
      (val ''Connection'' = ''close'' \<longrightarrow> \<not> m_bKeepAlive m) \<and>
      (if val ''Content-Length'' = [] then MsgContentLength m = 0
       else MsgContentLength m = atoi (val ''Content-Length'') \<and>
         m_pPayload m = PMsg self (int (length (header_text status flds)) + 4)))"

lemma UpdateMsgConnectionType_simps [simp]:
  "MsgConnectionType (cMsg_UpdateMsgConnectionType ct m) = ct"
  "MsgBuffer (cMsg_UpdateMsgConnectionType ct m) = MsgBuffer m"
  "MsgRawBuffer (cMsg_UpdateMsgConnectionType ct m) = MsgRawBuffer m"
  "MsgStatusLine (cMsg_UpdateMsgConnectionType ct m) = MsgStatusLine m"
  "MsgCommand (cMsg_UpdateMsgConnectionType ct m) = MsgCommand m"
  "MsgHeaderSize (cMsg_UpdateMsgConnectionType ct m) = MsgHeaderSize m"
  by (simp_all add: cMsg_UpdateMsgConnectionType_def Let_def)

lemma fresh_id:
  assumes "uuid_spec gen" "uid_inv gen issued p"
  shows "\<exists>s p' issued'. (if MsgID m = [] \<or> MsgID m = ''0'' then cMsg_UpdateMsgID gen p m else Inr (m, p)) =
      Inr (m\<lparr>MsgID := s\<rparr>, p') \<and> s \<noteq> [] \<and> uid_inv gen issued' p' \<and>
    (MsgID m \<noteq> [] \<and> MsgID m \<noteq> ''0'' \<longrightarrow> s = MsgID m)"
proof (cases "MsgID m = [] \<or> MsgID m = ''0''")
  case True
  then show ?thesis using GetID_ok[OF assms] by (fastforce simp: cMsg_UpdateMsgID_def)
next
  case False
  then have "m\<lparr>MsgID := MsgID m\<rparr> = m" by simp
  with False assms(2) show ?thesis by (metis (no_types, lifting))
qed

lemma parse_fields_ok:
  assumes g: "uuid_spec gen" "uid_inv gen issued p"
    and inv: "buf_inv (MsgBuffer m)" and ok: "fields_ok flds" "status_ok status"
    and c: "buf_contents (MsgBuffer m) = header_text status flds @ CRLF2 @ body"
    and e: "iEnd = int (length (header_text status flds))"
  shows "\<exists>m' p'. parse_fields gen self ct ms iEnd p m = Inr (m', p') \<and>
    msg_from_fields self ct ms status flds m' \<and> buf_inv (MsgBuffer m') \<and>
    buf_contents (MsgBuffer m') = buf_contents (MsgBuffer m) \<and> MsgRawBuffer m' = MsgRawBuffer m \<and>
    MsgStatusLine m' = MsgStatusLine m \<and> MsgCommand m' = MsgCommand m \<and> MsgHeaderSize m' = MsgHeaderSize m"
proof -
  let ?u = "(cMsg_UpdateMsgConnectionType ct m)\<lparr>MsgFormat := ms\<rparr>"
  obtain b h where h: "cHeaderExtract_Parse (MsgBuffer ?u) (m_HeaderExtract ?u) = Inr (b, h)"
    "buf_inv b" "buf_contents b = buf_contents (MsgBuffer m)" "m_Params h = map_of (rev flds)"
    using Parse_ok[of "MsgBuffer ?u" flds status body "m_HeaderExtract ?u"] inv ok c by auto
  have val: "cHeaderExtract_GetValue k h = field_value flds k" for k
    by (simp add: cHeaderExtract_GetValue_def field_value_def h(4))
  let ?b = "?u\<lparr>MsgBuffer := b, m_HeaderExtract := h\<rparr>"
  define k where "k = (if length (field_value flds ''Connection'') > 0 \<and>
      (field_value flds ''Connection'' = ''close'' \<or> field_value flds ''Connection'' = ''Close'')
    then ?b\<lparr>m_bKeepAlive := False\<rparr> else ?b)"
  define i where "i = k\<lparr>MsgID := field_value flds ''MsgID''\<rparr>"
  have idv: "MsgID i = field_value flds ''MsgID''" by (simp add: i_def)
  obtain s p' where s: "(if MsgID i = [] \<or> MsgID i = ''0'' then cMsg_UpdateMsgID gen p i else Inr (i, p)) =
      Inr (i\<lparr>MsgID := s\<rparr>, p')" "s \<noteq> []"
      "field_value flds ''MsgID'' \<noteq> [] \<and> field_value flds ''MsgID'' \<noteq> ''0'' \<longrightarrow> s = field_value flds ''MsgID''"
    using fresh_id[OF g, of i] unfolding idv by blast
  obtain to where to: "parse_tag (field_value flds ''To'') = Inr to" using parse_tag_returns by blast
  obtain fr where fr: "parse_tag (field_value flds ''From'') = Inr fr" using parse_tag_returns by blast
  have cl: "c_prefix (field_value flds ''Content-Length'') = field_value flds ''Content-Length''"
    by (rule c_prefix_id[OF field_value_no_NUL[OF ok(1)]])
  have run: "parse_fields gen self ct ms iEnd p m =
     (let m = i\<lparr>MsgID := s\<rparr>;
          m = m\<lparr>MsgTo := to, MsgFrom := fr, MsgSubject := field_value flds ''Subject'',
                MsgPriority := parse_priority (field_value flds ''Options''),
                MsgReplyActionType :=
                  parse_reply (field_value flds ''Options'') (MsgConnectionType m) (MsgReplyActionType m),
                MsgNotifyActionType := parse_notify (field_value flds ''Options''),
                MsgCRC32 := field_value flds ''CRC32'', MsgContentType := field_value flds ''Content-Type'',
                MsgContentLength := 0\<rparr> in
      if field_value flds ''Content-Length'' \<noteq> []
      then Inr (m\<lparr>MsgContentLength := atoi (field_value flds ''Content-Length''),
                  m_pPayload := PMsg self (iEnd + 4)\<rparr>, p')
      else Inr (m, p'))"
    unfolding parse_fields_def Let_def h(1) bindE.simps prod.case val k_def[symmetric] i_def[symmetric]
    unfolding s(1) to fr bindE.simps prod.case cl by (rule refl)
  have i: "MsgConnectionType i = ct" "MsgFormat i = ms" "MsgBuffer i = b" "MsgRawBuffer i = MsgRawBuffer m"
    "MsgStatusLine i = MsgStatusLine m" "MsgCommand i = MsgCommand m" "MsgHeaderSize i = MsgHeaderSize m"
    "field_value flds ''Connection'' = ''close'' \<longrightarrow> \<not> m_bKeepAlive i"
    by (simp_all add: i_def k_def)
  show ?thesis
    unfolding run Let_def msg_from_fields_def
    using s(2,3) to fr i h e by (cases "field_value flds ''Content-Length'' = []") auto
qed

lemma get_prefix:
  assumes "buf_inv b" "m_pBuffer b = Some blk" "buf_contents b = s @ t"
  shows "mem_get blk 0 (int (length s)) = Inr s"
proof -
  from assms(1,2) obtain n z where n: "m_iTail b = int n" "m_iBufferSize b = int z" "n < z" "z \<le> length blk"
    by (rule buf_inv_Some_nat)
  with assms have c: "take n blk = s @ t" by (simp add: buf_contents_def)
  then have l: "length s \<le> n" using n by (metis length_append length_take min.absorb2 le_add1 less_imp_le order.trans)
  with n have "mem_get blk 0 (int (length s)) = Inr (take (length s) blk)" by (simp add: mem_ok)
  with take_header[OF c l] show ?thesis by simp
qed

definition command_line :: "string \<Rightarrow> string \<Rightarrow> string" where
  "command_line cmd rest = cmd @ '' '' @ rest"

lemma find_space: "CHR '' '' \<notin> set cmd \<Longrightarrow> str_find (command_line cmd rest @ t) '' '' = Some (length cmd)"
  using char_find_append[of "CHR '' ''" cmd "rest @ t"] by (simp add: command_line_def str_find_char)

lemma Find_space_ok:
  assumes "buf_inv b" "buf_contents b = command_line cmd rest @ t" "CHR '' '' \<notin> set cmd"
    "NUL \<notin> set (command_line cmd rest)"
  shows "\<exists>b'. cBuffer_Find '' '' 0 b = Inr (int (length cmd), b') \<and> buf_inv b' \<and>
    buf_contents b' = buf_contents b"
proof -
  have "buf_contents b \<noteq> []" using assms(2) by (simp add: command_line_def)
  moreover have "c_prefix (drop 0 (buf_contents b)) = command_line cmd rest @ c_prefix t"
    using assms(2,4) by (simp add: c_prefix_append_left)
  ultimately show ?thesis
    using Find_prefix[OF assms(1), of 0 "'' ''"] find_space[OF assms(3), of rest "c_prefix t"] by auto
qed

lemma cMsg_Parse_ok:
  assumes ml: "malloc_total ml" and g: "uuid_spec gen" "uid_inv gen issued p"
    and inv: "buf_inv (MsgBuffer m)" "buf_terminated (MsgBuffer m)" "buf_inv (MsgRawBuffer m)"
    and ok: "fields_ok flds" "status_ok (command_line cmd rest)" "CHR '' '' \<notin> set cmd"
    and c: "buf_contents (MsgBuffer m) = header_text (command_line cmd rest) flds @ CRLF2 @ body"
  shows "\<exists>m' p'. cMsg_Parse ml gen self ct ms p m = Inr (HRC_MSG_OK, m', p') \<and>
    msg_from_fields self ct ms (command_line cmd rest) flds m' \<and> MsgCommand m' = cmd \<and>
    MsgStatusLine m' = command_line cmd rest \<and>
    MsgHeaderSize m' = int (length (header_text (command_line cmd rest) flds)) \<and>
    buf_contents (MsgBuffer m') = buf_contents (MsgBuffer m) \<and>
    buf_contents (MsgRawBuffer m') = buf_contents (MsgBuffer m)"
proof -
  let ?st = "command_line cmd rest" and ?b = "MsgBuffer m"
  let ?h = "header_text ?st flds"
  obtain blk where blk: "m_pBuffer ?b = Some blk"
    using buf_contents_block[of ?b] c by auto
  obtain t z where tz: "m_iTail ?b = int t" "m_iBufferSize ?b = int z" "t < z" "z \<le> length blk"
    using buf_inv_Some_nat[OF inv(1) blk] by blast
  obtain raw where raw: "cBuffer_ReplaceWith ml (Some blk) (int t) (MsgRawBuffer m) = Inr (BUFFER_NO_ERROR, raw)"
    "buf_contents raw = buf_contents ?b"
    using safe_res_total[OF ReplaceWith_safe[OF malloc_total_spec[OF ml] inv(3), of t blk] ml] tz blk
    by (auto simp: buf_contents_def)
  obtain tl where tl: "?h @ CRLF2 @ body = ?st @ CR # LF # tl" using header_text_line by blast
  have st: "CR \<notin> set ?st" "?st \<noteq> []" "NUL \<notin> set ?st" using ok(2) by (auto simp: status_ok_def)
  have f1: "cBuffer_BinaryFind 0 [CR, LF] ?b = Inr (int (length ?st))"
    using BinaryFind_ok[OF inv(1,2), of "[CR, LF]"] find_line_end[OF st(1), of tl] by (simp add: c[unfolded tl])
  have f2: "cBuffer_BinaryFind 0 CRLF2 ?b = Inr (int (length ?h))"
    using BinaryFind_ok[OF inv(1,2), of CRLF2] find_end_of_header[OF ok(1) st(1), of body] by (simp add: c)
  obtain b' where b': "cBuffer_Find '' '' 0 ?b = Inr (int (length cmd), b')" "buf_inv b'"
    "buf_contents b' = buf_contents ?b"
    using Find_space_ok[OF inv(1) c[unfolded tl] ok(3) st(3)] by blast
  have g1: "mem_get blk 0 (int (length ?st)) = Inr ?st" by (rule get_prefix[OF inv(1) blk c[unfolded tl]])
  have g2: "mem_get blk 0 (int (length cmd)) = Inr cmd"
    using get_prefix[OF inv(1) blk, of cmd "'' '' @ rest @ CR # LF # tl"] c[unfolded tl]
    by (simp add: command_line_def)
  let ?m = "m\<lparr>MsgRawBuffer := raw, MsgStatusLine := ?st, MsgHeaderSize := int (length ?h), MsgBuffer := b',
      MsgCommand := cmd\<rparr>"
  obtain m' p' where m': "parse_fields gen self ct ms (int (length ?h)) p ?m = Inr (m', p')"
    "msg_from_fields self ct ms ?st flds m'" "buf_contents (MsgBuffer m') = buf_contents b'"
    "MsgRawBuffer m' = raw" "MsgStatusLine m' = ?st" "MsgCommand m' = cmd" "MsgHeaderSize m' = int (length ?h)"
    using parse_fields_ok[OF g, of ?m flds ?st body "int (length ?h)" self ct ms] b' ok c by auto
  have run: "cMsg_Parse ml gen self ct ms p m = Inr (HRC_MSG_OK, m', p')"
    using st(2) m'(1) by (simp add: cMsg_Parse_def cBuffer_GetRawBuffer_def cBuffer_GetBufferCount_def blk tz raw(1)
      f1 f2 g1 g2 b'(1))
  show ?thesis unfolding run using m' b'(3) raw(2) by simp
qed

section \<open>Recycling\<close>

lemma ResetMsg_ok:
  assumes "uuid_spec gen" "uid_inv gen issued p"
  shows "\<exists>s p'. cMsg_ResetMsg gen now tv1 tv2 p m = Inr (cMsg_raw\<lparr>
      m_HeaderExtract := m_HeaderExtract m, TCPSocketHandle := -1, UDPSocketHandle := -1,
      MsgSendRetryDelay := 1, MsgID := s, MsgNotifyActionType := MSG_NOTIFY_ACTION_NO,
      MsgBuffer := cBuffer_Reset (MsgBuffer m), MsgRawBuffer := cBuffer_Reset (MsgRawBuffer m),
      MsgMD5 := MsgMD5 m, SourcePort := -1, MsgPriority := MSG_PRIORITY_MID,
      MsgProfiler := cBench_Start tv2 (cBench_Stop tv1 (MsgProfiler m)),
      HeaderFieldTemp := HeaderFieldTemp m, MsgInUseTS := now, m_bKeepAlive := True,
      MsgToString := MsgToString m\<rparr>, p') \<and> s \<noteq> [] \<and> uid_inv gen (s # issued) p'"
proof -
  obtain s p' where s: "cUniqueIDProvider_GetID gen p = Inr (s, p')" "uid_inv gen (s # issued) p'" "s \<noteq> []"
    using GetID_ok[OF assms] by blast
  then show ?thesis
    by (intro exI[of _ s] exI[of _ p'] conjI)
      (auto simp: cMsg_ResetMsg_def cMsg_CloseIfCloned_def Let_def cMsg_raw_def CMSG_MAX_RETRY_DELAY_def
        intro!: cMsg.equality)
qed

section \<open>Properties\<close>


text \<open>A message that holds a given text, for the examples.\<close>

lemma message_holding:
  "\<exists>m :: cMsg. buf_inv (MsgBuffer m) \<and> buf_terminated (MsgBuffer m) \<and> buf_inv (MsgRawBuffer m) \<and>
     buf_contents (MsgBuffer m) = s"
proof -
  obtain b where b: "buf_inv b" "buf_contents b = s"
    using buf.assign_returns[OF malloc_total_zero buf_inv_new, of s] by blast
  then obtain b' where "buf_inv b'" "buf_terminated b'" "buf_contents b' = s"
    using MakeString_ok[of b] by auto
  then show ?thesis by (intro exI[of _ "cMsg_raw\<lparr>MsgBuffer := b'\<rparr>"]) (simp add: cMsg_raw_def)
qed

definition example_gen :: uuid_gen where
  "example_gen n = replicate (Suc n) (CHR ''x'')"

lemma example_gen_spec: "uuid_spec example_gen"
  by (auto simp: uuid_spec_def inj_def example_gen_def dest: arg_cong[where f = length])


text \<open>A text without a line end makes \<open>Parse\<close> throw; in particular nothing of it is parsed.\<close>

theorem parse_without_line_end_throws:
  assumes "malloc_total ml" and "buf_inv (MsgBuffer m)" and "buf_terminated (MsgBuffer m)"
    and "buf_inv (MsgRawBuffer m)" and "buf_contents (MsgBuffer m) \<noteq> []"
    and "CR \<notin> set (buf_contents (MsgBuffer m))"
  shows "cMsg_Parse ml gen self ct ms p m = Inl StdException"
proof -
  let ?b = "MsgBuffer m"
  obtain blk where blk: "m_pBuffer ?b = Some blk" using buf_contents_block[OF assms(5)] by auto
  obtain t z where tz: "m_iTail ?b = int t" "m_iBufferSize ?b = int z" "t < z" "z \<le> length blk"
    using buf_inv_Some_nat[OF assms(2) blk] by blast
  obtain raw where raw: "cBuffer_ReplaceWith ml (Some blk) (int t) (MsgRawBuffer m) = Inr (BUFFER_NO_ERROR, raw)"
    using safe_res_total[OF ReplaceWith_safe[OF malloc_total_spec[OF assms(1)] assms(4), of t blk] assms(1)] tz blk
    by auto
  have no: "CR \<notin> set s \<Longrightarrow> str_find s [CR, LF] = None" for s by (induction s) auto
  have "cBuffer_BinaryFind 0 [CR, LF] ?b = Inr (-1)"
    using BinaryFind_ok[OF assms(2,3), of "[CR, LF]"] no[OF assms(6)] by simp
  then show ?thesis using blk tz raw
    by (simp add: cMsg_Parse_def cBuffer_GetRawBuffer_def cBuffer_GetBufferCount_def)
qed

text \<open>
  Recycling forgets a message: \<open>ResetMsg\<close> gives the message a fresh identifier and returns
  every member that \<open>cMsg\<close> publishes to its initial value, whatever message was there before,
  with the exception of the parsed header map, which survives.
\<close>

theorem reset_message:
  assumes "uuid_spec gen" and "uid_inv gen issued p"
    and "cMsg_new gen now tv1 tv2 q = Inr (n, q')"
  shows "\<exists>m' p'. cMsg_ResetMsg gen now tv1 tv2 p m = Inr (m', p') \<and> MsgID m' \<notin> set issued \<and>
    cMsg_GetCommand m' = cMsg_GetCommand n \<and> cMsg_GetTo m' = cMsg_GetTo n \<and> cMsg_GetFrom m' = cMsg_GetFrom n \<and>
    cMsg_GetSubject m' = cMsg_GetSubject n \<and> cMsg_GetOptions m' = cMsg_GetOptions n \<and>
    cMsg_GetContentPayload m' = cMsg_GetContentPayload n \<and> cMsg_GetContentLength m' = cMsg_GetContentLength n \<and>
    cMsg_GetTCPSocketHandle m' = -1 \<and> cMsg_GetUDPSocketHandle m' = -1 \<and>
    cMsg_GetConnectionType m' = cMsg_GetConnectionType n \<and> cMsg_GetMsgState m' = MSG_STATE_INACTIVE \<and>
    cMsg_GetSendRetryCount m' = 0 \<and> cMsg_GetMsgPriority m' = cMsg_GetMsgPriority n \<and>
    buf_contents (MsgBuffer m') = [] \<and> buf_contents (MsgRawBuffer m') = [] \<and>
    (\<forall>k. fst (cMsg_GetHeaderFieldValue k m') = fst (cMsg_GetHeaderFieldValue k m))"
proof -
  obtain s p' where s: "cUniqueIDProvider_GetID gen p = Inr (s, p')" "uid_inv gen (s # issued) p'"
    using GetID_ok[OF assms(1,2)] by blast
  then have "s \<notin> set issued" by (simp add: uid_inv_def)
  then show ?thesis
    using s(1) assms(3)
    by (auto simp: cMsg_new_def cMsg_ResetMsg_def cMsg_raw_def cMsg_CloseIfCloned_def getter_defs
        cMsg_GetHeaderFieldValue_def res_simps Let_def buf_contents_def cBuffer_Reset_def)
qed

theorem reset_message_witness:
  "\<exists>m' p'. cMsg_ResetMsg example_gen 7 \<lparr>tv_sec = 0, tv_usec = 0\<rparr> \<lparr>tv_sec = 0, tv_usec = 0\<rparr>
      (cUniqueIDProvider_new example_gen 0) (cMsg_raw\<lparr>MsgCommand := ''ECHO''\<rparr>) = Inr (m', p') \<and>
    cMsg_GetCommand m' = []"
proof -
  let ?z = "\<lparr>tv_sec = 0, tv_usec = 0\<rparr> :: timeval"
  obtain n q' where n: "cMsg_new example_gen 7 ?z ?z (cUniqueIDProvider_new example_gen 0) = Inr (n, q')"
    and c: "cMsg_GetCommand n = []"
    using ResetMsg_ok[OF example_gen_spec uid_inv_new[OF example_gen_spec, of 0], of 7 ?z ?z cMsg_raw]
    by (auto simp: cMsg_new_def cMsg_GetCommand_def c_prefix_def cMsg_raw_def)
  from reset_message[OF example_gen_spec uid_inv_new[OF example_gen_spec] n, of 0
      "cMsg_raw\<lparr>MsgCommand := ''ECHO''\<rparr>"] c
  show ?thesis by auto
qed

end
