(* ===== verification/MsgPool.thy ===== *)
theory MsgPool
  imports Msg
begin

text \<open>
  The message pool \<open>cMsgPool\<close> (\<open>msgpool.h\<close>, \<open>msgpool.cpp\<close>): the list of all messages, an
  iterator into it, and the stack of messages that may be reused. Messages are pointers in the
  source; here they are addresses into the store of the record \<open>sys\<close>, which also holds the
  identifier provider and the next unused address.

  What an operation takes from its environment is in the record \<open>env\<close>: the allocators, the uuid
  library, the clocks at the time of the call, and the name and address of the server.

  The list iterator of the source is an element address or the end; incrementing the end or using
  an iterator whose element is gone is \<open>BadIterator\<close>.
\<close>

record env =
  e_malloc :: malloc
  e_new :: bool
  e_gen :: uuid_gen
  e_now :: int
  e_tv1 :: timeval
  e_tv2 :: timeval
  e_name :: string
  e_addr :: string

datatype iter = ItAt msg_addr | ItEnd | ItSingular

record cMsgPool =
  m_bLocked :: bool
  m_Messages :: "msg_addr list"
  m_it :: iter
  m_FreeMsgStack :: "msg_addr list"

definition cMsgPool_new :: cMsgPool where
  "cMsgPool_new = \<lparr>m_bLocked = False, m_Messages = [], m_it = ItSingular, m_FreeMsgStack = []\<rparr>"

record sys =
  heap :: msg_heap
  next_addr :: msg_addr
  uid :: cUniqueIDProvider
  pool :: cMsgPool

definition upd_pool :: "(cMsgPool \<Rightarrow> cMsgPool) \<Rightarrow> 'z sys_scheme \<Rightarrow> 'z sys_scheme" where
  "upd_pool f s = s\<lparr>pool := f (pool s)\<rparr>"

text \<open>A member call through a message pointer.\<close>

definition upd_msg :: "msg_addr \<Rightarrow> (cMsg \<Rightarrow> cMsg) \<Rightarrow> 'z sys_scheme \<Rightarrow> 'z sys_scheme res" where
  "upd_msg a f s =
     (case heap s a of None \<Rightarrow> Inl MemFault | Some m \<Rightarrow> Inr (s\<lparr>heap := (heap s)(a \<mapsto> f m)\<rparr>))"

definition get_msg :: "msg_addr \<Rightarrow> 'z sys_scheme \<Rightarrow> cMsg res" where
  "get_msg a s = (case heap s a of None \<Rightarrow> Inl MemFault | Some m \<Rightarrow> Inr m)"

section \<open>Operations\<close>

definition new_msg :: "env \<Rightarrow> 'z sys_scheme \<Rightarrow> (msg_addr \<times> 'z sys_scheme) res" where
  "new_msg ev s =
     (if \<not> e_new ev then Inl BadAlloc
      else
        bindE (cMsg_new (e_gen ev) (e_now ev) (e_tv1 ev) (e_tv2 ev) (uid s)) (\<lambda>(m, p).
        Inr (next_addr s, s\<lparr>heap := (heap s)(next_addr s \<mapsto> m), next_addr := Suc (next_addr s), uid := p\<rparr>)))"

definition reset_msg :: "env \<Rightarrow> msg_addr \<Rightarrow> 'z sys_scheme \<Rightarrow> 'z sys_scheme res" where
  "reset_msg ev a s =
     bindE (get_msg a s) (\<lambda>m.
     bindE (cMsg_ResetMsg (e_gen ev) (e_now ev) (e_tv1 ev) (e_tv2 ev) (uid s) m) (\<lambda>(m, p).
     Inr (s\<lparr>heap := (heap s)(a \<mapsto> m), uid := p\<rparr>)))"

definition cMsgPool_GetReusableMessage :: "env \<Rightarrow> 'z sys_scheme \<Rightarrow> (msg_addr \<times> 'z sys_scheme) res" where
  "cMsgPool_GetReusableMessage ev s =
     bindE
       (case m_FreeMsgStack (pool s) of
          a # st \<Rightarrow> Inr (a, upd_pool (\<lambda>p. p\<lparr>m_FreeMsgStack := st\<rparr>) s)
        | [] \<Rightarrow>
            bindE (new_msg ev s) (\<lambda>(a, s).
            Inr (a, upd_pool (\<lambda>p. p\<lparr>m_Messages := m_Messages p @ [a]\<rparr>) s))) (\<lambda>(a, s).
     bindE (reset_msg ev a s) (\<lambda>s.
     bindE (upd_msg a (cMsg_SetMsgState MSG_STATE_INUSE) s) (\<lambda>s. Inr (a, s))))"

definition cMsgPool_GetMessage :: "env \<Rightarrow> 'z sys_scheme \<Rightarrow> (msg_addr \<times> 'z sys_scheme) res" where
  "cMsgPool_GetMessage ev s = cMsgPool_GetReusableMessage ev s"

definition cMsgPool_ReturnToPool :: "msg_addr \<Rightarrow> 'z sys_scheme \<Rightarrow> 'z sys_scheme res" where
  "cMsgPool_ReturnToPool a s =
     bindE (upd_msg a (cMsg_SetMsgState MSG_STATE_INACTIVE) s) (\<lambda>s.
     Inr (upd_pool (\<lambda>p. p\<lparr>m_FreeMsgStack := a # m_FreeMsgStack p\<rparr>) s))"

definition cMsgPool_Lock :: "cMsgPool \<Rightarrow> cMsgPool" where
  "cMsgPool_Lock p = p\<lparr>m_bLocked := True\<rparr>"

definition cMsgPool_Unlock :: "cMsgPool \<Rightarrow> cMsgPool" where
  "cMsgPool_Unlock p = p\<lparr>m_bLocked := False\<rparr>"

definition first_it :: "msg_addr list \<Rightarrow> iter" where
  "first_it l = (case l of [] \<Rightarrow> ItEnd | a # _ \<Rightarrow> ItAt a)"

text \<open>The elements after the iterator's.\<close>

definition rest_after :: "msg_addr \<Rightarrow> msg_addr list \<Rightarrow> msg_addr list" where
  "rest_after a l = tl (dropWhile (\<lambda>x. x \<noteq> a) l)"

definition it_incr :: "iter \<Rightarrow> msg_addr list \<Rightarrow> iter res" where
  "it_incr i l =
     (case i of
        ItAt a \<Rightarrow> if a \<in> set l then Inr (first_it (rest_after a l)) else Inl BadIterator
      | _ \<Rightarrow> Inl BadIterator)"

definition it_deref :: "iter \<Rightarrow> msg_addr option" where
  "it_deref i = (case i of ItAt a \<Rightarrow> Some a | _ \<Rightarrow> None)"

definition cMsgPool_GetHead :: "cMsgPool \<Rightarrow> msg_addr option \<times> cMsgPool" where
  "cMsgPool_GetHead p =
     (if \<not> m_bLocked p then (None, p)
      else
        (let p = p\<lparr>m_it := first_it (m_Messages p)\<rparr> in
         if m_it p = ItEnd then (None, p) else (it_deref (m_it p), p)))"

definition cMsgPool_GetNext :: "cMsgPool \<Rightarrow> (msg_addr option \<times> cMsgPool) res" where
  "cMsgPool_GetNext p =
     (if \<not> m_bLocked p then Inr (None, p)
      else
        bindE (it_incr (m_it p) (m_Messages p)) (\<lambda>i.
        let p = p\<lparr>m_it := i\<rparr> in
        if m_it p = ItEnd then Inr (None, p) else Inr (it_deref (m_it p), p)))"

text \<open>\<open>erase\<close> returns the iterator after the erased element, which is then incremented.\<close>

definition cMsgPool_DeleteCurrent :: "cMsgPool \<Rightarrow> cMsgPool res" where
  "cMsgPool_DeleteCurrent p =
     (case m_it p of
        ItAt a \<Rightarrow>
          if a \<in> set (m_Messages p) then
            (let nx = first_it (rest_after a (m_Messages p)); l = remove1 a (m_Messages p) in
             bindE (it_incr nx l) (\<lambda>i. Inr (p\<lparr>m_Messages := l, m_it := i\<rparr>)))
          else Inl BadIterator
      | _ \<Rightarrow> Inl BadIterator)"

definition cMsgPool_FlushFreeStack :: "cMsgPool \<Rightarrow> cMsgPool" where
  "cMsgPool_FlushFreeStack p = p\<lparr>m_FreeMsgStack := []\<rparr>"

definition cMsgPool_Size :: "cMsgPool \<Rightarrow> int" where
  "cMsgPool_Size p = int (length (m_FreeMsgStack p))"

text \<open>\<open>delete pMsg\<close>.\<close>

definition delete_msg :: "msg_addr \<Rightarrow> 'z sys_scheme \<Rightarrow> 'z sys_scheme res" where
  "delete_msg a s =
     (if heap s a = None then Inl MemFault else Inr (s\<lparr>heap := (heap s)(a := None)\<rparr>))"

text \<open>The destructor deletes every message of the list.\<close>

fun delete_all :: "msg_addr list \<Rightarrow> 'z sys_scheme \<Rightarrow> 'z sys_scheme res" where
  "delete_all [] s = Inr s"
| "delete_all (a # as) s = bindE (delete_msg a s) (delete_all as)"

definition cMsgPool_destroy :: "'z sys_scheme \<Rightarrow> 'z sys_scheme res" where
  "cMsgPool_destroy s =
     bindE (delete_all (m_Messages (pool s)) s) (\<lambda>s. Inr (upd_pool (\<lambda>p. p\<lparr>m_Messages := []\<rparr>) s))"

section \<open>Walking the pool\<close>

text \<open>
  The pattern \<open>do ... while ((pMsg = GetNext()) != 0)\<close> with body \<open>f\<close>, from the message \<open>a\<close>. The
  first argument is fuel; the length of the list is always enough, because the iterator only moves
  forward (\<open>walk_all\<close>).
\<close>

fun walk :: "(msg_addr \<Rightarrow> 'z sys_scheme \<Rightarrow> 'z sys_scheme res) \<Rightarrow> nat \<Rightarrow> msg_addr \<Rightarrow> 'z sys_scheme \<Rightarrow> 'z sys_scheme res" where
  "walk f 0 a s = Inl Diverge"
| "walk f (Suc n) a s =
     bindE (f a s) (\<lambda>s.
     bindE (cMsgPool_GetNext (pool s)) (\<lambda>(r, p).
     let s = s\<lparr>pool := p\<rparr> in
     case r of None \<Rightarrow> Inr s | Some b \<Rightarrow> walk f n b s))"

section \<open>The invariant\<close>

text \<open>
  \<open>sys_inv\<close>: the list has no duplicates and is exactly the set of live messages, addresses are
  never reused, the free stack has no duplicates and holds inactive live messages only, every
  buffer is well formed and the identifier provider is consistent.
\<close>

definition msg_inv :: "cMsg \<Rightarrow> bool" where
  "msg_inv m \<longleftrightarrow> buf_inv (MsgBuffer m) \<and> buf_inv (MsgRawBuffer m)"

definition live :: "'z sys_scheme \<Rightarrow> msg_addr set" where
  "live s = dom (heap s)"

definition in_state :: "'z sys_scheme \<Rightarrow> msg_addr \<Rightarrow> eMsgState \<Rightarrow> bool" where
  "in_state s a st \<longleftrightarrow> (\<exists>m. heap s a = Some m \<and> MsgState m = st)"

definition sys_inv :: "uuid_gen \<Rightarrow> 'z sys_scheme \<Rightarrow> bool" where
  "sys_inv gen s \<longleftrightarrow>
     distinct (m_Messages (pool s)) \<and> set (m_Messages (pool s)) = live s \<and>
     (\<forall>a \<in> live s. a < next_addr s) \<and>
     distinct (m_FreeMsgStack (pool s)) \<and>
     (\<forall>a \<in> set (m_FreeMsgStack (pool s)). in_state s a MSG_STATE_INACTIVE) \<and>
     (\<forall>m \<in> ran (heap s). msg_inv m) \<and> (\<exists>issued. uid_inv gen issued (uid s))"

definition sys_new :: "cUniqueIDProvider \<Rightarrow> sys" where
  "sys_new p = \<lparr>heap = Map.empty, next_addr = 0, uid = p, pool = cMsgPool_new\<rparr>"

lemma sys_inv_new: "uid_inv gen issued p \<Longrightarrow> sys_inv gen (sys_new p)"
  by (auto simp: sys_inv_def sys_new_def live_def cMsgPool_new_def)

lemma upd_pool_simps [simp]:
  "heap (upd_pool f s) = heap s" "next_addr (upd_pool f s) = next_addr s" "uid (upd_pool f s) = uid s"
  "pool (upd_pool f s) = f (pool s)" "sys.more (upd_pool f s) = sys.more s"
  by (simp_all add: upd_pool_def)

lemma live_Some: "a \<in> live s \<longleftrightarrow> (\<exists>m. heap s a = Some m)"
  by (auto simp: live_def)

lemma in_state_live: "in_state s a st \<Longrightarrow> a \<in> live s"
  by (auto simp: in_state_def live_Some)

lemma in_state_fun: "in_state s a st \<Longrightarrow> in_state s a st' \<Longrightarrow> st = st'"
  by (auto simp: in_state_def)

text \<open>Replacing one message by another keeps the invariant, if the message is not waiting for reuse
  or stays inactive.\<close>

lemma sys_inv_upd:
  assumes "sys_inv gen s" "a \<in> live s" "msg_inv m"
    and "a \<in> set (m_FreeMsgStack (pool s)) \<Longrightarrow> MsgState m = MSG_STATE_INACTIVE"
  shows "sys_inv gen (s\<lparr>heap := (heap s)(a \<mapsto> m)\<rparr>)"
  using assms by (auto simp: sys_inv_def live_def in_state_def ran_def)

lemma upd_msg_ok:
  assumes "sys_inv gen s" "heap s a = Some m" "msg_inv (f m)" "a \<notin> set (m_FreeMsgStack (pool s))"
  shows "upd_msg a f s = Inr (s\<lparr>heap := (heap s)(a \<mapsto> f m)\<rparr>) \<and>
    sys_inv gen (s\<lparr>heap := (heap s)(a \<mapsto> f m)\<rparr>)"
  using assms sys_inv_upd[OF assms(1), of a "f m"] by (auto simp: upd_msg_def live_Some)

lemma sys_inv_pool_it: "sys_inv gen (s\<lparr>pool := (pool s)\<lparr>m_it := i\<rparr>\<rparr>) = sys_inv gen s"
  by (simp add: sys_inv_def live_def in_state_def)

lemma sys_inv_lock: "sys_inv gen (s\<lparr>pool := (pool s)\<lparr>m_bLocked := b\<rparr>\<rparr>) = sys_inv gen s"
  by (simp add: sys_inv_def live_def in_state_def)

section \<open>Taking a message from the pool\<close>

text \<open>What \<open>ResetMsg\<close> makes of a message, apart from its identifier.\<close>

definition fresh_msg :: "int \<Rightarrow> cMsg \<Rightarrow> bool" where
  "fresh_msg now m \<longleftrightarrow> MsgID m \<noteq> [] \<and> TCPSocketHandle m = -1 \<and> UDPSocketHandle m = -1 \<and> MsgSendRetryCount m = 0 \<and>
     MsgSendRetryDelay m = 1 \<and> MsgLastRetryTS m = 0 \<and> MsgConnectionType m = MSG_CT_NOTSET \<and>
     MsgCommand m = [] \<and> MsgTo m = [] \<and> MsgFrom m = [] \<and> MsgPriority m = MSG_PRIORITY_MID \<and>
     m_pPayload m = PNull \<and> MsgContentLength m = 0 \<and> MsgHeaderSize m = 0 \<and> MsgInUseTS m = now \<and>
     MsgReplyActionType m = MSG_REPLY_ACTION_NONE \<and> MsgNotifyActionType m = MSG_NOTIFY_ACTION_NO \<and>
     MsgService m = None \<and> buf_contents (MsgBuffer m) = [] \<and> buf_contents (MsgRawBuffer m) = []"

lemma fresh_state [simp]: "fresh_msg now (m\<lparr>MsgState := st\<rparr>) = fresh_msg now m"
  by (simp add: fresh_msg_def)

lemma Reset_fresh:
  assumes "uuid_spec gen" "uid_inv gen issued p" "msg_inv m"
  shows "\<exists>m' p'. cMsg_ResetMsg gen now tv1 tv2 p m = Inr (m', p') \<and> fresh_msg now m' \<and> msg_inv m' \<and>
    (\<exists>issued'. uid_inv gen issued' p')"
  using ResetMsg_ok[OF assms(1,2), of now tv1 tv2 m] assms(3)
  by (auto simp: fresh_msg_def msg_inv_def cMsg_raw_def buf_inv_Reset buf.bytes_clear)

lemma reset_msg_ok:
  assumes "uuid_spec (e_gen ev)" "sys_inv (e_gen ev) s" "heap s a = Some m" "a \<notin> set (m_FreeMsgStack (pool s))"
  shows "\<exists>m' p'. reset_msg ev a s = Inr (s\<lparr>heap := (heap s)(a \<mapsto> m'), uid := p'\<rparr>) \<and> fresh_msg (e_now ev) m' \<and>
    msg_inv m' \<and> sys_inv (e_gen ev) (s\<lparr>heap := (heap s)(a \<mapsto> m'), uid := p'\<rparr>)"
proof -
  obtain issued where "uid_inv (e_gen ev) issued (uid s)" "msg_inv m"
    using assms(2,3) by (auto simp: sys_inv_def ran_def)
  from Reset_fresh[OF assms(1) this] obtain m' p' issued' where
    r: "cMsg_ResetMsg (e_gen ev) (e_now ev) (e_tv1 ev) (e_tv2 ev) (uid s) m = Inr (m', p')"
    "fresh_msg (e_now ev) m'" "msg_inv m'" "uid_inv (e_gen ev) issued' p'" by blast
  have "sys_inv (e_gen ev) (s\<lparr>heap := (heap s)(a \<mapsto> m')\<rparr>)"
    using assms r(3) by (intro sys_inv_upd) (auto simp: live_Some)
  then have "sys_inv (e_gen ev) (s\<lparr>heap := (heap s)(a \<mapsto> m'), uid := p'\<rparr>)"
    using r(4) by (auto simp: sys_inv_def live_def in_state_def)
  with r assms(3) show ?thesis by (auto simp: reset_msg_def get_msg_def)
qed

text \<open>The state after a message has been taken: \<open>a\<close> is the message.\<close>

definition taken :: "env \<Rightarrow> 'z sys_scheme \<Rightarrow> msg_addr \<Rightarrow> 'z sys_scheme \<Rightarrow> bool" where
  "taken ev s a s' \<longleftrightarrow>
     (case m_FreeMsgStack (pool s) of
        b # st \<Rightarrow> a = b \<and> pool s' = (pool s)\<lparr>m_FreeMsgStack := st\<rparr> \<and> next_addr s' = next_addr s
      | [] \<Rightarrow> a = next_addr s \<and> pool s' = (pool s)\<lparr>m_Messages := m_Messages (pool s) @ [a]\<rparr> \<and>
              next_addr s' = Suc a) \<and>
     (\<exists>m p. heap s' = (heap s)(a \<mapsto> m) \<and> uid s' = p \<and> MsgState m = MSG_STATE_INUSE \<and>
        fresh_msg (e_now ev) m \<and> msg_inv m) \<and> sys.more s' = sys.more s"

lemma inuse_not_free:
  "sys_inv gen s \<Longrightarrow> in_state s a st \<Longrightarrow> st \<noteq> MSG_STATE_INACTIVE \<Longrightarrow> a \<notin> set (m_FreeMsgStack (pool s))"
  by (auto simp: sys_inv_def dest: in_state_fun)

lemma take_reset:
  assumes "uuid_spec (e_gen ev)" "sys_inv (e_gen ev) s" "heap s a = Some m" "a \<notin> set (m_FreeMsgStack (pool s))"
  shows "\<exists>m' p'. bindE (reset_msg ev a s) (\<lambda>s. bindE (upd_msg a (cMsg_SetMsgState MSG_STATE_INUSE) s)
      (\<lambda>s. Inr (a, s))) = Inr (a, s\<lparr>heap := (heap s)(a \<mapsto> m'), uid := p'\<rparr>) \<and>
    MsgState m' = MSG_STATE_INUSE \<and> fresh_msg (e_now ev) m' \<and> msg_inv m' \<and>
    sys_inv (e_gen ev) (s\<lparr>heap := (heap s)(a \<mapsto> m'), uid := p'\<rparr>)"
proof -
  obtain m' p' where r: "reset_msg ev a s = Inr (s\<lparr>heap := (heap s)(a \<mapsto> m'), uid := p'\<rparr>)"
    "fresh_msg (e_now ev) m'" "msg_inv m'" "sys_inv (e_gen ev) (s\<lparr>heap := (heap s)(a \<mapsto> m'), uid := p'\<rparr>)"
    using reset_msg_ok[OF assms] by blast
  let ?s = "s\<lparr>heap := (heap s)(a \<mapsto> m'), uid := p'\<rparr>" and ?m = "m'\<lparr>MsgState := MSG_STATE_INUSE\<rparr>"
  have inv: "msg_inv ?m" using r(3) by (simp add: msg_inv_def)
  from upd_msg_ok[OF r(4), of a m' "cMsg_SetMsgState MSG_STATE_INUSE"] inv assms(4)
  have u: "upd_msg a (cMsg_SetMsgState MSG_STATE_INUSE) ?s = Inr (?s\<lparr>heap := (heap ?s)(a \<mapsto> ?m)\<rparr>)"
    "sys_inv (e_gen ev) (?s\<lparr>heap := (heap ?s)(a \<mapsto> ?m)\<rparr>)"
    by (simp_all add: cMsg_SetMsgState_def)
  have eq: "?s\<lparr>heap := (heap ?s)(a \<mapsto> ?m)\<rparr> = s\<lparr>heap := (heap s)(a \<mapsto> ?m), uid := p'\<rparr>" by simp
  show ?thesis
    unfolding r(1) bindE.simps u(1) unfolding eq
    using u(2) inv r(2) unfolding eq by (intro exI[of _ ?m] exI[of _ p']) simp
qed

lemma GetMessage_ok:
  assumes g: "uuid_spec (e_gen ev)" and inv: "sys_inv (e_gen ev) s" and new: "e_new ev"
  shows "\<exists>a s'. cMsgPool_GetMessage ev s = Inr (a, s') \<and> taken ev s a s' \<and> sys_inv (e_gen ev) s'"
proof (cases "m_FreeMsgStack (pool s)")
  case (Cons b st)
  let ?s = "upd_pool (\<lambda>p. p\<lparr>m_FreeMsgStack := st\<rparr>) s"
  have inv': "sys_inv (e_gen ev) ?s" using inv Cons by (auto simp: sys_inv_def live_def in_state_def)
  obtain m where m: "heap ?s b = Some m" using inv Cons by (auto simp: sys_inv_def in_state_def)
  have "b \<notin> set (m_FreeMsgStack (pool ?s))" using inv Cons by (simp add: sys_inv_def)
  from take_reset[OF g inv' m this] Cons show ?thesis
    by (fastforce simp: cMsgPool_GetMessage_def cMsgPool_GetReusableMessage_def taken_def)
next
  case Nil
  obtain issued where "uid_inv (e_gen ev) issued (uid s)" using inv by (auto simp: sys_inv_def)
  moreover have "msg_inv cMsg_raw" by (simp add: msg_inv_def cMsg_raw_def)
  ultimately obtain m p' issued' where
    r: "cMsg_new (e_gen ev) (e_now ev) (e_tv1 ev) (e_tv2 ev) (uid s) = Inr (m, p')" "msg_inv m"
    "uid_inv (e_gen ev) issued' p'"
    unfolding cMsg_new_def using Reset_fresh[OF g] by meson
  let ?a = "next_addr s"
  let ?s = "upd_pool (\<lambda>p. p\<lparr>m_Messages := m_Messages p @ [?a]\<rparr>)
      (s\<lparr>heap := (heap s)(?a \<mapsto> m), next_addr := Suc ?a, uid := p'\<rparr>)"
  have "?a \<notin> live s" using inv by (auto simp: sys_inv_def)
  then have inv': "sys_inv (e_gen ev) ?s"
    using inv r Nil by (auto simp: sys_inv_def live_def in_state_def ran_def less_Suc_eq)
  have m: "heap ?s ?a = Some m" "?a \<notin> set (m_FreeMsgStack (pool ?s))" using Nil by simp_all
  have n: "new_msg ev s = Inr (?a, s\<lparr>heap := (heap s)(?a \<mapsto> m), next_addr := Suc ?a, uid := p'\<rparr>)"
    using new r(1) by (simp add: new_msg_def)
  obtain m' q where t: "bindE (reset_msg ev ?a ?s) (\<lambda>s. bindE (upd_msg ?a (cMsg_SetMsgState MSG_STATE_INUSE) s)
      (\<lambda>s. Inr (?a, s))) = Inr (?a, ?s\<lparr>heap := (heap ?s)(?a \<mapsto> m'), uid := q\<rparr>)"
    "MsgState m' = MSG_STATE_INUSE" "fresh_msg (e_now ev) m'" "msg_inv m'"
    "sys_inv (e_gen ev) (?s\<lparr>heap := (heap ?s)(?a \<mapsto> m'), uid := q\<rparr>)"
    using take_reset[OF g inv' m] by blast
  have "cMsgPool_GetMessage ev s = Inr (?a, ?s\<lparr>heap := (heap ?s)(?a \<mapsto> m'), uid := q\<rparr>)"
    unfolding cMsgPool_GetMessage_def cMsgPool_GetReusableMessage_def Nil list.case n bindE.simps prod.case
    by (rule t(1))
  moreover have "taken ev s ?a (?s\<lparr>heap := (heap ?s)(?a \<mapsto> m'), uid := q\<rparr>)"
    using t(2-4) Nil by (simp add: taken_def) (metis fun_upd_idem_iff)
  ultimately show ?thesis using t(5) by blast
qed

section \<open>Rules for walking the pool\<close>

lemma rest_after_split: "a \<notin> set xs \<Longrightarrow> rest_after a (xs @ a # ys) = ys"
  by (induction xs) (auto simp: rest_after_def)

lemma it_incr_split: "a \<notin> set xs \<Longrightarrow> it_incr (ItAt a) (xs @ a # ys) = Inr (first_it ys)"
  by (simp add: it_incr_def rest_after_split)

lemma GetNext_split:
  assumes "m_bLocked p" "m_Messages p = xs @ a # ys" "a \<notin> set xs" "m_it p = ItAt a"
  shows "cMsgPool_GetNext p = Inr (case ys of [] \<Rightarrow> None | b # _ \<Rightarrow> Some b, p\<lparr>m_it := first_it ys\<rparr>)"
  using assms by (cases ys) (simp_all add: cMsgPool_GetNext_def it_incr_split first_it_def it_deref_def)

text \<open>The part of the pool a walk depends on, with the iterator at \<open>i\<close>.\<close>

definition pool_at :: "iter \<Rightarrow> msg_addr list \<Rightarrow> 'z sys_scheme \<Rightarrow> bool" where
  "pool_at i l s \<longleftrightarrow> m_bLocked (pool s) \<and> m_Messages (pool s) = l \<and> m_it (pool s) = i \<and> distinct l"

text \<open>
  A walk whose body leaves the list and the iterator alone: after the messages \<open>xs\<close> it goes on at
  the next one, and the assertion \<open>I\<close> on the messages visited so far holds.
\<close>

lemma walk_prefix:
  assumes step: "\<And>us a vs s. I us s \<Longrightarrow> us @ a # vs = l \<Longrightarrow> a \<in> set xs \<Longrightarrow> pool_at (ItAt a) l s \<Longrightarrow>
      \<exists>s'. f a s = Inr s' \<and> pool_at (ItAt a) l s' \<and> I (us @ [a]) s'"
    and it: "\<And>us s i. I us s \<Longrightarrow> I us (s\<lparr>pool := (pool s)\<lparr>m_it := i\<rparr>\<rparr>)"
  shows "us @ xs @ b # ys = l \<Longrightarrow> I us s \<Longrightarrow> pool_at (ItAt (hd (xs @ [b]))) l s \<Longrightarrow>
    \<exists>s'. walk f (length xs + n) (hd (xs @ [b])) s = walk f n b s' \<and> I (us @ xs) s' \<and> pool_at (ItAt b) l s'"
  using step
proof (induction xs arbitrary: us s)
  case Nil
  then show ?case by auto
next
  case (Cons a xs)
  have l: "us @ a # xs @ b # ys = l" using Cons.prems(1) by simp
  have at: "pool_at (ItAt a) l s" using Cons.prems(3) by simp
  obtain s1 where s1: "f a s = Inr s1" "pool_at (ItAt a) l s1" "I (us @ [a]) s1"
    using Cons.prems(4)[OF Cons.prems(2) l _ at] by auto
  have "a \<notin> set us" using s1(2) l by (auto simp: pool_at_def)
  moreover have "\<exists>vs. xs @ b # ys = hd (xs @ [b]) # vs" by (cases xs) auto
  ultimately have nx: "cMsgPool_GetNext (pool s1) = Inr (Some (hd (xs @ [b])),
      (pool s1)\<lparr>m_it := ItAt (hd (xs @ [b]))\<rparr>)"
    using GetNext_split[of "pool s1" us a "xs @ b # ys"] s1(2) l by (auto simp: pool_at_def first_it_def)
  let ?s2 = "s1\<lparr>pool := (pool s1)\<lparr>m_it := ItAt (hd (xs @ [b]))\<rparr>\<rparr>"
  have "pool_at (ItAt (hd (xs @ [b]))) l ?s2" "I (us @ [a]) ?s2"
    using s1(2) it[OF s1(3)] by (simp_all add: pool_at_def)
  with Cons.IH[of "us @ [a]" ?s2] Cons.prems(1,4)
  obtain s' where "walk f (length xs + n) (hd (xs @ [b])) ?s2 = walk f n b s'" "I ((us @ [a]) @ xs) s'"
    "pool_at (ItAt b) l s'" by auto
  with s1(1) nx show ?case by auto
qed

lemma walk_all:
  assumes step: "\<And>us a vs s. I us s \<Longrightarrow> us @ a # vs = l \<Longrightarrow> pool_at (ItAt a) l s \<Longrightarrow>
      \<exists>s'. f a s = Inr s' \<and> pool_at (ItAt a) l s' \<and> I (us @ [a]) s'"
    and it: "\<And>us s i. I us s \<Longrightarrow> I us (s\<lparr>pool := (pool s)\<lparr>m_it := i\<rparr>\<rparr>)"
    and start: "I [] s" "pool_at (ItAt (hd l)) l s" "l \<noteq> []"
  shows "\<exists>s'. walk f (length l) (hd l) s = Inr s' \<and> I l s' \<and> pool_at ItEnd l s'"
proof -
  obtain xs b where l: "l = xs @ [b]" using start(3) by (cases l rule: rev_cases) auto
  have "\<exists>s1. walk f (length xs + 1) (hd (xs @ [b])) s = walk f 1 b s1 \<and> I ([] @ xs) s1 \<and> pool_at (ItAt b) l s1"
    by (rule walk_prefix[where I = I and ys = "[]", OF _ it]) (use step start l in auto)
  then obtain s1 where s1: "walk f (length l) (hd l) s = walk f 1 b s1" "I xs s1" "pool_at (ItAt b) l s1"
    using l by auto
  obtain s2 where s2: "f b s1 = Inr s2" "pool_at (ItAt b) l s2" "I l s2"
    using step[OF s1(2) _ s1(3), of "[]"] l by auto
  have "b \<notin> set xs" using s2(2) l by (auto simp: pool_at_def)
  then have "cMsgPool_GetNext (pool s2) = Inr (None, (pool s2)\<lparr>m_it := ItEnd\<rparr>)"
    using GetNext_split[of "pool s2" xs b "[]"] s2(2) l by (auto simp: pool_at_def first_it_def)
  with s1(1) s2 it[OF s2(3), of ItEnd] show ?thesis by (auto simp: pool_at_def numeral_2_eq_2)
qed

end
