(* ===== verification/MsgRouter.thy ===== *)
theory MsgRouter
  imports Msg
begin

text \<open>
  Content based routing: rule sets, \<open>cMsgRouterRuleSet\<close> (\<open>msgrouterruleset.cpp\<close>), and the rules
  engine, \<open>cMsgRouterRulesEngine\<close> (\<open>msgrouterrulesengine.cpp\<close>). Rule sets are created by the
  engine only and never removed, so the pointers of \<open>m_RulesMap\<close> are positions in \<open>m_RuleSets\<close>.
  The Boost regular expression matcher is a parameter \<open>rx\<close>: pattern and text to the result of
  \<open>regex_match\<close>, \<open>None\<close> when compiling or matching throws. \<open>TestMatch\<close> catches that exception, but
  \<open>LOGALL\<close> in its handler throws a character pointer, which \<open>Search\<close> does not catch: it ends the search
  with \<open>StdException\<close>.

  Shown: a search visits the rule sets in the order of their registration and returns the route of
  the first one whose rules all hold, without a fault when no regular expression throws; the
  iterators of the code stay in range.
\<close>

datatype eMsgRouterOperationType = MSG_RTO_NOTSET | MSG_RTO_CONTAINS | MSG_RTO_MATCH | MSG_RTO_LIKE

datatype eMsgRouterLocationType = MSG_RTL_NOTSET | MSG_RTL_HEADER | MSG_RTL_PAYLOAD | MSG_RTL_STATUS
  | MSG_RTL_ALL

record cMsgRouterRule =
  m_Location :: eMsgRouterLocationType
  m_OperationType :: eMsgRouterOperationType
  m_MatchPattern :: string
  m_Value :: string

record cMsgRouterRuleSet =
  m_RuleSetName :: string
  m_RouteTo :: string
  m_RuleSet :: "cMsgRouterRule list"
  m_RuleSetIterator :: nat

record cMsgRouterRulesEngine =
  m_RuleSets :: "cMsgRouterRuleSet list"
  m_RulesMap :: "string \<rightharpoonup> nat"

type_synonym regex = "string \<Rightarrow> string \<Rightarrow> bool option"

section \<open>Rule sets\<close>

definition cMsgRouterRuleSet_new :: "string \<Rightarrow> string \<Rightarrow> cMsgRouterRuleSet" where
  "cMsgRouterRuleSet_new RuleName RouteTo =
     \<lparr>m_RuleSetName = RuleName, m_RouteTo = RouteTo, m_RuleSet = [], m_RuleSetIterator = 0\<rparr>"

definition cMsgRouterRuleSet_AddRule ::
    "eMsgRouterLocationType \<Rightarrow> eMsgRouterOperationType \<Rightarrow> string \<Rightarrow> string \<Rightarrow> cMsgRouterRuleSet \<Rightarrow>
       cMsgRouterRuleSet" where
  "cMsgRouterRuleSet_AddRule loc op pat val rs =
     rs\<lparr>m_RuleSet := m_RuleSet rs @
          [\<lparr>m_Location = loc, m_OperationType = op, m_MatchPattern = pat, m_Value = val\<rparr>]\<rparr>"

text \<open>\<open>GetFirstRule\<close> dereferences \<open>begin()\<close> without comparing it with \<open>end()\<close>.\<close>

definition cMsgRouterRuleSet_GetFirstRule ::
    "cMsgRouterRuleSet \<Rightarrow> (cMsgRouterRule \<times> cMsgRouterRuleSet) res" where
  "cMsgRouterRuleSet_GetFirstRule rs =
     (if m_RuleSet rs = [] then Inl BadIterator
      else Inr (m_RuleSet rs ! 0, rs\<lparr>m_RuleSetIterator := 0\<rparr>))"

definition cMsgRouterRuleSet_GetNextRule ::
    "cMsgRouterRuleSet \<Rightarrow> (cMsgRouterRule option \<times> cMsgRouterRuleSet) res" where
  "cMsgRouterRuleSet_GetNextRule rs =
     (if m_RuleSetIterator rs \<ge> length (m_RuleSet rs) then Inl BadIterator
      else
        (let i = m_RuleSetIterator rs + 1; rs = rs\<lparr>m_RuleSetIterator := i\<rparr> in
         if i = length (m_RuleSet rs) then Inr (None, rs)
         else Inr (Some (m_RuleSet rs ! i), rs)))"

definition cMsgRouterRuleSet_GetRouteTo :: "cMsgRouterRuleSet \<Rightarrow> string" where
  "cMsgRouterRuleSet_GetRouteTo rs = c_prefix (m_RouteTo rs)"

section \<open>The engine\<close>

definition cMsgRouterRulesEngine_new :: cMsgRouterRulesEngine where
  "cMsgRouterRulesEngine_new = \<lparr>m_RuleSets = [], m_RulesMap = Map.empty\<rparr>"

definition cMsgRouterRulesEngine_AddRule ::
    "string \<Rightarrow> string \<Rightarrow> eMsgRouterLocationType \<Rightarrow> eMsgRouterOperationType \<Rightarrow> string \<Rightarrow> string \<Rightarrow>
       cMsgRouterRulesEngine \<Rightarrow> cMsgRouterRulesEngine" where
  "cMsgRouterRulesEngine_AddRule RuleSetName RouteTo loc op pat val e =
     (let (i, e) =
        (case m_RulesMap e RuleSetName of
           Some i \<Rightarrow> (i, e)
         | None \<Rightarrow>
             (length (m_RuleSets e),
              e\<lparr>m_RuleSets := m_RuleSets e @ [cMsgRouterRuleSet_new RuleSetName RouteTo],
                m_RulesMap := (m_RulesMap e)(RuleSetName \<mapsto> length (m_RuleSets e))\<rparr>))
      in e\<lparr>m_RuleSets := (m_RuleSets e)
             [i := cMsgRouterRuleSet_AddRule loc op pat val (m_RuleSets e ! i)]\<rparr>)"

text \<open>The tests of one rule. \<open>Find\<close> terminates the message's buffer, so they return the message.\<close>

definition cMsgRouterRulesEngine_TestContains :: "cMsg \<Rightarrow> cMsgRouterRule \<Rightarrow> (bool \<times> cMsg) res" where
  "cMsgRouterRulesEngine_TestContains m r =
     (case m_Location r of
        MSG_RTL_STATUS \<Rightarrow> Inr (str_find (cMsg_GetStatusLine m) (c_prefix (m_Value r)) \<noteq> None, m)
      | MSG_RTL_HEADER \<Rightarrow>
          bindE (cBuffer_Find (c_prefix (m_Value r)) 0 (cMsg_GetBuffer m)) (\<lambda>(i, b).
          Inr (i > 0 \<and> i < cMsg_GetHeaderSize m, m\<lparr>MsgBuffer := b\<rparr>))
      | MSG_RTL_PAYLOAD \<Rightarrow>
          bindE (cBuffer_Find (c_prefix (m_Value r)) (cMsg_GetHeaderSize m) (cMsg_GetBuffer m)) (\<lambda>(i, b).
          Inr (i > 0, m\<lparr>MsgBuffer := b\<rparr>))
      | _ \<Rightarrow> Inr (False, m))"

definition regex_match :: "regex \<Rightarrow> string \<Rightarrow> string \<Rightarrow> bool res" where
  "regex_match rx pat t = (case rx pat t of None \<Rightarrow> Inl StdException | Some b \<Rightarrow> Inr b)"

definition cMsgRouterRulesEngine_TestMatch :: "regex \<Rightarrow> cMsg \<Rightarrow> cMsgRouterRule \<Rightarrow> (bool \<times> cMsg) res" where
  "cMsgRouterRulesEngine_TestMatch rx m r =
     (case m_Location r of
        MSG_RTL_STATUS \<Rightarrow>
          bindE (regex_match rx (c_prefix (m_MatchPattern r)) (cMsg_GetStatusLine m)) (\<lambda>found. Inr (found, m))
      | MSG_RTL_HEADER \<Rightarrow>
          bindE (cBuffer_cstr (cMsg_GetBuffer m)) (\<lambda>(p, b).
          bindE (mem_get (deref p) 0 (cMsg_GetHeaderSize m)) (\<lambda>header.
          bindE (regex_match rx (c_prefix (m_MatchPattern r)) (c_prefix header)) (\<lambda>found.
          Inr (found, m\<lparr>MsgBuffer := b\<rparr>))))
      | _ \<Rightarrow> Inr (False, m))"

definition cMsgRouterRulesEngine_TestLike :: "cMsg \<Rightarrow> cMsgRouterRule \<Rightarrow> bool" where
  "cMsgRouterRulesEngine_TestLike m r = False"

text \<open>The body of the inner loop: a rule whose operation is not set leaves \<open>bTests\<close> alone.\<close>

definition test_rule :: "regex \<Rightarrow> bool \<Rightarrow> cMsgRouterRule \<Rightarrow> cMsg \<Rightarrow> (bool \<times> cMsg) res" where
  "test_rule rx bTests r m =
     (case m_OperationType r of
        MSG_RTO_CONTAINS \<Rightarrow> cMsgRouterRulesEngine_TestContains m r
      | MSG_RTO_MATCH \<Rightarrow> cMsgRouterRulesEngine_TestMatch rx m r
      | MSG_RTO_LIKE \<Rightarrow> Inr (cMsgRouterRulesEngine_TestLike m r, m)
      | MSG_RTO_NOTSET \<Rightarrow> Inr (bTests, m))"

lemma GetNextRule_less:
  "cMsgRouterRuleSet_GetNextRule rs = Inr (Some r, rs') \<Longrightarrow>
     length (m_RuleSet rs') - m_RuleSetIterator rs' < length (m_RuleSet rs) - m_RuleSetIterator rs"
  by (auto simp: cMsgRouterRuleSet_GetNextRule_def Let_def split: if_splits)

function rule_loop ::
    "regex \<Rightarrow> bool \<Rightarrow> cMsgRouterRule \<Rightarrow> cMsgRouterRuleSet \<Rightarrow> cMsg \<Rightarrow>
       (bool \<times> cMsgRouterRuleSet \<times> cMsg) res" where
  "rule_loop rx bTests r rs m =
     bindE (test_rule rx bTests r m) (\<lambda>bm.
     if \<not> fst bm then Inr (False, rs, snd bm)
     else
       bindE (cMsgRouterRuleSet_GetNextRule rs) (\<lambda>nx.
       case fst nx of
         None \<Rightarrow> Inr (True, snd nx, snd bm)
       | Some r' \<Rightarrow> rule_loop rx True r' (snd nx) (snd bm)))"
  by pat_completeness auto
termination
  by (relation "measure (\<lambda>(rx, b, r, rs, m). length (m_RuleSet rs) - m_RuleSetIterator rs)")
    (auto intro: GetNextRule_less simp: prod_eq_iff[symmetric] dest: sym)

declare rule_loop.simps [simp del]

text \<open>The outer loop over the rule sets from position \<open>i\<close>; a match returns the route.\<close>

function search_loop ::
    "regex \<Rightarrow> bool \<Rightarrow> nat \<Rightarrow> cMsgRouterRulesEngine \<Rightarrow> cMsg \<Rightarrow>
       (string option \<times> cMsgRouterRulesEngine \<times> cMsg) res" where
  "search_loop rx bTests i e m =
     (if i < length (m_RuleSets e) then
        bindE (cMsgRouterRuleSet_GetFirstRule (m_RuleSets e ! i)) (\<lambda>fr.
        bindE (rule_loop rx bTests (fst fr) (snd fr) m) (\<lambda>x.
        let e = e\<lparr>m_RuleSets := (m_RuleSets e)[i := fst (snd x)]\<rparr> in
        if fst x then Inr (Some (cMsgRouterRuleSet_GetRouteTo (fst (snd x))), e, snd (snd x))
        else search_loop rx False (Suc i) e (snd (snd x))))
      else Inr (None, e, m))"
  by pat_completeness auto
termination
  by (relation "measure (\<lambda>(rx, b, i, e, m). length (m_RuleSets e) - i)") auto

declare search_loop.simps [simp del]

definition cMsgRouterRulesEngine_Search ::
    "regex \<Rightarrow> cMsgRouterRulesEngine \<Rightarrow> cMsg \<Rightarrow> (string option \<times> cMsgRouterRulesEngine \<times> cMsg) res" where
  "cMsgRouterRulesEngine_Search rx e m = search_loop rx False 0 e m"

section \<open>What a rule means\<close>

definition contents :: "cMsg \<Rightarrow> string" where
  "contents m = buf_contents (MsgBuffer m)"

definition rule_holds :: "regex \<Rightarrow> cMsg \<Rightarrow> cMsgRouterRule \<Rightarrow> bool" where
  "rule_holds rx m r =
     (let hs = nat (MsgHeaderSize m); val = c_prefix (m_Value r); pat = c_prefix (m_MatchPattern r) in
      case m_OperationType r of
        MSG_RTO_CONTAINS \<Rightarrow>
          (case m_Location r of
             MSG_RTL_STATUS \<Rightarrow> str_find (c_prefix (MsgStatusLine m)) val \<noteq> None
           | MSG_RTL_HEADER \<Rightarrow> contents m \<noteq> [] \<and>
               (case str_find (c_prefix (contents m)) val of None \<Rightarrow> False | Some i \<Rightarrow> 0 < i \<and> i < hs)
           | MSG_RTL_PAYLOAD \<Rightarrow> contents m \<noteq> [] \<and>
               (case str_find (c_prefix (drop hs (contents m))) val of
                  None \<Rightarrow> False | Some i \<Rightarrow> 0 < hs + i)
           | _ \<Rightarrow> False)
      | MSG_RTO_MATCH \<Rightarrow>
          (case m_Location r of
             MSG_RTL_STATUS \<Rightarrow> rx pat (c_prefix (MsgStatusLine m)) = Some True
           | MSG_RTL_HEADER \<Rightarrow> rx pat (c_prefix (take hs (contents m))) = Some True
           | _ \<Rightarrow> False)
      | _ \<Rightarrow> False)"

text \<open>A rule set matches when all its rules hold; a rule without an operation counts as holding,
  except in the first place.\<close>

definition set_matches :: "regex \<Rightarrow> cMsg \<Rightarrow> cMsgRouterRuleSet \<Rightarrow> bool" where
  "set_matches rx m rs \<longleftrightarrow> m_RuleSet rs \<noteq> [] \<and> m_OperationType (hd (m_RuleSet rs)) \<noteq> MSG_RTO_NOTSET \<and>
     (\<forall>r \<in> set (m_RuleSet rs). m_OperationType r = MSG_RTO_NOTSET \<or> rule_holds rx m r)"

section \<open>The search computes it\<close>

text \<open>The header size lies within the buffer, as after \<open>Parse\<close> and after \<open>ResetMsg\<close>.\<close>

definition msg_ready :: "cMsg \<Rightarrow> bool" where
  "msg_ready m \<longleftrightarrow> buf_inv (MsgBuffer m) \<and> 0 \<le> MsgHeaderSize m \<and>
     nat (MsgHeaderSize m) \<le> length (contents m)"

definition same_text :: "cMsg \<Rightarrow> cMsg \<Rightarrow> bool" where
  "same_text m m' \<longleftrightarrow> (\<exists>b. m' = m\<lparr>MsgBuffer := b\<rparr> \<and> buf_inv b \<and> buf_contents b = contents m)"

lemma same_text_upd [intro]: "buf_inv b \<Longrightarrow> buf_contents b = contents m \<Longrightarrow> same_text m (m\<lparr>MsgBuffer := b\<rparr>)"
  by (auto simp: same_text_def)

lemma same_text_refl [intro]: "msg_ready m \<Longrightarrow> same_text m m"
  by (auto simp: same_text_def msg_ready_def contents_def intro!: exI[of _ "MsgBuffer m"])

lemma same_text_trans: "same_text m m' \<Longrightarrow> same_text m' m'' \<Longrightarrow> same_text m m''"
  by (auto simp: same_text_def contents_def)

lemma same_text_ready: "same_text m m' \<Longrightarrow> msg_ready m \<Longrightarrow> msg_ready m'"
  by (auto simp: same_text_def msg_ready_def contents_def)

lemma same_text_holds: "same_text m m' \<Longrightarrow> rule_holds rx m' = rule_holds rx m"
proof -
  assume "same_text m m'"
  then have eqs: "contents m' = contents m" "MsgHeaderSize m' = MsgHeaderSize m"
    "MsgStatusLine m' = MsgStatusLine m" by (auto simp: same_text_def contents_def)
  show ?thesis unfolding rule_holds_def eqs by (rule refl)
qed

lemma same_text_matches: "same_text m m' \<Longrightarrow> set_matches rx m' = set_matches rx m"
  by (rule ext) (simp add: set_matches_def same_text_holds)

lemma Find_msg:
  assumes "msg_ready m" "i \<le> length (contents m)"
  shows "\<exists>b. cBuffer_Find val (int i) (MsgBuffer m) =
      Inr (if contents m = [] then -1
           else case str_find (c_prefix (drop i (contents m))) val of Some j \<Rightarrow> int (i + j) | None \<Rightarrow> -1, b) \<and>
    same_text m (m\<lparr>MsgBuffer := b\<rparr>)"
proof (cases "contents m = []")
  case True
  then show ?thesis
    using assms(1) Find_empty[of "MsgBuffer m" val "int i"] by (auto simp: msg_ready_def contents_def)
next
  case False
  then show ?thesis
    using assms Find_prefix[of "MsgBuffer m" i val] unfolding msg_ready_def contents_def
    by (auto simp: contents_def same_text_def)
qed

lemma TestContains_ok:
  assumes "msg_ready m" "m_OperationType r = MSG_RTO_CONTAINS"
  shows "\<exists>m'. cMsgRouterRulesEngine_TestContains m r = Inr (rule_holds rx m r, m') \<and> same_text m m'"
proof (cases "m_Location r")
  case MSG_RTL_HEADER
  have "int (nat (MsgHeaderSize m)) = MsgHeaderSize m" using assms(1) by (simp add: msg_ready_def)
  with MSG_RTL_HEADER assms(2) show ?thesis using Find_msg[OF assms(1), of 0 "c_prefix (m_Value r)"]
    by (auto simp: cMsgRouterRulesEngine_TestContains_def rule_holds_def getter_defs Let_def split: option.splits)
next
  case MSG_RTL_PAYLOAD
  have hs: "MsgHeaderSize m = int (nat (MsgHeaderSize m))" "nat (MsgHeaderSize m) \<le> length (contents m)"
    using assms(1) by (simp_all add: msg_ready_def)
  obtain b where "cBuffer_Find (c_prefix (m_Value r)) (MsgHeaderSize m) (MsgBuffer m) =
      Inr (if contents m = [] then -1
           else case str_find (c_prefix (drop (nat (MsgHeaderSize m)) (contents m))) (c_prefix (m_Value r)) of
             Some j \<Rightarrow> int (nat (MsgHeaderSize m) + j) | None \<Rightarrow> -1, b)" "same_text m (m\<lparr>MsgBuffer := b\<rparr>)"
    using Find_msg[OF assms(1) hs(2), of "c_prefix (m_Value r)"] unfolding hs(1)[symmetric] by blast
  with MSG_RTL_PAYLOAD assms(2) show ?thesis
    by (auto simp: cMsgRouterRulesEngine_TestContains_def rule_holds_def getter_defs Let_def split: option.splits)
qed (use assms in \<open>auto simp: cMsgRouterRulesEngine_TestContains_def rule_holds_def getter_defs Let_def\<close>)

lemma cstr_header:
  assumes "msg_ready m"
  shows "\<exists>p b. cBuffer_cstr (MsgBuffer m) = Inr (p, b) \<and> same_text m (m\<lparr>MsgBuffer := b\<rparr>) \<and>
    mem_get (deref p) 0 (MsgHeaderSize m) = Inr (take (nat (MsgHeaderSize m)) (contents m))"
proof -
  let ?b = "MsgBuffer m"
  obtain hs where hs: "MsgHeaderSize m = int hs" "hs \<le> length (buf_contents ?b)"
    using assms by (metis msg_ready_def contents_def nonneg_int_cases nat_int)
  have inv: "buf_inv ?b" using assms by (simp add: msg_ready_def)
  show ?thesis
  proof (cases "m_pBuffer ?b")
    case None
    then have "hs = 0" using hs by (simp add: buf_contents_def)
    moreover have "cBuffer_cstr ?b = Inr (None, ?b)" using None by (simp add: cBuffer_cstr_def)
    moreover have "same_text m (m\<lparr>MsgBuffer := ?b\<rparr>)"
      by (rule same_text_upd[OF inv]) (simp add: contents_def)
    ultimately show ?thesis using hs(1) by (auto simp: mem_get_def)
  next
    case (Some blk)
    obtain t z where tz: "m_iTail ?b = int t" "m_iBufferSize ?b = int z" "t < z" "z \<le> length blk"
      using buf_inv_Some_nat[OF inv Some] by blast
    then have "hs \<le> t" using hs(2) Some by (simp add: buf_contents_def)
    then have get: "mem_get (blk[t := NUL]) 0 (MsgHeaderSize m) = Inr (take hs blk)"
      using tz hs(1) by (simp add: mem_ok)
    let ?b' = "?b\<lparr>m_pBuffer := Some (blk[t := NUL])\<rparr>"
    have "cBuffer_cstr ?b = Inr (Some (blk[t := NUL]), ?b')"
      using tz Some by (simp add: cBuffer_cstr_def mem_ok)
    moreover have "same_text m (m\<lparr>MsgBuffer := ?b'\<rparr>)"
      using tz Some by (intro same_text_upd) (simp_all add: buf_inv_def contents_def buf_contents_def)
    moreover have "take hs blk = take (nat (MsgHeaderSize m)) (contents m)"
      using tz Some hs(1) \<open>hs \<le> t\<close> by (simp add: contents_def buf_contents_def min_def)
    ultimately show ?thesis using get by auto
  qed
qed

text \<open>The regular expression of a rule compiles and matches without throwing.\<close>

definition rx_ok :: "regex \<Rightarrow> cMsgRouterRule \<Rightarrow> bool" where
  "rx_ok rx r \<longleftrightarrow> (m_OperationType r = MSG_RTO_MATCH \<longrightarrow> (\<forall>t. rx (c_prefix (m_MatchPattern r)) t \<noteq> None))"

definition engine_rx_ok :: "regex \<Rightarrow> cMsgRouterRulesEngine \<Rightarrow> bool" where
  "engine_rx_ok rx e \<longleftrightarrow> (\<forall>rs \<in> set (map m_RuleSet (m_RuleSets e)). \<forall>r \<in> set rs. rx_ok rx r)"

lemma regex_match_ok:
  assumes "rx_ok rx r" "m_OperationType r = MSG_RTO_MATCH"
  shows "regex_match rx (c_prefix (m_MatchPattern r)) t = Inr (rx (c_prefix (m_MatchPattern r)) t = Some True)"
  using assms by (auto simp: rx_ok_def regex_match_def split: option.splits)

lemma test_rule_ok:
  assumes "msg_ready m" "rx_ok rx r"
  shows "\<exists>m'. test_rule rx bT r m =
      Inr (if m_OperationType r = MSG_RTO_NOTSET then bT else rule_holds rx m r, m') \<and> same_text m m'"
proof (cases "m_OperationType r")
  case MSG_RTO_CONTAINS
  then show ?thesis using TestContains_ok[OF assms(1)] by (simp add: test_rule_def)
next
  case MSG_RTO_MATCH
  with cstr_header[OF assms(1)] same_text_refl[OF assms(1)] regex_match_ok[OF assms(2)] show ?thesis
    by (cases "m_Location r")
      (auto simp: test_rule_def cMsgRouterRulesEngine_TestMatch_def rule_holds_def getter_defs Let_def)
qed (use assms in \<open>auto simp: test_rule_def rule_holds_def cMsgRouterRulesEngine_TestLike_def Let_def\<close>)

lemma rule_loop_ok:
  assumes "msg_ready m" "m_RuleSetIterator rs < length (m_RuleSet rs)"
    and "r = m_RuleSet rs ! m_RuleSetIterator rs" "\<forall>x \<in> set (m_RuleSet rs). rx_ok rx x"
  shows "\<exists>k m'. rule_loop rx bT r rs m = Inr
      ((if m_OperationType r = MSG_RTO_NOTSET then bT else rule_holds rx m r) \<and>
       (\<forall>x \<in> set (drop (Suc (m_RuleSetIterator rs)) (m_RuleSet rs)).
          m_OperationType x = MSG_RTO_NOTSET \<or> rule_holds rx m x),
       rs\<lparr>m_RuleSetIterator := k\<rparr>, m') \<and> same_text m m'"
  using assms
proof (induction rx bT r rs m rule: rule_loop.induct)
  case (1 rx bT r rs m)
  let ?i = "m_RuleSetIterator rs" and ?rs = "m_RuleSet rs"
  define t where "t = (if m_OperationType r = MSG_RTO_NOTSET then bT else rule_holds rx m r)"
  obtain m1 where m1: "test_rule rx bT r m = Inr (t, m1)" "same_text m m1"
    using test_rule_ok[OF "1.prems"(1), of rx r bT] t_def "1.prems"(2-4) by auto
  have step: "rule_loop rx bT r rs m = (if \<not> t then Inr (False, rs, m1)
     else bindE (cMsgRouterRuleSet_GetNextRule rs) (\<lambda>nx. case fst nx of
         None \<Rightarrow> Inr (True, snd nx, m1) | Some r' \<Rightarrow> rule_loop rx True r' (snd nx) m1))"
    unfolding rule_loop.simps[of rx bT r rs m] m1(1) bindE.simps fst_conv snd_conv by (rule refl)
  show ?case unfolding t_def[symmetric]
  proof (cases t)
    case False
    have "rs = rs\<lparr>m_RuleSetIterator := m_RuleSetIterator rs\<rparr>" by simp
    then have "\<exists>k. rs = rs\<lparr>m_RuleSetIterator := k\<rparr>" by blast
    with step False m1(2) show "\<exists>k m'. rule_loop rx bT r rs m = Inr
        (t \<and> (\<forall>x \<in> set (drop (Suc ?i) ?rs). m_OperationType x = MSG_RTO_NOTSET \<or> rule_holds rx m x),
         rs\<lparr>m_RuleSetIterator := k\<rparr>, m') \<and> same_text m m'" by auto
  next
    case True
    show "\<exists>k m'. rule_loop rx bT r rs m = Inr
        (t \<and> (\<forall>x \<in> set (drop (Suc ?i) ?rs). m_OperationType x = MSG_RTO_NOTSET \<or> rule_holds rx m x),
         rs\<lparr>m_RuleSetIterator := k\<rparr>, m') \<and> same_text m m'"
    proof (cases "Suc ?i = length ?rs")
      case last: True
      then have "cMsgRouterRuleSet_GetNextRule rs = Inr (None, rs\<lparr>m_RuleSetIterator := Suc ?i\<rparr>)"
        using "1.prems"(2) by (simp add: cMsgRouterRuleSet_GetNextRule_def)
      with step True m1(2) last show ?thesis by auto
    next
      case False
      let ?rs' = "rs\<lparr>m_RuleSetIterator := Suc ?i\<rparr>" and ?r' = "?rs ! Suc ?i"
      have nx: "cMsgRouterRuleSet_GetNextRule rs = Inr (Some ?r', ?rs')"
        using False "1.prems"(2) by (simp add: cMsgRouterRuleSet_GetNextRule_def Let_def)
      have less: "Suc ?i < length ?rs" using False "1.prems"(2) by linarith
      have "\<exists>k m'. rule_loop rx True ?r' ?rs' m1 = Inr
        ((m_OperationType ?r' = MSG_RTO_NOTSET \<or> rule_holds rx m1 ?r') \<and>
         (\<forall>x \<in> set (drop (Suc (Suc ?i)) ?rs). m_OperationType x = MSG_RTO_NOTSET \<or> rule_holds rx m1 x),
         rs\<lparr>m_RuleSetIterator := k\<rparr>, m') \<and> same_text m1 m'"
        using "1.IH"[OF m1(1) _ nx] True less same_text_ready[OF m1(2) "1.prems"(1)] "1.prems"(4) by auto
      then show ?thesis
        using step True nx same_text_holds[OF m1(2)] same_text_trans[OF m1(2)]
        by (auto simp: Cons_nth_drop_Suc[OF less, symmetric])
    qed
  qed
qed

lemma rule_set_ok:
  assumes "msg_ready m" "m_RuleSet rs \<noteq> []" "\<forall>x \<in> set (m_RuleSet rs). rx_ok rx x"
  shows "\<exists>r rs1 k m'. cMsgRouterRuleSet_GetFirstRule rs = Inr (r, rs1) \<and>
    rule_loop rx False r rs1 m = Inr (set_matches rx m rs, rs\<lparr>m_RuleSetIterator := k\<rparr>, m') \<and> same_text m m'"
proof -
  obtain r rest where rs: "m_RuleSet rs = r # rest" using assms(2) by (cases "m_RuleSet rs") auto
  let ?rs1 = "rs\<lparr>m_RuleSetIterator := 0\<rparr>"
  have i: "m_RuleSetIterator ?rs1 < length (m_RuleSet ?rs1)" "r = m_RuleSet ?rs1 ! m_RuleSetIterator ?rs1"
      "\<forall>x \<in> set (m_RuleSet ?rs1). rx_ok rx x"
    using rs assms(3) by simp_all
  have eqs: "drop (Suc (m_RuleSetIterator ?rs1)) (m_RuleSet ?rs1) = rest"
    "?rs1\<lparr>m_RuleSetIterator := k\<rparr> = rs\<lparr>m_RuleSetIterator := k\<rparr>" for k using rs by simp_all
  obtain k m' where "rule_loop rx False r ?rs1 m = Inr
      ((if m_OperationType r = MSG_RTO_NOTSET then False else rule_holds rx m r) \<and>
       (\<forall>x \<in> set rest. m_OperationType x = MSG_RTO_NOTSET \<or> rule_holds rx m x),
       rs\<lparr>m_RuleSetIterator := k\<rparr>, m')" "same_text m m'"
    using rule_loop_ok[OF assms(1) i, of False] unfolding eqs by blast
  moreover have "set_matches rx m rs \<longleftrightarrow>
      (if m_OperationType r = MSG_RTO_NOTSET then False else rule_holds rx m r) \<and>
       (\<forall>x \<in> set rest. m_OperationType x = MSG_RTO_NOTSET \<or> rule_holds rx m x)"
    by (auto simp: set_matches_def rs)
  ultimately show ?thesis
    using rs by (auto simp: cMsgRouterRuleSet_GetFirstRule_def)
qed

definition engine_inv :: "cMsgRouterRulesEngine \<Rightarrow> bool" where
  "engine_inv e \<longleftrightarrow> (\<forall>rs \<in> set (m_RuleSets e). m_RuleSet rs \<noteq> []) \<and>
     (\<forall>n i. m_RulesMap e n = Some i \<longrightarrow> i < length (m_RuleSets e))"

definition same_rules :: "cMsgRouterRulesEngine \<Rightarrow> cMsgRouterRulesEngine \<Rightarrow> bool" where
  "same_rules e e' \<longleftrightarrow> m_RulesMap e' = m_RulesMap e \<and>
     map m_RuleSet (m_RuleSets e') = map m_RuleSet (m_RuleSets e) \<and>
     map m_RouteTo (m_RuleSets e') = map m_RouteTo (m_RuleSets e)"

lemma search_loop_ok:
  assumes "msg_ready m" "engine_inv e" "engine_rx_ok rx e"
  shows "\<exists>e' m'. search_loop rx False i e m =
      Inr (map_option cMsgRouterRuleSet_GetRouteTo (List.find (set_matches rx m) (drop i (m_RuleSets e))), e', m') \<and>
    same_rules e e' \<and> same_text m m'"
  using assms
proof (induction "length (m_RuleSets e) - i" arbitrary: i e m)
  case 0
  then show ?case
    using same_text_refl by (auto simp: search_loop.simps[of rx False i e m] same_rules_def)
next
  case (Suc n)
  let ?rs = "m_RuleSets e ! i"
  have i: "i < length (m_RuleSets e)" using Suc.hyps(2) by linarith
  then have "m_RuleSet ?rs \<noteq> []" using Suc.prems(2) by (simp add: engine_inv_def)
  then obtain r rs1 k m1 where g: "cMsgRouterRuleSet_GetFirstRule ?rs = Inr (r, rs1)"
    "rule_loop rx False r rs1 m = Inr (set_matches rx m ?rs, ?rs\<lparr>m_RuleSetIterator := k\<rparr>, m1)" "same_text m m1"
    using rule_set_ok[OF Suc.prems(1), of ?rs rx] Suc.prems(3) i unfolding engine_rx_ok_def by (metis nth_map nth_mem length_map)
  let ?e = "e\<lparr>m_RuleSets := (m_RuleSets e)[i := ?rs\<lparr>m_RuleSetIterator := k\<rparr>]\<rparr>"
  have same: "same_rules e ?e" using i
    by (auto simp: same_rules_def map_update list_update_id[of "map f xs" for f xs, simplified nth_map]
        intro!: nth_equalityI simp: nth_list_update)
  have d: "drop i (m_RuleSets e) = ?rs # drop (Suc i) (m_RuleSets e)" using i by (simp add: Cons_nth_drop_Suc)
  show ?case
  proof (cases "set_matches rx m ?rs")
    case True
    with i g same show ?thesis
      by (auto simp: search_loop.simps[of rx False i e m] d cMsgRouterRuleSet_GetRouteTo_def)
  next
    case False
    have "engine_inv ?e" using Suc.prems(2) i by (auto simp: engine_inv_def dest!: set_update_subset_insert[THEN subsetD])
    moreover have "engine_rx_ok rx ?e" using Suc.prems(3) same by (simp only: engine_rx_ok_def same_rules_def)
    moreover have "msg_ready m1" using same_text_ready g(3) Suc.prems(1) by blast
    moreover have "n = length (m_RuleSets ?e) - Suc i" using Suc.hyps(2) by simp
    ultimately obtain e' m' where "search_loop rx False (Suc i) ?e m1 =
      Inr (map_option cMsgRouterRuleSet_GetRouteTo (List.find (set_matches rx m) (drop (Suc i) (m_RuleSets e))), e', m')"
      "same_rules ?e e'" "same_text m1 m'"
      using Suc.hyps(1)[of ?e "Suc i" m1] same_text_matches[OF g(3), of rx] by auto
    with i g False same same_text_trans[OF g(3)] show ?thesis
      by (auto simp: search_loop.simps[of rx False i e m] d same_rules_def)
  qed
qed

section \<open>Engines as the configuration builds them\<close>

type_synonym rule_call = "string \<times> string \<times> eMsgRouterLocationType \<times> eMsgRouterOperationType \<times> string \<times> string"

definition add_rules :: "rule_call list \<Rightarrow> cMsgRouterRulesEngine" where
  "add_rules calls =
     fold (\<lambda>(n, r, loc, op, pat, val). cMsgRouterRulesEngine_AddRule n r loc op pat val) calls
       cMsgRouterRulesEngine_new"

lemma AddRule_inv:
  assumes "engine_inv e"
  shows "engine_inv (cMsgRouterRulesEngine_AddRule n r loc op pat val e)"
proof (cases "m_RulesMap e n")
  case None
  with assms show ?thesis
    by (auto simp: engine_inv_def cMsgRouterRulesEngine_AddRule_def cMsgRouterRuleSet_AddRule_def
        less_Suc_eq split: if_splits)
next
  case (Some i)
  with assms show ?thesis
    by (auto simp: engine_inv_def cMsgRouterRulesEngine_AddRule_def cMsgRouterRuleSet_AddRule_def
        dest!: set_update_subset_insert[THEN subsetD])
qed

lemma add_rules_inv: "engine_inv (add_rules calls)"
proof -
  have "engine_inv e \<Longrightarrow>
      engine_inv (fold (\<lambda>(n, r, loc, op, pat, val). cMsgRouterRulesEngine_AddRule n r loc op pat val) calls e)"
    for e by (induction calls arbitrary: e) (auto simp: AddRule_inv split: prod.split)
  moreover have "engine_inv cMsgRouterRulesEngine_new"
    by (simp add: engine_inv_def cMsgRouterRulesEngine_new_def)
  ultimately show ?thesis by (simp add: add_rules_def)
qed

text \<open>A search that returns does so as with expressions that fail to match where they throw.\<close>

definition rx_total :: "regex \<Rightarrow> regex" where
  "rx_total rx p t = Some (rx p t = Some True)"

lemma rx_total_ok [simp]: "engine_rx_ok (rx_total rx) e"
  by (simp add: engine_rx_ok_def rx_ok_def rx_total_def)

lemma test_rule_total: "test_rule rx bT r m = Inr x \<Longrightarrow> test_rule (rx_total rx) bT r m = Inr x"
  by (auto simp: test_rule_def cMsgRouterRulesEngine_TestMatch_def regex_match_def rx_total_def res_simps
      split: eMsgRouterOperationType.splits eMsgRouterLocationType.splits option.splits prod.splits)

lemma rule_loop_total: "rule_loop rx bT r rs m = Inr x \<Longrightarrow> rule_loop (rx_total rx) bT r rs m = Inr x"
proof (induction rx bT r rs m rule: rule_loop.induct)
  case (1 rx bT r rs m)
  obtain bm where bm: "test_rule rx bT r m = Inr bm" "test_rule (rx_total rx) bT r m = Inr bm"
    using "1.prems" test_rule_total by (subst (asm) rule_loop.simps) (auto simp: bindE_eq_Inr)
  have st: "rule_loop y bT r rs m = (if \<not> fst bm then Inr (False, rs, snd bm)
     else bindE (cMsgRouterRuleSet_GetNextRule rs) (\<lambda>nx. case fst nx of
         None \<Rightarrow> Inr (True, snd nx, snd bm) | Some r' \<Rightarrow> rule_loop y True r' (snd nx) (snd bm)))"
    if "test_rule y bT r m = Inr bm" for y
    unfolding rule_loop.simps[of y bT r rs m] that bindE.simps by (rule refl)
  show ?case
  proof (cases "fst bm")
    case False
    then show ?thesis using "1.prems" st[OF bm(1)] st[OF bm(2)] by simp
  next
    case True
    then obtain nx where nx: "cMsgRouterRuleSet_GetNextRule rs = Inr nx"
      using "1.prems" st[OF bm(1)] by (auto simp: bindE_eq_Inr)
    show ?thesis
    proof (cases "fst nx")
      case None
      then show ?thesis using "1.prems" st[OF bm(1)] st[OF bm(2)] True nx by simp
    next
      case (Some r')
      have "rule_loop rx True r' (snd nx) (snd bm) = Inr x" using "1.prems" st[OF bm(1)] True nx Some by simp
      then have "rule_loop (rx_total rx) True r' (snd nx) (snd bm) = Inr x" using "1.IH"[OF bm(1) _ nx Some] True by simp
      then show ?thesis using st[OF bm(2)] True nx Some by simp
    qed
  qed
qed

lemma search_loop_total: "search_loop rx bT i e m = Inr x \<Longrightarrow> search_loop (rx_total rx) bT i e m = Inr x"
proof (induction rx bT i e m rule: search_loop.induct)
  case (1 rx bT i e m)
  show ?case
  proof (cases "i < length (m_RuleSets e)")
    case False
    then show ?thesis using "1.prems" by (simp add: search_loop.simps[of _ bT i e m])
  next
    case True
    then obtain fr y where y: "cMsgRouterRuleSet_GetFirstRule (m_RuleSets e ! i) = Inr fr"
      "rule_loop rx bT (fst fr) (snd fr) m = Inr y"
      using "1.prems" by (auto simp: search_loop.simps[of rx bT i e m] bindE_eq_Inr)
    show ?thesis
      using "1.prems" "1.IH"[OF True, of fr y] True y rule_loop_total[OF y(2)]
      by (simp add: search_loop.simps[of _ bT i e m] Let_def split: if_splits)
  qed
qed

lemma Search_total:
  assumes "cMsgRouterRulesEngine_Search rx e m = Inr x" "msg_ready m" "engine_inv e"
  shows "\<exists>r e' m'. x = (r, e', m') \<and> same_rules e e' \<and> same_text m m'"
  using search_loop_ok[OF assms(2,3), of "rx_total rx" 0] search_loop_total[of rx False 0 e m x] assms(1)
  by (auto simp: cMsgRouterRulesEngine_Search_def)

lemma AddRule_rx:
  assumes "engine_inv e" "engine_rx_ok rx e" "op = MSG_RTO_MATCH \<longrightarrow> (\<forall>t. rx (c_prefix pat) t \<noteq> None)"
  shows "engine_rx_ok rx (cMsgRouterRulesEngine_AddRule n r loc op pat val e)"
proof (cases "m_RulesMap e n")
  case None
  with assms show ?thesis
    by (auto simp: engine_rx_ok_def cMsgRouterRulesEngine_AddRule_def cMsgRouterRuleSet_AddRule_def
        cMsgRouterRuleSet_new_def rx_ok_def)
next
  case (Some i)
  then have "i < length (m_RuleSets e)" using assms(1) by (auto simp: engine_inv_def)
  then have "m_RuleSets e ! i \<in> set (m_RuleSets e)" by simp
  with Some assms(2,3) show ?thesis
    by (auto simp: engine_rx_ok_def cMsgRouterRulesEngine_AddRule_def cMsgRouterRuleSet_AddRule_def rx_ok_def
        dest!: set_update_subset_insert[THEN subsetD])
qed

lemma add_rules_rx:
  assumes "\<forall>(n, r, loc, op, pat, val) \<in> set calls. op = MSG_RTO_MATCH \<longrightarrow> (\<forall>t. rx (c_prefix pat) t \<noteq> None)"
  shows "engine_rx_ok rx (add_rules calls)"
proof -
  have "engine_inv e \<Longrightarrow> engine_rx_ok rx e \<Longrightarrow>
      engine_rx_ok rx (fold (\<lambda>(n, r, loc, op, pat, val). cMsgRouterRulesEngine_AddRule n r loc op pat val) calls e)"
    for e using assms by (induction calls arbitrary: e) (auto simp: AddRule_inv AddRule_rx split: prod.split)
  moreover have "engine_inv cMsgRouterRulesEngine_new" "engine_rx_ok rx cMsgRouterRulesEngine_new"
    by (simp_all add: engine_inv_def engine_rx_ok_def cMsgRouterRulesEngine_new_def)
  ultimately show ?thesis by (simp add: add_rules_def)
qed

section \<open>Properties\<close>

text \<open>
  (C18) Routing by rules: with any engine built by calls of \<open>AddRule\<close> whose regular expressions never
  throw, the search for a message whose header size lies within its buffer runs without a fault (no
  iterator leaves its range, no read leaves the buffer), returns the route of the first rule set all
  of whose rules hold for the message, or no route when there is none, and changes neither the rules
  nor the message's text.
\<close>

theorem route_first_match:
  assumes "msg_ready m"
    and "\<forall>(n, r, loc, op, pat, val) \<in> set calls. op = MSG_RTO_MATCH \<longrightarrow> (\<forall>t. rx (c_prefix pat) t \<noteq> None)"
  shows "\<exists>e' m'. cMsgRouterRulesEngine_Search rx (add_rules calls) m =
      Inr (map_option cMsgRouterRuleSet_GetRouteTo
             (List.find (set_matches rx m) (m_RuleSets (add_rules calls))), e', m') \<and>
    same_rules (add_rules calls) e' \<and> same_text m m'"
  using search_loop_ok[OF assms(1) add_rules_inv add_rules_rx[OF assms(2)], of 0]
  by (simp add: cMsgRouterRulesEngine_Search_def)

text \<open>For the example, a matcher that knows the pattern \<open>.*\<close> and plain words, and throws for others.\<close>

definition example_rx :: regex where
  "example_rx p t = (if p = ''.*'' then Some True else if CHR ''*'' \<in> set p then None else Some (p = t))"

theorem route_first_match_witness:
  "\<exists>e' m'. cMsgRouterRulesEngine_Search example_rx
      (add_rules [(''a'', ''NONE'', MSG_RTL_STATUS, MSG_RTO_CONTAINS, [], ''pong''),
                  (''b'', ''ECHO'', MSG_RTL_STATUS, MSG_RTO_MATCH, ''ping MCP'', []),
                  (''c'', ''ALL'', MSG_RTL_STATUS, MSG_RTO_MATCH, ''.*'', [])])
      (cMsg_raw\<lparr>MsgStatusLine := ''ping MCP''\<rparr>) = Inr (Some ''ECHO'', e', m')"
proof -
  let ?m = "cMsg_raw\<lparr>MsgStatusLine := ''ping MCP''\<rparr>"
  let ?c = "[(''a'', ''NONE'', MSG_RTL_STATUS, MSG_RTO_CONTAINS, [], ''pong''),
    (''b'', ''ECHO'', MSG_RTL_STATUS, MSG_RTO_MATCH, ''ping MCP'', []), (''c'', ''ALL'', MSG_RTL_STATUS, MSG_RTO_MATCH, ''.*'', [])]"
  have "msg_ready ?m"
    by (simp add: msg_ready_def contents_def cMsg_raw_def)
  moreover have "\<forall>(n, r, loc, op, pat, val) \<in> set ?c. op = MSG_RTO_MATCH \<longrightarrow> (\<forall>t. example_rx (c_prefix pat) t \<noteq> None)"
    by (simp add: example_rx_def c_prefix_def exI[of _ True])
  moreover have "map_option cMsgRouterRuleSet_GetRouteTo
      (List.find (set_matches example_rx ?m) (m_RuleSets (add_rules ?c))) = Some ''ECHO''"
    by (simp add: add_rules_def cMsgRouterRulesEngine_AddRule_def cMsgRouterRulesEngine_new_def
        cMsgRouterRuleSet_new_def cMsgRouterRuleSet_AddRule_def cMsgRouterRuleSet_GetRouteTo_def
        set_matches_def rule_holds_def Let_def c_prefix_def example_rx_def)
  ultimately show ?thesis using route_first_match[of ?m ?c example_rx] by auto
qed

text \<open>A regular expression that throws ends the search, and with it the routing of the message.\<close>

theorem throwing_regex_ends_search:
  assumes "MsgStatusLine m = line" "rx (c_prefix pat) (c_prefix line) = None"
  shows "cMsgRouterRulesEngine_Search rx
      (add_rules ((n, r, MSG_RTL_STATUS, MSG_RTO_MATCH, pat, val) # [])) m = Inl StdException"
  using assms
  by (simp add: cMsgRouterRulesEngine_Search_def add_rules_def cMsgRouterRulesEngine_AddRule_def
      cMsgRouterRulesEngine_new_def cMsgRouterRuleSet_new_def cMsgRouterRuleSet_AddRule_def search_loop.simps
      rule_loop.simps cMsgRouterRuleSet_GetFirstRule_def test_rule_def cMsgRouterRulesEngine_TestMatch_def
      regex_match_def cMsg_GetStatusLine_def)

end
