(* ===== verification/OrdMap.thy ===== *)
theory OrdMap
  imports Mc_Prelude "HOL-Library.Multiset" "HOL-Library.Char_ord" "HOL-Library.List_Lexorder"
begin

text \<open>
  \<open>std::map<std::string, T>\<close> and \<open>std::multimap\<close>, for the components that iterate over them: lists
  of entries in the order of the keys. Strings are ordered as \<open>std::string\<close> orders them, by the
  unsigned values of their bytes.

  The interface, a locale, says what an assignment, an insertion and a removal do to later lookups,
  that the entries stay in order, and that two maps with the same lookups are equal, so that
  writing all entries of a map out and reading them back gives the same map.
\<close>

type_synonym 'v omap = "(string \<times> 'v) list"

definition om_inv :: "'v omap \<Rightarrow> bool" where
  "om_inv l \<longleftrightarrow> sorted_wrt (<) (map fst l)"

text \<open>\<open>m[k] = v\<close>.\<close>

fun om_assign :: "string \<Rightarrow> 'v \<Rightarrow> 'v omap \<Rightarrow> 'v omap" where
  "om_assign k v [] = [(k, v)]"
| "om_assign k v ((k', v') # l) =
     (if k < k' then (k, v) # (k', v') # l
      else if k = k' then (k, v) # l
      else (k', v') # om_assign k v l)"

definition om_find :: "string \<Rightarrow> 'v omap \<Rightarrow> 'v option" where
  "om_find k l = map_of l k"

text \<open>\<open>m.insert(pair(k, v))\<close>, which keeps an existing entry.\<close>

definition om_insert :: "string \<Rightarrow> 'v \<Rightarrow> 'v omap \<Rightarrow> 'v omap" where
  "om_insert k v l = (case om_find k l of None \<Rightarrow> om_assign k v l | Some _ \<Rightarrow> l)"

definition om_erase :: "string \<Rightarrow> 'v omap \<Rightarrow> 'v omap" where
  "om_erase k l = filter (\<lambda>e. fst e \<noteq> k) l"

text \<open>A multimap inserts after the entries with the same key and finds the first of them.\<close>

definition mm_inv :: "'v omap \<Rightarrow> bool" where
  "mm_inv l \<longleftrightarrow> sorted (map fst l)"

definition mm_insert :: "string \<Rightarrow> 'v \<Rightarrow> 'v omap \<Rightarrow> 'v omap" where
  "mm_insert k v l = takeWhile (\<lambda>e. fst e \<le> k) l @ (k, v) # dropWhile (\<lambda>e. fst e \<le> k) l"

fun mm_find :: "string \<Rightarrow> 'v omap \<Rightarrow> nat" where
  "mm_find k [] = 0"
| "mm_find k (e # l) = (if fst e = k then 0 else Suc (mm_find k l))"

section \<open>The interface\<close>

locale string_map =
  fixes inv :: "'m \<Rightarrow> bool"
    and empty :: 'm
    and find :: "string \<Rightarrow> 'm \<Rightarrow> 'v option"
    and assign :: "string \<Rightarrow> 'v \<Rightarrow> 'm \<Rightarrow> 'm"
    and insert :: "string \<Rightarrow> 'v \<Rightarrow> 'm \<Rightarrow> 'm"
    and erase :: "string \<Rightarrow> 'm \<Rightarrow> 'm"
  assumes inv_empty: "inv empty" and find_empty: "find k empty = None"
    and inv_assign: "inv m \<Longrightarrow> inv (assign k v m)"
    and find_assign: "inv m \<Longrightarrow> find k' (assign k v m) = (if k' = k then Some v else find k' m)"
    and inv_insert: "inv m \<Longrightarrow> inv (insert k v m)"
    and find_insert: "inv m \<Longrightarrow> find k' (insert k v m) =
      (if k' = k \<and> find k m = None then Some v else find k' m)"
    and inv_erase: "inv m \<Longrightarrow> inv (erase k m)"
    and find_erase: "inv m \<Longrightarrow> find k' (erase k m) = (if k' = k then None else find k' m)"
    and find_ext: "inv m \<Longrightarrow> inv m' \<Longrightarrow> (\<And>k. find k m = find k m') \<Longrightarrow> m = m'"
begin

lemma assign_all:
  "inv m \<Longrightarrow> inv (fold (\<lambda>(k, v). assign k v) es m) \<and>
     find k (fold (\<lambda>(k, v). assign k v) es m) =
       (case map_of (rev es) k of Some v \<Rightarrow> Some v | None \<Rightarrow> find k m)"
  by (induction es arbitrary: m)
    (auto simp: inv_assign find_assign map_add_def split: option.splits)

lemma assign_commute:
  "inv m \<Longrightarrow> k \<noteq> k' \<Longrightarrow> assign k v (assign k' v' m) = assign k' v' (assign k v m)"
  by (rule find_ext) (auto simp: inv_assign find_assign)

lemma erase_assign: "inv m \<Longrightarrow> find k m = None \<Longrightarrow> erase k (assign k v m) = m"
  by (rule find_ext) (auto simp: inv_assign inv_erase find_assign find_erase)

lemma rebuild:
  "inv m \<Longrightarrow> (\<And>k. map_of (rev es) k = find k m) \<Longrightarrow> fold (\<lambda>(k, v). assign k v) es empty = m"
  using assign_all[OF inv_empty, of es]
  by (intro find_ext) (auto simp: find_empty split: option.splits)

end

section \<open>The sorted lists meet it\<close>

lemma fst_om_assign: "fst ` set (om_assign k v l) = insert k (fst ` set l)"
  by (induction k v l rule: om_assign.induct) auto

lemma om_assign_inv: "om_inv l \<Longrightarrow> om_inv (om_assign k v l)"
proof (induction k v l rule: om_assign.induct)
  case (2 k v k' v' l)
  have "\<forall>x \<in> fst ` set (om_assign k v l). k' < x" if "\<not> k < k'" "k \<noteq> k'"
    using that "2.prems" by (simp add: fst_om_assign om_inv_def)
  with 2 show ?case by (auto simp: om_inv_def)
qed (simp add: om_inv_def)

lemma om_assign_find: "om_inv l \<Longrightarrow> map_of (om_assign k v l) x = (if x = k then Some v else map_of l x)"
proof (induction k v l rule: om_assign.induct)
  case (2 k v k' v' l)
  then show ?case by (auto simp: om_inv_def)
qed simp

lemma om_inv_distinct: "om_inv l \<Longrightarrow> distinct (map fst l)"
  by (simp add: om_inv_def strict_sorted_iff)

lemma om_find_erase: "om_find x (om_erase k l) = (if x = k then None else om_find x l)"
  by (induction l) (auto simp: om_find_def om_erase_def)

lemma om_inv_erase: "om_inv l \<Longrightarrow> om_inv (om_erase k l)"
  by (induction l) (auto simp: om_inv_def om_erase_def)

lemma entries_of_map: "distinct (map fst l) \<Longrightarrow> l = map (\<lambda>k. (k, the (map_of l k))) (map fst l)"
  by (auto simp: comp_def intro!: map_idI[symmetric])

lemma om_ext:
  assumes "om_inv l" "om_inv l'" "\<And>k. om_find k l = om_find k l'"
  shows "l = l'"
proof -
  have eq: "map_of l = map_of l'" using assms(3) by (auto simp: om_find_def)
  then have "dom (map_of l) = dom (map_of l')" by simp
  then have "map fst l = map fst l'"
    using assms(1,2) strict_sorted_equal[of "map fst l" "map fst l'"] by (simp add: om_inv_def dom_map_of_conv_image_fst)
  then show ?thesis
    using entries_of_map[OF om_inv_distinct[OF assms(1)]] entries_of_map[OF om_inv_distinct[OF assms(2)]] eq
    by simp
qed

interpretation om: string_map om_inv "[]" om_find om_assign om_insert om_erase
proof unfold_locales
  show "om_inv []" by (simp add: om_inv_def)
  show "om_find k [] = None" for k by (simp add: om_find_def)
  show "om_inv (om_assign k v m)" if "om_inv m" for m :: "'a omap" and k v
    using that by (rule om_assign_inv)
  show "om_find k' (om_assign k v m) = (if k' = k then Some v else om_find k' m)" if "om_inv m"
    for m :: "'a omap" and k k' v
    using om_assign_find[OF that] by (simp add: om_find_def)
  show "om_inv (om_insert k v m)" if "om_inv m" for m :: "'a omap" and k v
    using that by (simp add: om_insert_def om_assign_inv split: option.split)
  show "om_find k' (om_insert k v m) = (if k' = k \<and> om_find k m = None then Some v else om_find k' m)"
    if "om_inv m" for m :: "'a omap" and k k' v
    using om_assign_find[OF that] by (simp add: om_insert_def om_find_def split: option.split)
  show "om_inv (om_erase k m)" if "om_inv m" for m :: "'a omap" and k using that by (rule om_inv_erase)
  show "om_find k' (om_erase k m) = (if k' = k then None else om_find k' m)" if "om_inv m"
    for m :: "'a omap" and k k' by (rule om_find_erase)
  show "m = m'" if "om_inv m" "om_inv m'" "\<And>k. om_find k m = om_find k m'" for m m' :: "'a omap"
    using that by (rule om_ext)
qed

text \<open>Reading all entries of a map back, in any order.\<close>

lemma om_rebuild:
  assumes "om_inv m" "mset es = mset m"
  shows "fold (\<lambda>(k, v). om_assign k v) es [] = m"
proof (rule om.rebuild[OF assms(1)])
  fix k
  have d: "distinct (map fst es)"
    using om_inv_distinct[OF assms(1)] arg_cong[OF assms(2), of "image_mset fst"]
    unfolding mset_map[symmetric] using mset_eq_imp_distinct_iff by blast
  then have "distinct (map fst (rev es))" unfolding rev_map[symmetric] distinct_rev .
  moreover have "set (rev es) = set m" using mset_eq_setD[OF assms(2)] by simp
  ultimately have "map_of (rev es) = map_of m"
    using map_of_inject_set[of "rev es" m] om_inv_distinct[OF assms(1)] by simp
  then show "map_of (rev es) k = om_find k m" by (simp add: om_find_def)
qed

section \<open>Multimaps\<close>

lemma mm_insert_inv: "mm_inv l \<Longrightarrow> mm_inv (mm_insert k v l)"
proof -
  assume l: "mm_inv l"
  have a: "\<forall>x \<in> set (takeWhile (\<lambda>e. fst e \<le> k) l). fst x \<le> k" by (auto dest: set_takeWhileD)
  have b: "\<forall>x \<in> set (dropWhile (\<lambda>e. fst e \<le> k) l). k \<le> fst x"
    using l
  proof (induction l)
    case (Cons e l)
    then show ?case by (auto simp: mm_inv_def)
  qed simp
  have "sorted (map fst (takeWhile (\<lambda>e. fst e \<le> k) l @ dropWhile (\<lambda>e. fst e \<le> k) l))"
    using l by (simp add: mm_inv_def)
  then have "sorted (map fst (takeWhile (\<lambda>e. fst e \<le> k) l))" "sorted (map fst (dropWhile (\<lambda>e. fst e \<le> k) l))"
    unfolding map_append sorted_append by blast+
  with a b show ?thesis by (fastforce simp: mm_inv_def mm_insert_def sorted_append)
qed

lemma mm_find_less: "mm_find k l < length l \<longleftrightarrow> k \<in> fst ` set l"
  by (induction l) (auto simp: image_iff)

lemma mm_find_key: "mm_find k l < length l \<Longrightarrow> fst (l ! mm_find k l) = k"
  by (induction l) auto

lemma mm_find_le: "mm_find k l \<le> length l"
  by (induction l) auto

lemma mset_mm_insert: "mset (mm_insert k v l) = add_mset (k, v) (mset l)"
  by (simp add: mm_insert_def) (metis mset_append takeWhile_dropWhile_id)

end
