(* ===== verification/Presence.thy ===== *)
theory Presence
  imports Buffer OrdMap Clock
begin

text \<open>
  The table of known nodes, \<open>cPresence\<close> (\<open>presence.h\<close>, \<open>presence.cpp\<close>). Nodes are never removed,
  so a node pointer is the key of the node. The dot renderer and the broadcast sockets are not
  modelled; \<open>asctime(localtime(t))\<close> is a parameter.
\<close>

datatype ePresenceStatus = PS_NOTSET | PS_AWAY | PS_ACTIVE | PS_BUSY

record cBroadcastTarget =
  m_BroadcastIPAddress :: string
  m_Port :: string
  m_bTCP :: bool
  m_bUseHTTP :: bool

record cNodeEntry =
  m_IPAddress :: string
  m_MachineName :: string
  m_MacAddress :: string
  m_Key :: string
  m_Services :: string
  m_LastConnect :: int
  m_TCPSocketHandle :: int
  m_status :: ePresenceStatus

record cPresence =
  m_HostKey :: string
  m_PresenceMap :: "cNodeEntry omap"
  m_PresenceBroadcast :: "cBroadcastTarget list"
  m_DotPath :: string
  m_DotFilesPath :: string
  m_HostIP :: string
  m_HostUDPPort :: string
  m_HostTCPPort :: string
  m_HostName :: string
  m_HostMac :: string
  m_Temp :: string
  m_PresenceDataBuffer :: string
  m_Buf :: cBuffer
  m_bRender :: bool

definition PRESENCE_TIMOUT :: int where "PRESENCE_TIMOUT = 60"

definition cPresence_new :: cPresence where
  "cPresence_new = \<lparr>m_HostKey = [], m_PresenceMap = [], m_PresenceBroadcast = [], m_DotPath = [],
     m_DotFilesPath = [], m_HostIP = [], m_HostUDPPort = [], m_HostTCPPort = [], m_HostName = [],
     m_HostMac = [], m_Temp = [], m_PresenceDataBuffer = [], m_Buf = cBuffer_new, m_bRender = False\<rparr>"

definition cPresence_SetDot :: "string \<Rightarrow> string \<Rightarrow> cPresence \<Rightarrow> cPresence" where
  "cPresence_SetDot path files p = p\<lparr>m_DotPath := path, m_DotFilesPath := files, m_bRender := True\<rparr>"

text \<open>\<open>%X\<close> of an \<open>unsigned int\<close>.\<close>

definition hex_digit :: "nat \<Rightarrow> char" where
  "hex_digit d = (if d < 10 then char_of (48 + d) else char_of (55 + d))"

fun show_hex :: "nat \<Rightarrow> string" where
  "show_hex n = (if n < 16 then [hex_digit n] else show_hex (n div 16) @ [hex_digit (n mod 16)])"

declare show_hex.simps [simp del]

definition cPresence_BuildKey :: "malloc \<Rightarrow> string \<Rightarrow> string \<Rightarrow> string \<Rightarrow> cPresence \<Rightarrow> (string \<times> cPresence) res" where
  "cPresence_BuildKey ml ip name mac p =
     bindE (cBuffer_ReplaceWith ml (Some (cstr (ip @ name @ mac))) (-1) (m_Buf p)) (\<lambda>(_, b).
     bindE (cBuffer_HashKey b) (\<lambda>key.
     bindE (cBuffer_Sprintf ml 32 (show_hex (unat key)) b) (\<lambda>(_, b).
     bindE (cBuffer_MakeString b) (\<lambda>b.
     bindE (cBuffer_cstr b) (\<lambda>(ptr, b).
     bindE (mem_get (deref ptr) 0 (cBuffer_StringLen b)) (\<lambda>s.
     Inr (s, p\<lparr>m_Temp := s, m_Buf := b\<rparr>)))))))"

definition cPresence_SetHostNode ::
    "malloc \<Rightarrow> string \<Rightarrow> string \<Rightarrow> string \<Rightarrow> string \<Rightarrow> string \<Rightarrow> cPresence \<Rightarrow> cPresence res" where
  "cPresence_SetHostNode ml ip udp tcp name mac p =
     (let p = p\<lparr>m_HostIP := ip, m_HostUDPPort := udp, m_HostTCPPort := tcp, m_HostName := name,
                m_HostMac := mac\<rparr> in
      bindE (cPresence_BuildKey ml ip name mac p) (\<lambda>(k, p). Inr (p\<lparr>m_HostKey := k\<rparr>)))"

text \<open>
  \<open>LOG(text)\<close> with a text as its only argument: \<open>cLog::Log\<close> formats it by \<open>vsprintf\<close>, so it is a format
  whose directives other than \<open>%%\<close> read arguments nobody passed, into a buffer of \<open>LOG_BUF_SZ\<close>
  bytes. With the display on (\<open>disp\<close>) \<open>Logprintf\<close> copies the result into a second buffer of that size,
  after the time and before a line end, and appends three dots to a long line. The file output is left
  out.
\<close>

fun printf_plain :: "string \<Rightarrow> string res" where
  "printf_plain [] = Inr []"
| "printf_plain (c # s) =
     (if c \<noteq> CHR ''%'' then bindE (printf_plain s) (\<lambda>t. Inr (c # t))
      else case s of
          [] \<Rightarrow> Inl MemFault
        | d # s' \<Rightarrow> if d = CHR ''%'' then bindE (printf_plain s') (\<lambda>t. Inr (CHR ''%'' # t)) else Inl MemFault)"

definition LOG_BUF_SZ :: nat where "LOG_BUF_SZ = 256000"

definition cLog_Log :: "bool \<Rightarrow> string \<Rightarrow> string res" where
  "cLog_Log disp s =
     bindE (printf_plain (c_prefix s)) (\<lambda>out.
     let iCnt = 13 + length out + 1 in
     if length out + 1 > LOG_BUF_SZ \<or> disp \<and> iCnt + (if iCnt > 256 then 4 else 1) > LOG_BUF_SZ then Inl MemFault
     else Inr out)"

lemma printf_plain_id: "CHR ''%'' \<notin> set s \<Longrightarrow> printf_plain s = Inr s"
  by (induction s) auto

lemma set_c_prefix: "set (c_prefix s) \<subseteq> set s"
  by (auto simp: c_prefix_def dest: set_takeWhileD)

lemma Log_plain:
  assumes "CHR ''%'' \<notin> set s" "length s < 255000"
  shows "cLog_Log disp s = Inr (c_prefix s)"
proof -
  have "CHR ''%'' \<notin> set (c_prefix s)" using assms(1) set_c_prefix by blast
  moreover have "length (c_prefix s) < 255000" using assms(2) length_takeWhile_le[of _ s] unfolding c_prefix_def
    by (rule le_less_trans[rotated])
  ultimately show ?thesis by (simp add: cLog_Log_def printf_plain_id LOG_BUF_SZ_def)
qed

definition adding_text :: "string \<Rightarrow> string \<Rightarrow> string \<Rightarrow> string \<Rightarrow> string" where
  "adding_text ip name mac services =
     ''Presence adding new: '' @ ip @ '' '' @ name @ '' '' @ mac @ '' '' @ services"

text \<open>A new node's socket handle is left uninitialised by the code; \<open>junk\<close> is what it holds.\<close>

definition cPresence_UpdateNode ::
    "malloc \<Rightarrow> bool \<Rightarrow> int \<Rightarrow> int \<Rightarrow> string \<Rightarrow> string \<Rightarrow> string \<Rightarrow> string \<Rightarrow> ePresenceStatus \<Rightarrow> cPresence \<Rightarrow>
       (string \<times> cPresence) res" where
  "cPresence_UpdateNode ml disp now junk ip name mac services status p =
     bindE (cPresence_BuildKey ml ip name mac p) (\<lambda>(key, p).
     bindE
       (case om_find key (m_PresenceMap p) of
          None \<Rightarrow>
            bindE (cLog_Log disp (adding_text ip name mac services)) (\<lambda>_.
            Inr (p\<lparr>m_PresenceMap := om_insert key
              \<lparr>m_IPAddress = ip, m_MachineName = name, m_MacAddress = mac, m_Key = key,
               m_Services = services, m_LastConnect = now, m_TCPSocketHandle = junk, m_status = status\<rparr>
              (m_PresenceMap p)\<rparr>))
        | Some e \<Rightarrow> Inr (p\<lparr>m_PresenceMap := om_assign key (e\<lparr>m_status := status, m_LastConnect := now\<rparr>)
            (m_PresenceMap p)\<rparr>)) (\<lambda>p.
     Inr (key, p\<lparr>m_Temp := key\<rparr>)))"

definition cPresence_DoUpdateNode :: "int \<Rightarrow> cPresence \<Rightarrow> cPresence" where
  "cPresence_DoUpdateNode current_time p =
     p\<lparr>m_PresenceMap := map (\<lambda>(k, e).
         (k, if m_LastConnect e + PRESENCE_TIMOUT < current_time then e\<lparr>m_status := PS_AWAY\<rparr> else e))
       (m_PresenceMap p)\<rparr>"

definition cPresence_AddBroadcastAddress :: "string \<Rightarrow> string \<Rightarrow> bool \<Rightarrow> bool \<Rightarrow> cPresence \<Rightarrow> cPresence" where
  "cPresence_AddBroadcastAddress ip port tcp http p =
     p\<lparr>m_PresenceBroadcast := m_PresenceBroadcast p @
         [\<lparr>m_BroadcastIPAddress = ip, m_Port = port, m_bTCP = tcp, m_bUseHTTP = http\<rparr>]\<rparr>"

definition cPresence_GetNodeFromKey :: "string \<Rightarrow> cPresence \<Rightarrow> cNodeEntry option" where
  "cPresence_GetNodeFromKey k p = om_find k (m_PresenceMap p)"

text \<open>
  The node list for the web console; \<open>act\<close> is \<open>asctime(localtime(t))\<close>, whose final newline is
  erased. The variable \<open>message\<close> lives outside the loop and keeps its text for a node whose status
  is not set.
\<close>

fun presence_rows :: "(int \<Rightarrow> string) \<Rightarrow> string \<Rightarrow> string \<Rightarrow> cNodeEntry omap \<Rightarrow> string" where
  "presence_rows act host message [] = []"
| "presence_rows act host message ((k, e) # es) =
     (if m_MachineName e = host then presence_rows act host message es
      else
        (let (mark, message) =
           (case m_status e of
              PS_AWAY \<Rightarrow> (''w|'', ''Node is currently away'')
            | PS_ACTIVE \<Rightarrow> (''a|'', ''Node is currently active'')
            | PS_BUSY \<Rightarrow> (''b|'', ''Node is currently busy'')
            | PS_NOTSET \<Rightarrow> ([], message));
           message = message @ ''. Services: '' @ m_Services e
         in mark @ butlast (act (m_LastConnect e)) @ ''|'' @ m_MachineName e @ ''|'' @ m_IPAddress e @ ''|'' @
            message @ ''~'' @ presence_rows act host message es))"

definition cPresence_GetPresenceData :: "(int \<Rightarrow> string) \<Rightarrow> cPresence \<Rightarrow> string \<times> cPresence" where
  "cPresence_GetPresenceData act p =
     (let s = presence_rows act (m_HostName p) [] (m_PresenceMap p)
      in (c_prefix s, p\<lparr>m_PresenceDataBuffer := s\<rparr>))"

section \<open>Keys\<close>

definition node_hash :: "string \<Rightarrow> 32 word" where
  "node_hash s = foldl (\<lambda>iHash c. push_bit 5 iHash + iHash + schar c) 0 s"

definition node_key :: "string \<Rightarrow> string" where
  "node_key s = show_hex (unat (node_hash s))"

lemma length_show_hex: "n < 16 ^ Suc k \<Longrightarrow> length (show_hex n) \<le> Suc k"
proof (induction k arbitrary: n)
  case 0
  then show ?case by (simp add: show_hex.simps[of n])
next
  case (Suc k)
  show ?case
  proof (cases "n < 16")
    case True
    then show ?thesis by (simp add: show_hex.simps[of n])
  next
    case False
    have "n div 16 < 16 ^ Suc k" using Suc.prems by (simp add: less_mult_imp_div_less)
    with Suc.IH[of "n div 16"] False show ?thesis by (simp add: show_hex.simps[of n])
  qed
qed

lemma hex_digit_NUL: "d < 16 \<Longrightarrow> hex_digit d \<noteq> NUL"
proof
  assume d: "d < 16" and "hex_digit d = NUL"
  then have "of_char (hex_digit d) = (0 :: nat)" by simp
  then show False using d by (auto simp: hex_digit_def split: if_splits)
qed

lemma show_hex_NUL: "NUL \<notin> set (show_hex n)"
proof (induction n rule: show_hex.induct)
  case (1 n)
  then show ?case using hex_digit_NUL[of n] hex_digit_NUL[of "n mod 16"]
    by (simp add: show_hex.simps[of n]) metis
qed

lemma length_node_key: "length (node_key s) \<le> 8"
proof -
  have "unat (node_hash s) < 16 ^ Suc 7" using unsigned_less[of "node_hash s"] by simp
  from length_show_hex[OF this] show ?thesis by (simp add: node_key_def)
qed

lemma NUL_node_key: "NUL \<notin> set (node_key s)"
  by (simp add: node_key_def show_hex_NUL)

lemma Sprintf_safe:
  assumes ml: "malloc_spec ml" and b: "buf_inv b" and n: "NUL \<notin> set out" "int (length out) < n"
  shows "safe_res ml (cBuffer_Sprintf ml n out b) (\<lambda>(k, b'). buf_inv b' \<and> buf_contents b' = out \<and>
    m_pBuffer b' \<noteq> None)"
  unfolding cBuffer_Sprintf_def
proof (rule safe_res_bindE[OF SetBufferSize_safe[OF ml b]])
  show "0 \<le> n" using n(2) by simp
next
  fix b' assume b': "buf_inv b' \<and> buf_contents b' = buf_contents b \<and> m_iTail b' = m_iTail b \<and>
    m_pBuffer b' \<noteq> None \<and> n < m_iBufferSize b'"
  then obtain blk where blk: "m_pBuffer b' = Some blk" by auto
  obtain t z where tz: "m_iTail b' = int t" "m_iBufferSize b' = int z" "t < z" "z \<le> length blk"
    using buf_inv_Some_nat[OF _ blk] b' by blast
  have len: "length out < z" using b' tz n(2) by linarith
  let ?blk = "out @ NUL # drop (Suc (length out)) (blk[t := NUL])"
  have put: "mem_put (blk[t := NUL]) 0 (cstr out) = Inr ?blk"
    using len tz by (subst mem_put_0) (simp_all add: cstr_def)
  have at: "cstr_at ?blk 0 = Inr out" using n(1) by (simp add: cstr_at_def c_prefix_append)
  let ?c = "b'\<lparr>m_pBuffer := Some ?blk, m_iTail := int (length out)\<rparr>"
  have "length ?blk = length blk" using len tz by simp
  then have c: "buf_inv ?c" "buf_contents ?c = out"
    using len tz by (simp_all add: buf_inv_def buf_contents_def)
  obtain b2 where b2: "cBuffer_MakeString ?c = Inr b2" "buf_inv b2" "buf_contents b2 = out" "m_pBuffer b2 \<noteq> None"
    using MakeString_ok[OF c(1)] c(2) by auto
  have cs: "cBuffer_cstr b' = Inr (Some (blk[t := NUL]), b'\<lparr>m_pBuffer := Some (blk[t := NUL])\<rparr>)"
    using tz blk by (simp add: cBuffer_cstr_def mem_ok)
  have "cBuffer_ReleaseBuffer (set_block ?blk (b'\<lparr>m_pBuffer := Some (blk[t := NUL])\<rparr>)) = Inr ?c"
    using at by (simp add: cBuffer_ReleaseBuffer_def set_block_def)
  with cs put b2 show "safe_res ml (bindE (cBuffer_cstr b') (\<lambda>(p, b). case p of None \<Rightarrow> Inr (0, b)
     | Some blk \<Rightarrow> bindE (mem_put blk 0 (cstr out)) (\<lambda>blk.
         bindE (cBuffer_ReleaseBuffer (set_block blk b)) (\<lambda>b.
         bindE (cBuffer_MakeString b) (\<lambda>b. Inr (cBuffer_StringLen b, b))))))
    (\<lambda>(k, b'). buf_inv b' \<and> buf_contents b' = out \<and> m_pBuffer b' \<noteq> None)"
    by simp
qed

lemma ReplaceWith_cstr_safe:
  assumes "malloc_spec ml" "buf_inv b" "NUL \<notin> set s"
  shows "safe_res ml (cBuffer_ReplaceWith ml (Some (cstr s)) (-1) b) (\<lambda>(rc, b').
    rc = BUFFER_NO_ERROR \<and> buf_inv b' \<and> buf_contents b' = s)"
  using ReplaceWith_safe[OF assms(1,2), of "length s" "cstr s"] assms(3)
  by (simp add: cBuffer_ReplaceWith_def arg_len_def cstr_at_cstr)

lemma cstr_get:
  assumes "buf_inv b" "m_pBuffer b \<noteq> None"
  shows "\<exists>p b'. cBuffer_cstr b = Inr (p, b') \<and> buf_inv b' \<and>
    mem_get (deref p) 0 (cBuffer_StringLen b') = Inr (buf_contents b)"
proof -
  obtain blk where blk: "m_pBuffer b = Some blk" using assms(2) by auto
  obtain t z where tz: "m_iTail b = int t" "m_iBufferSize b = int z" "t < z" "z \<le> length blk"
    using buf_inv_Some_nat[OF assms(1) blk] by blast
  then show ?thesis
    using blk by (auto simp: cBuffer_cstr_def mem_ok cBuffer_StringLen_def buf_inv_def buf_contents_def)
qed

lemma BuildKey_safe:
  assumes ml: "malloc_spec ml" and b: "buf_inv (m_Buf p)" and n: "NUL \<notin> set (ip @ name @ mac)"
  shows "safe_res ml (cPresence_BuildKey ml ip name mac p) (\<lambda>(k, p'). k = node_key (ip @ name @ mac) \<and>
    (\<exists>b. p' = p\<lparr>m_Temp := k, m_Buf := b\<rparr> \<and> buf_inv b))"
  unfolding cPresence_BuildKey_def
proof (rule safe_res_bindE[OF ReplaceWith_cstr_safe[OF ml b n]], clarify)
  fix b1 assume b1: "buf_inv b1" "buf_contents b1 = ip @ name @ mac"
  have h: "cBuffer_HashKey b1 = Inr (node_hash (ip @ name @ mac))"
    by (simp only: cBuffer_HashKey_def get_contents[OF b1(1)] b1(2) bindE.simps node_hash_def)
  let ?k = "node_key (ip @ name @ mac)"
  have k: "NUL \<notin> set ?k" "int (length ?k) < 32" using NUL_node_key length_node_key[of "ip @ name @ mac"] by auto
  show "safe_res ml (bindE (cBuffer_HashKey b1) (\<lambda>key.
     bindE (cBuffer_Sprintf ml 32 (show_hex (unat key)) b1) (\<lambda>(_, b).
     bindE (cBuffer_MakeString b) (\<lambda>b. bindE (cBuffer_cstr b) (\<lambda>(ptr, b).
     bindE (mem_get (deref ptr) 0 (cBuffer_StringLen b)) (\<lambda>s. Inr (s, p\<lparr>m_Temp := s, m_Buf := b\<rparr>)))))))
    (\<lambda>(k, p'). k = ?k \<and> (\<exists>b. p' = p\<lparr>m_Temp := k, m_Buf := b\<rparr> \<and> buf_inv b))"
    unfolding h bindE.simps node_key_def[symmetric]
  proof (rule safe_res_bindE[OF Sprintf_safe[OF ml b1(1) k]], clarify)
    fix b2 y assume b2: "buf_inv b2" "buf_contents b2 = ?k" "m_pBuffer b2 = Some y"
    obtain b3 where b3: "cBuffer_MakeString b2 = Inr b3" "buf_inv b3" "buf_contents b3 = ?k" "m_pBuffer b3 \<noteq> None"
      using MakeString_ok[OF b2(1)] b2 by auto
    from cstr_get[OF b3(2,4)] b3(1,3)
    show "safe_res ml (bindE (cBuffer_MakeString b2) (\<lambda>b. bindE (cBuffer_cstr b) (\<lambda>(ptr, b).
       bindE (mem_get (deref ptr) 0 (cBuffer_StringLen b)) (\<lambda>s. Inr (s, p\<lparr>m_Temp := s, m_Buf := b\<rparr>)))))
      (\<lambda>(k, p'). k = ?k \<and> (\<exists>b. p' = p\<lparr>m_Temp := k, m_Buf := b\<rparr> \<and> buf_inv b))"
      by auto
  qed
qed

section \<open>Properties\<close>

definition presence_inv :: "cPresence \<Rightarrow> bool" where
  "presence_inv p \<longleftrightarrow> om_inv (m_PresenceMap p) \<and> buf_inv (m_Buf p) \<and>
     (\<forall>k e. om_find k (m_PresenceMap p) = Some e \<longrightarrow> m_Key e = k)"

lemma presence_inv_new: "presence_inv cPresence_new"
  by (simp add: presence_inv_def cPresence_new_def om.inv_empty om.find_empty)

text \<open>
  (C38) A presence update of a node returns its key and leaves the node in the table with the given
  status and the current time, keeps every other node, and keeps the table's invariant (keys in
  order, each node stored under its own key). The key is the hash of the concatenated address, name
  and hardware address, so two nodes whose parts concatenate to the same text share one entry: for
  those the second update keeps the first node's address and name. The texts must hold no percent sign
  and fit into the log's buffer, because a new node is logged with them as the format.
\<close>

theorem presence_update:
  assumes ml: "malloc_total ml" and inv: "presence_inv p" and n: "NUL \<notin> set (ip @ name @ mac)"
    and pl: "CHR ''%'' \<notin> set (ip @ name @ mac @ services)" "length (ip @ name @ mac @ services) < 250000"
  shows "\<exists>p' e. cPresence_UpdateNode ml disp now junk ip name mac services status p = Inr (node_key (ip @ name @ mac), p') \<and>
    presence_inv p' \<and> cPresence_GetNodeFromKey (node_key (ip @ name @ mac)) p' = Some e \<and>
    m_status e = status \<and> m_LastConnect e = now \<and>
    (\<forall>k. k \<noteq> node_key (ip @ name @ mac) \<longrightarrow> cPresence_GetNodeFromKey k p' = cPresence_GetNodeFromKey k p) \<and>
    (case cPresence_GetNodeFromKey (node_key (ip @ name @ mac)) p of
       None \<Rightarrow> m_IPAddress e = ip \<and> m_MachineName e = name
     | Some old \<Rightarrow> m_IPAddress e = m_IPAddress old \<and> m_MachineName e = m_MachineName old)"
proof -
  let ?k = "node_key (ip @ name @ mac)"
  have i: "om_inv (m_PresenceMap p)" "buf_inv (m_Buf p)" using inv by (simp_all add: presence_inv_def)
  obtain b where b: "cPresence_BuildKey ml ip name mac p = Inr (?k, p\<lparr>m_Temp := ?k, m_Buf := b\<rparr>)" "buf_inv b"
    using safe_res_total[OF BuildKey_safe[OF malloc_total_spec[OF ml] i(2) n] ml] by auto
  have "cLog_Log disp (adding_text ip name mac services) = Inr (c_prefix (adding_text ip name mac services))"
    by (rule Log_plain) (use pl in \<open>auto simp: adding_text_def\<close>)
  note b = b this
  show ?thesis
  proof (cases "om_find ?k (m_PresenceMap p)")
    case None
    with b inv i show ?thesis
      by (auto simp: cPresence_UpdateNode_def cPresence_GetNodeFromKey_def presence_inv_def
          om.inv_insert om.find_insert)
  next
    case (Some e)
    with b inv i show ?thesis
      by (auto simp: cPresence_UpdateNode_def cPresence_GetNodeFromKey_def presence_inv_def
          om.inv_assign om.find_assign)
  qed
qed

theorem presence_update_witness:
  "\<exists>p' e. cPresence_UpdateNode zero_malloc True 100 0 ''10.0.0.1'' ''hal'' ''00'' [] PS_ACTIVE cPresence_new =
      Inr (node_key (''10.0.0.1'' @ ''hal'' @ ''00''), p') \<and>
    cPresence_GetNodeFromKey (node_key (''10.0.0.1'' @ ''hal'' @ ''00'')) p' = Some e \<and> m_LastConnect e = 100"
  using presence_update[OF malloc_total_zero presence_inv_new, of "''10.0.0.1''" "''hal''" "''00''" "[]" True 100 0 PS_ACTIVE]
  by auto

text \<open>A peer that is not known yet and sends a name with a directive in it makes the log read an argument
  that was not passed.\<close>

theorem presence_format_fault:
  assumes ml: "malloc_total ml" and inv: "presence_inv p"
    and n: "NUL \<notin> set (ip @ (u @ CHR ''%'' # d # v) @ mac)" "CHR ''%'' \<notin> set (ip @ u)" "d \<noteq> CHR ''%''"
    and new: "cPresence_GetNodeFromKey (node_key (ip @ (u @ CHR ''%'' # d # v) @ mac)) p = None"
  shows "cPresence_UpdateNode ml disp now junk ip (u @ CHR ''%'' # d # v) mac services status p = Inl MemFault"
proof -
  let ?n = "u @ CHR ''%'' # d # v"
  let ?k = "node_key (ip @ ?n @ mac)"
  have i: "buf_inv (m_Buf p)" using inv by (simp add: presence_inv_def)
  obtain b where b: "cPresence_BuildKey ml ip ?n mac p = Inr (?k, p\<lparr>m_Temp := ?k, m_Buf := b\<rparr>)"
    using safe_res_total[OF BuildKey_safe[OF malloc_total_spec[OF ml] i n(1)] ml] by auto
  have f: "printf_plain (x @ CHR ''%'' # d # y) = Inl MemFault" if "CHR ''%'' \<notin> set x" for x y
    using that n(3) by (induction x) auto
  have pre: "c_prefix (x @ y) = x @ c_prefix y" if "NUL \<notin> set x" for x y
    using that by (induction x) (auto simp: c_prefix_def)
  let ?x = "''Presence adding new: '' @ ip @ '' '' @ u"
  have "adding_text ip ?n mac services = (?x @ [CHR ''%'', d]) @ v @ '' '' @ mac @ '' '' @ services"
    by (simp add: adding_text_def)
  moreover have "NUL \<notin> set (?x @ [CHR ''%'', d])" using n(1) by auto
  ultimately have "c_prefix (adding_text ip ?n mac services) =
      ?x @ CHR ''%'' # d # c_prefix (v @ '' '' @ mac @ '' '' @ services)"
    using pre[of "?x @ [CHR ''%'', d]"] by simp
  moreover have "CHR ''%'' \<notin> set ?x" using n(2) by auto
  ultimately have "cLog_Log disp (adding_text ip ?n mac services) = Inl MemFault"
    using f[of ?x] by (simp add: cLog_Log_def)
  then show ?thesis using b new by (simp add: cPresence_UpdateNode_def cPresence_GetNodeFromKey_def)
qed

text \<open>
  The presence time-out: after \<open>DoUpdateNode\<close> exactly the nodes not heard of for more than
  sixty seconds have been set to away, every other node keeps its status, and nothing else of any
  node changes.
\<close>

theorem presence_timeout:
  "cPresence_GetNodeFromKey k (cPresence_DoUpdateNode now p) =
     map_option (\<lambda>e. if now - m_LastConnect e > 60 then e\<lparr>m_status := PS_AWAY\<rparr> else e)
       (cPresence_GetNodeFromKey k p)"
proof -
  have "map_of (map (\<lambda>(k, e). (k, f e)) l) k = map_option f (map_of l k)" for f and l :: "cNodeEntry omap"
    by (induction l) auto
  then show ?thesis
    by (auto simp: cPresence_GetNodeFromKey_def cPresence_DoUpdateNode_def om_find_def PRESENCE_TIMOUT_def
        algebra_simps cong: option.map_cong)
qed

end
