(* ===== verification/PrioQueue.thy ===== *)
theory PrioQueue
  imports Msg "HOL-Library.Multiset"
begin

text \<open>
  \<open>std::priority_queue\<close> with the comparison \<open>cMsgPriorityComp\<close> (\<open>msgprioritycomp.h\<close>). The
  standard leaves open which of several greatest elements is on top, so the model does too: the
  queue is the list of its elements, and \<open>pq_top\<close> says whether a position may be the top. The
  functions that pop take the position as an argument, and their properties hold for every
  admissible one.

  The interface, a locale, is what the clients rely on: a push adds one element, a pop removes an
  element of greatest priority. Draining a queue therefore visits its elements in the order of
  decreasing priority, each exactly once.
\<close>

text \<open>\<open>cMsgPriorityComp\<close>: less important.\<close>

definition cMsgPriorityComp :: "cMsg \<Rightarrow> cMsg \<Rightarrow> bool" where
  "cMsgPriorityComp left right \<longleftrightarrow> cMsg_GetMsgPriority left < cMsg_GetMsgPriority right"

definition pq_push :: "'a \<Rightarrow> 'a list \<Rightarrow> 'a list" where
  "pq_push x q = q @ [x]"

definition pq_top :: "('a \<Rightarrow> 'a \<Rightarrow> bool) \<Rightarrow> 'a list \<Rightarrow> nat \<Rightarrow> bool" where
  "pq_top lt q i \<longleftrightarrow> i < length q \<and> (\<forall>y \<in> set q. \<not> lt (q ! i) y)"

definition pq_remove :: "nat \<Rightarrow> 'a list \<Rightarrow> 'a list" where
  "pq_remove i q = take i q @ drop (Suc i) q"

definition pq_pop :: "('a \<Rightarrow> 'a \<Rightarrow> bool) \<Rightarrow> 'a list \<Rightarrow> 'a \<Rightarrow> 'a list \<Rightarrow> bool" where
  "pq_pop lt q x q' \<longleftrightarrow> (\<exists>i. pq_top lt q i \<and> x = q ! i \<and> q' = pq_remove i q)"

text \<open>A sequence of pops that empties a queue.\<close>

inductive drains :: "(('a \<Rightarrow> 'a \<Rightarrow> bool) \<Rightarrow> 'q \<Rightarrow> 'a \<Rightarrow> 'q \<Rightarrow> bool) \<Rightarrow> ('a \<Rightarrow> 'a \<Rightarrow> bool) \<Rightarrow> 'q \<Rightarrow> 'a list \<Rightarrow> 'q \<Rightarrow> bool"
  for pop :: "('a \<Rightarrow> 'a \<Rightarrow> bool) \<Rightarrow> 'q \<Rightarrow> 'a \<Rightarrow> 'q \<Rightarrow> bool" and lt :: "'a \<Rightarrow> 'a \<Rightarrow> bool" where
  drains_refl: "drains pop lt q [] q"
| drains_pop: "pop lt q x q1 \<Longrightarrow> drains pop lt q1 xs q2 \<Longrightarrow> drains pop lt q (x # xs) q2"

inductive_cases drains_ConsE: "drains pop lt q (x # xs) q'"

locale prio_queue =
  fixes elems :: "'q \<Rightarrow> 'a multiset"
    and push :: "'a \<Rightarrow> 'q \<Rightarrow> 'q"
    and pop :: "('a \<Rightarrow> 'a \<Rightarrow> bool) \<Rightarrow> 'q \<Rightarrow> 'a \<Rightarrow> 'q \<Rightarrow> bool"
  assumes elems_push: "elems (push x q) = add_mset x (elems q)"
    and pop_elems: "pop lt q x q' \<Longrightarrow> elems q = add_mset x (elems q')"
    and pop_greatest: "pop lt q x q' \<Longrightarrow> y \<in># elems q \<Longrightarrow> \<not> lt x y"
    and pop_exists: "elems q \<noteq> {#} \<Longrightarrow> asymp lt \<Longrightarrow> transp lt \<Longrightarrow> \<exists>x q'. pop lt q x q'"
begin

lemma drains_elems: "drains pop lt q xs q' \<Longrightarrow> elems q = mset xs + elems q'"
  by (induction rule: drains.induct) (auto dest: pop_elems)

lemma drains_sorted: "drains pop lt q xs q' \<Longrightarrow> sorted_wrt (\<lambda>x y. \<not> lt x y) xs"
proof (induction rule: drains.induct)
  case (drains_pop q x q1 xs q2)
  have "y \<in># elems q" if "y \<in> set xs" for y
    using that drains_elems[OF drains_pop.hyps(2)] pop_elems[OF drains_pop.hyps(1)] by auto
  with pop_greatest[OF drains_pop.hyps(1)] drains_pop.IH show ?case by auto
qed simp

lemma can_drain:
  assumes "asymp lt" "transp lt"
  shows "\<exists>xs q'. drains pop lt q xs q' \<and> elems q' = {#}"
proof (induction "size (elems q)" arbitrary: q)
  case 0
  then show ?case using drains_refl by fastforce
next
  case (Suc n)
  then obtain x q1 where 1: "pop lt q x q1" using pop_exists[OF _ assms, of q] by force
  with pop_elems[OF 1] Suc obtain xs q' where "drains pop lt q1 xs q'" "elems q' = {#}"
    by (metis add_Suc_right add_left_cancel plus_1_eq_Suc size_add_mset)
  with 1 drains_pop show ?case by metis
qed

end

section \<open>The list model meets the interface\<close>

lemma mset_pq_remove: "i < length q \<Longrightarrow> mset q = add_mset (q ! i) (mset (pq_remove i q))"
  by (subst id_take_nth_drop[of i q]) (simp_all add: pq_remove_def)

lemma pq_top_exists:
  assumes "q \<noteq> []" "asymp lt" "transp lt"
  shows "\<exists>i. pq_top lt q i"
  using assms(1)
proof (induction q)
  case (Cons x q)
  show ?case
  proof (cases "q = []")
    case True
    then show ?thesis using assms(2) by (auto simp: pq_top_def asymp_on_def intro!: exI[of _ 0])
  next
    case False
    with Cons obtain i where i: "i < length q" "\<forall>y \<in> set q. \<not> lt (q ! i) y" by (auto simp: pq_top_def)
    show ?thesis
    proof (cases "lt (q ! i) x")
      case True
      then have "\<forall>y \<in> set (x # q). \<not> lt x y"
        using i assms(2,3) by (auto dest: asympD transpD)
      then show ?thesis by (intro exI[of _ 0]) (simp add: pq_top_def)
    next
      case False
      with i show ?thesis by (intro exI[of _ "Suc i"]) (auto simp: pq_top_def)
    qed
  qed
qed simp

interpretation pq: prio_queue mset pq_push pq_pop
proof unfold_locales
  show "mset (pq_push x q) = add_mset x (mset q)" for x and q :: "'a list"
    by (simp add: pq_push_def)
  show "mset q = add_mset x (mset q')" if "pq_pop lt q x q'" for lt and q :: "'a list" and x q'
    using that mset_pq_remove by (auto simp: pq_pop_def pq_top_def)
  show "\<not> lt x y" if "pq_pop lt q x q'" "y \<in># mset q" for lt and q :: "'a list" and x q' y
    using that by (auto simp: pq_pop_def pq_top_def)
  show "\<exists>x q'. pq_pop lt q x q'" if "mset q \<noteq> {#}" "asymp lt" "transp lt" for lt and q :: "'a list"
    using that pq_top_exists[of q lt] by (auto simp: pq_pop_def)
qed

lemma set_pq_remove:
  assumes "i < length q" "distinct q"
  shows "set (pq_remove i q) = set q - {q ! i}"
proof -
  have q: "q = take i q @ q ! i # drop (Suc i) q" by (rule id_take_nth_drop[OF assms(1)])
  with assms(2) have "q ! i \<notin> set (take i q) \<union> set (drop (Suc i) q)"
    by (metis Un_iff distinct.simps(2) distinct_append not_distinct_conv_prefix disjoint_iff list.set_intros(1))
  then show ?thesis using arg_cong[OF q, of set] by (auto simp: pq_remove_def)
qed

lemma distinct_pq_remove: "distinct q \<Longrightarrow> distinct (pq_remove i q)"
  by (auto simp: pq_remove_def distinct_take distinct_drop dest: set_take_disj_set_drop_if_distinct[of q i "Suc i"])

end
