(* ===== verification/Handlers.thy ===== *)
theory Handlers
  imports PrioQueue
begin

text \<open>
  Command handlers: the factory \<open>cCommandHandlerFactory\<close> (\<open>commandhandlerfactory.cpp\<close>) that finds
  the handler of a command, and the decorator \<open>cCommandHandlerDecorator\<close>
  (\<open>commandhandlerdecorator.cpp\<close>) that queues the messages of one handler. A decorator is referred
  to only through the factory's map, so the pointers the factory returns are keys of that map.

  The handlers themselves are plug-ins behind the interface \<open>cICommandHandler\<close>; here a handler is
  its address.
\<close>

type_synonym handler_addr = nat

record cCommandHandlerDecorator =
  m_pICommandHandler :: handler_addr
  m_jobQueue :: "msg_addr list"

definition cCommandHandlerDecorator_new :: "handler_addr \<Rightarrow> cCommandHandlerDecorator" where
  "cCommandHandlerDecorator_new h = \<lparr>m_pICommandHandler = h, m_jobQueue = []\<rparr>"

definition cCommandHandlerDecorator_OnProcess ::
    "msg_addr \<Rightarrow> cCommandHandlerDecorator \<Rightarrow> cCommandHandlerDecorator" where
  "cCommandHandlerDecorator_OnProcess a d = d\<lparr>m_jobQueue := pq_push a (m_jobQueue d)\<rparr>"

text \<open>
  One turn of the decorator's thread: the message on top is given to the handler and popped when the
  handler has returned; meanwhile it stays in the queue. \<open>i\<close> is the position of the top, which the
  caller chooses among the admissible ones, \<open>OnProcess\<close> the handler, on a state of its own. The log
  output and \<open>OnChron\<close>, which the thread calls every second, are left out.
\<close>

definition cCommandHandlerDecorator_top :: "nat \<Rightarrow> cCommandHandlerDecorator \<Rightarrow> msg_addr option" where
  "cCommandHandlerDecorator_top i d = (if m_jobQueue d \<noteq> [] then Some (m_jobQueue d ! i) else None)"

definition cCommandHandlerDecorator_pop :: "nat \<Rightarrow> cCommandHandlerDecorator \<Rightarrow> cCommandHandlerDecorator" where
  "cCommandHandlerDecorator_pop i d = d\<lparr>m_jobQueue := pq_remove i (m_jobQueue d)\<rparr>"

definition cCommandHandlerDecorator_Run ::
    "nat \<Rightarrow> (handler_addr \<Rightarrow> msg_addr \<Rightarrow> 's \<Rightarrow> 's res) \<Rightarrow> cCommandHandlerDecorator \<Rightarrow> 's \<Rightarrow>
       (cCommandHandlerDecorator \<times> 's) res" where
  "cCommandHandlerDecorator_Run i OnProcess d s =
     (case cCommandHandlerDecorator_top i d of
        None \<Rightarrow> Inr (d, s)
      | Some a \<Rightarrow>
          bindE (OnProcess (m_pICommandHandler d) a s) (\<lambda>s.
          Inr (cCommandHandlerDecorator_pop i d, s)))"

type_synonym cCommandHandlerFactory = "string \<rightharpoonup> cCommandHandlerDecorator"

definition command_key :: "string \<Rightarrow> string" where
  "command_key sName =
     (case char_find sName (CHR ''.'') of None \<Rightarrow> sName | Some i \<Rightarrow> take i sName)"

definition cCommandHandlerFactory_GetCommandHandler ::
    "string \<Rightarrow> cCommandHandlerFactory \<Rightarrow> string option" where
  "cCommandHandlerFactory_GetCommandHandler pCommand f =
     (let k = c_prefix (command_key pCommand) in if f k = None then None else Some k)"

text \<open>\<open>insert\<close> does nothing when the key is present.\<close>

definition cCommandHandlerFactory_RegisterCommandHandler ::
    "string \<Rightarrow> handler_addr \<Rightarrow> cCommandHandlerFactory \<Rightarrow> cCommandHandlerFactory" where
  "cCommandHandlerFactory_RegisterCommandHandler pCommand h f =
     (if cCommandHandlerFactory_GetCommandHandler pCommand f \<noteq> None then f
      else if f pCommand = None then f(pCommand \<mapsto> cCommandHandlerDecorator_new h) else f)"

text \<open>A call \<open>pHandler->OnProcess(pIMsg)\<close> through the pointer the factory returned; a null pointer
  is a fault.\<close>

definition handler_OnProcess ::
    "string option \<Rightarrow> msg_addr \<Rightarrow> cCommandHandlerFactory \<Rightarrow> cCommandHandlerFactory res" where
  "handler_OnProcess h a f =
     (case h of
        None \<Rightarrow> Inl MemFault
      | Some k \<Rightarrow>
          (case f k of
             None \<Rightarrow> Inl MemFault
           | Some d \<Rightarrow> Inr (f(k \<mapsto> cCommandHandlerDecorator_OnProcess a d))))"

section \<open>Lemmas\<close>

lemma command_key_plain: "CHR ''.'' \<notin> set s \<Longrightarrow> command_key s = s"
  by (simp add: command_key_def char_find_None[THEN iffD2])

lemma command_key_dot: "CHR ''.'' \<notin> set s \<Longrightarrow> command_key (s @ CHR ''.'' # t) = s"
  by (simp add: command_key_def char_find_append)

lemma command_key_no_dot: "CHR ''.'' \<notin> set (command_key s)"
  by (auto simp: command_key_def char_find_None dest: char_find_Some split: option.splits)

lemma no_dot_c_prefix: "x \<in> set (c_prefix s) \<Longrightarrow> x \<in> set s"
  by (auto simp: c_prefix_def dest: set_takeWhileD)

section \<open>Properties\<close>

text \<open>
  Dispatch by command name: after a handler has been registered under a plain name that was
  free, every command \<open>name\<close> and \<open>name.verb\<close> is given to it, a second registration of the same
  name changes nothing, and commands of other names are found as before. A handler registered
  under a name with a dot, however, is found by no command at all.
\<close>

theorem command_dispatch:
  assumes "f name = None"
  shows "(NUL \<notin> set name \<and> CHR ''.'' \<notin> set name \<longrightarrow>
      (\<forall>verb. cCommandHandlerFactory_GetCommandHandler (name @ CHR ''.'' # verb)
           (cCommandHandlerFactory_RegisterCommandHandler name h f) = Some name) \<and>
      cCommandHandlerFactory_GetCommandHandler name
         (cCommandHandlerFactory_RegisterCommandHandler name h f) = Some name \<and>
      cCommandHandlerFactory_RegisterCommandHandler name h2
         (cCommandHandlerFactory_RegisterCommandHandler name h f) =
         cCommandHandlerFactory_RegisterCommandHandler name h f) \<and>
    (\<forall>c. c_prefix (command_key c) \<noteq> name \<longrightarrow>
       cCommandHandlerFactory_GetCommandHandler c (cCommandHandlerFactory_RegisterCommandHandler name h f) =
       cCommandHandlerFactory_GetCommandHandler c f) \<and>
    (CHR ''.'' \<in> set name \<longrightarrow>
       (\<forall>c. cCommandHandlerFactory_GetCommandHandler c (cCommandHandlerFactory_RegisterCommandHandler name h f) \<noteq>
          Some name))"
proof (intro conjI impI allI)
  assume n: "NUL \<notin> set name \<and> CHR ''.'' \<notin> set name"
  then have k: "command_key name = name" "c_prefix name = name"
    by (simp_all add: command_key_plain c_prefix_id)
  then have r: "cCommandHandlerFactory_RegisterCommandHandler name h f = f(name \<mapsto> cCommandHandlerDecorator_new h)"
    using assms by (simp add: cCommandHandlerFactory_RegisterCommandHandler_def
        cCommandHandlerFactory_GetCommandHandler_def Let_def)
  then show "cCommandHandlerFactory_GetCommandHandler (name @ CHR ''.'' # verb)
      (cCommandHandlerFactory_RegisterCommandHandler name h f) = Some name" for verb
    using n k by (simp add: cCommandHandlerFactory_GetCommandHandler_def command_key_dot)
  show g: "cCommandHandlerFactory_GetCommandHandler name
      (cCommandHandlerFactory_RegisterCommandHandler name h f) = Some name"
    using k by (simp add: r cCommandHandlerFactory_GetCommandHandler_def)
  show "cCommandHandlerFactory_RegisterCommandHandler name h2
      (cCommandHandlerFactory_RegisterCommandHandler name h f) =
      cCommandHandlerFactory_RegisterCommandHandler name h f"
    using g by (simp add: cCommandHandlerFactory_RegisterCommandHandler_def[of _ h2])
next
  fix c assume "c_prefix (command_key c) \<noteq> name"
  then show "cCommandHandlerFactory_GetCommandHandler c (cCommandHandlerFactory_RegisterCommandHandler name h f) =
      cCommandHandlerFactory_GetCommandHandler c f"
    by (simp add: cCommandHandlerFactory_GetCommandHandler_def
        cCommandHandlerFactory_RegisterCommandHandler_def Let_def)
next
  fix c assume "CHR ''.'' \<in> set name"
  moreover have "CHR ''.'' \<notin> set (c_prefix (command_key c))"
    using command_key_no_dot no_dot_c_prefix by blast
  ultimately show "cCommandHandlerFactory_GetCommandHandler c
      (cCommandHandlerFactory_RegisterCommandHandler name h f) \<noteq> Some name"
    by (auto simp: cCommandHandlerFactory_GetCommandHandler_def Let_def)
qed

theorem command_dispatch_witness:
  "cCommandHandlerFactory_GetCommandHandler ''ECHO.PING''
     (cCommandHandlerFactory_RegisterCommandHandler ''ECHO'' 1 Map.empty) = Some ''ECHO'' \<and>
   (\<forall>c. cCommandHandlerFactory_GetCommandHandler c
     (cCommandHandlerFactory_RegisterCommandHandler ''A.B'' 1 Map.empty) \<noteq> Some ''A.B'')"
proof -
  have "''ECHO.PING'' = ''ECHO'' @ CHR ''.'' # ''PING''" by simp
  then show ?thesis
    using command_dispatch[of Map.empty "''ECHO''" 1 1] command_dispatch[of Map.empty "''A.B''" 1 1] by auto
qed

end
