(* ===== verification/Service.thy ===== *)
theory Service
  imports Presence Handlers
begin

text \<open>
  The service directory \<open>cService\<close> (\<open>service.h\<close>, \<open>service.cpp\<close>): a multimap from service names to
  entries, with one iterator that the query functions share. Entries are heap objects that leave
  the directory as pointers, so the map holds addresses into a store; the iterator is the address
  of the entry it stands at, or the end. Incrementing the end iterator is \<open>BadIterator\<close>.
\<close>

record cServiceEntry =
  m_ServiceName :: string
  m_Version_Major :: int
  m_Version_Minor :: int
  m_Version_Revision :: int
  m_pHandler :: "handler_addr option"
  m_pNode :: "string option"
  m_bLocal :: bool
  m_bRemote :: bool

datatype siter = SAt service_addr | SEnd | SSingular

record cService =
  m_ServiceMap :: "service_addr omap"
  sv_it :: siter
  sv_heap :: "service_addr \<rightharpoonup> cServiceEntry"
  sv_next :: service_addr

definition cService_new :: cService where
  "cService_new = \<lparr>m_ServiceMap = [], sv_it = SSingular, sv_heap = Map.empty, sv_next = 0\<rparr>"

definition sv_pos :: "service_addr omap \<Rightarrow> siter" where
  "sv_pos l = (case l of [] \<Rightarrow> SEnd | e # _ \<Rightarrow> SAt (snd e))"

definition sv_deref :: "siter \<Rightarrow> service_addr option" where
  "sv_deref i = (case i of SAt a \<Rightarrow> Some a | _ \<Rightarrow> None)"

definition cService_QueryServiceFirst :: "string option \<Rightarrow> cService \<Rightarrow> service_addr option \<times> cService" where
  "cService_QueryServiceFirst pServiceName s =
     (let i = (case pServiceName of
                 None \<Rightarrow> sv_pos (m_ServiceMap s)
               | Some n \<Rightarrow> sv_pos (drop (mm_find n (m_ServiceMap s)) (m_ServiceMap s)))
      in (sv_deref i, s\<lparr>sv_it := i\<rparr>))"

definition cService_QueryServiceNext :: "cService \<Rightarrow> (service_addr option \<times> cService) res" where
  "cService_QueryServiceNext s =
     (case sv_it s of
        SAt a \<Rightarrow>
          (if a \<in> snd ` set (m_ServiceMap s) then
             (let i = sv_pos (tl (dropWhile (\<lambda>e. snd e \<noteq> a) (m_ServiceMap s)))
              in Inr (sv_deref i, s\<lparr>sv_it := i\<rparr>))
           else Inl BadIterator)
      | _ \<Rightarrow> Inl BadIterator)"

text \<open>Does the entry belong to the node with key \<open>k\<close>? The node pointer is the node's key.\<close>

definition of_node :: "string \<Rightarrow> cService \<Rightarrow> service_addr option \<Rightarrow> bool res" where
  "of_node k s p =
     (case p of
        None \<Rightarrow> Inr False
      | Some a \<Rightarrow>
          (case sv_heap s a of
             None \<Rightarrow> Inl MemFault
           | Some e \<Rightarrow> Inr (m_pNode e = Some k)))"

text \<open>The loop both remote operations search with: does it stop at an entry of the node?\<close>

fun node_loop :: "nat \<Rightarrow> string \<Rightarrow> service_addr option \<Rightarrow> cService \<Rightarrow> (service_addr option \<times> cService) res" where
  "node_loop 0 k p s = Inl Diverge"
| "node_loop (Suc n) k p s =
     bindE (of_node k s p) (\<lambda>found.
     if found then Inr (p, s)
     else
       bindE (cService_QueryServiceNext s) (\<lambda>(p, s).
       if p = None then Inr (None, s) else node_loop n k p s))"

definition node_search :: "string \<Rightarrow> string \<Rightarrow> cService \<Rightarrow> (service_addr option \<times> cService) res" where
  "node_search pNodeKey pServiceName s =
     (let (p, s) = cService_QueryServiceFirst (Some pServiceName) s
      in node_loop (Suc (length (m_ServiceMap s))) pNodeKey p s)"

definition sv_add :: "string \<Rightarrow> cServiceEntry \<Rightarrow> cService \<Rightarrow> cService" where
  "sv_add name e s =
     s\<lparr>m_ServiceMap := mm_insert name (sv_next s) (m_ServiceMap s),
       sv_heap := (sv_heap s)(sv_next s \<mapsto> e), sv_next := Suc (sv_next s)\<rparr>"

definition cService_RegisterRemoteService ::
    "string \<Rightarrow> string \<Rightarrow> int \<Rightarrow> int \<Rightarrow> int \<Rightarrow> bool \<Rightarrow> bool \<Rightarrow> int \<Rightarrow> cPresence \<Rightarrow> cService \<Rightarrow>
       (bool \<times> cPresence \<times> cService) res" where
  "cService_RegisterRemoteService pNodeKey pServiceName vmaj vmin vrev bLocal bRemote sock pr s =
     bindE (node_search pNodeKey pServiceName s) (\<lambda>(p, s).
     if p \<noteq> None then Inr (False, pr, s)
     else
       (case cPresence_GetNodeFromKey pNodeKey pr of
          None \<Rightarrow> Inl MemFault
        | Some node \<Rightarrow>
            Inr (True, pr\<lparr>m_PresenceMap := om_assign pNodeKey (node\<lparr>m_TCPSocketHandle := sock\<rparr>)
                           (m_PresenceMap pr)\<rparr>,
              sv_add pServiceName
                \<lparr>m_ServiceName = pServiceName, m_Version_Major = vmaj, m_Version_Minor = vmin,
                 m_Version_Revision = vrev, m_pHandler = None, m_pNode = Some pNodeKey,
                 m_bLocal = bLocal, m_bRemote = bRemote\<rparr> s)))"

definition cService_UnregisterRemoteService :: "string \<Rightarrow> string \<Rightarrow> cService \<Rightarrow> cService res" where
  "cService_UnregisterRemoteService pNodeKey pServiceName s =
     bindE (node_search pNodeKey pServiceName s) (\<lambda>(p, s).
     case p of
       None \<Rightarrow> Inr s
     | Some a \<Rightarrow>
         Inr (s\<lparr>m_ServiceMap := filter (\<lambda>e. snd e \<noteq> a) (m_ServiceMap s),
                sv_heap := (sv_heap s)(a := None)\<rparr>))"

text \<open>\<open>serviceName\<close> is \<open>pHandler->GetCommandName()\<close>.\<close>

definition cService_RegisterLocalService ::
    "string \<Rightarrow> handler_addr \<Rightarrow> bool \<Rightarrow> bool \<Rightarrow> cService \<Rightarrow> cService" where
  "cService_RegisterLocalService serviceName h bLocal bRemote s =
     (if mm_find serviceName (m_ServiceMap s) = length (m_ServiceMap s)
      then sv_add serviceName
             \<lparr>m_ServiceName = serviceName, m_Version_Major = 0, m_Version_Minor = 0,
              m_Version_Revision = 0, m_pHandler = Some h, m_pNode = None,
              m_bLocal = bLocal, m_bRemote = bRemote\<rparr> s
      else s)"

section \<open>Lemmas\<close>

definition service_inv :: "cService \<Rightarrow> bool" where
  "service_inv s \<longleftrightarrow> mm_inv (m_ServiceMap s) \<and> distinct (map snd (m_ServiceMap s)) \<and>
     (\<forall>(n, a) \<in> set (m_ServiceMap s). a < sv_next s \<and> (\<exists>e. sv_heap s a = Some e \<and> m_ServiceName e = n))"

lemma service_inv_new: "service_inv cService_new"
  by (simp add: service_inv_def cService_new_def mm_inv_def)

lemma service_inv_add:
  assumes "service_inv s" "m_ServiceName e = n"
  shows "service_inv (sv_add n e s)"
proof -
  have "mset (map snd (mm_insert n (sv_next s) (m_ServiceMap s))) =
      add_mset (sv_next s) (mset (map snd (m_ServiceMap s)))"
    by (simp only: mset_map mset_mm_insert image_mset_add_mset snd_conv)
  then have "mset (map snd (mm_insert n (sv_next s) (m_ServiceMap s))) =
      mset (sv_next s # map snd (m_ServiceMap s))" by simp
  moreover have "distinct (sv_next s # map snd (m_ServiceMap s))"
    using assms(1) by (auto simp: service_inv_def)
  ultimately have d: "distinct (map snd (mm_insert n (sv_next s) (m_ServiceMap s)))"
    using mset_eq_imp_distinct_iff by blast
  have m: "set (mm_insert n (sv_next s) (m_ServiceMap s)) = insert (n, sv_next s) (set (m_ServiceMap s))"
    using arg_cong[OF mset_mm_insert, of set_mset] by (simp only: set_mset_mset set_mset_add_mset_insert)
  show ?thesis
    using assms d mm_insert_inv[of "m_ServiceMap s"] by (auto simp: service_inv_def sv_add_def m)
qed

lemma query_first_found:
  assumes "service_inv s" "n \<in> fst ` set (m_ServiceMap s)"
  shows "\<exists>a e. fst (cService_QueryServiceFirst (Some n) s) = Some a \<and> sv_heap s a = Some e \<and> m_ServiceName e = n"
proof -
  let ?i = "mm_find n (m_ServiceMap s)" and ?l = "m_ServiceMap s"
  have i: "?i < length ?l" using assms(2) by (simp add: mm_find_less)
  then have "drop ?i ?l = ?l ! ?i # drop (Suc ?i) ?l" by (simp add: Cons_nth_drop_Suc)
  moreover have "?l ! ?i \<in> set ?l" "fst (?l ! ?i) = n" using i by (simp_all add: mm_find_key)
  ultimately show ?thesis
    using assms(1) by (fastforce simp: cService_QueryServiceFirst_def sv_pos_def sv_deref_def service_inv_def)
qed

lemma query_first_absent:
  assumes "n \<notin> fst ` set (m_ServiceMap s)"
  shows "cService_QueryServiceFirst (Some n) s = (None, s\<lparr>sv_it := SEnd\<rparr>)"
proof -
  have "mm_find n (m_ServiceMap s) = length (m_ServiceMap s)"
    using assms mm_find_less[of n "m_ServiceMap s"] mm_find_le[of n "m_ServiceMap s"] by linarith
  then show ?thesis by (simp add: cService_QueryServiceFirst_def sv_pos_def sv_deref_def)
qed

section \<open>Properties\<close>

text \<open>
  Local services: after a handler's service has been registered, a query for its name finds an
  entry of that name, and the invariant of the directory (entries in the order of their names, each
  alive and under its own name) is kept; a second registration of the name changes nothing.
\<close>

theorem local_service_found:
  assumes "service_inv s"
  shows "(\<exists>a e. fst (cService_QueryServiceFirst (Some n) (cService_RegisterLocalService n h l r s)) = Some a \<and>
      sv_heap (cService_RegisterLocalService n h l r s) a = Some e \<and> m_ServiceName e = n) \<and>
    service_inv (cService_RegisterLocalService n h l r s) \<and>
    cService_RegisterLocalService n h2 l2 r2 (cService_RegisterLocalService n h l r s) =
      cService_RegisterLocalService n h l r s"
proof -
  let ?s = "cService_RegisterLocalService n h l r s"
  have inv: "service_inv ?s" using assms by (simp add: cService_RegisterLocalService_def service_inv_add)
  have "n \<in> fst ` set (mm_insert n (sv_next s) (m_ServiceMap s))" by (simp add: mm_insert_def)
  then have mem: "n \<in> fst ` set (m_ServiceMap ?s)"
    using mm_find_less[of n "m_ServiceMap s"] mm_find_le[of n "m_ServiceMap s"]
    by (auto simp: cService_RegisterLocalService_def sv_add_def)
  then have "mm_find n (m_ServiceMap ?s) \<noteq> length (m_ServiceMap ?s)" using mm_find_less[of n "m_ServiceMap ?s"] by linarith
  then have "cService_RegisterLocalService n h2 l2 r2 ?s = ?s"
    by (simp add: cService_RegisterLocalService_def[of n h2])
  with inv query_first_found[OF inv mem] show ?thesis by blast
qed

theorem local_service_found_witness:
  "\<exists>a. fst (cService_QueryServiceFirst (Some ''LOGGER'')
      (cService_RegisterLocalService ''LOGGER'' 3 True True cService_new)) = Some a"
  using local_service_found[OF service_inv_new, of "''LOGGER''" 3 True True 4 True True] by blast

text \<open>
  Registering or unregistering a remote service whose name is not in the directory increments
  the end iterator: the search loop asks for the next entry although the first query already found
  none.
\<close>

theorem remote_service_past_end:
  assumes "n \<notin> fst ` set (m_ServiceMap s)"
  shows "cService_RegisterRemoteService k n vmaj vmin vrev l r sock pr s = Inl BadIterator \<and>
    cService_UnregisterRemoteService k n s = Inl BadIterator"
proof -
  have "node_search k n s = Inl BadIterator"
    by (simp add: node_search_def query_first_absent[OF assms] of_node_def cService_QueryServiceNext_def)
  then show ?thesis
    by (simp add: cService_RegisterRemoteService_def cService_UnregisterRemoteService_def)
qed

theorem remote_service_past_end_witness:
  "cService_RegisterRemoteService ''ABC'' ''ECHO'' 1 0 0 True True 5 cPresence_new cService_new = Inl BadIterator"
  using remote_service_past_end[of "''ECHO''" cService_new] by (simp add: cService_new_def)

text \<open>
  (C36) Unregistering looks at the node only, not at the service name: if the entry of service \<open>n1\<close>
  belongs to another node, unregistering \<open>n1\<close> for the node of the later service \<open>n2\<close> removes
  the entry of \<open>n2\<close>.
\<close>

theorem unregister_wrong_service:
  assumes "m_ServiceMap s = [(n1, a1), (n2, a2)]" and "a1 \<noteq> a2" and "n1 \<noteq> n2"
    and "sv_heap s a1 = Some e1" and "m_pNode e1 \<noteq> Some k"
    and "sv_heap s a2 = Some e2" and "m_pNode e2 = Some k"
  shows "\<exists>s'. cService_UnregisterRemoteService k n1 s = Inr s' \<and> m_ServiceMap s' = [(n1, a1)] \<and>
    sv_heap s' a2 = None"
  using assms
  by (simp add: cService_UnregisterRemoteService_def node_search_def cService_QueryServiceFirst_def sv_pos_def
      sv_deref_def of_node_def cService_QueryServiceNext_def)

theorem unregister_wrong_service_witness:
  "\<exists>s'. cService_UnregisterRemoteService ''k2'' ''a''
      (sv_add ''b'' \<lparr>m_ServiceName = ''b'', m_Version_Major = 0, m_Version_Minor = 0, m_Version_Revision = 0,
         m_pHandler = None, m_pNode = Some ''k2'', m_bLocal = False, m_bRemote = True\<rparr>
       (sv_add ''a'' \<lparr>m_ServiceName = ''a'', m_Version_Major = 0, m_Version_Minor = 0, m_Version_Revision = 0,
         m_pHandler = None, m_pNode = Some ''k1'', m_bLocal = False, m_bRemote = True\<rparr> cService_new)) = Inr s' \<and>
    m_ServiceMap s' = [(''a'', 0)]"
  by (rule exE[OF unregister_wrong_service[where k = "''k2''" and ?n1.0 = "''a''" and ?n2.0 = "''b''" and
        ?a1.0 = 0 and ?a2.0 = 1]])
    (auto simp: sv_add_def cService_new_def mm_insert_def)

end
