(* ===== verification/Url.thy ===== *)
theory Url
  imports Buffer
begin

text \<open>
  The URL codec \<open>cURL\<close> (\<open>url.h\<close>, \<open>url.cpp\<close>). Both operations write into an array of three times
  the size of their input and terminate it, and then take the result up to the first NUL. The
  encoder indexes its table of 255 strings with a plain (signed) \<open>char\<close>.

  Shown: encoding followed by decoding restores every NUL-free text of 7-bit characters with at
  least one letter or digit; without one the terminator is written behind the array, and a byte
  above 127 indexes in front of the table.
\<close>

definition m_pURLEncodeLookupTable :: "string list" where
  "m_pURLEncodeLookupTable = [
    ''%00'', ''%01'', ''%02'', ''%03'', ''%04'', ''%05'', ''%06'', ''%07'', ''%08'', ''%09'',
     ''%0A'', ''%0B'', ''%0C'', ''%0D'', ''%0E'', ''%0F'', ''%10'', ''%11'', ''%12'', ''%13'',
     ''%14'', ''%15'', ''%16'', ''%17'', ''%18'', ''%19'', ''%1A'', ''%1B'', ''%1C'', ''%1D'',
     ''%1E'', ''%1F'', ''%20'', ''%21'', ''%22'', ''%23'', ''%24'', ''%25'', ''%26'', ''%27'',
     ''%28'', ''%29'', ''%2A'', ''%2B'', ''%2C'', ''%2D'', ''%2E'', ''%2F'', [], [], [], [],
     [], [], [], [], [], [], ''%3A'', ''%3B'', ''%3C'', ''%3D'', ''%3E'', ''%3F'', ''%40'', [],
     [], [], [], [], [], [], [], [], [], [], [], [], [], [], [], [], [], [], [], [], [], [],
     [], [], [], ''%5B'', ''%5C'', ''%5D'', ''%5E'', ''%5F'', ''%60'', [], [], [], [], [], [],
     [], [], [], [], [], [], [], [], [], [], [], [], [], [], [], [], [], [], [], [], ''%7B'',
     ''%7C'', ''%7D'', ''%7E'', ''%7F'', ''%80'', ''%81'', ''%82'', ''%83'', ''%84'', ''%85'',
     ''%86'', ''%87'', ''%88'', ''%89'', ''%8A'', ''%8B'', ''%8C'', ''%8D'', ''%8E'', ''%8F'',
     ''%90'', ''%91'', ''%92'', ''%93'', ''%94'', ''%95'', ''%96'', ''%97'', ''%98'', ''%99'',
     ''%9A'', ''%9B'', ''%9C'', ''%9D'', ''%9E'', ''%9F'', ''%A0'', ''%A1'', ''%A2'', ''%A3'',
     ''%A4'', ''%A5'', ''%A6'', ''%A7'', ''%A8'', ''%A9'', ''%AA'', ''%AB'', ''%AC'', ''%AD'',
     ''%AE'', ''%AF'', ''%B0'', ''%B1'', ''%B2'', ''%B3'', ''%B4'', ''%B5'', ''%B6'', ''%B7'',
     ''%B8'', ''%B9'', ''%BA'', ''%BB'', ''%BC'', ''%BD'', ''%BE'', ''%BF'', ''%C0'', ''%C1'',
     ''%C2'', ''%C3'', ''%C4'', ''%C5'', ''%C6'', ''%C7'', ''%C8'', ''%C9'', ''%CA'', ''%CB'',
     ''%CC'', ''%CD'', ''%CE'', ''%CF'', ''%D0'', ''%D1'', ''%D2'', ''%D3'', ''%D4'', ''%D5'',
     ''%D6'', ''%D7'', ''%D8'', ''%D9'', ''%DA'', ''%DB'', ''%DC'', ''%DD'', ''%DE'', ''%DF'',
     ''%E0'', ''%E1'', ''%E2'', ''%E3'', ''%E4'', ''%E5'', ''%E6'', ''%E7'', ''%E8'', ''%E9'',
     ''%EA'', ''%EB'', ''%EC'', ''%ED'', ''%EE'', ''%EF'', ''%F0'', ''%F1'', ''%F2'', ''%F3'',
     ''%F4'', ''%F5'', ''%F6'', ''%F7'', ''%F8'', ''%F9'', ''%FA'', ''%FB'', ''%FC'', ''%FD'',
     ''%FE'']"

definition url_index :: "char \<Rightarrow> int" where
  "url_index c = sint (byte_of c)"

text \<open>What the loop of \<open>Encode\<close> stores for one character.\<close>

definition enc_char :: "char \<Rightarrow> string res" where
  "enc_char c =
     (let i = url_index c in
      if 0 \<le> i \<and> i < int (length m_pURLEncodeLookupTable) then
        (let p = m_pURLEncodeLookupTable ! nat i in
         if p = [] then Inr [c] else Inr (take 3 p))
      else Inl MemFault)"

fun enc_all :: "string \<Rightarrow> string res" where
  "enc_all [] = Inr []"
| "enc_all (c # cs) = bindE (enc_char c) (\<lambda>x. bindE (enc_all cs) (\<lambda>xs. Inr (x @ xs)))"

text \<open>Storing the output and its terminator in the new array, and reading the result back.\<close>

definition through_array :: "malloc \<Rightarrow> int \<Rightarrow> string \<Rightarrow> string res" where
  "through_array ml n out =
     bindE (do_malloc ml n) (\<lambda>buffer.
     bindE (mem_put buffer 0 out) (\<lambda>buffer.
     bindE (mem_write buffer (int (length out)) NUL) (\<lambda>buffer.
     cstr_at buffer 0)))"

definition cURL_Encode :: "malloc \<Rightarrow> string \<Rightarrow> string res" where
  "cURL_Encode ml sIn =
     bindE (enc_all sIn) (\<lambda>out. through_array ml (int (length sIn) * 3) out)"

definition isxdigit :: "char \<Rightarrow> bool" where
  "isxdigit c \<longleftrightarrow> is_digit c \<or> (97 \<le> (of_char c :: nat) \<and> (of_char c :: nat) \<le> 102) \<or>
     (65 \<le> (of_char c :: nat) \<and> (of_char c :: nat) \<le> 70)"

definition hex_value :: "char \<Rightarrow> int" where
  "hex_value c =
     (let b = sint (byte_of c) in
      if 48 \<le> b \<and> b \<le> 57 then b - 48
      else if 97 \<le> b \<and> b \<le> 102 then b - (97 - 10)
      else if 65 \<le> b \<and> b \<le> 70 then b - (65 - 10)
      else b)"

definition cURL_HexToInt :: "char \<Rightarrow> char \<Rightarrow> int" where
  "cURL_HexToInt hi lo = hex_value lo + 16 * hex_value hi"

text \<open>The loop of \<open>Decode\<close> over the C string of the input; a \<open>%\<close> that is not followed by two hex
  digits is dropped.\<close>

fun url_decode :: "string \<Rightarrow> string" where
  "url_decode [] = []"
| "url_decode (c # cs) =
     (if c = CHR ''%'' then
        (case cs of
           a # b # r \<Rightarrow>
             if isxdigit a \<and> isxdigit b then char_of_byte (word_of_int (cURL_HexToInt a b)) # url_decode r
             else url_decode cs
         | _ \<Rightarrow> url_decode cs)
      else if c = CHR ''+'' then CHR '' '' # url_decode cs
      else c # url_decode cs)"

definition cURL_Decode :: "malloc \<Rightarrow> string \<Rightarrow> string res" where
  "cURL_Decode ml sIn = through_array ml (int (length sIn) * 3) (url_decode (c_prefix sIn))"

section \<open>The table\<close>

definition upper_hex :: "nat \<Rightarrow> char" where
  "upper_hex d = (if d < 10 then char_of (48 + d) else char_of (55 + d))"

definition plain :: "nat \<Rightarrow> bool" where
  "plain n \<longleftrightarrow> 48 \<le> n \<and> n \<le> 57 \<or> 65 \<le> n \<and> n \<le> 90 \<or> 97 \<le> n \<and> n \<le> 122"

definition table_entry :: "nat \<Rightarrow> string" where
  "table_entry n = (if plain n then [] else [CHR ''%'', upper_hex (n div 16), upper_hex (n mod 16)])"

lemma table_length: "length m_pURLEncodeLookupTable = 255"
  by (simp add: m_pURLEncodeLookupTable_def)

lemma table_correct: "m_pURLEncodeLookupTable = map table_entry [0..<255]"
  by code_simp

section \<open>Encoding\<close>

definition ascii :: "char \<Rightarrow> bool" where
  "ascii c \<longleftrightarrow> (of_char c :: nat) < 128"

definition enc1 :: "char \<Rightarrow> string" where
  "enc1 c = (if plain (of_char c) then [c] else table_entry (of_char c))"

lemma sint_byte: "sint (byte_of c) = (if ascii c then int (of_char c) else int (of_char c) - 256)"
proof -
  have "unat (byte_of c) = of_char c" by simp
  then have u: "uint (byte_of c) = int (of_char c)" by (metis uint_nat)
  have b: "(of_char c :: nat) < 256" by (rule of_char_less_256)
  have "sint (byte_of c) = signed_take_bit 7 (uint (byte_of c))" by (simp add: sint_uint)
  also have "\<dots> = (if ascii c then int (of_char c) else int (of_char c) - 256)"
  proof (cases "ascii c")
    case True
    then show ?thesis unfolding u by (simp add: ascii_def signed_take_bit_int_eq_self_iff)
  next
    case False
    then have "int (of_char c) div 128 = 1" using b by (intro int_div_pos_eq[where r = "int (of_char c) - 128"]) (auto simp: ascii_def)
    then show ?thesis unfolding u using b False
      by (simp add: signed_take_bit_eq_take_bit_minus take_bit_int_eq_self bit_iff_odd)
  qed
  finally show ?thesis .
qed

lemma enc_char_ascii: "ascii c \<Longrightarrow> enc_char c = Inr (enc1 c)"
  by (simp add: enc_char_def url_index_def sint_byte table_length table_correct Let_def ascii_def enc1_def
      table_entry_def)

lemma enc_char_high: "\<not> ascii c \<Longrightarrow> enc_char c = Inl MemFault"
proof -
  assume "\<not> ascii c"
  then have "url_index c < 0"
    using of_char_less_256[of c] by (simp add: url_index_def sint_byte)
  then show ?thesis by (simp add: enc_char_def)
qed

lemma enc_all_ascii: "\<forall>c \<in> set s. ascii c \<Longrightarrow> enc_all s = Inr (concat (map enc1 s))"
  by (induction s) (simp_all add: enc_char_ascii)

lemma enc_all_high: "\<not> (\<forall>c \<in> set s. ascii c) \<Longrightarrow> enc_all s = Inl MemFault"
proof (induction s)
  case (Cons c s)
  then show ?case
    by (cases "ascii c") (auto simp: enc_char_ascii enc_char_high)
qed simp

lemma length_enc1: "length (enc1 c) \<le> 3" "plain (of_char c) \<Longrightarrow> length (enc1 c) = 1"
  "\<not> plain (of_char c) \<Longrightarrow> length (enc1 c) = 3"
  by (simp_all add: enc1_def table_entry_def)

lemma length_enc_le: "length (concat (map enc1 s)) \<le> 3 * length s"
  by (induction s) (auto simp: add_mono length_enc1(1))

lemma length_concat_ge: "(\<And>c. 1 \<le> length (f c)) \<Longrightarrow> length s \<le> length (concat (map f s))"
proof (induction s)
  case (Cons a s)
  from Cons.prems[of a] Cons.IH[OF Cons.prems] show ?case by simp
qed simp

lemma length_enc_less:
  "c \<in> set s \<Longrightarrow> plain (of_char c) \<Longrightarrow> length (concat (map enc1 s)) < 3 * length s"
proof (induction s)
  case (Cons a s)
  then show ?case
    using length_enc1(1)[of a] length_enc1(2)[of a] length_enc_le[of s] by (cases "a = c") auto
qed simp

lemma length_enc_eq:
  "\<forall>c \<in> set s. \<not> plain (of_char c) \<Longrightarrow> length (concat (map enc1 s)) = 3 * length s"
  by (induction s) (simp_all add: length_enc1(3))

lemma through_array_safe:
  assumes "malloc_spec ml" "0 \<le> n" "int (length out) < n"
  shows "safe_res ml (through_array ml n out) (\<lambda>r. r = c_prefix out)"
  unfolding through_array_def
proof (rule safe_res_bindE[OF do_malloc_safe[OF assms(1,2)]])
  fix blk :: block assume "length blk = nat n"
  then have "length out < length blk" using assms(3) by linarith
  then have "(out @ drop (length out) blk)[length out := NUL] = out @ NUL # drop (Suc (length out)) blk"
    by (simp add: list_update_append Cons_nth_drop_Suc[symmetric])
  with \<open>length out < length blk\<close>
  show "safe_res ml (bindE (mem_put blk 0 out) (\<lambda>buffer. bindE (mem_write buffer (int (length out)) NUL)
      (\<lambda>buffer. cstr_at buffer 0))) (\<lambda>r. r = c_prefix out)"
    by (simp add: mem_put_0 mem_write_ok cstr_at_def c_prefix_NUL)
qed

lemma through_array_overrun:
  assumes "malloc_total ml" "0 \<le> n" "n \<le> int (length out)"
  shows "through_array ml n out = Inl MemFault"
proof -
  obtain blk where blk: "do_malloc ml n = Inr blk" "length blk = nat n"
    using safe_res_total[OF do_malloc_safe[OF malloc_total_spec[OF assms(1)] assms(2)] assms(1)] by auto
  then have "mem_write b (int (length out)) NUL = Inl MemFault" if "length b = length blk" for b
    using that assms by (simp add: mem_write_def)
  moreover have "length b = length blk" if "mem_put blk 0 out = Inr b" for b
    using that by (rule mem_put_length)
  moreover have "e = MemFault" if "mem_put blk 0 out = Inl e" for e
    using that by (auto simp: mem_put_def split: if_splits)
  ultimately show ?thesis
    using blk(1) by (cases "mem_put blk 0 out") (simp_all add: through_array_def)
qed

section \<open>Decoding\<close>

lemma upper_hex: "d < 16 \<Longrightarrow> isxdigit (upper_hex d) \<and> hex_value (upper_hex d) = int d \<and> upper_hex d \<noteq> NUL"
proof -
  assume d: "d < 16"
  have o: "(of_char (upper_hex d) :: nat) = (if d < 10 then 48 + d else 55 + d)"
    using d by (simp add: upper_hex_def)
  then have "ascii (upper_hex d)" using d by (simp add: ascii_def)
  then have "sint (byte_of (upper_hex d)) = int (if d < 10 then 48 + d else 55 + d)"
    by (simp add: sint_byte o)
  moreover have "upper_hex d \<noteq> NUL" using o by (auto dest: arg_cong[where f = "of_char :: char \<Rightarrow> nat"] split: if_splits)
  ultimately show ?thesis
    using d o by (auto simp: isxdigit_def is_digit_def hex_value_def Let_def)
qed

lemma decode_enc1: "ascii c \<Longrightarrow> url_decode (enc1 c @ r) = c # url_decode r"
proof (cases "plain (of_char c)")
  case True
  then have "c \<noteq> CHR ''%''" "c \<noteq> CHR ''+''" by (auto simp: plain_def)
  with True show ?thesis by (simp add: enc1_def)
next
  case False
  let ?n = "of_char c :: nat"
  assume "ascii c"
  then have n: "?n div 16 < 16" "?n mod 16 < 16" by (simp_all add: ascii_def)
  have "cURL_HexToInt (upper_hex (?n div 16)) (upper_hex (?n mod 16)) = int (?n mod 16 + 16 * (?n div 16))"
    using upper_hex[OF n(1)] upper_hex[OF n(2)]
    by (simp only: cURL_HexToInt_def of_nat_add of_nat_mult of_nat_numeral)
  then have "cURL_HexToInt (upper_hex (?n div 16)) (upper_hex (?n mod 16)) = int ?n"
    by (simp only: mod_mult_div_eq)
  then show ?thesis
    using False upper_hex[OF n(1)] upper_hex[OF n(2)]
    by (simp add: enc1_def table_entry_def) (simp flip: byte_of_def)
qed

lemma decode_enc: "\<forall>c \<in> set s. ascii c \<Longrightarrow> url_decode (concat (map enc1 s)) = s"
  by (induction s) (simp_all add: decode_enc1)

lemma NUL_enc: "\<forall>c \<in> set s. ascii c \<Longrightarrow> NUL \<notin> set (concat (map enc1 s))"
proof -
  assume a: "\<forall>c \<in> set s. ascii c"
  have "NUL \<notin> set (enc1 c)" if c: "c \<in> set s" for c
  proof -
    have n: "of_char c div 16 < (16 :: nat)" "of_char c mod 16 < (16 :: nat)"
      using a c by (auto simp: ascii_def)
    have "\<not> plain (of_char NUL)" by (simp add: plain_def)
    with upper_hex[OF n(1)] upper_hex[OF n(2)] show ?thesis by (auto simp: enc1_def table_entry_def)
  qed
  then show ?thesis by auto
qed

section \<open>Properties\<close>

text \<open>
  (C30) The URL codec round trips: a NUL-free text of 7-bit characters with at least one letter or
  digit is encoded without leaving the array, the code consists of letters, digits and \<open>%\<close>
  escapes only, and decoding restores the text.
\<close>

theorem url_roundtrip:
  assumes "malloc_total ml" and "\<forall>c \<in> set s. ascii c" and "NUL \<notin> set s"
    and "\<exists>c \<in> set s. plain (of_char c)"
  shows "\<exists>t. cURL_Encode ml s = Inr t \<and> cURL_Decode ml t = Inr s \<and> length t < 3 * length s \<and>
    (\<forall>c \<in> set t. plain (of_char c) \<or> c = CHR ''%'')"
proof -
  let ?t = "concat (map enc1 s)"
  have len: "length ?t < 3 * length s" using assms(4) length_enc_less by blast
  have t: "c_prefix ?t = ?t" by (rule c_prefix_id[OF NUL_enc[OF assms(2)]])
  have e: "cURL_Encode ml s = Inr ?t"
    using safe_res_total[OF through_array_safe[OF malloc_total_spec[OF assms(1)], of "int (length s) * 3" ?t] assms(1)]
      len t by (simp add: cURL_Encode_def enc_all_ascii[OF assms(2)])
  have "s \<noteq> []" using assms(4) by auto
  moreover have "1 \<le> length (enc1 c)" for c by (simp add: enc1_def table_entry_def)
  then have "length s \<le> length ?t" by (rule length_concat_ge)
  ultimately have l: "int (length s) < int (length ?t) * 3" by (cases s) auto
  have d: "cURL_Decode ml ?t = Inr s"
    using safe_res_total[OF through_array_safe[OF malloc_total_spec[OF assms(1)], of "int (length ?t) * 3" s] assms(1)]
      l by (simp add: cURL_Decode_def t decode_enc[OF assms(2)] c_prefix_id[OF assms(3)])
  have hex: "plain (of_char (upper_hex d))" if "d < 16" for d using that by (simp add: plain_def upper_hex_def)
  have "plain (of_char x) \<or> x = CHR ''%''" if "x \<in> set ?t" for x
    using that assms(2) hex by (fastforce simp: enc1_def table_entry_def ascii_def split: if_splits)
  with e d len show ?thesis by auto
qed

theorem url_roundtrip_witness:
  "\<exists>t. cURL_Encode zero_malloc ''a b'' = Inr t \<and> cURL_Decode zero_malloc t = Inr ''a b''"
  using url_roundtrip[OF malloc_total_zero, of "''a b''"] by (auto simp: ascii_def plain_def)

text \<open>
  Encoding a text without any letter or digit, the empty text included, writes the terminator
  one byte behind the array, and encoding a text with a byte above 127 reads in front of the
  table.
\<close>

theorem url_encode_faults:
  assumes "malloc_total ml"
    and "(\<forall>c \<in> set s. \<not> plain (of_char c)) \<or> (\<exists>c \<in> set s. 128 \<le> (of_char c :: nat))"
  shows "cURL_Encode ml s = Inl MemFault"
proof (cases "\<forall>c \<in> set s. ascii c")
  case True
  with assms(2) have "\<forall>c \<in> set s. \<not> plain (of_char c)" by (auto simp: ascii_def)
  then have "through_array ml (int (length s) * 3) (concat (map enc1 s)) = Inl MemFault"
    by (intro through_array_overrun[OF assms(1)]) (simp_all add: length_enc_eq)
  with True show ?thesis by (simp add: cURL_Encode_def enc_all_ascii)
next
  case False
  from enc_all_high[OF this] show ?thesis by (simp add: cURL_Encode_def)
qed

theorem url_encode_faults_witness: "cURL_Encode zero_malloc ''?'' = Inl MemFault"
  using url_encode_faults[OF malloc_total_zero, of "''?''"] by (simp add: plain_def)

end
