(* ===== verification/SysMetrics.thy ===== *)
theory SysMetrics
  imports Clock
begin

text \<open>
  System metrics, \<open>cSysMetrics\<close> (\<open>sysmetrics.h\<close>, \<open>sysmetrics.cpp\<close>): six counters, each with an
  array of 3600 per-second values, and the thread that moves the common index on once per second and
  back to the start once per hour. A write outside an array is \<open>MemFault\<close>.

  One turn of the thread runs under the class's lock, but reads the clock up to five times; the
  readings are arguments. A \<open>double\<close> is its 64 bits, and the addition and division of doubles are
  parameters.
\<close>

type_synonym double = "64 word"

record cSysMetricNumericalCounter =
  nc_index :: int
  nc_count :: int
  nc_totalCount :: int
  nc_hourlyCount :: "int list"

definition cSysMetricNumericalCounter_new :: cSysMetricNumericalCounter where
  "cSysMetricNumericalCounter_new =
     \<lparr>nc_index = 0, nc_count = 0, nc_totalCount = 0, nc_hourlyCount = replicate 3600 0\<rparr>"

definition nc_Inc :: "cSysMetricNumericalCounter \<Rightarrow> cSysMetricNumericalCounter" where
  "nc_Inc c = c\<lparr>nc_count := nc_count c + 1, nc_totalCount := nc_totalCount c + 1\<rparr>"

definition nc_ResetCount :: "cSysMetricNumericalCounter \<Rightarrow> cSysMetricNumericalCounter" where
  "nc_ResetCount c = c\<lparr>nc_count := 0\<rparr>"

definition nc_SetHourlyEntry :: "int \<Rightarrow> int \<Rightarrow> cSysMetricNumericalCounter \<Rightarrow> cSysMetricNumericalCounter res" where
  "nc_SetHourlyEntry sec v c =
     (let c = c\<lparr>nc_index := sec\<rparr> in
      if 0 \<le> nc_index c \<and> nc_index c < int (length (nc_hourlyCount c))
      then Inr (c\<lparr>nc_hourlyCount := (nc_hourlyCount c)[nat (nc_index c) := v]\<rparr>)
      else Inl MemFault)"

text \<open>\<open>down h i k\<close>: the elements at \<open>i\<close>, \<open>i - 1\<close>, \dots, above \<open>k\<close>; the two loops of \<open>GetHourData\<close>.\<close>

function down :: "int list \<Rightarrow> int \<Rightarrow> int \<Rightarrow> int list res" where
  "down h i k =
     (if i > k then
        (if 0 \<le> i \<and> i < int (length h) then bindE (down h (i - 1) k) (\<lambda>d. Inr (h ! nat i # d)) else Inl MemFault)
      else Inr [])"
  by pat_completeness auto
termination
  by (relation "measure (\<lambda>(h, i, k). nat (i - k))") auto

declare down.simps [simp del]

definition nc_GetHourData :: "cSysMetricNumericalCounter \<Rightarrow> int list res" where
  "nc_GetHourData c =
     bindE (down (nc_hourlyCount c) (nc_index c) (-1)) (\<lambda>a.
     bindE (down (nc_hourlyCount c) 3599 (nc_index c)) (\<lambda>b. Inr (a @ b)))"

record cSysMetrics =
  m_SecondTimer :: cTimer
  m_HourTimer :: cTimer
  m_AvgMsgResponseTimer :: cTimer
  m_SecondCount :: int
  m_MsgDelivered :: cSysMetricNumericalCounter
  m_MsgUndelivered :: cSysMetricNumericalCounter
  m_MsgRejected :: cSysMetricNumericalCounter
  m_ConAccepted :: cSysMetricNumericalCounter
  m_ConDropped :: cSysMetricNumericalCounter
  m_ConRejected :: cSysMetricNumericalCounter
  m_iSystemTimeStamp :: int
  m_iUTDays :: int
  m_iUTHours :: int
  m_iUTMins :: int
  m_iUTSecs :: int
  m_msgCount :: int
  m_msgCountPerSecond :: int
  m_msgMaxCountPerSecond :: int
  m_AvgMsgResponseTime :: double

definition reset_counts :: "cSysMetrics \<Rightarrow> cSysMetrics" where
  "reset_counts s =
     s\<lparr>m_MsgDelivered := nc_ResetCount (m_MsgDelivered s), m_MsgUndelivered := nc_ResetCount (m_MsgUndelivered s),
       m_MsgRejected := nc_ResetCount (m_MsgRejected s), m_ConAccepted := nc_ResetCount (m_ConAccepted s),
       m_ConRejected := nc_ResetCount (m_ConRejected s), m_ConDropped := nc_ResetCount (m_ConDropped s)\<rparr>"

definition cSysMetrics_FullReset :: "cSysMetrics \<Rightarrow> cSysMetrics" where
  "cSysMetrics_FullReset s = reset_counts (s\<lparr>m_SecondCount := 0\<rparr>)"

definition cSysMetrics_new :: "int \<Rightarrow> cSysMetrics" where
  "cSysMetrics_new now =
     cSysMetrics_FullReset
       \<lparr>m_SecondTimer = cTimer_new, m_HourTimer = cTimer_new, m_AvgMsgResponseTimer = cTimer_new,
        m_SecondCount = 0,
        m_MsgDelivered = cSysMetricNumericalCounter_new, m_MsgUndelivered = cSysMetricNumericalCounter_new,
        m_MsgRejected = cSysMetricNumericalCounter_new, m_ConAccepted = cSysMetricNumericalCounter_new,
        m_ConDropped = cSysMetricNumericalCounter_new, m_ConRejected = cSysMetricNumericalCounter_new,
        m_iSystemTimeStamp = now, m_iUTDays = 0, m_iUTHours = 0, m_iUTMins = 0, m_iUTSecs = 0,
        m_msgCount = 0, m_msgCountPerSecond = 0, m_msgMaxCountPerSecond = 0, m_AvgMsgResponseTime = 0\<rparr>"

text \<open>One division step of \<open>UpdateUpTime\<close>: the quotient and what is left.\<close>

definition up_part :: "int \<Rightarrow> int \<Rightarrow> int \<times> int" where
  "up_part isecs u = (if isecs > u then (isecs div u, isecs - (isecs div u) * u) else (0, isecs))"

definition cSysMetrics_UpdateUpTime :: "int \<Rightarrow> cSysMetrics \<Rightarrow> cSysMetrics" where
  "cSysMetrics_UpdateUpTime now s =
     (let isecs = now - m_iSystemTimeStamp s;
          (idays, isecs) = up_part isecs 86400;
          (ihours, isecs) = up_part isecs 3600;
          (iminutes, isecs) = up_part isecs 60
      in s\<lparr>m_iUTDays := idays, m_iUTHours := ihours, m_iUTMins := iminutes, m_iUTSecs := isecs\<rparr>)"

text \<open>The timers are started one after the other: \<open>t1\<close>, \<open>t2\<close>, \<open>t3\<close> are the clock readings.\<close>

definition metrics_start :: "int \<Rightarrow> int \<Rightarrow> int \<Rightarrow> cSysMetrics \<Rightarrow> cSysMetrics" where
  "metrics_start t1 t2 t3 s =
     s\<lparr>m_SecondTimer := cTimer_Start t1 (cTimer_SetInterval 1 (m_SecondTimer s)),
       m_HourTimer := cTimer_Start t2 (cTimer_SetInterval 3600 (m_HourTimer s)),
       m_AvgMsgResponseTimer := cTimer_Start t3 (cTimer_SetInterval 60 (m_AvgMsgResponseTimer s))\<rparr>"

text \<open>One turn of \<open>Run\<close> with its clock readings.\<close>

definition second_part :: "int \<Rightarrow> int \<Rightarrow> int \<Rightarrow> cSysMetrics \<Rightarrow> cSysMetrics" where
  "second_part n1 n2 n3 s =
     (if cTimer_IsReady n1 (m_SecondTimer s) then
        (let s = cSysMetrics_UpdateUpTime n2 s;
             s = s\<lparr>m_SecondCount := m_SecondCount s + 1\<rparr>;
             s = (if m_msgCountPerSecond s > m_msgMaxCountPerSecond s
                  then s\<lparr>m_msgMaxCountPerSecond := m_msgCountPerSecond s\<rparr> else s);
             s = reset_counts (s\<lparr>m_msgCountPerSecond := 0\<rparr>)
         in s\<lparr>m_SecondTimer := cTimer_Reset n3 (m_SecondTimer s)\<rparr>)
      else s)"

definition hour_part :: "int \<Rightarrow> int \<Rightarrow> cSysMetrics \<Rightarrow> cSysMetrics" where
  "hour_part n4 n5 s =
     (if cTimer_IsReady n4 (m_HourTimer s)
      then (let s = cSysMetrics_FullReset s in s\<lparr>m_HourTimer := cTimer_Reset n5 (m_HourTimer s)\<rparr>)
      else s)"

definition metrics_turn :: "int \<Rightarrow> int \<Rightarrow> int \<Rightarrow> int \<Rightarrow> int \<Rightarrow> cSysMetrics \<Rightarrow> cSysMetrics" where
  "metrics_turn n1 n2 n3 n4 n5 s = hour_part n4 n5 (second_part n1 n2 n3 s)"

text \<open>Counting.\<close>

definition nc_bump :: "int \<Rightarrow> cSysMetricNumericalCounter \<Rightarrow> cSysMetricNumericalCounter res" where
  "nc_bump sec c = (let c = nc_Inc c in nc_SetHourlyEntry sec (nc_count c) c)"

definition cSysMetrics_IncMsgDelivered :: "cSysMetrics \<Rightarrow> cSysMetrics res" where
  "cSysMetrics_IncMsgDelivered s =
     bindE (nc_bump (m_SecondCount s) (m_MsgDelivered s)) (\<lambda>c. Inr (s\<lparr>m_MsgDelivered := c\<rparr>))"

definition cSysMetrics_IncMsgUndelivered :: "cSysMetrics \<Rightarrow> cSysMetrics res" where
  "cSysMetrics_IncMsgUndelivered s =
     bindE (nc_bump (m_SecondCount s) (m_MsgUndelivered s)) (\<lambda>c. Inr (s\<lparr>m_MsgUndelivered := c\<rparr>))"

definition cSysMetrics_IncMsgRejected :: "cSysMetrics \<Rightarrow> cSysMetrics res" where
  "cSysMetrics_IncMsgRejected s =
     bindE (nc_bump (m_SecondCount s) (m_MsgRejected s)) (\<lambda>c. Inr (s\<lparr>m_MsgRejected := c\<rparr>))"

definition cSysMetrics_IncConAccepted :: "cSysMetrics \<Rightarrow> cSysMetrics res" where
  "cSysMetrics_IncConAccepted s =
     bindE (nc_bump (m_SecondCount s) (m_ConAccepted s)) (\<lambda>c. Inr (s\<lparr>m_ConAccepted := c\<rparr>))"

definition cSysMetrics_IncConDropped :: "cSysMetrics \<Rightarrow> cSysMetrics res" where
  "cSysMetrics_IncConDropped s =
     bindE (nc_bump (m_SecondCount s) (m_ConDropped s)) (\<lambda>c. Inr (s\<lparr>m_ConDropped := c\<rparr>))"

definition cSysMetrics_IncConRejected :: "cSysMetrics \<Rightarrow> cSysMetrics res" where
  "cSysMetrics_IncConRejected s =
     bindE (nc_bump (m_SecondCount s) (m_ConRejected s)) (\<lambda>c. Inr (s\<lparr>m_ConRejected := c\<rparr>))"

definition cSysMetrics_GetTotalMsgDelivered :: "cSysMetrics \<Rightarrow> int" where
  "cSysMetrics_GetTotalMsgDelivered s = nc_totalCount (m_MsgDelivered s)"

definition cSysMetrics_GetTotalMsgUndelivered :: "cSysMetrics \<Rightarrow> int" where
  "cSysMetrics_GetTotalMsgUndelivered s = nc_totalCount (m_MsgUndelivered s)"

definition cSysMetrics_GetTotalMsgRejected :: "cSysMetrics \<Rightarrow> int" where
  "cSysMetrics_GetTotalMsgRejected s = nc_totalCount (m_MsgRejected s)"

definition cSysMetrics_GetTotalConAccepted :: "cSysMetrics \<Rightarrow> int" where
  "cSysMetrics_GetTotalConAccepted s = nc_totalCount (m_ConAccepted s)"

definition cSysMetrics_GetTotalConDropped :: "cSysMetrics \<Rightarrow> int" where
  "cSysMetrics_GetTotalConDropped s = nc_totalCount (m_ConDropped s)"

definition cSysMetrics_GetTotalConRejected :: "cSysMetrics \<Rightarrow> int" where
  "cSysMetrics_GetTotalConRejected s = nc_totalCount (m_ConRejected s)"

definition cSysMetrics_GetConnectionAcceptedData :: "cSysMetrics \<Rightarrow> int list res" where
  "cSysMetrics_GetConnectionAcceptedData s = nc_GetHourData (m_ConAccepted s)"

definition cSysMetrics_GetConnectionDroppedData :: "cSysMetrics \<Rightarrow> int list res" where
  "cSysMetrics_GetConnectionDroppedData s = nc_GetHourData (m_ConDropped s)"

definition cSysMetrics_GetConnectionRejectedData :: "cSysMetrics \<Rightarrow> int list res" where
  "cSysMetrics_GetConnectionRejectedData s = nc_GetHourData (m_ConRejected s)"

definition cSysMetrics_GetMessageDeliveredData :: "cSysMetrics \<Rightarrow> int list res" where
  "cSysMetrics_GetMessageDeliveredData s = nc_GetHourData (m_MsgDelivered s)"

definition cSysMetrics_GetMessageUndeliveredData :: "cSysMetrics \<Rightarrow> int list res" where
  "cSysMetrics_GetMessageUndeliveredData s = nc_GetHourData (m_MsgUndelivered s)"

definition cSysMetrics_GetMessageRejectedData :: "cSysMetrics \<Rightarrow> int list res" where
  "cSysMetrics_GetMessageRejectedData s = nc_GetHourData (m_MsgRejected s)"

definition cSysMetrics_UpdateMsgResponseTime ::
    "(double \<Rightarrow> double \<Rightarrow> double) \<Rightarrow> double \<Rightarrow> cSysMetrics \<Rightarrow> cSysMetrics" where
  "cSysMetrics_UpdateMsgResponseTime fadd elapsed s =
     s\<lparr>m_msgCount := m_msgCount s + 1, m_msgCountPerSecond := m_msgCountPerSecond s + 1,
       m_AvgMsgResponseTime := fadd (m_AvgMsgResponseTime s) elapsed\<rparr>"

section \<open>The index stays inside the arrays\<close>

text \<open>
  \<open>T\<close> is the last hourly reset and \<open>L\<close> the last tick. The index is at most their distance, which is
  below an hour.
\<close>

definition metrics_inv :: "cSysMetrics \<Rightarrow> bool" where
  "metrics_inv s \<longleftrightarrow>
     \<not> m_bStopped (m_SecondTimer s) \<and> m_seconds (m_SecondTimer s) = 1 \<and>
     \<not> m_bStopped (m_HourTimer s) \<and> m_seconds (m_HourTimer s) = 3600 \<and>
     (let L = m_timestamp (m_SecondTimer s) - 1; T = m_timestamp (m_HourTimer s) - 3600
      in 0 \<le> m_SecondCount s \<and> m_SecondCount s \<le> L - T \<and> L - T < 3600)"

definition counters :: "cSysMetrics \<Rightarrow> cSysMetricNumericalCounter list" where
  "counters s = [m_MsgDelivered s, m_MsgUndelivered s, m_MsgRejected s, m_ConAccepted s, m_ConDropped s,
     m_ConRejected s]"

definition counters_ok :: "cSysMetrics \<Rightarrow> bool" where
  "counters_ok s \<longleftrightarrow> (\<forall>c \<in> set (counters s). length (nc_hourlyCount c) = 3600 \<and> 0 \<le> nc_index c \<and> nc_index c < 3600)"

lemmas timer_defs = cTimer_Start_def cTimer_Reset_def cTimer_SetInterval_def cTimer_IsReady_def

lemma UpdateUpTime_keeps [simp]:
  "m_SecondTimer (cSysMetrics_UpdateUpTime n s) = m_SecondTimer s"
  "m_HourTimer (cSysMetrics_UpdateUpTime n s) = m_HourTimer s"
  "m_SecondCount (cSysMetrics_UpdateUpTime n s) = m_SecondCount s"
  "counters (cSysMetrics_UpdateUpTime n s) = counters s"
  by (simp_all add: cSysMetrics_UpdateUpTime_def Let_def counters_def split: prod.splits)

lemma reset_counts_keeps [simp]:
  "m_SecondTimer (reset_counts s) = m_SecondTimer s" "m_HourTimer (reset_counts s) = m_HourTimer s"
  "m_SecondCount (reset_counts s) = m_SecondCount s"
  "counters (reset_counts s) = map nc_ResetCount (counters s)"
  by (simp_all add: reset_counts_def counters_def)

lemma nc_ResetCount_keeps [simp]:
  "nc_hourlyCount (nc_ResetCount c) = nc_hourlyCount c" "nc_index (nc_ResetCount c) = nc_index c"
  by (simp_all add: nc_ResetCount_def)

lemma counters_upd [simp]:
  "counters (s\<lparr>m_SecondTimer := t\<rparr>) = counters s" "counters (s\<lparr>m_HourTimer := t\<rparr>) = counters s"
  "counters (s\<lparr>m_AvgMsgResponseTimer := t\<rparr>) = counters s" "counters (s\<lparr>m_SecondCount := n\<rparr>) = counters s"
  "counters (s\<lparr>m_msgCountPerSecond := n\<rparr>) = counters s" "counters (s\<lparr>m_msgMaxCountPerSecond := n\<rparr>) = counters s"
  by (simp_all add: counters_def)

lemma metrics_start_inv: "metrics_inv (metrics_start t t t3 (cSysMetrics_new t0))"
  by (simp add: metrics_inv_def metrics_start_def cSysMetrics_new_def cSysMetrics_FullReset_def timer_defs)

lemma metrics_turn_inv:
  assumes "metrics_inv s"
  shows "metrics_inv (metrics_turn n n2 n n n s)"
  using assms unfolding metrics_inv_def metrics_turn_def second_part_def hour_part_def
  by (auto simp: Let_def timer_defs cSysMetrics_FullReset_def)

lemma counters_ok_turn: "counters_ok s \<Longrightarrow> counters_ok (metrics_turn n1 n2 n3 n4 n5 s)"
  by (auto simp: counters_ok_def metrics_turn_def second_part_def hour_part_def Let_def
      cSysMetrics_FullReset_def)

lemma nc_bump_ok:
  assumes "length (nc_hourlyCount c) = 3600" "0 \<le> sec" "sec < 3600"
  shows "\<exists>c'. nc_bump sec c = Inr c' \<and> length (nc_hourlyCount c') = 3600 \<and> nc_index c' = sec \<and>
    nc_totalCount c' = nc_totalCount c + 1"
  using assms by (simp add: nc_bump_def nc_SetHourlyEntry_def nc_Inc_def)

lemma nc_bump_fault:
  "length (nc_hourlyCount c) = 3600 \<Longrightarrow> 3600 \<le> sec \<Longrightarrow> nc_bump sec c = Inl MemFault"
  by (simp add: nc_bump_def nc_SetHourlyEntry_def nc_Inc_def)

text \<open>What other threads and the metrics thread do, in any order.\<close>

datatype metric_event = Turn int int int int int | EvMsgDelivered | EvMsgUndelivered | EvMsgRejected
  | EvConAccepted | EvConDropped | EvConRejected

fun metric_step :: "metric_event \<Rightarrow> cSysMetrics \<Rightarrow> cSysMetrics res" where
  "metric_step (Turn n1 n2 n3 n4 n5) s = Inr (metrics_turn n1 n2 n3 n4 n5 s)"
| "metric_step EvMsgDelivered s = cSysMetrics_IncMsgDelivered s"
| "metric_step EvMsgUndelivered s = cSysMetrics_IncMsgUndelivered s"
| "metric_step EvMsgRejected s = cSysMetrics_IncMsgRejected s"
| "metric_step EvConAccepted s = cSysMetrics_IncConAccepted s"
| "metric_step EvConDropped s = cSysMetrics_IncConDropped s"
| "metric_step EvConRejected s = cSysMetrics_IncConRejected s"

fun metric_run :: "metric_event list \<Rightarrow> cSysMetrics \<Rightarrow> cSysMetrics res" where
  "metric_run [] s = Inr s"
| "metric_run (e # es) s = bindE (metric_step e s) (metric_run es)"

text \<open>A turn during which the clock does not advance.\<close>

fun steady :: "metric_event \<Rightarrow> bool" where
  "steady (Turn n1 n2 n3 n4 n5) \<longleftrightarrow> n3 = n1 \<and> n4 = n1 \<and> n5 = n1"
| "steady _ \<longleftrightarrow> True"

lemmas inc_defs = cSysMetrics_IncMsgDelivered_def cSysMetrics_IncMsgUndelivered_def cSysMetrics_IncMsgRejected_def
  cSysMetrics_IncConAccepted_def cSysMetrics_IncConDropped_def cSysMetrics_IncConRejected_def

lemma metric_step_ok:
  assumes "steady e" "metrics_inv s" "counters_ok s"
  shows "\<exists>s'. metric_step e s = Inr s' \<and> metrics_inv s' \<and> counters_ok s'"
proof -
  have sec: "0 \<le> m_SecondCount s" "m_SecondCount s < 3600" using assms(2) by (auto simp: metrics_inv_def Let_def)
  have b: "\<exists>c'. nc_bump (m_SecondCount s) c = Inr c' \<and> length (nc_hourlyCount c') = 3600 \<and> nc_index c' = m_SecondCount s"
    if "c \<in> set (counters s)" for c
    using nc_bump_ok[OF _ sec, of c] assms(3) that by (auto simp: counters_ok_def)
  show ?thesis
  proof (cases e)
    case (Turn n1 n2 n3 n4 n5)
    then show ?thesis using assms metrics_turn_inv counters_ok_turn by auto
  next
    case EvMsgDelivered
    then show ?thesis using b[of "m_MsgDelivered s"] assms sec
      by (auto simp: inc_defs counters_def counters_ok_def metrics_inv_def)
  next
    case EvMsgUndelivered
    then show ?thesis using b[of "m_MsgUndelivered s"] assms sec
      by (auto simp: inc_defs counters_def counters_ok_def metrics_inv_def)
  next
    case EvMsgRejected
    then show ?thesis using b[of "m_MsgRejected s"] assms sec
      by (auto simp: inc_defs counters_def counters_ok_def metrics_inv_def)
  next
    case EvConAccepted
    then show ?thesis using b[of "m_ConAccepted s"] assms sec
      by (auto simp: inc_defs counters_def counters_ok_def metrics_inv_def)
  next
    case EvConDropped
    then show ?thesis using b[of "m_ConDropped s"] assms sec
      by (auto simp: inc_defs counters_def counters_ok_def metrics_inv_def)
  next
    case EvConRejected
    then show ?thesis using b[of "m_ConRejected s"] assms sec
      by (auto simp: inc_defs counters_def counters_ok_def metrics_inv_def)
  qed
qed

lemma metric_run_ok:
  assumes "\<forall>e \<in> set es. steady e" "metrics_inv s" "counters_ok s"
  shows "\<exists>s'. metric_run es s = Inr s' \<and> metrics_inv s' \<and> counters_ok s'"
  using assms
proof (induction es arbitrary: s)
  case (Cons e es)
  then obtain s1 where "metric_step e s = Inr s1" "metrics_inv s1" "counters_ok s1"
    using metric_step_ok[of e s] by auto
  with Cons show ?case by auto
qed simp

lemma counters_ok_start: "counters_ok (metrics_start t1 t2 t3 (cSysMetrics_new t0))"
  by (simp add: counters_ok_def metrics_start_def cSysMetrics_new_def cSysMetrics_FullReset_def)
    (simp add: counters_def cSysMetricNumericalCounter_new_def)

text \<open>
  (C39) With both timers started at the same reading of the clock, the per-second arrays of the metrics
  are never indexed out of bounds: whatever the order of the turns of the metrics thread and of the
  events other threads count, and whatever the clock reads from one turn to the next, as long as it
  does not advance between two readings of the same turn, every operation succeeds and the index
  stays between 0 and 3599. The code starts the timers one after the other, so the condition is that
  no second begins in between; what happens otherwise is shown below.
\<close>

theorem metrics_in_bounds:
  assumes "\<forall>e \<in> set es. steady e"
  shows "\<exists>s. metric_run es (metrics_start t t t3 (cSysMetrics_new t0)) = Inr s \<and>
    0 \<le> m_SecondCount s \<and> m_SecondCount s < 3600 \<and> counters_ok s"
  using metric_run_ok[OF assms metrics_start_inv counters_ok_start, of t t3 t0]
  by (force simp: metrics_inv_def Let_def)

theorem metrics_in_bounds_witness:
  "\<exists>s. metric_run [EvMsgDelivered, Turn 101 101 101 101 101, EvConDropped]
     (metrics_start 100 100 100 (cSysMetrics_new 100)) = Inr s \<and> 0 \<le> m_SecondCount s \<and> m_SecondCount s < 3600"
  using metrics_in_bounds[of "[EvMsgDelivered, Turn 101 101 101 101 101, EvConDropped]" 100 100 100] by auto

section \<open>A second between the two timers\<close>

text \<open>Ticks once per second, \<open>k\<close> of them from time \<open>t\<close> on.\<close>

definition ticks :: "int \<Rightarrow> nat \<Rightarrow> metric_event list" where
  "ticks t k = map (\<lambda>i. let n = t + int i in Turn n n n n n) [1..<Suc k]"

lemma metric_run_append: "metric_run (xs @ ys) s = bindE (metric_run xs s) (metric_run ys)"
  by (induction xs arbitrary: s) (auto simp: bindE_assoc intro: bindE_cong)

lemma ticks_count:
  assumes "k \<le> 3600"
  shows "\<exists>s. metric_run (ticks t k) (metrics_start t (t + 1) t3 (cSysMetrics_new t0)) = Inr s \<and>
    m_SecondCount s = int k \<and> m_SecondTimer s = \<lparr>m_bStopped = False, m_seconds = 1, m_timestamp = t + int k + 1\<rparr> \<and>
    m_HourTimer s = \<lparr>m_bStopped = False, m_seconds = 3600, m_timestamp = t + 3601\<rparr> \<and> counters_ok s"
  using assms
proof (induction k)
  case 0
  show ?case using counters_ok_start[of t "t + 1" t3 t0]
    by (simp add: ticks_def metrics_start_def cSysMetrics_new_def cSysMetrics_FullReset_def timer_defs cTimer_new_def)
next
  case (Suc k)
  then obtain s where s: "metric_run (ticks t k) (metrics_start t (t + 1) t3 (cSysMetrics_new t0)) = Inr s"
    "m_SecondCount s = int k" "m_SecondTimer s = \<lparr>m_bStopped = False, m_seconds = 1, m_timestamp = t + int k + 1\<rparr>"
    "m_HourTimer s = \<lparr>m_bStopped = False, m_seconds = 3600, m_timestamp = t + 3601\<rparr>" "counters_ok s" by auto
  let ?n = "t + int (Suc k)"
  have "ticks t (Suc k) = ticks t k @ [Turn ?n ?n ?n ?n ?n]" by (simp add: ticks_def Let_def)
  moreover have "m_SecondCount (metrics_turn ?n ?n ?n ?n ?n s) = int (Suc k)"
    "m_SecondTimer (metrics_turn ?n ?n ?n ?n ?n s) = \<lparr>m_bStopped = False, m_seconds = 1, m_timestamp = ?n + 1\<rparr>"
    "m_HourTimer (metrics_turn ?n ?n ?n ?n ?n s) = \<lparr>m_bStopped = False, m_seconds = 3600, m_timestamp = t + 3601\<rparr>"
    using s(2-4) Suc.prems
    by (simp_all add: metrics_turn_def second_part_def hour_part_def timer_defs Let_def)
  ultimately show ?case using s(1) counters_ok_turn[OF s(5)] by (simp add: metric_run_append)
qed

text \<open>
  If the clock moves on by one second between the start of the second timer and the start of
  the hour timer, one tick per second for an hour takes the index to 3600 before the hourly reset,
  and the next message counted as delivered is written past the end of the array.
\<close>

theorem metrics_overflow:
  "metric_run (ticks t 3600 @ [EvMsgDelivered]) (metrics_start t (t + 1) t3 (cSysMetrics_new t0)) = Inl MemFault"
proof -
  obtain s where s: "metric_run (ticks t 3600) (metrics_start t (t + 1) t3 (cSysMetrics_new t0)) = Inr s"
    "m_SecondCount s = 3600" "counters_ok s" using ticks_count[of 3600 t t3 t0] by auto
  then have "nc_bump (m_SecondCount s) (m_MsgDelivered s) = Inl MemFault"
    by (intro nc_bump_fault) (simp_all add: counters_ok_def counters_def)
  with s(1) show ?thesis by (simp add: metric_run_append inc_defs)
qed

section \<open>Uptime and hour data\<close>

lemma up_part_ok:
  assumes "up_part x u = (q, r)" "0 < u" "0 \<le> x"
  shows "x = q * u + r \<and> 0 \<le> q \<and> 0 \<le> r \<and> r \<le> u \<and> q \<le> x div u"
  using assms by (auto simp: up_part_def algebra_simps minus_mult_div_eq_mod pos_imp_zdiv_nonneg_iff
      split: if_splits) (simp add: minus_div_mult_eq_mod mult.commute less_imp_le)

text \<open>
  The uptime shown is the elapsed time: days, hours, minutes and seconds add up to the seconds
  since the start, none is negative, and they stay within 24 hours, 60 minutes and 60 seconds. The
  limits themselves are reached (after exactly one minute the display is 0 minutes and 60 seconds),
  because each unit is only taken out of a strictly larger rest.
\<close>

theorem uptime_adds_up:
  assumes "m_iSystemTimeStamp s \<le> now"
  shows "let s' = cSysMetrics_UpdateUpTime now s in
    m_iUTDays s' * 86400 + m_iUTHours s' * 3600 + m_iUTMins s' * 60 + m_iUTSecs s' = now - m_iSystemTimeStamp s \<and>
    0 \<le> m_iUTDays s' \<and> 0 \<le> m_iUTHours s' \<and> m_iUTHours s' \<le> 24 \<and> 0 \<le> m_iUTMins s' \<and> m_iUTMins s' \<le> 60 \<and>
    0 \<le> m_iUTSecs s' \<and> m_iUTSecs s' \<le> 60 \<and>
    (now - m_iSystemTimeStamp s = 60 \<longrightarrow> m_iUTMins s' = 0 \<and> m_iUTSecs s' = 60)"
proof -
  define e where "e = now - m_iSystemTimeStamp s"
  obtain d r1 where 1: "up_part e 86400 = (d, r1)" by fastforce
  obtain h r2 where 2: "up_part r1 3600 = (h, r2)" by fastforce
  obtain m r3 where 3: "up_part r2 60 = (m, r3)" by fastforce
  have e: "0 \<le> e" using assms by (simp add: e_def)
  note a = up_part_ok[OF 1 _ e, simplified]
  then have "0 \<le> r1" by simp
  note b = up_part_ok[OF 2 _ this, simplified]
  then have "0 \<le> r2" by simp
  note c = up_part_ok[OF 3 _ this, simplified]
  have "h \<le> 24" "m \<le> 60" using a b c by linarith+
  moreover have "m = 0 \<and> r3 = 60" if "e = 60" using that 1 2 3 by (auto simp: up_part_def)
  moreover have "cSysMetrics_UpdateUpTime now s =
      s\<lparr>m_iUTDays := d, m_iUTHours := h, m_iUTMins := m, m_iUTSecs := r3\<rparr>"
    by (simp add: cSysMetrics_UpdateUpTime_def e_def[symmetric] 1 2 3)
  moreover have "d * 86400 + h * 3600 + m * 60 + r3 = e" using a b c by linarith
  moreover have "0 \<le> d" "0 \<le> h" "0 \<le> m" "0 \<le> r3" "r3 \<le> 60" using a b c by blast+
  ultimately show ?thesis unfolding e_def[symmetric] Let_def by simp
qed

theorem uptime_adds_up_witness:
  "let s' = cSysMetrics_UpdateUpTime 160 (cSysMetrics_new 100) in m_iUTMins s' = 0 \<and> m_iUTSecs s' = 60"
  using uptime_adds_up[of "cSysMetrics_new 100" 160]
  by (simp add: cSysMetrics_new_def cSysMetrics_FullReset_def reset_counts_def Let_def)

lemma down_ok:
  assumes "-1 \<le> k" "i < int (length h)"
  shows "down h i k = Inr (map (\<lambda>j. h ! nat (i - int j)) [0..<nat (i - k)])"
  using assms
proof (induction h i k rule: down.induct)
  case (1 h i k)
  show ?case
  proof (cases "k < i")
    case True
    then obtain n where n: "nat (i - k) = Suc n" "nat (i - 1 - k) = n"
      by (metis Suc_nat_eq_nat_zadd1 add.commute diff_add_cancel diff_diff_eq2 diff_right_commute zle_diff1_eq diff_ge_0_iff_ge)
    have "down h (i - 1) k = Inr (map (\<lambda>j. h ! nat (i - 1 - int j)) [0..<n])" using 1 True n by simp
    then show ?thesis
      unfolding n(1) upt_conv_Cons[OF zero_less_Suc] map_Suc_upt[symmetric]
      using True 1 by (subst down.simps) (simp add: comp_def diff_diff_eq)
  next
    case False
    then show ?thesis by (subst down.simps) simp
  qed
qed

text \<open>
  The hour's data of a counter: the 3600 values are read backwards from the current second,
  around the end of the array, each exactly once.
\<close>

theorem hour_data:
  assumes "length (nc_hourlyCount c) = 3600" "0 \<le> nc_index c" "nc_index c < 3600"
  shows "nc_GetHourData c =
    Inr (map (\<lambda>j. nc_hourlyCount c ! nat ((nc_index c - int j) mod 3600)) [0..<3600])"
proof -
  let ?h = "nc_hourlyCount c" and ?i = "nc_index c"
  define n where "n = nat (?i + 1)"
  define N where "N = (3600 :: nat)"
  have n: "?i = int n - 1" "0 < n" "n \<le> N" "int N = 3600" using assms by (simp_all add: n_def N_def)
  have 1: "down ?h ?i (-1) = Inr (map (\<lambda>j. ?h ! nat ((?i - int j) mod 3600)) [0..<n])"
  proof -
    have "(?i - int j) mod 3600 = ?i - int j" if "j < n" for j
      using that n(1) assms by (intro mod_pos_pos_trivial) linarith+
    moreover have "nat (?i - -1) = n" using n(1) by linarith
    ultimately show ?thesis using assms down_ok[of "-1" ?i ?h] by simp
  qed
  have m: "(?i - int (n + j)) mod 3600 = 3599 - int j" if "j < N - n" for j
  proof -
    have "?i - int (n + j) = (3599 - int j) + (-1) * 3600" using n(1) by simp
    then show ?thesis using that n by (simp only: mod_mult_self1) (intro mod_pos_pos_trivial; linarith)
  qed
  have "down ?h 3599 ?i = Inr (map (\<lambda>j. ?h ! nat (3599 - int j)) [0..<N - n])"
  proof -
    have "nat (3599 - ?i) = N - n" using n by linarith
    then show ?thesis using assms down_ok[of ?i 3599 ?h] by simp
  qed
  also have "map (\<lambda>j. ?h ! nat (3599 - int j)) [0..<N - n] =
      map (\<lambda>j. ?h ! nat ((?i - int j) mod 3600)) [n..<N]"
    using m by (intro nth_equalityI) auto
  finally have 2: "down ?h 3599 ?i = Inr (map (\<lambda>j. ?h ! nat ((?i - int j) mod 3600)) [n..<N])" .
  have "[0..<N] = [0..<n] @ [n..<N]" using upt_add_eq_append[of 0 n "N - n"] n(3) by simp
  then show ?thesis unfolding N_def[symmetric] nc_GetHourData_def 1 2 by simp
qed

theorem hour_data_witness:
  "nc_GetHourData (cSysMetricNumericalCounter_new\<lparr>nc_index := 5\<rparr>) =
    Inr (map (\<lambda>j. replicate 3600 0 ! nat ((5 - int j) mod 3600)) [0..<3600])"
  using hour_data[of "cSysMetricNumericalCounter_new\<lparr>nc_index := 5\<rparr>"]
  by (simp only: cSysMetricNumericalCounter_new_def cSysMetricNumericalCounter.simps length_replicate)

end
