(* ===== verification/ConnectionCache.thy ===== *)
theory ConnectionCache
  imports Buffer
begin

text \<open>
  The table of open connections, \<open>cConnectionCache\<close> (\<open>connectionrecord.h\<close>, \<open>connectioncache.h\<close>,
  \<open>connectioncache.cpp\<close>). Records are the values of a \<open>std::map\<close> that is never erased from, so a
  record pointer is the record's key, the socket. The list of active connections is a
  \<open>std::list\<close> of record pointers, and each record keeps an iterator into it; a list element is a
  pair of an element number, never used again, and the pointer, and an iterator is an element number
  or the end.

  Erasing or dereferencing an iterator that is not in the list is \<open>BadIterator\<close>. \<open>fd_set\<close> holds
  \<open>FD_SETSIZE\<close> (1024) bits; setting or testing another one is \<open>MemFault\<close>. The socket address is an
  uninterpreted string. \<open>closed\<close> is the list of descriptors given to \<open>close\<close>, latest first.
\<close>

type_synonym socket = int

datatype citer = CAt nat | CEnd | CSingular

datatype crs = CRS_FREE | CRS_WAITING

record ConnectionRecord =
  cr_Socketfd :: socket
  cr_SocketAddr :: string
  cr_arrivalPort :: int
  cr_timestamp :: int
  cr_State :: crs
  cr_pendingwrite :: bool
  cr_buffer :: cBuffer
  cr_ActiveHandler :: bool
  cr_it :: citer

text \<open>A value-initialised record: zeros, an empty buffer and a singular iterator.\<close>

definition ConnectionRecord_zero :: ConnectionRecord where
  "ConnectionRecord_zero = \<lparr>cr_Socketfd = 0, cr_SocketAddr = [], cr_arrivalPort = 0, cr_timestamp = 0,
     cr_State = CRS_FREE, cr_pendingwrite = False, cr_buffer = cBuffer_new, cr_ActiveHandler = False,
     cr_it = CSingular\<rparr>"

record cConnectionCache =
  m_ActiveConnectionList :: "(nat \<times> socket) list"
  m_ConnectionMap :: "socket \<rightharpoonup> ConnectionRecord"
  cc_it :: citer
  m_itIncompleteMarker :: citer
  cc_next :: nat
  closed :: "socket list"

definition cConnectionCache_new :: cConnectionCache where
  "cConnectionCache_new = \<lparr>m_ActiveConnectionList = [], m_ConnectionMap = Map.empty, cc_it = CSingular,
     m_itIncompleteMarker = CEnd, cc_next = 0, closed = []\<rparr>"

definition FD_SETSIZE :: int where "FD_SETSIZE = 1024"

section \<open>List iterators\<close>

definition c_pos :: "(nat \<times> socket) list \<Rightarrow> citer" where
  "c_pos l = (case l of [] \<Rightarrow> CEnd | e # _ \<Rightarrow> CAt (fst e))"

definition c_from :: "nat \<Rightarrow> (nat \<times> socket) list \<Rightarrow> (nat \<times> socket) list" where
  "c_from n l = dropWhile (\<lambda>e. fst e \<noteq> n) l"

text \<open>The elements from an iterator on.\<close>

definition c_rest :: "citer \<Rightarrow> (nat \<times> socket) list \<Rightarrow> (nat \<times> socket) list res" where
  "c_rest i l =
     (case i of
        CAt n \<Rightarrow> if c_from n l = [] then Inl BadIterator else Inr (c_from n l)
      | CEnd \<Rightarrow> Inr []
      | CSingular \<Rightarrow> Inl BadIterator)"

definition c_erase :: "citer \<Rightarrow> (nat \<times> socket) list \<Rightarrow> (nat \<times> socket) list res" where
  "c_erase i l =
     (case i of
        CAt n \<Rightarrow> if c_from n l = [] then Inl BadIterator else Inr (filter (\<lambda>e. fst e \<noteq> n) l)
      | _ \<Rightarrow> Inl BadIterator)"

definition the_record :: "socket \<Rightarrow> cConnectionCache \<Rightarrow> ConnectionRecord res" where
  "the_record fd c = (case m_ConnectionMap c fd of None \<Rightarrow> Inl MemFault | Some r \<Rightarrow> Inr r)"

definition upd_record :: "socket \<Rightarrow> (ConnectionRecord \<Rightarrow> ConnectionRecord) \<Rightarrow> cConnectionCache \<Rightarrow> cConnectionCache" where
  "upd_record fd f c = c\<lparr>m_ConnectionMap := (m_ConnectionMap c)(fd := map_option f (m_ConnectionMap c fd))\<rparr>"

text \<open>\<open>m_ConnectionMap[fd]\<close> makes a record when there is none.\<close>

definition map_index :: "socket \<Rightarrow> cConnectionCache \<Rightarrow> cConnectionCache" where
  "map_index fd c =
     (case m_ConnectionMap c fd of
        None \<Rightarrow> c\<lparr>m_ConnectionMap := (m_ConnectionMap c)(fd \<mapsto> ConnectionRecord_zero)\<rparr>
      | Some _ \<Rightarrow> c)"

definition valid_fd :: "socket \<Rightarrow> bool" where
  "valid_fd fd \<longleftrightarrow> fd > 0 \<and> fd < 65536"

section \<open>Operations\<close>

definition cConnectionCache_AddConnection ::
    "malloc \<Rightarrow> int \<Rightarrow> socket \<Rightarrow> string \<Rightarrow> int \<Rightarrow> cConnectionCache \<Rightarrow> cConnectionCache res" where
  "cConnectionCache_AddConnection ml now fd addr iArrivalPort c =
     (if \<not> valid_fd fd then Inl AssertFailed
      else
        (let c = map_index fd c in
         bindE (the_record fd c) (\<lambda>r.
         let r = r\<lparr>cr_arrivalPort := iArrivalPort, cr_SocketAddr := addr, cr_Socketfd := fd, cr_timestamp := now\<rparr> in
         bindE (cBuffer_SetBufferSize ml 8096 (cr_buffer r)) (\<lambda>b.
         let r = r\<lparr>cr_buffer := cBuffer_Reset b, cr_ActiveHandler := False, cr_pendingwrite := False,
                   cr_State := CRS_WAITING, cr_it := CAt (cc_next c)\<rparr>
         in Inr (c\<lparr>m_ConnectionMap := (m_ConnectionMap c)(fd \<mapsto> r),
                   m_ActiveConnectionList := m_ActiveConnectionList c @ [(cc_next c, fd)],
                   cc_next := Suc (cc_next c)\<rparr>)))))"

definition cConnectionCache_CloseSocket :: "socket \<Rightarrow> cConnectionCache \<Rightarrow> cConnectionCache" where
  "cConnectionCache_CloseSocket fd c = c\<lparr>closed := fd # closed c\<rparr>"

definition cConnectionCache_FreeConnection :: "socket \<Rightarrow> cConnectionCache \<Rightarrow> cConnectionCache res" where
  "cConnectionCache_FreeConnection fd c =
     (if fd = -1 then Inr c
      else
        (case m_ConnectionMap c fd of
           None \<Rightarrow> Inr (cConnectionCache_CloseSocket fd c)
         | Some r \<Rightarrow>
             bindE (if cr_it r \<noteq> CEnd then c_erase (cr_it r) (m_ActiveConnectionList c)
                    else Inr (m_ActiveConnectionList c)) (\<lambda>l.
             let c = cConnectionCache_CloseSocket fd (c\<lparr>m_ActiveConnectionList := l\<rparr>)
             in Inr (upd_record fd (\<lambda>r. r\<lparr>cr_State := CRS_FREE, cr_ActiveHandler := False, cr_Socketfd := -1,
                                        cr_pendingwrite := False, cr_it := CEnd\<rparr>) c))))"

definition cConnectionCache_GetConnectionRecord ::
    "socket \<Rightarrow> cConnectionCache \<Rightarrow> (socket option \<times> cConnectionCache) res" where
  "cConnectionCache_GetConnectionRecord fd c =
     (if fd = -1 \<or> fd = 0 then Inr (None, c)
      else if \<not> valid_fd fd then Inl AssertFailed
      else Inr (Some fd, map_index fd c))"

definition cConnectionCache_MarkPendingWrite :: "socket \<Rightarrow> cConnectionCache \<Rightarrow> cConnectionCache res" where
  "cConnectionCache_MarkPendingWrite fd c =
     bindE (cConnectionCache_GetConnectionRecord fd c) (\<lambda>(rec, c).
     case rec of
       None \<Rightarrow> Inr c
     | Some k \<Rightarrow> Inr (upd_record k (\<lambda>r. r\<lparr>cr_pendingwrite := True\<rparr>) c))"

text \<open>
  The loop of \<open>SetActiveConnections\<close> over the elements from the iterator on: the descriptors set so
  far, the largest, the count, and the marker.
\<close>

fun set_active ::
    "cConnectionCache \<Rightarrow> int \<Rightarrow> (nat \<times> socket) list \<Rightarrow> socket list \<Rightarrow> int \<Rightarrow> int \<Rightarrow> (socket list \<times> int \<times> citer) res" where
  "set_active c n [] fds mx count = Inr (fds, mx, CEnd)"
| "set_active c n (e # es) fds mx count =
     bindE (the_record (snd e) c) (\<lambda>r.
     if cr_State r = CRS_WAITING then
       (let cur = cr_Socketfd r in
        if \<not> valid_fd cur then Inl AssertFailed
        else if cur \<ge> FD_SETSIZE then Inl MemFault
        else
          (let fds = cur # fds; mx = (if mx < cur then cur else mx); count = count + 1 in
           if count = n then Inr (fds, mx, c_pos es) else set_active c n es fds mx count))
     else set_active c n es fds mx count)"

definition cConnectionCache_SetActiveConnections ::
    "socket list \<Rightarrow> int \<Rightarrow> cConnectionCache \<Rightarrow> (socket list \<times> int \<times> cConnectionCache) res" where
  "cConnectionCache_SetActiveConnections fds n c =
     (if m_ActiveConnectionList c = [] then Inr (fds, 0, c)
      else
        bindE (if m_itIncompleteMarker c \<noteq> CEnd then c_rest (m_itIncompleteMarker c) (m_ActiveConnectionList c)
               else Inr (m_ActiveConnectionList c)) (\<lambda>l.
        bindE (set_active c n l fds 0 0) (\<lambda>(fds, mx, mark).
        Inr (fds, mx, c\<lparr>m_itIncompleteMarker := mark\<rparr>))))"

definition timed_out :: "int \<Rightarrow> int \<Rightarrow> ConnectionRecord \<Rightarrow> bool" where
  "timed_out iTimeout curTime r \<longleftrightarrow>
     cr_pendingwrite r = False \<and> cr_State r = CRS_WAITING \<and> cr_timestamp r + iTimeout < curTime"

text \<open>The first element of the list that has timed out.\<close>

fun first_timed_out :: "int \<Rightarrow> int \<Rightarrow> cConnectionCache \<Rightarrow> (nat \<times> socket) list \<Rightarrow> socket option res" where
  "first_timed_out iTimeout curTime c [] = Inr None"
| "first_timed_out iTimeout curTime c (e # es) =
     bindE (the_record (snd e) c) (\<lambda>r.
     if timed_out iTimeout curTime r then Inr (Some (cr_Socketfd r)) else first_timed_out iTimeout curTime c es)"

text \<open>
  The loop of \<open>TimeoutConnections\<close>: look for a connection that has timed out, free it and start
  again at the head of the list. The recursion need not end for an arbitrary state; a result \<open>None\<close>
  is a loop that runs forever.
\<close>

partial_function (option) timeout_loop :: "int \<Rightarrow> int \<Rightarrow> cConnectionCache \<Rightarrow> cConnectionCache res option" where
  "timeout_loop iTimeout curTime c =
     (case first_timed_out iTimeout curTime c (m_ActiveConnectionList c) of
        Inl e \<Rightarrow> Some (Inl e)
      | Inr None \<Rightarrow> Some (Inr (c\<lparr>cc_it := CEnd\<rparr>))
      | Inr (Some fd) \<Rightarrow>
          (case cConnectionCache_FreeConnection fd c of
             Inl e \<Rightarrow> Some (Inl e)
           | Inr c \<Rightarrow> timeout_loop iTimeout curTime c))"

definition cConnectionCache_TimeoutConnections :: "int \<Rightarrow> int \<Rightarrow> cConnectionCache \<Rightarrow> cConnectionCache res option" where
  "cConnectionCache_TimeoutConnections iTimeout now c =
     (if m_ActiveConnectionList c = [] then Some (Inr c) else timeout_loop iTimeout now c)"

definition cConnectionCache_ResetEnumerator :: "cConnectionCache \<Rightarrow> cConnectionCache" where
  "cConnectionCache_ResetEnumerator c = c\<lparr>cc_it := c_pos (m_ActiveConnectionList c)\<rparr>"

fun next_set ::
    "socket list \<Rightarrow> cConnectionCache \<Rightarrow> (nat \<times> socket) list \<Rightarrow> (socket option \<times> citer) res" where
  "next_set fds c [] = Inr (None, CEnd)"
| "next_set fds c (e # es) =
     bindE (the_record (snd e) c) (\<lambda>r.
     if cr_State r = CRS_WAITING \<and> \<not> cr_ActiveHandler r then
       (if cr_Socketfd r < 0 \<or> FD_SETSIZE \<le> cr_Socketfd r then Inl MemFault
        else if cr_Socketfd r \<in> set fds \<or> cBuffer_GetBufferCount (cr_buffer r) > 0 then Inr (Some (snd e), c_pos es)
        else next_set fds c es)
     else next_set fds c es)"

definition cConnectionCache_GetNextSetRecord ::
    "socket list \<Rightarrow> cConnectionCache \<Rightarrow> (socket option \<times> cConnectionCache) res" where
  "cConnectionCache_GetNextSetRecord fds c =
     bindE (c_rest (cc_it c) (m_ActiveConnectionList c)) (\<lambda>l.
     bindE (next_set fds c l) (\<lambda>(rec, i). Inr (rec, c\<lparr>cc_it := i\<rparr>)))"

fun count_waiting :: "cConnectionCache \<Rightarrow> (nat \<times> socket) list \<Rightarrow> int res" where
  "count_waiting c [] = Inr 0"
| "count_waiting c (e # es) =
     bindE (the_record (snd e) c) (\<lambda>r. bindE (count_waiting c es) (\<lambda>n.
     Inr (if cr_State r = CRS_WAITING then n + 1 else n)))"

definition cConnectionCache_GetActiveConnectionCount :: "cConnectionCache \<Rightarrow> (int \<times> cConnectionCache) res" where
  "cConnectionCache_GetActiveConnectionCount c =
     bindE (count_waiting c (m_ActiveConnectionList c)) (\<lambda>n. Inr (n, c\<lparr>cc_it := CEnd\<rparr>))"

definition cConnectionCache_GetTotalConnectionEntries :: "cConnectionCache \<Rightarrow> int" where
  "cConnectionCache_GetTotalConnectionEntries c = int (length (m_ActiveConnectionList c))"

section \<open>The invariant\<close>

text \<open>
  Element numbers and sockets of the active list are distinct; an active connection has a waiting
  record that knows its socket and its place in the list; every other record is free and its
  iterator is the end, or singular if the record was only made by a lookup.
\<close>

definition active :: "cConnectionCache \<Rightarrow> socket list" where
  "active c = map snd (m_ActiveConnectionList c)"

definition entry_ok :: "cConnectionCache \<Rightarrow> nat \<times> socket \<Rightarrow> bool" where
  "entry_ok c e \<longleftrightarrow> fst e < cc_next c \<and> valid_fd (snd e) \<and>
     (\<exists>r. m_ConnectionMap c (snd e) = Some r \<and> cr_Socketfd r = snd e \<and> cr_State r = CRS_WAITING \<and>
          cr_it r = CAt (fst e) \<and> buf_inv (cr_buffer r))"

definition cache_inv :: "cConnectionCache \<Rightarrow> bool" where
  "cache_inv c \<longleftrightarrow> distinct (map fst (m_ActiveConnectionList c)) \<and> distinct (active c) \<and>
     (\<forall>e \<in> set (m_ActiveConnectionList c). entry_ok c e) \<and>
     (\<forall>fd r. m_ConnectionMap c fd = Some r \<longrightarrow> fd \<notin> set (active c) \<longrightarrow>
        cr_State r = CRS_FREE \<and> (cr_it r = CEnd \<or> cr_it r = CSingular) \<and> buf_inv (cr_buffer r))"

text \<open>A record that a lookup made and no connection has used.\<close>

definition only_looked_up :: "socket \<Rightarrow> cConnectionCache \<Rightarrow> bool" where
  "only_looked_up fd c \<longleftrightarrow> (\<exists>r. m_ConnectionMap c fd = Some r \<and> cr_it r = CSingular)"

lemma cache_inv_new: "cache_inv cConnectionCache_new"
  by (simp add: cache_inv_def cConnectionCache_new_def active_def)

lemma c_from_mem: "(n, fd) \<in> set l \<Longrightarrow> c_from n l \<noteq> []"
  by (force simp: c_from_def dropWhile_eq_Nil_conv)

lemma active_iff: "fd \<in> set (active c) \<longleftrightarrow> (\<exists>n. (n, fd) \<in> set (m_ActiveConnectionList c))"
  by (force simp: active_def)

lemma filter_number:
  assumes "distinct (map fst l)" "distinct (map snd l)" "(n, fd) \<in> set l"
  shows "filter (\<lambda>e. fst e \<noteq> n) l = filter (\<lambda>e. snd e \<noteq> fd) l"
proof (rule filter_cong[OF refl])
  fix e assume "e \<in> set l"
  with assms show "(fst e \<noteq> n) = (snd e \<noteq> fd)"
    by (metis eq_key_imp_eq_value fst_conv prod.collapse snd_conv distinct_map inj_onD)
qed

lemma Free_active:
  assumes inv: "cache_inv c" and a: "fd \<in> set (active c)"
  shows "\<exists>c'. cConnectionCache_FreeConnection fd c = Inr c' \<and> cache_inv c' \<and>
    m_ActiveConnectionList c' = filter (\<lambda>e. snd e \<noteq> fd) (m_ActiveConnectionList c) \<and>
    closed c' = fd # closed c \<and> cc_next c' = cc_next c \<and> m_itIncompleteMarker c' = m_itIncompleteMarker c \<and>
    cc_it c' = cc_it c \<and> (\<forall>k. k \<noteq> fd \<longrightarrow> m_ConnectionMap c' k = m_ConnectionMap c k)"
proof -
  obtain n where n: "(n, fd) \<in> set (m_ActiveConnectionList c)" using a by (auto simp: active_iff)
  with inv have "entry_ok c (n, fd)" by (auto simp: cache_inv_def)
  then obtain r where r: "m_ConnectionMap c fd = Some r" "cr_it r = CAt n" "valid_fd fd" "buf_inv (cr_buffer r)"
    by (auto simp: entry_ok_def)
  let ?l = "filter (\<lambda>e. snd e \<noteq> fd) (m_ActiveConnectionList c)"
  have e: "c_erase (cr_it r) (m_ActiveConnectionList c) = Inr ?l"
    using c_from_mem[OF n] filter_number[OF _ _ n] inv r(2) by (simp add: c_erase_def cache_inv_def active_def)
  let ?c = "upd_record fd (\<lambda>r. r\<lparr>cr_State := CRS_FREE, cr_ActiveHandler := False, cr_Socketfd := -1,
      cr_pendingwrite := False, cr_it := CEnd\<rparr>) (cConnectionCache_CloseSocket fd (c\<lparr>m_ActiveConnectionList := ?l\<rparr>))"
  have "fd \<noteq> -1" using r(3) by (auto simp: valid_fd_def)
  with r e have f: "cConnectionCache_FreeConnection fd c = Inr ?c"
    by (simp add: cConnectionCache_FreeConnection_def)
  have "set (active ?c) = set (active c) - {fd}"
    by (auto simp: active_def upd_record_def cConnectionCache_CloseSocket_def)
  then have "cache_inv ?c"
    using inv r(1,4) by (auto simp: cache_inv_def active_def upd_record_def cConnectionCache_CloseSocket_def entry_ok_def
        distinct_map_filter)
  with f show ?thesis by (auto simp: upd_record_def cConnectionCache_CloseSocket_def)
qed

lemma Free_inactive:
  assumes inv: "cache_inv c" and a: "fd \<notin> set (active c)" "\<not> only_looked_up fd c"
  shows "\<exists>c'. cConnectionCache_FreeConnection fd c = Inr c' \<and> cache_inv c' \<and>
    m_ActiveConnectionList c' = m_ActiveConnectionList c"
proof (cases "fd = -1 \<or> m_ConnectionMap c fd = None")
  case True
  with inv show ?thesis
    by (auto simp: cConnectionCache_FreeConnection_def cConnectionCache_CloseSocket_def cache_inv_def active_def entry_ok_def)
next
  case False
  then obtain r where r: "m_ConnectionMap c fd = Some r" "fd \<noteq> -1" by auto
  then have "cr_it r = CEnd" "buf_inv (cr_buffer r)" using inv a by (auto simp: cache_inv_def only_looked_up_def)
  with inv a r show ?thesis
    by (auto simp: cConnectionCache_FreeConnection_def cConnectionCache_CloseSocket_def upd_record_def cache_inv_def
        active_def entry_ok_def)
qed

lemma map_index_inv:
  assumes "cache_inv c"
  shows "cache_inv (map_index fd c)" "m_ActiveConnectionList (map_index fd c) = m_ActiveConnectionList c"
    "m_ConnectionMap (map_index fd c) fd \<noteq> None"
  using assms by (auto simp: map_index_def cache_inv_def active_def entry_ok_def ConnectionRecord_zero_def
      split: option.splits)

section \<open>Time-outs\<close>

text \<open>What a time-out leaves: the connections that have not timed out.\<close>

definition stale :: "int \<Rightarrow> int \<Rightarrow> cConnectionCache \<Rightarrow> socket \<Rightarrow> bool" where
  "stale iTimeout now c fd \<longleftrightarrow> (case m_ConnectionMap c fd of None \<Rightarrow> False | Some r \<Rightarrow> timed_out iTimeout now r)"

lemma first_timed_out_ok:
  assumes "\<forall>e \<in> set l. entry_ok c e"
  shows "first_timed_out iTimeout now c l = Inr (List.find (stale iTimeout now c) (map snd l))"
  using assms by (induction l) (auto simp: the_record_def entry_ok_def stale_def)

lemma find_split:
  "List.find P xs = Some x \<Longrightarrow> P x \<and> (\<exists>us vs. xs = us @ x # vs \<and> (\<forall>u \<in> set us. \<not> P u))"
  by (induction xs) (auto split: if_splits intro: exI[of _ "[]"] exI[of _ "_ # _"], metis append_Cons set_ConsD)

lemma timeout_loop_ok:
  assumes "cache_inv c"
  shows "\<exists>c'. timeout_loop iTimeout now c = Some (Inr c') \<and> cache_inv c' \<and>
    active c' = filter (\<lambda>fd. \<not> stale iTimeout now c fd) (active c) \<and>
    closed c' = rev (filter (stale iTimeout now c) (active c)) @ closed c"
  using assms
proof (induction "length (m_ActiveConnectionList c)" arbitrary: c rule: less_induct)
  case less
  have e: "\<forall>e \<in> set (m_ActiveConnectionList c). entry_ok c e" using less.prems by (simp add: cache_inv_def)
  let ?P = "stale iTimeout now c"
  show ?case
  proof (cases "List.find ?P (active c)")
    case None
    then have "\<forall>fd \<in> set (active c). \<not> ?P fd" by (simp add: find_None_iff)
    moreover have "timeout_loop iTimeout now c = Some (Inr (c\<lparr>cc_it := CEnd\<rparr>))"
      using None first_timed_out_ok[OF e, of iTimeout now] by (subst timeout_loop.simps) (simp add: active_def)
    moreover have "cache_inv (c\<lparr>cc_it := CEnd\<rparr>)" using less.prems by (simp add: cache_inv_def active_def entry_ok_def)
    ultimately show ?thesis by (simp add: active_def filter_id_conv)
  next
    case (Some fd)
    from find_split[OF this] obtain us vs where
      P: "?P fd" "active c = us @ fd # vs" "\<forall>u \<in> set us. \<not> ?P u" by blast
    then have a: "fd \<in> set (active c)" by simp
    obtain c1 where c1: "cConnectionCache_FreeConnection fd c = Inr c1" "cache_inv c1"
      "m_ActiveConnectionList c1 = filter (\<lambda>e. snd e \<noteq> fd) (m_ActiveConnectionList c)" "closed c1 = fd # closed c"
      "\<forall>k. k \<noteq> fd \<longrightarrow> m_ConnectionMap c1 k = m_ConnectionMap c k"
      using Free_active[OF less.prems a] by blast
    have "length (m_ActiveConnectionList c1) < length (m_ActiveConnectionList c)"
    proof -
      obtain n where "(n, fd) \<in> set (m_ActiveConnectionList c)" using a by (auto simp: active_iff)
      then show ?thesis unfolding c1(3) by (rule length_filter_less) simp
    qed
    from less.hyps[OF this c1(2)] obtain c2 where c2: "timeout_loop iTimeout now c1 = Some (Inr c2)" "cache_inv c2"
      "active c2 = filter (\<lambda>fd. \<not> stale iTimeout now c1 fd) (active c1)"
      "closed c2 = rev (filter (stale iTimeout now c1) (active c1)) @ closed c1" by blast
    have d: "distinct (us @ fd # vs)" using less.prems P(2) by (simp add: cache_inv_def)
    have "active c1 = filter (\<lambda>x. x \<noteq> fd) (active c)" by (simp add: active_def c1(3) filter_map comp_def)
    moreover have "filter (\<lambda>x. x \<noteq> fd) us = us" "filter (\<lambda>x. x \<noteq> fd) vs = vs" using d by (auto simp: filter_id_conv)
    ultimately have a1: "active c1 = us @ vs" by (simp add: P(2))
    have s: "stale iTimeout now c1 k = ?P k" if "k \<in> set (us @ vs)" for k
      using that d c1(5) by (auto simp: stale_def)
    have "timeout_loop iTimeout now c = Some (Inr c2)"
      using Some first_timed_out_ok[OF e, of iTimeout now] c1(1) c2(1)
      by (subst timeout_loop.simps) (simp add: active_def)
    moreover have "active c2 = filter (\<lambda>fd. \<not> ?P fd) (active c)"
      unfolding c2(3) a1 P(2) using s P(1) by (auto cong: filter_cong)
    moreover have "closed c2 = rev (filter ?P (active c)) @ closed c"
      unfolding c2(4) a1 P(2) c1(4) using s P(1,3) by (auto simp: filter_empty_conv cong: filter_cong)
    ultimately show ?thesis using c2(2) by blast
  qed
qed

text \<open>
  (C21) \<open>TimeoutConnections\<close> ends: although it starts again at the head of the list after every
  connection it frees, it returns after finitely many steps, without a fault. It frees exactly the
  waiting connections without a pending write that have been idle for longer than the time-out,
  closes the descriptor of each of them once, in the order of the list, and keeps the others in
  order and the table consistent.
\<close>

theorem timeout_terminates:
  assumes "cache_inv c"
  shows "\<exists>c'. cConnectionCache_TimeoutConnections iTimeout now c = Some (Inr c') \<and> cache_inv c' \<and>
    active c' = filter (\<lambda>fd. \<not> stale iTimeout now c fd) (active c) \<and>
    closed c' = rev (filter (stale iTimeout now c) (active c)) @ closed c"
proof (cases "m_ActiveConnectionList c = []")
  case True
  then show ?thesis using assms by (simp add: cConnectionCache_TimeoutConnections_def active_def)
next
  case False
  then show ?thesis using timeout_loop_ok[OF assms, of iTimeout now]
    by (simp add: cConnectionCache_TimeoutConnections_def)
qed

section \<open>Polling\<close>

lemma set_active_ok:
  assumes "\<forall>e \<in> set l. entry_ok c e" "\<forall>e \<in> set l. snd e < FD_SETSIZE" "count + int (length l) < n"
  shows "\<exists>mx. set_active c n l fds mx0 count = Inr (rev (map snd l) @ fds, mx, CEnd) \<and>
    mx0 \<le> mx \<and> (\<forall>e \<in> set l. snd e \<le> mx) \<and> (mx = mx0 \<or> mx \<in> snd ` set l)"
  using assms
proof (induction l arbitrary: fds mx0 count)
  case (Cons e l)
  then obtain r where r: "m_ConnectionMap c (snd e) = Some r" "cr_Socketfd r = snd e" "cr_State r = CRS_WAITING"
    "valid_fd (snd e)" by (auto simp: entry_ok_def)
  let ?mx = "if mx0 < snd e then snd e else mx0"
  from Cons.IH[of "count + 1" "snd e # fds" ?mx] Cons.prems obtain mx where
    mx: "set_active c n l (snd e # fds) ?mx (count + 1) = Inr (rev (map snd l) @ snd e # fds, mx, CEnd)"
    "?mx \<le> mx" "\<forall>e \<in> set l. snd e \<le> mx" "mx = ?mx \<or> mx \<in> snd ` set l" by auto
  have "set_active c n (e # l) fds mx0 count = Inr (rev (map snd (e # l)) @ fds, mx, CEnd)"
    using Cons.prems r mx(1) by (simp add: the_record_def Let_def)
  with mx show ?case by (auto split: if_splits)
qed simp

lemma set_active_fault:
  assumes "\<forall>e \<in> set l. entry_ok c e" "\<exists>e \<in> set l. FD_SETSIZE \<le> snd e"
    and "\<forall>xs ys. l = xs @ ys \<longrightarrow> (\<forall>e \<in> set xs. snd e < FD_SETSIZE) \<longrightarrow> count + int (length xs) < n"
  shows "set_active c n l fds mx0 count = Inl MemFault"
  using assms
proof (induction l arbitrary: fds mx0 count)
  case (Cons e l)
  then obtain r where r: "m_ConnectionMap c (snd e) = Some r" "cr_Socketfd r = snd e" "cr_State r = CRS_WAITING"
    "valid_fd (snd e)" by (auto simp: entry_ok_def)
  show ?case
  proof (cases "FD_SETSIZE \<le> snd e")
    case False
    have n: "count + 1 + int (length xs) < n" if "l = xs @ ys" "\<forall>e \<in> set xs. snd e < FD_SETSIZE" for xs ys
    proof -
      have "e # l = (e # xs) @ ys" "\<forall>x \<in> set (e # xs). snd x < FD_SETSIZE" using that False by simp_all
      then have "count + int (length (e # xs)) < n" using Cons.prems(3) by blast
      then show ?thesis by simp
    qed
    have "count + 1 \<noteq> n" using n[of "[]" l] by simp
    moreover have "set_active c n l (snd e # fds) mx (count + 1) = Inl MemFault" for mx
      using Cons.IH[of "count + 1"] Cons.prems False n by auto
    ultimately show ?thesis using r False by (simp add: the_record_def Let_def)
  qed (use r in \<open>simp add: the_record_def Let_def\<close>)
qed simp

lemma few_sockets:
  assumes "distinct xs" "\<forall>x \<in> set xs. valid_fd x \<and> x < FD_SETSIZE"
  shows "int (length xs) < FD_SETSIZE"
proof -
  have "card (set xs) \<le> card {1..FD_SETSIZE - 1}" using assms(2) by (intro card_mono) (auto simp: valid_fd_def)
  then show ?thesis using distinct_card[OF assms(1)] by (simp add: FD_SETSIZE_def)
qed

text \<open>
  (C40) Polling: called with room for \<open>FD_SETSIZE\<close> descriptors, \<open>SetActiveConnections\<close> adds every
  active connection to the descriptor set, reports the largest descriptor, and never leaves a marker
  for a later call, provided all descriptors are below \<open>FD_SETSIZE\<close>; the code that resumes at a
  marker is never needed. If an active connection has a descriptor of \<open>FD_SETSIZE\<close> or more, which
  the assertion allows, the call writes outside the descriptor set.
\<close>

theorem poll_all_or_overflow:
  assumes inv: "cache_inv c" and m: "m_itIncompleteMarker c = CEnd"
  shows "if \<forall>fd \<in> set (active c). fd < FD_SETSIZE
    then \<exists>mx. cConnectionCache_SetActiveConnections fds FD_SETSIZE c = Inr (rev (active c) @ fds, mx, c) \<and>
      (\<forall>fd \<in> set (active c). fd \<le> mx) \<and> (mx = 0 \<or> mx \<in> set (active c))
    else cConnectionCache_SetActiveConnections fds FD_SETSIZE c = Inl MemFault"
proof -
  let ?l = "m_ActiveConnectionList c"
  have e: "\<forall>e \<in> set ?l. entry_ok c e" using inv by (simp add: cache_inv_def)
  have d: "distinct (map snd ?l)" using inv by (simp add: cache_inv_def active_def)
  have c: "c\<lparr>m_itIncompleteMarker := CEnd\<rparr> = c" using m by simp
  have few: "int (length xs) < FD_SETSIZE" if "?l = xs @ ys" "\<forall>e \<in> set xs. snd e < FD_SETSIZE" for xs ys
    using few_sockets[of "map snd xs"] d e that by (auto simp: entry_ok_def)
  show ?thesis
  proof (cases "\<forall>fd \<in> set (active c). fd < FD_SETSIZE")
    case True
    then have lt: "\<forall>e \<in> set ?l. snd e < FD_SETSIZE" by (simp add: active_def)
    obtain mx where mx: "set_active c FD_SETSIZE ?l fds 0 0 = Inr (rev (map snd ?l) @ fds, mx, CEnd)"
      "\<forall>e \<in> set ?l. snd e \<le> mx" "mx = 0 \<or> mx \<in> snd ` set ?l"
      using set_active_ok[OF e lt, of 0 FD_SETSIZE fds 0] few[of ?l "[]"] lt by auto
    then have "cConnectionCache_SetActiveConnections fds FD_SETSIZE c =
        Inr (rev (active c) @ fds, if ?l = [] then 0 else mx, c)"
      using m c by (simp add: cConnectionCache_SetActiveConnections_def active_def)
    with True mx(2,3) show ?thesis by (force simp: active_def)
  next
    case False
    then have "set_active c FD_SETSIZE ?l fds 0 0 = Inl MemFault"
      using few by (intro set_active_fault[OF e]) (force simp: active_def not_less)+
    moreover have "?l \<noteq> []" using False by (auto simp: active_def)
    ultimately show ?thesis using False m by (simp add: cConnectionCache_SetActiveConnections_def)
  qed
qed

section \<open>Sequences of operations\<close>

lemma Add_safe:
  assumes ml: "malloc_total ml" and inv: "cache_inv c" and fd: "valid_fd fd" "fd \<notin> set (active c)"
  shows "\<exists>c'. cConnectionCache_AddConnection ml now fd addr port c = Inr c' \<and> cache_inv c' \<and>
    active c' = active c @ [fd] \<and> m_itIncompleteMarker c' = m_itIncompleteMarker c"
proof -
  let ?c = "map_index fd c"
  note mi = map_index_inv[OF inv, of fd]
  obtain r where r: "m_ConnectionMap ?c fd = Some r" using mi(3) by auto
  have "buf_inv (cr_buffer r)" using mi(1,2) r fd by (auto simp: cache_inv_def active_def)
  from SetBufferSize_safe[OF malloc_total_spec[OF ml] this, of 8096] obtain b where
    b: "cBuffer_SetBufferSize ml 8096 (cr_buffer r) = Inr b" "buf_inv b" using safe_res_total[OF _ ml] by fastforce
  let ?n = "cc_next ?c"
  define r' where "r' = r\<lparr>cr_arrivalPort := port, cr_SocketAddr := addr, cr_Socketfd := fd, cr_timestamp := now,
    cr_buffer := cBuffer_Reset b, cr_ActiveHandler := False, cr_pendingwrite := False, cr_State := CRS_WAITING,
    cr_it := CAt ?n\<rparr>"
  define c' where "c' = ?c\<lparr>m_ConnectionMap := (m_ConnectionMap ?c)(fd \<mapsto> r'),
    m_ActiveConnectionList := m_ActiveConnectionList ?c @ [(?n, fd)], cc_next := Suc ?n\<rparr>"
  have run: "cConnectionCache_AddConnection ml now fd addr port c = Inr c'"
    using fd(1) r b(1) by (simp add: cConnectionCache_AddConnection_def the_record_def c'_def r'_def Let_def)
  have l: "m_ActiveConnectionList c' = m_ActiveConnectionList ?c @ [(?n, fd)]" by (simp add: c'_def)
  have act: "active c' = active c @ [fd]" by (simp add: active_def l mi(2))
  have old: "entry_ok c' e" if "e \<in> set (m_ActiveConnectionList ?c)" for e
  proof -
    have "snd e \<noteq> fd" using that fd(2) mi(2) by (auto simp: active_def)
    moreover have "entry_ok ?c e" using that mi(1) by (simp add: cache_inv_def)
    ultimately show ?thesis by (auto simp: entry_ok_def c'_def)
  qed
  have new: "entry_ok c' (?n, fd)" using fd(1) b(2) by (simp add: entry_ok_def c'_def r'_def buf_inv_Reset)
  have n: "?n \<notin> fst ` set (m_ActiveConnectionList ?c)" using mi(1) by (auto simp: cache_inv_def entry_ok_def)
  have "distinct (active c')" using inv fd(2) act by (simp add: cache_inv_def)
  moreover have "distinct (map fst (m_ActiveConnectionList c'))" using mi(1) n l by (simp add: cache_inv_def)
  moreover have "cr_State q = CRS_FREE \<and> (cr_it q = CEnd \<or> cr_it q = CSingular) \<and> buf_inv (cr_buffer q)"
    if "m_ConnectionMap c' k = Some q" "k \<notin> set (active c')" for k q
    using that mi(1,2) act by (auto simp: cache_inv_def c'_def active_def)
  ultimately have "cache_inv c'" using old new l unfolding cache_inv_def by auto
  moreover have "m_itIncompleteMarker c' = m_itIncompleteMarker c" by (simp add: c'_def map_index_def split: option.splits)
  ultimately show ?thesis using run act by blast
qed

lemma Mark_inv:
  assumes inv: "cache_inv c" and fd: "fd = -1 \<or> fd = 0 \<or> valid_fd fd"
  shows "\<exists>c'. cConnectionCache_MarkPendingWrite fd c = Inr c' \<and> cache_inv c' \<and>
    m_ActiveConnectionList c' = m_ActiveConnectionList c"
proof (cases "fd = -1 \<or> fd = 0")
  case True
  then show ?thesis using inv by (auto simp: cConnectionCache_MarkPendingWrite_def cConnectionCache_GetConnectionRecord_def)
next
  case False
  have "cache_inv (upd_record fd (\<lambda>r. r\<lparr>cr_pendingwrite := True\<rparr>) (map_index fd c))"
    using map_index_inv(1)[OF inv, of fd] by (force simp: cache_inv_def upd_record_def active_def entry_ok_def)
  then show ?thesis using False fd map_index_inv(2)[OF inv, of fd]
    by (simp add: cConnectionCache_MarkPendingWrite_def cConnectionCache_GetConnectionRecord_def upd_record_def)
qed

text \<open>The calls of the connection queue.\<close>

datatype cache_op = OpAdd int socket string int | OpFree socket | OpLookup socket | OpMark socket | OpTimeout int int

fun cache_step :: "malloc \<Rightarrow> cache_op \<Rightarrow> cConnectionCache \<Rightarrow> cConnectionCache res option" where
  "cache_step ml (OpAdd now fd addr port) c = Some (cConnectionCache_AddConnection ml now fd addr port c)"
| "cache_step ml (OpFree fd) c = Some (cConnectionCache_FreeConnection fd c)"
| "cache_step ml (OpLookup fd) c =
     Some (bindE (cConnectionCache_GetConnectionRecord fd c) (\<lambda>(_, c). Inr c))"
| "cache_step ml (OpMark fd) c = Some (cConnectionCache_MarkPendingWrite fd c)"
| "cache_step ml (OpTimeout t now) c = cConnectionCache_TimeoutConnections t now c"

text \<open>
  The contract: a new descriptor is not in use, descriptors are in the range the assertions allow,
  and a connection is only freed if it has been added or is unknown.
\<close>

fun op_ok :: "cache_op \<Rightarrow> cConnectionCache \<Rightarrow> bool" where
  "op_ok (OpAdd now fd addr port) c \<longleftrightarrow> valid_fd fd \<and> fd \<notin> set (active c)"
| "op_ok (OpFree fd) c \<longleftrightarrow> \<not> only_looked_up fd c"
| "op_ok (OpLookup fd) c \<longleftrightarrow> fd = -1 \<or> fd = 0 \<or> valid_fd fd"
| "op_ok (OpMark fd) c \<longleftrightarrow> fd = -1 \<or> fd = 0 \<or> valid_fd fd"
| "op_ok (OpTimeout t now) c \<longleftrightarrow> True"

text \<open>The specification: the set of open connections.\<close>

fun cache_spec :: "cache_op \<Rightarrow> cConnectionCache \<Rightarrow> socket list" where
  "cache_spec (OpAdd now fd addr port) c = active c @ [fd]"
| "cache_spec (OpFree fd) c = filter (\<lambda>x. x \<noteq> fd) (active c)"
| "cache_spec (OpLookup fd) c = active c"
| "cache_spec (OpMark fd) c = active c"
| "cache_spec (OpTimeout t now) c = filter (\<lambda>x. \<not> stale t now c x) (active c)"

lemma cache_step_ok:
  assumes ml: "malloc_total ml" and inv: "cache_inv c" and ok: "op_ok p c"
  shows "\<exists>c'. cache_step ml p c = Some (Inr c') \<and> cache_inv c' \<and> active c' = cache_spec p c"
proof (cases p)
  case (OpAdd now fd addr port)
  then show ?thesis using Add_safe[OF ml inv, of fd now addr port] ok by auto
next
  case (OpFree fd)
  show ?thesis
  proof (cases "fd \<in> set (active c)")
    case True
    then show ?thesis using Free_active[OF inv True] OpFree by (auto simp: active_def filter_map comp_def)
  next
    case False
    moreover from False have "filter (\<lambda>x. x \<noteq> fd) (active c) = active c" by (auto simp: filter_id_conv)
    ultimately show ?thesis using Free_inactive[OF inv False] OpFree ok by (auto simp: active_def)
  qed
next
  case (OpLookup fd)
  then show ?thesis using ok inv map_index_inv(1,2)[OF inv, of fd]
    by (auto simp: cConnectionCache_GetConnectionRecord_def active_def)
next
  case (OpMark fd)
  then show ?thesis using Mark_inv[OF inv, of fd] ok by (auto simp: active_def)
next
  case (OpTimeout t now)
  then show ?thesis using timeout_loop_ok[OF inv, of t now] inv
    by (auto simp: cConnectionCache_TimeoutConnections_def active_def)
qed

inductive cache_reach :: "malloc \<Rightarrow> cConnectionCache \<Rightarrow> bool" for ml where
  reach_new: "cache_reach ml cConnectionCache_new"
| reach_step: "cache_reach ml c \<Longrightarrow> op_ok p c \<Longrightarrow> cache_step ml p c = Some (Inr c') \<Longrightarrow> cache_reach ml c'"

lemma cache_reach_inv: "cache_reach ml c \<Longrightarrow> malloc_total ml \<Longrightarrow> cache_inv c"
proof (induction rule: cache_reach.induct)
  case (reach_step c p c')
  then show ?case using cache_step_ok[of ml c p] by auto
qed (rule cache_inv_new)

text \<open>
  (C20) The connection table is consistent in every reachable state: no descriptor is twice in the
  active list, every active connection has a waiting record that points back to its place in the
  list, and the records of closed connections are free. In every such state each operation whose
  contract holds returns without a fault (none blocks), and the active list is then what the
  abstract table holds.
\<close>

theorem cache_consistent:
  assumes "malloc_total ml" "cache_reach ml c" "op_ok p c"
  shows "cache_inv c \<and> (\<exists>c'. cache_step ml p c = Some (Inr c') \<and> cache_inv c' \<and> active c' = cache_spec p c)"
  using cache_reach_inv[OF assms(2,1)] cache_step_ok[OF assms(1) _ assms(3)] by blast

theorem cache_consistent_witness:
  "\<exists>c'. cache_step zero_malloc (OpAdd 100 7 [] 80) cConnectionCache_new = Some (Inr c') \<and> active c' = [7]"
  using cache_consistent[OF malloc_total_zero reach_new, of "OpAdd 100 7 [] 80"]
  by (auto simp: valid_fd_def active_def cConnectionCache_new_def)

text \<open>A table with two open connections, for the examples: the descriptor 5, last used at time 0, and
another one, last used at time 50.\<close>

definition example_record :: "nat \<Rightarrow> socket \<Rightarrow> ConnectionRecord" where
  "example_record n fd = ConnectionRecord_zero\<lparr>cr_Socketfd := fd, cr_timestamp := 50 * int n, cr_State := CRS_WAITING,
     cr_it := CAt n\<rparr>"

definition example_table :: "socket \<Rightarrow> cConnectionCache" where
  "example_table d = cConnectionCache_new\<lparr>m_ActiveConnectionList := [(0, 5), (1, d)],
     m_ConnectionMap := [5 \<mapsto> example_record 0 5, d \<mapsto> example_record 1 d], cc_next := 2\<rparr>"

lemma cache_inv_example: "valid_fd d \<Longrightarrow> d \<noteq> 5 \<Longrightarrow> cache_inv (example_table d)"
  by (auto simp: cache_inv_def active_def entry_ok_def example_table_def example_record_def valid_fd_def
      cConnectionCache_new_def ConnectionRecord_zero_def)

lemma active_example [simp]: "active (example_table d) = [5, d]"
  by (simp add: active_def example_table_def)

theorem timeout_terminates_witness:
  "\<exists>c'. cConnectionCache_TimeoutConnections 60 100 (example_table 7) = Some (Inr c') \<and> active c' = [7] \<and> closed c' = [5]"
proof -
  have "cache_inv (example_table 7)" by (rule cache_inv_example) (simp_all add: valid_fd_def)
  from timeout_terminates[OF this, of 60 100] obtain c' where
    c: "cConnectionCache_TimeoutConnections 60 100 (example_table 7) = Some (Inr c')"
    "active c' = filter (\<lambda>fd. \<not> stale 60 100 (example_table 7) fd) (active (example_table 7))"
    "closed c' = rev (filter (stale 60 100 (example_table 7)) (active (example_table 7))) @ closed (example_table 7)"
    by blast
  have "stale 60 100 (example_table 7) 5" "\<not> stale 60 100 (example_table 7) 7" "closed (example_table 7) = []"
    by (simp_all add: stale_def timed_out_def example_table_def example_record_def ConnectionRecord_zero_def
        cConnectionCache_new_def)
  with c(2,3) have "active c' = [7]" "closed c' = [5]" by simp_all
  with c(1) show ?thesis by blast
qed

theorem poll_all_or_overflow_witness:
  "(\<exists>mx. cConnectionCache_SetActiveConnections [] FD_SETSIZE (example_table 7) = Inr ([7, 5], mx, example_table 7)) \<and>
   cConnectionCache_SetActiveConnections [] FD_SETSIZE (example_table 1024) = Inl MemFault"
proof -
  have i: "cache_inv (example_table 7)" "cache_inv (example_table 1024)"
    by (auto intro!: cache_inv_example simp: valid_fd_def)
  have m: "m_itIncompleteMarker (example_table d) = CEnd" for d
    by (simp add: example_table_def cConnectionCache_new_def)
  have "\<exists>mx. cConnectionCache_SetActiveConnections [] FD_SETSIZE (example_table 7) = Inr ([7, 5], mx, example_table 7)"
    using poll_all_or_overflow[OF i(1) m, of "[]"] by (simp add: FD_SETSIZE_def) blast
  moreover have "cConnectionCache_SetActiveConnections [] FD_SETSIZE (example_table 1024) = Inl MemFault"
    using poll_all_or_overflow[OF i(2) m, of "[]"] by (simp add: FD_SETSIZE_def)
  ultimately show ?thesis by blast
qed

text \<open>
  A connection that the table has never seen cannot be freed after a lookup: the lookup makes a
  record whose list iterator is singular, and freeing that record erases the singular iterator from
  the list.
\<close>

theorem free_after_lookup_faults:
  assumes "valid_fd fd" "m_ConnectionMap c fd = None"
  shows "bindE (cConnectionCache_GetConnectionRecord fd c) (\<lambda>(_, c). cConnectionCache_FreeConnection fd c) =
    Inl BadIterator"
  using assms by (auto simp: cConnectionCache_GetConnectionRecord_def map_index_def valid_fd_def
      cConnectionCache_FreeConnection_def ConnectionRecord_zero_def c_erase_def)

theorem free_after_lookup_faults_witness:
  "bindE (cConnectionCache_GetConnectionRecord 5 cConnectionCache_new)
     (\<lambda>(_, c). cConnectionCache_FreeConnection 5 c) = Inl BadIterator"
  using free_after_lookup_faults[of 5 cConnectionCache_new] by (simp add: valid_fd_def cConnectionCache_new_def)

end
