(* ===== verification/ConnectionQueue.thy ===== *)
theory ConnectionQueue
  imports ConnectionCache PrioQueue
begin

text \<open>
  The connection queue \<open>cConnectionQueue\<close> (\<open>connectionqueue.h\<close>, \<open>connectionqueue.cpp\<close>): the table of
  connections, the queue of outbound messages, and the array in which other threads leave new
  connections for the queue's thread. The array never shrinks: \<open>m_PreQueueIndex\<close> counts the entries
  in use. The reading and writing of sockets (\<open>cConnectionHandlerInbound\<close>,
  \<open>cConnectionHandlerOutbound\<close>) is not part of this theory.
\<close>

record pre_rec =
  pre_Socketfd :: socket
  pre_SocketAddr :: string
  pre_arrivalPort :: int

record cConnectionQueue =
  m_iConnectionTimeout :: int
  m_ConnectionCache :: cConnectionCache
  m_outbound_priority_queue :: "msg_addr list"
  m_PreQueue :: "pre_rec list"
  m_PreQueueIndex :: nat
  m_stReadfds :: "socket list"
  cq_timer :: cTimer

definition cConnectionQueue_new :: "int \<Rightarrow> cConnectionQueue" where
  "cConnectionQueue_new iConnectionTimeout =
     \<lparr>m_iConnectionTimeout = iConnectionTimeout, m_ConnectionCache = cConnectionCache_new,
      m_outbound_priority_queue = [], m_PreQueue = [], m_PreQueueIndex = 0, m_stReadfds = [],
      cq_timer = cTimer_new\<rparr>"

text \<open>\<open>m_PreQueue[i]\<close> is assigned in place; an index outside the vector is a fault.\<close>

definition cConnectionQueue_AddConnection ::
    "socket \<Rightarrow> string \<Rightarrow> int \<Rightarrow> cConnectionQueue \<Rightarrow> cConnectionQueue res" where
  "cConnectionQueue_AddConnection fd addr port q =
     (let rec = \<lparr>pre_Socketfd = 0, pre_SocketAddr = [], pre_arrivalPort = 0\<rparr>;
          q = (if m_PreQueueIndex q \<ge> length (m_PreQueue q) then q\<lparr>m_PreQueue := m_PreQueue q @ [rec]\<rparr> else q)
      in if m_PreQueueIndex q < length (m_PreQueue q)
         then Inr (q\<lparr>m_PreQueue := (m_PreQueue q)[m_PreQueueIndex q :=
                       \<lparr>pre_Socketfd = fd, pre_SocketAddr = addr, pre_arrivalPort = port\<rparr>],
                     m_PreQueueIndex := m_PreQueueIndex q + 1\<rparr>)
         else Inl MemFault)"

text \<open>The loop of \<open>Run\<close> that takes over the new connections.\<close>

fun add_prequeued :: "malloc \<Rightarrow> int \<Rightarrow> pre_rec list \<Rightarrow> cConnectionCache \<Rightarrow> cConnectionCache res" where
  "add_prequeued ml now [] c = Inr c"
| "add_prequeued ml now (r # rs) c =
     bindE (cConnectionCache_AddConnection ml now (pre_Socketfd r) (pre_SocketAddr r) (pre_arrivalPort r) c)
       (add_prequeued ml now rs)"

definition take_over :: "malloc \<Rightarrow> int \<Rightarrow> cConnectionQueue \<Rightarrow> cConnectionQueue res" where
  "take_over ml now q =
     (if m_PreQueueIndex q \<noteq> 0 then
        (if m_PreQueueIndex q \<le> length (m_PreQueue q)
         then bindE (add_prequeued ml now (take (m_PreQueueIndex q) (m_PreQueue q)) (m_ConnectionCache q)) (\<lambda>c.
              Inr (q\<lparr>m_ConnectionCache := c, m_PreQueueIndex := 0\<rparr>))
         else Inl MemFault)
      else Inr q)"

definition cConnectionQueue_FreeConnection :: "socket \<Rightarrow> cConnectionQueue \<Rightarrow> cConnectionQueue res" where
  "cConnectionQueue_FreeConnection fd q =
     bindE (cConnectionCache_FreeConnection fd (m_ConnectionCache q)) (\<lambda>c. Inr (q\<lparr>m_ConnectionCache := c\<rparr>))"

definition cConnectionQueue_PrepareConnections :: "cConnectionQueue \<Rightarrow> (int \<times> cConnectionQueue) res" where
  "cConnectionQueue_PrepareConnections q =
     bindE (cConnectionCache_SetActiveConnections [] FD_SETSIZE (m_ConnectionCache q)) (\<lambda>(fds, mx, c).
     Inr (mx, q\<lparr>m_stReadfds := fds, m_ConnectionCache := c\<rparr>))"

text \<open>\<open>pMsg\<close> is the message at \<open>a\<close>. A failed assertion in \<open>MarkPendingWrite\<close> is caught and logged.\<close>

definition cConnectionQueue_SendMsg :: "msg_addr \<Rightarrow> cMsg \<Rightarrow> cConnectionQueue \<Rightarrow> cConnectionQueue res" where
  "cConnectionQueue_SendMsg a pMsg q =
     (let q = q\<lparr>m_outbound_priority_queue := pq_push a (m_outbound_priority_queue q)\<rparr>;
          mark = (\<lambda>fd. case cConnectionCache_MarkPendingWrite fd (m_ConnectionCache q) of
                         Inr c \<Rightarrow> Inr (q\<lparr>m_ConnectionCache := c\<rparr>)
                       | Inl e \<Rightarrow> if e = AssertFailed then Inr q else Inl e)
      in if cMsg_GetConnectionType pMsg = MSG_CT_OB_TCP then mark (cMsg_GetTCPSocketHandle pMsg)
         else if cMsg_GetConnectionType pMsg = MSG_CT_OB_UDP then mark (cMsg_GetUDPSocketHandle pMsg)
         else Inr q)"

section \<open>New connections\<close>

text \<open>The connections left for the queue's thread.\<close>

definition waiting :: "cConnectionQueue \<Rightarrow> pre_rec list" where
  "waiting q = take (m_PreQueueIndex q) (m_PreQueue q)"

definition pre_inv :: "cConnectionQueue \<Rightarrow> bool" where
  "pre_inv q \<longleftrightarrow> m_PreQueueIndex q \<le> length (m_PreQueue q)"

lemma AddConnection_waiting:
  assumes "pre_inv q"
  shows "\<exists>q'. cConnectionQueue_AddConnection fd addr port q = Inr q' \<and> pre_inv q' \<and>
    waiting q' = waiting q @ [\<lparr>pre_Socketfd = fd, pre_SocketAddr = addr, pre_arrivalPort = port\<rparr>] \<and>
    m_ConnectionCache q' = m_ConnectionCache q \<and>
    m_outbound_priority_queue q' = m_outbound_priority_queue q"
proof (cases "m_PreQueueIndex q = length (m_PreQueue q)")
  case True
  then show ?thesis by (simp add: cConnectionQueue_AddConnection_def pre_inv_def waiting_def Let_def list_update_append)
next
  case False
  then have "m_PreQueueIndex q < length (m_PreQueue q)" using assms by (simp add: pre_inv_def)
  then show ?thesis
    by (simp add: cConnectionQueue_AddConnection_def pre_inv_def waiting_def Let_def take_Suc_conv_app_nth)
qed

fun add_all :: "pre_rec list \<Rightarrow> cConnectionQueue \<Rightarrow> cConnectionQueue res" where
  "add_all [] q = Inr q"
| "add_all (r # rs) q =
     bindE (cConnectionQueue_AddConnection (pre_Socketfd r) (pre_SocketAddr r) (pre_arrivalPort r) q) (add_all rs)"

lemma add_all_waiting:
  assumes "pre_inv q"
  shows "\<exists>q'. add_all rs q = Inr q' \<and> pre_inv q' \<and> waiting q' = waiting q @ rs \<and>
    m_ConnectionCache q' = m_ConnectionCache q \<and> m_outbound_priority_queue q' = m_outbound_priority_queue q"
  using assms
proof (induction rs arbitrary: q)
  case (Cons r rs)
  from AddConnection_waiting[OF Cons.prems] obtain q1 where
    "cConnectionQueue_AddConnection (pre_Socketfd r) (pre_SocketAddr r) (pre_arrivalPort r) q = Inr q1" "pre_inv q1"
    "waiting q1 = waiting q @ [r]" "m_ConnectionCache q1 = m_ConnectionCache q"
    "m_outbound_priority_queue q1 = m_outbound_priority_queue q"
    by force
  with Cons.IH[of q1] show ?case by auto
qed simp

lemma add_prequeued_ok:
  assumes "malloc_total ml" "cache_inv c" "distinct (map pre_Socketfd rs)"
    and "\<forall>r \<in> set rs. valid_fd (pre_Socketfd r) \<and> pre_Socketfd r \<notin> set (active c)"
  shows "\<exists>c'. add_prequeued ml now rs c = Inr c' \<and> cache_inv c' \<and> active c' = active c @ map pre_Socketfd rs"
  using assms
proof (induction rs arbitrary: c)
  case (Cons r rs)
  obtain c1 where c1: "cConnectionCache_AddConnection ml now (pre_Socketfd r) (pre_SocketAddr r) (pre_arrivalPort r) c = Inr c1"
    "cache_inv c1" "active c1 = active c @ [pre_Socketfd r]"
    using Add_safe[of ml c "pre_Socketfd r" now] Cons.prems by force
  have "\<exists>c'. add_prequeued ml now rs c1 = Inr c' \<and> cache_inv c' \<and> active c' = active c1 @ map pre_Socketfd rs"
    using Cons.prems c1 by (intro Cons.IH) (auto simp: image_iff)
  with c1 show ?case by auto
qed simp

text \<open>
  No new connection is lost or taken over twice: if other threads leave any number of new
  connections (with fresh descriptors) between two turns of the connection thread, the next turn
  adds all of them to the table, in the order of their arrival, and leaves the hand-over array
  empty, however large the array has grown before.
\<close>

theorem connections_taken_over:
  assumes ml: "malloc_total ml" and inv: "pre_inv q" "waiting q = []" "cache_inv (m_ConnectionCache q)"
    and fds: "distinct (map pre_Socketfd rs)"
      "\<forall>r \<in> set rs. valid_fd (pre_Socketfd r) \<and> pre_Socketfd r \<notin> set (active (m_ConnectionCache q))"
  shows "\<exists>q'. bindE (add_all rs q) (take_over ml now) = Inr q' \<and> pre_inv q' \<and> waiting q' = [] \<and>
    cache_inv (m_ConnectionCache q') \<and>
    active (m_ConnectionCache q') = active (m_ConnectionCache q) @ map pre_Socketfd rs"
proof -
  obtain q1 where q1: "add_all rs q = Inr q1" "pre_inv q1" "waiting q1 = rs" "m_ConnectionCache q1 = m_ConnectionCache q"
    using add_all_waiting[OF inv(1), of rs] inv(2) by auto
  obtain c where c: "add_prequeued ml now rs (m_ConnectionCache q1) = Inr c" "cache_inv c"
    "active c = active (m_ConnectionCache q) @ map pre_Socketfd rs"
    using add_prequeued_ok[OF ml inv(3) fds] q1(4) by auto
  show ?thesis
  proof (cases "m_PreQueueIndex q1 = 0")
    case True
    then have "rs = []" using q1(3) by (simp add: waiting_def)
    with True q1 inv(3) show ?thesis by (simp add: take_over_def waiting_def)
  next
    case False
    with q1 c show ?thesis by (simp add: take_over_def waiting_def pre_inv_def)
  qed
qed

theorem connections_taken_over_witness:
  "\<exists>q'. bindE (add_all [\<lparr>pre_Socketfd = 5, pre_SocketAddr = [], pre_arrivalPort = 80\<rparr>] (cConnectionQueue_new 60))
      (take_over zero_malloc 100) = Inr q' \<and> active (m_ConnectionCache q') = [5]"
  using connections_taken_over[OF malloc_total_zero, of "cConnectionQueue_new 60"
      "[\<lparr>pre_Socketfd = 5, pre_SocketAddr = [], pre_arrivalPort = 80\<rparr>]" 100] cache_inv_new
  by (auto simp: pre_inv_def waiting_def cConnectionQueue_new_def valid_fd_def active_def cConnectionCache_new_def)

end
