(* ===== verification/MsgQueue.thy ===== *)
theory MsgQueue
  imports MsgPool MsgRouter Service Url SysMetrics ConnectionQueue
begin

text \<open>
  The message queue \<open>cMsgQueue\<close> (\<open>msgqueue.h\<close>, \<open>msgqueue.cpp\<close>), the centre of the server: it hands
  out messages from the pool, moves dispatched messages into its priority queue, gives each to a
  command handler, to the connection queue or back for a retry, and returns finished messages to the
  pool. Its state extends the store of messages with the queue and the components it calls.

  Pointers to those components are values here. The metrics pointer is null until
  \<open>SetSysMetrics\<close>. SQLite is a parameter: the result of \<open>sqlite3_prepare\<close> and, for each row,
  whether \<open>sqlite3_step\<close> reports success.
\<close>

record db_row =
  fldMsgID :: string
  fldMsgConnectionType :: eMsgConnectionType
  fldMsgFormat :: eMsgFormat
  fldMsgResponseCode :: int
  fldMsgState :: eMsgState
  fldCommand :: string
  fldTo :: string
  fldFrom :: string
  fldCRC32 :: int
  fldContentType :: string
  fldContentLength :: int
  fldPayload :: payload

record cMsgQueue = sys +
  m_priority_queue :: "msg_addr list"
  m_timer :: cTimer
  m_bUseDB :: bool
  m_pCommandHandlerFactory :: cCommandHandlerFactory
  m_pRouterRulesEngine :: cMsgRouterRulesEngine
  m_pServiceEngine :: cService
  m_pSysMetrics :: "cSysMetrics option"
  m_pConnectionQueue :: cConnectionQueue
  m_dbFile :: "db_row list"

definition MAX_MSG_RETRY :: int where "MAX_MSG_RETRY = 10"
definition HRC_MSG_QUEUE_OK :: int where "HRC_MSG_QUEUE_OK = 0"
definition HRC_MSG_QUEUE_DB_FAILED :: int where "HRC_MSG_QUEUE_DB_FAILED = 5"

section \<open>Making messages\<close>

definition cMsgQueue_CreateMessage :: "env \<Rightarrow> cMsgQueue \<Rightarrow> (msg_addr \<times> cMsgQueue) res" where
  "cMsgQueue_CreateMessage ev s = cMsgPool_GetMessage ev s"

text \<open>What \<open>CreateMessageReply\<close> sets in the new message \<open>n\<close>, from the message \<open>t\<close> it replies to.\<close>

definition reply_fields :: "cMsg \<Rightarrow> cMsg \<Rightarrow> cMsg" where
  "reply_fields t n =
     (let n = cMsg_SetTCPSocketHandle (cMsg_GetTCPSocketHandle t) n;
          n = cMsg_SetKeepAlive (cMsg_IsKeepAlive t) n;
          n = (if cMsg_GetConnectionType t = MSG_CT_INTERNAL then cMsg_SetConnectionType MSG_CT_INTERNAL n
               else if cMsg_GetConnectionType t = MSG_CT_IB_UDP then cMsg_SetConnectionType MSG_CT_OB_UDP n
               else if cMsg_GetConnectionType t = MSG_CT_IB_TCP then cMsg_SetConnectionType MSG_CT_OB_TCP n
               else n);
          n = (if cMsg_GetConnectionType t = MSG_CT_INTERNAL then cMsg_SetCommand (cMsg_GetFrom t) n else n);
          n = cMsg_SetMsgID (cMsg_GetMsgID t) n;
          n = cMsg_SetFormat MSG_FORMAT_RES n;
          n = cMsg_SetTo (cMsg_GetFrom t) n;
          n = cMsg_SetMsgPriority (cMsg_GetMsgPriority t) n;
          n = (if cMsg_GetConnectionType t = MSG_CT_INTERNAL
               then cMsg_SetNotifyAction MSG_NOTIFY_ACTION_NO (cMsg_SetReplyAction MSG_REPLY_ACTION_NONE n)
               else
                 cMsg_SetSourcePort (cMsg_GetSourcePort t)
                   (cMsg_SetSourceIP (cMsg_GetSourceIP t)
                   (cMsg_SetUDPSocketHandle (cMsg_GetUDPSocketHandle t)
                   (cMsg_SetNotifyAction (cMsg_GetNotifyAction t)
                   (cMsg_SetReplyAction (cMsg_GetReplyAction t) n)))));
          n = cMsg_SetProtocolType (cMsg_GetProtocolType t) n;
          n = cMsg_SetArrivalPort (cMsg_GetArrivalPort t) n
      in cMsg_SetBench (cMsg_GetBench t) n)"

text \<open>The final assertion tests a pointer to a string's characters, which is never null.\<close>

definition cMsgQueue_CreateMessageReply :: "env \<Rightarrow> msg_addr option \<Rightarrow> cMsgQueue \<Rightarrow> (msg_addr \<times> cMsgQueue) res" where
  "cMsgQueue_CreateMessageReply ev pTo s =
     bindE (cMsgPool_GetMessage ev s) (\<lambda>(a, s).
     case pTo of
       None \<Rightarrow> Inr (a, s)
     | Some b \<Rightarrow>
         bindE (upd_msg b cMsg_SetCloned s) (\<lambda>s.
         bindE (get_msg b s) (\<lambda>t.
         bindE (upd_msg a (reply_fields t) s) (\<lambda>s. Inr (a, s)))))"

definition cMsgQueue_CreateInternalMessage :: "env \<Rightarrow> cMsgQueue \<Rightarrow> (msg_addr \<times> cMsgQueue) res" where
  "cMsgQueue_CreateInternalMessage ev s =
     bindE (cMsgPool_GetMessage ev s) (\<lambda>(a, s).
     bindE (upd_msg a (\<lambda>m. cMsg_SetNotifyAction MSG_NOTIFY_ACTION_NO
              (cMsg_SetReplyAction MSG_REPLY_ACTION_NONE (cMsg_SetConnectionType MSG_CT_INTERNAL m))) s) (\<lambda>s.
     Inr (a, s)))"

definition notify_fields :: "cMsg \<Rightarrow> cMsg \<Rightarrow> cMsg" where
  "notify_fields t n =
     (let n = cMsg_SetTCPSocketHandle (cMsg_GetTCPSocketHandle t) n;
          n = (if cMsg_GetConnectionType t = MSG_CT_IB_UDP then cMsg_SetConnectionType MSG_CT_OB_UDP n
               else if cMsg_GetConnectionType t = MSG_CT_IB_TCP then cMsg_SetConnectionType MSG_CT_OB_TCP n
               else n);
          n = cMsg_SetMsgID (cMsg_GetMsgID t) n;
          n = cMsg_SetFormat MSG_FORMAT_NOTIFY n;
          n = cMsg_SetTo (cMsg_GetFrom t) n;
          n = cMsg_SetMsgPriority (MSG_PRIORITY_HIGHEST + 1000) n;
          n = cMsg_SetReplyAction MSG_REPLY_ACTION_NOWAIT n;
          n = cMsg_SetProtocolType MSG_PROTOCOL_MCP n;
          n = cMsg_SetNotifyAction MSG_NOTIFY_ACTION_YES n
      in cMsg_SetBench (cMsg_GetBench t) n)"

definition cMsgQueue_PostNotifyMessage :: "env \<Rightarrow> msg_addr \<Rightarrow> cMsgQueue \<Rightarrow> cMsgQueue res" where
  "cMsgQueue_PostNotifyMessage ev b s =
     bindE (cMsgPool_GetMessage ev s) (\<lambda>(a, s).
     bindE (get_msg b s) (\<lambda>t.
     upd_msg a (\<lambda>n. cMsg_DispatchMsg (e_name ev) (e_addr ev) (notify_fields t n)) s))"

text \<open>A log record: the message is a command to the logger with the url-encoded text.\<close>

definition logger_fields :: "cMsg \<Rightarrow> cMsg" where
  "logger_fields m =
     (let m = cMsg_SetCommand ''LOGGER'' m;
          m = cMsg_SetContentType ''text/s-expression'' m;
          m = cMsg_SetConnectionType MSG_CT_INTERNAL m;
          m = cMsg_SetMsgPriority MSG_PRIORITY_LOWEST m;
          m = cMsg_SetProtocolType MSG_PROTOCOL_MCP m;
          m = cMsg_SetReplyAction MSG_REPLY_ACTION_NONE m;
          m = cMsg_SetNotifyAction MSG_NOTIFY_ACTION_NO m
      in cMsg_SetMsgID ''0'' m)"

definition cMsgQueue_SendToLogger :: "env \<Rightarrow> string option \<Rightarrow> string option \<Rightarrow> cMsgQueue \<Rightarrow> cMsgQueue res" where
  "cMsgQueue_SendToLogger ev pCategory pLogMessage s =
     (case (pCategory, pLogMessage) of
        (Some cat, Some msg) \<Rightarrow>
          if cat = [] \<or> msg = [] then Inr s
          else
            bindE (cMsgQueue_CreateMessage ev s) (\<lambda>(a, s).
            bindE (upd_msg a logger_fields s) (\<lambda>s.
            bindE (cURL_Encode (e_malloc ev) msg) (\<lambda>urlEncoded.
            let sExpression = ''(LOGGER ('' @ cat @ '' \"'' @ urlEncoded @ ''\"))'' in
            bindE (get_msg a s) (\<lambda>m.
            bindE (cMsg_SetContentPayload (e_malloc ev) a (Some (cstr sExpression)) (int (length sExpression)) m) (\<lambda>m.
            upd_msg a (\<lambda>_. cMsg_DispatchMsg (e_name ev) (e_addr ev) m) s)))))
      | _ \<Rightarrow> Inr s)"

section \<open>Walks over the pool\<close>

text \<open>The frame of the three loops: lock, first message, loop, unlock.\<close>

definition pool_loop :: "(msg_addr \<Rightarrow> cMsgQueue \<Rightarrow> cMsgQueue res) \<Rightarrow> cMsgQueue \<Rightarrow> cMsgQueue res" where
  "pool_loop body s =
     (case cMsgPool_GetHead (pool s) of
        (None, p) \<Rightarrow> Inr (s\<lparr>pool := cMsgPool_Unlock p\<rparr>)
      | (Some a, p) \<Rightarrow>
          bindE (walk body (length (m_Messages p)) a (s\<lparr>pool := p\<rparr>)) (\<lambda>s.
          Inr (upd_pool cMsgPool_Unlock s)))"

text \<open>The third case of \<open>ProcessPendingMessages\<close>: a message no handler could take.\<close>

definition retry_msg :: "int \<Rightarrow> cMsg \<Rightarrow> cMsg" where
  "retry_msg now m =
     (if cMsg_GetSendRetryCount m \<noteq> 0 \<and> cMsg_GetMsgLastRetryTS m + cMsg_GetSendRetryDelay m > now then m
      else
        (let lastAttempt = cMsg_GetMsgLastRetryTS m in
         if lastAttempt = 0
         then cMsg_SetMsgState MSG_STATE_PENDING (cMsg_SetSendRetryCount 1 (cMsg_SetMsgLastRetryTS now m))
         else
           (let iRetryCount = cMsg_GetSendRetryCount m in
            if iRetryCount > MAX_MSG_RETRY - 1 then cMsg_SetMsgState MSG_STATE_MARKFORREUSE m
            else
              (let m = cMsg_SetSendRetryCount (iRetryCount + 1) (cMsg_SetMsgLastRetryTS now m);
                   iRetryDelay = cMsg_GetSendRetryDelay m
               in cMsg_SetMsgState MSG_STATE_PENDING (cMsg_SetSendRetryDelay (iRetryDelay + iRetryDelay) m)))))"

definition pending_body :: "int \<Rightarrow> msg_addr \<Rightarrow> cMsgQueue \<Rightarrow> cMsgQueue res" where
  "pending_body now a s =
     bindE (get_msg a s) (\<lambda>m.
     let msgState = cMsg_GetMsgState m in
     if msgState = MSG_STATE_PENDING then
       bindE (upd_msg a (cMsg_SetMsgState MSG_STATE_INUSE) s) (\<lambda>s.
       if cMsg_GetConnectionType m \<noteq> MSG_CT_NOTSET
       then Inr (s\<lparr>m_priority_queue := pq_push a (m_priority_queue s)\<rparr>)
       else Inl AssertFailed)
     else if msgState = MSG_STATE_UNDELIVERED \<and> cMsg_GetTCPSocketHandle m \<noteq> -1 then
       upd_msg a (cMsg_SetMsgState MSG_STATE_MARKFORREUSE) s
     else if msgState = MSG_STATE_UNDELIVERED \<and> cMsg_GetTCPSocketHandle m = -1 then
       upd_msg a (retry_msg now) s
     else Inr s)"

definition cMsgQueue_ProcessPendingMessages :: "int \<Rightarrow> cMsgQueue \<Rightarrow> cMsgQueue res" where
  "cMsgQueue_ProcessPendingMessages now s = pool_loop (pending_body now) (upd_pool cMsgPool_Lock s)"

definition flush_body :: "int \<Rightarrow> msg_addr \<Rightarrow> cMsgQueue \<Rightarrow> cMsgQueue res" where
  "flush_body currentTime a s =
     bindE (get_msg a s) (\<lambda>m.
     let msgState = cMsg_GetMsgState m in
     bindE (if msgState = MSG_STATE_INACTIVE \<or> msgState = MSG_STATE_DELIVERED \<or> msgState = MSG_STATE_PROCESSED
            then upd_msg a (cMsg_SetMsgState MSG_STATE_MARKFORREUSE) s else Inr s) (\<lambda>s.
     bindE (get_msg a s) (\<lambda>m.
     if msgState = MSG_STATE_INACTIVE \<and> currentTime - cMsg_GetMsgInUseTS m > 60 then
       bindE (cMsgPool_DeleteCurrent (pool s)) (\<lambda>p. delete_msg a (s\<lparr>pool := p\<rparr>))
     else if cMsg_GetMsgState m = MSG_STATE_MARKFORREUSE then cMsgPool_ReturnToPool a s
     else Inr s)))"

definition cMsgQueue_FlushMessages :: "int \<Rightarrow> cMsgQueue \<Rightarrow> cMsgQueue res" where
  "cMsgQueue_FlushMessages now s =
     pool_loop (flush_body now) (upd_pool cMsgPool_FlushFreeStack (upd_pool cMsgPool_Lock s))"

definition row_of :: "cMsg \<Rightarrow> db_row" where
  "row_of m = \<lparr>fldMsgID = cMsg_GetMsgID m, fldMsgConnectionType = cMsg_GetConnectionType m,
     fldMsgFormat = cMsg_GetFormat m, fldMsgResponseCode = cMsg_GetResponseCode m,
     fldMsgState = cMsg_GetMsgState m, fldCommand = cMsg_GetCommand m, fldTo = cMsg_GetTo m,
     fldFrom = cMsg_GetFrom m, fldCRC32 = atoi (cMsg_GetCRC32 m), fldContentType = cMsg_GetContentType m,
     fldContentLength = cMsg_GetContentLength m, fldPayload = cMsg_GetContentPayload m\<rparr>"

definition flush_db_body :: "(db_row \<Rightarrow> bool) \<Rightarrow> msg_addr \<Rightarrow> cMsgQueue \<Rightarrow> cMsgQueue res" where
  "flush_db_body step a s =
     bindE (get_msg a s) (\<lambda>m.
     let msgState = cMsg_GetMsgState m in
     if msgState = MSG_STATE_UNDELIVERED \<or> msgState = MSG_STATE_DELIVERED \<or> msgState = MSG_STATE_PROCESSED then
       (if step (row_of m)
        then upd_msg a (cMsg_SetMsgState MSG_STATE_MARKFORREUSE) (s\<lparr>m_dbFile := m_dbFile s @ [row_of m]\<rparr>)
        else Inr s)
     else Inr s)"

text \<open>\<open>prep\<close>: the result code of \<open>sqlite3_prepare\<close> and whether it left a statement.\<close>

definition cMsgQueue_FlushMessagesToDB ::
    "int \<times> bool \<Rightarrow> (db_row \<Rightarrow> bool) \<Rightarrow> cMsgQueue \<Rightarrow> (int \<times> cMsgQueue) res" where
  "cMsgQueue_FlushMessagesToDB prep step s =
     (if fst prep \<noteq> 0 \<and> \<not> snd prep then Inr (HRC_MSG_QUEUE_DB_FAILED, s)
      else
        (let s = upd_pool cMsgPool_Lock s in
         bindE (pool_loop (flush_db_body step) s) (\<lambda>s'.
         Inr (if m_Messages (pool s) = [] then fst prep else HRC_MSG_QUEUE_OK, s'))))"

section \<open>Processing a message\<close>

definition inc_delivered :: "cMsgQueue \<Rightarrow> cMsgQueue res" where
  "inc_delivered s =
     (case m_pSysMetrics s of
        None \<Rightarrow> Inl MemFault
      | Some x \<Rightarrow> bindE (cSysMetrics_IncMsgDelivered x) (\<lambda>x. Inr (s\<lparr>m_pSysMetrics := Some x\<rparr>)))"

text \<open>\<open>m_pSysMetrics->IncMsgDelivered(); pHandler->OnProcess(pIMsg)\<close>.\<close>

definition deliver :: "string option \<Rightarrow> msg_addr \<Rightarrow> cMsgQueue \<Rightarrow> cMsgQueue res" where
  "deliver h a s =
     bindE (inc_delivered s) (\<lambda>s.
     bindE (handler_OnProcess h a (m_pCommandHandlerFactory s)) (\<lambda>f.
     Inr (s\<lparr>m_pCommandHandlerFactory := f\<rparr>)))"

definition cMsgQueue_ProcessInternalMessage :: "msg_addr \<Rightarrow> cMsgQueue \<Rightarrow> cMsgQueue res" where
  "cMsgQueue_ProcessInternalMessage a s =
     bindE (get_msg a s) (\<lambda>m.
     let pHandler = cCommandHandlerFactory_GetCommandHandler (cMsg_GetCommand m) (m_pCommandHandlerFactory s) in
     if pHandler \<noteq> None then deliver pHandler a s
     else upd_msg a (cMsg_SetMsgState MSG_STATE_UNDELIVERED) s)"

text \<open>The part of \<open>ProcessInboundMessage\<close> after the handler has been looked for.\<close>

definition inbound_handle :: "string option \<Rightarrow> msg_addr \<Rightarrow> cMsgQueue \<Rightarrow> cMsgQueue res" where
  "inbound_handle pHandler a s =
     (if pHandler = None then
        bindE (get_msg a s) (\<lambda>m.
        let (pService, sv) = cService_QueryServiceFirst (Some (cMsg_GetCommand m)) (m_pServiceEngine s);
            s = s\<lparr>m_pServiceEngine := sv\<rparr>;
            mc = cCommandHandlerFactory_GetCommandHandler ''MC'' (m_pCommandHandlerFactory s) in
        if pService \<noteq> None then
          bindE (upd_msg a (cMsg_SetRemoteHandler pService) s) (deliver mc a)
        else
          bindE (upd_msg a (cMsg_SetCommand ''MC.ERROR'') s) (deliver mc a))
      else deliver pHandler a s)"

definition cMsgQueue_ProcessInboundMessage :: "env \<Rightarrow> regex \<Rightarrow> msg_addr \<Rightarrow> cMsgQueue \<Rightarrow> cMsgQueue res" where
  "cMsgQueue_ProcessInboundMessage ev rx a s =
     bindE (get_msg a s) (\<lambda>m.
     bindE (if cMsg_GetNotifyAction m = MSG_NOTIFY_ACTION_YES
            then bindE (cMsgQueue_PostNotifyMessage ev a s) (upd_msg a (cMsg_SetNotifyAction MSG_NOTIFY_ACTION_NO))
            else Inr s) (\<lambda>s.
     bindE (get_msg a s) (\<lambda>m.
     if starts_with ''MCP/'' (cMsg_GetCommand m)
     then deliver (cCommandHandlerFactory_GetCommandHandler ''MC'' (m_pCommandHandlerFactory s)) a s
     else
       bindE (cMsgRouterRulesEngine_Search rx (m_pRouterRulesEngine s) m) (\<lambda>(Match, e, m').
       bindE (upd_msg a (\<lambda>_. m') (s\<lparr>m_pRouterRulesEngine := e\<rparr>)) (\<lambda>s.
       inbound_handle
         (case Match of
            Some r \<Rightarrow>
              if r \<noteq> [] then cCommandHandlerFactory_GetCommandHandler (c_prefix r) (m_pCommandHandlerFactory s)
              else cCommandHandlerFactory_GetCommandHandler (cMsg_GetCommand m') (m_pCommandHandlerFactory s)
          | None \<Rightarrow> cCommandHandlerFactory_GetCommandHandler (cMsg_GetCommand m') (m_pCommandHandlerFactory s))
         a s)))))"

definition cMsgQueue_ProcessOutboundMessage :: "msg_addr \<Rightarrow> cMsgQueue \<Rightarrow> cMsgQueue res" where
  "cMsgQueue_ProcessOutboundMessage a s =
     bindE (get_msg a s) (\<lambda>m.
     if cMsg_GetReplyAction m \<noteq> MSG_REPLY_ACTION_NONE
     then bindE (cConnectionQueue_SendMsg a m (m_pConnectionQueue s)) (\<lambda>q. Inr (s\<lparr>m_pConnectionQueue := q\<rparr>))
     else upd_msg a cMsg_MarkProcessed s)"

text \<open>The position \<open>i\<close> of the top is chosen by the caller among the admissible ones.\<close>

definition cMsgQueue_ProcessPriorityQueue :: "env \<Rightarrow> regex \<Rightarrow> nat \<Rightarrow> cMsgQueue \<Rightarrow> cMsgQueue res" where
  "cMsgQueue_ProcessPriorityQueue ev rx i s =
     (let a = m_priority_queue s ! i; s = s\<lparr>m_priority_queue := pq_remove i (m_priority_queue s)\<rparr> in
      bindE (get_msg a s) (\<lambda>m.
      if cMsg_GetConnectionType m = MSG_CT_INTERNAL then cMsgQueue_ProcessInternalMessage a s
      else if cMsg_GetConnectionType m = MSG_CT_OB_UDP \<or> cMsg_GetConnectionType m = MSG_CT_OB_TCP
      then cMsgQueue_ProcessOutboundMessage a s
      else if cMsg_GetConnectionType m = MSG_CT_IB_UDP \<or> cMsg_GetConnectionType m = MSG_CT_IB_TCP
      then cMsgQueue_ProcessInboundMessage ev rx a s
      else Inl AssertFailed))"

text \<open>Which messages of the store may be on top: no other message of the queue is more important.\<close>

definition queue_less :: "msg_heap \<Rightarrow> msg_addr \<Rightarrow> msg_addr \<Rightarrow> bool" where
  "queue_less h a b =
     (case (h a, h b) of (Some x, Some y) \<Rightarrow> cMsgPriorityComp x y | _ \<Rightarrow> False)"

text \<open>One turn of \<open>Run\<close>; \<open>db\<close> is the behaviour of SQLite.\<close>

definition cMsgQueue_Run_turn ::
    "env \<Rightarrow> regex \<Rightarrow> (int \<times> bool) \<times> (db_row \<Rightarrow> bool) \<Rightarrow> nat \<Rightarrow> cMsgQueue \<Rightarrow> cMsgQueue res" where
  "cMsgQueue_Run_turn ev rx db i s =
     bindE (cMsgQueue_ProcessPendingMessages (e_now ev) s) (\<lambda>s.
     bindE (if m_priority_queue s \<noteq> [] then cMsgQueue_ProcessPriorityQueue ev rx i s else Inr s) (\<lambda>s.
     if cTimer_IsReady (e_now ev) (m_timer s) then
       bindE (if m_bUseDB s then bindE (cMsgQueue_FlushMessagesToDB (fst db) (snd db) s) (\<lambda>(_, s). Inr s)
              else cMsgQueue_FlushMessages (e_now ev) s) (\<lambda>s.
       Inr (s\<lparr>m_timer := cTimer_Reset (e_now ev) (m_timer s)\<rparr>))
     else Inr s))"

definition cMsgQueue_new ::
    "cUniqueIDProvider \<Rightarrow> cCommandHandlerFactory \<Rightarrow> cMsgRouterRulesEngine \<Rightarrow> cService \<Rightarrow> cConnectionQueue \<Rightarrow> cMsgQueue" where
  "cMsgQueue_new p f e sv q =
     \<lparr>heap = Map.empty, next_addr = 0, uid = p, pool = cMsgPool_new, m_priority_queue = [], m_timer = cTimer_new,
      m_bUseDB = False, m_pCommandHandlerFactory = f, m_pRouterRulesEngine = e, m_pServiceEngine = sv,
      m_pSysMetrics = None, m_pConnectionQueue = q, m_dbFile = []\<rparr>"

definition cMsgQueue_SetSysMetrics :: "cSysMetrics \<Rightarrow> cMsgQueue \<Rightarrow> cMsgQueue" where
  "cMsgQueue_SetSysMetrics x s = s\<lparr>m_pSysMetrics := Some x\<rparr>"

text \<open>The start of \<open>Run\<close>.\<close>

definition cMsgQueue_Run_start :: "int \<Rightarrow> cMsgQueue \<Rightarrow> cMsgQueue" where
  "cMsgQueue_Run_start now s = s\<lparr>m_timer := cTimer_Start now (cTimer_SetInterval 1 (m_timer s))\<rparr>"

text \<open>\<open>UseDatabase\<close>: \<open>err\<close> is the error code after \<open>sqlite3_open\<close>.\<close>

definition cMsgQueue_UseDatabase :: "int \<Rightarrow> int \<Rightarrow> int \<Rightarrow> cMsgQueue \<Rightarrow> int \<times> cMsgQueue" where
  "cMsgQueue_UseDatabase err now iFlushInterval s =
     (if err \<noteq> 0 then (HRC_MSG_QUEUE_DB_FAILED, s)
      else (HRC_MSG_QUEUE_OK, s\<lparr>m_bUseDB := True,
              m_timer := cTimer_Start now (cTimer_SetInterval iFlushInterval (m_timer s))\<rparr>))"

section \<open>Loops over the pool\<close>

lemma GetHead_locked:
  "m_bLocked p \<Longrightarrow> cMsgPool_GetHead p =
     (case m_Messages p of [] \<Rightarrow> (None, p\<lparr>m_it := ItEnd\<rparr>) | a # _ \<Rightarrow> (Some a, p\<lparr>m_it := ItAt a\<rparr>))"
  by (simp add: cMsgPool_GetHead_def first_it_def it_deref_def Let_def split: list.splits)

text \<open>A loop whose body leaves the list of messages and the iterator alone.\<close>

lemma pool_loop_all:
  assumes l: "m_bLocked (pool s)" "m_Messages (pool s) = l" "distinct l"
    and step: "\<And>us a vs s. I us s \<Longrightarrow> us @ a # vs = l \<Longrightarrow> pool_at (ItAt a) l s \<Longrightarrow>
      \<exists>s'. f a s = Inr s' \<and> pool_at (ItAt a) l s' \<and> I (us @ [a]) s'"
    and it: "\<And>us s i. I us s \<Longrightarrow> I us (s\<lparr>pool := (pool s)\<lparr>m_it := i\<rparr>\<rparr>)"
    and start: "I [] s"
  shows "\<exists>s1. pool_loop f s = Inr (upd_pool cMsgPool_Unlock s1) \<and> I l s1 \<and> m_Messages (pool s1) = l"
proof (cases l)
  case Nil
  then show ?thesis using l it[OF start, of ItEnd] unfolding pool_loop_def GetHead_locked[OF l(1)]
    by (intro exI[of _ "s\<lparr>pool := (pool s)\<lparr>m_it := ItEnd\<rparr>\<rparr>"]) (simp add: upd_pool_def)
next
  case (Cons b bs)
  let ?s = "s\<lparr>pool := (pool s)\<lparr>m_it := ItAt b\<rparr>\<rparr>"
  have "\<exists>s'. walk f (length l) (hd l) ?s = Inr s' \<and> I l s' \<and> pool_at ItEnd l s'"
    by (rule walk_all[OF step it it[OF start]]) (use l Cons in \<open>auto simp: pool_at_def\<close>)
  then show ?thesis using l Cons unfolding pool_loop_def GetHead_locked[OF l(1)]
    by (auto simp: pool_at_def)
qed

text \<open>A loop that returns keeps whatever its body and the iterator keep.\<close>

lemma walk_keeps:
  assumes "walk f n a s = Inr s'" "P s"
    and "\<And>a s s'. P s \<Longrightarrow> f a s = Inr s' \<Longrightarrow> P s'" "\<And>s i. P s \<Longrightarrow> P (s\<lparr>pool := (pool s)\<lparr>m_it := i\<rparr>\<rparr>)"
  shows "P s'"
  using assms(1,2)
proof (induction n arbitrary: a s)
  case (Suc n)
  then obtain s1 r p where 1: "f a s = Inr s1" "cMsgPool_GetNext (pool s1) = Inr (r, p)"
    "(case r of None \<Rightarrow> Inr (s1\<lparr>pool := p\<rparr>) | Some b \<Rightarrow> walk f n b (s1\<lparr>pool := p\<rparr>)) = Inr s'"
    by (auto simp: res_simps Let_def)
  have "P s1" using assms(3) Suc.prems(2) 1(1) by blast
  moreover have "\<exists>i. p = (pool s1)\<lparr>m_it := i\<rparr> \<or> p = pool s1"
    using 1(2) by (auto simp: cMsgPool_GetNext_def res_simps Let_def split: if_splits)
  ultimately have "P (s1\<lparr>pool := p\<rparr>)" using assms(4) by auto
  with 1(3) Suc.IH show ?case by (auto split: option.splits)
qed simp

lemma pool_loop_keeps:
  assumes "pool_loop f s = Inr s'" "P s"
    and "\<And>a s s'. P s \<Longrightarrow> f a s = Inr s' \<Longrightarrow> P s'" "\<And>s i. P s \<Longrightarrow> P (s\<lparr>pool := (pool s)\<lparr>m_it := i\<rparr>\<rparr>)"
    and "\<And>s b. P s \<Longrightarrow> P (s\<lparr>pool := (pool s)\<lparr>m_bLocked := b\<rparr>\<rparr>)"
  shows "P s'"
proof -
  obtain r p where h: "cMsgPool_GetHead (pool s) = (r, p)" by force
  have "p = pool s \<or> (\<exists>i. p = (pool s)\<lparr>m_it := i\<rparr>)"
    using h by (auto simp: cMsgPool_GetHead_def Let_def split: if_splits)
  then have p: "P (s\<lparr>pool := p\<rparr>)" using assms(2,4) by auto
  show ?thesis
  proof (cases r)
    case None
    then show ?thesis using assms(1) h assms(5)[OF p, of False] by (auto simp: pool_loop_def cMsgPool_Unlock_def)
  next
    case (Some a)
    then obtain s1 where s1: "walk f (length (m_Messages p)) a (s\<lparr>pool := p\<rparr>) = Inr s1"
      "s' = upd_pool cMsgPool_Unlock s1" using assms(1) h by (auto simp: pool_loop_def res_simps)
    have "P s1" by (rule walk_keeps[OF s1(1) p assms(3,4)])
    then show ?thesis using assms(5)[of s1 False] s1(2) by (simp add: upd_pool_def cMsgPool_Unlock_def)
  qed
qed

section \<open>Pending messages\<close>

text \<open>What a pass over the pool does to one message.\<close>

definition pend :: "int \<Rightarrow> cMsg \<Rightarrow> cMsg" where
  "pend now m =
     (case MsgState m of
        MSG_STATE_PENDING \<Rightarrow> m\<lparr>MsgState := MSG_STATE_INUSE\<rparr>
      | MSG_STATE_UNDELIVERED \<Rightarrow>
          if TCPSocketHandle m \<noteq> -1 then m\<lparr>MsgState := MSG_STATE_MARKFORREUSE\<rparr> else retry_msg now m
      | _ \<Rightarrow> m)"

definition pend_ok :: "'z sys_scheme \<Rightarrow> bool" where
  "pend_ok s \<longleftrightarrow> (\<forall>a m. heap s a = Some m \<longrightarrow> MsgState m \<in> {MSG_STATE_PENDING, MSG_STATE_UNDELIVERED} \<longrightarrow>
     MsgConnectionType m \<noteq> MSG_CT_NOTSET)"

lemma retry_msg_keeps [simp]:
  "MsgBuffer (retry_msg now m) = MsgBuffer m" "MsgRawBuffer (retry_msg now m) = MsgRawBuffer m"
  "MsgConnectionType (retry_msg now m) = MsgConnectionType m" "TCPSocketHandle (retry_msg now m) = TCPSocketHandle m"
  by (simp_all add: retry_msg_def setter_defs Let_def)

lemma msg_inv_pend: "msg_inv m \<Longrightarrow> msg_inv (pend now m)"
  by (simp add: msg_inv_def pend_def split: eMsgState.splits)

lemma pend_inactive: "MsgState m = MSG_STATE_INACTIVE \<Longrightarrow> pend now m = m"
  by (simp add: pend_def)

lemma pending_body_eq:
  assumes "heap s a = Some m" "pend_ok s"
  shows "pending_body now a s =
    Inr (s\<lparr>heap := (heap s)(a \<mapsto> pend now m),
           m_priority_queue := m_priority_queue s @ (if MsgState m = MSG_STATE_PENDING then [a] else [])\<rparr>)"
proof -
  have id: "(heap s)(a \<mapsto> m) = heap s" using assms(1) by auto
  have "MsgState m = MSG_STATE_PENDING \<Longrightarrow> MsgConnectionType m \<noteq> MSG_CT_NOTSET" using assms by (auto simp: pend_ok_def)
  with assms(1) id show ?thesis
    by (cases "MsgState m") (auto simp: pending_body_def get_msg_def upd_msg_def getter_defs cMsg_SetMsgState_def
        pend_def pq_push_def Let_def)
qed

lemma pend_type [simp]: "MsgConnectionType (pend now m) = MsgConnectionType m"
  by (simp add: pend_def split: eMsgState.splits)

lemma retry_states: "MsgState (retry_msg now m) \<in> {MsgState m, MSG_STATE_PENDING, MSG_STATE_MARKFORREUSE}"
  by (simp add: retry_msg_def setter_defs Let_def)

lemma pend_states:
  "MsgState (pend now m) \<in> {MSG_STATE_PENDING, MSG_STATE_UNDELIVERED} \<Longrightarrow> MsgState m = MSG_STATE_UNDELIVERED"
  by (auto simp: pend_def split: eMsgState.splits)

lemma pend_ok_upd:
  assumes "pend_ok s" "heap s a = Some m"
  shows "pend_ok (s\<lparr>heap := (heap s)(a \<mapsto> pend now m)\<rparr>)"
  using assms pend_states[of now m] by (auto simp: pend_ok_def)

lemma pend_ok_fields [simp]:
  "pend_ok (s\<lparr>pool := p\<rparr>) = pend_ok s" "pend_ok (upd_pool f s) = pend_ok s"
  by (simp_all add: pend_ok_def)

text \<open>Everything but the messages, the pool and the priority queue is as before.\<close>

definition same_rest :: "cMsgQueue \<Rightarrow> cMsgQueue \<Rightarrow> bool" where
  "same_rest s s' \<longleftrightarrow> next_addr s' = next_addr s \<and> uid s' = uid s \<and> m_timer s' = m_timer s \<and> m_bUseDB s' = m_bUseDB s \<and>
     m_pCommandHandlerFactory s' = m_pCommandHandlerFactory s \<and> m_pRouterRulesEngine s' = m_pRouterRulesEngine s \<and>
     m_pServiceEngine s' = m_pServiceEngine s \<and> m_pSysMetrics s' = m_pSysMetrics s \<and>
     m_pConnectionQueue s' = m_pConnectionQueue s \<and> m_dbFile s' = m_dbFile s"

text \<open>The state after the messages \<open>us\<close> have been visited.\<close>

definition pend_upto :: "uuid_gen \<Rightarrow> int \<Rightarrow> cMsgQueue \<Rightarrow> msg_addr list \<Rightarrow> cMsgQueue \<Rightarrow> bool" where
  "pend_upto gen now s us s' \<longleftrightarrow> sys_inv gen s' \<and> pend_ok s' \<and>
     heap s' = (\<lambda>a. if a \<in> set us then map_option (pend now) (heap s a) else heap s a) \<and>
     m_priority_queue s' = m_priority_queue s @ filter (\<lambda>a. in_state s a MSG_STATE_PENDING) us \<and>
     m_Messages (pool s') = m_Messages (pool s) \<and> m_FreeMsgStack (pool s') = m_FreeMsgStack (pool s) \<and>
     same_rest s s'"

lemma sys_inv_queue [simp]: "sys_inv gen (s\<lparr>m_priority_queue := q\<rparr>) = sys_inv gen s"
  by (simp add: sys_inv_def live_def in_state_def)

lemma pend_ok_queue [simp]: "pend_ok (s\<lparr>m_priority_queue := q\<rparr>) = pend_ok s"
  by (simp add: pend_ok_def)

lemma pend_step:
  assumes I: "pend_upto gen now s us s1" and l: "us @ a # vs = m_Messages (pool s)" "distinct (m_Messages (pool s))"
    and at: "pool_at (ItAt a) (m_Messages (pool s)) s1" and inv: "sys_inv gen s"
  shows "\<exists>s'. pending_body now a s1 = Inr s' \<and> pool_at (ItAt a) (m_Messages (pool s)) s' \<and> pend_upto gen now s (us @ [a]) s'"
proof -
  have a: "a \<notin> set us" using l by (metis distinct_append disjoint_iff list.set_intros(1))
  have "a \<in> set (m_Messages (pool s))" unfolding l(1)[symmetric] by simp
  then have "a \<in> live s" using inv by (simp add: sys_inv_def)
  then obtain m where m: "heap s a = Some m" by (auto simp: live_Some)
  then have m1: "heap s1 a = Some m" using I a by (simp add: pend_upto_def)
  let ?s = "s1\<lparr>heap := (heap s1)(a \<mapsto> pend now m),
    m_priority_queue := m_priority_queue s1 @ (if MsgState m = MSG_STATE_PENDING then [a] else [])\<rparr>"
  have i1: "sys_inv gen s1" "pend_ok s1" using I by (simp_all add: pend_upto_def)
  have run: "pending_body now a s1 = Inr ?s" by (rule pending_body_eq[OF m1 i1(2)])
  have "msg_inv m" using i1(1) m1 by (auto simp: sys_inv_def ran_def)
  moreover have "MsgState (pend now m) = MSG_STATE_INACTIVE" if "a \<in> set (m_FreeMsgStack (pool s1))"
    using that i1(1) m1 pend_inactive[of m now] by (auto simp: sys_inv_def in_state_def)
  ultimately have "sys_inv gen (s1\<lparr>heap := (heap s1)(a \<mapsto> pend now m)\<rparr>)"
    using sys_inv_upd[OF i1(1), of a "pend now m"] m1 msg_inv_pend by (auto simp: live_Some)
  then have inv': "sys_inv gen ?s" unfolding sys_inv_queue .
  have ok': "pend_ok ?s" unfolding pend_ok_queue by (rule pend_ok_upd[OF i1(2) m1])
  have h: "heap s1 = (\<lambda>a. if a \<in> set us then map_option (pend now) (heap s a) else heap s a)"
    and q: "m_priority_queue s1 = m_priority_queue s @ filter (\<lambda>a. in_state s a MSG_STATE_PENDING) us"
    and p: "m_Messages (pool s1) = m_Messages (pool s)" "m_FreeMsgStack (pool s1) = m_FreeMsgStack (pool s)"
    using I by (simp_all add: pend_upto_def)
  have "same_rest s ?s" using I by (simp add: pend_upto_def same_rest_def)
  moreover have "heap ?s = (\<lambda>x. if x \<in> set (us @ [a]) then map_option (pend now) (heap s x) else heap s x)"
    using h m by auto
  moreover have "m_priority_queue ?s = m_priority_queue s @ filter (\<lambda>a. in_state s a MSG_STATE_PENDING) (us @ [a])"
    using q m by (simp add: in_state_def)
  ultimately have "pend_upto gen now s (us @ [a]) ?s" unfolding pend_upto_def using inv' ok' p by simp
  moreover have "pool_at (ItAt a) (m_Messages (pool s)) ?s" using at by (simp add: pool_at_def)
  ultimately show ?thesis using run by blast
qed

lemma pend_upto_it: "pend_upto gen now s us s1 \<Longrightarrow> pend_upto gen now s us (s1\<lparr>pool := (pool s1)\<lparr>m_it := i\<rparr>\<rparr>)"
  by (simp add: pend_upto_def sys_inv_pool_it same_rest_def)

lemma upd_pool_inv [simp]:
  "sys_inv gen (upd_pool cMsgPool_Lock s) = sys_inv gen s" "sys_inv gen (upd_pool cMsgPool_Unlock s) = sys_inv gen s"
  by (simp_all add: upd_pool_def cMsgPool_Lock_def cMsgPool_Unlock_def sys_inv_lock)

lemma pool_lock [simp]:
  "m_Messages (cMsgPool_Lock p) = m_Messages p" "m_FreeMsgStack (cMsgPool_Lock p) = m_FreeMsgStack p"
  "m_bLocked (cMsgPool_Lock p)" "m_Messages (cMsgPool_Unlock p) = m_Messages p"
  "m_FreeMsgStack (cMsgPool_Unlock p) = m_FreeMsgStack p"
  by (simp_all add: cMsgPool_Lock_def cMsgPool_Unlock_def)

lemma upd_pool_fields [simp]:
  "m_priority_queue (upd_pool f s) = m_priority_queue s" "in_state (upd_pool f s) = in_state s"
  "same_rest (upd_pool f s) s' = same_rest s s'" "same_rest s (upd_pool f s') = same_rest s s'"
  by (simp_all add: upd_pool_def same_rest_def in_state_def fun_eq_iff)

lemma ProcessPending_ok:
  assumes inv: "sys_inv gen s" and ok: "pend_ok s"
  shows "\<exists>s'. cMsgQueue_ProcessPendingMessages now s = Inr s' \<and> pend_upto gen now s (m_Messages (pool s)) s'"
proof -
  let ?s = "upd_pool cMsgPool_Lock s" and ?l = "m_Messages (pool s)"
  have d: "distinct ?l" using inv by (simp add: sys_inv_def)
  have start: "pend_upto gen now ?s [] ?s" using inv ok by (simp add: pend_upto_def same_rest_def)
  have "\<exists>s1. pool_loop (pending_body now) ?s = Inr (upd_pool cMsgPool_Unlock s1) \<and>
      pend_upto gen now ?s ?l s1 \<and> m_Messages (pool s1) = ?l"
  proof (rule pool_loop_all[where I = "pend_upto gen now ?s"])
    show "\<exists>s'. pending_body now a s1 = Inr s' \<and> pool_at (ItAt a) ?l s' \<and> pend_upto gen now ?s (us @ [a]) s'"
      if "pend_upto gen now ?s us s1" "us @ a # vs = ?l" "pool_at (ItAt a) ?l s1" for us a vs s1
      using pend_step[OF that(1), of a vs] that(2,3) d inv by simp
  qed (use d start pend_upto_it in auto)
  then show ?thesis
    unfolding cMsgQueue_ProcessPendingMessages_def by (force simp: pend_upto_def)
qed

text \<open>A queue with one message at address 0, for examples.\<close>

definition demo_queue :: "cMsg \<Rightarrow> cMsgQueue" where
  "demo_queue m =
     (cMsgQueue_new (cUniqueIDProvider_new example_gen 0) Map.empty cMsgRouterRulesEngine_new cService_new
        (cConnectionQueue_new 60))\<lparr>heap := [0 \<mapsto> m], next_addr := 1, pool := cMsgPool_new\<lparr>m_Messages := [0]\<rparr>\<rparr>"

definition demo_env :: env where
  "demo_env = \<lparr>e_malloc = zero_malloc, e_new = True, e_gen = example_gen, e_now = 100, e_tv1 = \<lparr>tv_sec = 0, tv_usec = 0\<rparr>,
     e_tv2 = \<lparr>tv_sec = 0, tv_usec = 0\<rparr>, e_name = ''hal'', e_addr = ''10.0.0.1''\<rparr>"

lemma demo_inv: "msg_inv m \<Longrightarrow> sys_inv example_gen (demo_queue m)"
  using uid_inv_new[OF example_gen_spec, of 0]
  by (auto simp: sys_inv_def demo_queue_def cMsgQueue_new_def cMsgPool_new_def live_def)

lemma demo_fields [simp]:
  "heap (demo_queue m) = [0 \<mapsto> m]" "m_Messages (pool (demo_queue m)) = [0]" "m_FreeMsgStack (pool (demo_queue m)) = []"
  "m_priority_queue (demo_queue m) = []"
  by (simp_all add: demo_queue_def cMsgQueue_new_def cMsgPool_new_def)

lemma msg_inv_raw: "msg_inv cMsg_raw"
  by (simp add: msg_inv_def cMsg_raw_def)

lemma msg_inv_state [simp]:
  "msg_inv (m\<lparr>MsgState := st\<rparr>) = msg_inv m" "msg_inv (m\<lparr>MsgConnectionType := ct\<rparr>) = msg_inv m"
  by (simp_all add: msg_inv_def)

text \<open>
  (C2) A pass over the pool moves every dispatched message into the priority queue, each once and in
  the order of the pool, marked as in use; gives up undelivered messages that have a socket; puts
  undelivered messages without one back to pending when their delay is over; and leaves all other
  messages, the pool and the other components alone. It never fails: the assertion on the connection
  type holds whenever dispatched messages have one.
\<close>

theorem pending_pass:
  assumes "sys_inv gen s" "pend_ok s"
  shows "\<exists>s'. cMsgQueue_ProcessPendingMessages now s = Inr s' \<and> sys_inv gen s' \<and> pend_ok s' \<and>
    heap s' = (\<lambda>a. map_option (pend now) (heap s a)) \<and>
    m_priority_queue s' = m_priority_queue s @ filter (\<lambda>a. in_state s a MSG_STATE_PENDING) (m_Messages (pool s)) \<and>
    m_Messages (pool s') = m_Messages (pool s) \<and> m_FreeMsgStack (pool s') = m_FreeMsgStack (pool s) \<and> same_rest s s'"
proof -
  obtain s' where s': "cMsgQueue_ProcessPendingMessages now s = Inr s'" "pend_upto gen now s (m_Messages (pool s)) s'"
    using ProcessPending_ok[OF assms] by blast
  have "heap s a = None" if "a \<notin> set (m_Messages (pool s))" for a
    using that assms(1) by (auto simp: sys_inv_def live_def)
  then have "heap s' = (\<lambda>a. map_option (pend now) (heap s a))" using s'(2) by (auto simp: pend_upto_def)
  with s' show ?thesis by (auto simp: pend_upto_def)
qed

theorem pending_pass_witness:
  "\<exists>s'. cMsgQueue_ProcessPendingMessages 100
      (demo_queue (cMsg_raw\<lparr>MsgConnectionType := MSG_CT_INTERNAL, MsgState := MSG_STATE_PENDING\<rparr>)) = Inr s' \<and>
    m_priority_queue s' = [0]"
proof -
  let ?m = "cMsg_raw\<lparr>MsgConnectionType := MSG_CT_INTERNAL, MsgState := MSG_STATE_PENDING\<rparr>"
  have "sys_inv example_gen (demo_queue ?m)" by (intro demo_inv) (simp add: msg_inv_raw)
  moreover have "pend_ok (demo_queue ?m)" by (simp add: pend_ok_def)
  ultimately show ?thesis using pending_pass[of example_gen "demo_queue ?m" 100] by (auto simp: in_state_def)
qed

section \<open>Retries\<close>

text \<open>
  The retry counter and delay: nothing tried yet, or the \<open>k\<close>-th retry made at the recorded time, with
  a delay of \<open>2 ^ (k - 1)\<close> seconds before the next.
\<close>

definition retry_inv :: "cMsg \<Rightarrow> bool" where
  "retry_inv m \<longleftrightarrow> MsgSendRetryCount m = 0 \<and> MsgLastRetryTS m = 0 \<and> MsgSendRetryDelay m = 1 \<or>
     (\<exists>k \<in> {1..10 :: nat}. MsgSendRetryCount m = int k \<and> MsgSendRetryDelay m = 2 ^ (k - 1) \<and> MsgLastRetryTS m > 0)"

text \<open>A round: the message could not be delivered, and the next passes over the pool look at it.\<close>

definition retry_round :: "int \<Rightarrow> cMsg \<Rightarrow> cMsg" where
  "retry_round now m = pend now (m\<lparr>MsgState := MSG_STATE_UNDELIVERED\<rparr>)"

lemma retry_round_first:
  assumes "TCPSocketHandle m = -1" "MsgSendRetryCount m = 0" "MsgLastRetryTS m = 0"
  shows "retry_round now m = m\<lparr>MsgLastRetryTS := now, MsgSendRetryCount := 1, MsgState := MSG_STATE_PENDING\<rparr>"
  using assms by (simp add: retry_round_def pend_def retry_msg_def getter_defs setter_defs)

lemma retry_round_wait:
  assumes "TCPSocketHandle m = -1" "MsgSendRetryCount m = int k" "0 < k" "now < MsgLastRetryTS m + MsgSendRetryDelay m"
  shows "retry_round now m = m\<lparr>MsgState := MSG_STATE_UNDELIVERED\<rparr>"
  using assms by (simp add: retry_round_def pend_def retry_msg_def getter_defs)

lemma retry_round_next:
  assumes "TCPSocketHandle m = -1" "MsgSendRetryCount m = int k" "0 < k" "k < 10" "MsgLastRetryTS m > 0"
    "MsgLastRetryTS m + MsgSendRetryDelay m \<le> now"
  shows "retry_round now m = m\<lparr>MsgLastRetryTS := now, MsgSendRetryCount := int k + 1,
    MsgSendRetryDelay := 2 * MsgSendRetryDelay m, MsgState := MSG_STATE_PENDING\<rparr>"
  using assms by (simp add: retry_round_def pend_def retry_msg_def getter_defs setter_defs MAX_MSG_RETRY_def Let_def)

lemma retry_round_last:
  assumes "TCPSocketHandle m = -1" "MsgSendRetryCount m = 10" "MsgLastRetryTS m > 0"
    "MsgLastRetryTS m + MsgSendRetryDelay m \<le> now"
  shows "retry_round now m = m\<lparr>MsgState := MSG_STATE_MARKFORREUSE\<rparr>"
  using assms by (simp add: retry_round_def pend_def retry_msg_def getter_defs setter_defs MAX_MSG_RETRY_def Let_def)

fun retry_rounds :: "int list \<Rightarrow> cMsg \<Rightarrow> cMsg" where
  "retry_rounds [] m = m"
| "retry_rounds (t # ts) m = retry_rounds ts (retry_round t m)"

lemma retry_rounds_snoc: "retry_rounds (ts @ [t]) m = retry_round t (retry_rounds ts m)"
  by (induction ts arbitrary: m) simp_all

text \<open>Times of rounds: the \<open>n\<close>-th comes at least \<open>2 ^ n\<close> seconds after the one before.\<close>

definition doubling :: "int list \<Rightarrow> bool" where
  "doubling ts \<longleftrightarrow> (ts \<noteq> [] \<longrightarrow> 0 < ts ! 0) \<and> (\<forall>n. Suc n < length ts \<longrightarrow> ts ! n + 2 ^ n \<le> ts ! Suc n)"

lemma doubling_take: "doubling ts \<Longrightarrow> doubling (take n ts)"
  by (auto simp: doubling_def)

lemma doubling_pos: "doubling ts \<Longrightarrow> i < length ts \<Longrightarrow> 0 < ts ! i"
proof (induction i)
  case (Suc i)
  then have "0 < ts ! i" "ts ! i + 2 ^ i \<le> ts ! Suc i" by (auto simp: doubling_def)
  moreover have "(0 :: int) < 2 ^ i" by simp
  ultimately show ?case by linarith
qed (auto simp: doubling_def)

lemma retry_rounds_count:
  assumes "doubling ts" "TCPSocketHandle m = -1" "MsgSendRetryCount m = 0" "MsgLastRetryTS m = 0" "MsgSendRetryDelay m = 1"
    and "n < length ts" "n < 10"
  shows "retry_rounds (take (Suc n) ts) m = m\<lparr>MsgLastRetryTS := ts ! n, MsgSendRetryCount := int (Suc n),
    MsgSendRetryDelay := 2 ^ n, MsgState := MSG_STATE_PENDING\<rparr>"
  using assms(6,7)
proof (induction n)
  case 0
  then show ?case using retry_round_first[OF assms(2-4), of "ts ! 0"] assms(5) by (simp add: take_Suc_conv_app_nth)
next
  case (Suc n)
  let ?m = "retry_rounds (take (Suc n) ts) m"
  have m: "?m = m\<lparr>MsgLastRetryTS := ts ! n, MsgSendRetryCount := int (Suc n),
    MsgSendRetryDelay := 2 ^ n, MsgState := MSG_STATE_PENDING\<rparr>" using Suc by simp
  have "ts ! n + 2 ^ n \<le> ts ! Suc n" "0 < ts ! n"
    using Suc.prems(1) assms(1) doubling_pos[of ts n] by (auto simp: doubling_def)
  then have "retry_round (ts ! Suc n) ?m = ?m\<lparr>MsgLastRetryTS := ts ! Suc n, MsgSendRetryCount := int (Suc n) + 1,
    MsgSendRetryDelay := 2 * MsgSendRetryDelay ?m, MsgState := MSG_STATE_PENDING\<rparr>"
    using Suc.prems(2) assms(2) unfolding m by (intro retry_round_next) simp_all
  moreover have "retry_rounds (take (Suc (Suc n)) ts) m = retry_round (ts ! Suc n) ?m"
    unfolding take_Suc_conv_app_nth[OF Suc.prems(1)] by (rule retry_rounds_snoc)
  ultimately show ?case using m by simp
qed

text \<open>
  (C3) A message that no handler can take is given up after a bounded number of attempts, with delays
  that double: it is dispatched again at each of ten retries, the \<open>n\<close>-th retry leaves it waiting for
  \<open>2 ^ (n - 1)\<close> seconds (looked at earlier it stays as it is, undelivered), and when it fails once
  more after the last delay it is marked for reuse. The times are the shortest the delays allow, or
  any later ones.
\<close>

theorem retry_gives_up:
  assumes "doubling ts" "length ts = 11" "TCPSocketHandle m = -1" "MsgSendRetryCount m = 0" "MsgLastRetryTS m = 0"
    "MsgSendRetryDelay m = 1"
  shows "(\<forall>n < 10. MsgState (retry_rounds (take (Suc n) ts) m) = MSG_STATE_PENDING \<and>
      (\<forall>t < ts ! n + 2 ^ n. retry_round t (retry_rounds (take (Suc n) ts) m) =
         (retry_rounds (take (Suc n) ts) m)\<lparr>MsgState := MSG_STATE_UNDELIVERED\<rparr>)) \<and>
    MsgState (retry_rounds ts m) = MSG_STATE_MARKFORREUSE"
proof -
  have r: "retry_rounds (take (Suc n) ts) m = m\<lparr>MsgLastRetryTS := ts ! n, MsgSendRetryCount := int (Suc n),
      MsgSendRetryDelay := 2 ^ n, MsgState := MSG_STATE_PENDING\<rparr>" if "n < 10" for n
    using retry_rounds_count[OF assms(1,3-6)] that assms(2) by simp
  have w: "retry_round t (retry_rounds (take (Suc n) ts) m) =
      (retry_rounds (take (Suc n) ts) m)\<lparr>MsgState := MSG_STATE_UNDELIVERED\<rparr>" if "n < 10" "t < ts ! n + 2 ^ n" for n t
    using retry_round_wait[of "retry_rounds (take (Suc n) ts) m" "Suc n" t] that assms(3) r[OF that(1)] by simp
  let ?m = "retry_rounds (take 10 ts) m"
  have m: "?m = m\<lparr>MsgLastRetryTS := ts ! 9, MsgSendRetryCount := 10, MsgSendRetryDelay := 2 ^ 9, MsgState := MSG_STATE_PENDING\<rparr>"
    using r[of 9] by simp
  have "ts ! 9 + 2 ^ 9 \<le> ts ! Suc 9" using assms(1,2) unfolding doubling_def by (elim conjE allE[of _ 9]) simp
  moreover have "0 < ts ! 9" using assms(2) doubling_pos[OF assms(1), of 9] by simp
  ultimately have "retry_round (ts ! 10) ?m = ?m\<lparr>MsgState := MSG_STATE_MARKFORREUSE\<rparr>"
    by (intro retry_round_last) (use m assms(3) in simp_all)
  moreover have "ts = take 10 ts @ [ts ! 10]" using take_Suc_conv_app_nth[of 10 ts] assms(2) by simp
  ultimately have "MsgState (retry_rounds ts m) = MSG_STATE_MARKFORREUSE"
    using retry_rounds_snoc[of "take 10 ts" "ts ! 10" m] by simp
  with r w show ?thesis by simp
qed

theorem retry_gives_up_witness:
  "MsgState (retry_rounds (map (\<lambda>i. 2 ^ i) [0..<11]) (cMsg_raw\<lparr>TCPSocketHandle := -1, MsgSendRetryDelay := 1\<rparr>)) =
     MSG_STATE_MARKFORREUSE"
proof -
  have "doubling (map (\<lambda>i. 2 ^ i) [0..<11])" by (auto simp: doubling_def simp del: upt_rec_numeral upt_Suc)
  then show ?thesis
    using retry_gives_up[of "map (\<lambda>i. 2 ^ i) [0..<11]" "cMsg_raw\<lparr>TCPSocketHandle := -1, MsgSendRetryDelay := 1\<rparr>"]
    by (simp add: cMsg_raw_def del: upt_rec_numeral retry_rounds.simps)
qed

section \<open>Flushing\<close>

definition reusable :: "cMsg \<Rightarrow> bool" where
  "reusable m \<longleftrightarrow> MsgState m \<in> {MSG_STATE_INACTIVE, MSG_STATE_DELIVERED, MSG_STATE_PROCESSED, MSG_STATE_MARKFORREUSE}"

definition flushed :: "cMsg \<Rightarrow> cMsg" where
  "flushed m = (if reusable m then m\<lparr>MsgState := MSG_STATE_INACTIVE\<rparr> else m)"

definition idle :: "int \<Rightarrow> cMsg \<Rightarrow> bool" where
  "idle now m \<longleftrightarrow> MsgState m = MSG_STATE_INACTIVE \<and> now - MsgInUseTS m > 60"

definition at_reusable :: "'z sys_scheme \<Rightarrow> msg_addr \<Rightarrow> bool" where
  "at_reusable s a \<longleftrightarrow> (\<exists>m. heap s a = Some m \<and> reusable m)"

lemma flush_body_eq:
  assumes "heap s a = Some m" "\<not> idle now m"
  shows "flush_body now a s =
    Inr (s\<lparr>heap := (heap s)(a \<mapsto> flushed m),
           pool := (pool s)\<lparr>m_FreeMsgStack := (if reusable m then [a] else []) @ m_FreeMsgStack (pool s)\<rparr>\<rparr>)"
proof -
  have id: "(heap s)(a \<mapsto> m) = heap s" using assms(1) by auto
  show ?thesis
    using assms id unfolding flush_body_def get_msg_def upd_msg_def idle_def
    by (cases "MsgState m")
      (auto simp: getter_defs cMsg_SetMsgState_def cMsgPool_ReturnToPool_def upd_msg_def upd_pool_def flushed_def
        reusable_def Let_def)
qed

definition flush_upto :: "uuid_gen \<Rightarrow> cMsgQueue \<Rightarrow> msg_addr list \<Rightarrow> cMsgQueue \<Rightarrow> bool" where
  "flush_upto gen s us s' \<longleftrightarrow> sys_inv gen s' \<and>
     heap s' = (\<lambda>a. if a \<in> set us then map_option flushed (heap s a) else heap s a) \<and>
     m_priority_queue s' = m_priority_queue s \<and> m_Messages (pool s') = m_Messages (pool s) \<and>
     m_FreeMsgStack (pool s') = rev (filter (at_reusable s) us) \<and> same_rest s s'"

lemma flush_upto_it: "flush_upto gen s us s1 \<Longrightarrow> flush_upto gen s us (s1\<lparr>pool := (pool s1)\<lparr>m_it := i\<rparr>\<rparr>)"
  by (simp add: flush_upto_def sys_inv_pool_it same_rest_def)

lemma msg_inv_flushed: "msg_inv (flushed m) = msg_inv m"
  by (simp add: msg_inv_def flushed_def)

lemma flush_step:
  assumes I: "flush_upto gen s us s1" and l: "us @ a # vs = m_Messages (pool s)" "distinct (m_Messages (pool s))"
    and at: "pool_at (ItAt a) (m_Messages (pool s)) s1" and inv: "sys_inv gen s"
    and m: "heap s a = Some m" "\<not> idle now m"
  shows "\<exists>s'. flush_body now a s1 = Inr s' \<and> pool_at (ItAt a) (m_Messages (pool s)) s' \<and> flush_upto gen s (us @ [a]) s'"
proof -
  have a: "a \<notin> set us" using l by (metis distinct_append disjoint_iff list.set_intros(1))
  then have m1: "heap s1 a = Some m" using I m(1) by (simp add: flush_upto_def)
  let ?st = "(if reusable m then [a] else []) @ m_FreeMsgStack (pool s1)"
  let ?s = "s1\<lparr>heap := (heap s1)(a \<mapsto> flushed m), pool := (pool s1)\<lparr>m_FreeMsgStack := ?st\<rparr>\<rparr>"
  have run: "flush_body now a s1 = Inr ?s" by (rule flush_body_eq[OF m1 m(2)])
  have i1: "sys_inv gen s1" and h: "heap s1 = (\<lambda>a. if a \<in> set us then map_option flushed (heap s a) else heap s a)"
    and f: "m_FreeMsgStack (pool s1) = rev (filter (at_reusable s) us)" using I by (simp_all add: flush_upto_def)
  have na: "a \<notin> set (m_FreeMsgStack (pool s1))" using a f by simp
  have "msg_inv (flushed m)" using i1 m1 msg_inv_flushed by (auto simp: sys_inv_def ran_def)
  then have "sys_inv gen (s1\<lparr>heap := (heap s1)(a \<mapsto> flushed m)\<rparr>)"
    using sys_inv_upd[OF i1, of a "flushed m"] m1 na by (auto simp: live_Some)
  moreover have "reusable m \<Longrightarrow> MsgState (flushed m) = MSG_STATE_INACTIVE" by (simp add: flushed_def)
  ultimately have "sys_inv gen ?s" using na by (auto simp: sys_inv_def live_def in_state_def)
  moreover have "heap ?s = (\<lambda>x. if x \<in> set (us @ [a]) then map_option flushed (heap s x) else heap s x)"
    using h m by auto
  moreover have "?st = rev (filter (at_reusable s) (us @ [a]))" using f m(1) by (simp add: at_reusable_def)
  ultimately have "flush_upto gen s (us @ [a]) ?s"
    using I unfolding flush_upto_def by (simp add: same_rest_def)
  moreover have "pool_at (ItAt a) (m_Messages (pool s)) ?s" using at by (simp add: pool_at_def)
  ultimately show ?thesis using run by blast
qed

text \<open>
  (C4) When no message has been idle for more than a minute, a flush returns to the free stack every
  message that is delivered, processed, given up or inactive, each exactly once, and leaves the
  messages in use, pending or undelivered, and the queue alone.
\<close>

theorem flush_recycles:
  assumes inv: "sys_inv gen s" and idle: "\<forall>a m. heap s a = Some m \<longrightarrow> \<not> idle now m"
  shows "\<exists>s'. cMsgQueue_FlushMessages now s = Inr s' \<and> sys_inv gen s' \<and>
    heap s' = (\<lambda>a. map_option flushed (heap s a)) \<and>
    m_FreeMsgStack (pool s') = rev (filter (at_reusable s) (m_Messages (pool s))) \<and>
    m_Messages (pool s') = m_Messages (pool s) \<and> m_priority_queue s' = m_priority_queue s \<and> same_rest s s'"
proof -
  let ?s = "upd_pool cMsgPool_FlushFreeStack (upd_pool cMsgPool_Lock s)" and ?l = "m_Messages (pool s)"
  have d: "distinct ?l" using inv by (simp add: sys_inv_def)
  have inv': "sys_inv gen ?s"
    using inv by (auto simp: sys_inv_def live_def in_state_def cMsgPool_FlushFreeStack_def)
  have l: "m_Messages (pool ?s) = ?l" by (simp add: cMsgPool_FlushFreeStack_def)
  have start: "flush_upto gen ?s [] ?s"
    using inv' by (simp add: flush_upto_def same_rest_def cMsgPool_FlushFreeStack_def)
  have "\<exists>s1. pool_loop (flush_body now) ?s = Inr (upd_pool cMsgPool_Unlock s1) \<and>
      flush_upto gen ?s ?l s1 \<and> m_Messages (pool s1) = ?l"
  proof (rule pool_loop_all[where I = "flush_upto gen ?s"])
    show "\<exists>s'. flush_body now a s1 = Inr s' \<and> pool_at (ItAt a) ?l s' \<and> flush_upto gen ?s (us @ [a]) s'"
      if "flush_upto gen ?s us s1" "us @ a # vs = ?l" "pool_at (ItAt a) ?l s1" for us a vs s1
    proof -
      have "a \<in> set ?l" unfolding that(2)[symmetric] by simp
      then obtain m where "heap s a = Some m" using inv by (auto simp: sys_inv_def live_def)
      then show ?thesis using flush_step[OF that(1), of a vs m] that(2,3) d l inv' idle by simp
    qed
  qed (use d l start flush_upto_it in \<open>auto simp: cMsgPool_FlushFreeStack_def\<close>)
  then obtain s1 where s1: "cMsgQueue_FlushMessages now s = Inr (upd_pool cMsgPool_Unlock s1)" "flush_upto gen ?s ?l s1"
    unfolding cMsgQueue_FlushMessages_def by blast
  have "heap s a = None" if "a \<notin> set ?l" for a using that inv by (auto simp: sys_inv_def live_def)
  then have h: "heap s1 = (\<lambda>a. map_option flushed (heap s a))" using s1(2) by (auto simp: flush_upto_def)
  have r: "at_reusable ?s = at_reusable s" by (simp add: at_reusable_def fun_eq_iff)
  show ?thesis using s1(1) s1(2) h r l unfolding flush_upto_def by simp
qed

theorem flush_recycles_witness:
  "\<exists>s'. cMsgQueue_FlushMessages 100 (demo_queue (cMsg_raw\<lparr>MsgState := MSG_STATE_DELIVERED\<rparr>)) = Inr s' \<and>
    m_FreeMsgStack (pool s') = [0]"
proof -
  let ?m = "cMsg_raw\<lparr>MsgState := MSG_STATE_DELIVERED\<rparr>"
  have "sys_inv example_gen (demo_queue ?m)" by (intro demo_inv) (simp add: msg_inv_raw)
  moreover have "\<forall>a m. heap (demo_queue ?m) a = Some m \<longrightarrow> \<not> idle 100 m" by (simp add: idle_def)
  ultimately show ?thesis
    using flush_recycles[of example_gen "demo_queue ?m" 100] by (auto simp: at_reusable_def reusable_def)
qed

text \<open>A flush that deletes the last message of the list leaves the list: when that message has been
  inactive for more than a minute, \<open>erase\<close> returns the end and the following increment goes past it.
\<close>

theorem flush_idle_faults:
  assumes inv: "sys_inv gen s" and l: "m_Messages (pool s) = xs @ [b]" and b: "heap s b = Some m" "idle now m"
    and others: "\<forall>a \<in> set xs. \<forall>m. heap s a = Some m \<longrightarrow> \<not> idle now m"
  shows "cMsgQueue_FlushMessages now s = Inl BadIterator"
proof -
  let ?s = "upd_pool cMsgPool_FlushFreeStack (upd_pool cMsgPool_Lock s)" and ?l = "m_Messages (pool s)"
  have d: "distinct ?l" using inv by (simp add: sys_inv_def)
  have inv': "sys_inv gen ?s"
    using inv by (auto simp: sys_inv_def live_def in_state_def cMsgPool_FlushFreeStack_def)
  have pl: "m_Messages (pool ?s) = ?l" "m_bLocked (pool ?s)" by (simp_all add: cMsgPool_FlushFreeStack_def)
  let ?h = "hd (xs @ [b])"
  let ?w = "?s\<lparr>pool := (pool ?s)\<lparr>m_it := ItAt ?h\<rparr>\<rparr>"
  have start: "flush_upto gen ?s [] ?w"
    by (rule flush_upto_it) (use inv' in \<open>simp add: flush_upto_def same_rest_def cMsgPool_FlushFreeStack_def\<close>)
  have "\<exists>s1. walk (flush_body now) (length xs + 1) ?h ?w = walk (flush_body now) 1 b s1 \<and>
      flush_upto gen ?s ([] @ xs) s1 \<and> pool_at (ItAt b) ?l s1"
  proof (rule walk_prefix[where I = "flush_upto gen ?s" and ys = "[]"])
    show "\<exists>s'. flush_body now a s1 = Inr s' \<and> pool_at (ItAt a) ?l s' \<and> flush_upto gen ?s (us @ [a]) s'"
      if "flush_upto gen ?s us s1" "us @ a # vs = ?l" "a \<in> set xs" "pool_at (ItAt a) ?l s1" for us a vs s1
    proof -
      have "a \<in> set ?l" unfolding that(2)[symmetric] by simp
      then obtain m where "heap s a = Some m" using inv by (auto simp: sys_inv_def live_def)
      then show ?thesis using flush_step[OF that(1), of a vs m] that d pl inv' others by simp
    qed
  qed (use d pl l start flush_upto_it in \<open>auto simp: pool_at_def\<close>)
  then obtain s1 where s1: "walk (flush_body now) (length xs + 1) ?h ?w = walk (flush_body now) 1 b s1"
    "flush_upto gen ?s xs s1" "pool_at (ItAt b) ?l s1" by auto
  have nb: "b \<notin> set xs" using d l by simp
  then have hb: "heap s1 b = Some m" using s1(2) b by (simp add: flush_upto_def)
  have "it_incr (first_it (rest_after b ?l)) (remove1 b ?l) = Inl BadIterator"
    unfolding l using nb by (simp add: rest_after_split first_it_def it_incr_def)
  then have "flush_body now b s1 = Inl BadIterator"
    using hb b(2) s1(3) l by (simp add: flush_body_def get_msg_def upd_msg_def getter_defs cMsg_SetMsgState_def idle_def
        cMsgPool_DeleteCurrent_def pool_at_def Let_def)
  moreover have "pool_loop (flush_body now) ?s =
      bindE (walk (flush_body now) (length ?l) ?h ?w) (\<lambda>s. Inr (upd_pool cMsgPool_Unlock s))"
    unfolding pool_loop_def GetHead_locked[OF pl(2)] pl(1) l by (cases xs) (simp_all add: cMsgPool_FlushFreeStack_def l)
  ultimately show ?thesis unfolding cMsgQueue_FlushMessages_def using s1(1) l by simp
qed

theorem flush_idle_faults_witness:
  "cMsgQueue_FlushMessages 100 (demo_queue cMsg_raw) = Inl BadIterator"
proof -
  have "sys_inv example_gen (demo_queue cMsg_raw)" by (intro demo_inv msg_inv_raw)
  then show ?thesis
    using flush_idle_faults[of example_gen "demo_queue cMsg_raw" "[]" 0 cMsg_raw 100]
    by (simp add: idle_def cMsg_raw_def)
qed

section \<open>Flushing to the database\<close>

definition storable :: "(db_row \<Rightarrow> bool) \<Rightarrow> cMsg \<Rightarrow> bool" where
  "storable step m \<longleftrightarrow> MsgState m \<in> {MSG_STATE_UNDELIVERED, MSG_STATE_DELIVERED, MSG_STATE_PROCESSED} \<and> step (row_of m)"

definition stored :: "(db_row \<Rightarrow> bool) \<Rightarrow> cMsg \<Rightarrow> cMsg" where
  "stored step m = (if storable step m then m\<lparr>MsgState := MSG_STATE_MARKFORREUSE\<rparr> else m)"

text \<open>The rows of the storable messages of a list, in order.\<close>

definition rows_of :: "(db_row \<Rightarrow> bool) \<Rightarrow> cMsgQueue \<Rightarrow> msg_addr list \<Rightarrow> db_row list" where
  "rows_of step s l = map row_of (filter (storable step) (map (\<lambda>a. the (heap s a)) l))"

definition db_upto :: "(db_row \<Rightarrow> bool) \<Rightarrow> cMsgQueue \<Rightarrow> msg_addr list \<Rightarrow> cMsgQueue \<Rightarrow> bool" where
  "db_upto step s us s' \<longleftrightarrow>
     heap s' = (\<lambda>a. if a \<in> set us then map_option (stored step) (heap s a) else heap s a) \<and>
     m_dbFile s' = m_dbFile s @ rows_of step s us \<and>
     m_Messages (pool s') = m_Messages (pool s) \<and> m_FreeMsgStack (pool s') = m_FreeMsgStack (pool s) \<and>
     m_priority_queue s' = m_priority_queue s"

lemma db_step:
  assumes I: "db_upto step s us s1" and a: "a \<notin> set us" and m: "heap s a = Some m"
  shows "\<exists>s'. flush_db_body step a s1 = Inr s' \<and> pool s' = pool s1 \<and> db_upto step s (us @ [a]) s'"
proof -
  have m1: "heap s1 a = Some m" using I a m by (simp add: db_upto_def)
  let ?s = "if storable step m then s1\<lparr>m_dbFile := m_dbFile s1 @ [row_of m], heap := (heap s1)(a \<mapsto> stored step m)\<rparr> else s1"
  have "flush_db_body step a s1 = Inr ?s"
    using m1 by (auto simp: flush_db_body_def get_msg_def getter_defs upd_msg_def cMsg_SetMsgState_def storable_def stored_def Let_def)
  moreover have "heap ?s = (\<lambda>x. if x \<in> set (us @ [a]) then map_option (stored step) (heap s x) else heap s x)"
    using I m a by (auto simp: db_upto_def stored_def)
  moreover have "m_dbFile ?s = m_dbFile s @ rows_of step s (us @ [a])" using I m by (simp add: db_upto_def rows_of_def)
  ultimately show ?thesis using I by (intro exI[of _ ?s]) (simp add: db_upto_def)
qed



section \<open>Priorities\<close>

lemma queue_less_order: "asymp (queue_less h)" "transp (queue_less h)"
  by (auto simp: asymp_on_def transp_on_def queue_less_def cMsgPriorityComp_def split: option.splits)

text \<open>
  A command handler's thread working through its queue, while no message arrives: the messages it is
  given, in order. \<open>P\<close> is what the handler does to the messages.
\<close>

inductive handled ::
    "(handler_addr \<Rightarrow> msg_addr \<Rightarrow> msg_heap \<Rightarrow> msg_heap res) \<Rightarrow> cCommandHandlerDecorator \<times> msg_heap \<Rightarrow>
       msg_addr list \<Rightarrow> cCommandHandlerDecorator \<times> msg_heap \<Rightarrow> bool" for P where
  handled_none: "handled P x [] x"
| handled_turn: "pq_top (queue_less h) (m_jobQueue d) i \<Longrightarrow> cCommandHandlerDecorator_top i d = Some a \<Longrightarrow>
    cCommandHandlerDecorator_Run i P d h = Inr x \<Longrightarrow> handled P x xs y \<Longrightarrow> handled P (d, h) (a # xs) y"

definition priorities :: "msg_heap \<Rightarrow> msg_addr \<Rightarrow> int option" where
  "priorities h a = map_option MsgPriority (h a)"

definition keeps_priorities :: "(handler_addr \<Rightarrow> msg_addr \<Rightarrow> msg_heap \<Rightarrow> msg_heap res) \<Rightarrow> bool" where
  "keeps_priorities P \<longleftrightarrow> (\<forall>k a h. \<exists>h'. P k a h = Inr h' \<and> priorities h' = priorities h)"

lemma queue_less_priorities:
  "queue_less h a b \<longleftrightarrow> (\<exists>x y. priorities h a = Some x \<and> priorities h b = Some y \<and> x < y)"
  by (auto simp: queue_less_def priorities_def cMsgPriorityComp_def cMsg_GetMsgPriority_def split: option.splits)

lemma queue_less_cong: "priorities h' = priorities h \<Longrightarrow> queue_less h' = queue_less h"
  by (simp add: fun_eq_iff queue_less_priorities)

lemma handled_drains:
  assumes "handled P (d, h) xs (d', h')" "keeps_priorities P"
  shows "drains pq_pop (queue_less h) (m_jobQueue d) xs (m_jobQueue d')"
  using assms(1)
proof (induction "(d, h)" xs "(d', h')" arbitrary: d h rule: handled.induct)
  case (handled_turn h d i a x xs)
  obtain h1 where h1: "P (m_pICommandHandler d) a h = Inr h1" "priorities h1 = priorities h"
    using assms(2) unfolding keeps_priorities_def by blast
  then have x: "x = (cCommandHandlerDecorator_pop i d, h1)"
    using handled_turn.hyps(2,3) by (simp add: cCommandHandlerDecorator_Run_def)
  have "pq_pop (queue_less h) (m_jobQueue d) a (m_jobQueue (cCommandHandlerDecorator_pop i d))"
    using handled_turn.hyps(1,2)
    by (auto simp: cCommandHandlerDecorator_top_def cCommandHandlerDecorator_pop_def pq_pop_def split: if_splits)
  moreover have "drains pq_pop (queue_less h) (m_jobQueue (cCommandHandlerDecorator_pop i d)) xs (m_jobQueue d')"
    using handled_turn.hyps(5)[OF x] queue_less_cong[OF h1(2)] by simp
  ultimately show ?case by (rule drains_pop)
qed (rule drains_refl)

lemma drains_handled:
  assumes "drains pq_pop lt q xs q'" "m_jobQueue d = q" "queue_less h = lt" "keeps_priorities P"
  shows "\<exists>d' h'. handled P (d, h) xs (d', h') \<and> m_jobQueue d' = q'"
  using assms(1-3)
proof (induction arbitrary: d h rule: drains.induct)
  case (drains_pop q x q1 xs q2)
  then obtain i where i: "pq_top (queue_less h) q i" "x = q ! i" "q1 = pq_remove i q" by (auto simp: pq_pop_def)
  obtain h1 where h1: "P (m_pICommandHandler d) x h = Inr h1" "priorities h1 = priorities h"
    using assms(4) unfolding keeps_priorities_def by blast
  let ?d = "cCommandHandlerDecorator_pop i d"
  have t: "cCommandHandlerDecorator_top i d = Some x" "m_jobQueue ?d = q1"
    using i drains_pop.prems by (auto simp: cCommandHandlerDecorator_top_def cCommandHandlerDecorator_pop_def pq_top_def)
  obtain d' h' where "handled P (?d, h1) xs (d', h')" "m_jobQueue d' = q2"
    using drains_pop.IH[of ?d h1] queue_less_cong[OF h1(2)] t(2) drains_pop.prems(2) by auto
  then show ?case
    using handled_turn[of h d i x P "(?d, h1)" xs "(d', h')"] i(1) t(1) h1(1) drains_pop.prems
    by (auto simp: cCommandHandlerDecorator_Run_def)
qed (auto intro: handled_none)


definition mark_delivered :: "handler_addr \<Rightarrow> msg_addr \<Rightarrow> msg_heap \<Rightarrow> msg_heap res" where
  "mark_delivered k a h = Inr (h(a := map_option (cMsg_SetMsgState MSG_STATE_DELIVERED) (h a)))"


section \<open>Replies\<close>

text \<open>The connection type of the answer to a message.\<close>

fun answer_type :: "eMsgConnectionType \<Rightarrow> eMsgConnectionType" where
  "answer_type MSG_CT_INTERNAL = MSG_CT_INTERNAL"
| "answer_type MSG_CT_IB_UDP = MSG_CT_OB_UDP"
| "answer_type MSG_CT_IB_TCP = MSG_CT_OB_TCP"
| "answer_type _ = MSG_CT_NOTSET"

lemma reply_fields_eq:
  assumes "fresh_msg now n"
  shows "let r = reply_fields t n in
    MsgConnectionType r = answer_type (MsgConnectionType t) \<and> MsgID r = c_prefix (MsgID t) \<and>
    MsgTo r = c_prefix (MsgFrom t) \<and> MsgFormat r = MSG_FORMAT_RES \<and> MsgPriority r = MsgPriority t \<and>
    TCPSocketHandle r = TCPSocketHandle t \<and> MsgProtocolType r = MsgProtocolType t \<and> MsgState r = MsgState n \<and>
    MsgArrivalPort r = MsgArrivalPort t \<and>
    (MsgConnectionType t = MSG_CT_INTERNAL \<longrightarrow> MsgCommand r = c_prefix (MsgFrom t) \<and>
       MsgReplyActionType r = MSG_REPLY_ACTION_NONE \<and> MsgNotifyActionType r = MSG_NOTIFY_ACTION_NO) \<and>
    (MsgConnectionType t \<noteq> MSG_CT_INTERNAL \<longrightarrow> MsgReplyActionType r = MsgReplyActionType t \<and>
       UDPSocketHandle r = UDPSocketHandle t \<and> SourceIP r = c_prefix (SourceIP t) \<and> SourcePort r = SourcePort t)"
  using assms
  by (cases "MsgConnectionType t")
    (simp_all add: reply_fields_def getter_defs setter_defs cMsg_UpdateMsgConnectionType_def cMsg_SetBench_def
      fresh_msg_def Let_def)

text \<open>
  (C6) A reply is addressed to where its request came from: it is a new message in use with the
  request's identifier, priority, socket, protocol and port, to the request's sender, on the
  answering connection type; the request itself is only marked as cloned, and all other messages
  are unchanged.
\<close>

theorem reply_addressed:
  assumes g: "uuid_spec (e_gen ev)" and inv: "sys_inv (e_gen ev) s" and new: "e_new ev"
    and b: "heap s b = Some t" "MsgState t \<noteq> MSG_STATE_INACTIVE"
  shows "\<exists>a s' r. cMsgQueue_CreateMessageReply ev (Some b) s = Inr (a, s') \<and> a \<noteq> b \<and> heap s' a = Some r \<and>
    MsgState r = MSG_STATE_INUSE \<and> MsgConnectionType r = answer_type (MsgConnectionType t) \<and>
    MsgID r = c_prefix (MsgID t) \<and> MsgTo r = c_prefix (MsgFrom t) \<and> MsgFormat r = MSG_FORMAT_RES \<and>
    MsgPriority r = MsgPriority t \<and> TCPSocketHandle r = TCPSocketHandle t \<and> MsgProtocolType r = MsgProtocolType t \<and>
    heap s' b = Some (t\<lparr>MsgCloned := True\<rparr>) \<and> (\<forall>c. c \<noteq> a \<longrightarrow> c \<noteq> b \<longrightarrow> heap s' c = heap s c)"
proof -
  obtain a s1 where s1: "cMsgPool_GetMessage ev s = Inr (a, s1)" "taken ev s a s1"
    using GetMessage_ok[OF g inv new] by blast
  then obtain n where n: "heap s1 = (heap s)(a \<mapsto> n)" "MsgState n = MSG_STATE_INUSE" "fresh_msg (e_now ev) n"
    by (auto simp: taken_def)
  have "in_state s b (MsgState t)" using b by (simp add: in_state_def)
  then have "b \<notin> set (m_FreeMsgStack (pool s))" "b < next_addr s"
    using inuse_not_free[OF inv _ b(2)] inv b(1) by (auto simp: sys_inv_def live_def)
  then have ab: "a \<noteq> b" using s1(2) by (auto simp: taken_def split: list.splits)
  let ?t = "t\<lparr>MsgCloned := True\<rparr>"
  let ?h = "(heap s1)(b \<mapsto> ?t, a \<mapsto> reply_fields ?t n)"
  have "cMsgQueue_CreateMessageReply ev (Some b) s = Inr (a, s1\<lparr>heap := ?h\<rparr>)"
    using s1(1) n(1) b(1) ab by (simp add: cMsgQueue_CreateMessageReply_def upd_msg_def get_msg_def cMsg_SetCloned_def)
  with reply_fields_eq[OF n(3), of ?t] n ab show ?thesis
    by (intro exI[of _ a] exI[of _ "s1\<lparr>heap := ?h\<rparr>"] exI[of _ "reply_fields ?t n"]) (auto simp: Let_def)
qed

theorem reply_addressed_witness:
  "\<exists>a s' r. cMsgQueue_CreateMessageReply demo_env (Some 0) (demo_queue
       (cMsg_raw\<lparr>MsgState := MSG_STATE_INUSE, MsgConnectionType := MSG_CT_IB_TCP, MsgFrom := ''bob''\<rparr>)) = Inr (a, s') \<and>
     heap s' a = Some r \<and> MsgTo r = ''bob'' \<and> MsgConnectionType r = MSG_CT_OB_TCP"
proof -
  let ?m = "cMsg_raw\<lparr>MsgState := MSG_STATE_INUSE, MsgConnectionType := MSG_CT_IB_TCP, MsgFrom := ''bob''\<rparr>"
  have "msg_inv ?m" by (simp add: msg_inv_def cMsg_raw_def)
  then have i: "sys_inv (e_gen demo_env) (demo_queue ?m)" using demo_inv by (simp add: demo_env_def)
  have g: "uuid_spec (e_gen demo_env)" "e_new demo_env" using example_gen_spec by (simp_all add: demo_env_def)
  have h: "heap (demo_queue ?m) 0 = Some ?m" by simp
  from reply_addressed[OF g(1) i g(2) h] show ?thesis by (auto simp: c_prefix_def)
qed

end
