(* ===== verification/AccessLog.thy ===== *)
theory AccessLog
  imports Msg
begin

text \<open>
  The access log \<open>cAccessLog\<close> (\<open>accesslog.h\<close>, \<open>accesslog.cpp\<close>): a vector of at most 256 records
  that is overwritten from the start once it is full. The thread of the class does nothing but
  reset its timer, and the lock is left out. \<open>boost::format\<close> and \<open>localtime\<close> are parameters.

  Shown: what \<open>GetEntries\<close> returns after any number of \<open>AddEntry\<close> calls.
\<close>

definition ACCESSLOG_MAX_ENTRIES :: nat where "ACCESSLOG_MAX_ENTRIES = 256"

record cAccessRecord =
  m_EventTimestamp :: int
  m_Protocol :: eMsgProtocolType
  m_Priority :: int
  m_Command :: string
  m_Activity :: string
  m_IPAddress :: string

definition cAccessRecord_Init ::
    "int \<Rightarrow> eMsgProtocolType \<Rightarrow> int \<Rightarrow> string \<Rightarrow> string \<Rightarrow> string \<Rightarrow> cAccessRecord" where
  "cAccessRecord_Init timestamp protocol priority command activity ipaddress =
     \<lparr>m_EventTimestamp = timestamp, m_Protocol = protocol, m_Priority = priority,
      m_Command = command, m_Activity = activity, m_IPAddress = ipaddress\<rparr>"

fun protocol_name :: "eMsgProtocolType \<Rightarrow> string" where
  "protocol_name MSG_PROTOCOL_HTTP_MCP = ''HTTP_MCP''"
| "protocol_name MSG_PROTOCOL_MCP = ''MCP''"
| "protocol_name MSG_PROTOCOL_HTTP_GET = ''HTTP_GET''"
| "protocol_name MSG_PROTOCOL_HTTP_POST = ''HTTP_POST''"
| "protocol_name _ = []"

text \<open>\<open>formater\<close> fills the format string with the numbers and then the strings.\<close>

definition cAccessRecord_toString ::
    "(int \<Rightarrow> tm) \<Rightarrow> (string \<Rightarrow> int list \<Rightarrow> string list \<Rightarrow> string) \<Rightarrow>
       cAccessRecord \<Rightarrow> string" where
  "cAccessRecord_toString localtime formater r =
     (let t2 = localtime (m_EventTimestamp r) in
      formater ''%02d%02d%02d-%02d%02d%02d,%s,%s,%s,%s''
        [tm_year t2 - 100, tm_mon t2 + 1, tm_mday t2, tm_hour t2, tm_min t2, tm_sec t2]
        [m_Command r, protocol_name (m_Protocol r), m_IPAddress r, m_Activity r])"

record cAccessLog =
  m_recIndex :: nat
  m_records :: "cAccessRecord list"
  m_recycle :: bool

definition cAccessLog_new :: cAccessLog where
  "cAccessLog_new = \<lparr>m_recIndex = 0, m_records = [], m_recycle = False\<rparr>"

text \<open>\<open>m_records[i]\<close>; an index outside the vector is a fault.\<close>

definition rec_at :: "cAccessRecord list \<Rightarrow> int \<Rightarrow> cAccessRecord res" where
  "rec_at rs i = (if 0 \<le> i \<and> nat i < length rs then Inr (rs ! nat i) else Inl MemFault)"

definition bump_index :: "cAccessLog \<Rightarrow> cAccessLog" where
  "bump_index l =
     (let i = m_recIndex l + 1 in l\<lparr>m_recIndex := (if i = ACCESSLOG_MAX_ENTRIES then 0 else i)\<rparr>)"

definition cAccessLog_AddEntry ::
    "int \<Rightarrow> eMsgProtocolType \<Rightarrow> int \<Rightarrow> string \<Rightarrow> string \<Rightarrow> string \<Rightarrow> cAccessLog \<Rightarrow> cAccessLog res" where
  "cAccessLog_AddEntry now protocol priority command activity ipaddress l =
     (let rec = cAccessRecord_Init now protocol priority command activity ipaddress in
      if \<not> m_recycle l \<and> length (m_records l) < ACCESSLOG_MAX_ENTRIES
      then
        (let rs = m_records l @ [rec] in
         Inr (bump_index (l\<lparr>m_records := rs, m_recycle := m_recycle l \<or> ACCESSLOG_MAX_ENTRIES \<le> length rs\<rparr>)))
      else
        bindE (rec_at (m_records l) (int (m_recIndex l))) (\<lambda>_.
        Inr (bump_index (l\<lparr>m_records := (m_records l)[m_recIndex l := rec]\<rparr>))))"

text \<open>The records from index \<open>i\<close> down to 1, and the first \<open>n\<close> records.\<close>

fun entries_down :: "cAccessRecord list \<Rightarrow> nat \<Rightarrow> cAccessRecord list res" where
  "entries_down rs 0 = Inr []"
| "entries_down rs (Suc i) =
     bindE (rec_at rs (int (Suc i))) (\<lambda>r. bindE (entries_down rs i) (\<lambda>es. Inr (r # es)))"

fun entries_up :: "cAccessRecord list \<Rightarrow> nat \<Rightarrow> cAccessRecord list res" where
  "entries_up rs 0 = Inr []"
| "entries_up rs (Suc i) =
     bindE (entries_up rs i) (\<lambda>es. bindE (rec_at rs (int i)) (\<lambda>r. Inr (es @ [r])))"

text \<open>
  \<open>GetEntries\<close>. In a full log the first loop, from \<open>m_recIndex + 1\<close> while below \<open>m_recIndex\<close>, has
  no turn. In a log that is not full, the loop starts at \<open>m_recIndex - 1\<close> and stops before 0; for
  an empty log it starts at -1.
\<close>

definition cAccessLog_GetEntries :: "cAccessLog \<Rightarrow> cAccessRecord list res" where
  "cAccessLog_GetEntries l =
     (if m_recycle l then entries_up (m_records l) (m_recIndex l)
      else if m_recIndex l = 0 then bindE (rec_at (m_records l) (-1)) (\<lambda>_. Inl Diverge)
      else entries_down (m_records l) (m_recIndex l - 1))"

section \<open>The records of a log\<close>

fun add_records :: "cAccessRecord list \<Rightarrow> cAccessLog \<Rightarrow> cAccessLog res" where
  "add_records [] l = Inr l"
| "add_records (r # rs) l =
     bindE (cAccessLog_AddEntry (m_EventTimestamp r) (m_Protocol r) (m_Priority r) (m_Command r)
       (m_Activity r) (m_IPAddress r) l) (add_records rs)"

lemma Init_fields:
  "cAccessRecord_Init (m_EventTimestamp r) (m_Protocol r) (m_Priority r) (m_Command r) (m_Activity r)
     (m_IPAddress r) = r"
  by (simp add: cAccessRecord_Init_def)

text \<open>The newest record stored at index \<open>j\<close> of a log that has been given \<open>es\<close>.\<close>

definition ring_at :: "cAccessRecord list \<Rightarrow> nat \<Rightarrow> cAccessRecord" where
  "ring_at es j = es ! (j + ACCESSLOG_MAX_ENTRIES * ((length es - Suc j) div ACCESSLOG_MAX_ENTRIES))"

definition log_of :: "cAccessRecord list \<Rightarrow> cAccessLog" where
  "log_of es =
     \<lparr>m_recIndex = length es mod ACCESSLOG_MAX_ENTRIES,
      m_records = map (ring_at es) [0..<min (length es) ACCESSLOG_MAX_ENTRIES],
      m_recycle = (ACCESSLOG_MAX_ENTRIES \<le> length es)\<rparr>"

lemma ring_at_old:
  assumes "j < length es" "j < ACCESSLOG_MAX_ENTRIES" "j \<noteq> length es mod ACCESSLOG_MAX_ENTRIES"
  shows "ring_at (es @ [r]) j = ring_at es j"
proof -
  let ?M = "ACCESSLOG_MAX_ENTRIES" and ?n = "length es"
  have m: "0 < ?M" using assms(2) by simp
  have "(?n - j) mod ?M \<noteq> 0"
  proof
    assume "(?n - j) mod ?M = 0"
    then obtain k where "?n - j = ?M * k" by auto
    then have "?n = j + ?M * k" using assms(1) by simp
    with assms show False by simp
  qed
  then have e: "(?n - j) div ?M = (?n - Suc j) div ?M"
    using div_Suc[of "?n - Suc j" ?M] assms(1) by (simp add: Suc_diff_Suc)
  have "j + ?M * ((?n - Suc j) div ?M) \<le> j + (?n - Suc j)" by simp
  with assms(1) have "j + ?M * ((?n - Suc j) div ?M) < ?n" by linarith
  with e assms(1) show ?thesis by (simp add: ring_at_def nth_append)
qed

lemma ring_at_new:
  assumes "j = length es mod ACCESSLOG_MAX_ENTRIES"
  shows "ring_at (es @ [r]) j = r"
proof -
  have "(length es - j) div ACCESSLOG_MAX_ENTRIES = length es div ACCESSLOG_MAX_ENTRIES"
    by (simp add: assms minus_mod_eq_mult_div ACCESSLOG_MAX_ENTRIES_def)
  then have "j + ACCESSLOG_MAX_ENTRIES * ((length es - j) div ACCESSLOG_MAX_ENTRIES) = length es"
    by (simp add: assms)
  then show ?thesis by (simp add: ring_at_def)
qed

lemma bump_index_mod: "m_recIndex l = n mod ACCESSLOG_MAX_ENTRIES \<Longrightarrow>
    bump_index l = l\<lparr>m_recIndex := Suc n mod ACCESSLOG_MAX_ENTRIES\<rparr>"
  by (simp add: bump_index_def ACCESSLOG_MAX_ENTRIES_def mod_Suc)

lemma AddEntry_log_of:
  "cAccessLog_AddEntry (m_EventTimestamp r) (m_Protocol r) (m_Priority r) (m_Command r) (m_Activity r)
     (m_IPAddress r) (log_of es) = Inr (log_of (es @ [r]))"
proof (cases "length es < ACCESSLOG_MAX_ENTRIES")
  case True
  have "map (ring_at (es @ [r])) [0..<length es] = map (ring_at es) [0..<length es]"
    using True by (intro map_cong) (auto intro: ring_at_old)
  moreover have "ring_at (es @ [r]) (length es) = r" using True by (intro ring_at_new) simp
  ultimately show ?thesis using True
    by (subst (1) log_of_def)
      (auto simp: cAccessLog_AddEntry_def Init_fields log_of_def Let_def bump_index_def mod_Suc min_def)
next
  case False
  let ?M = "ACCESSLOG_MAX_ENTRIES" and ?i = "length es mod ACCESSLOG_MAX_ENTRIES"
  have i: "?i < ?M" by (simp add: ACCESSLOG_MAX_ENTRIES_def)
  have "(map (ring_at es) [0..<?M])[?i := r] = map (ring_at (es @ [r])) [0..<?M]"
    using i False by (intro nth_equalityI) (auto simp: nth_list_update ring_at_new ring_at_old)
  with False i show ?thesis
    by (simp add: cAccessLog_AddEntry_def Init_fields log_of_def rec_at_def Let_def bump_index_mod)
qed

lemma add_records_log_of: "add_records rs (log_of es) = Inr (log_of (es @ rs))"
  by (induction rs arbitrary: es) (simp_all add: AddEntry_log_of)

lemma log_of_new: "cAccessLog_new = log_of []"
  by (simp add: cAccessLog_new_def log_of_def ACCESSLOG_MAX_ENTRIES_def)

lemma entries_up_take: "n \<le> length rs \<Longrightarrow> entries_up rs n = Inr (take n rs)"
  by (induction n) (simp_all add: rec_at_def take_Suc_conv_app_nth)

lemma entries_down_rev: "i < length rs \<Longrightarrow> entries_down rs i = Inr (rev (tl (take (Suc i) rs)))"
proof (induction i)
  case 0
  then show ?case by (cases rs) auto
next
  case (Suc i)
  then have "take (Suc (Suc i)) rs = take (Suc i) rs @ [rs ! Suc i]" by (simp add: take_Suc_conv_app_nth)
  moreover have "take (Suc i) rs \<noteq> []" using Suc.prems by auto
  ultimately have "tl (take (Suc (Suc i)) rs) = tl (take (Suc i) rs) @ [rs ! Suc i]" by simp
  moreover have "rec_at rs (int (Suc i)) = Inr (rs ! Suc i)"
    using Suc.prems unfolding rec_at_def nat_int by simp
  ultimately show ?case using Suc by (simp del: of_nat_Suc)
qed

lemma ring_short: "length es \<le> ACCESSLOG_MAX_ENTRIES \<Longrightarrow> map (ring_at es) [0..<length es] = es"
  by (intro nth_equalityI) (auto simp: ring_at_def)

lemma ring_last:
  assumes "ACCESSLOG_MAX_ENTRIES \<le> length es"
  shows "map (ring_at es) [0..<length es mod ACCESSLOG_MAX_ENTRIES] =
    drop (length es - length es mod ACCESSLOG_MAX_ENTRIES) es"
proof (intro nth_equalityI)
  let ?M = "ACCESSLOG_MAX_ENTRIES" and ?n = "length es"
  show "length (map (ring_at es) [0..<?n mod ?M]) = length (drop (?n - ?n mod ?M) es)" by simp
  fix j
  assume "j < length (map (ring_at es) [0..<?n mod ?M])"
  then have j: "j < ?n mod ?M" by simp
  have m: "?n mod ?M < ?M" by (simp add: ACCESSLOG_MAX_ENTRIES_def)
  have "?n - Suc j = (?n mod ?M - Suc j) + ?M * (?n div ?M)" using j by simp
  moreover have "(?n mod ?M - Suc j) div ?M = 0" using j m by simp
  ultimately have "(?n - Suc j) div ?M = ?n div ?M"
    using div_mult_self2[of ?M "?n mod ?M - Suc j" "?n div ?M"] m by simp
  then show "map (ring_at es) [0..<?n mod ?M] ! j = drop (?n - ?n mod ?M) es ! j"
    using j by (simp add: ring_at_def minus_mod_eq_mult_div add.commute)
qed

section \<open>Properties\<close>

text \<open>
  (C35) The access log never faults while records are added. Reading it gives, of a log with fewer
  than 256 additions, all records but the first, latest first; of a log with \<open>n\<close> additions or more
  only the last \<open>n mod 256\<close> records, oldest first, so that the log reads as empty after every
  256th addition; and reading the log before anything has been added is a fault.
\<close>

theorem access_log_entries:
  "\<exists>l. add_records es cAccessLog_new = Inr l \<and>
     cAccessLog_GetEntries l =
       (if es = [] then Inl MemFault
        else if length es < 256 then Inr (rev (tl es))
        else Inr (drop (length es - length es mod 256) es))"
proof -
  have M: "ACCESSLOG_MAX_ENTRIES = 256" by (simp add: ACCESSLOG_MAX_ENTRIES_def)
  have "add_records es cAccessLog_new = Inr (log_of es)"
    using add_records_log_of[of es "[]"] by (simp add: log_of_new)
  moreover have "cAccessLog_GetEntries (log_of es) = Inr (rev (tl es))" if "es \<noteq> []" "length es < 256"
    using that entries_down_rev[of "length es - 1" es] ring_short[of es]
    by (simp add: cAccessLog_GetEntries_def log_of_def M min_def)
  moreover have "cAccessLog_GetEntries (log_of es) = Inr (drop (length es - length es mod 256) es)"
    if "256 \<le> length es"
    using that ring_last[of es] entries_up_take[of "length es mod 256" "map (ring_at es) [0..<256]"]
    by (simp add: cAccessLog_GetEntries_def log_of_def M take_map min_def take_upt)
  moreover have "cAccessLog_GetEntries (log_of []) = Inl MemFault"
    by (simp add: cAccessLog_GetEntries_def log_of_def M rec_at_def)
  ultimately show ?thesis by (auto simp: not_less)
qed

end
