(* ===== verification/PeerRouting.thy ===== *)
theory PeerRouting
  imports Mc_Prelude
begin

text \<open>
  The peer routing map \<open>cPeerRoutingMap\<close> (\<open>peerroutingmap.h\<close>, \<open>peerroutingmap.cpp\<close>): where the
  last message of each sender came from. A record is owned by its map entry and updated in place,
  so the map holds the records themselves; the lock is left out.
\<close>

record cPeerRoutingRecord =
  pr_key :: string
  pr_ipAddress :: string
  pr_iPort :: int
  pr_iSocketfd :: int

type_synonym cPeerRoutingMap = "string \<rightharpoonup> cPeerRoutingRecord"

definition cPeerRoutingMap_new :: cPeerRoutingMap where
  "cPeerRoutingMap_new = Map.empty"

definition blank_route :: cPeerRoutingRecord where
  "blank_route = \<lparr>pr_key = [], pr_ipAddress = [], pr_iPort = 0, pr_iSocketfd = 0\<rparr>"

definition cPeerRoutingMap_AddRecord ::
    "string \<Rightarrow> string \<Rightarrow> int \<Rightarrow> int \<Rightarrow> cPeerRoutingMap \<Rightarrow> int \<times> cPeerRoutingMap" where
  "cPeerRoutingMap_AddRecord pKey pIPAddress iPort iSocketfd pm =
     (let rec = (case pm pKey of None \<Rightarrow> blank_route | Some r \<Rightarrow> r)
      in (0, pm(pKey \<mapsto> rec\<lparr>pr_key := pKey, pr_ipAddress := pIPAddress, pr_iPort := iPort,
                           pr_iSocketfd := iSocketfd\<rparr>)))"

definition cPeerRoutingMap_HasKey :: "string \<Rightarrow> cPeerRoutingMap \<Rightarrow> bool" where
  "cPeerRoutingMap_HasKey pKey pm \<longleftrightarrow> pm pKey \<noteq> None"

definition cPeerRoutingMap_GetSocket :: "string \<Rightarrow> cPeerRoutingMap \<Rightarrow> int" where
  "cPeerRoutingMap_GetSocket pKey pm = (case pm pKey of None \<Rightarrow> -1 | Some r \<Rightarrow> pr_iSocketfd r)"

definition cPeerRoutingMap_GetRecord :: "string \<Rightarrow> cPeerRoutingMap \<Rightarrow> cPeerRoutingRecord option" where
  "cPeerRoutingMap_GetRecord pKey pm = pm pKey"

section \<open>The last record of a key wins\<close>

lemma AddRecord_eq:
  "cPeerRoutingMap_AddRecord k ip port fd pm =
     (0, pm(k \<mapsto> \<lparr>pr_key = k, pr_ipAddress = ip, pr_iPort = port, pr_iSocketfd = fd\<rparr>))"
  by (cases "pm k"; cases "the (pm k)") (simp_all add: cPeerRoutingMap_AddRecord_def blank_route_def)

lemma GetSocket_AddRecord:
  "cPeerRoutingMap_GetSocket k (snd (cPeerRoutingMap_AddRecord k' ip port fd pm)) =
     (if k = k' then fd else cPeerRoutingMap_GetSocket k pm)"
  by (simp add: AddRecord_eq cPeerRoutingMap_GetSocket_def)

lemma HasKey_AddRecord:
  "cPeerRoutingMap_HasKey k (snd (cPeerRoutingMap_AddRecord k' ip port fd pm)) =
     (k = k' \<or> cPeerRoutingMap_HasKey k pm)"
  by (simp add: AddRecord_eq cPeerRoutingMap_HasKey_def)

end
