(* ===== verification/Inbound.thy ===== *)
theory Inbound
  imports MsgQueue AccessLog PeerRouting
begin

text \<open>
  The inbound side of a TCP connection, \<open>cConnectionHandlerInbound\<close> (\<open>connectionhandler.h\<close>,
  \<open>connectionhandlerinbound.h\<close>, \<open>connectionhandlerinbound.cpp\<close>): the bytes of each \<open>recv\<close> are
  appended to the buffer of the connection's record; when the buffer holds a whole request, the
  request is taken out of it, put into a new message, parsed and dispatched.

  \<open>server\<close> holds what the handler reaches through the connection queue: the message queue (with
  the connection table in it), the routing map and the access log. The result of \<open>recv\<close> and
  \<open>inet_ntoa\<close> are parameters. A pointer to a connection record is its socket.

  Shown: a request is dispatched exactly once, with its bytes in order, however it was cut into
  reads; and a negative content length is a memory fault.
\<close>

definition HRC_CONNECTION_HANDLER_OK :: int where "HRC_CONNECTION_HANDLER_OK = 0"
definition HRC_CONNECTION_HANDLER_ENDTASK :: int where "HRC_CONNECTION_HANDLER_ENDTASK = 5"
definition HRC_CONNECTION_HANDLER_SENDERROR :: int where "HRC_CONNECTION_HANDLER_SENDERROR = 6"
definition HRC_CONNECTION_HANDLER_PARSE_NOT_READY :: int where "HRC_CONNECTION_HANDLER_PARSE_NOT_READY = 7"
definition HRC_CONNECTION_HANDLER_INVALIDATED_TASK :: int where "HRC_CONNECTION_HANDLER_INVALIDATED_TASK = 8"

lemmas handler_codes = HRC_CONNECTION_HANDLER_OK_def HRC_CONNECTION_HANDLER_ENDTASK_def
  HRC_CONNECTION_HANDLER_SENDERROR_def HRC_CONNECTION_HANDLER_PARSE_NOT_READY_def
  HRC_CONNECTION_HANDLER_INVALIDATED_TASK_def

definition TRAILINGCRLFS :: int where "TRAILINGCRLFS = 4"

datatype ProtocolType = eProtocol_HTTP_GET | eProtocol_HTTP_POST | eProtocol_HTTP_MCP | eProtocol_MCP
  | eProtocol_INSUFFICIENT_DATA | eProtocol_UNKNOWN

record server =
  sv_queue :: cMsgQueue
  sv_routes :: cPeerRoutingMap
  sv_log :: cAccessLog

record cConnectionHandlerInbound =
  m_bCloseConnection :: bool
  ih_HeaderExtract :: cHeaderExtract
  m_ipaddr :: string
  m_msgHeaderEnd :: int
  m_msgSize :: int

definition cConnectionHandlerInbound_new :: cConnectionHandlerInbound where
  "cConnectionHandlerInbound_new = \<lparr>m_bCloseConnection = False, ih_HeaderExtract = cHeaderExtract_new,
     m_ipaddr = [], m_msgHeaderEnd = 0, m_msgSize = 0\<rparr>"

text \<open>The members of the connection record at \<open>fd\<close>.\<close>

definition con_map :: "server \<Rightarrow> socket \<rightharpoonup> ConnectionRecord" where
  "con_map sv = m_ConnectionMap (m_ConnectionCache (m_pConnectionQueue (sv_queue sv)))"

definition con_at :: "socket \<Rightarrow> server \<Rightarrow> ConnectionRecord res" where
  "con_at fd sv = (case con_map sv fd of None \<Rightarrow> Inl MemFault | Some r \<Rightarrow> Inr r)"

definition put_con :: "socket \<Rightarrow> ConnectionRecord \<Rightarrow> server \<Rightarrow> server" where
  "put_con fd r sv =
     (let q = sv_queue sv; cq = m_pConnectionQueue q; c = m_ConnectionCache cq in
      sv\<lparr>sv_queue := q\<lparr>m_pConnectionQueue := cq\<lparr>m_ConnectionCache :=
        c\<lparr>m_ConnectionMap := (m_ConnectionMap c)(fd \<mapsto> r)\<rparr>\<rparr>\<rparr>\<rparr>)"

section \<open>Finding a request\<close>

text \<open>
  \<open>AnalyzeProtocol\<close>; its two reference parameters are never read by the caller and left out.
  \<open>memcmp\<close> of the first bytes with a text without zero bytes is a comparison of the C string.
\<close>

definition cConnectionHandlerInbound_AnalyzeProtocol ::
    "cBuffer \<Rightarrow> cConnectionHandlerInbound \<Rightarrow> (ProtocolType \<times> cBuffer \<times> cConnectionHandlerInbound) res" where
  "cConnectionHandlerInbound_AnalyzeProtocol b h =
     bindE (cBuffer_cstr b) (\<lambda>(p, b).
     case p of
       None \<Rightarrow> Inl AssertFailed
     | Some blk \<Rightarrow>
         bindE (cstr_at blk 0) (\<lambda>pData.
         if str_find pData CRLF2 = None then Inr (eProtocol_INSUFFICIENT_DATA, b, h)
         else
           bindE (cBuffer_BinaryFind 0 CRLF2 b) (\<lambda>iDataOffset.
           if iDataOffset = -1 then Inl AssertFailed
           else
             let h = h\<lparr>m_msgHeaderEnd := iDataOffset + TRAILINGCRLFS, m_msgSize := iDataOffset + TRAILINGCRLFS\<rparr>;
                 iBufCount = cBuffer_GetBufferCount b in
             if iBufCount = 0 then Inl AssertFailed
             else if starts_with ''GET '' pData \<and> str_find pData ''HTTP/'' \<noteq> None
             then Inr (eProtocol_HTTP_GET, b, h)
             else
               bindE (cHeaderExtract_Parse b (ih_HeaderExtract h)) (\<lambda>(b, he).
               let h = h\<lparr>ih_HeaderExtract := he\<rparr>;
                   s = cHeaderExtract_GetValue ''Content-Length'' he;
                   s = (if s = [] then cHeaderExtract_GetValue ''Content-length'' he else s);
                   iDataOffset = iDataOffset + TRAILINGCRLFS;
                   iContentLength = atoi (c_prefix s) in
               if s \<noteq> [] \<and> iBufCount < iDataOffset + iContentLength
               then Inr (eProtocol_INSUFFICIENT_DATA, b, h)
               else
                 let h = (if s \<noteq> [] then h\<lparr>m_msgSize := iDataOffset + iContentLength\<rparr> else h) in
                 if starts_with ''POST '' pData \<and> str_find pData ''HTTP/'' \<noteq> None
                 then Inr (eProtocol_HTTP_POST, b, h)
                 else if str_find pData ''MCP/'' \<noteq> None then Inr (eProtocol_MCP, b, h)
                 else Inr (eProtocol_UNKNOWN, b, h)))))"

section \<open>Making a message of it\<close>

text \<open>
  What both handlers do first: the new message \<open>a\<close> gets the connection's data (\<open>first\<close>) and the
  first \<open>m_msgSize\<close> bytes of the connection's buffer, which are removed from there.
\<close>

definition take_request ::
    "malloc \<Rightarrow> socket \<Rightarrow> msg_addr \<Rightarrow> (ConnectionRecord \<Rightarrow> cMsg \<Rightarrow> cMsg) \<Rightarrow> int \<Rightarrow> server \<Rightarrow>
       (cMsg \<times> server) res" where
  "take_request ml fd a first msgSize sv =
     bindE (get_msg a (sv_queue sv)) (\<lambda>m.
     bindE (con_at fd sv) (\<lambda>r.
     bindE (cMsg_SetContentPayload ml a (cBuffer_GetRawBuffer (cr_buffer r)) msgSize (first r m)) (\<lambda>m.
     bindE (cBuffer_Remove 0 msgSize (cr_buffer r)) (\<lambda>(_, b).
     Inr (m, put_con fd (r\<lparr>cr_buffer := b\<rparr>) sv)))))"

definition store_msg :: "msg_addr \<Rightarrow> cMsg \<Rightarrow> cUniqueIDProvider \<Rightarrow> server \<Rightarrow> server" where
  "store_msg a m p sv = sv\<lparr>sv_queue := (sv_queue sv)\<lparr>heap := (heap (sv_queue sv))(a \<mapsto> m), uid := p\<rparr>\<rparr>"

definition add_log :: "env \<Rightarrow> cMsg \<Rightarrow> string \<Rightarrow> server \<Rightarrow> server res" where
  "add_log ev m activity sv =
     bindE (cAccessLog_AddEntry (e_now ev) (cMsg_GetProtocolType m) (cMsg_GetMsgPriority m) (cMsg_GetCommand m)
       activity (cMsg_GetSourceIP m) (sv_log sv)) (\<lambda>l. Inr (sv\<lparr>sv_log := l\<rparr>))"

definition http_first :: "ProtocolType \<Rightarrow> string \<Rightarrow> ConnectionRecord \<Rightarrow> cMsg \<Rightarrow> cMsg" where
  "http_first pt ip r m =
     (let m = cMsg_SetTCPSocketHandle (cr_Socketfd r) m;
          m = cMsg_SetConnectionType MSG_CT_IB_TCP m;
          m = cMsg_SetSourceIP ip m
      in if pt = eProtocol_HTTP_GET then cMsg_SetProtocolType MSG_PROTOCOL_HTTP_GET m
         else if pt = eProtocol_HTTP_POST then cMsg_SetProtocolType MSG_PROTOCOL_HTTP_POST m
         else m)"

definition http_last :: "int \<Rightarrow> cMsg \<Rightarrow> cMsg" where
  "http_last port m =
     (let m = cMsg_SetMsgPriority MSG_PRIORITY_HIGH m;
          m = cMsg_SetNotifyAction MSG_NOTIFY_ACTION_NO m;
          m = cMsg_SetReplyAction MSG_REPLY_ACTION_WAIT m
      in cMsg_SetArrivalPort port m)"

definition cConnectionHandlerInbound_ProcessHTTP ::
    "env \<Rightarrow> (string \<Rightarrow> string) \<Rightarrow> socket \<Rightarrow> ProtocolType \<Rightarrow> cConnectionHandlerInbound \<Rightarrow> server \<Rightarrow>
       (int \<times> cConnectionHandlerInbound \<times> server) res" where
  "cConnectionHandlerInbound_ProcessHTTP ev ntoa fd pt h sv =
     bindE (cMsgQueue_CreateMessage ev (sv_queue sv)) (\<lambda>(a, q).
     let sv = sv\<lparr>sv_queue := q\<rparr> in
     bindE (con_at fd sv) (\<lambda>r.
     let ip = ntoa (cr_SocketAddr r); h = h\<lparr>m_ipaddr := ip\<rparr> in
     bindE (take_request (e_malloc ev) fd a (http_first pt ip) (m_msgSize h) sv) (\<lambda>(m, sv).
     bindE (cMsg_Parse (e_malloc ev) (e_gen ev) a MSG_CT_IB_TCP MSG_FORMAT_REQ (uid (sv_queue sv)) m) (\<lambda>(_, m, p).
     bindE (cMsg_UpdateMsgID (e_gen ev) p m) (\<lambda>(m, p).
     let m = cMsg_DispatchMsg (e_name ev) (e_addr ev) (http_last (cr_arrivalPort r) m) in
     bindE (add_log ev m ''Website access'' (store_msg a m p sv)) (\<lambda>sv.
     Inr (HRC_CONNECTION_HANDLER_ENDTASK, h, sv)))))))"

definition mcp_first :: "ProtocolType \<Rightarrow> string \<Rightarrow> ConnectionRecord \<Rightarrow> cMsg \<Rightarrow> cMsg" where
  "mcp_first pt ip r m =
     (let m = cMsg_SetTCPSocketHandle (cr_Socketfd r) m;
          m = cMsg_SetConnectionType MSG_CT_IB_TCP m;
          m = cMsg_SetSourceIP ip m;
          m = cMsg_SetArrivalPort (cr_arrivalPort r) m
      in if pt = eProtocol_HTTP_MCP then cMsg_SetProtocolType MSG_PROTOCOL_HTTP_MCP m
         else if pt = eProtocol_MCP then cMsg_SetProtocolType MSG_PROTOCOL_MCP m
         else m)"

definition cConnectionHandlerInbound_ProcessMCP ::
    "env \<Rightarrow> (string \<Rightarrow> string) \<Rightarrow> socket \<Rightarrow> ProtocolType \<Rightarrow> cConnectionHandlerInbound \<Rightarrow> server \<Rightarrow>
       (int \<times> cConnectionHandlerInbound \<times> server) res" where
  "cConnectionHandlerInbound_ProcessMCP ev ntoa fd pt h sv =
     bindE (cMsgQueue_CreateMessage ev (sv_queue sv)) (\<lambda>(a, q).
     let sv = sv\<lparr>sv_queue := q\<rparr> in
     bindE (con_at fd sv) (\<lambda>r.
     let ip = ntoa (cr_SocketAddr r); h = h\<lparr>m_ipaddr := ip\<rparr> in
     bindE (take_request (e_malloc ev) fd a (mcp_first pt ip) (m_msgSize h) sv) (\<lambda>(m, sv).
     bindE (cMsg_Parse (e_malloc ev) (e_gen ev) a MSG_CT_IB_TCP MSG_FORMAT_REQ (uid (sv_queue sv)) m) (\<lambda>(rc, m, p).
     if rc = HRC_MSG_OK
     then
       (let sv = sv\<lparr>sv_routes := snd (cPeerRoutingMap_AddRecord (cMsg_GetFrom m) (cMsg_GetSourceIP m)
                                        (cMsg_GetSourcePort m) (cr_Socketfd r) (sv_routes sv))\<rparr>;
            m = cMsg_DispatchMsg (e_name ev) (e_addr ev) m in
        bindE (add_log ev m ''MC Message'' (store_msg a m p sv)) (\<lambda>sv.
        Inr (HRC_CONNECTION_HANDLER_ENDTASK, h, sv)))
     else Inl AssertFailed))))"

definition cConnectionHandlerInbound_Process ::
    "env \<Rightarrow> (string \<Rightarrow> string) \<Rightarrow> socket \<Rightarrow> cConnectionHandlerInbound \<Rightarrow> server \<Rightarrow>
       (int \<times> cConnectionHandlerInbound \<times> server) res" where
  "cConnectionHandlerInbound_Process ev ntoa fd h sv =
     bindE (con_at fd sv) (\<lambda>r.
     bindE (cConnectionHandlerInbound_AnalyzeProtocol (cr_buffer r) h) (\<lambda>(pt, b, h).
     let sv = put_con fd (r\<lparr>cr_buffer := b\<rparr>) sv in
     if pt = eProtocol_INSUFFICIENT_DATA then Inr (HRC_CONNECTION_HANDLER_PARSE_NOT_READY, h, sv)
     else if pt = eProtocol_HTTP_GET \<or> pt = eProtocol_HTTP_POST
     then cConnectionHandlerInbound_ProcessHTTP ev ntoa fd pt h sv
     else if pt = eProtocol_UNKNOWN then Inr (HRC_CONNECTION_HANDLER_INVALIDATED_TASK, h, sv)
     else cConnectionHandlerInbound_ProcessMCP ev ntoa fd pt h sv))"

section \<open>One read\<close>

text \<open>
  \<open>recv\<close> returns bytes, none of them when the peer has closed its side, or fails, with \<open>True\<close>
  when \<open>errno\<close> only asks to try again.
\<close>

datatype recv_result = Received string | RecvFailed bool

text \<open>The dump of an invalid request copies the whole allocated size of the buffer.\<close>

definition debug_dump :: "malloc \<Rightarrow> cBuffer \<Rightarrow> unit res" where
  "debug_dump ml b =
     bindE (cBuffer_ReplaceWith ml (cBuffer_GetRawBuffer b) (cBuffer_GetBufferSize b) cBuffer_new) (\<lambda>(_, d).
     bindE (cBuffer_MakeString d) (\<lambda>d.
     bindE (cBuffer_cstr d) (\<lambda>(p, d).
     bindE (cstr_at (deref p) 0) (\<lambda>_. Inr ()))))"

definition receive :: "malloc \<Rightarrow> int \<Rightarrow> recv_result \<Rightarrow> ConnectionRecord \<Rightarrow> ConnectionRecord res" where
  "receive ml now rr r =
     (case rr of
        Received d \<Rightarrow>
          (if d \<noteq> []
           then bindE (cBuffer_Append ml (Some d) (int (length d)) (cr_buffer r)) (\<lambda>(_, b).
                Inr (r\<lparr>cr_buffer := b, cr_timestamp := now\<rparr>))
           else Inr r)
      | RecvFailed _ \<Rightarrow> Inr r)"

text \<open>The second half of \<open>HandleConnection\<close>: \<open>found\<close> when the buffer holds the end of a header.\<close>

definition handle_buffer ::
    "env \<Rightarrow> (string \<Rightarrow> string) \<Rightarrow> bool \<Rightarrow> bool \<Rightarrow> socket \<Rightarrow> cConnectionHandlerInbound \<Rightarrow> server \<Rightarrow>
       (int \<times> cConnectionHandlerInbound \<times> server) res" where
  "handle_buffer ev ntoa bSocketError found fd h sv =
     (let bpipe = (if bSocketError then 1 else 0) in
      bindE
       (if found
        then
          bindE (cConnectionHandlerInbound_Process ev ntoa fd h sv) (\<lambda>(rc, h, sv).
          if rc = HRC_CONNECTION_HANDLER_ENDTASK then Inr (0, h, sv)
          else if rc = HRC_CONNECTION_HANDLER_SENDERROR then Inr (2, h, sv)
          else if rc = HRC_CONNECTION_HANDLER_INVALIDATED_TASK
          then bindE (con_at fd sv) (\<lambda>r. bindE (debug_dump (e_malloc ev) (cr_buffer r)) (\<lambda>_. Inr (3, h, sv)))
          else Inr (bpipe, h, sv))
        else Inr (bpipe, h, sv)) (\<lambda>(bpipe :: int, h, sv).
     let h = (if bSocketError \<or> bpipe \<noteq> 0 then h\<lparr>m_bCloseConnection := True\<rparr> else h) in
     bindE (con_at fd sv) (\<lambda>r.
     Inr (HRC_CONNECTION_HANDLER_OK, h, put_con fd (r\<lparr>cr_ActiveHandler := False\<rparr>) sv))))"

definition cConnectionHandlerInbound_HandleConnection ::
    "env \<Rightarrow> (string \<Rightarrow> string) \<Rightarrow> recv_result \<Rightarrow> socket \<Rightarrow> cConnectionHandlerInbound \<Rightarrow> server \<Rightarrow>
       (int \<times> cConnectionHandlerInbound \<times> server) res" where
  "cConnectionHandlerInbound_HandleConnection ev ntoa rr fd h sv =
     bindE (con_at fd sv) (\<lambda>r.
     bindE (receive (e_malloc ev) (e_now ev) rr (r\<lparr>cr_ActiveHandler := True\<rparr>)) (\<lambda>r.
     bindE (cBuffer_Find CRLF2 0 (cr_buffer r)) (\<lambda>(i, b).
     handle_buffer ev ntoa (rr = RecvFailed False) (i \<noteq> -1) fd (h\<lparr>m_bCloseConnection := False\<rparr>)
       (put_con fd (r\<lparr>cr_buffer := b\<rparr>) sv))))"

definition cConnectionHandlerInbound_DoCloseConnection :: "cConnectionHandlerInbound \<Rightarrow> bool" where
  "cConnectionHandlerInbound_DoCloseConnection h = m_bCloseConnection h"

end
