(* ===== verification/InboundFlow.thy ===== *)
theory InboundFlow
  imports Inbound
begin

text \<open>
  Requests over several reads. The reads of a connection are fed to \<open>HandleConnection\<close> one after the
  other; until the last byte of a request has arrived nothing but the connection's record changes,
  and with that byte one message is dispatched that holds exactly the bytes of the request.
\<close>

section \<open>The connection record\<close>

lemma put_con_simps [simp]:
  "con_map (put_con fd r sv) = (con_map sv)(fd \<mapsto> r)"
  "sv_routes (put_con fd r sv) = sv_routes sv" "sv_log (put_con fd r sv) = sv_log sv"
  "heap (sv_queue (put_con fd r sv)) = heap (sv_queue sv)" "uid (sv_queue (put_con fd r sv)) = uid (sv_queue sv)"
  "pool (sv_queue (put_con fd r sv)) = pool (sv_queue sv)"
  "next_addr (sv_queue (put_con fd r sv)) = next_addr (sv_queue sv)"
  by (simp_all add: put_con_def con_map_def Let_def)

lemma put_con_twice [simp]: "put_con fd r (put_con fd r' sv) = put_con fd r sv"
  by (simp add: put_con_def Let_def)

lemma con_at_put [simp]: "con_at fd (put_con fd r sv) = Inr r"
  by (simp add: con_at_def)

lemma sys_inv_put_con [simp]: "sys_inv gen (sv_queue (put_con fd r sv)) = sys_inv gen (sv_queue sv)"
  by (simp add: sys_inv_def live_def in_state_def)

text \<open>A connection's buffer with contents \<open>c\<close>.\<close>

definition con_holds :: "socket \<Rightarrow> string \<Rightarrow> server \<Rightarrow> bool" where
  "con_holds fd c sv \<longleftrightarrow>
     (\<exists>r. con_map sv fd = Some r \<and> cr_Socketfd r = fd \<and> buf_inv (cr_buffer r) \<and> buf_contents (cr_buffer r) = c)"

text \<open>Only the record of the connection has changed.\<close>

definition same_server :: "socket \<Rightarrow> server \<Rightarrow> server \<Rightarrow> bool" where
  "same_server fd sv sv' \<longleftrightarrow> (\<exists>r. sv' = put_con fd r sv)"

lemma same_server_trans:
  "same_server fd sv1 sv2 \<Longrightarrow> same_server fd sv2 sv3 \<Longrightarrow> same_server fd sv1 sv3"
  by (auto simp: same_server_def)

section \<open>Requests\<close>

text \<open>The length of the body as the header declares it.\<close>

definition declared_length :: "(string \<times> string) list \<Rightarrow> int option" where
  "declared_length flds =
     (let v = field_value flds ''Content-Length'';
          v = (if v = [] then field_value flds ''Content-length'' else v)
      in if v = [] then None else Some (atoi v))"

lemma str_find_take_None:
  assumes "str_find s p = Some i" "k < i + length p"
  shows "str_find (take k s) p = None"
proof -
  have "\<not> starts_with p (drop j (take k s))" if "j \<le> length (take k s)" for j
  proof
    assume a: "starts_with p (drop j (take k s))"
    then have l: "length p \<le> k - j" "starts_with p (drop j s)"
      by (auto simp: starts_with_iff drop_take dest: arg_cong[where f = length])
        (metis append_assoc append_take_drop_id)
    have "j < i" using l(1) assms(2) that by (cases "p = []") auto
    with str_find_Some_first[OF assms(1) this] l(2) show False by simp
  qed
  then show ?thesis by (simp add: str_find_None_iff)
qed

lemma c_prefix_take: "c_prefix (take k s) = take k (c_prefix s)"
  by (induction s arbitrary: k) (auto simp: c_prefix_def take_Cons split: nat.splits)

lemma str_find_append_Some:
  "str_find s p = Some i \<Longrightarrow> str_find (s @ t) p = Some i"
proof (induction s arbitrary: i)
  case Nil
  then show ?case by (cases p) auto
next
  case (Cons c cs)
  then show ?case
  proof (cases "starts_with p (c # cs)")
    case True
    then have "starts_with p ((c # cs) @ t)" unfolding starts_with_iff by (metis append_assoc)
    with True Cons.prems show ?thesis by simp
  next
    case False
    then obtain j where j: "str_find cs p = Some j" "i = Suc j" using Cons.prems by auto
    then have "j + length p \<le> length cs" by (auto dest: str_find_Some_bound)
    then have "length p \<le> length (c # cs)" by simp
    then have "take (length p) ((c # cs) @ t) = take (length p) (c # cs)"
      using take_append[of "length p" "c # cs" t] by simp
    then have "\<not> starts_with p ((c # cs) @ t)" using False by (simp only: starts_with_take) simp
    then show ?thesis using j Cons.IH[OF j(1)] by simp
  qed
qed

lemma starts_word:
  assumes "starts_with (w @ '' '') (command_line cmd rest @ t)" "CHR '' '' \<notin> set w" "CHR '' '' \<notin> set cmd"
  shows "cmd = w"
proof -
  obtain u where u: "cmd @ CHR '' '' # rest @ t = w @ CHR '' '' # u"
    using assms(1) by (auto simp: starts_with_iff command_line_def)
  have "length cmd = length w"
    using char_find_append[OF assms(3), of "rest @ t"] char_find_append[OF assms(2), of u] by (simp add: u)
  with u show ?thesis by simp
qed

text \<open>What the analysis says of a buffer with a complete header and at least its body.\<close>

lemma Analyze_request:
  assumes inv: "buf_inv b" and ok: "fields_ok flds" "status_ok (command_line cmd rest)" "CHR '' '' \<notin> set cmd"
    and c: "buf_contents b = header_text (command_line cmd rest) flds @ CRLF2 @ body"
    and cmd: "cmd \<noteq> ''GET''" "cmd \<noteq> ''POST''" and mcp: "str_find rest ''MCP/'' \<noteq> None"
  shows "\<exists>b' h'. cConnectionHandlerInbound_AnalyzeProtocol b h =
      Inr (case declared_length flds of
             Some n \<Rightarrow> if int (length body) < n then eProtocol_INSUFFICIENT_DATA else eProtocol_MCP
           | None \<Rightarrow> eProtocol_MCP, b', h') \<and>
    buf_inv b' \<and> buf_contents b' = buf_contents b \<and> m_bCloseConnection h' = m_bCloseConnection h \<and>
    (case declared_length flds of
       Some n \<Rightarrow> n \<le> int (length body) \<longrightarrow> m_msgSize h' = int (length (header_text (command_line cmd rest) flds)) + 4 + n
     | None \<Rightarrow> m_msgSize h' = int (length (header_text (command_line cmd rest) flds)) + 4)"
proof -
  let ?st = "command_line cmd rest" and ?h = "header_text (command_line cmd rest) flds"
  have st: "CR \<notin> set ?st" "NUL \<notin> set ?st" using ok(2) by (auto simp: status_ok_def)
  obtain blk where blk: "m_pBuffer b = Some blk" using buf_contents_block[of b] c by auto
  obtain b1 where b1: "cBuffer_MakeString b = Inr b1" "buf_inv b1" "buf_contents b1 = buf_contents b"
    "buf_terminated b1" "m_pBuffer b1 \<noteq> None" using MakeString_ok[OF inv] blk by auto
  then obtain blk1 where blk1: "m_pBuffer b1 = Some blk1" by auto
  have cstr: "cBuffer_cstr b = Inr (Some blk1, b1)"
    using b1(1) blk blk1 by (auto simp: cBuffer_cstr_def cBuffer_MakeString_def bindE_eq_Inr)
  have nz: "NUL \<notin> set (?h @ CRLF2)" using NUL_header[OF ok(1) st(2)] by auto
  have pre: "c_prefix (buf_contents b) = ?h @ CRLF2 @ c_prefix body"
    using c_prefix_append_left[OF nz, of body] by (simp add: c)
  have data: "cstr_at blk1 0 = Inr (?h @ CRLF2 @ c_prefix body)"
    using cstr_at_prefix[OF b1(2,4,5), of 0] blk1 b1(3) pre by simp
  have f1: "str_find (?h @ CRLF2 @ c_prefix body) CRLF2 = Some (length ?h)"
    by (rule find_end_of_header[OF ok(1) st(1)])
  have f2: "cBuffer_BinaryFind 0 CRLF2 b1 = Inr (int (length ?h))"
    using BinaryFind_ok[OF b1(2,4), of CRLF2] find_end_of_header[OF ok(1) st(1), of body] by (simp add: b1(3) c)
  have cnt: "cBuffer_GetBufferCount b1 = int (length ?h + 4 + length body)"
    using length_buf_contents[OF b1(2)] by (simp add: cBuffer_GetBufferCount_def b1(3) c)
  obtain t where t: "?h @ CRLF2 @ c_prefix body = ?st @ t"
    using header_text_line[of ?st flds "c_prefix body"] by auto
  have ng: "\<not> starts_with ''GET '' (?h @ CRLF2 @ c_prefix body)" "\<not> starts_with ''POST '' (?h @ CRLF2 @ c_prefix body)"
    unfolding t using starts_word[of "''GET''" cmd rest t] starts_word[of "''POST''" cmd rest t] cmd ok(3) by auto
  obtain i where i: "str_find rest ''MCP/'' = Some i" using mcp by auto
  have "starts_with ''MCP/'' (drop (length cmd + 1 + i) (?st @ t))"
    using str_find_Some_at[OF i] str_find_Some_bound[OF i] by (auto simp: command_line_def starts_with_iff)
  moreover have "length cmd + 1 + i \<le> length (?st @ t)" using str_find_Some_bound[OF i] by (simp add: command_line_def)
  ultimately have fm: "str_find (?h @ CRLF2 @ c_prefix body) ''MCP/'' \<noteq> None" unfolding t str_find_None_iff by blast
  obtain b2 he where p: "cHeaderExtract_Parse b1 (ih_HeaderExtract h) = Inr (b2, he)" "buf_inv b2"
    "buf_contents b2 = buf_contents b1" "m_Params he = map_of (rev flds)"
    using Parse_ok[OF b1(2) ok(1,2), of body "ih_HeaderExtract h"] b1(3) c by auto
  have val: "cHeaderExtract_GetValue k he = field_value flds k" for k
    by (simp add: cHeaderExtract_GetValue_def field_value_def p(4))
  have cv: "c_prefix (field_value flds k) = field_value flds k" for k
    by (rule c_prefix_id[OF field_value_no_NUL[OF ok(1)]])
  define D where "D = ?h @ CRLF2 @ c_prefix body"
  note D = data[folded D_def] f1[folded D_def] ng[folded D_def] fm[folded D_def]
  define N where "N = int (length ?h)"
  let ?s = "if field_value flds ''Content-Length'' = [] then field_value flds ''Content-length''
      else field_value flds ''Content-Length''"
  let ?h1 = "h\<lparr>m_msgHeaderEnd := N + 4, m_msgSize := N + 4, ih_HeaderExtract := he\<rparr>"
  have run: "cConnectionHandlerInbound_AnalyzeProtocol b h = Inr
      (if ?s \<noteq> [] \<and> int (length body) < atoi ?s then (eProtocol_INSUFFICIENT_DATA, b2, ?h1)
       else (eProtocol_MCP, b2, if ?s \<noteq> [] then ?h1\<lparr>m_msgSize := N + 4 + atoi ?s\<rparr> else ?h1))"
    unfolding cConnectionHandlerInbound_AnalyzeProtocol_def cstr bindE.simps prod.case option.case D f2[folded N_def]
      cnt Let_def
    using p(1) D(3-5) by (simp add: val cv TRAILINGCRLFS_def N_def)
  show ?thesis unfolding run declared_length_def Let_def N_def using p(2,3) b1(3) by (auto simp: not_less)
qed

section \<open>Reads that do not complete a request\<close>

lemma receive_ok:
  assumes "malloc_total ml" "buf_inv (cr_buffer r)" "d \<noteq> []"
  shows "\<exists>b. receive ml now (Received d) r = Inr (r\<lparr>cr_buffer := b, cr_timestamp := now\<rparr>) \<and> buf_inv b \<and>
    buf_contents b = buf_contents (cr_buffer r) @ d"
  using safe_res_total[OF Append_safe[OF malloc_total_spec[OF assms(1)] assms(2), of "length d" d] assms(1)] assms(3)
  by (auto simp: receive_def)

text \<open>The start of every read: the record with the new bytes, searched for the end of a header.\<close>

lemma read_step:
  assumes ml: "malloc_total (e_malloc ev)" and con: "con_holds fd c sv" and d: "d \<noteq> []"
  shows "\<exists>r. cr_Socketfd r = fd \<and> buf_inv (cr_buffer r) \<and> buf_contents (cr_buffer r) = c @ d \<and>
    cConnectionHandlerInbound_HandleConnection ev ntoa (Received d) fd h sv =
      handle_buffer ev ntoa False (str_find (c_prefix (c @ d)) CRLF2 \<noteq> None) fd (h\<lparr>m_bCloseConnection := False\<rparr>)
        (put_con fd r sv)"
proof -
  obtain r where r: "con_map sv fd = Some r" "cr_Socketfd r = fd" "buf_inv (cr_buffer r)" "buf_contents (cr_buffer r) = c"
    using con by (auto simp: con_holds_def)
  obtain b where b: "receive (e_malloc ev) (e_now ev) (Received d) (r\<lparr>cr_ActiveHandler := True\<rparr>) =
      Inr (r\<lparr>cr_ActiveHandler := True, cr_buffer := b, cr_timestamp := e_now ev\<rparr>)" "buf_inv b" "buf_contents b = c @ d"
    using receive_ok[OF ml, of "r\<lparr>cr_ActiveHandler := True\<rparr>" d "e_now ev"] r d by auto
  let ?i = "case str_find (c_prefix (c @ d)) CRLF2 of Some j \<Rightarrow> int j | None \<Rightarrow> -1"
  have "buf_contents b \<noteq> []" using b(3) d by simp
  from Find_prefix[OF b(2) le0 this, of CRLF2, unfolded drop_0 add_0 b(3)]
  have "\<exists>b'. cBuffer_Find CRLF2 0 b = Inr (?i, b') \<and> buf_inv b' \<and> buf_contents b' = c @ d \<and> buf_terminated b'"
    by simp
  then obtain b' where b': "cBuffer_Find CRLF2 0 b = Inr (?i, b')" "buf_inv b'" "buf_contents b' = c @ d" by blast
  have i: "(?i \<noteq> -1) = (str_find (c_prefix (c @ d)) CRLF2 \<noteq> None)" by (auto split: option.splits)
  have at: "con_at fd sv = Inr r" using r(1) by (simp add: con_at_def)
  let ?r = "r\<lparr>cr_ActiveHandler := True, cr_timestamp := e_now ev, cr_buffer := b'\<rparr>"
  have "cConnectionHandlerInbound_HandleConnection ev ntoa (Received d) fd h sv =
      handle_buffer ev ntoa False (?i \<noteq> -1) fd (h\<lparr>m_bCloseConnection := False\<rparr>) (put_con fd ?r sv)"
    by (simp add: cConnectionHandlerInbound_HandleConnection_def at b(1) b'(1))
  then show ?thesis unfolding i using r(2) b'(2,3) by (intro exI[of _ ?r]) simp
qed

lemma con_holds_put:
  "cr_Socketfd r = fd \<Longrightarrow> buf_inv (cr_buffer r) \<Longrightarrow> con_holds fd (buf_contents (cr_buffer r)) (put_con fd r sv)"
  by (simp add: con_holds_def)

lemma read_header_open:
  assumes "malloc_total (e_malloc ev)" "con_holds fd c sv" "d \<noteq> []" "str_find (c_prefix (c @ d)) CRLF2 = None"
  shows "\<exists>h' sv'. cConnectionHandlerInbound_HandleConnection ev ntoa (Received d) fd h sv = Inr (HRC_CONNECTION_HANDLER_OK, h', sv') \<and>
    \<not> m_bCloseConnection h' \<and> same_server fd sv sv' \<and> con_holds fd (c @ d) sv'"
proof -
  obtain r where r: "cr_Socketfd r = fd" "buf_inv (cr_buffer r)" "buf_contents (cr_buffer r) = c @ d"
    "cConnectionHandlerInbound_HandleConnection ev ntoa (Received d) fd h sv =
      handle_buffer ev ntoa False False fd (h\<lparr>m_bCloseConnection := False\<rparr>) (put_con fd r sv)"
    using read_step[OF assms(1-3), of ntoa h] assms(4) by auto
  then show ?thesis using con_holds_put[of "r\<lparr>cr_ActiveHandler := False\<rparr>" fd sv]
    by (auto simp: handle_buffer_def same_server_def)
qed

lemma header_found:
  assumes "fields_ok flds" "status_ok st" "w = header_text st flds @ CRLF2 @ body"
  shows "str_find (c_prefix w) CRLF2 = Some (length (header_text st flds))"
proof -
  have "NUL \<notin> set (header_text st flds @ CRLF2)" using NUL_header[OF assms(1), of st] assms(2) by (auto simp: status_ok_def)
  then have "c_prefix w = header_text st flds @ CRLF2 @ c_prefix body"
    using c_prefix_append_left[of "header_text st flds @ CRLF2" body] by (simp add: assms(3))
  then show ?thesis using find_end_of_header[OF assms(1), of st "c_prefix body"] assms(2) by (simp add: status_ok_def)
qed

lemma read_body_open:
  assumes "malloc_total (e_malloc ev)" "con_holds fd c sv" "d \<noteq> []"
    and ok: "fields_ok flds" "status_ok (command_line cmd rest)" "CHR '' '' \<notin> set cmd"
    and w: "c @ d = header_text (command_line cmd rest) flds @ CRLF2 @ body"
    and cmd: "cmd \<noteq> ''GET''" "cmd \<noteq> ''POST''" "str_find rest ''MCP/'' \<noteq> None"
    and n: "declared_length flds = Some n" "int (length body) < n"
  shows "\<exists>h' sv'. cConnectionHandlerInbound_HandleConnection ev ntoa (Received d) fd h sv = Inr (HRC_CONNECTION_HANDLER_OK, h', sv') \<and>
    \<not> m_bCloseConnection h' \<and> same_server fd sv sv' \<and> con_holds fd (c @ d) sv'"
proof -
  obtain r where r: "cr_Socketfd r = fd" "buf_inv (cr_buffer r)" "buf_contents (cr_buffer r) = c @ d"
    and run: "cConnectionHandlerInbound_HandleConnection ev ntoa (Received d) fd h sv =
      handle_buffer ev ntoa False True fd (h\<lparr>m_bCloseConnection := False\<rparr>) (put_con fd r sv)"
    using read_step[OF assms(1-3), of ntoa h] header_found[OF ok(1,2) w] by auto
  obtain b' h' where a: "cConnectionHandlerInbound_AnalyzeProtocol (cr_buffer r) (h\<lparr>m_bCloseConnection := False\<rparr>) =
      Inr (eProtocol_INSUFFICIENT_DATA, b', h')" "buf_inv b'" "buf_contents b' = c @ d" "\<not> m_bCloseConnection h'"
    using Analyze_request[OF r(2) ok, of body "h\<lparr>m_bCloseConnection := False\<rparr>"] r(3) w cmd n by auto
  have "handle_buffer ev ntoa False True fd (h\<lparr>m_bCloseConnection := False\<rparr>) (put_con fd r sv) =
      Inr (HRC_CONNECTION_HANDLER_OK, h', put_con fd (r\<lparr>cr_buffer := b', cr_ActiveHandler := False\<rparr>) sv)"
    by (simp add: handle_buffer_def cConnectionHandlerInbound_Process_def a(1) handler_codes)
  then show ?thesis
    unfolding run using a r(1) con_holds_put[of "r\<lparr>cr_buffer := b', cr_ActiveHandler := False\<rparr>" fd sv]
    by (auto simp: same_server_def)
qed

section \<open>The read that completes a request\<close>

text \<open>The members that \<open>Parse\<close> leaves alone.\<close>

definition kept :: "cMsg \<Rightarrow> eMsgState \<times> int \<times> string \<times> int \<times> int \<times> eMsgProtocolType" where
  "kept m = (MsgState m, TCPSocketHandle m, SourceIP m, SourcePort m, MsgArrivalPort m, MsgProtocolType m)"

lemma kept_simps [simp]:
  "kept (m\<lparr>MsgBuffer := b\<rparr>) = kept m" "kept (m\<lparr>MsgRawBuffer := b\<rparr>) = kept m" "kept (m\<lparr>MsgStatusLine := s\<rparr>) = kept m"
  "kept (m\<lparr>MsgHeaderSize := i\<rparr>) = kept m" "kept (m\<lparr>MsgCommand := s\<rparr>) = kept m" "kept (m\<lparr>m_bKeepAlive := k\<rparr>) = kept m"
  "kept (m\<lparr>m_HeaderExtract := e\<rparr>) = kept m" "kept (m\<lparr>MsgID := s\<rparr>) = kept m" "kept (m\<lparr>MsgFormat := f\<rparr>) = kept m"
  "kept (m\<lparr>MsgContentLength := i\<rparr>) = kept m" "kept (m\<lparr>m_pPayload := pl\<rparr>) = kept m"
  "kept (m\<lparr>MsgTo := s\<rparr>) = kept m" "kept (m\<lparr>MsgFrom := s\<rparr>) = kept m" "kept (m\<lparr>MsgSubject := s\<rparr>) = kept m"
  "kept (m\<lparr>MsgPriority := i\<rparr>) = kept m" "kept (m\<lparr>MsgReplyActionType := ra\<rparr>) = kept m"
  "kept (m\<lparr>MsgNotifyActionType := na\<rparr>) = kept m" "kept (m\<lparr>MsgCRC32 := s\<rparr>) = kept m"
  "kept (m\<lparr>MsgContentType := s\<rparr>) = kept m"
  "ct \<noteq> MSG_CT_INTERNAL \<Longrightarrow> kept (cMsg_UpdateMsgConnectionType ct m) = kept m"
  by (simp_all add: kept_def cMsg_UpdateMsgConnectionType_def)

lemma UpdateMsgID_kept: "cMsg_UpdateMsgID gen p m = Inr (m', p') \<Longrightarrow> kept m' = kept m"
  by (auto simp: cMsg_UpdateMsgID_def bindE_eq_Inr)

definition kept_res :: "('a \<Rightarrow> cMsg) \<Rightarrow> cMsg \<Rightarrow> 'a res \<Rightarrow> bool" where
  "kept_res f m r \<longleftrightarrow> (\<forall>x. r = Inr x \<longrightarrow> kept (f x) = kept m)"

lemma kept_res_simps [simp]: "kept_res f m (Inl e)" "kept_res f m (Inr x) \<longleftrightarrow> kept (f x) = kept m"
  by (simp_all add: kept_res_def)

lemma kept_res_bind: "(\<And>x. r = Inr x \<Longrightarrow> kept_res f m (g x)) \<Longrightarrow> kept_res f m (bindE r g)"
  by (cases r) simp_all

lemma parse_fields_kept:
  assumes "ct \<noteq> MSG_CT_INTERNAL" and "parse_fields gen self ct ms e p m = Inr (m', p')"
  shows "kept m' = kept m"
proof -
  have "kept_res fst m (parse_fields gen self ct ms e p m)"
    unfolding parse_fields_def Let_def using assms(1)
    by (auto intro!: kept_res_bind split: if_splits dest!: UpdateMsgID_kept)
  with assms(2) show ?thesis by simp
qed

lemma Parse_kept:
  assumes "ct \<noteq> MSG_CT_INTERNAL" and "cMsg_Parse ml gen self ct ms p m = Inr (rc, m', p')"
  shows "kept m' = kept m"
proof -
  have "kept_res (fst \<circ> snd) m (cMsg_Parse ml gen self ct ms p m)"
    unfolding cMsg_Parse_def Let_def
    by (auto intro!: kept_res_bind split: option.split if_splits simp: bindE_eq_Inr
        dest!: parse_fields_kept[OF assms(1)])
  with assms(2) show ?thesis by simp
qed

lemma add_log_ok:
  assumes "sv_log sv = log_of es"
  shows "\<exists>l. add_log ev m act sv = Inr (sv\<lparr>sv_log := log_of (es @ [l])\<rparr>)"
proof -
  let ?l = "cAccessRecord_Init (e_now ev) (cMsg_GetProtocolType m) (cMsg_GetMsgPriority m) (cMsg_GetCommand m) act
      (cMsg_GetSourceIP m)"
  have "add_log ev m act sv = Inr (sv\<lparr>sv_log := log_of (es @ [?l])\<rparr>)"
    using AddEntry_log_of[of ?l es] by (simp add: add_log_def assms) (simp add: cAccessRecord_Init_def)
  then show ?thesis by blast
qed

text \<open>The message takes exactly the request, and the connection keeps the rest.\<close>

lemma take_request_ok:
  assumes ml: "malloc_total ml" and m: "heap (sv_queue sv) a = Some m" and r: "con_map sv fd = Some r"
    and b: "buf_inv (cr_buffer r)" "buf_contents (cr_buffer r) = w @ t" "w \<noteq> []"
    and first: "MsgBuffer (first r m) = MsgBuffer m" "MsgRawBuffer (first r m) = MsgRawBuffer m" "msg_inv m"
  shows "\<exists>mb r'. take_request ml fd a first (int (length w)) sv =
      Inr ((first r m)\<lparr>MsgBuffer := mb, m_pPayload := (if cBuffer_GetRawBuffer mb = None then PNull else PMsg a 0),
              MsgContentLength := int (length w)\<rparr>, put_con fd r' sv) \<and>
    buf_inv mb \<and> buf_terminated mb \<and> buf_contents mb = w \<and>
    cr_Socketfd r' = cr_Socketfd r \<and> buf_inv (cr_buffer r') \<and> buf_contents (cr_buffer r') = t"
proof -
  let ?b = "cr_buffer r" and ?n = "length w"
  obtain blk where blk: "m_pBuffer ?b = Some blk" using buf_contents_block[of ?b] b by auto
  obtain tl z where tz: "m_iTail ?b = int tl" "m_iBufferSize ?b = int z" "tl < z" "z \<le> length blk"
    using buf_inv_Some_nat[OF b(1) blk] by blast
  have cont: "take tl blk = w @ t" using b(2) tz blk by (simp add: buf_contents_def)
  then have n: "?n \<le> tl" using tz by (metis length_append length_take min.absorb2 le_add1 less_imp_le order.trans)
  have n0: "?n \<noteq> 0" using b(3) by simp
  have w: "take ?n blk = w" by (rule take_header[OF cont n])
  have inv: "buf_inv (cBuffer_Reset (MsgBuffer m))" using first(3) by (simp add: msg_inv_def buf_inv_Reset)
  obtain mb where mb: "cBuffer_ReplaceWith ml (Some blk) (int ?n) (MsgBuffer m) = Inr (BUFFER_NO_ERROR, mb)"
    "buf_inv mb" "buf_terminated mb" "buf_contents mb = w"
    using safe_res_total[OF Append_safe[OF malloc_total_spec[OF ml] inv, of ?n blk] ml] n n0 tz w
    by (auto simp: cBuffer_ReplaceWith_def)
  obtain b' where b': "cBuffer_Remove (int 0) (int ?n) ?b = Inr (BUFFER_NO_ERROR, b')" "buf_inv b'" "buf_contents b' = t"
    using Remove_ok[OF b(1), of ?n 0] n0 b(2) by auto
  show ?thesis
    using mb b' r m first(1)
    by (intro exI[of _ mb] exI[of _ "r\<lparr>cr_buffer := b'\<rparr>"])
      (simp add: take_request_def get_msg_def con_at_def cMsg_SetContentPayload_def cBuffer_GetRawBuffer_def blk)
qed

text \<open>What the message of a request says.\<close>

definition request_msg :: "socket \<Rightarrow> msg_addr \<Rightarrow> string \<Rightarrow> string \<Rightarrow> (string \<times> string) list \<Rightarrow> string \<Rightarrow> cMsg \<Rightarrow> bool" where
  "request_msg fd a cmd rest flds body m \<longleftrightarrow>
     MsgState m = MSG_STATE_PENDING \<and> TCPSocketHandle m = fd \<and> MsgProtocolType m = MSG_PROTOCOL_MCP \<and>
     msg_from_fields a MSG_CT_IB_TCP MSG_FORMAT_REQ (command_line cmd rest) flds m \<and> MsgCommand m = cmd \<and>
     buf_contents (MsgBuffer m) = header_text (command_line cmd rest) flds @ CRLF2 @ body"

definition server_ok :: "uuid_gen \<Rightarrow> server \<Rightarrow> bool" where
  "server_ok gen sv \<longleftrightarrow> sys_inv gen (sv_queue sv) \<and> (\<exists>es. sv_log sv = log_of es)"

lemma server_ok_same: "same_server fd sv sv' \<Longrightarrow> server_ok gen sv' = server_ok gen sv"
  by (auto simp: server_ok_def same_server_def)

text \<open>The new message \<open>a\<close> is the only change to the messages, and the sender's route leads to the
  connection.\<close>

definition dispatched ::
    "socket \<Rightarrow> string \<Rightarrow> string \<Rightarrow> (string \<times> string) list \<Rightarrow> string \<Rightarrow> server \<Rightarrow> server \<Rightarrow> bool" where
  "dispatched fd cmd rest flds body sv sv' \<longleftrightarrow>
     (\<exists>a m. heap (sv_queue sv') = (heap (sv_queue sv))(a \<mapsto> m) \<and>
        (a \<notin> live (sv_queue sv) \<or> in_state (sv_queue sv) a MSG_STATE_INACTIVE) \<and>
        a \<in> set (m_Messages (pool (sv_queue sv'))) \<and> a \<notin> set (m_FreeMsgStack (pool (sv_queue sv'))) \<and>
        request_msg fd a cmd rest flds body m \<and>
        cPeerRoutingMap_GetSocket (cMsg_GetFrom m) (sv_routes sv') = fd)"

lemma dispatched_same:
  "same_server fd sv sv1 \<Longrightarrow> dispatched fd cmd rest flds body sv1 sv2 \<Longrightarrow> dispatched fd cmd rest flds body sv sv2"
  unfolding same_server_def by (elim exE) (simp add: dispatched_def live_def in_state_def)

lemma ProcessMCP_ok:
  assumes ml: "malloc_total (e_malloc ev)" and g: "uuid_spec (e_gen ev)" and new: "e_new ev"
    and sv: "server_ok (e_gen ev) sv" and r: "con_map sv fd = Some r" "cr_Socketfd r = fd"
    and b: "buf_inv (cr_buffer r)" "buf_contents (cr_buffer r) = header_text (command_line cmd rest) flds @ CRLF2 @ body @ t"
    and ok: "fields_ok flds" "status_ok (command_line cmd rest)" "CHR '' '' \<notin> set cmd"
    and n: "m_msgSize h = int (length (header_text (command_line cmd rest) flds @ CRLF2 @ body))"
  shows "\<exists>sv'. cConnectionHandlerInbound_ProcessMCP ev ntoa fd eProtocol_MCP h sv =
      Inr (HRC_CONNECTION_HANDLER_ENDTASK, h\<lparr>m_ipaddr := ntoa (cr_SocketAddr r)\<rparr>, sv') \<and>
    dispatched fd cmd rest flds body sv sv' \<and> con_holds fd t sv'"
proof -
  let ?st = "command_line cmd rest" and ?w = "header_text (command_line cmd rest) flds @ CRLF2 @ body"
  have inv: "sys_inv (e_gen ev) (sv_queue sv)" using sv by (simp add: server_ok_def)
  obtain a q where q: "cMsgPool_GetMessage ev (sv_queue sv) = Inr (a, q)" "taken ev (sv_queue sv) a q" "sys_inv (e_gen ev) q"
    using GetMessage_ok[OF g inv new] by blast
  obtain m0 where m0: "heap q = (heap (sv_queue sv))(a \<mapsto> m0)" "MsgState m0 = MSG_STATE_INUSE" "msg_inv m0"
    using q(2) by (auto simp: taken_def)
  have "sys.more q = sys.more (sv_queue sv)" using q(2) by (simp add: taken_def)
  then have cq: "m_pConnectionQueue q = m_pConnectionQueue (sv_queue sv)" by (cases q; cases "sv_queue sv") simp
  let ?sv = "sv\<lparr>sv_queue := q\<rparr>"
  have con: "con_map ?sv fd = Some r" using r(1) cq by (simp add: con_map_def)
  let ?f = "mcp_first eProtocol_MCP (ntoa (cr_SocketAddr r))"
  have f: "MsgBuffer (?f r m0) = MsgBuffer m0" "MsgRawBuffer (?f r m0) = MsgRawBuffer m0"
    "MsgProtocolType (?f r m0) = MSG_PROTOCOL_MCP" "TCPSocketHandle (?f r m0) = fd"
    using r(2) by (simp_all add: mcp_first_def setter_defs Let_def)
  have cont: "buf_contents (cr_buffer r) = ?w @ t" using b(2) by simp
  have h0: "heap (sv_queue ?sv) a = Some m0" using m0(1) by simp
  have ne: "?w \<noteq> []" by simp
  obtain mb r' where t: "take_request (e_malloc ev) fd a ?f (int (length ?w)) ?sv =
      Inr ((?f r m0)\<lparr>MsgBuffer := mb, m_pPayload := (if cBuffer_GetRawBuffer mb = None then PNull else PMsg a 0),
              MsgContentLength := int (length ?w)\<rparr>, put_con fd r' ?sv)"
    "buf_inv mb" "buf_terminated mb" "buf_contents mb = ?w"
    "cr_Socketfd r' = fd" "buf_inv (cr_buffer r')" "buf_contents (cr_buffer r') = t"
    using take_request_ok[OF ml h0 con b(1) cont ne, of ?f] f(1,2) m0(3) r(2) by blast
  let ?m = "(?f r m0)\<lparr>MsgBuffer := mb, m_pPayload := (if cBuffer_GetRawBuffer mb = None then PNull else PMsg a 0),
              MsgContentLength := int (length ?w)\<rparr>"
  obtain issued where u: "uid_inv (e_gen ev) issued (uid q)" using q(3) by (auto simp: sys_inv_def)
  obtain m1 p1 where p: "cMsg_Parse (e_malloc ev) (e_gen ev) a MSG_CT_IB_TCP MSG_FORMAT_REQ (uid q) ?m = Inr (HRC_MSG_OK, m1, p1)"
    "msg_from_fields a MSG_CT_IB_TCP MSG_FORMAT_REQ ?st flds m1" "MsgCommand m1 = cmd"
    "buf_contents (MsgBuffer m1) = ?w"
    using cMsg_Parse_ok[OF ml g u, of ?m flds cmd rest body a MSG_CT_IB_TCP MSG_FORMAT_REQ] t(2-4) ok m0(3) f(2)
    by (auto simp: msg_inv_def)
  have keep: "TCPSocketHandle m1 = fd" "MsgProtocolType m1 = MSG_PROTOCOL_MCP"
    using Parse_kept[OF _ p(1)] f(3,4) by (simp_all add: kept_def)
  let ?m2 = "cMsg_DispatchMsg (e_name ev) (e_addr ev) m1"
  have ct: "MsgConnectionType m1 = MSG_CT_IB_TCP" using p(2) by (simp add: msg_from_fields_def Let_def)
  then have m2: "?m2 = m1\<lparr>MsgState := MSG_STATE_PENDING\<rparr>" by (simp add: cMsg_DispatchMsg_def)
  have req: "request_msg fd a cmd rest flds body ?m2"
    unfolding m2 using p keep by (simp add: request_msg_def msg_from_fields_def Let_def)
  let ?rt = "snd (cPeerRoutingMap_AddRecord (cMsg_GetFrom m1) (cMsg_GetSourceIP m1) (cMsg_GetSourcePort m1) fd (sv_routes sv))"
  let ?sv2 = "store_msg a ?m2 p1 ((put_con fd r' ?sv)\<lparr>sv_routes := ?rt\<rparr>)"
  obtain es where "sv_log ?sv2 = log_of es" using sv by (auto simp: server_ok_def store_msg_def)
  from add_log_ok[OF this, of ev ?m2 "''MC Message''"] obtain l where
    l: "add_log ev ?m2 ''MC Message'' ?sv2 = Inr (?sv2\<lparr>sv_log := log_of (es @ [l])\<rparr>)" by blast
  have run: "cConnectionHandlerInbound_ProcessMCP ev ntoa fd eProtocol_MCP h sv =
      Inr (HRC_CONNECTION_HANDLER_ENDTASK, h\<lparr>m_ipaddr := ntoa (cr_SocketAddr r)\<rparr>, ?sv2\<lparr>sv_log := log_of (es @ [l])\<rparr>)"
    using con t(1) p(1) l r(2)
    by (simp add: cConnectionHandlerInbound_ProcessMCP_def cMsgQueue_CreateMessage_def q(1) con_at_def n Let_def del: length_append)
  have "a \<notin> live (sv_queue sv) \<or> in_state (sv_queue sv) a MSG_STATE_INACTIVE"
    using q(2) inv by (auto simp: taken_def sys_inv_def split: list.splits)
  moreover have "a \<in> set (m_Messages (pool q))" using q(3) m0(1) by (auto simp: sys_inv_def live_def)
  moreover have "a \<notin> set (m_FreeMsgStack (pool q))"
    using inuse_not_free[OF q(3), of a MSG_STATE_INUSE] m0 by (simp add: in_state_def)
  ultimately have "dispatched fd cmd rest flds body sv (?sv2\<lparr>sv_log := log_of (es @ [l])\<rparr>)"
    unfolding dispatched_def using req m0(1) GetSocket_AddRecord
    by (intro exI[of _ a] exI[of _ ?m2]) (simp add: store_msg_def m2 cMsg_GetFrom_def)
  moreover have "con_holds fd t (?sv2\<lparr>sv_log := log_of (es @ [l])\<rparr>)"
    using t(5-7) con_holds_put[of r' fd ?sv] by (simp add: con_holds_def con_map_def store_msg_def put_con_def Let_def)
  ultimately show ?thesis using run by blast
qed

text \<open>The whole header and a body of the declared length, followed by the start of the next request.\<close>

definition body_fits :: "(string \<times> string) list \<Rightarrow> string \<Rightarrow> bool" where
  "body_fits flds body \<longleftrightarrow>
     (case declared_length flds of Some n \<Rightarrow> n = int (length body) | None \<Rightarrow> body = [])"

lemma read_completes:
  assumes ml: "malloc_total (e_malloc ev)" and g: "uuid_spec (e_gen ev)" "e_new ev"
    and sv: "server_ok (e_gen ev) sv" "con_holds fd c sv" and d: "d \<noteq> []"
    and ok: "fields_ok flds" "status_ok (command_line cmd rest)" "CHR '' '' \<notin> set cmd"
    and w: "c @ d = header_text (command_line cmd rest) flds @ CRLF2 @ body @ t"
    and cmd: "cmd \<noteq> ''GET''" "cmd \<noteq> ''POST''" "str_find rest ''MCP/'' \<noteq> None" and n: "body_fits flds body"
  shows "\<exists>h' sv'. cConnectionHandlerInbound_HandleConnection ev ntoa (Received d) fd h sv = Inr (HRC_CONNECTION_HANDLER_OK, h', sv') \<and>
    \<not> m_bCloseConnection h' \<and> dispatched fd cmd rest flds body sv sv' \<and> con_holds fd t sv'"
proof -
  let ?h = "header_text (command_line cmd rest) flds"
  obtain r where r: "cr_Socketfd r = fd" "buf_inv (cr_buffer r)" "buf_contents (cr_buffer r) = c @ d"
    and run: "cConnectionHandlerInbound_HandleConnection ev ntoa (Received d) fd h sv =
      handle_buffer ev ntoa False True fd (h\<lparr>m_bCloseConnection := False\<rparr>) (put_con fd r sv)"
    using read_step[OF ml sv(2) d, of ntoa h] header_found[OF ok(1,2) w] by auto
  obtain b' h' where a: "cConnectionHandlerInbound_AnalyzeProtocol (cr_buffer r) (h\<lparr>m_bCloseConnection := False\<rparr>) =
      Inr (eProtocol_MCP, b', h')" "buf_inv b'" "buf_contents b' = c @ d" "\<not> m_bCloseConnection h'"
    "m_msgSize h' = int (length (?h @ CRLF2 @ body))"
    using Analyze_request[OF r(2) ok, of "body @ t" "h\<lparr>m_bCloseConnection := False\<rparr>"] r(3) w cmd n
    by (auto simp: body_fits_def split: option.splits)
  let ?r = "r\<lparr>cr_buffer := b'\<rparr>"
  have sv': "server_ok (e_gen ev) (put_con fd ?r sv)"
    using sv(1) server_ok_same[of fd sv "put_con fd ?r sv"] by (auto simp: same_server_def)
  obtain sv2 where p: "cConnectionHandlerInbound_ProcessMCP ev ntoa fd eProtocol_MCP h' (put_con fd ?r sv) =
      Inr (HRC_CONNECTION_HANDLER_ENDTASK, h'\<lparr>m_ipaddr := ntoa (cr_SocketAddr r)\<rparr>, sv2)"
    "dispatched fd cmd rest flds body (put_con fd ?r sv) sv2" "con_holds fd t sv2"
    using ProcessMCP_ok[OF ml g sv', of fd ?r cmd rest flds body t h' ntoa] r(1) a w ok by auto
  then obtain r2 where r2: "con_map sv2 fd = Some r2" "cr_Socketfd r2 = fd" "buf_inv (cr_buffer r2)" "buf_contents (cr_buffer r2) = t"
    by (auto simp: con_holds_def)
  let ?sv = "put_con fd (r2\<lparr>cr_ActiveHandler := False\<rparr>) sv2"
  have "handle_buffer ev ntoa False True fd (h\<lparr>m_bCloseConnection := False\<rparr>) (put_con fd r sv) =
      Inr (HRC_CONNECTION_HANDLER_OK, h'\<lparr>m_ipaddr := ntoa (cr_SocketAddr r)\<rparr>, ?sv)"
    using r2(1) by (simp add: handle_buffer_def cConnectionHandlerInbound_Process_def a(1) p(1) con_at_def)
  moreover have "dispatched fd cmd rest flds body sv ?sv"
    using p(2) by (simp add: dispatched_def live_def in_state_def)
  moreover have "con_holds fd t ?sv" using r2 con_holds_put[of "r2\<lparr>cr_ActiveHandler := False\<rparr>" fd sv2] by simp
  ultimately show ?thesis unfolding run using a(4) by auto
qed

section \<open>Any number of reads\<close>

fun feed :: "(string \<Rightarrow> string) \<Rightarrow> socket \<Rightarrow> (env \<times> string) list \<Rightarrow> cConnectionHandlerInbound \<times> server \<Rightarrow>
    (cConnectionHandlerInbound \<times> server) res" where
  "feed ntoa fd [] hs = Inr hs"
| "feed ntoa fd ((ev, d) # ds) (h, sv) =
     bindE (cConnectionHandlerInbound_HandleConnection ev ntoa (Received d) fd h sv) (\<lambda>(_, h, sv).
     feed ntoa fd ds (h, sv))"

lemma feed_append: "feed ntoa fd (xs @ ys) hs = bindE (feed ntoa fd xs hs) (feed ntoa fd ys)"
proof (induction xs arbitrary: hs)
  case (Cons x xs)
  obtain ev d where x: "x = (ev, d)" by (cases x)
  obtain h sv where hs: "hs = (h, sv)" by (cases hs)
  show ?case
    by (cases "cConnectionHandlerInbound_HandleConnection ev ntoa (Received d) fd h sv") (auto simp: x hs Cons.IH)
qed simp

definition reads_ok :: "uuid_gen \<Rightarrow> (env \<times> string) list \<Rightarrow> bool" where
  "reads_ok gen reads \<longleftrightarrow> reads \<noteq> [] \<and>
     (\<forall>(ev, d) \<in> set reads. malloc_total (e_malloc ev) \<and> e_gen ev = gen \<and> e_new ev \<and> d \<noteq> [])"

definition bytes_of :: "(env \<times> string) list \<Rightarrow> string" where
  "bytes_of reads = concat (map snd reads)"

lemma partial_read:
  assumes "reads_ok gen reads" "k < length reads"
  shows "length (bytes_of (take k reads)) < length (bytes_of reads)"
proof -
  have "bytes_of reads = bytes_of (take k reads) @ snd (reads ! k) @ bytes_of (drop (Suc k) reads)"
    unfolding bytes_of_def by (subst id_take_nth_drop[OF assms(2)]) simp
  moreover have "snd (reads ! k) \<noteq> []" using assms by (fastforce simp: reads_ok_def dest: nth_mem)
  ultimately show ?thesis by simp
qed

lemma prefix_of_bytes: "bytes_of (take k reads) = take (length (bytes_of (take k reads))) (bytes_of reads)"
  unfolding bytes_of_def by (metis append_eq_conv_conj append_take_drop_id concat_append map_append)

lemma feed_prefix:
  assumes rd: "reads_ok gen reads" and con: "con_holds fd [] sv"
    and ok: "fields_ok flds" "status_ok (command_line cmd rest)" "CHR '' '' \<notin> set cmd"
    and w: "bytes_of reads = header_text (command_line cmd rest) flds @ CRLF2 @ body"
    and cmd: "cmd \<noteq> ''GET''" "cmd \<noteq> ''POST''" "str_find rest ''MCP/'' \<noteq> None" and n: "body_fits flds body"
  shows "k < length reads \<Longrightarrow> \<exists>h' sv'. feed ntoa fd (take k reads) (h, sv) = Inr (h', sv') \<and>
    same_server fd sv sv' \<and> con_holds fd (bytes_of (take k reads)) sv' \<and> (0 < k \<longrightarrow> \<not> m_bCloseConnection h')"
proof (induction k)
  case 0
  obtain r where "con_map sv fd = Some r" using con by (auto simp: con_holds_def)
  then have "put_con fd r sv = sv"
    by (simp add: put_con_def con_map_def fun_upd_idem Let_def)
  then have "same_server fd sv sv" unfolding same_server_def by metis
  then show ?case using con by (simp add: bytes_of_def)
next
  case (Suc k)
  let ?h = "header_text (command_line cmd rest) flds"
  obtain ev d where x: "reads ! k = (ev, d)" by (cases "reads ! k")
  have e: "malloc_total (e_malloc ev)" "d \<noteq> []"
    using rd Suc.prems x nth_mem[of k reads] by (auto simp: reads_ok_def)
  obtain h' sv' where 1: "feed ntoa fd (take k reads) (h, sv) = Inr (h', sv')" "same_server fd sv sv'"
    "con_holds fd (bytes_of (take k reads)) sv'"
    using Suc by auto
  let ?c = "bytes_of (take k reads)"
  define l where "l = length (?c @ d)"
  have cd: "?c @ d = bytes_of (take (Suc k) reads)"
    using Suc.prems x by (simp add: bytes_of_def take_Suc_conv_app_nth)
  then have p: "?c @ d = take l (bytes_of reads)" "l < length (bytes_of reads)"
    unfolding l_def using prefix_of_bytes[of "Suc k" reads] partial_read[OF rd Suc.prems] by simp_all
  have "\<exists>h2 sv2. cConnectionHandlerInbound_HandleConnection ev ntoa (Received d) fd h' sv' = Inr (HRC_CONNECTION_HANDLER_OK, h2, sv2) \<and>
    \<not> m_bCloseConnection h2 \<and> same_server fd sv' sv2 \<and> con_holds fd (?c @ d) sv2"
  proof (cases "l < length ?h + 4")
    case True
    have "str_find (c_prefix (?c @ d)) CRLF2 = None"
      unfolding p(1) c_prefix_take using header_found[OF ok(1,2) w] True by (intro str_find_take_None) auto
    then show ?thesis using read_header_open[OF e(1) 1(3) e(2)] by blast
  next
    case False
    then obtain j where j: "l = length ?h + 4 + j" using le_iff_add by (auto simp: not_less)
    have cd': "?c @ d = ?h @ CRLF2 @ take j body" unfolding p(1) w j by (simp add: numeral_eq_Suc)
    have "j < length body" using p(2) unfolding w j by simp
    then have "declared_length flds = Some (int (length body))" "int (length (take j body)) < int (length body)"
      using n by (auto simp: body_fits_def split: option.splits)
    then show ?thesis using read_body_open[OF e(1) 1(3) e(2) ok cd' cmd] by blast
  qed
  then obtain h2 sv2 where 2: "cConnectionHandlerInbound_HandleConnection ev ntoa (Received d) fd h' sv' = Inr (HRC_CONNECTION_HANDLER_OK, h2, sv2)"
    "\<not> m_bCloseConnection h2" "same_server fd sv' sv2" "con_holds fd (?c @ d) sv2" by blast
  have "take (Suc k) reads = take k reads @ [(ev, d)]" using Suc.prems x by (simp add: take_Suc_conv_app_nth)
  then have "feed ntoa fd (take (Suc k) reads) (h, sv) = Inr (h2, sv2)"
    using 1(1) 2(1) by (simp add: feed_append)
  with 2 same_server_trans[OF 1(2) 2(3)] cd show ?case by simp
qed

section \<open>Properties\<close>

text \<open>
  (C16) Requests are reassembled: a request of the server's own protocol (a command line, header
  fields, a blank line and a body of the declared length) that reaches an idle connection in any
  number of reads, cut anywhere, changes nothing but the connection's record until its last byte
  has arrived; that read dispatches exactly one new message, which holds exactly the bytes of the
  request with its members read from the header, makes the sender's route lead to the connection,
  leaves the connection open and its buffer empty.
\<close>

theorem request_reassembled:
  assumes "reads_ok gen reads" and "uuid_spec gen" and "server_ok gen sv" and "con_holds fd [] sv"
    and "fields_ok flds" and "status_ok (command_line cmd rest)" and "CHR '' '' \<notin> set cmd"
    and "bytes_of reads = header_text (command_line cmd rest) flds @ CRLF2 @ body"
    and "cmd \<noteq> ''GET''" and "cmd \<noteq> ''POST''" and "str_find rest ''MCP/'' \<noteq> None" and "body_fits flds body"
  shows "(\<forall>k < length reads. \<exists>h' sv'. feed ntoa fd (take k reads) (h, sv) = Inr (h', sv') \<and>
      same_server fd sv sv' \<and> con_holds fd (bytes_of (take k reads)) sv') \<and>
    (\<exists>h' sv'. feed ntoa fd reads (h, sv) = Inr (h', sv') \<and> \<not> m_bCloseConnection h' \<and>
      dispatched fd cmd rest flds body sv sv' \<and> con_holds fd [] sv')"
proof (intro conjI allI impI)
  note pre = feed_prefix[OF assms(1,4-12), of _ ntoa h]
  show "\<exists>h' sv'. feed ntoa fd (take k reads) (h, sv) = Inr (h', sv') \<and>
      same_server fd sv sv' \<and> con_holds fd (bytes_of (take k reads)) sv'" if "k < length reads" for k
    using pre[OF that] by blast
  obtain k where k: "length reads = Suc k" using assms(1) by (cases reads) (auto simp: reads_ok_def)
  obtain ev d where x: "reads ! k = (ev, d)" by (cases "reads ! k")
  have split: "reads = take k reads @ [(ev, d)]" using k x by (metis lessI take_Suc_conv_app_nth take_all order_refl)
  have e: "malloc_total (e_malloc ev)" "e_gen ev = gen" "e_new ev" "d \<noteq> []"
    using assms(1) k x nth_mem[of k reads] by (auto simp: reads_ok_def)
  obtain h1 sv1 where 1: "feed ntoa fd (take k reads) (h, sv) = Inr (h1, sv1)" "same_server fd sv sv1"
    "con_holds fd (bytes_of (take k reads)) sv1" using pre[of k] k by auto
  have "bytes_of (take k reads) @ d = bytes_of reads" using arg_cong[OF split, of bytes_of] by (simp add: bytes_of_def)
  then have w: "bytes_of (take k reads) @ d = header_text (command_line cmd rest) flds @ CRLF2 @ body @ []"
    using assms(8) by simp
  have sv1: "server_ok (e_gen ev) sv1" using server_ok_same[OF 1(2)] assms(3) e(2) by simp
  have g: "uuid_spec (e_gen ev)" using assms(2) e(2) by simp
  from read_completes[OF e(1) g e(3) sv1 1(3) e(4) assms(5-7) w assms(9-12), of ntoa h1]
  obtain h2 sv2 where 2: "cConnectionHandlerInbound_HandleConnection ev ntoa (Received d) fd h1 sv1 =
      Inr (HRC_CONNECTION_HANDLER_OK, h2, sv2)" "\<not> m_bCloseConnection h2" "dispatched fd cmd rest flds body sv1 sv2"
    "con_holds fd [] sv2" by blast
  have "feed ntoa fd reads (h, sv) = Inr (h2, sv2)"
    by (subst split) (simp add: feed_append 1(1) 2(1))
  moreover have "dispatched fd cmd rest flds body sv sv2" using 2(3) dispatched_same[OF 1(2)] by blast
  ultimately show "\<exists>h' sv'. feed ntoa fd reads (h, sv) = Inr (h', sv') \<and> \<not> m_bCloseConnection h' \<and>
      dispatched fd cmd rest flds body sv sv' \<and> con_holds fd [] sv'" using 2 by blast
qed

definition demo_server :: "socket \<Rightarrow> server" where
  "demo_server fd = put_con fd (ConnectionRecord_zero\<lparr>cr_Socketfd := fd\<rparr>)
     \<lparr>sv_queue = demo_queue cMsg_raw, sv_routes = cPeerRoutingMap_new, sv_log = cAccessLog_new\<rparr>"

lemma demo_server_ok: "server_ok example_gen (demo_server fd)" "con_holds fd [] (demo_server fd)"
  using demo_inv[OF msg_inv_raw] log_of_new
  by (auto simp: demo_server_def server_ok_def con_holds_def ConnectionRecord_zero_def)

abbreviation "demo_request \<equiv> header_text (command_line ''PING'' ''MCP/1.0'') [(''Content-Length'', ''2'')] @ CRLF2 @ ''hi''"

lemma demo_request_ok:
  "fields_ok [(''Content-Length'', ''2'')]" "status_ok (command_line ''PING'' ''MCP/1.0'')" "CHR '' '' \<notin> set ''PING''"
  "str_find ''MCP/1.0'' ''MCP/'' \<noteq> None" "body_fits [(''Content-Length'', ''2'')] ''hi''"
  by (simp_all add: fields_ok_def status_ok_def command_line_def body_fits_def declared_length_def field_value_def
      atoi_def is_space_def is_digit_def)

theorem request_reassembled_witness:
  "\<exists>h1 sv1 h' sv'. feed (\<lambda>a. a) 5 [(demo_env, take 8 demo_request)] (cConnectionHandlerInbound_new, demo_server 5) = Inr (h1, sv1) \<and>
     heap (sv_queue sv1) = heap (sv_queue (demo_server 5)) \<and>
     feed (\<lambda>a. a) 5 [(demo_env, take 8 demo_request), (demo_env, drop 8 demo_request)]
       (cConnectionHandlerInbound_new, demo_server 5) = Inr (h', sv') \<and>
     dispatched 5 ''PING'' ''MCP/1.0'' [(''Content-Length'', ''2'')] ''hi'' (demo_server 5) sv'"
proof -
  let ?r = "[(demo_env, take 8 demo_request), (demo_env, drop 8 demo_request)]"
  have len: "length demo_request = 37" by (simp add: header_text_def field_line_def command_line_def)
  have "length (take 8 demo_request) \<noteq> 0" "length (drop 8 demo_request) \<noteq> 0" unfolding length_take length_drop len by simp_all
  then have "take 8 demo_request \<noteq> []" "drop 8 demo_request \<noteq> []" unfolding length_0_conv .
  then have r: "reads_ok example_gen ?r" using malloc_total_zero by (simp add: reads_ok_def demo_env_def)
  have b: "bytes_of ?r = demo_request" unfolding bytes_of_def by (simp only: list.map snd_conv concat.simps append_Nil2 append_take_drop_id)
  have cmd: "''PING'' \<noteq> ''GET''" "''PING'' \<noteq> ''POST''" by simp_all
  note * = request_reassembled[where ntoa = "\<lambda>a. a" and h = cConnectionHandlerInbound_new,
      OF r example_gen_spec demo_server_ok demo_request_ok(1-3) b cmd demo_request_ok(4,5)]
  from * obtain h1 sv1 where 1: "feed (\<lambda>a. a) 5 (take 1 ?r) (cConnectionHandlerInbound_new, demo_server 5) = Inr (h1, sv1)"
    "same_server 5 (demo_server 5) sv1" by force
  then have "feed (\<lambda>a. a) 5 [(demo_env, take 8 demo_request)] (cConnectionHandlerInbound_new, demo_server 5) = Inr (h1, sv1)"
    by (simp only: take_Suc_Cons One_nat_def take_0)
  moreover have "heap (sv_queue sv1) = heap (sv_queue (demo_server 5))" using 1(2) by (auto simp: same_server_def)
  ultimately show ?thesis using * by force
qed



end
