(* ===== verification/Outbound.thy ===== *)
theory Outbound
  imports Inbound
begin

text \<open>
  The outbound side, \<open>cConnectionHandlerOutbound\<close> (\<open>connectionhandleroutbound.h\<close>,
  \<open>connectionhandleroutbound.cpp\<close>, POSIX branches): a message is written out as an HTTP reply, an
  MCP reply or an MCP request and sent on its socket, or on a new one.

  \<open>outbound\<close> holds the server, the handler's members and the trace of its system calls: the bytes
  that each socket has taken, the datagrams, the sockets opened and those closed behind the
  connection table's back. The answers of \<open>send\<close> are a script, one for each call; the other
  calls of the network and the arithmetic of doubles are the functions of \<open>net\<close>. The local port
  that \<open>TransmitMsg\<close> looks up is used nowhere and left out.
\<close>

definition HRC_COMMAND_HANDLER_OK :: int where "HRC_COMMAND_HANDLER_OK = 0"
definition HRC_COMMAND_HANDLER_UNABLE_TO_SEND_MESSAGE :: int where
  "HRC_COMMAND_HANDLER_UNABLE_TO_SEND_MESSAGE = 9"

text \<open>
  \<open>send\<close> takes some of the bytes or fails, with \<open>True\<close> when \<open>errno\<close> only asks to try again. A script
  that is used up stands for a call that has not returned.
\<close>

datatype send_result = Sent nat | SendFailed bool

record net =
  n_inet_addr :: "string \<Rightarrow> 32 word"
  n_inet_aton :: "string \<Rightarrow> 32 word option"
  n_gethostbyname :: "string \<Rightarrow> 32 word option"
  n_tcp_socket :: socket
  n_udp_socket :: socket
  n_connect :: "32 word \<Rightarrow> 16 word \<Rightarrow> int"
  n_sendto :: "socket \<Rightarrow> 32 word \<Rightarrow> 16 word \<Rightarrow> string \<Rightarrow> int"
  n_elapsed :: "cBench \<Rightarrow> double"
  n_fadd :: "double \<Rightarrow> double \<Rightarrow> double"
  n_print4f :: "double \<Rightarrow> string"

record cConnectionHandlerOutbound =
  oh_bCloseConnection :: bool
  oh_response :: cBuffer
  oh_ServerAddr :: cBuffer
  oh_temp :: cBuffer
  oh_ServerPort :: int
  oh_bSocketCreated :: bool

definition cConnectionHandlerOutbound_new :: cConnectionHandlerOutbound where
  "cConnectionHandlerOutbound_new = \<lparr>oh_bCloseConnection = False, oh_response = cBuffer_new,
     oh_ServerAddr = cBuffer_new, oh_temp = cBuffer_new, oh_ServerPort = 0, oh_bSocketCreated = False\<rparr>"

record outbound =
  ob_sv :: server
  ob_h :: cConnectionHandlerOutbound
  ob_sends :: "send_result list"
  ob_wire :: "(socket \<times> string) list"
  ob_datagrams :: "(socket \<times> 32 word \<times> 16 word \<times> string) list"
  ob_opened :: "socket list"
  ob_closed :: "socket list"

definition cConnectionHandlerOutbound_DoCloseConnection :: "cConnectionHandlerOutbound \<Rightarrow> bool" where
  "cConnectionHandlerOutbound_DoCloseConnection h = oh_bCloseConnection h"

definition ob_msg :: "msg_addr \<Rightarrow> outbound \<Rightarrow> cMsg res" where
  "ob_msg a ob = get_msg a (sv_queue (ob_sv ob))"

definition ob_set_msg :: "msg_addr \<Rightarrow> (cMsg \<Rightarrow> cMsg) \<Rightarrow> outbound \<Rightarrow> outbound res" where
  "ob_set_msg a f ob =
     bindE (upd_msg a f (sv_queue (ob_sv ob))) (\<lambda>q. Inr (ob\<lparr>ob_sv := (ob_sv ob)\<lparr>sv_queue := q\<rparr>\<rparr>))"

definition ob_metrics :: "(cSysMetrics \<Rightarrow> cSysMetrics res) \<Rightarrow> outbound \<Rightarrow> outbound res" where
  "ob_metrics f ob =
     (let q = sv_queue (ob_sv ob) in
      case m_pSysMetrics q of
        None \<Rightarrow> Inl MemFault
      | Some x \<Rightarrow> bindE (f x) (\<lambda>x. Inr (ob\<lparr>ob_sv := (ob_sv ob)\<lparr>sv_queue := q\<lparr>m_pSysMetrics := Some x\<rparr>\<rparr>\<rparr>)))"

definition ob_close :: "outbound \<Rightarrow> outbound" where
  "ob_close ob = ob\<lparr>ob_h := (ob_h ob)\<lparr>oh_bCloseConnection := True\<rparr>\<rparr>"

definition ob_set_response :: "cBuffer \<Rightarrow> outbound \<Rightarrow> outbound" where
  "ob_set_response b ob = ob\<lparr>ob_h := (ob_h ob)\<lparr>oh_response := b\<rparr>\<rparr>"

section \<open>Sending\<close>

text \<open>The loop of \<open>TCPSend\<close>: whether no error ended it, the bytes taken, and the rest of the script.\<close>

fun send_loop :: "send_result list \<Rightarrow> block \<Rightarrow> int \<Rightarrow> int \<Rightarrow> (bool \<times> string \<times> send_result list) res" where
  "send_loop [] blk totalSent sz = Inl Diverge"
| "send_loop (r # rs) blk totalSent sz =
     bindE (mem_get blk totalSent (sz - totalSent)) (\<lambda>d.
     case r of
       Sent n \<Rightarrow>
         (let totalSent = totalSent + int n in
          if totalSent < sz
          then bindE (send_loop rs blk totalSent sz) (\<lambda>(bRet, s, rs). Inr (bRet, take n d @ s, rs))
          else Inr (True, take n d, rs))
     | SendFailed again \<Rightarrow>
         if again then (if totalSent < sz then send_loop rs blk totalSent sz else Inr (True, [], rs))
         else Inr (False, [], rs))"

definition cConnectionHandlerOutbound_TCPSend ::
    "env \<Rightarrow> socket option \<Rightarrow> msg_addr \<Rightarrow> socket \<Rightarrow> block option \<Rightarrow> int \<Rightarrow> outbound \<Rightarrow> (bool \<times> outbound) res" where
  "cConnectionHandlerOutbound_TCPSend ev rec a fd pBuf sz ob =
     bindE (send_loop (ob_sends ob) (deref pBuf) 0 sz) (\<lambda>(bRet, s, rs).
     let ob = ob\<lparr>ob_sends := rs, ob_wire := ob_wire ob @ [(fd, s)]\<rparr> in
     bindE
       (if bRet = False then
          Inr (if oh_bSocketCreated (ob_h ob) then ob\<lparr>ob_closed := fd # ob_closed ob\<rparr> else ob_close ob)
        else
          (case rec of
             None \<Rightarrow> Inr ob
           | Some p \<Rightarrow> bindE (con_at p (ob_sv ob)) (\<lambda>r.
               Inr (ob\<lparr>ob_sv := put_con p (r\<lparr>cr_timestamp := e_now ev\<rparr>) (ob_sv ob)\<rparr>)))) (\<lambda>ob.
     bindE (ob_msg a ob) (\<lambda>m.
     Inr (bRet, if cMsg_IsKeepAlive m = False then ob_close ob else ob))))"

text \<open>Ports in network order; the port of an inbound datagram is kept in that order.\<close>

definition htons :: "int \<Rightarrow> 16 word" where
  "htons p = (let w = word_of_int p :: 16 word in push_bit 8 w + drop_bit 8 w)"

definition cConnectionHandlerOutbound_OpenTCP :: "net \<Rightarrow> string \<Rightarrow> int \<Rightarrow> outbound \<Rightarrow> socket \<times> outbound" where
  "cConnectionHandlerOutbound_OpenTCP nt pServer port ob =
     (let host = (if n_inet_addr nt pServer = 0xFFFFFFFF then n_gethostbyname nt pServer
                  else case n_inet_aton nt pServer of None \<Rightarrow> n_gethostbyname nt pServer | Some w \<Rightarrow> Some w) in
      case host of
        None \<Rightarrow> (-1, ob)
      | Some w \<Rightarrow>
          let Socketfd = n_tcp_socket nt in
          if Socketfd < 0 then (-1, ob)
          else
            let ob = ob\<lparr>ob_opened := Socketfd # ob_opened ob\<rparr> in
            if n_connect nt w (htons port) \<noteq> 0 then (-1, ob)
            else (Socketfd, ob\<lparr>ob_h := (ob_h ob)\<lparr>oh_bSocketCreated := True\<rparr>\<rparr>))"

definition cConnectionHandlerOutbound_UDPSend :: "net \<Rightarrow> msg_addr \<Rightarrow> outbound \<Rightarrow> (bool \<times> outbound) res" where
  "cConnectionHandlerOutbound_UDPSend nt a ob =
     bindE (ob_msg a ob) (\<lambda>m.
     let own = (cMsg_GetUDPSocketHandle m = -1);
         Socketfd = (if own then n_udp_socket nt else cMsg_GetUDPSocketHandle m) in
     if own \<and> Socketfd = -1 then Inr (False, ob)
     else
       let ob = (if own then ob\<lparr>ob_opened := Socketfd # ob_opened ob\<rparr> else ob) in
       bindE (if own
              then bindE (cBuffer_cstr (oh_ServerAddr (ob_h ob))) (\<lambda>(p, b).
                   bindE (cstr_at (deref p) 0) (\<lambda>s.
                   Inr (n_inet_addr nt s, htons (oh_ServerPort (ob_h ob)), ob\<lparr>ob_h := (ob_h ob)\<lparr>oh_ServerAddr := b\<rparr>\<rparr>)))
              else Inr (n_inet_addr nt (cMsg_GetSourceIP m), word_of_int (cMsg_GetSourcePort m), ob)) (\<lambda>(w, port, ob).
       let b = oh_response (ob_h ob) in
       bindE (mem_get (deref (cBuffer_GetRawBuffer b)) 0 (cBuffer_GetBufferCount b)) (\<lambda>d.
       let ob = ob\<lparr>ob_datagrams := ob_datagrams ob @ [(Socketfd, w, port, d)]\<rparr>;
           ob = (if own then ob\<lparr>ob_closed := Socketfd # ob_closed ob\<rparr> else ob)
       in Inr (\<not> n_sendto nt Socketfd w port d < 0, ob))))"

section \<open>The text of a message\<close>

definition keep_alive_text :: "cMsg \<Rightarrow> string" where
  "keep_alive_text m = (if cMsg_IsKeepAlive m then ''keep-alive'' else ''close'')"

definition message_type :: "cMsg \<Rightarrow> string" where
  "message_type m = (if cMsg_GetFormat m = MSG_FORMAT_NOTIFY then ''Notify'' else ''Reply'')"

text \<open>\<open>%3.3d\<close>.\<close>

definition print3d :: "int \<Rightarrow> string" where
  "print3d n = (let s = show_nat (nat \<bar>n\<bar>); s = replicate (3 - length s) (CHR ''0'') @ s
                in if n < 0 then CHR ''-'' # s else s)"

definition eol :: string where "eol = [CR, LF]"

definition http_header :: "string \<Rightarrow> cMsg \<Rightarrow> string" where
  "http_header name m =
     ''HTTP/1.1 200 OK'' @ eol @ ''Server: '' @ c_prefix name @ eol @ ''Content-Type: '' @ cMsg_GetContentType m @ eol @
     ''Content-Length: '' @ show_int (cMsg_GetContentLength m) @ eol @ ''Connection: '' @ keep_alive_text m @ eol @ eol"

definition mcp_reply_header :: "cMsg \<Rightarrow> string" where
  "mcp_reply_header m =
     ''MCP/1.0 '' @ print3d (cMsg_GetResponseCode m) @ '' '' @ message_type m @ eol @ ''MsgID: '' @ cMsg_GetMsgID m @ eol @
     ''To: '' @ cMsg_GetTo m @ eol @ ''From: '' @ cMsg_GetFrom m @ eol @ ''Content-Type: '' @ cMsg_GetContentType m @ eol @
     ''Content-Length: '' @ show_int (cMsg_GetContentLength m) @ eol @ ''Connection: '' @ keep_alive_text m @ eol @ eol"

definition mcp_empty_status :: "net \<Rightarrow> cMsg \<Rightarrow> string" where
  "mcp_empty_status nt m =
     ''MCP/1.0 '' @ print3d (cMsg_GetResponseCode m) @ '' '' @ message_type m @ eol @ ''MsgID: '' @ cMsg_GetMsgID m @ eol @
     ''MsgPT: '' @ n_print4f nt (n_elapsed nt (cMsg_GetBench m)) @ eol @ ''Connection: '' @ keep_alive_text m @ eol"

definition request_header :: "cMsg \<Rightarrow> string" where
  "request_header m =
     cMsg_GetCommand m @ '' MCP/1.0'' @ eol @ ''MsgID: '' @ cMsg_GetMsgID m @ eol @ ''To: '' @ cMsg_GetTo m @ eol @
     ''From: '' @ cMsg_GetFrom m @ eol @ ''Content-Type: '' @ cMsg_GetContentType m @ eol @
     ''Content-Length: '' @ show_int (cMsg_GetContentLength m) @ eol @ ''Connection: '' @ keep_alive_text m @ eol @ eol"

definition request_empty :: "cMsg \<Rightarrow> string" where
  "request_empty m =
     cMsg_GetCommand m @ '' MCP/1.0'' @ eol @ ''MsgID: '' @ cMsg_GetMsgID m @ eol @ ''To: '' @ cMsg_GetTo m @ eol @
     ''From: '' @ cMsg_GetFrom m @ eol @ ''Connection: '' @ keep_alive_text m @ eol @ eol"

text \<open>\<open>sprintf\<close> into \<open>m_TestBuffer[2048]\<close>, whose text is then appended to the response.\<close>

definition test_buffer :: "string \<Rightarrow> string res" where
  "test_buffer s = (if length s < 2048 then Inr s else Inl MemFault)"

definition response_sprintf :: "malloc \<Rightarrow> string \<Rightarrow> outbound \<Rightarrow> outbound res" where
  "response_sprintf ml s ob =
     bindE (cBuffer_Sprintf ml 5000 s (oh_response (ob_h ob))) (\<lambda>(_, b). Inr (ob_set_response b ob))"

definition response_append :: "malloc \<Rightarrow> block option \<Rightarrow> int \<Rightarrow> outbound \<Rightarrow> outbound res" where
  "response_append ml p n ob =
     bindE (cBuffer_Append ml p n (oh_response (ob_h ob))) (\<lambda>(_, b). Inr (ob_set_response b ob))"

definition response_text :: "malloc \<Rightarrow> string \<Rightarrow> outbound \<Rightarrow> outbound res" where
  "response_text ml s = response_append ml (Some (cstr s)) (-1)"

text \<open>\<open>Append(GetContentPayload(), GetContentLength())\<close>.\<close>

definition append_payload :: "malloc \<Rightarrow> cMsg \<Rightarrow> outbound \<Rightarrow> outbound res" where
  "append_payload ml m ob =
     response_append ml (payload_block (heap (sv_queue (ob_sv ob))) (cMsg_GetContentPayload m)) (cMsg_GetContentLength m) ob"

text \<open>\<open>pBench->Stop()\<close> and the response time of the metrics.\<close>

definition note_time :: "env \<Rightarrow> net \<Rightarrow> msg_addr \<Rightarrow> outbound \<Rightarrow> outbound res" where
  "note_time ev nt a ob =
     bindE (ob_set_msg a (\<lambda>m. m\<lparr>MsgProfiler := cBench_Stop (e_tv1 ev) (MsgProfiler m)\<rparr>) ob) (\<lambda>ob.
     bindE (ob_msg a ob) (\<lambda>m.
     ob_metrics (\<lambda>x. Inr (cSysMetrics_UpdateMsgResponseTime (n_fadd nt) (n_elapsed nt (cMsg_GetBench m)) x)) ob))"

definition reply_mcp :: "env \<Rightarrow> net \<Rightarrow> msg_addr \<Rightarrow> outbound \<Rightarrow> outbound res" where
  "reply_mcp ev nt a ob =
     bindE (note_time ev nt a ob) (\<lambda>ob.
     bindE (ob_msg a ob) (\<lambda>m.
     let ml = e_malloc ev in
     if cMsg_GetContentLength m = 0 then
       bindE (test_buffer (mcp_empty_status nt m)) (\<lambda>s.
       bindE (cBuffer_ReplaceWith ml (Some (cstr s)) (-1) (oh_response (ob_h ob))) (\<lambda>(_, b).
       let ob = ob_set_response b ob in
       bindE (if length (cMsg_GetTo m) > 0
              then bindE (response_text ml ''To: '' ob) (\<lambda>ob. bindE (response_text ml (cMsg_GetTo m) ob) (response_text ml eol))
              else Inr ob) (\<lambda>ob.
       bindE (test_buffer (''From: '' @ cMsg_GetFrom m @ eol)) (\<lambda>s.
       bindE (response_text ml s ob) (\<lambda>ob.
       bindE (if length (cMsg_GetCommand m) > 0
              then bindE (test_buffer (''Command: '' @ cMsg_GetCommand m @ eol)) (\<lambda>s.
                   bindE (response_text ml s ob) (response_text ml eol))
              else Inr ob) (\<lambda>ob.
       response_text ml eol ob))))))
     else bindE (response_sprintf ml (mcp_reply_header m) ob) (append_payload ml m)))"

text \<open>
  Both formats of an HTTP-tunnelled reply take their arguments in the wrong order: the response
  code, an integer, stands where \<open>%s\<close> reads a pointer.
\<close>

definition reply_http_mcp :: "env \<Rightarrow> net \<Rightarrow> msg_addr \<Rightarrow> outbound \<Rightarrow> outbound res" where
  "reply_http_mcp ev nt a ob = bindE (note_time ev nt a ob) (\<lambda>ob. Inl MemFault)"

definition request_mcp :: "env \<Rightarrow> net \<Rightarrow> msg_addr \<Rightarrow> outbound \<Rightarrow> outbound res" where
  "request_mcp ev nt a ob =
     bindE (note_time ev nt a ob) (\<lambda>ob.
     bindE (ob_msg a ob) (\<lambda>m.
     if cMsg_GetContentLength m > 0
     then bindE (response_sprintf (e_malloc ev) (request_header m) ob) (append_payload (e_malloc ev) m)
     else response_sprintf (e_malloc ev) (request_empty m) ob))"

text \<open>The address and port between \<open>@\<close> and \<open>:\<close> and behind the colon of the \<open>To\<close> field.\<close>

definition server_address :: "malloc \<Rightarrow> cMsg \<Rightarrow> outbound \<Rightarrow> outbound res" where
  "server_address ml m ob =
     (if length (cMsg_GetTo m) > 0 then
        bindE (cBuffer_ReplaceWith ml (Some (cstr (cMsg_GetTo m))) (-1) (oh_temp (ob_h ob))) (\<lambda>(_, t).
        bindE (cBuffer_FindChar (CHR ''@'') 0 t) (\<lambda>iPos1.
        bindE (cBuffer_FindChar (CHR '':'') 0 t) (\<lambda>iPos2.
        bindE (cBuffer_cstr t) (\<lambda>(p, t).
        bindE (cBuffer_ReplaceWith ml (Some (drop (nat (iPos1 + 1)) (deref p))) (iPos2 - iPos1 - 1) (oh_ServerAddr (ob_h ob))) (\<lambda>(_, b).
        bindE (cstr_at (deref p) (iPos2 + 1)) (\<lambda>s.
        Inr (ob\<lparr>ob_h := (ob_h ob)\<lparr>oh_temp := t, oh_ServerAddr := b, oh_ServerPort := atoi s\<rparr>\<rparr>)))))))
      else Inr ob)"

section \<open>Transmitting\<close>

definition mark_sent :: "bool \<Rightarrow> msg_addr \<Rightarrow> outbound \<Rightarrow> (int \<times> outbound) res" where
  "mark_sent bRet a ob =
     (if bRet
      then bindE (ob_set_msg a (cMsg_SetMsgState MSG_STATE_DELIVERED) ob) (\<lambda>ob.
           bindE (ob_metrics cSysMetrics_IncMsgDelivered ob) (\<lambda>ob. Inr (HRC_COMMAND_HANDLER_OK, ob)))
      else bindE (ob_set_msg a (cMsg_SetMsgState MSG_STATE_UNDELIVERED) ob) (\<lambda>ob.
           bindE (ob_metrics cSysMetrics_IncMsgUndelivered ob) (\<lambda>ob. Inr (HRC_COMMAND_HANDLER_UNABLE_TO_SEND_MESSAGE, ob))))"

definition send_response :: "env \<Rightarrow> socket option \<Rightarrow> msg_addr \<Rightarrow> outbound \<Rightarrow> (bool \<times> outbound) res" where
  "send_response ev rec a ob =
     bindE (ob_msg a ob) (\<lambda>m.
     let b = oh_response (ob_h ob) in
     cConnectionHandlerOutbound_TCPSend ev rec a (cMsg_GetTCPSocketHandle m) (cBuffer_GetRawBuffer b) (cBuffer_GetBufferCount b) ob)"

definition transmit_http :: "env \<Rightarrow> net \<Rightarrow> socket option \<Rightarrow> msg_addr \<Rightarrow> outbound \<Rightarrow> (int \<times> outbound) res" where
  "transmit_http ev nt rec a ob =
     bindE (note_time ev nt a ob) (\<lambda>ob.
     bindE (ob_msg a ob) (\<lambda>m.
     case payload_block (heap (sv_queue (ob_sv ob))) (cMsg_GetContentPayload m) of
       None \<Rightarrow> mark_sent False a ob
     | Some blk \<Rightarrow>
         bindE (cstr_at blk 0) (\<lambda>p.
         bindE (if str_find p ''HTTP/1.'' = None
                then bindE (response_sprintf (e_malloc ev) (http_header (e_name ev) m) ob) (\<lambda>ob.
                     bindE (send_response ev rec a ob) (\<lambda>(_, ob). Inr ob))
                else Inr ob) (\<lambda>ob.
         bindE (cConnectionHandlerOutbound_TCPSend ev rec a (cMsg_GetTCPSocketHandle m) (Some blk) (cMsg_GetContentLength m) ob) (\<lambda>(bRet, ob).
         mark_sent bRet a ob)))))"

text \<open>The socket of the message, or a new one. A descriptor 0 is used but not stored in the message.\<close>

definition send_tcp :: "env \<Rightarrow> net \<Rightarrow> socket option \<Rightarrow> msg_addr \<Rightarrow> outbound \<Rightarrow> (bool \<times> outbound) res" where
  "send_tcp ev nt rec a ob =
     bindE (ob_msg a ob) (\<lambda>m.
     bindE
       (if cMsg_GetTCPSocketHandle m = -1 then
          bindE (cBuffer_cstr (oh_ServerAddr (ob_h ob))) (\<lambda>(p, b).
          bindE (cstr_at (deref p) 0) (\<lambda>s.
          let ob = ob\<lparr>ob_h := (ob_h ob)\<lparr>oh_ServerAddr := b\<rparr>\<rparr>;
              (socketfd, ob) = cConnectionHandlerOutbound_OpenTCP nt s (oh_ServerPort (ob_h ob)) ob in
          if socketfd \<noteq> 0 then bindE (ob_set_msg a (cMsg_SetTCPSocketHandle socketfd) ob) (\<lambda>ob. Inr (socketfd, ob))
          else Inr (socketfd, ob)))
        else Inr (cMsg_GetTCPSocketHandle m, ob)) (\<lambda>(socketfd, ob).
     if socketfd \<noteq> -1 then bindE (send_response ev rec a ob) (\<lambda>(_, ob). Inr (True, ob))
     else Inr (False, ob)))"

datatype transmitted = Returned int | Thrown

definition cConnectionHandlerOutbound_TransmitMsg ::
    "env \<Rightarrow> net \<Rightarrow> socket option \<Rightarrow> msg_addr \<Rightarrow> outbound \<Rightarrow> (transmitted \<times> outbound) res" where
  "cConnectionHandlerOutbound_TransmitMsg ev nt rec a ob =
     bindE (ob_msg a ob) (\<lambda>m.
     let pt = cMsg_GetProtocolType m in
     if pt = MSG_PROTOCOL_HTTP_GET \<or> pt = MSG_PROTOCOL_HTTP_POST
     then bindE (transmit_http ev nt rec a ob) (\<lambda>(rc, ob). Inr (Returned rc, ob))
     else
       bindE
         (if cMsg_GetFormat m = MSG_FORMAT_RES \<or> cMsg_GetFormat m = MSG_FORMAT_NOTIFY then
            (if pt = MSG_PROTOCOL_MCP then reply_mcp ev nt a ob
             else if pt = MSG_PROTOCOL_HTTP_MCP then reply_http_mcp ev nt a ob
             else Inr ob)
          else request_mcp ev nt a ob) (\<lambda>ob.
       bindE (server_address (e_malloc ev) m ob) (\<lambda>ob.
       if cMsg_GetConnectionType m \<noteq> MSG_CT_OB_UDP \<and> cMsg_GetConnectionType m \<noteq> MSG_CT_OB_TCP
       then Inr (Thrown, ob)
       else
         bindE (if cMsg_GetConnectionType m = MSG_CT_OB_UDP then cConnectionHandlerOutbound_UDPSend nt a ob
                else send_tcp ev nt rec a ob) (\<lambda>(bRet, ob).
         bindE (mark_sent bRet a ob) (\<lambda>(rc, ob). Inr (Returned rc, ob))))))"

text \<open>The return code of \<open>TransmitMsg\<close> is ignored; an exception of it leaves \<open>HandleConnection\<close>.\<close>

definition cConnectionHandlerOutbound_HandleConnection ::
    "env \<Rightarrow> net \<Rightarrow> socket option \<Rightarrow> msg_addr \<Rightarrow> outbound \<Rightarrow> (transmitted \<times> outbound) res" where
  "cConnectionHandlerOutbound_HandleConnection ev nt rec a ob =
     bindE (cConnectionHandlerOutbound_TransmitMsg ev nt rec a
              (ob\<lparr>ob_h := (ob_h ob)\<lparr>oh_bCloseConnection := False\<rparr>\<rparr>)) (\<lambda>(r, ob).
     if r = Thrown then Inr (Thrown, ob)
     else
       (case rec of
          None \<Rightarrow> Inr (Returned HRC_CONNECTION_HANDLER_OK, ob)
        | Some p \<Rightarrow> bindE (con_at p (ob_sv ob)) (\<lambda>c.
            Inr (Returned HRC_CONNECTION_HANDLER_OK, ob\<lparr>ob_sv := put_con p (c\<lparr>cr_pendingwrite := False\<rparr>) (ob_sv ob)\<rparr>))))"

section \<open>The queue of outbound messages\<close>

definition out_queue :: "outbound \<Rightarrow> msg_addr list" where
  "out_queue ob = m_outbound_priority_queue (m_pConnectionQueue (sv_queue (ob_sv ob)))"

definition set_con_queue :: "(cConnectionQueue \<Rightarrow> cConnectionQueue) \<Rightarrow> outbound \<Rightarrow> outbound" where
  "set_con_queue f ob =
     (let sv = ob_sv ob; q = sv_queue sv in
      ob\<lparr>ob_sv := sv\<lparr>sv_queue := q\<lparr>m_pConnectionQueue := f (m_pConnectionQueue q)\<rparr>\<rparr>\<rparr>)"

definition set_cache :: "cConnectionCache \<Rightarrow> outbound \<Rightarrow> outbound" where
  "set_cache c = set_con_queue (\<lambda>q. q\<lparr>m_ConnectionCache := c\<rparr>)"

definition ob_cache :: "outbound \<Rightarrow> cConnectionCache" where
  "ob_cache ob = m_ConnectionCache (m_pConnectionQueue (sv_queue (ob_sv ob)))"

text \<open>One turn of the loop for the message \<open>a\<close> at position \<open>i\<close> of the queue: \<open>False\<close> when it threw.\<close>

definition out_turn :: "env \<Rightarrow> net \<Rightarrow> nat \<Rightarrow> outbound \<Rightarrow> (bool \<times> outbound) res" where
  "out_turn ev nt i ob =
     (let a = out_queue ob ! i in
      bindE (ob_msg a ob) (\<lambda>m.
      bindE (if cMsg_GetConnectionType m = MSG_CT_OB_TCP
             then bindE (cConnectionCache_GetConnectionRecord (cMsg_GetTCPSocketHandle m) (ob_cache ob)) (\<lambda>(rec, c).
                  Inr (rec, set_cache c ob))
             else Inr (None, ob)) (\<lambda>(rec, ob).
      bindE (cConnectionHandlerOutbound_HandleConnection ev nt rec a ob) (\<lambda>(r, ob).
      if r = Thrown then Inr (False, ob)
      else
        bindE (ob_msg a ob) (\<lambda>m.
        bindE (if cMsg_GetConnectionType m = MSG_CT_OB_TCP \<and> cConnectionHandlerOutbound_DoCloseConnection (ob_h ob)
               then bindE (cConnectionCache_FreeConnection (cMsg_GetTCPSocketHandle m) (ob_cache ob)) (\<lambda>c. Inr (set_cache c ob))
               else Inr ob) (\<lambda>ob.
        Inr (True, set_con_queue (\<lambda>q. q\<lparr>m_outbound_priority_queue := pq_remove i (m_outbound_priority_queue q)\<rparr>) ob)))))))"

text \<open>
  The loop: \<open>ps\<close> are the positions of the tops, one for each turn, and the result counts the turns
  that did not throw. A message that throws stays in the queue and ends the loop.
\<close>

fun out_loop :: "env \<Rightarrow> net \<Rightarrow> nat list \<Rightarrow> int \<Rightarrow> outbound \<Rightarrow> (int \<times> outbound) res" where
  "out_loop ev nt [] cnt ob = Inr (cnt, ob)"
| "out_loop ev nt (i # ps) cnt ob =
     (if out_queue ob = [] then Inr (cnt, ob)
      else bindE (out_turn ev nt i ob) (\<lambda>(ok, ob).
           if ok then out_loop ev nt ps (cnt + 1) ob else Inr (cnt, ob)))"

text \<open>There is a position for every message that is in the queue at the start.\<close>

definition cConnectionQueue_ProcessOutboundTasks ::
    "env \<Rightarrow> net \<Rightarrow> nat list \<Rightarrow> outbound \<Rightarrow> (int \<times> outbound) res" where
  "cConnectionQueue_ProcessOutboundTasks ev nt ps ob = out_loop ev nt (take (length (out_queue ob)) ps) 0 ob"

end
