(* ===== verification/OutboundSend.thy ===== *)
theory OutboundSend
  imports Outbound InboundFlow Presence
begin

text \<open>
  What the peer of an outbound message gets: for every way in which \<open>send\<close> may cut the text of an MCP
  reply, the bytes on the socket are the header and the payload, in order. When \<open>send\<close> fails for
  good, the peer gets a proper prefix, but the message is marked as delivered all the same.
\<close>

section \<open>The send loop\<close>

definition sent_count :: "send_result \<Rightarrow> nat" where
  "sent_count r = (case r of Sent n \<Rightarrow> n | SendFailed _ \<Rightarrow> 0)"

lemma sent_count_simps [simp]: "sent_count (Sent n) = n" "sent_count (SendFailed b) = 0"
  by (simp_all add: sent_count_def)

definition no_failure :: "send_result list \<Rightarrow> bool" where
  "no_failure rs \<longleftrightarrow> SendFailed False \<notin> set rs"

lemma mem_get_rest: "t \<le> sz \<Longrightarrow> sz \<le> length blk \<Longrightarrow> mem_get blk (int t) (int sz - int t) = Inr (take (sz - t) (drop t blk))"
  by (cases "t = sz") (simp_all add: mem_get_def nat_diff_distrib)

lemma take_split: "n \<le> k \<Longrightarrow> take n (take k xs) @ take (k - n) (drop n xs) = take k xs"
  by (metis drop_take le_add_diff_inverse take_add take_take min_def)

lemma send_loop_all:
  assumes "no_failure rs" "t < sz" "sz \<le> length blk" "sz \<le> t + sum_list (map sent_count rs)"
  shows "\<exists>rs'. send_loop rs blk (int t) (int sz) = Inr (True, take (sz - t) (drop t blk), rs')"
  using assms
proof (induction rs arbitrary: t)
  case (Cons r rs)
  note get = mem_get_rest[of t sz blk]
  show ?case
  proof (cases r)
    case (Sent n)
    show ?thesis
    proof (cases "t + n < sz")
      case True
      then have "\<exists>rs'. send_loop rs blk (int (t + n)) (int sz) = Inr (True, take (sz - (t + n)) (drop (t + n) blk), rs')"
        using Cons.prems Sent by (intro Cons.IH) (auto simp: no_failure_def)
      moreover have "take n (take (sz - t) (drop t blk)) @ take (sz - (t + n)) (drop (t + n) blk) = take (sz - t) (drop t blk)"
        using take_split[of n "sz - t" "drop t blk"] True by (simp add: add.commute)
      ultimately show ?thesis using Sent True get Cons.prems(2,3) by (auto simp: Let_def)
    next
      case False
      then show ?thesis using Sent get Cons.prems(2,3) by (auto simp: Let_def)
    qed
  next
    case (SendFailed again)
    then have "again" using Cons.prems(1) by (cases again) (auto simp: no_failure_def)
    moreover have "\<exists>rs'. send_loop rs blk (int t) (int sz) = Inr (True, take (sz - t) (drop t blk), rs')"
      using Cons.prems SendFailed by (intro Cons.IH) (auto simp: no_failure_def)
    ultimately show ?thesis using SendFailed get Cons.prems(2,3) by auto
  qed
qed (simp add: no_failure_def)

lemma send_loop_fails:
  assumes "no_failure rs" "sz \<le> length blk" "t + sum_list (map sent_count rs) < sz"
  shows "send_loop (rs @ SendFailed False # rest) blk (int t) (int sz) =
    Inr (False, take (sum_list (map sent_count rs)) (drop t blk), rest)"
  using assms
proof (induction rs arbitrary: t)
  case Nil
  then show ?case using mem_get_rest[of t sz blk] by simp
next
  case (Cons r rs)
  note get = mem_get_rest[of t sz blk]
  show ?case
  proof (cases r)
    case (Sent n)
    have "send_loop (rs @ SendFailed False # rest) blk (int (t + n)) (int sz) =
        Inr (False, take (sum_list (map sent_count rs)) (drop (t + n) blk), rest)"
      using Cons.prems Sent by (intro Cons.IH) (auto simp: no_failure_def)
    moreover have "take n (take (sz - t) (drop t blk)) @ take k (drop (t + n) blk) = take (n + k) (drop t blk)"
      if "t + n < sz" for k
      using that take_add[of n k "drop t blk"] by (simp add: min_def add.commute[of n t])
    ultimately show ?thesis using Sent get Cons.prems by (simp add: Let_def)
  next
    case (SendFailed again)
    then have "again" using Cons.prems(1) by (cases again) (auto simp: no_failure_def)
    moreover have "send_loop (rs @ SendFailed False # rest) blk (int t) (int sz) =
        Inr (False, take (sum_list (map sent_count rs)) (drop t blk), rest)"
      using Cons.prems SendFailed by (intro Cons.IH) (auto simp: no_failure_def)
    ultimately show ?thesis using SendFailed get Cons.prems by simp
  qed
qed

section \<open>Building the text\<close>

lemma Sprintf_ok:
  assumes "malloc_total ml" "buf_inv b" "NUL \<notin> set s" "length s < n"
  shows "\<exists>rc b'. cBuffer_Sprintf ml (int n) s b = Inr (rc, b') \<and> buf_inv b' \<and> buf_contents b' = s \<and> m_pBuffer b' \<noteq> None"
proof -
  obtain b1 where b1: "cBuffer_SetBufferSize ml (int n) b = Inr b1" "buf_inv b1" "m_pBuffer b1 \<noteq> None" "int n < m_iBufferSize b1"
    using safe_res_total[OF SetBufferSize_safe[OF malloc_total_spec[OF assms(1)] assms(2), of "int n"] assms(1)] by auto
  from MakeString_ok[OF b1(2)] obtain b2 where b2: "cBuffer_MakeString b1 = Inr b2" "buf_inv b2"
    "m_iBufferSize b2 = m_iBufferSize b1" "m_pBuffer b2 \<noteq> None" using b1(3) by auto
  then obtain blk where blk: "m_pBuffer b2 = Some blk" by auto
  have c: "cBuffer_cstr b1 = Inr (Some blk, b2)"
    using b1(3) b2(1) blk by (auto simp: cBuffer_cstr_def cBuffer_MakeString_def bindE_eq_Inr)
  have len: "n < length blk" using buf_inv_SomeD[OF b2(2) blk] b2(3) b1(4) by linarith
  let ?blk = "cstr s @ drop (Suc (length s)) blk"
  let ?b = "b2\<lparr>m_pBuffer := Some ?blk, m_iTail := int (length s)\<rparr>"
  have put: "mem_put blk 0 (cstr s) = Inr ?blk" using mem_put_0[of "cstr s" blk] len assms(4) by (simp add: cstr_def)
  have rel: "cBuffer_ReleaseBuffer (set_block ?blk b2) = Inr ?b"
    using blk assms(3) by (simp add: cBuffer_ReleaseBuffer_def set_block_def cstr_at_def cstr_def c_prefix_append)
  have inv: "buf_inv ?b" using buf_inv_SomeD[OF b2(2) blk] b2(3) b1(4) len assms(4) by (simp add: buf_inv_def cstr_def)
  have "buf_contents ?b = s" by (simp add: buf_contents_def cstr_def)
  with MakeString_ok[OF inv] obtain b3 where "cBuffer_MakeString ?b = Inr b3" "buf_inv b3" "buf_contents b3 = s"
    "m_pBuffer b3 \<noteq> None" by auto
  then show ?thesis using b1(1) c put rel by (simp add: cBuffer_Sprintf_def)
qed

text \<open>What a change of the message's profiler leaves alone.\<close>

lemma payload_block_profiler [simp]:
  "h a = Some m \<Longrightarrow> payload_block (h(a \<mapsto> m\<lparr>MsgProfiler := x\<rparr>)) pl = payload_block h pl"
  by (cases pl) (auto simp: payload_block_def)

lemma getters_profiler [simp]:
  "cMsg_GetResponseCode (m\<lparr>MsgProfiler := x\<rparr>) = cMsg_GetResponseCode m"
  "cMsg_GetFormat (m\<lparr>MsgProfiler := x\<rparr>) = cMsg_GetFormat m"
  "cMsg_GetMsgID (m\<lparr>MsgProfiler := x\<rparr>) = cMsg_GetMsgID m"
  "cMsg_GetTo (m\<lparr>MsgProfiler := x\<rparr>) = cMsg_GetTo m"
  "cMsg_GetFrom (m\<lparr>MsgProfiler := x\<rparr>) = cMsg_GetFrom m"
  "cMsg_GetContentType (m\<lparr>MsgProfiler := x\<rparr>) = cMsg_GetContentType m"
  "cMsg_GetContentLength (m\<lparr>MsgProfiler := x\<rparr>) = cMsg_GetContentLength m"
  "cMsg_GetContentPayload (m\<lparr>MsgProfiler := x\<rparr>) = cMsg_GetContentPayload m"
  "cMsg_GetTCPSocketHandle (m\<lparr>MsgProfiler := x\<rparr>) = cMsg_GetTCPSocketHandle m"
  "cMsg_IsKeepAlive (m\<lparr>MsgProfiler := x\<rparr>) = cMsg_IsKeepAlive m"
  by (simp_all add: cMsg_GetResponseCode_def cMsg_GetFormat_def cMsg_GetMsgID_def cMsg_GetTo_def cMsg_GetFrom_def
      cMsg_GetContentType_def cMsg_GetContentLength_def cMsg_GetContentPayload_def cMsg_GetTCPSocketHandle_def
      cMsg_IsKeepAlive_def)

lemma header_profiler [simp]: "mcp_reply_header (m\<lparr>MsgProfiler := x\<rparr>) = mcp_reply_header m"
  by (simp add: mcp_reply_header_def message_type_def keep_alive_text_def)

lemma NUL_show_nat [simp]: "NUL \<notin> set (show_nat n)"
  using show_nat_digits[of NUL n] by (auto simp: is_digit_def)

lemma NUL_c_prefix [simp]: "NUL \<notin> set (c_prefix s)"
  by (auto simp: c_prefix_def dest: set_takeWhileD)

lemma NUL_reply_header: "NUL \<notin> set (mcp_reply_header m)"
  by (auto simp: mcp_reply_header_def message_type_def keep_alive_text_def print3d_def show_int_def eol_def Let_def
      cMsg_GetMsgID_def cMsg_GetTo_def cMsg_GetFrom_def cMsg_GetContentType_def)

text \<open>A handler and a server that are ready to send the message \<open>m\<close> at \<open>a\<close>.\<close>

definition ob_ready :: "msg_addr \<Rightarrow> cMsg \<Rightarrow> outbound \<Rightarrow> bool" where
  "ob_ready a m ob \<longleftrightarrow> heap (sv_queue (ob_sv ob)) a = Some m \<and>
     buf_inv (oh_response (ob_h ob)) \<and> buf_inv (oh_ServerAddr (ob_h ob)) \<and> buf_inv (oh_temp (ob_h ob)) \<and>
     (\<exists>x. m_pSysMetrics (sv_queue (ob_sv ob)) = Some x \<and> metrics_inv x \<and> counters_ok x)"

lemma UpdateMsgResponseTime_inv:
  "metrics_inv x \<Longrightarrow> metrics_inv (cSysMetrics_UpdateMsgResponseTime f e x)"
  "counters_ok x \<Longrightarrow> counters_ok (cSysMetrics_UpdateMsgResponseTime f e x)"
  by (simp_all add: metrics_inv_def counters_ok_def counters_def cSysMetrics_UpdateMsgResponseTime_def)

definition with_queue :: "(cMsgQueue \<Rightarrow> cMsgQueue) \<Rightarrow> outbound \<Rightarrow> outbound" where
  "with_queue f ob = ob\<lparr>ob_sv := (ob_sv ob)\<lparr>sv_queue := f (sv_queue (ob_sv ob))\<rparr>\<rparr>"

lemma with_queue_simps [simp]:
  "sv_queue (ob_sv (with_queue f ob)) = f (sv_queue (ob_sv ob))" "ob_h (with_queue f ob) = ob_h ob"
  "ob_sends (with_queue f ob) = ob_sends ob" "ob_wire (with_queue f ob) = ob_wire ob"
  by (simp_all add: with_queue_def)

lemma ob_set_msg_ok:
  "heap (sv_queue (ob_sv ob)) a = Some m \<Longrightarrow>
     ob_set_msg a f ob = Inr (with_queue (\<lambda>q. q\<lparr>heap := (heap q)(a \<mapsto> f m)\<rparr>) ob)"
  by (simp add: ob_set_msg_def upd_msg_def with_queue_def)

lemma ob_msg_ok: "heap (sv_queue (ob_sv ob)) a = Some m \<Longrightarrow> ob_msg a ob = Inr m"
  by (simp add: ob_msg_def get_msg_def)

lemma note_time_ok:
  assumes "ob_ready a m ob"
  shows "\<exists>f pr. note_time ev nt a ob = Inr (with_queue f ob) \<and> ob_ready a (m\<lparr>MsgProfiler := pr\<rparr>) (with_queue f ob) \<and>
    (\<forall>pl. payload_block (heap (f (sv_queue (ob_sv ob)))) pl = payload_block (heap (sv_queue (ob_sv ob))) pl) \<and>
    con_map (ob_sv (with_queue f ob)) = con_map (ob_sv ob)"
proof -
  from assms obtain x where x: "m_pSysMetrics (sv_queue (ob_sv ob)) = Some x" "metrics_inv x" "counters_ok x"
    and h: "heap (sv_queue (ob_sv ob)) a = Some m" by (auto simp: ob_ready_def)
  let ?pr = "cBench_Stop (e_tv1 ev) (MsgProfiler m)"
  let ?x = "cSysMetrics_UpdateMsgResponseTime (n_fadd nt) (n_elapsed nt (cMsg_GetBench (m\<lparr>MsgProfiler := ?pr\<rparr>))) x"
  let ?f = "\<lambda>q. q\<lparr>heap := (heap q)(a \<mapsto> m\<lparr>MsgProfiler := ?pr\<rparr>), m_pSysMetrics := Some ?x\<rparr>"
  have "note_time ev nt a ob = Inr (with_queue ?f ob)"
    using x(1) by (simp add: note_time_def ob_set_msg_ok[OF h] ob_msg_def get_msg_def ob_metrics_def Let_def)
      (simp add: with_queue_def)
  moreover have "ob_ready a (m\<lparr>MsgProfiler := ?pr\<rparr>) (with_queue ?f ob)"
    using assms UpdateMsgResponseTime_inv(1)[OF x(2)] UpdateMsgResponseTime_inv(2)[OF x(3)] by (simp add: ob_ready_def)
  ultimately show ?thesis using h by (intro exI[of _ ?f] exI[of _ ?pr]) (simp add: con_map_def with_queue_def)
qed

lemma reply_mcp_ok:
  assumes "malloc_total (e_malloc ev)" "ob_ready a m ob" "cMsg_GetContentLength m = int n" "0 < n"
    "length (mcp_reply_header m) < 5000" "n \<le> length blk"
    "payload_block (heap (sv_queue (ob_sv ob))) (cMsg_GetContentPayload m) = Some blk"
  shows "\<exists>f b pr. reply_mcp ev nt a ob = Inr (ob_set_response b (with_queue f ob)) \<and>
    ob_ready a (m\<lparr>MsgProfiler := pr\<rparr>) (ob_set_response b (with_queue f ob)) \<and>
    buf_contents b = mcp_reply_header m @ take n blk \<and> con_map (ob_sv (with_queue f ob)) = con_map (ob_sv ob)"
proof -
  from note_time_ok[OF assms(2), of ev nt] obtain f pr where f: "note_time ev nt a ob = Inr (with_queue f ob)"
    "ob_ready a (m\<lparr>MsgProfiler := pr\<rparr>) (with_queue f ob)"
    "\<forall>pl. payload_block (heap (f (sv_queue (ob_sv ob)))) pl = payload_block (heap (sv_queue (ob_sv ob))) pl"
    "con_map (ob_sv (with_queue f ob)) = con_map (ob_sv ob)" by blast
  have b: "buf_inv (oh_response (ob_h ob))" using assms(2) by (simp add: ob_ready_def)
  obtain rc b1 where b1: "cBuffer_Sprintf (e_malloc ev) (int 5000) (mcp_reply_header m) (oh_response (ob_h ob)) = Inr (rc, b1)"
    "buf_inv b1" "buf_contents b1 = mcp_reply_header m"
    using Sprintf_ok[OF assms(1) b NUL_reply_header assms(5)] by blast
  obtain b2 where b2: "cBuffer_Append (e_malloc ev) (Some blk) (int n) b1 = Inr (BUFFER_NO_ERROR, b2)" "buf_inv b2"
    "buf_contents b2 = mcp_reply_header m @ take n blk"
    using safe_res_total[OF Append_safe[OF malloc_total_spec[OF assms(1)] b1(2) assms(6)] assms(1)] b1(3) by auto
  have m: "ob_msg a (with_queue f ob) = Inr (m\<lparr>MsgProfiler := pr\<rparr>)"
    using f(2) by (intro ob_msg_ok) (simp add: ob_ready_def)
  have "reply_mcp ev nt a ob = Inr (ob_set_response b2 (with_queue f ob))"
    using assms(3,4,7) f(3) b1(1) b2(1)
    by (simp add: reply_mcp_def f(1) m response_sprintf_def append_payload_def response_append_def ob_set_response_def Let_def)
  moreover have "ob_ready a (m\<lparr>MsgProfiler := pr\<rparr>) (ob_set_response b2 (with_queue f ob))"
    using f(2) b2(2) by (simp add: ob_ready_def ob_set_response_def)
  ultimately show ?thesis using b2(3) f(4) by blast
qed

text \<open>A \<open>To\<close> field that is empty or has a colon behind the first \<open>@\<close>.\<close>

definition address_ok :: "string \<Rightarrow> bool" where
  "address_ok s \<longleftrightarrow> s = [] \<or>
     (\<exists>i j. char_find s (CHR ''@'') = Some i \<and> char_find s (CHR '':'') = Some j \<and> i < j)"

lemma server_address_ok:
  assumes "malloc_total ml" "ob_ready a m' ob" "address_ok (cMsg_GetTo m)"
  shows "\<exists>h. server_address ml m ob = Inr (ob\<lparr>ob_h := h\<rparr>) \<and> ob_ready a m' (ob\<lparr>ob_h := h\<rparr>) \<and>
    oh_response h = oh_response (ob_h ob) \<and> oh_bSocketCreated h = oh_bSocketCreated (ob_h ob) \<and>
    oh_bCloseConnection h = oh_bCloseConnection (ob_h ob)"
proof (cases "cMsg_GetTo m = []")
  case True
  then show ?thesis using assms(2) by (intro exI[of _ "ob_h ob"]) (simp add: server_address_def)
next
  case False
  let ?s = "cMsg_GetTo m"
  note spec = malloc_total_spec[OF assms(1)]
  have nz: "NUL \<notin> set ?s" by (simp add: cMsg_GetTo_def)
  from False assms(3) obtain i j where ij: "char_find ?s (CHR ''@'') = Some i" "char_find ?s (CHR '':'') = Some j" "i < j"
    by (auto simp: address_ok_def)
  have inv: "buf_inv (oh_temp (ob_h ob))" "buf_inv (oh_ServerAddr (ob_h ob))" using assms(2) by (auto simp: ob_ready_def)
  obtain t where t: "cBuffer_ReplaceWith ml (Some (cstr ?s)) (-1) (oh_temp (ob_h ob)) = Inr (BUFFER_NO_ERROR, t)"
    "buf_inv t" "buf_contents t = ?s"
    using safe_res_total[OF ReplaceWith_cstr_safe[OF spec inv(1) nz] assms(1)] by auto
  have fc: "cBuffer_FindChar (CHR ''@'') 0 t = Inr (int i)" "cBuffer_FindChar (CHR '':'') 0 t = Inr (int j)"
    using FindChar_ok[OF t(2), of 0] t(3) ij by simp_all
  have "m_pBuffer t \<noteq> None" using buf_contents_block[of t] t(3) False by simp
  with MakeString_ok[OF t(2)] obtain t' where t': "cBuffer_MakeString t = Inr t'" "buf_inv t'" "buf_contents t' = ?s"
    "buf_terminated t'" "m_pBuffer t' \<noteq> None" using t(3) by auto
  then obtain blk where blk: "m_pBuffer t' = Some blk" by auto
  have c: "cBuffer_cstr t = Inr (Some blk, t')"
    using \<open>m_pBuffer t \<noteq> None\<close> t'(1) blk by (auto simp: cBuffer_cstr_def cBuffer_MakeString_def bindE_eq_Inr)
  have jl: "j < length ?s" using char_find_Some[OF ij(2)] by simp
  have len: "length ?s < length blk" using buf_inv_SomeD[OF t'(2) blk] length_buf_contents[OF t'(2)] unfolding t'(3) by linarith
  define k where "k = j - i - 1"
  define src where "src = drop (nat (int i + 1)) blk"
  have le: "k \<le> length src" using jl len ij(3) by (simp add: k_def src_def)
  obtain b where b: "cBuffer_ReplaceWith ml (Some src) (int k) (oh_ServerAddr (ob_h ob)) = Inr (BUFFER_NO_ERROR, b)" "buf_inv b"
    using safe_res_total[OF ReplaceWith_safe[OF spec inv(2) le] assms(1)] by auto
  have n: "int j - int i - 1 = int k" using ij(3) by (simp add: k_def)
  have "cstr_at blk (int j + 1) = Inr (c_prefix (drop (j + 1) ?s))"
    using cstr_at_prefix[OF t'(2,4,5), of "j + 1"] jl t'(3) blk by (simp add: add.commute)
  then show ?thesis using False fc b(2) assms(2) t'(2)
    by (intro exI[of _ "(ob_h ob)\<lparr>oh_temp := t', oh_ServerAddr := b, oh_ServerPort := atoi (c_prefix (drop (j + 1) ?s))\<rparr>"])
      (simp add: server_address_def t(1) c n b(1) ob_ready_def src_def[symmetric])
qed

section \<open>The send\<close>

lemma put_con_ready:
  "ob_ready a m ob \<Longrightarrow> ob_ready a m (ob\<lparr>ob_sv := put_con p r (ob_sv ob)\<rparr>)"
  by (simp add: ob_ready_def) (simp add: put_con_def Let_def)

lemma TCPSend_ok:
  assumes "ob_ready a m ob" "send_loop (ob_sends ob) (deref blk) 0 sz = Inr (bRet, s, rs)"
    "\<forall>p. rec = Some p \<longrightarrow> con_map (ob_sv ob) p \<noteq> None"
  shows "\<exists>ob'. cConnectionHandlerOutbound_TCPSend ev rec a fd blk sz ob = Inr (bRet, ob') \<and> ob_ready a m ob' \<and>
    ob_wire ob' = ob_wire ob @ [(fd, s)] \<and>
    (\<forall>p. rec = Some p \<longrightarrow> con_map (ob_sv ob') p \<noteq> None) \<and>
    (oh_bCloseConnection (ob_h ob') \<longleftrightarrow>
       oh_bCloseConnection (ob_h ob) \<or> \<not> cMsg_IsKeepAlive m \<or> (\<not> bRet \<and> \<not> oh_bSocketCreated (ob_h ob)))"
proof -
  let ?ob = "ob\<lparr>ob_sends := rs, ob_wire := ob_wire ob @ [(fd, s)]\<rparr>"
  define mid where "mid = (if bRet = False then
        Inr (if oh_bSocketCreated (ob_h ?ob) then ?ob\<lparr>ob_closed := fd # ob_closed ?ob\<rparr> else ob_close ?ob)
      else (case rec of None \<Rightarrow> Inr ?ob
        | Some p \<Rightarrow> bindE (con_at p (ob_sv ?ob)) (\<lambda>r. Inr (?ob\<lparr>ob_sv := put_con p (r\<lparr>cr_timestamp := e_now ev\<rparr>) (ob_sv ?ob)\<rparr>))))"
  have r: "ob_ready a m ?ob" using assms(1) by (simp add: ob_ready_def)
  have "\<exists>ob1. mid = Inr ob1 \<and> ob_ready a m ob1 \<and> ob_wire ob1 = ob_wire ob @ [(fd, s)] \<and>
      (\<forall>p. rec = Some p \<longrightarrow> con_map (ob_sv ob1) p \<noteq> None) \<and>
      (oh_bCloseConnection (ob_h ob1) \<longleftrightarrow> oh_bCloseConnection (ob_h ob) \<or> (\<not> bRet \<and> \<not> oh_bSocketCreated (ob_h ob)))"
  proof (cases "bRet \<and> rec \<noteq> None")
    case True
    then obtain p c where "rec = Some p" "con_map (ob_sv ob) p = Some c" using assms(3) by auto
    then show ?thesis using True put_con_ready[OF r, of p "c\<lparr>cr_timestamp := e_now ev\<rparr>"] by (simp add: mid_def con_at_def)
  next
    case False
    then show ?thesis using r assms(3) by (auto simp: mid_def ob_close_def ob_ready_def)
  qed
  then obtain ob1 where ob1: "mid = Inr ob1" "ob_ready a m ob1" "ob_wire ob1 = ob_wire ob @ [(fd, s)]"
    "\<forall>p. rec = Some p \<longrightarrow> con_map (ob_sv ob1) p \<noteq> None"
    "oh_bCloseConnection (ob_h ob1) \<longleftrightarrow> oh_bCloseConnection (ob_h ob) \<or> (\<not> bRet \<and> \<not> oh_bSocketCreated (ob_h ob))"
    by blast
  have msg: "ob_msg a ob1 = Inr m" using ob1(2) by (intro ob_msg_ok) (simp add: ob_ready_def)
  have "cConnectionHandlerOutbound_TCPSend ev rec a fd blk sz ob =
      Inr (bRet, if cMsg_IsKeepAlive m = False then ob_close ob1 else ob1)"
    using ob1(1) msg
    by (simp only: cConnectionHandlerOutbound_TCPSend_def assms(2) bindE.simps prod.case Let_def mid_def[symmetric])
  then show ?thesis using ob1(2-5) by (auto simp: ob_close_def ob_ready_def)
qed

lemma mark_sent_ok:
  assumes "ob_ready a m ob"
  shows "\<exists>f. mark_sent True a ob = Inr (HRC_COMMAND_HANDLER_OK, with_queue f ob) \<and>
    heap (f (sv_queue (ob_sv ob))) a = Some (cMsg_SetMsgState MSG_STATE_DELIVERED m) \<and>
    con_map (ob_sv (with_queue f ob)) = con_map (ob_sv ob)"
proof -
  from assms obtain x where x: "m_pSysMetrics (sv_queue (ob_sv ob)) = Some x" "metrics_inv x" "counters_ok x"
    and h: "heap (sv_queue (ob_sv ob)) a = Some m" by (auto simp: ob_ready_def)
  obtain x' where x': "cSysMetrics_IncMsgDelivered x = Inr x'"
    using metric_step_ok[OF _ x(2,3), of EvMsgDelivered] by auto
  let ?f = "\<lambda>q. q\<lparr>heap := (heap q)(a \<mapsto> cMsg_SetMsgState MSG_STATE_DELIVERED m), m_pSysMetrics := Some x'\<rparr>"
  have "mark_sent True a ob = Inr (HRC_COMMAND_HANDLER_OK, with_queue ?f ob)"
    using x(1) x' by (simp add: mark_sent_def ob_set_msg_ok[OF h] ob_metrics_def Let_def) (simp add: with_queue_def)
  then show ?thesis by (intro exI[of _ ?f]) (simp add: con_map_def with_queue_def)
qed

text \<open>An MCP reply with a socket of its own.\<close>

definition mcp_reply :: "cMsg \<Rightarrow> bool" where
  "mcp_reply m \<longleftrightarrow> cMsg_GetProtocolType m = MSG_PROTOCOL_MCP \<and> cMsg_GetFormat m = MSG_FORMAT_RES \<and>
     cMsg_GetConnectionType m = MSG_CT_OB_TCP \<and> cMsg_GetTCPSocketHandle m \<noteq> -1 \<and> address_ok (cMsg_GetTo m)"

text \<open>Whatever becomes of the sending, the message ends as delivered.\<close>

lemma reply_transmitted:
  assumes ml: "malloc_total (e_malloc ev)" and ready: "ob_ready a m ob" and reply: "mcp_reply m"
    and len: "cMsg_GetContentLength m = int n" "0 < n" "n \<le> length blk" "length (mcp_reply_header m) < 5000"
    and payload: "payload_block (heap (sv_queue (ob_sv ob))) (cMsg_GetContentPayload m) = Some blk"
    and rec: "\<forall>p. rec = Some p \<longrightarrow> con_map (ob_sv ob) p \<noteq> None"
    and out: "sz = length (mcp_reply_header m) + n"
    and send: "\<And>b. sz \<le> length b \<Longrightarrow> take sz b = mcp_reply_header m @ take n blk \<Longrightarrow>
      \<exists>rs. send_loop (ob_sends ob) b 0 (int sz) = Inr (bRet, s, rs)"
  shows "\<exists>ob' m'. cConnectionHandlerOutbound_HandleConnection ev nt rec a ob = Inr (Returned HRC_CONNECTION_HANDLER_OK, ob') \<and>
    ob_wire ob' = ob_wire ob @ [(cMsg_GetTCPSocketHandle m, s)] \<and>
    heap (sv_queue (ob_sv ob')) a = Some m' \<and> cMsg_GetMsgState m' = MSG_STATE_DELIVERED \<and>
    (cConnectionHandlerOutbound_DoCloseConnection (ob_h ob') \<longleftrightarrow>
       \<not> cMsg_IsKeepAlive m \<or> (\<not> bRet \<and> \<not> oh_bSocketCreated (ob_h ob)))"
proof -
  define ob0 where "ob0 = ob\<lparr>ob_h := (ob_h ob)\<lparr>oh_bCloseConnection := False\<rparr>\<rparr>"
  have r0: "ob_ready a m ob0" using ready by (simp add: ob_ready_def ob0_def)
  have p0: "payload_block (heap (sv_queue (ob_sv ob0))) (cMsg_GetContentPayload m) = Some blk" using payload by (simp add: ob0_def)
  obtain f b pr where f: "reply_mcp ev nt a ob0 = Inr (ob_set_response b (with_queue f ob0))"
    "ob_ready a (m\<lparr>MsgProfiler := pr\<rparr>) (ob_set_response b (with_queue f ob0))"
    "buf_contents b = mcp_reply_header m @ take n blk" "con_map (ob_sv (with_queue f ob0)) = con_map (ob_sv ob0)"
    using reply_mcp_ok[OF ml r0 len(1,2,4,3) p0] by blast
  define ob1 where "ob1 = ob_set_response b (with_queue f ob0)"
  let ?m = "m\<lparr>MsgProfiler := pr\<rparr>"
  from reply have adr: "address_ok (cMsg_GetTo m)" by (simp add: mcp_reply_def)
  obtain h where h: "server_address (e_malloc ev) m ob1 = Inr (ob1\<lparr>ob_h := h\<rparr>)" "ob_ready a ?m (ob1\<lparr>ob_h := h\<rparr>)"
    "oh_response h = oh_response (ob_h ob1)" "oh_bSocketCreated h = oh_bSocketCreated (ob_h ob1)"
    "oh_bCloseConnection h = oh_bCloseConnection (ob_h ob1)"
    using server_address_ok[OF ml _ adr, of a ?m ob1] f(2) by (auto simp: ob1_def)
  define ob2 where "ob2 = ob1\<lparr>ob_h := h\<rparr>"
  have b2: "oh_response (ob_h ob2) = b" "ob_sends ob2 = ob_sends ob" "ob_wire ob2 = ob_wire ob" "ob_sv ob2 = ob_sv ob1"
    "oh_bSocketCreated (ob_h ob2) = oh_bSocketCreated (ob_h ob)" "oh_bCloseConnection (ob_h ob2) = False"
    using h(3-5) by (simp_all add: ob2_def ob1_def ob_set_response_def ob0_def)
  have r2: "ob_ready a ?m ob2" using h(2) by (simp add: ob2_def)
  have rec2: "\<forall>p. rec = Some p \<longrightarrow> con_map (ob_sv ob2) p \<noteq> None"
    using rec f(4) by (simp add: b2(4)) (simp add: ob1_def ob_set_response_def ob0_def)
  have inv: "buf_inv b" using f(2) by (simp add: ob_ready_def ob_set_response_def)
  have tail: "m_iTail b = int sz" using length_buf_contents[OF inv] f(3) len(3) out by simp
  obtain cb where cb: "m_pBuffer b = Some cb" using buf_contents_block[of b] len(2,3) unfolding f(3) by (cases "m_pBuffer b"; cases blk) auto
  have "sz \<le> length cb" "take sz cb = mcp_reply_header m @ take n blk"
    using buf_inv_SomeD[OF inv cb] tail f(3) cb by (auto simp: buf_contents_def)
  then obtain rs where "send_loop (ob_sends ob2) (deref (m_pBuffer b)) 0 (int sz) = Inr (bRet, s, rs)"
    using send cb b2(2) by auto
  note * = TCPSend_ok[OF r2 this rec2, of ev "cMsg_GetTCPSocketHandle m"]
  then obtain ob3 where ob3: "cConnectionHandlerOutbound_TCPSend ev rec a (cMsg_GetTCPSocketHandle m) (m_pBuffer b) (int sz) ob2 = Inr (bRet, ob3)"
    "ob_ready a ?m ob3" "ob_wire ob3 = ob_wire ob @ [(cMsg_GetTCPSocketHandle m, s)]"
    "\<forall>p. rec = Some p \<longrightarrow> con_map (ob_sv ob3) p \<noteq> None"
    "oh_bCloseConnection (ob_h ob3) \<longleftrightarrow> \<not> cMsg_IsKeepAlive m \<or> (\<not> bRet \<and> \<not> oh_bSocketCreated (ob_h ob))"
    unfolding b2(3,5,6) getters_profiler by blast
  have msg0: "ob_msg a ob0 = Inr m" and msg2: "ob_msg a ob2 = Inr ?m"
    using r0 r2 by (simp_all add: ob_ready_def ob_msg_ok)
  have "send_response ev rec a ob2 = Inr (bRet, ob3)"
    using ob3(1) by (simp add: send_response_def msg2 b2(1) cBuffer_GetRawBuffer_def cBuffer_GetBufferCount_def tail)
  then have tcp: "send_tcp ev nt rec a ob2 = Inr (True, ob3)" using reply by (simp add: send_tcp_def msg2 mcp_reply_def)
  obtain g where g: "mark_sent True a ob3 = Inr (HRC_COMMAND_HANDLER_OK, with_queue g ob3)"
    "heap (g (sv_queue (ob_sv ob3))) a = Some (cMsg_SetMsgState MSG_STATE_DELIVERED ?m)"
    "con_map (ob_sv (with_queue g ob3)) = con_map (ob_sv ob3)" using mark_sent_ok[OF ob3(2)] by blast
  have "cConnectionHandlerOutbound_TransmitMsg ev nt rec a ob0 = Inr (Returned HRC_COMMAND_HANDLER_OK, with_queue g ob3)"
    using reply tcp g(1) h(1)
    by (simp add: cConnectionHandlerOutbound_TransmitMsg_def msg0 mcp_reply_def f(1) ob1_def[symmetric] ob2_def[symmetric])
  then show ?thesis using ob3(3,4,5) g(2,3)
    by (cases rec)
      (auto simp: cConnectionHandlerOutbound_HandleConnection_def ob0_def[symmetric] con_at_def
        cMsg_SetMsgState_def cMsg_GetMsgState_def cConnectionHandlerOutbound_DoCloseConnection_def)
qed

section \<open>Properties\<close>

text \<open>
  (C17) An MCP reply arrives whole and in order: however \<open>send\<close> cuts it into pieces, and however often
  it asks to try again, the bytes the socket takes are the header of the reply followed by its
  payload, and the message is marked as delivered.
\<close>

theorem reply_sent_in_order:
  assumes "malloc_total (e_malloc ev)" and "ob_ready a m ob" and "mcp_reply m"
    and "cMsg_GetContentLength m = int n" and "0 < n" and "n \<le> length blk" and "length (mcp_reply_header m) < 5000"
    and "payload_block (heap (sv_queue (ob_sv ob))) (cMsg_GetContentPayload m) = Some blk"
    and "\<forall>p. rec = Some p \<longrightarrow> con_map (ob_sv ob) p \<noteq> None"
    and "no_failure (ob_sends ob)"
    and "length (mcp_reply_header m) + n \<le> sum_list (map sent_count (ob_sends ob))"
  shows "\<exists>ob' m'. cConnectionHandlerOutbound_HandleConnection ev nt rec a ob = Inr (Returned HRC_CONNECTION_HANDLER_OK, ob') \<and>
    ob_wire ob' = ob_wire ob @ [(cMsg_GetTCPSocketHandle m, mcp_reply_header m @ take n blk)] \<and>
    heap (sv_queue (ob_sv ob')) a = Some m' \<and> cMsg_GetMsgState m' = MSG_STATE_DELIVERED \<and>
    (cConnectionHandlerOutbound_DoCloseConnection (ob_h ob') \<longleftrightarrow> \<not> cMsg_IsKeepAlive m)"
proof -
  let ?sz = "length (mcp_reply_header m) + n"
  have "\<exists>rs. send_loop (ob_sends ob) b 0 (int ?sz) = Inr (True, mcp_reply_header m @ take n blk, rs)"
    if "?sz \<le> length b" "take ?sz b = mcp_reply_header m @ take n blk" for b
    using send_loop_all[OF assms(10) _ that(1), of 0] assms(5,11) that(2) by simp
  from reply_transmitted[OF assms(1-9) refl this, of nt] show ?thesis by simp
qed

text \<open>A store with one reply, on the socket 5.\<close>

definition demo_reply :: cMsg where
  "demo_reply = cMsg_raw\<lparr>MsgProtocolType := MSG_PROTOCOL_MCP, MsgFormat := MSG_FORMAT_RES, MsgConnectionType := MSG_CT_OB_TCP,
     TCPSocketHandle := 5, MsgTo := ''bob@10.0.0.1:3400'', MsgContentLength := 2, m_pPayload := PExt ''hi''\<rparr>"

definition demo_outbound :: "send_result list \<Rightarrow> outbound" where
  "demo_outbound rs = \<lparr>ob_sv = (demo_server 5)\<lparr>sv_queue := (sv_queue (demo_server 5))\<lparr>heap := [7 \<mapsto> demo_reply],
       m_pSysMetrics := Some (metrics_start 0 0 0 (cSysMetrics_new 0))\<rparr>\<rparr>,
     ob_h = cConnectionHandlerOutbound_new, ob_sends = rs, ob_wire = [], ob_datagrams = [], ob_opened = [], ob_closed = []\<rparr>"

definition demo_net :: net where
  "demo_net = \<lparr>n_inet_addr = (\<lambda>_. 0xFFFFFFFF), n_inet_aton = Map.empty, n_gethostbyname = Map.empty, n_tcp_socket = -1,
     n_udp_socket = -1, n_connect = (\<lambda>_ _. -1), n_sendto = (\<lambda>_ _ _ _. -1), n_elapsed = (\<lambda>_. 0),
     n_fadd = (\<lambda>_ _. 0), n_print4f = (\<lambda>_. ''0.0000'')\<rparr>"

abbreviation "demo_reply_text \<equiv>
  ''MCP/1.0 000 Reply'' @ eol @ ''MsgID: '' @ eol @ ''To: bob@10.0.0.1:3400'' @ eol @ ''From: '' @ eol @ ''Content-Type: '' @ eol @
  ''Content-Length: 2'' @ eol @ ''Connection: close'' @ eol @ eol"

lemma demo_digits: "print3d 0 = ''000''" "show_int 2 = ''2''"
  by code_simp+

lemma demo_reply_ok:
  "mcp_reply demo_reply" "cMsg_GetContentLength demo_reply = int 2" "mcp_reply_header demo_reply = demo_reply_text"
  "cMsg_GetTCPSocketHandle demo_reply = 5" "\<not> cMsg_IsKeepAlive demo_reply"
  by (simp_all add: mcp_reply_def demo_reply_def cMsg_raw_def cMsg_GetProtocolType_def cMsg_GetFormat_def cMsg_GetConnectionType_def
      cMsg_GetTCPSocketHandle_def address_ok_def cMsg_GetTo_def c_prefix_def mcp_reply_header_def cMsg_GetContentLength_def
      cMsg_GetResponseCode_def message_type_def cMsg_GetMsgID_def cMsg_GetFrom_def cMsg_GetContentType_def
      demo_digits keep_alive_text_def cMsg_IsKeepAlive_def)

lemma demo_outbound_ok:
  "ob_ready 7 demo_reply (demo_outbound rs)"
  "payload_block (heap (sv_queue (ob_sv (demo_outbound rs)))) (cMsg_GetContentPayload demo_reply) = Some (cstr ''hi'')"
  "\<forall>p. Some 5 = Some p \<longrightarrow> con_map (ob_sv (demo_outbound rs)) p \<noteq> None"
  "ob_sends (demo_outbound rs) = rs" "ob_wire (demo_outbound rs) = []"
  "\<not> oh_bSocketCreated (ob_h (demo_outbound rs))"
  using metrics_start_inv[of 0 0] counters_ok_start[of 0 0 0 0]
  by (simp_all add: ob_ready_def demo_outbound_def cConnectionHandlerOutbound_new_def demo_reply_def cMsg_GetContentPayload_def
      payload_block_def)
    (simp add: con_map_def demo_server_def put_con_def Let_def)

lemma length_eol [simp]: "length eol = 2"
  by (simp add: eol_def)

lemma demo_reply_length: "length (mcp_reply_header demo_reply) = 115"
  by (simp add: demo_reply_ok(3))

theorem reply_sent_in_order_witness:
  "\<exists>ob'. cConnectionHandlerOutbound_HandleConnection demo_env demo_net (Some 5) 7
      (demo_outbound [Sent 100, SendFailed True, Sent 19]) = Inr (Returned HRC_CONNECTION_HANDLER_OK, ob') \<and>
    ob_wire ob' = [(5, demo_reply_text @ ''hi'')] \<and> cConnectionHandlerOutbound_DoCloseConnection (ob_h ob')"
proof -
  have "malloc_total (e_malloc demo_env)" using malloc_total_zero by (simp add: demo_env_def)
  from reply_sent_in_order[OF this demo_outbound_ok(1) demo_reply_ok(1,2) _ _ _ demo_outbound_ok(2,3),
      of "[Sent 100, SendFailed True, Sent 19]" demo_net]
  show ?thesis by (simp add: demo_outbound_ok(4,5) demo_reply_length no_failure_def demo_reply_ok cstr_def) blast
qed

text \<open>
  (C24) A reply that was not sent counts as delivered: when \<open>send\<close> fails for good before the last byte, the
  peer has a proper prefix of the reply, but the message is marked as delivered; the connection is
  closed, unless the handler has ever opened a socket of its own, which makes it leave the
  connection in the table.
\<close>

theorem failed_reply_marked_delivered:
  assumes "malloc_total (e_malloc ev)" and "ob_ready a m ob" and "mcp_reply m"
    and "cMsg_GetContentLength m = int n" and "0 < n" and "n \<le> length blk" and "length (mcp_reply_header m) < 5000"
    and "payload_block (heap (sv_queue (ob_sv ob))) (cMsg_GetContentPayload m) = Some blk"
    and "\<forall>p. rec = Some p \<longrightarrow> con_map (ob_sv ob) p \<noteq> None"
    and "ob_sends ob = rs @ SendFailed False # rest" and "no_failure rs"
    and "sum_list (map sent_count rs) < length (mcp_reply_header m) + n"
  shows "\<exists>ob' m'. cConnectionHandlerOutbound_HandleConnection ev nt rec a ob = Inr (Returned HRC_CONNECTION_HANDLER_OK, ob') \<and>
    ob_wire ob' = ob_wire ob @ [(cMsg_GetTCPSocketHandle m, take (sum_list (map sent_count rs)) (mcp_reply_header m @ take n blk))] \<and>
    heap (sv_queue (ob_sv ob')) a = Some m' \<and> cMsg_GetMsgState m' = MSG_STATE_DELIVERED \<and>
    (cConnectionHandlerOutbound_DoCloseConnection (ob_h ob') \<longleftrightarrow> \<not> cMsg_IsKeepAlive m \<or> \<not> oh_bSocketCreated (ob_h ob))"
proof -
  let ?sz = "length (mcp_reply_header m) + n" and ?k = "sum_list (map sent_count rs)"
  have "\<exists>rs'. send_loop (ob_sends ob) b 0 (int ?sz) = Inr (False, take ?k (mcp_reply_header m @ take n blk), rs')"
    if "?sz \<le> length b" "take ?sz b = mcp_reply_header m @ take n blk" for b
  proof -
    have "take ?k b = take ?k (take ?sz b)" using assms(12) by (simp add: min_def)
    then show ?thesis using send_loop_fails[OF assms(11) that(1), of 0 rest] assms(10,12) that(2) by simp
  qed
  from reply_transmitted[OF assms(1-9) refl this, of nt] show ?thesis by simp
qed

theorem failed_reply_marked_delivered_witness:
  "\<exists>ob' m'. cConnectionHandlerOutbound_HandleConnection demo_env demo_net (Some 5) 7
      (demo_outbound [Sent 7, SendFailed False]) = Inr (Returned HRC_CONNECTION_HANDLER_OK, ob') \<and>
    ob_wire ob' = [(5, ''MCP/1.0'')] \<and> heap (sv_queue (ob_sv ob')) 7 = Some m' \<and> cMsg_GetMsgState m' = MSG_STATE_DELIVERED"
proof -
  have "malloc_total (e_malloc demo_env)" using malloc_total_zero by (simp add: demo_env_def)
  from failed_reply_marked_delivered[OF this demo_outbound_ok(1) demo_reply_ok(1,2) _ _ _ demo_outbound_ok(2,3),
      of "[Sent 7, SendFailed False]" "[Sent 7]" "[]" demo_net]
  show ?thesis by (simp add: demo_outbound_ok(4,5) demo_reply_length no_failure_def demo_reply_ok cstr_def) blast
qed

end
