(* ===== verification/ConnectionRun.thy ===== *)
theory ConnectionRun
  imports Outbound
begin

text \<open>
  The thread of the connection queue, \<open>cConnectionQueue::Run\<close> (\<open>connectionqueue.cpp\<close>), over the
  connection table, both handlers and the queue of outbound messages. \<open>select\<close> is a parameter: it
  reduces a set of descriptors to those that are ready. The answers of \<open>recv\<close> are a script, one for
  each connection that is handled. The lock, the log output and the sleep between two turns are left
  out, and the clock stands still during a turn.
\<close>

definition sv_cache :: "server \<Rightarrow> cConnectionCache" where
  "sv_cache sv = m_ConnectionCache (m_pConnectionQueue (sv_queue sv))"

definition sv_set_con_queue :: "cConnectionQueue \<Rightarrow> server \<Rightarrow> server" where
  "sv_set_con_queue q sv = sv\<lparr>sv_queue := (sv_queue sv)\<lparr>m_pConnectionQueue := q\<rparr>\<rparr>"

definition sv_set_cache :: "cConnectionCache \<Rightarrow> server \<Rightarrow> server" where
  "sv_set_cache c sv = sv_set_con_queue ((m_pConnectionQueue (sv_queue sv))\<lparr>m_ConnectionCache := c\<rparr>) sv"

definition cConnectionQueue_CheckConnections ::
    "(socket list \<Rightarrow> socket list) \<Rightarrow> cConnectionQueue \<Rightarrow> int \<times> cConnectionQueue" where
  "cConnectionQueue_CheckConnections sel q =
     (let fds = sel (m_stReadfds q) in (int (length fds), q\<lparr>m_stReadfds := fds\<rparr>))"

section \<open>Reading\<close>

text \<open>The loop ends with the enumerator or, the script used up, in a \<open>recv\<close> that has not returned.\<close>

fun in_loop ::
    "env \<Rightarrow> (string \<Rightarrow> string) \<Rightarrow> recv_result list \<Rightarrow> cConnectionHandlerInbound \<Rightarrow> server \<Rightarrow>
       (cConnectionHandlerInbound \<times> server) res" where
  "in_loop ev ntoa rrs h sv =
     bindE (cConnectionCache_GetNextSetRecord (m_stReadfds (m_pConnectionQueue (sv_queue sv))) (sv_cache sv)) (\<lambda>(rec, c).
     let sv = sv_set_cache c sv in
     case rec of
       None \<Rightarrow> Inr (h, sv)
     | Some fd \<Rightarrow>
         (case rrs of
            [] \<Rightarrow> Inl Diverge
          | rr # rrs \<Rightarrow>
              bindE (cConnectionHandlerInbound_HandleConnection ev ntoa rr fd h sv) (\<lambda>(_, h, sv).
              if cConnectionHandlerInbound_DoCloseConnection h
              then bindE (con_at fd sv) (\<lambda>r.
                   bindE (cConnectionCache_FreeConnection (cr_Socketfd r) (sv_cache sv)) (\<lambda>c.
                   in_loop ev ntoa rrs h (sv_set_cache c sv)))
              else in_loop ev ntoa rrs h sv)))"

declare in_loop.simps [simp del]

definition cConnectionQueue_ProcessInboundTasks ::
    "env \<Rightarrow> (string \<Rightarrow> string) \<Rightarrow> recv_result list \<Rightarrow> cConnectionHandlerInbound \<Rightarrow> server \<Rightarrow>
       (cConnectionHandlerInbound \<times> server) res" where
  "cConnectionQueue_ProcessInboundTasks ev ntoa rrs h sv =
     in_loop ev ntoa rrs h (sv_set_cache (cConnectionCache_ResetEnumerator (sv_cache sv)) sv)"

section \<open>The thread\<close>

definition cConnectionQueue_Run_start :: "int \<Rightarrow> cConnectionQueue \<Rightarrow> cConnectionQueue" where
  "cConnectionQueue_Run_start now q = q\<lparr>cq_timer := cTimer_Start now (cTimer_SetInterval 1 (cq_timer q))\<rparr>"

text \<open>The part of a turn on the table alone; \<open>None\<close> when the loop over timed-out connections runs forever.\<close>

definition run_tables ::
    "malloc \<Rightarrow> int \<Rightarrow> (socket list \<Rightarrow> socket list) \<Rightarrow> cConnectionQueue \<Rightarrow> cConnectionQueue res option" where
  "run_tables ml now sel q =
     (let rest = (\<lambda>q.
            bindE (take_over ml now q) (\<lambda>q.
            bindE (cConnectionQueue_PrepareConnections q) (\<lambda>(maxsocketfd, q).
            Inr (if maxsocketfd \<noteq> 0 then snd (cConnectionQueue_CheckConnections sel q) else q))))
      in if cTimer_IsReady now (cq_timer q)
         then map_option (\<lambda>r. bindE r (\<lambda>c.
                rest (q\<lparr>m_ConnectionCache := c, cq_timer := cTimer_Reset now (cq_timer q)\<rparr>)))
                (cConnectionCache_TimeoutConnections (m_iConnectionTimeout q) now (m_ConnectionCache q))
         else Some (rest q))"

text \<open>One turn; \<open>ob\<close> holds the server and the outbound handler, \<open>h\<close> is the inbound handler.\<close>

definition cConnectionQueue_Run_turn ::
    "env \<Rightarrow> net \<Rightarrow> (string \<Rightarrow> string) \<Rightarrow> (socket list \<Rightarrow> socket list) \<Rightarrow> recv_result list \<Rightarrow> nat list \<Rightarrow>
       cConnectionHandlerInbound \<times> outbound \<Rightarrow> (cConnectionHandlerInbound \<times> outbound) res option" where
  "cConnectionQueue_Run_turn ev nt ntoa sel rrs ps = (\<lambda>(h, ob).
     map_option (\<lambda>r.
       bindE r (\<lambda>q.
       bindE (cConnectionQueue_ProcessInboundTasks ev ntoa rrs h (sv_set_con_queue q (ob_sv ob))) (\<lambda>(h, sv).
       let ob = ob\<lparr>ob_sv := sv\<rparr> in
       if out_queue ob \<noteq> []
       then bindE (cConnectionQueue_ProcessOutboundTasks ev nt ps ob) (\<lambda>(_, ob). Inr (h, ob))
       else Inr (h, ob))))
     (run_tables (e_malloc ev) (e_now ev) sel (m_pConnectionQueue (sv_queue (ob_sv ob)))))"

end
