(* ===== verification/Crc32.thy ===== *)
theory Crc32
  imports Mc_Prelude
begin

unbundle bit_operations_syntax

text \<open>
  The checksum of \<open>crc32.cpp\<close>: the table \<open>m_CRCTable\<close> and \<open>cCRC32::crc\<close>. The hash is an
  \<open>unsigned long\<close>, which has 64 bits on the platform, so the high half of the running value is
  part of the model; the lemmas show when it stays clear. The reference \<open>crc_bitwise\<close> divides
  by the polynomial one bit at a time; the table-driven loop is proved equal to it.
\<close>

section \<open>The table and the loop\<close>

definition m_CRCTable :: "64 word list" where
  "m_CRCTable = [
     0x00000000, 0x77073096, 0xee0e612c, 0x990951ba, 0x076dc419, 0x706af48f,
     0xe963a535, 0x9e6495a3, 0x0edb8832, 0x79dcb8a4, 0xe0d5e91e, 0x97d2d988,
     0x09b64c2b, 0x7eb17cbd, 0xe7b82d07, 0x90bf1d91, 0x1db71064, 0x6ab020f2,
     0xf3b97148, 0x84be41de, 0x1adad47d, 0x6ddde4eb, 0xf4d4b551, 0x83d385c7,
     0x136c9856, 0x646ba8c0, 0xfd62f97a, 0x8a65c9ec, 0x14015c4f, 0x63066cd9,
     0xfa0f3d63, 0x8d080df5, 0x3b6e20c8, 0x4c69105e, 0xd56041e4, 0xa2677172,
     0x3c03e4d1, 0x4b04d447, 0xd20d85fd, 0xa50ab56b, 0x35b5a8fa, 0x42b2986c,
     0xdbbbc9d6, 0xacbcf940, 0x32d86ce3, 0x45df5c75, 0xdcd60dcf, 0xabd13d59,
     0x26d930ac, 0x51de003a, 0xc8d75180, 0xbfd06116, 0x21b4f4b5, 0x56b3c423,
     0xcfba9599, 0xb8bda50f, 0x2802b89e, 0x5f058808, 0xc60cd9b2, 0xb10be924,
     0x2f6f7c87, 0x58684c11, 0xc1611dab, 0xb6662d3d, 0x76dc4190, 0x01db7106,
     0x98d220bc, 0xefd5102a, 0x71b18589, 0x06b6b51f, 0x9fbfe4a5, 0xe8b8d433,
     0x7807c9a2, 0x0f00f934, 0x9609a88e, 0xe10e9818, 0x7f6a0dbb, 0x086d3d2d,
     0x91646c97, 0xe6635c01, 0x6b6b51f4, 0x1c6c6162, 0x856530d8, 0xf262004e,
     0x6c0695ed, 0x1b01a57b, 0x8208f4c1, 0xf50fc457, 0x65b0d9c6, 0x12b7e950,
     0x8bbeb8ea, 0xfcb9887c, 0x62dd1ddf, 0x15da2d49, 0x8cd37cf3, 0xfbd44c65,
     0x4db26158, 0x3ab551ce, 0xa3bc0074, 0xd4bb30e2, 0x4adfa541, 0x3dd895d7,
     0xa4d1c46d, 0xd3d6f4fb, 0x4369e96a, 0x346ed9fc, 0xad678846, 0xda60b8d0,
     0x44042d73, 0x33031de5, 0xaa0a4c5f, 0xdd0d7cc9, 0x5005713c, 0x270241aa,
     0xbe0b1010, 0xc90c2086, 0x5768b525, 0x206f85b3, 0xb966d409, 0xce61e49f,
     0x5edef90e, 0x29d9c998, 0xb0d09822, 0xc7d7a8b4, 0x59b33d17, 0x2eb40d81,
     0xb7bd5c3b, 0xc0ba6cad, 0xedb88320, 0x9abfb3b6, 0x03b6e20c, 0x74b1d29a,
     0xead54739, 0x9dd277af, 0x04db2615, 0x73dc1683, 0xe3630b12, 0x94643b84,
     0x0d6d6a3e, 0x7a6a5aa8, 0xe40ecf0b, 0x9309ff9d, 0x0a00ae27, 0x7d079eb1,
     0xf00f9344, 0x8708a3d2, 0x1e01f268, 0x6906c2fe, 0xf762575d, 0x806567cb,
     0x196c3671, 0x6e6b06e7, 0xfed41b76, 0x89d32be0, 0x10da7a5a, 0x67dd4acc,
     0xf9b9df6f, 0x8ebeeff9, 0x17b7be43, 0x60b08ed5, 0xd6d6a3e8, 0xa1d1937e,
     0x38d8c2c4, 0x4fdff252, 0xd1bb67f1, 0xa6bc5767, 0x3fb506dd, 0x48b2364b,
     0xd80d2bda, 0xaf0a1b4c, 0x36034af6, 0x41047a60, 0xdf60efc3, 0xa867df55,
     0x316e8eef, 0x4669be79, 0xcb61b38c, 0xbc66831a, 0x256fd2a0, 0x5268e236,
     0xcc0c7795, 0xbb0b4703, 0x220216b9, 0x5505262f, 0xc5ba3bbe, 0xb2bd0b28,
     0x2bb45a92, 0x5cb36a04, 0xc2d7ffa7, 0xb5d0cf31, 0x2cd99e8b, 0x5bdeae1d,
     0x9b64c2b0, 0xec63f226, 0x756aa39c, 0x026d930a, 0x9c0906a9, 0xeb0e363f,
     0x72076785, 0x05005713, 0x95bf4a82, 0xe2b87a14, 0x7bb12bae, 0x0cb61b38,
     0x92d28e9b, 0xe5d5be0d, 0x7cdcefb7, 0x0bdbdf21, 0x86d3d2d4, 0xf1d4e242,
     0x68ddb3f8, 0x1fda836e, 0x81be16cd, 0xf6b9265b, 0x6fb077e1, 0x18b74777,
     0x88085ae6, 0xff0f6a70, 0x66063bca, 0x11010b5c, 0x8f659eff, 0xf862ae69,
     0x616bffd3, 0x166ccf45, 0xa00ae278, 0xd70dd2ee, 0x4e048354, 0x3903b3c2,
     0xa7672661, 0xd06016f7, 0x4969474d, 0x3e6e77db, 0xaed16a4a, 0xd9d65adc,
     0x40df0b66, 0x37d83bf0, 0xa9bcae53, 0xdebb9ec5, 0x47b2cf7f, 0x30b5ffe9,
     0xbdbdf21c, 0xcabac28a, 0x53b39330, 0x24b4a3a6, 0xbad03605, 0xcdd70693,
     0x54de5729, 0x23d967bf, 0xb3667a2e, 0xc4614ab8, 0x5d681b02, 0x2a6f2b94,
     0xb40bbe37, 0xc30c8ea1, 0x5a05df1b, 0x2d02ef8d]"

definition crc_step :: "64 word \<Rightarrow> char \<Rightarrow> 64 word" where
  "crc_step hash c =
     (m_CRCTable ! unat ((hash XOR ucast (byte_of c)) AND 0xff)) XOR drop_bit 8 hash"

text \<open>
  The loop \<open>while (len-- > 0)\<close> over the bytes at \<open>key\<close>; it reads outside the block when \<open>len\<close>
  exceeds what is left of it.
\<close>

fun crc_loop :: "block \<Rightarrow> int \<Rightarrow> 64 word \<Rightarrow> 64 word res" where
  "crc_loop [] len hash = (if len > 0 then Inl MemFault else Inr hash)"
| "crc_loop (c # key) len hash =
     (if len > 0 then crc_loop key (len - 1) (crc_step hash c) else Inr hash)"

definition cCRC32_crc :: "block \<Rightarrow> int \<Rightarrow> 64 word \<Rightarrow> 64 word res" where
  "cCRC32_crc key len lasthash =
     bindE (crc_loop key len (lasthash XOR 0xffffffff)) (\<lambda>hash. Inr (hash XOR 0xffffffff))"

section \<open>The bitwise reference\<close>

definition crc_poly :: "64 word" where
  "crc_poly = 0xedb88320"

definition crc_bit :: "64 word \<Rightarrow> 64 word" where
  "crc_bit h = (if bit h 0 then drop_bit 1 h XOR crc_poly else drop_bit 1 h)"

definition crc_byte :: "64 word \<Rightarrow> char \<Rightarrow> 64 word" where
  "crc_byte h c = (crc_bit ^^ 8) (h XOR ucast (byte_of c))"

definition crc_bitwise :: "64 word \<Rightarrow> char list \<Rightarrow> 64 word" where
  "crc_bitwise lasthash bs = foldl crc_byte (lasthash XOR 0xffffffff) bs XOR 0xffffffff"

section \<open>The loop against the reference\<close>

lemma crc_bit_xor: "crc_bit (x XOR y) = crc_bit x XOR crc_bit y"
  by (rule bit_word_eqI) (auto simp: crc_bit_def bit_simps)

lemma crc_bits_xor: "(crc_bit ^^ n) (x XOR y) = (crc_bit ^^ n) x XOR (crc_bit ^^ n) y"
  by (induction n) (simp_all add: crc_bit_xor)

lemma crc_bits_shift: "(\<forall>i < n. \<not> bit y i) \<Longrightarrow> (crc_bit ^^ n) y = drop_bit n y"
proof (induction n)
  case (Suc n)
  then have "(crc_bit ^^ n) y = drop_bit n y" by simp
  moreover have "\<not> bit (drop_bit n y) 0" using Suc.prems by (simp add: bit_simps)
  ultimately have "crc_bit ((crc_bit ^^ n) y) = drop_bit 1 (drop_bit n y)"
    by (simp only: crc_bit_def if_False)
  then show ?case by simp
qed simp

text \<open>
  The map from an index to its table entry is linear for \<open>XOR\<close>, so the table is the list that
  doubles eight times, once for each power of two.
\<close>

definition crc_double :: "64 word list \<Rightarrow> 64 word \<Rightarrow> 64 word list" where
  "crc_double l b = l @ map ((XOR) b) l"

lemma word_add_bit:
  assumes "i < 2 ^ k"
  shows "(of_nat (2 ^ k + i) :: 64 word) = of_nat (2 ^ k) XOR of_nat i"
proof -
  have "\<not> bit i k" using assms by (simp add: bit_iff_odd)
  then have "(2 :: nat) ^ k AND i = 0"
    by (intro bit_eqI) (auto simp: bit_and_iff bit_exp_iff)
  then have "2 ^ k + i = (2 :: nat) ^ k XOR i"
    by (simp add: disjunctive_add_eq_xor)
  then show ?thesis by (simp only: of_nat_xor_eq)
qed

lemma crc_table_double:
  defines "f \<equiv> (\<lambda>i. (crc_bit ^^ 8) (of_nat i))"
  shows "map f [0..<2 ^ Suc k] = crc_double (map f [0..<2 ^ k]) (f (2 ^ k))"
proof -
  have "map f [2 ^ k..<2 ^ k + 2 ^ k] = map ((XOR) (f (2 ^ k))) (map f [0..<2 ^ k])"
    by (rule nth_equalityI) (simp_all add: f_def word_add_bit crc_bits_xor del: of_nat_add of_nat_power)
  moreover have "[0..<2 ^ Suc k] = [0..<2 ^ k] @ [2 ^ k..<2 ^ k + 2 ^ k]"
    by (simp add: upt_add_eq_append[symmetric] mult_2)
  ultimately show ?thesis by (simp add: crc_double_def)
qed

lemma crc_powers:
  "(crc_bit ^^ 8) (of_nat (2 ^ 0)) = 0x77073096" "(crc_bit ^^ 8) (of_nat (2 ^ 1)) = 0xee0e612c"
  "(crc_bit ^^ 8) (of_nat (2 ^ 2)) = 0x076dc419" "(crc_bit ^^ 8) (of_nat (2 ^ 3)) = 0x0edb8832"
  "(crc_bit ^^ 8) (of_nat (2 ^ 4)) = 0x1db71064" "(crc_bit ^^ 8) (of_nat (2 ^ 5)) = 0x3b6e20c8"
  "(crc_bit ^^ 8) (of_nat (2 ^ 6)) = 0x76dc4190" "(crc_bit ^^ 8) (of_nat (2 ^ 7)) = 0xedb88320"
  by code_simp+

lemma m_CRCTable_bitwise: "m_CRCTable = map (\<lambda>i. (crc_bit ^^ 8) (of_nat i)) [0..<256]"
proof -
  have start: "map (\<lambda>i. (crc_bit ^^ 8) (of_nat i)) [0..<2 ^ 0] = [0]"
    by (simp add: crc_bits_shift)
  note steps = crc_table_double[of 0] crc_table_double[of 1] crc_table_double[of 2]
    crc_table_double[of 3] crc_table_double[of 4] crc_table_double[of 5] crc_table_double[of 6]
    crc_table_double[of 7]
  have "map (\<lambda>i. (crc_bit ^^ 8) (of_nat i)) [0..<2 ^ 8] =
    foldl crc_double [0] [0x77073096, 0xee0e612c, 0x076dc419, 0x0edb8832, 0x1db71064, 0x3b6e20c8,
      0x76dc4190, 0xedb88320]"
    by (simp only: steps[unfolded Suc_numeral One_nat_def[symmetric] Suc_1 add_num_simps crc_powers] start foldl.simps)
  also have "\<dots> = m_CRCTable" by (simp add: m_CRCTable_def crc_double_def)
  finally show ?thesis by simp
qed

lemma m_CRCTable_nth: "i < 256 \<Longrightarrow> m_CRCTable ! i = (crc_bit ^^ 8) (of_nat i)"
  by (simp add: m_CRCTable_bitwise)

lemma ff_mask: "(0xff :: 64 word) = mask 8"
  by (simp add: mask_eq_exp_minus_1)

lemma ffffffff_mask: "(0xffffffff :: 64 word) = mask 32"
  by (simp add: mask_eq_exp_minus_1)

lemma low_byte_less: "unat ((h :: 64 word) AND 0xff) < 256"
proof -
  have "unat (take_bit 8 h) = take_bit 8 (unat h)" by (simp add: unsigned_take_bit_eq)
  also have "\<dots> < 2 ^ 8" by (rule take_bit_nat_less_exp)
  finally show ?thesis by (simp add: ff_mask take_bit_eq_mask)
qed

lemma low_high_byte:
  fixes x :: "64 word"
  shows "x = (x AND 0xff) XOR (x AND NOT 0xff)"
    and "drop_bit 8 (x AND NOT 0xff) = drop_bit 8 x"
    and "\<forall>i < 8. \<not> bit (x AND NOT 0xff) i"
proof -
  show "x = (x AND 0xff) XOR (x AND NOT 0xff)"
    unfolding ff_mask by (rule bit_word_eqI) (auto simp: bit_simps)
  show "drop_bit 8 (x AND NOT 0xff) = drop_bit 8 x"
    unfolding ff_mask by (rule bit_word_eqI) (auto simp: bit_simps dest: bit_imp_le_length)
  show "\<forall>i < 8. \<not> bit (x AND NOT 0xff) i"
    unfolding ff_mask by (auto simp: bit_simps)
qed

lemma crc_step_byte: "crc_step h c = crc_byte h c"
proof -
  define x where "x = h XOR ucast (byte_of c)"
  have "crc_byte h c = (crc_bit ^^ 8) ((x AND 0xff) XOR (x AND NOT 0xff))"
    by (simp only: crc_byte_def flip: x_def low_high_byte(1))
  also have "\<dots> = (crc_bit ^^ 8) (x AND 0xff) XOR drop_bit 8 x"
    by (simp only: crc_bits_xor crc_bits_shift[OF low_high_byte(3)] low_high_byte(2))
  also have "(crc_bit ^^ 8) (x AND 0xff) = m_CRCTable ! unat (x AND 0xff)"
    by (simp only: m_CRCTable_nth[OF low_byte_less] word_unat_eq_iff) simp
  also have "drop_bit 8 x = drop_bit 8 h"
    by (rule bit_word_eqI) (auto simp: x_def bit_simps dest: bit_imp_le_length)
  finally show ?thesis by (simp only: crc_step_def x_def)
qed

lemma crc_loop_byte:
  "crc_loop key len h =
     (if int (length key) < len then Inl MemFault else Inr (foldl crc_byte h (take (nat len) key)))"
proof (induction key arbitrary: len h)
  case (Cons c key)
  then show ?case
    by (cases "nat len") (auto simp: crc_step_byte nat_diff_distrib nat_eq_iff2)
qed auto

section \<open>The hash is injective in each byte\<close>

text \<open>
  A value that fits in 32 bits stays there, and on such values a step is injective: bit 31 of
  the result tells whether the polynomial was added.
\<close>

definition fits32 :: "64 word \<Rightarrow> bool" where
  "fits32 h \<longleftrightarrow> (\<forall>n. bit h n \<longrightarrow> n < 32)"

lemma fits32_less: "fits32 h \<longleftrightarrow> h < 2 ^ 32"
proof -
  have "fits32 h \<longleftrightarrow> take_bit 32 h = h"
    unfolding fits32_def by (metis bit_take_bit_iff bit_word_eqI)
  also have "\<dots> \<longleftrightarrow> take_bit 32 (unat h) = unat h"
    by (simp add: word_unat_eq_iff unsigned_take_bit_eq)
  also have "\<dots> \<longleftrightarrow> h < 2 ^ 32"
    by (simp add: take_bit_nat_eq_self_iff word_less_nat_alt)
  finally show ?thesis .
qed

lemma fits32_xor: "fits32 x \<Longrightarrow> fits32 y \<Longrightarrow> fits32 (x XOR y)"
  by (auto simp: fits32_def bit_simps)

lemma fits32_byte: "fits32 (ucast (b :: 8 word))"
  by (auto simp: fits32_def bit_simps dest: bit_imp_le_length)

lemma fits32_ffffffff: "fits32 0xffffffff"
  by (simp add: ffffffff_mask fits32_def bit_simps)

lemma fits32_poly: "fits32 crc_poly" and poly_31: "bit crc_poly 31"
  by (simp_all add: fits32_less crc_poly_def)

lemma fits32_crc_bit: "fits32 h \<Longrightarrow> fits32 (crc_bit h)"
  using fits32_poly by (auto simp: crc_bit_def fits32_def bit_simps)

lemma fits32_crc_bits: "fits32 h \<Longrightarrow> fits32 ((crc_bit ^^ n) h)"
  by (induction n) (simp_all add: fits32_crc_bit)

lemma fits32_crc_byte: "fits32 h \<Longrightarrow> fits32 (crc_byte h c)"
  by (simp add: crc_byte_def fits32_crc_bits fits32_xor fits32_byte)

lemma fits32_fold: "fits32 h \<Longrightarrow> fits32 (foldl crc_byte h bs)"
  by (induction bs arbitrary: h) (simp_all add: fits32_crc_byte)

lemma crc_bit_31: "fits32 h \<Longrightarrow> bit (crc_bit h) 31 \<longleftrightarrow> bit h 0"
  using poly_31 by (auto simp: crc_bit_def fits32_def bit_simps)

lemma xor_cancel: "(a XOR b = a XOR c) \<longleftrightarrow> b = (c :: 64 word)" "(b XOR a = c XOR a) \<longleftrightarrow> b = c"
proof -
  have inv: "a XOR (a XOR z) = z" for z :: "64 word" by (simp flip: xor.assoc)
  show "(a XOR b = a XOR c) \<longleftrightarrow> b = c" by (metis inv)
  then show "(b XOR a = c XOR a) \<longleftrightarrow> b = c" by (simp only: xor.commute)
qed

lemma ucast_byte_inject: "(ucast (a :: 8 word) :: 64 word) = ucast b \<Longrightarrow> a = b"
proof (rule word8_eqI)
  fix n :: nat assume "(ucast a :: 64 word) = ucast b" and "n < 8"
  then have "bit (ucast a :: 64 word) n = bit (ucast b :: 64 word) n" by simp
  with \<open>n < 8\<close> show "bit a n = bit b n" by (simp add: bit_ucast_iff)
qed

lemma crc_bit_inject:
  assumes "fits32 x" and "fits32 y" and "crc_bit x = crc_bit y"
  shows "x = y"
proof -
  have b0: "bit x 0 = bit y 0" using crc_bit_31 assms by metis
  with assms(3) have "drop_bit 1 x = drop_bit 1 y" by (auto simp: crc_bit_def xor_cancel split: if_splits)
  then have "bit x (Suc n) = bit y (Suc n)" for n
    by (metis bit_drop_bit_eq comp_apply plus_1_eq_Suc)
  with b0 show ?thesis by (intro bit_word_eqI) (metis not0_implies_Suc)
qed

lemma crc_bits_inject:
  "fits32 x \<Longrightarrow> fits32 y \<Longrightarrow> (crc_bit ^^ n) x = (crc_bit ^^ n) y \<Longrightarrow> x = y"
proof (induction n)
  case (Suc n)
  then have "crc_bit ((crc_bit ^^ n) x) = crc_bit ((crc_bit ^^ n) y)" by simp
  with Suc show ?case by (metis crc_bit_inject fits32_crc_bits)
qed simp

lemma crc_byte_inject_state:
  "fits32 x \<Longrightarrow> fits32 y \<Longrightarrow> crc_byte x c = crc_byte y c \<Longrightarrow> x = y"
  unfolding crc_byte_def by (metis crc_bits_inject fits32_xor fits32_byte xor_cancel(2))

lemma crc_byte_inject_data:
  assumes "fits32 x" and "crc_byte x c = crc_byte x d"
  shows "c = d"
proof -
  have "x XOR ucast (byte_of c) = x XOR ucast (byte_of d)"
    using assms by (auto simp: crc_byte_def intro: crc_bits_inject fits32_xor fits32_byte)
  then have "byte_of c = byte_of d" unfolding xor_cancel by (rule ucast_byte_inject)
  then show ?thesis by simp
qed

lemma crc_fold_inject:
  "fits32 x \<Longrightarrow> fits32 y \<Longrightarrow> foldl crc_byte x bs = foldl crc_byte y bs \<Longrightarrow> x = y"
proof (induction bs arbitrary: x y)
  case (Cons b bs)
  then have "crc_byte x b = crc_byte y b" by (simp add: fits32_crc_byte)
  with Cons.prems show ?case by (metis crc_byte_inject_state)
qed simp

section \<open>Properties\<close>

text \<open>(C25) The table-driven loop computes the CRC-32 polynomial division: for every block, length
  and starting hash, \<open>crc\<close> returns what the bit-by-bit reference returns on the first \<open>len\<close>
  bytes, faults exactly when \<open>len\<close> exceeds the block, and hashing two pieces one after the
  other equals hashing their concatenation.\<close>

theorem crc_is_polynomial_division:
  "cCRC32_crc key len lasthash =
     (if int (length key) < len then Inl MemFault else Inr (crc_bitwise lasthash (take (nat len) key)))
   \<and> cCRC32_crc (xs @ ys) (int (length (xs @ ys))) lasthash =
       bindE (cCRC32_crc xs (int (length xs)) lasthash) (cCRC32_crc ys (int (length ys)))"
  by (simp add: cCRC32_crc_def crc_loop_byte crc_bitwise_def xor.assoc)

text \<open>(C28) The checksum detects every change of a single byte: two blocks that differ in one byte
  have different checksums, and a checksum that starts from a 32-bit hash fits in 32 bits.\<close>

theorem crc_detects_byte_change:
  assumes "lasthash < 2 ^ 32" and "c \<noteq> d"
  shows "cCRC32_crc (u @ c # v) (int (length (u @ c # v))) lasthash \<noteq>
         cCRC32_crc (u @ d # v) (int (length (u @ d # v))) lasthash
       \<and> (\<forall>h. cCRC32_crc u (int (length u)) lasthash = Inr h \<longrightarrow> h < 2 ^ 32)"
proof -
  define x where "x = foldl crc_byte (lasthash XOR 0xffffffff) u"
  have x: "fits32 x"
    unfolding x_def using assms(1)
    by (intro fits32_fold fits32_xor fits32_ffffffff) (simp add: fits32_less)
  with assms(2) have "foldl crc_byte (crc_byte x c) v \<noteq> foldl crc_byte (crc_byte x d) v"
    by (metis crc_fold_inject crc_byte_inject_data fits32_crc_byte)
  with x show ?thesis
    by (simp add: cCRC32_crc_def crc_loop_byte xor_cancel flip: x_def)
      (use fits32_less[of "x XOR 0xffffffff"] in \<open>simp add: fits32_xor fits32_ffffffff\<close>)
qed

theorem crc_detects_byte_change_witness:
  "cCRC32_crc ''AB'' 2 0 \<noteq> cCRC32_crc ''AC'' 2 0"
  using crc_detects_byte_change[of 0 "CHR ''B''" "CHR ''C''" "''A''" "[]"] by simp

end
