(* ===== verification/Levenshtein.thy ===== *)
theory Levenshtein
  imports Mc_Prelude
begin

text \<open>
  The edit distance of \<open>levenshtein.cpp\<close>: \<open>cLevenshtein::distance\<close> fills a matrix with one row
  per prefix of the source, with the extra step for transpositions. The reference \<open>lev\<close> is the
  recursion over prefix lengths that the matrix tabulates; its algebraic properties (symmetry,
  identity, bounds) carry over to the code by the equivalence theorem.
\<close>

section \<open>The code\<close>

type_synonym matrix = "int list list"

definition mat_get :: "matrix \<Rightarrow> nat \<Rightarrow> nat \<Rightarrow> int" where
  "mat_get mt i j = mt ! i ! j"

definition mat_set :: "matrix \<Rightarrow> nat \<Rightarrow> nat \<Rightarrow> int \<Rightarrow> matrix" where
  "mat_set mt i j v = mt[i := (mt ! i)[j := v]]"

text \<open>Steps 1 and 2: \<open>resize\<close> fills with zeros, then the first column and the first row.\<close>

definition lev_init :: "nat \<Rightarrow> nat \<Rightarrow> matrix" where
  "lev_init n m =
     foldl (\<lambda>mt j. mat_set mt 0 j (int j))
       (foldl (\<lambda>mt i. mat_set mt i 0 (int i)) (replicate (n + 1) (replicate (m + 1) 0)) [0..<n + 1])
       [0..<m + 1]"

text \<open>Steps 5 to 6A: one cell.\<close>

definition lev_cell :: "char list \<Rightarrow> char list \<Rightarrow> matrix \<Rightarrow> nat \<Rightarrow> nat \<Rightarrow> int" where
  "lev_cell source target mt i j =
     (let s_i = source ! (i - 1);
          t_j = target ! (j - 1);
          cost = (if s_i = t_j then 0 else 1);
          above = mat_get mt (i - 1) j;
          left = mat_get mt i (j - 1);
          diag = mat_get mt (i - 1) (j - 1);
          cell = min (above + 1) (min (left + 1) (diag + cost))
      in if i > 2 \<and> j > 2
         then let trans = mat_get mt (i - 2) (j - 2) + 1;
                  trans = (if source ! (i - 2) \<noteq> t_j then trans + 1 else trans);
                  trans = (if s_i \<noteq> target ! (j - 2) then trans + 1 else trans)
              in (if cell > trans then trans else cell)
         else cell)"

definition lev_row :: "char list \<Rightarrow> char list \<Rightarrow> nat \<Rightarrow> matrix \<Rightarrow> matrix" where
  "lev_row source target i mt =
     foldl (\<lambda>mt j. mat_set mt i j (lev_cell source target mt i j)) mt [1..<length target + 1]"

definition cLevenshtein_distance :: "char list \<Rightarrow> char list \<Rightarrow> int" where
  "cLevenshtein_distance source target =
     (let n = length source; m = length target
      in if n = 0 then int m
         else if m = 0 then int n
         else mat_get
                (foldl (\<lambda>mt i. lev_row source target i mt) (lev_init n m) [1..<n + 1]) n m)"

section \<open>The recursion\<close>

text \<open>
  \<open>lev s t i j\<close> is the distance between the first \<open>i\<close> bytes of \<open>s\<close> and the first \<open>j\<close> of \<open>t\<close>.
\<close>

definition lev_trans :: "char list \<Rightarrow> char list \<Rightarrow> nat \<Rightarrow> nat \<Rightarrow> int" where
  "lev_trans s t i j =
     1 + of_bool (s ! (i - 1) \<noteq> t ! j) + of_bool (s ! i \<noteq> t ! (j - 1))"

function lev :: "char list \<Rightarrow> char list \<Rightarrow> nat \<Rightarrow> nat \<Rightarrow> int" where
  "lev s t 0 j = int j"
| "lev s t (Suc i) 0 = int (Suc i)"
| "lev s t (Suc i) (Suc j) =
     (let cell = min (lev s t i (Suc j) + 1)
                   (min (lev s t (Suc i) j + 1) (lev s t i j + of_bool (s ! i \<noteq> t ! j)))
      in if 2 \<le> i \<and> 2 \<le> j then min cell (lev s t (i - 1) (j - 1) + lev_trans s t i j) else cell)"
  by pat_completeness auto
termination
  by (relation "measure (\<lambda>(s, t, i, j). i + j)") auto

lemma lev_cell_eq:
  assumes "mat_get mt i (Suc j) = lev s t i (Suc j)" and "mat_get mt (Suc i) j = lev s t (Suc i) j"
    and "mat_get mt i j = lev s t i j"
    and "2 \<le> i \<Longrightarrow> 2 \<le> j \<Longrightarrow> mat_get mt (i - 1) (j - 1) = lev s t (i - 1) (j - 1)"
  shows "lev_cell s t mt (Suc i) (Suc j) = lev s t (Suc i) (Suc j)"
proof -
  have idx: "Suc i - 2 = i - 1" "Suc j - 2 = j - 1" "Suc i - 1 = i" "Suc j - 1 = j"
    "(Suc i > 2 \<and> Suc j > 2) = (2 \<le> i \<and> 2 \<le> j)" by auto
  have cost: "(if P then 0 else 1) = (of_bool (\<not> P) :: int)" for P by simp
  have gt: "(if a > b then b else a) = min a (b :: int)" for a b by simp
  have trans: "(if s ! i \<noteq> t ! (j - 1)
       then (if s ! (i - 1) \<noteq> t ! j then a + 1 + 1 else a + 1) + 1
       else (if s ! (i - 1) \<noteq> t ! j then a + 1 + 1 else a + 1)) = a + lev_trans s t i j" for a
    by (simp add: lev_trans_def)
  show ?thesis using assms(4)
    by (simp only: lev_cell_def Let_def idx cost gt trans assms(1-3) lev.simps(3) cong: if_cong)
qed

lemma lev_00: "lev s t i 0 = int i"
  by (cases i) simp_all

section \<open>The matrix tabulates the recursion\<close>

definition mat_dim :: "matrix \<Rightarrow> nat \<Rightarrow> nat \<Rightarrow> bool" where
  "mat_dim mt n m \<longleftrightarrow> length mt = n + 1 \<and> (\<forall>row \<in> set mt. length row = m + 1)"

lemma mat_dim_set: "mat_dim mt n m \<Longrightarrow> mat_dim (mat_set mt i j v) n m"
  by (cases "i < length mt")
    (auto simp: mat_dim_def mat_set_def list_update_beyond all_set_conv_all_nth nth_list_update)

lemma mat_get_set:
  "mat_dim mt n m \<Longrightarrow> i \<le> n \<Longrightarrow> j \<le> m \<Longrightarrow>
     mat_get (mat_set mt i j v) i' j' = (if i' = i \<and> j' = j then v else mat_get mt i' j')"
  by (auto simp: mat_dim_def mat_set_def mat_get_def nth_list_update)

lemma mat_fill_col:
  "mat_dim mt n m \<Longrightarrow> b \<le> n \<Longrightarrow>
   mat_dim (foldl (\<lambda>mt i. mat_set mt i 0 (int i)) mt [0..<b + 1]) n m \<and>
   (\<forall>i j. mat_get (foldl (\<lambda>mt i. mat_set mt i 0 (int i)) mt [0..<b + 1]) i j =
      (if i \<le> b \<and> j = 0 then int i else mat_get mt i j))"
  by (induction b) (auto simp: mat_dim_set mat_get_set le_Suc_eq)

lemma mat_fill_row:
  "mat_dim mt n m \<Longrightarrow> b \<le> m \<Longrightarrow>
   mat_dim (foldl (\<lambda>mt j. mat_set mt 0 j (int j)) mt [0..<b + 1]) n m \<and>
   (\<forall>i j. mat_get (foldl (\<lambda>mt j. mat_set mt 0 j (int j)) mt [0..<b + 1]) i j =
      (if i = 0 \<and> j \<le> b then int j else mat_get mt i j))"
  by (induction b) (auto simp: mat_dim_set mat_get_set le_Suc_eq)

lemma mat_init:
  "mat_dim (lev_init n m) n m \<and>
   (\<forall>i j. i \<le> n \<longrightarrow> j \<le> m \<longrightarrow> i = 0 \<or> j = 0 \<longrightarrow> mat_get (lev_init n m) i j = lev s t i j)"
proof -
  have "mat_dim (replicate (n + 1) (replicate (m + 1) 0)) n m" by (simp add: mat_dim_def)
  note col = mat_fill_col[OF this order_refl]
  note row = mat_fill_row[OF conjunct1[OF col] order_refl]
  show ?thesis using col row
    unfolding lev_init_def by (auto simp: lev_00 simp del: upt_Suc)
qed

definition mat_upto :: "char list \<Rightarrow> char list \<Rightarrow> matrix \<Rightarrow> nat \<Rightarrow> nat \<Rightarrow> bool" where
  "mat_upto s t mt a b \<longleftrightarrow> mat_dim mt (length s) (length t) \<and>
     (\<forall>i j. i \<le> length s \<longrightarrow> j \<le> length t \<longrightarrow> i = 0 \<or> j = 0 \<or> i < a \<or> i = a \<and> j < b \<longrightarrow>
        mat_get mt i j = lev s t i j)"

lemma mat_upto_init: "mat_upto s t (lev_init (length s) (length t)) 1 1"
  unfolding mat_upto_def using mat_init[of "length s" "length t" s t] by auto

lemma mat_upto_cell:
  assumes "mat_upto s t mt (Suc i) (Suc j)" and "Suc i \<le> length s" and "Suc j \<le> length t"
  shows "mat_upto s t (mat_set mt (Suc i) (Suc j) (lev_cell s t mt (Suc i) (Suc j))) (Suc i) (Suc (Suc j))"
proof -
  have "lev_cell s t mt (Suc i) (Suc j) = lev s t (Suc i) (Suc j)"
    using assms by (intro lev_cell_eq) (auto simp: mat_upto_def)
  with assms show ?thesis
    unfolding mat_upto_def less_Suc_eq[of _ "Suc j"]
    by (simp only: mat_dim_set mat_get_set[of mt "length s" "length t"]) auto
qed

lemma mat_upto_next:
  assumes "mat_upto s t mt a (length t + 1)"
  shows "mat_upto s t mt (Suc a) 1"
proof -
  have "i = 0 \<or> j = 0 \<or> i < a \<or> i = a \<and> j < length t + 1"
    if "j \<le> length t" "i = 0 \<or> j = 0 \<or> i < Suc a \<or> i = Suc a \<and> j < 1" for i j
    using that by auto
  with assms show ?thesis unfolding mat_upto_def by blast
qed

lemma mat_upto_row:
  assumes "mat_upto s t mt (Suc i) 1" and "Suc i \<le> length s"
  shows "mat_upto s t (lev_row s t (Suc i) mt) (Suc (Suc i)) 1"
proof -
  have "mat_upto s t (foldl (\<lambda>mt j. mat_set mt (Suc i) j (lev_cell s t mt (Suc i) j)) mt [1..<b + 1]) (Suc i) (b + 1)"
    if "b \<le> length t" for b
    using that
  proof (induction b)
    case (Suc b)
    then show ?case using mat_upto_cell[OF _ assms(2)] by simp
  qed (use assms in simp)
  from mat_upto_next[OF this[OF order_refl]] show ?thesis by (simp add: lev_row_def)
qed

lemma mat_upto_rows:
  "a \<le> length s \<Longrightarrow>
   mat_upto s t (foldl (\<lambda>mt i. lev_row s t i mt) (lev_init (length s) (length t)) [1..<a + 1]) (a + 1) 1"
proof (induction a)
  case 0 show ?case using mat_upto_init by simp
next
  case (Suc a) then show ?case using mat_upto_row by simp
qed

lemma distance_lev: "cLevenshtein_distance s t = lev s t (length s) (length t)"
  using mat_upto_rows[of "length s" s t]
  by (auto simp: cLevenshtein_distance_def Let_def mat_upto_def lev_00)

section \<open>The recursion is a distance\<close>

lemma lev_sym: "lev s t i j = lev t s j i"
proof (induction s t i j rule: lev.induct)
  case (2 s t i) show ?case by simp
next
  case (3 s t i j)
  have "lev_trans s t i j = lev_trans t s j i" by (simp add: lev_trans_def eq_commute)
  with 3 show ?case
    by (auto simp: Let_def min.commute min.left_commute eq_commute[of "s ! i"])
qed (simp add: lev_00)

lemma lev_ge_diff: "\<bar>int i - int j\<bar> \<le> lev s t i j"
proof (induction s t i j rule: lev.induct)
  case (3 s t i j)
  have "0 \<le> lev_trans s t i j" by (simp add: lev_trans_def)
  with 3 show ?case by (auto simp: Let_def)
qed simp_all

lemma lev_nonneg: "0 \<le> lev s t i j"
  using lev_ge_diff[of i j s t] by simp

lemma lev_le_max: "lev s t i j \<le> int (max i j)"
proof (induction s t i j rule: lev.induct)
  case (3 s t i j)
  then have "lev s t i j + of_bool (s ! i \<noteq> t ! j) \<le> int (max (Suc i) (Suc j))" by auto
  then show ?case by (auto simp: Let_def min_le_iff_disj)
qed simp_all

lemma lev_zero:
  "i \<le> length s \<Longrightarrow> j \<le> length t \<Longrightarrow> lev s t i j = 0 \<longleftrightarrow> take i s = take j t"
proof (induction s t i j rule: lev.induct)
  case (3 s t i j)
  have tr: "0 < lev_trans s t i j" by (simp add: lev_trans_def)
  have "lev s t (Suc i) (Suc j) = 0 \<longleftrightarrow> lev s t i j = 0 \<and> s ! i = t ! j"
    using lev_nonneg[of s t i "Suc j"] lev_nonneg[of s t "Suc i" j] lev_nonneg[of s t i j]
      lev_nonneg[of s t "i - 1" "j - 1"] tr
    by (auto simp: Let_def min_def)
  also have "\<dots> \<longleftrightarrow> take (Suc i) s = take (Suc j) t"
    using 3 by (auto simp: take_Suc_conv_app_nth)
  finally show ?case .
qed (auto simp: lev_00)

section \<open>Properties\<close>

text \<open>(C29) The matrix routine computes the recursive edit distance, and that distance is symmetric,
  is zero exactly for equal strings, is at most the length of the longer string and at least
  the difference of the lengths.\<close>

theorem distance_is_recursive_edit_distance:
  "cLevenshtein_distance source target = lev source target (length source) (length target)
   \<and> cLevenshtein_distance source target = cLevenshtein_distance target source
   \<and> (cLevenshtein_distance source target = 0 \<longleftrightarrow> source = target)
   \<and> \<bar>int (length source) - int (length target)\<bar> \<le> cLevenshtein_distance source target
   \<and> cLevenshtein_distance source target \<le> int (max (length source) (length target))"
proof (intro conjI)
  show "cLevenshtein_distance source target = cLevenshtein_distance target source"
    unfolding distance_lev by (rule lev_sym)
  show "(cLevenshtein_distance source target = 0) = (source = target)"
    unfolding distance_lev by (simp add: lev_zero)
qed (use lev_ge_diff lev_le_max in \<open>auto simp: distance_lev\<close>)

text \<open>The transposition step is guarded by \<open>i > 2 && j > 2\<close>, so two swapped characters at
  the start of the strings cost 2, while the same swap one position later costs 1.\<close>

theorem leading_transposition_costs_two:
  "cLevenshtein_distance ''ab'' ''ba'' = 2 \<and> cLevenshtein_distance ''xab'' ''xba'' = 1"
  by code_simp

end
