(* ===== verification/Strtok.thy ===== *)
theory Strtok
  imports Mc_Prelude
begin

text \<open>
  \<open>strtok_r\<close>, through the \<open>STRTOK\<close> macros of \<open>cbstrtok.h\<close>. The marker is the part of the
  block that has not been scanned yet; scanning past the end of the block faults. Each call
  skips separators, returns the token up to the next separator (which it overwrites) or the
  terminator, or null when only separators are left.
\<close>

fun skip_seps :: "string \<Rightarrow> block \<Rightarrow> block res" where
  "skip_seps seps [] = Inl MemFault"
| "skip_seps seps (c # cs) =
     (if c \<noteq> NUL \<and> c \<in> set seps then skip_seps seps cs else Inr (c # cs))"

fun scan_token :: "string \<Rightarrow> block \<Rightarrow> (string \<times> block) res" where
  "scan_token seps [] = Inl MemFault"
| "scan_token seps (c # cs) =
     (if c = NUL then Inr ([], c # cs)
      else if c \<in> set seps then Inr ([], cs)
      else bindE (scan_token seps cs) (\<lambda>(t, r). Inr (c # t, r)))"

definition strtok :: "string \<Rightarrow> block \<Rightarrow> (string option \<times> block) res" where
  "strtok seps mark =
     bindE (skip_seps seps mark) (\<lambda>r.
       if hd r = NUL then Inr (None, r)
       else bindE (scan_token seps r) (\<lambda>(t, r). Inr (Some t, r)))"

text \<open>A token that \<open>strtok\<close> can return.\<close>

definition is_token :: "string \<Rightarrow> string \<Rightarrow> bool" where
  "is_token seps t \<longleftrightarrow> t \<noteq> [] \<and> NUL \<notin> set t \<and> set t \<inter> set seps = {}"

lemma scan_token_sep:
  "NUL \<notin> set t \<Longrightarrow> set t \<inter> set seps = {} \<Longrightarrow> s \<in> set seps \<Longrightarrow> s \<noteq> NUL \<Longrightarrow>
     scan_token seps (t @ s # r) = Inr (t, r)"
  by (induction t) auto

lemma scan_token_end:
  "NUL \<notin> set t \<Longrightarrow> set t \<inter> set seps = {} \<Longrightarrow> scan_token seps (t @ NUL # r) = Inr (t, NUL # r)"
  by (induction t) auto

lemma strtok_sep:
  "is_token seps t \<Longrightarrow> s \<in> set seps \<Longrightarrow> s \<noteq> NUL \<Longrightarrow> strtok seps (t @ s # r) = Inr (Some t, r)"
  using scan_token_sep[of t seps s r] by (cases t) (auto simp: strtok_def is_token_def)

lemma strtok_end: "is_token seps t \<Longrightarrow> strtok seps (t @ NUL # r) = Inr (Some t, NUL # r)"
  using scan_token_end[of t seps r] by (cases t) (auto simp: strtok_def is_token_def)

lemma strtok_none [simp]: "strtok seps (NUL # r) = Inr (None, NUL # r)"
  by (simp add: strtok_def)

text \<open>Scanning only moves forward, which bounds every token loop.\<close>

lemma skip_seps_length: "skip_seps seps b = Inr r \<Longrightarrow> length r \<le> length b \<and> r \<noteq> []"
  by (induction b arbitrary: r) (fastforce split: if_splits)+

lemma scan_token_length:
  "scan_token seps b = Inr (t, r) \<Longrightarrow> length r \<le> length b \<and> NUL \<notin> set t \<and> set t \<inter> set seps = {} \<and>
     (t = [] \<or> length r < length b)"
proof (induction b arbitrary: t r)
  case (Cons c b)
  then show ?case by (fastforce simp: res_simps split: if_splits prod.splits)
qed simp

lemma strtok_shorter:
  assumes "strtok seps b = Inr (Some t, r)"
  shows "length r < length b" and "is_token seps t"
proof -
  from assms obtain b' where b': "skip_seps seps b = Inr b'" "hd b' \<noteq> NUL" "scan_token seps b' = Inr (t, r)"
    by (auto simp: strtok_def res_simps split: if_splits)
  have "hd b' \<notin> set seps" using b'(1) b'(2)
    by (induction b arbitrary: b') (auto split: if_splits)
  with b'(2,3) have t: "t \<noteq> []" by (cases b') (auto simp: res_simps split: if_splits prod.splits)
  note len = skip_seps_length[OF b'(1)] scan_token_length[OF b'(3)]
  from len t show "length r < length b" by auto
  from len t show "is_token seps t" by (simp add: is_token_def)
qed

text \<open>A terminated string keeps its terminator while it is scanned, so scanning never faults.\<close>

lemma skip_seps_ok: "NUL \<in> set b \<Longrightarrow> \<exists>r. skip_seps seps b = Inr r \<and> NUL \<in> set r"
  by (induction b) auto

lemma scan_token_ok: "NUL \<in> set b \<Longrightarrow> \<exists>t r. scan_token seps b = Inr (t, r) \<and> (NUL \<in> set r)"
proof (induction b)
  case (Cons c b)
  then show ?case by (cases "c = NUL") (auto simp: res_simps)
qed simp

lemma strtok_ok: "NUL \<in> set b \<Longrightarrow> \<exists>t r. strtok seps b = Inr (t, r) \<and> NUL \<in> set r"
  using skip_seps_ok[of b seps] scan_token_ok[of _ seps] by (fastforce simp: strtok_def res_simps)

end
