(* ===== verification/IPAccess.thy ===== *)
theory IPAccess
  imports Strtok
begin

text \<open>
  The address filter of \<open>ipaccess.cpp\<close>: \<open>cIPAccess\<close> keeps a list of inclusion and exclusion
  rules over the four octets of an address, a \<open>*\<close> standing for every value; \<open>Validate\<close> applies
  the first rule that matches. The local arrays \<open>oneline\<close>, \<open>buf\<close> and \<open>IP\<close> keep their sizes, and
  the bytes of \<open>IP\<close> that \<open>strncpy\<close> leaves alone are a parameter.
\<close>

definition HRC_IPACCESS_OK :: int where "HRC_IPACCESS_OK = 0"
definition HRC_IPACCESS_IPPARSE_FAILED :: int where "HRC_IPACCESS_IPPARSE_FAILED = 3"
definition HRC_IPACCESS_DENY :: int where "HRC_IPACCESS_DENY = 4"

lemmas ip_codes = HRC_IPACCESS_OK_def HRC_IPACCESS_IPPARSE_FAILED_def HRC_IPACCESS_DENY_def

datatype rule_type = INCLUSION | EXCLUSION

record cIPAccessEntry =
  ip_type :: rule_type
  octant :: "int list"

type_synonym rulelist = "cIPAccessEntry list"

definition cIPAccess_Flush :: "rulelist \<Rightarrow> rulelist" where
  "cIPAccess_Flush rules = []"

text \<open>\<open>strncpy(dst, src, n)\<close> copies up to the terminator and pads with zero bytes.\<close>

fun strncpy_bytes :: "nat \<Rightarrow> block \<Rightarrow> char list res" where
  "strncpy_bytes 0 src = Inr []"
| "strncpy_bytes (Suc n) [] = Inl MemFault"
| "strncpy_bytes (Suc n) (c # src) =
     (if c = NUL then Inr (replicate (Suc n) NUL)
      else bindE (strncpy_bytes n src) (\<lambda>d. Inr (c # d)))"

text \<open>
  The number of a token: \<open>strcmp\<close> on a null token faults; \<open>atoi\<close> converts the \<open>long\<close> that
  \<open>strtol\<close> reads to an \<open>int\<close>, dropping the high bits.
\<close>

definition int_of_long :: "int \<Rightarrow> int" where
  "int_of_long x = sint (word_of_int x :: 32 word)"

definition octval :: "string option \<Rightarrow> int res" where
  "octval pToken =
     (case pToken of
        None \<Rightarrow> Inl MemFault
      | Some t \<Rightarrow> Inr (if t = ''*'' then -1 else int_of_long (atoi t)))"

text \<open>
  The four blocks of \<open>ParseIP\<close> after the copy: \<open>None\<close> is the failure code, otherwise the octets
  read. \<open>IP\<close> has 18 bytes, of which the last two are never written.
\<close>

fun parse_octets :: "nat \<Rightarrow> block \<Rightarrow> int list option res" where
  "parse_octets 0 mark = Inr (Some [])"
| "parse_octets (Suc n) mark =
     bindE (strtok ''.'' mark) (\<lambda>(pToken, mark).
     bindE (octval pToken) (\<lambda>v.
     if v > 255 then Inr None
     else bindE (parse_octets n mark) (\<lambda>vs. Inr (map_option ((#) v) vs))))"

definition cIPAccess_ParseIP :: "block \<Rightarrow> block \<Rightarrow> (int \<times> cIPAccessEntry option) res" where
  "cIPAccess_ParseIP junk pLine =
     bindE (mem_read pLine 0) (\<lambda>c.
     bindE (strncpy_bytes 16 (drop 1 pLine)) (\<lambda>d.
     bindE (parse_octets 4 (d @ drop 16 junk)) (\<lambda>r.
       case r of
         None \<Rightarrow> Inr (HRC_IPACCESS_IPPARSE_FAILED, None)
       | Some vs \<Rightarrow>
           Inr (HRC_IPACCESS_OK,
             Some \<lparr>ip_type = (if c = CHR ''+'' then INCLUSION else EXCLUSION), octant = vs\<rparr>))))"

definition cIPAccess_Add :: "block \<Rightarrow> string \<Rightarrow> rulelist \<Rightarrow> (int \<times> rulelist) res" where
  "cIPAccess_Add junk pIPAddr rules =
     (if length pIPAddr \<ge> 255 then Inl MemFault
      else
        let oneline = cstr pIPAddr in
        if oneline ! 0 \<noteq> CHR ''+'' \<and> oneline ! 0 \<noteq> CHR ''-''
        then Inr (HRC_IPACCESS_IPPARSE_FAILED, rules)
        else bindE (cIPAccess_ParseIP junk oneline) (\<lambda>(rc, pEntry).
          case pEntry of
            Some e \<Rightarrow> Inr (HRC_IPACCESS_OK, rules @ [e])
          | None \<Rightarrow> Inr (HRC_IPACCESS_IPPARSE_FAILED, rules)))"

fun octet_ok :: "int \<Rightarrow> int \<Rightarrow> bool" where
  "octet_ok r v \<longleftrightarrow> r = -1 \<or> r = v"

definition rule_matches :: "cIPAccessEntry \<Rightarrow> cIPAccessEntry \<Rightarrow> bool" where
  "rule_matches pRuleEntry Entry \<longleftrightarrow>
     octet_ok (octant pRuleEntry ! 0) (octant Entry ! 0) \<and>
     octet_ok (octant pRuleEntry ! 1) (octant Entry ! 1) \<and>
     octet_ok (octant pRuleEntry ! 2) (octant Entry ! 2) \<and>
     octet_ok (octant pRuleEntry ! 3) (octant Entry ! 3)"

fun apply_rules :: "cIPAccessEntry \<Rightarrow> rulelist \<Rightarrow> int" where
  "apply_rules Entry [] = HRC_IPACCESS_DENY"
| "apply_rules Entry (r # rules) =
     (if \<not> rule_matches r Entry then apply_rules Entry rules
      else if ip_type r = INCLUSION then HRC_IPACCESS_OK
      else HRC_IPACCESS_DENY)"

text \<open>\<open>buf\<close> has 100 bytes: the sign, 98 bytes of the copy and one that is never written.\<close>

definition cIPAccess_Validate :: "block \<Rightarrow> string \<Rightarrow> rulelist \<Rightarrow> int res" where
  "cIPAccess_Validate junk pIPAddr rules =
     bindE (strncpy_bytes 98 (cstr pIPAddr)) (\<lambda>d.
     bindE (cIPAccess_ParseIP junk (CHR ''+'' # d)) (\<lambda>(rc, Entry).
       case Entry of
         None \<Rightarrow> Inr HRC_IPACCESS_IPPARSE_FAILED
       | Some e \<Rightarrow> Inr (apply_rules e rules)))"

section \<open>Written addresses are read back\<close>

text \<open>A rule as an administrator writes it: \<open>None\<close> is the wildcard.\<close>

type_synonym ip_pattern = "nat option list"

definition show_octet :: "nat option \<Rightarrow> string" where
  "show_octet p = (case p of None \<Rightarrow> ''*'' | Some n \<Rightarrow> show_nat n)"

definition octet_val :: "nat option \<Rightarrow> int" where
  "octet_val p = (case p of None \<Rightarrow> -1 | Some n \<Rightarrow> int n)"

fun show_ip :: "ip_pattern \<Rightarrow> string" where
  "show_ip [] = []"
| "show_ip [p] = show_octet p"
| "show_ip (p # ps) = show_octet p @ CHR ''.'' # show_ip ps"

definition octet_range :: "nat option \<Rightarrow> bool" where
  "octet_range p \<longleftrightarrow> (case p of None \<Rightarrow> True | Some n \<Rightarrow> n \<le> 255)"

definition ip_ok :: "ip_pattern \<Rightarrow> bool" where
  "ip_ok ps \<longleftrightarrow> length ps = 4 \<and> (\<forall>p \<in> set ps. octet_range p)"

lemma show_nat_length: "n \<le> 255 \<Longrightarrow> length (show_nat n) \<le> 3"
  by (subst show_nat.simps, subst show_nat.simps, subst show_nat.simps) auto

lemma show_nat_not: "c \<in> set (show_nat n) \<Longrightarrow> c \<noteq> NUL \<and> c \<noteq> CHR ''.'' \<and> c \<noteq> CHR ''*''"
  using show_nat_digits[of c n] by (auto simp: is_digit_def)

lemma show_octet_token: "is_token ''.'' (show_octet p)"
  using show_nat_not by (auto simp: is_token_def show_octet_def split: option.splits)

lemma show_octet_length: "octet_range p \<Longrightarrow> length (show_octet p) \<le> 3"
  by (auto simp: show_octet_def octet_range_def show_nat_length split: option.splits)

lemma octval_None [simp]: "octval None = Inl MemFault"
  by (simp add: octval_def)

lemma octval_show:
  assumes "octet_range p"
  shows "octval (Some (show_octet p)) = Inr (octet_val p)"
proof (cases p)
  case (Some n)
  have "show_nat n \<noteq> ''*''" using show_nat_not[of "CHR ''*''" n] by auto
  moreover have "atoi (show_nat n) = int n"
    by (simp add: atoi_digits show_nat_digits digits_val_show_nat)
  moreover have "int_of_long (int n) = int n"
    using assms Some by (simp add: int_of_long_def octet_range_def signed_of_nat signed_take_bit_int_eq_self)
  ultimately show ?thesis by (simp add: Some octval_def show_octet_def octet_val_def)
qed (simp add: octval_def show_octet_def octet_val_def)

lemma octet_val_le: "octet_range p \<Longrightarrow> octet_val p \<le> 255"
  by (auto simp: octet_val_def octet_range_def split: option.splits)

lemma parse_octets_show:
  "\<forall>p \<in> set ps. octet_range p \<Longrightarrow> ps \<noteq> [] \<Longrightarrow>
     parse_octets (length ps) (show_ip ps @ NUL # r) = Inr (Some (map octet_val ps))"
proof (induction ps rule: show_ip.induct)
  case (2 p)
  then show ?case
    using octet_val_le[of p] by (simp add: strtok_end show_octet_token octval_show)
next
  case (3 p q ps)
  have "strtok ''.'' (show_ip (p # q # ps) @ NUL # r) = Inr (Some (show_octet p), show_ip (q # ps) @ NUL # r)"
    using strtok_sep[of "''.''" "show_octet p" "CHR ''.''" "show_ip (q # ps) @ NUL # r"]
    by (simp add: show_octet_token)
  moreover have "parse_octets (length (q # ps)) (show_ip (q # ps) @ NUL # r) = Inr (Some (map octet_val (q # ps)))"
    using 3 by simp
  ultimately show ?case
    using 3(2) octet_val_le[of p] by (simp add: octval_show del: show_ip.simps)
qed simp

lemma strncpy_bytes_short:
  "NUL \<notin> set s \<Longrightarrow> length s < n \<Longrightarrow>
     strncpy_bytes n (s @ NUL # r) = Inr (s @ replicate (n - length s) NUL)"
proof (induction n arbitrary: s)
  case (Suc n)
  then show ?case by (cases s) auto
qed simp

lemma show_ip_length: "\<forall>p \<in> set ps. octet_range p \<Longrightarrow> length (show_ip ps) + 1 \<le> 4 * length ps \<or> ps = []"
  by (induction ps rule: show_ip.induct) (use show_octet_length in \<open>fastforce+\<close>)

lemma show_ip_no_NUL: "NUL \<notin> set (show_ip ps)"
  by (induction ps rule: show_ip.induct) (use show_octet_token in \<open>auto simp: is_token_def\<close>)

definition ip_entry :: "rule_type \<Rightarrow> ip_pattern \<Rightarrow> cIPAccessEntry" where
  "ip_entry ty ps = \<lparr>ip_type = ty, octant = map octet_val ps\<rparr>"

definition ip_sign :: "rule_type \<Rightarrow> char" where
  "ip_sign ty = (case ty of INCLUSION \<Rightarrow> CHR ''+'' | EXCLUSION \<Rightarrow> CHR ''-'')"

lemma ParseIP_show:
  assumes "ip_ok ps"
  shows "cIPAccess_ParseIP junk (ip_sign ty # show_ip ps @ NUL # r) =
    Inr (HRC_IPACCESS_OK, Some (ip_entry ty ps))"
proof -
  have len: "length (show_ip ps) < 16" and ne: "ps \<noteq> []"
    using show_ip_length[of ps] assms by (auto simp: ip_ok_def)
  obtain k where k: "16 - length (show_ip ps) = Suc k" using len by (cases "16 - length (show_ip ps)") auto
  have "parse_octets 4 (show_ip ps @ NUL # replicate k NUL @ drop 16 junk) = Inr (Some (map octet_val ps))"
    using parse_octets_show[of ps] assms ne by (simp add: ip_ok_def)
  then show ?thesis
    using strncpy_bytes_short[OF show_ip_no_NUL len] k
    by (cases ty) (simp_all add: cIPAccess_ParseIP_def mem_read_def ip_entry_def ip_sign_def)
qed

lemma Add_show:
  assumes "ip_ok ps"
  shows "cIPAccess_Add junk (ip_sign ty # show_ip ps) rules = Inr (HRC_IPACCESS_OK, rules @ [ip_entry ty ps])"
proof -
  have "length (show_ip ps) < 16" using show_ip_length[of ps] assms by (auto simp: ip_ok_def)
  then show ?thesis
    using ParseIP_show[OF assms, of junk ty "[]"]
    by (cases ty) (simp_all add: cIPAccess_Add_def Let_def cstr_def ip_sign_def)
qed

lemma Validate_show:
  assumes "ip_ok ps"
  shows "cIPAccess_Validate junk (show_ip ps) rules = Inr (apply_rules (ip_entry INCLUSION ps) rules)"
proof -
  have len: "length (show_ip ps) < 98" using show_ip_length[of ps] assms by (auto simp: ip_ok_def)
  then obtain k where k: "98 - length (show_ip ps) = Suc k" by (cases "98 - length (show_ip ps)") auto
  show ?thesis
    using strncpy_bytes_short[OF show_ip_no_NUL len] ParseIP_show[OF assms, of junk INCLUSION "replicate k NUL"] k
    by (simp add: cIPAccess_Validate_def cstr_def ip_sign_def)
qed

fun add_rules :: "block \<Rightarrow> (rule_type \<times> ip_pattern) list \<Rightarrow> rulelist \<Rightarrow> rulelist res" where
  "add_rules junk [] rules = Inr rules"
| "add_rules junk ((ty, ps) # rs) rules =
     bindE (cIPAccess_Add junk (ip_sign ty # show_ip ps) rules) (\<lambda>(_, rules). add_rules junk rs rules)"

lemma add_rules_ok:
  "\<forall>(ty, ps) \<in> set rs. ip_ok ps \<Longrightarrow>
     add_rules junk rs rules = Inr (rules @ map (\<lambda>(ty, ps). ip_entry ty ps) rs)"
  by (induction rs arbitrary: rules) (auto simp: Add_show)

text \<open>What a rule file means: the first rule whose pattern covers the address decides.\<close>

definition covers :: "ip_pattern \<Rightarrow> nat list \<Rightarrow> bool" where
  "covers ps ns \<longleftrightarrow> list_all2 (\<lambda>p n. p = None \<or> p = Some n) ps ns"

lemma rule_matches_covers:
  assumes "ip_ok ps" and "length ns = 4"
  shows "rule_matches (ip_entry ty ps) (ip_entry ty' (map Some ns)) \<longleftrightarrow> covers ps ns"
proof -
  obtain a b c d where "ps = [a, b, c, d]"
    using assms(1) by (auto simp: ip_ok_def eval_nat_numeral length_Suc_conv)
  moreover obtain i j k l where "ns = [i, j, k, l]"
    using assms(2) by (auto simp: eval_nat_numeral length_Suc_conv)
  ultimately show ?thesis
    by (auto simp: rule_matches_def covers_def ip_entry_def octet_val_def split: option.splits)
qed

section \<open>Properties\<close>

text \<open>(C31) Rules written in the documented form are all accepted, and an address is let in exactly
  when the first rule whose pattern covers it is an inclusion rule; an address that no rule
  covers is denied.\<close>

theorem first_matching_rule_decides:
  assumes "\<forall>(ty, ps) \<in> set rs. ip_ok ps" and "length ns = 4" and "\<forall>n \<in> set ns. n \<le> 255"
  shows "\<exists>rules. add_rules junk rs [] = Inr rules \<and>
    cIPAccess_Validate junk (show_ip (map Some ns)) rules =
      Inr (case find (\<lambda>(ty, ps). covers ps ns) rs of
             Some (INCLUSION, ps) \<Rightarrow> HRC_IPACCESS_OK
           | Some (EXCLUSION, ps) \<Rightarrow> HRC_IPACCESS_DENY
           | None \<Rightarrow> HRC_IPACCESS_DENY)"
proof -
  have ok: "ip_ok (map Some ns)" using assms(2,3) by (auto simp: ip_ok_def octet_range_def)
  have "apply_rules (ip_entry INCLUSION (map Some ns)) (map (\<lambda>(ty, ps). ip_entry ty ps) rs) =
      (case find (\<lambda>(ty, ps). covers ps ns) rs of
         Some (INCLUSION, ps) \<Rightarrow> HRC_IPACCESS_OK
       | Some (EXCLUSION, ps) \<Rightarrow> HRC_IPACCESS_DENY
       | None \<Rightarrow> HRC_IPACCESS_DENY)"
    using assms(1)
  proof (induction rs)
    case (Cons r rs)
    then show ?case
      using rule_matches_covers[of "snd r" ns "fst r"] assms(2)
      by (cases r) (auto simp: ip_entry_def split: rule_type.splits)
  qed simp
  then show ?thesis using add_rules_ok[OF assms(1), of junk "[]"] Validate_show[OF ok] by simp
qed

theorem first_matching_rule_decides_witness:
  "\<exists>rules. add_rules (replicate 18 NUL)
      [(EXCLUSION, [Some 10, Some 0, Some 0, Some 7]), (INCLUSION, [Some 10, None, None, None])] [] = Inr rules \<and>
    cIPAccess_Validate (replicate 18 NUL) ''10.0.0.8'' rules = Inr HRC_IPACCESS_OK"
proof -
  have "show_ip (map Some [10, 0, 0, 8]) = ''10.0.0.8''" by code_simp
  moreover have "find (\<lambda>(ty, ps). covers ps [10, 0, 0, 8])
      [(EXCLUSION, [Some 10, Some 0, Some 0, Some 7]), (INCLUSION, [Some 10, None, None, None])] =
      Some (INCLUSION, [Some 10, None, None, None])" by (simp add: covers_def)
  ultimately show ?thesis
    using first_matching_rule_decides[of "[(EXCLUSION, [Some 10, Some 0, Some 0, Some 7]),
      (INCLUSION, [Some 10, None, None, None])]" "[10, 0, 0, 8]" "replicate 18 NUL"]
    by (simp add: ip_ok_def octet_range_def)
qed

lemma parse_octets_short:
  "length ps < n \<Longrightarrow> ps \<noteq> [] \<Longrightarrow> \<forall>p \<in> set ps. octet_range p \<Longrightarrow>
     parse_octets n (show_ip ps @ NUL # r) = Inl MemFault"
proof (induction ps arbitrary: n rule: show_ip.induct)
  case (2 p)
  then obtain k where "n = Suc (Suc k)" by (metis One_nat_def length_Cons less_iff_Suc_add list.size(3) add_Suc_right add.commute Suc_lessE)
  then show ?case using 2 octet_val_le[of p]
    by (simp add: strtok_end show_octet_token octval_show)
next
  case (3 p q ps)
  then obtain k where n: "n = Suc k" by (cases n) auto
  have "strtok ''.'' (show_ip (p # q # ps) @ NUL # r) = Inr (Some (show_octet p), show_ip (q # ps) @ NUL # r)"
    using strtok_sep[of "''.''" "show_octet p" "CHR ''.''" "show_ip (q # ps) @ NUL # r"]
    by (simp add: show_octet_token)
  moreover have "parse_octets k (show_ip (q # ps) @ NUL # r) = Inl MemFault"
    using 3 n by simp
  ultimately show ?case
    using 3(4) octet_val_le[of p] n by (simp add: octval_show del: show_ip.simps)
qed simp

text \<open>An address or rule with fewer than four octets makes \<open>ParseIP\<close> compare a null token:
  validating it faults instead of returning the failure code.\<close>

theorem short_address_faults:
  assumes "0 < length ns" and "length ns < 4" and "\<forall>n \<in> set ns. n \<le> 255"
  shows "cIPAccess_Validate junk (show_ip (map Some ns)) rules = Inl MemFault"
proof -
  define ps where "ps = map Some ns"
  have r: "\<forall>p \<in> set ps. octet_range p" and ne: "ps \<noteq> []" "length ps < 4"
    using assms by (auto simp: ps_def octet_range_def)
  have len: "length (show_ip ps) < 16" using show_ip_length[OF r] ne by auto
  obtain k where k: "98 - length (show_ip ps) = Suc k" using len by (cases "98 - length (show_ip ps)") auto
  obtain j where j: "16 - length (show_ip ps) = Suc j" using len by (cases "16 - length (show_ip ps)") auto
  have "strncpy_bytes 98 (cstr (show_ip ps)) = Inr (show_ip ps @ NUL # replicate k NUL)"
    using strncpy_bytes_short[OF show_ip_no_NUL, of ps 98 "[]"] len k by (simp add: cstr_def)
  moreover have "strncpy_bytes 16 (show_ip ps @ NUL # replicate k NUL) = Inr (show_ip ps @ NUL # replicate j NUL)"
    using strncpy_bytes_short[OF show_ip_no_NUL len] j by simp
  ultimately show ?thesis
    using parse_octets_short[OF ne(2,1) r]
    by (simp add: cIPAccess_Validate_def cIPAccess_ParseIP_def mem_read_def flip: ps_def)
qed

theorem short_address_faults_witness:
  "cIPAccess_Validate (replicate 18 NUL) ''10.0.1'' [] = Inl MemFault"
proof -
  have "show_ip (map Some [10, 0, 1]) = ''10.0.1''" by code_simp
  then show ?thesis using short_address_faults[of "[10, 0, 1]" "replicate 18 NUL" "[]"] by simp
qed

end
