(* ===== verification/Tuples.thy ===== *)
theory Tuples
  imports Strtok OrdMap
begin

text \<open>
  The tuple store of \<open>tuples.cpp\<close>: an ordered map of strings that can be written out as a stream
  \<open>key|value|key|value|\<close> and read back with \<open>strtok\<close>.
\<close>

type_synonym tuples = "string omap"

text \<open>\<open>Query\<close> returns the C string of the value, or null.\<close>

definition cTuples_Query :: "string \<Rightarrow> tuples \<Rightarrow> string option" where
  "cTuples_Query pKey m = map_option c_prefix (om_find pKey m)"

definition cTuples_AddTuple :: "string \<Rightarrow> string \<Rightarrow> tuples \<Rightarrow> tuples" where
  "cTuples_AddTuple pKey pValue m =
     (case om_find pKey m of
        None \<Rightarrow> om_insert pKey pValue m
      | Some _ \<Rightarrow> om_assign pKey pValue m)"

text \<open>
  The loop of \<open>AddTupleStream\<close>, entered with \<open>pToken1\<close>; it alternates between keys and values
  and stops at the first null token.
\<close>

function tuple_loop :: "string \<Rightarrow> block \<Rightarrow> tuples \<Rightarrow> tuples res" where
  "tuple_loop pToken1 mark m =
     bindE (strtok ''|'' mark) (\<lambda>(pToken2, mark).
       case pToken2 of
         None \<Rightarrow> Inr m
       | Some v \<Rightarrow>
           bindE (strtok ''|'' mark) (\<lambda>(tok, mark).
             case tok of
               None \<Rightarrow> Inr (cTuples_AddTuple pToken1 v m)
             | Some k \<Rightarrow> tuple_loop k mark (cTuples_AddTuple pToken1 v m)))"
  by pat_completeness auto
termination
  by (relation "measure (\<lambda>(k, mark, m). length mark)") (auto dest!: strtok_shorter(1))

declare tuple_loop.simps [simp del]

definition cTuples_AddTupleStream :: "string \<Rightarrow> tuples \<Rightarrow> tuples res" where
  "cTuples_AddTupleStream pstring m =
     bindE (strtok ''|'' (cstr pstring)) (\<lambda>(pToken1, mark).
       case pToken1 of
         None \<Rightarrow> Inr m
       | Some k \<Rightarrow> tuple_loop k mark m)"

fun stream_loop :: "tuples \<Rightarrow> string \<Rightarrow> string" where
  "stream_loop [] stream = stream"
| "stream_loop ((k, v) # m) stream = stream_loop m (stream @ k @ ''|'' @ v @ ''|'')"

definition cTuples_GetTupleStream :: "tuples \<Rightarrow> string" where
  "cTuples_GetTupleStream m = stream_loop m []"

section \<open>Streams\<close>

fun pairs_stream :: "(string \<times> string) list \<Rightarrow> string" where
  "pairs_stream [] = []"
| "pairs_stream ((k, v) # es) = k @ CHR ''|'' # v @ CHR ''|'' # pairs_stream es"

lemma stream_loop_pairs: "stream_loop m s = s @ pairs_stream m"
  by (induction m s rule: stream_loop.induct) auto

lemma AddTuple_assign: "om_inv m \<Longrightarrow> cTuples_AddTuple k v m = om_assign k v m"
  by (simp add: cTuples_AddTuple_def om_insert_def split: option.split)

lemma tuple_loop_pairs:
  "is_token ''|'' k \<Longrightarrow> is_token ''|'' v \<Longrightarrow> \<forall>(k, v) \<in> set es. is_token ''|'' k \<and> is_token ''|'' v \<Longrightarrow>
   om_inv m \<Longrightarrow>
   tuple_loop k (v @ CHR ''|'' # pairs_stream es @ [NUL]) m =
     Inr (fold (\<lambda>(k, v). om_assign k v) ((k, v) # es) m)"
proof (induction es arbitrary: k v m)
  case Nil
  then show ?case
    by (subst tuple_loop.simps) (simp add: strtok_sep AddTuple_assign)
next
  case (Cons e es)
  obtain k' v' where e: "e = (k', v')" by (cases e)
  with Cons.prems have tok: "is_token ''|'' k'" "is_token ''|'' v'" by auto
  have "strtok ''|'' (k' @ CHR ''|'' # v' @ CHR ''|'' # pairs_stream es @ [NUL]) =
      Inr (Some k', v' @ CHR ''|'' # pairs_stream es @ [NUL])"
    using tok by (simp add: strtok_sep)
  with Cons.prems tok Cons.IH[OF tok _ om.inv_assign[OF Cons.prems(4)]] e show ?case
    by (subst tuple_loop.simps) (simp add: strtok_sep AddTuple_assign)
qed

lemma AddTupleStream_pairs:
  assumes "\<forall>(k, v) \<in> set es. is_token ''|'' k \<and> is_token ''|'' v" and "om_inv m"
  shows "cTuples_AddTupleStream (pairs_stream es) m = Inr (fold (\<lambda>(k, v). om_assign k v) es m)"
proof (cases es)
  case Nil
  then show ?thesis by (simp add: cTuples_AddTupleStream_def cstr_def)
next
  case (Cons e es')
  obtain k v where "e = (k, v)" by (cases e)
  with Cons assms show ?thesis
    using tuple_loop_pairs[of k v es' m] by (simp add: cTuples_AddTupleStream_def cstr_def strtok_sep)
qed

section \<open>Properties\<close>

text \<open>Writing a tuple store out and reading the stream into an empty store gives the same
  store, and into any store overlays it, when every key and value is non-empty and free of the
  separator. An empty value is lost on the way and takes the next key in its place: the key
  and value that follow no longer belong together.\<close>

theorem tuple_stream_roundtrip:
  assumes "om_inv m" and "\<forall>(k, v) \<in> set m. is_token ''|'' k \<and> is_token ''|'' v"
  shows "cTuples_AddTupleStream (cTuples_GetTupleStream m) [] = Inr m
    \<and> (om_inv old \<longrightarrow> (\<exists>new. cTuples_AddTupleStream (cTuples_GetTupleStream m) old = Inr new \<and>
          om_inv new \<and> (\<forall>k. om_find k new = (case om_find k m of Some v \<Rightarrow> Some v | None \<Rightarrow> om_find k old))))
    \<and> (\<forall>a b c. is_token ''|'' a \<longrightarrow> is_token ''|'' b \<longrightarrow> is_token ''|'' c \<longrightarrow>
          cTuples_AddTupleStream (cTuples_GetTupleStream [(a, []), (b, c)]) [] = Inr [(a, b)])"
proof (intro conjI impI allI)
  have stream: "cTuples_GetTupleStream m = pairs_stream m" for m
    by (simp add: cTuples_GetTupleStream_def stream_loop_pairs)
  show "cTuples_AddTupleStream (cTuples_GetTupleStream m) [] = Inr m"
    using AddTupleStream_pairs[OF assms(2) om.inv_empty] om_rebuild[OF assms(1) refl] by (simp add: stream)
  assume old: "om_inv old"
  show "\<exists>new. cTuples_AddTupleStream (cTuples_GetTupleStream m) old = Inr new \<and> om_inv new \<and>
      (\<forall>k. om_find k new = (case om_find k m of Some v \<Rightarrow> Some v | None \<Rightarrow> om_find k old))"
    using AddTupleStream_pairs[OF assms(2) old] om.assign_all[OF old, of m]
      map_of_inject_set[of "rev m" m] om_inv_distinct[OF assms(1)]
    by (simp add: stream om_find_def flip: rev_map)
next
  fix a b c assume t: "is_token ''|'' a" "is_token ''|'' b" "is_token ''|'' c"
  then have skip: "strtok ''|'' (CHR ''|'' # b @ r) = strtok ''|'' (b @ r)" for r
    by (simp add: strtok_def)
  show "cTuples_AddTupleStream (cTuples_GetTupleStream [(a, []), (b, c)]) [] = Inr [(a, b)]"
    using t
    by (simp add: cTuples_AddTupleStream_def cTuples_GetTupleStream_def cstr_def strtok_sep
        tuple_loop.simps[of a] tuple_loop.simps[of c] skip AddTuple_assign[OF om.inv_empty])
qed

theorem tuple_stream_roundtrip_witness:
  "cTuples_AddTupleStream (cTuples_GetTupleStream [(''cpu'', ''x86''), (''os'', ''linux'')]) [] =
     Inr [(''cpu'', ''x86''), (''os'', ''linux'')]"
  by (rule tuple_stream_roundtrip[THEN conjunct1]) (simp_all add: om_inv_def is_token_def)

end
