(* ===== verification/Base64.thy ===== *)
theory Base64
  imports Buffer
begin

text \<open>
  The Base64 codec \<open>cBase64\<close> (\<open>base64.h\<close>, \<open>base64.cpp\<close>). \<open>Encode\<close> and \<open>Decode\<close> translate a
  \<open>cBuffer\<close> in place, through an internal buffer that is kept between calls. The loops collect
  three input bytes (four input characters) in a small array and emit a group whenever it is
  full; the model collects the group in a list and returns what the loop stores, byte by byte
  from the start of the internal block, as one list that is then stored there.

  Shown: the bytes emitted always fit the internal buffer, decoding inverts encoding, and the
  encoded text has the expected length and alphabet. Sizes have no bound here; \<open>Base64Int\<close> has the
  operations with the 32-bit integers of the source, which agree below \<open>2 ^ 30 - 4\<close> bytes.
\<close>

unbundle bit_operations_syntax

record cBase64 =
  m_status :: int
  m_InternalBuffer :: cBuffer

definition HRC_BASE64_OK :: int where "HRC_BASE64_OK = 0"

definition cBase64_new :: cBase64 where
  "cBase64_new = \<lparr>m_status = HRC_BASE64_OK, m_InternalBuffer = cBuffer_new\<rparr>"

text \<open>The table of 65 characters; the last one is the terminator of the literal.\<close>

definition base64 :: string where
  "base64 = ''ABCDEFGHIJKLMNOPQRSTUVWXYZabcdefghijklmnopqrstuvwxyz0123456789+/'' @ [NUL]"

definition is_alnum :: "char \<Rightarrow> bool" where
  "is_alnum c \<longleftrightarrow> (let n = (of_char c :: nat) in
     48 \<le> n \<and> n \<le> 57 \<or> 65 \<le> n \<and> n \<le> 90 \<or> 97 \<le> n \<and> n \<le> 122)"

definition is_base64 :: "char \<Rightarrow> bool" where
  "is_base64 c \<longleftrightarrow> is_alnum c \<or> c = CHR ''+'' \<or> c = CHR ''/''"

text \<open>\<open>find\<close>, and its result as the \<open>unsigned char\<close> it is stored in.\<close>

definition base64_find :: "char \<Rightarrow> int" where
  "base64_find c = (case char_find base64 c of Some i \<Rightarrow> int i | None \<Rightarrow> -1)"

definition find_byte :: "char \<Rightarrow> 8 word" where
  "find_byte c = word_of_int (base64_find c)"

section \<open>Encoding\<close>

definition enc_group :: "8 word \<Rightarrow> 8 word \<Rightarrow> 8 word \<Rightarrow> 8 word list" where
  "enc_group a b c =
     [drop_bit 2 (a AND 0xfc),
      push_bit 4 (a AND 0x03) + drop_bit 4 (b AND 0xf0),
      push_bit 2 (b AND 0x0f) + drop_bit 6 (c AND 0xc0),
      c AND 0x3f]"

definition enc_chars :: "8 word \<Rightarrow> 8 word \<Rightarrow> 8 word \<Rightarrow> string" where
  "enc_chars a b c = map (\<lambda>w. base64 ! unat w) (enc_group a b c)"

text \<open>The main loop: the output and the bytes left in \<open>char_array_3\<close>.\<close>

fun enc_loop :: "8 word list \<Rightarrow> 8 word list \<Rightarrow> string \<times> 8 word list" where
  "enc_loop arr [] = ([], arr)"
| "enc_loop arr (b # bs) =
     (let arr = arr @ [b] in
      if length arr = 3
      then (let (out, rest) = enc_loop [] bs
            in (enc_chars (arr ! 0) (arr ! 1) (arr ! 2) @ out, rest))
      else enc_loop arr bs)"

definition enc_tail :: "8 word list \<Rightarrow> string" where
  "enc_tail arr =
     (let i = length arr in
      if i = 0 then []
      else
        (let arr = arr @ replicate (3 - i) 0 in
         take (i + 1) (enc_chars (arr ! 0) (arr ! 1) (arr ! 2)) @ replicate (3 - i) (CHR ''='')))"

definition enc_bytes :: "string \<Rightarrow> string" where
  "enc_bytes s = (let (out, rest) = enc_loop [] (map byte_of s) in out @ enc_tail rest)"

text \<open>Both operations store their output in the internal buffer and copy it back.\<close>

definition store_result ::
    "malloc \<Rightarrow> int \<Rightarrow> string \<Rightarrow> cBase64 \<Rightarrow> cBuffer \<Rightarrow> (int \<times> cBase64 \<times> cBuffer) res" where
  "store_result ml iSize out c b =
     bindE (cBuffer_SetBufferSize ml iSize (cBuffer_Reset (m_InternalBuffer c))) (\<lambda>ib.
     bindE (mem_put (deref (m_pBuffer ib)) 0 out) (\<lambda>blk.
     bindE (cBuffer_ReplaceWith ml (Some blk) (int (length out)) b) (\<lambda>(_, b).
     Inr (HRC_BASE64_OK,
       c\<lparr>m_InternalBuffer := set_block blk ib, m_status := HRC_BASE64_OK\<rparr>, b))))"

definition cBase64_Encode :: "malloc \<Rightarrow> cBase64 \<Rightarrow> cBuffer \<Rightarrow> (int \<times> cBase64 \<times> cBuffer) res" where
  "cBase64_Encode ml c b =
     bindE (mem_get (deref (m_pBuffer b)) 0 (m_iTail b)) (\<lambda>s.
     store_result ml (m_iTail b * 2) (enc_bytes s) c b)"

section \<open>Decoding\<close>

definition dec_group :: "8 word \<Rightarrow> 8 word \<Rightarrow> 8 word \<Rightarrow> 8 word \<Rightarrow> 8 word list" where
  "dec_group a b c d =
     [push_bit 2 a + drop_bit 4 (b AND 0x30),
      push_bit 4 (b AND 0xf) + drop_bit 2 (c AND 0x3c),
      push_bit 6 (c AND 0x3) + d]"

definition dec_array :: "char list \<Rightarrow> 8 word list" where
  "dec_array arr =
     dec_group (find_byte (arr ! 0)) (find_byte (arr ! 1)) (find_byte (arr ! 2)) (find_byte (arr ! 3))"

fun dec_loop :: "char list \<Rightarrow> string \<Rightarrow> 8 word list \<times> char list" where
  "dec_loop arr [] = ([], arr)"
| "dec_loop arr (c # cs) =
     (if c \<noteq> CHR ''='' \<and> is_base64 c then
        (let arr = arr @ [c] in
         if length arr = 4
         then (let (out, rest) = dec_loop [] cs in (dec_array arr @ out, rest))
         else dec_loop arr cs)
      else ([], arr))"

definition dec_tail :: "char list \<Rightarrow> 8 word list" where
  "dec_tail arr =
     (let i = length arr in
      if i = 0 then [] else take (i - 1) (dec_array (arr @ replicate (4 - i) NUL)))"

definition dec_bytes :: "string \<Rightarrow> string" where
  "dec_bytes s = map char_of_byte (let (out, rest) = dec_loop [] s in out @ dec_tail rest)"

definition cBase64_Decode :: "malloc \<Rightarrow> cBase64 \<Rightarrow> cBuffer \<Rightarrow> (int \<times> cBase64 \<times> cBuffer) res" where
  "cBase64_Decode ml c b =
     bindE (mem_get (deref (m_pBuffer b)) 0 (m_iTail b)) (\<lambda>s.
     store_result ml (m_iTail b) (dec_bytes s) c b)"

section \<open>The two group functions are inverse\<close>

lemma or_add: "(x :: 8 word) AND y = 0 \<Longrightarrow> x + y = x OR y"
  by (simp add: disjunctive_add_eq_or)

lemma enc_group_or:
  "enc_group a b c =
     [drop_bit 2 (a AND 0xfc), push_bit 4 (a AND 0x03) OR drop_bit 4 (b AND 0xf0),
      push_bit 2 (b AND 0x0f) OR drop_bit 6 (c AND 0xc0), c AND 0x3f]"
proof -
  have "push_bit 4 (a AND 3) AND drop_bit 4 (b AND 0xf0) = 0"
    "push_bit 2 (b AND 0xf) AND drop_bit 6 (c AND 0xc0) = 0"
    by (simp_all add: word8_bits bit_simps)
  then show ?thesis by (simp add: enc_group_def or_add)
qed

lemma dec_enc_group:
  assumes "enc_group a b c = [p, q, r, s]"
  shows "dec_group p q r s = [a, b, c]" and "dec_group p q r' s' ! 0 = a"
    and "dec_group p q r s' ! 1 = b"
proof -
  have pqrs: "p = drop_bit 2 (a AND 0xfc)" "q = push_bit 4 (a AND 0x03) OR drop_bit 4 (b AND 0xf0)"
    "r = push_bit 2 (b AND 0x0f) OR drop_bit 6 (c AND 0xc0)" "s = c AND 0x3f"
    using assms by (simp_all add: enc_group_or)
  have "push_bit 2 p AND drop_bit 4 (q AND 0x30) = 0" "push_bit 2 p OR drop_bit 4 (q AND 0x30) = a"
    unfolding pqrs by (simp_all add: word8_bits bit_simps)
  then have a: "push_bit 2 p + drop_bit 4 (q AND 0x30) = a" by (simp add: or_add)
  have "push_bit 4 (q AND 0xf) AND drop_bit 2 (r AND 0x3c) = 0"
    "push_bit 4 (q AND 0xf) OR drop_bit 2 (r AND 0x3c) = b"
    unfolding pqrs by (simp_all add: word8_bits bit_simps)
  then have b: "push_bit 4 (q AND 0xf) + drop_bit 2 (r AND 0x3c) = b" by (simp add: or_add)
  have "push_bit 6 (r AND 0x3) AND s = 0" "push_bit 6 (r AND 0x3) OR s = c"
    unfolding pqrs by (simp_all add: word8_bits bit_simps)
  then have c: "push_bit 6 (r AND 0x3) + s = c" by (simp add: or_add)
  show "dec_group p q r s = [a, b, c]" "dec_group p q r' s' ! 0 = a" "dec_group p q r s' ! 1 = b"
    unfolding dec_group_def a b c by simp_all
qed

lemma low6_less: "unat (w AND 0x3f :: 8 word) < 64"
proof -
  have "w AND 0x3f \<le> 0x3f" by (rule word_and_le1)
  then show ?thesis by (simp add: word_le_nat_alt)
qed

lemma enc_group_less: "w \<in> set (enc_group a b c) \<Longrightarrow> unat w < 64"
proof -
  assume "w \<in> set (enc_group a b c)"
  then have "w = w AND 0x3f" by (auto simp: enc_group_or word8_bits bit_simps)
  with low6_less[of w] show ?thesis by simp
qed

section \<open>The alphabet\<close>

lemma base64_distinct: "distinct base64"
  by (simp add: base64_def)

lemma base64_class:
  "list_all (\<lambda>c. is_base64 c \<and> c \<noteq> CHR ''='' \<and> c \<noteq> CHR ''|'') (butlast base64)"
  by (simp add: base64_def is_base64_def is_alnum_def)

lemma char_find_distinct: "distinct s \<Longrightarrow> i < length s \<Longrightarrow> char_find s (s ! i) = Some i"
proof (induction s arbitrary: i)
  case (Cons c cs)
  then show ?case by (cases i) auto
qed simp

lemma alphabet:
  assumes "i < 64"
  shows "is_base64 (base64 ! i)" "base64 ! i \<noteq> CHR ''=''" "base64 ! i \<noteq> CHR ''|''"
    "char_find base64 (base64 ! i) = Some i"
proof -
  have len: "length base64 = 65" by (simp add: base64_def)
  with assms have "base64 ! i \<in> set (butlast base64)"
    using nth_mem[of i "butlast base64"] by (simp add: nth_butlast)
  with base64_class show "is_base64 (base64 ! i)" "base64 ! i \<noteq> CHR ''=''" "base64 ! i \<noteq> CHR ''|''"
    by (auto simp: list_all_iff)
  show "char_find base64 (base64 ! i) = Some i"
    using char_find_distinct[OF base64_distinct] len assms by simp
qed

lemma find_byte_alphabet: "unat w < 64 \<Longrightarrow> find_byte (base64 ! unat w) = w"
  by (simp add: find_byte_def base64_find_def alphabet(4))

lemma enc_chars_obtain:
  obtains p q r s where "enc_group a b c = [p, q, r, s]" "unat p < 64" "unat q < 64" "unat r < 64"
    "unat s < 64" "enc_chars a b c = [base64 ! unat p, base64 ! unat q, base64 ! unat r, base64 ! unat s]"
proof -
  obtain p q r s where g: "enc_group a b c = [p, q, r, s]" by (simp add: enc_group_def)
  then have "unat p < 64" "unat q < 64" "unat r < 64" "unat s < 64"
    using enc_group_less[of _ a b c] by auto
  with g that show ?thesis by (simp add: enc_chars_def)
qed

section \<open>Round trip\<close>

text \<open>Induction in steps of three bytes.\<close>

fun by_three :: "'a list \<Rightarrow> nat" where
  "by_three (a # b # c # xs) = Suc (by_three xs)"
| "by_three xs = 0"

lemma enc_loop_three:
  "enc_loop [] (a # b # c # bs) = (let (out, rest) = enc_loop [] bs in (enc_chars a b c @ out, rest))"
  by simp

lemma dec_loop_four:
  assumes "is_base64 p" "is_base64 q" "is_base64 r" "is_base64 s"
    "p \<noteq> CHR ''=''" "q \<noteq> CHR ''=''" "r \<noteq> CHR ''=''" "s \<noteq> CHR ''=''"
  shows "dec_loop [] (p # q # r # s # cs) =
    (let (out, rest) = dec_loop [] cs in (dec_array [p, q, r, s] @ out, rest))"
  using assms by simp

definition enc_words :: "8 word list \<Rightarrow> string" where
  "enc_words bs = (let (out, rest) = enc_loop [] bs in out @ enc_tail rest)"

definition dec_words :: "string \<Rightarrow> 8 word list" where
  "dec_words s = (let (out, rest) = dec_loop [] s in out @ dec_tail rest)"

lemma enc_words_three: "enc_words (a # b # c # bs) = enc_chars a b c @ enc_words bs"
  by (simp add: enc_words_def enc_loop_three split: prod.split del: enc_loop.simps(2))

lemma dec_words_group: "dec_words (enc_chars a b c @ cs) = [a, b, c] @ dec_words cs"
proof -
  obtain p q r s where g: "enc_group a b c = [p, q, r, s]" "unat p < 64" "unat q < 64" "unat r < 64"
    "unat s < 64" "enc_chars a b c = [base64 ! unat p, base64 ! unat q, base64 ! unat r, base64 ! unat s]"
    by (rule enc_chars_obtain)
  have "dec_array [base64 ! unat p, base64 ! unat q, base64 ! unat r, base64 ! unat s] = [a, b, c]"
    using g dec_enc_group(1)[OF g(1)] by (simp add: dec_array_def find_byte_alphabet)
  then show ?thesis
    unfolding g(6) dec_words_def using g(2-5)
    by (simp add: dec_loop_four alphabet split: prod.split del: dec_loop.simps(2))
qed

lemma find_byte_NUL: "find_byte NUL = 64"
  by (simp add: find_byte_def base64_find_def base64_def)

lemma dec_words_tail_1: "dec_words (enc_words [a]) = [a]"
proof -
  obtain p q r s where g: "enc_group a 0 0 = [p, q, r, s]" "unat p < 64" "unat q < 64" "unat r < 64"
    "unat s < 64" "enc_chars a 0 0 = [base64 ! unat p, base64 ! unat q, base64 ! unat r, base64 ! unat s]"
    by (rule enc_chars_obtain)
  have "enc_words [a] = [base64 ! unat p, base64 ! unat q, CHR ''='', CHR ''='']"
    by (simp add: enc_words_def enc_tail_def g(6) numeral_2_eq_2)
  then show ?thesis
    using g dec_enc_group(2)[OF g(1), of 64 64]
    by (simp add: dec_words_def alphabet dec_tail_def dec_array_def numeral_2_eq_2 find_byte_alphabet
      find_byte_NUL dec_group_def)
qed

lemma dec_words_tail_2: "dec_words (enc_words [a, b]) = [a, b]"
proof -
  obtain p q r s where g: "enc_group a b 0 = [p, q, r, s]" "unat p < 64" "unat q < 64" "unat r < 64"
    "unat s < 64" "enc_chars a b 0 = [base64 ! unat p, base64 ! unat q, base64 ! unat r, base64 ! unat s]"
    by (rule enc_chars_obtain)
  have "enc_words [a, b] = [base64 ! unat p, base64 ! unat q, base64 ! unat r, CHR ''='']"
    by (simp add: enc_words_def enc_tail_def g(6) numeral_2_eq_2 numeral_3_eq_3)
  then show ?thesis
    using g dec_enc_group(2)[OF g(1), of r 64] dec_enc_group(3)[OF g(1), of 64]
    by (simp add: dec_words_def alphabet dec_tail_def dec_array_def numeral_2_eq_2 find_byte_alphabet
      find_byte_NUL dec_group_def)
qed

lemma dec_enc_words: "dec_words (enc_words bs) = bs"
proof (induction bs rule: by_three.induct)
  case (1 a b c bs)
  then show ?case by (simp only: enc_words_three dec_words_group append.simps)
next
  case "2_1"
  show ?case by (simp add: enc_words_def enc_tail_def dec_words_def dec_tail_def)
qed (simp_all only: dec_words_tail_1 dec_words_tail_2)

lemma dec_enc_bytes: "dec_bytes (enc_bytes s) = s"
proof -
  have "dec_bytes (enc_bytes s) = map char_of_byte (dec_words (enc_words (map byte_of s)))"
    by (simp add: dec_bytes_def enc_bytes_def dec_words_def enc_words_def)
  then show ?thesis by (simp add: dec_enc_words comp_def)
qed

section \<open>Lengths\<close>

lemma length_enc_chars [simp]: "length (enc_chars a b c) = 4"
  by (simp add: enc_chars_def enc_group_def)

lemma length_enc_words: "length (enc_words bs) = 4 * ((length bs + 2) div 3)"
proof (induction bs rule: by_three.induct)
  case (1 a b c bs)
  moreover have "(length (a # b # c # bs) + 2) div 3 = Suc ((length bs + 2) div 3)" by simp
  ultimately show ?case by (simp only: enc_words_three length_append length_enc_chars mult_Suc_right)
qed (simp_all add: enc_words_def enc_tail_def numeral_2_eq_2)

lemma length_enc_bytes: "length (enc_bytes s) = 4 * ((length s + 2) div 3)"
  using length_enc_words[of "map byte_of s"] by (simp add: enc_bytes_def enc_words_def)

lemma length_dec_array [simp]: "length (dec_array arr) = 3"
  by (simp add: dec_array_def dec_group_def)

lemma length_dec_loop:
  "dec_loop arr s = (out, rest) \<Longrightarrow> length arr < 4 \<Longrightarrow>
     length out + length rest \<le> length arr + length s \<and> length rest < 4"
proof (induction arr s arbitrary: out rest rule: dec_loop.induct)
  case (2 arr c cs)
  show ?case
  proof (cases "c \<noteq> CHR ''='' \<and> is_base64 c")
    case ok: True
    show ?thesis
    proof (cases "length arr = 3")
      case True
      obtain o2 r2 where rec: "dec_loop [] cs = (o2, r2)" by fastforce
      with "2.IH"(1)[OF ok refl, of o2 r2] "2.prems" ok True show ?thesis by auto
    next
      case False
      with "2.IH"(2)[OF ok refl, of out rest] "2.prems" ok show ?thesis by auto
    qed
  qed (use "2.prems" in auto)
qed simp

lemma length_dec_bytes: "length (dec_bytes s) \<le> length s"
proof -
  obtain out rest where r: "dec_loop [] s = (out, rest)" by fastforce
  from length_dec_loop[OF r] show ?thesis
    by (auto simp: dec_bytes_def r dec_tail_def Let_def)
qed

section \<open>The codec objects\<close>

text \<open>The invariant of a codec: its internal buffer is well formed and, once allocated, holds at
  least eight bytes, which is what one encoded group needs for the shortest inputs.\<close>

definition b64_inv :: "cBase64 \<Rightarrow> bool" where
  "b64_inv c \<longleftrightarrow> buf_inv (m_InternalBuffer c) \<and>
     (m_pBuffer (m_InternalBuffer c) = None \<or> 8 \<le> m_iBufferSize (m_InternalBuffer c))"

lemma b64_inv_new [simp]: "b64_inv cBase64_new"
  by (simp add: b64_inv_def cBase64_new_def cBuffer_new_def buf_inv_def)

lemma store_result_safe:
  assumes ml: "malloc_spec ml" and c: "b64_inv c" and b: "buf_inv b" and n: "0 \<le> n"
    and out: "int (length out) \<le> max (n + 1) 8"
  shows "safe_res ml (store_result ml n out c b) (\<lambda>(rc, c', b'). rc = HRC_BASE64_OK \<and> b64_inv c' \<and>
    buf_inv b' \<and> buf_contents b' = out)"
proof -
  let ?ib = "cBuffer_Reset (m_InternalBuffer c)"
  have inv: "buf_inv ?ib" using c by (simp add: b64_inv_def buf_inv_Reset)
  have room: "safe_res ml (cBuffer_SetBufferSize ml n ?ib) (\<lambda>ib. (buf_inv ib \<and>
      buf_contents ib = buf_contents ?ib \<and> m_iTail ib = m_iTail ?ib \<and> m_pBuffer ib \<noteq> None \<and>
      n < m_iBufferSize ib) \<and> 8 \<le> m_iBufferSize ib)"
    using c n by (intro safe_res_conj[OF SetBufferSize_safe[OF ml inv n]])
      (auto simp: b64_inv_def cBuffer_Reset_def dest: SetBufferSize_ge8)
  show ?thesis
    unfolding store_result_def
  proof (rule safe_res_bindE[OF room])
    fix ib assume ib: "(buf_inv ib \<and> buf_contents ib = buf_contents ?ib \<and> m_iTail ib = m_iTail ?ib \<and>
      m_pBuffer ib \<noteq> None \<and> n < m_iBufferSize ib) \<and> 8 \<le> m_iBufferSize ib"
    then obtain blk where blk: "m_pBuffer ib = Some blk" by auto
    from ib have "buf_inv ib" and sz8: "n < m_iBufferSize ib" "8 \<le> m_iBufferSize ib" by blast+
    from sz8 buf_inv_SomeD[OF this(1) blk] have sz: "0 \<le> m_iTail ib" "m_iTail ib < m_iBufferSize ib"
      "m_iBufferSize ib \<le> int (length blk)" "8 \<le> m_iBufferSize ib" by blast+
    from sz sz8 have len: "length out \<le> length blk" using out by linarith
    have put: "mem_put (deref (m_pBuffer ib)) 0 out = Inr (out @ drop (length out) blk)"
      using len blk by (simp add: mem_put_0)
    have "b64_inv (c\<lparr>m_InternalBuffer := set_block (out @ drop (length out) blk) ib,
        m_status := HRC_BASE64_OK\<rparr>)"
      using sz blk len by (simp add: b64_inv_def buf_inv_def)
    note inv' = this
    show "safe_res ml (bindE (mem_put (deref (m_pBuffer ib)) 0 out) (\<lambda>blk.
        bindE (cBuffer_ReplaceWith ml (Some blk) (int (length out)) b) (\<lambda>(_, b).
        Inr (HRC_BASE64_OK, c\<lparr>m_InternalBuffer := set_block blk ib, m_status := HRC_BASE64_OK\<rparr>, b))))
      (\<lambda>(rc, c', b'). rc = HRC_BASE64_OK \<and> b64_inv c' \<and> buf_inv b' \<and> buf_contents b' = out)"
      unfolding put bindE.simps
    proof (rule safe_res_bindE[OF ReplaceWith_safe[OF ml b, of "length out" "out @ drop (length out) blk"]])
    qed (use inv' in auto)
  qed
qed

lemma enc_fits: "int (4 * ((n + 2) div 3)) \<le> max (int n * 2 + 1) 8"
proof -
  define q where "q = (n + 2) div 3"
  have "3 * q \<le> n + 2" by (simp add: q_def)
  then have "4 * q \<le> 2 * n + 1 \<or> 4 * q \<le> 8" by linarith
  then show ?thesis unfolding q_def[symmetric] by linarith
qed

lemma Encode_safe:
  assumes "malloc_spec ml" "b64_inv c" "buf_inv b"
  shows "safe_res ml (cBase64_Encode ml c b) (\<lambda>(rc, c', b'). rc = HRC_BASE64_OK \<and> b64_inv c' \<and>
    buf_inv b' \<and> buf_contents b' = enc_bytes (buf_contents b))"
proof -
  have "int (length (enc_bytes (buf_contents b))) \<le> max (m_iTail b * 2 + 1) 8"
    using enc_fits[of "length (buf_contents b)"] length_buf_contents[OF assms(3)]
    by (simp only: length_enc_bytes)
  moreover have "0 \<le> m_iTail b * 2" using length_buf_contents[OF assms(3)] by linarith
  ultimately show ?thesis
    unfolding cBase64_Encode_def get_contents[OF assms(3)] bindE.simps
    by (intro store_result_safe[OF assms])
qed

lemma Decode_safe:
  assumes "malloc_spec ml" "b64_inv c" "buf_inv b"
  shows "safe_res ml (cBase64_Decode ml c b) (\<lambda>(rc, c', b'). rc = HRC_BASE64_OK \<and> b64_inv c' \<and>
    buf_inv b' \<and> buf_contents b' = dec_bytes (buf_contents b))"
proof -
  have "int (length (dec_bytes (buf_contents b))) \<le> max (m_iTail b + 1) 8"
    using length_dec_bytes[of "buf_contents b"] length_buf_contents[OF assms(3)] by linarith
  moreover have "0 \<le> m_iTail b" using length_buf_contents[OF assms(3)] by linarith
  ultimately show ?thesis
    unfolding cBase64_Decode_def get_contents[OF assms(3)] bindE.simps
    by (intro store_result_safe[OF assms])
qed

section \<open>The alphabet of the encoded text\<close>

lemma enc_chars_alphabet: "x \<in> set (enc_chars a b c) \<Longrightarrow> is_base64 x \<and> x \<noteq> CHR ''|''"
  using alphabet enc_group_less by (auto simp: enc_chars_def)

lemma enc_words_alphabet:
  "x \<in> set (enc_words bs) \<Longrightarrow> (is_base64 x \<or> x = CHR ''='') \<and> x \<noteq> CHR ''|''"
proof (induction bs rule: by_three.induct)
  case (1 a b c bs)
  then show ?case by (auto simp: enc_words_three dest: enc_chars_alphabet)
qed (auto simp: enc_words_def enc_tail_def dest!: in_set_takeD enc_chars_alphabet)

lemma enc_bytes_alphabet:
  "x \<in> set (enc_bytes s) \<Longrightarrow> (is_base64 x \<or> x = CHR ''='') \<and> x \<noteq> CHR ''|''"
  using enc_words_alphabet[of x "map byte_of s"] by (simp add: enc_bytes_def enc_words_def)

section \<open>Properties\<close>

text \<open>
  (C33) Encoding a buffer (of less than \<open>2 ^ 30 - 4\<close> bytes, see \<open>Encode_i32_eq\<close>) and decoding the result, with any two codec objects, returns without a
  fault and restores the contents; the encoded text is over the Base64 alphabet with padding and
  has four characters for every three bytes or part of them.
\<close>

theorem base64_roundtrip:
  assumes ml: "malloc_total ml" and c: "b64_inv c1" "b64_inv c2" and b: "buf_inv b"
  shows "\<exists>c1' b1 c2' b2. cBase64_Encode ml c1 b = Inr (HRC_BASE64_OK, c1', b1) \<and>
    cBase64_Decode ml c2 b1 = Inr (HRC_BASE64_OK, c2', b2) \<and> buf_contents b2 = buf_contents b \<and>
    length (buf_contents b1) = 4 * ((length (buf_contents b) + 2) div 3) \<and>
    (\<forall>x \<in> set (buf_contents b1). is_base64 x \<or> x = CHR ''='')"
proof -
  note spec = malloc_total_spec[OF ml]
  obtain c1' b1 where 1: "cBase64_Encode ml c1 b = Inr (HRC_BASE64_OK, c1', b1)" "buf_inv b1"
    "buf_contents b1 = enc_bytes (buf_contents b)"
    using safe_res_total[OF Encode_safe[OF spec c(1) b] ml] by auto
  obtain c2' b2 where 2: "cBase64_Decode ml c2 b1 = Inr (HRC_BASE64_OK, c2', b2)"
    "buf_contents b2 = dec_bytes (buf_contents b1)"
    using safe_res_total[OF Decode_safe[OF spec c(2) 1(2)] ml] by auto
  from 1 2 show ?thesis using enc_bytes_alphabet by (auto simp: dec_enc_bytes length_enc_bytes)
qed

theorem base64_roundtrip_witness:
  "\<exists>c1' b1 c2' b2. cBase64_Encode zero_malloc cBase64_new cBuffer_new = Inr (HRC_BASE64_OK, c1', b1) \<and>
    cBase64_Decode zero_malloc cBase64_new b1 = Inr (HRC_BASE64_OK, c2', b2) \<and>
    buf_contents b2 = buf_contents cBuffer_new \<and>
    length (buf_contents b1) = 4 * ((length (buf_contents cBuffer_new) + 2) div 3) \<and>
    (\<forall>x \<in> set (buf_contents b1). is_base64 x \<or> x = CHR ''='')"
  by (rule base64_roundtrip) (simp_all add: malloc_total_zero)

end
