(* ===== verification/KeyValue.thy ===== *)
theory KeyValue
  imports OrdMap Base64
begin

text \<open>
  The key-value map of \<open>keyvalue.cpp\<close>: an ordered map from strings to buffers it owns, written
  out as a stream \<open>key|value|key|value|\<close>, with the values in Base64 on request, and parsed back.
  Each buffer belongs to one entry, so the map holds the buffers themselves.
\<close>

type_synonym cKeyValue = "cBuffer omap"

definition cKeyValue_Reset :: "cKeyValue \<Rightarrow> cKeyValue" where
  "cKeyValue_Reset m = []"

definition cKeyValue_Count :: "cKeyValue \<Rightarrow> nat" where
  "cKeyValue_Count m = length m"

text \<open>\<open>Set\<close>: the exception of a failing allocation is a \<open>char*\<close>, which its handler does not catch.\<close>

definition cKeyValue_Set :: "malloc \<Rightarrow> string \<Rightarrow> block option \<Rightarrow> int \<Rightarrow> cKeyValue \<Rightarrow> cKeyValue res" where
  "cKeyValue_Set ml pKey pValue iLength m =
     (let (pBuffer, m) =
        (case om_find pKey m of
           None \<Rightarrow> (cBuffer_new, om_insert pKey cBuffer_new m)
         | Some b \<Rightarrow> (b, m))
      in bindE (cBuffer_ReplaceWith ml pValue iLength pBuffer) (\<lambda>(_, b).
         Inr (om_assign pKey b m)))"

definition cKeyValue_Get :: "malloc \<Rightarrow> string \<Rightarrow> cKeyValue \<Rightarrow> cBuffer \<Rightarrow> (cBuffer \<times> cKeyValue) res" where
  "cKeyValue_Get ml pKey m buffer =
     (case om_find pKey m of
        Some b \<Rightarrow>
          bindE (cBuffer_cstr b) (\<lambda>(p, b).
          bindE (cBuffer_ReplaceWith ml p (cBuffer_GetBufferCount b) buffer) (\<lambda>(_, buffer).
          Inr (buffer, om_assign pKey b m)))
      | None \<Rightarrow> Inr (cBuffer_Reset buffer, m))"

text \<open>The body of the loop of \<open>Parse\<close> for one value between \<open>mark\<close> and \<open>idx\<close>.\<close>

definition decode_value :: "malloc \<Rightarrow> bool \<Rightarrow> cBuffer \<Rightarrow> cBuffer res" where
  "decode_value ml bEncoded b =
     (if bEncoded then bindE (cBase64_Decode ml cBase64_new b) (\<lambda>(_, _, b). Inr b) else Inr b)"

definition parse_value ::
    "malloc \<Rightarrow> bool \<Rightarrow> block option \<Rightarrow> int \<Rightarrow> int \<Rightarrow> string \<Rightarrow> cKeyValue \<Rightarrow> cKeyValue res" where
  "parse_value ml bEncoded p mark idx sKey m =
     bindE (cBuffer_ReplaceWith ml (map_option (drop (nat mark)) p) (idx - mark) cBuffer_new) (\<lambda>(_, b).
     bindE (decode_value ml bEncoded b) (\<lambda>b.
     bindE (cBuffer_cstr b) (\<lambda>(pv, b).
     cKeyValue_Set ml (c_prefix sKey) pv (cBuffer_GetBufferCount b) m)))"

lemma fc_loop_range: "fc_loop blk ch i n = Inr r \<Longrightarrow> r \<noteq> -1 \<Longrightarrow> i \<le> r \<and> r < i + int n"
  by (induction n arbitrary: i) (fastforce simp: res_simps split: if_splits)+

lemma FindChar_range:
  "cBuffer_FindChar ch i b = Inr r \<Longrightarrow> r \<noteq> -1 \<Longrightarrow> i \<le> r \<and> r < m_iTail b"
  unfolding cBuffer_FindChar_def by (frule fc_loop_range) (auto split: if_splits)

lemma cstr_tail: "cBuffer_cstr b = Inr (p, b') \<Longrightarrow> m_iTail b' = m_iTail b"
  by (auto simp: cBuffer_cstr_def res_simps split: option.splits)

function parse_loop ::
    "malloc \<Rightarrow> bool \<Rightarrow> cBuffer \<Rightarrow> bool \<Rightarrow> string \<Rightarrow> int \<Rightarrow> int \<Rightarrow> cKeyValue \<Rightarrow> cKeyValue res" where
  "parse_loop ml bEncoded buffer val sKey mark idx m =
     bindE (cBuffer_FindChar (CHR ''|'') idx buffer) (\<lambda>idx.
     if idx = -1 then Inr m
     else
       bindE (cBuffer_cstr buffer) (\<lambda>(p, buffer).
       if \<not> val
       then bindE (mem_get (deref p) mark (idx - mark)) (\<lambda>k.
            parse_loop ml bEncoded buffer True (sKey @ k) (idx + 1) (idx + 1) m)
       else bindE (parse_value ml bEncoded p mark idx sKey m) (\<lambda>m.
            parse_loop ml bEncoded buffer False [] (idx + 1) (idx + 1) m)))"
  by pat_completeness auto
termination
  by (relation "measure (\<lambda>(ml, e, b, v, k, mark, idx, m). nat (m_iTail b - idx))")
    (auto dest!: FindChar_range cstr_tail)

declare parse_loop.simps [simp del]

definition cKeyValue_Parse :: "malloc \<Rightarrow> block option \<Rightarrow> int \<Rightarrow> bool \<Rightarrow> cKeyValue \<Rightarrow> (int \<times> cKeyValue) res" where
  "cKeyValue_Parse ml pStream iLength bEncoded m =
     bindE (cBuffer_ReplaceWith ml pStream iLength cBuffer_new) (\<lambda>(_, buffer).
     bindE (parse_loop ml bEncoded buffer False [] 0 0 m) (\<lambda>m. Inr (0, m)))"

text \<open>
  \<open>GetStream\<close>: one entry is copied into \<open>temp\<close>, encoded there and appended. \<open>cstr\<close> terminates
  the buffer of the entry, so the map comes back with the same contents.
\<close>

fun get_stream_loop ::
    "malloc \<Rightarrow> bool \<Rightarrow> cBuffer \<Rightarrow> cKeyValue \<Rightarrow> string \<Rightarrow> (string \<times> cKeyValue) res" where
  "get_stream_loop ml bEncode temp [] s = Inr (s, [])"
| "get_stream_loop ml bEncode temp ((k, b) # m) s =
     bindE (cBuffer_cstr b) (\<lambda>(p, b).
     bindE (cBuffer_ReplaceWith ml p (cBuffer_GetBufferCount b) temp) (\<lambda>(_, temp).
     bindE (if bEncode then bindE (cBase64_Encode ml cBase64_new temp) (\<lambda>(_, _, t). Inr t)
            else Inr temp) (\<lambda>temp.
     bindE (cBuffer_cstr temp) (\<lambda>(pt, temp).
     bindE (mem_get (deref pt) 0 (cBuffer_GetBufferCount temp)) (\<lambda>v.
     bindE (get_stream_loop ml bEncode temp m (s @ k @ ''|'' @ v @ ''|'')) (\<lambda>(s, m).
     Inr (s, (k, b) # m)))))))"

definition cKeyValue_GetStream :: "malloc \<Rightarrow> string \<Rightarrow> bool \<Rightarrow> cKeyValue \<Rightarrow> (string \<times> cKeyValue) res" where
  "cKeyValue_GetStream ml sBuffer bEncode m = get_stream_loop ml bEncode cBuffer_new m sBuffer"

section \<open>The contents of a map\<close>

definition kv_inv :: "cKeyValue \<Rightarrow> bool" where
  "kv_inv m \<longleftrightarrow> om_inv m \<and> (\<forall>b \<in> snd ` set m. buf_inv b)"

definition kv_contents :: "cKeyValue \<Rightarrow> string omap" where
  "kv_contents m = map (\<lambda>(k, b). (k, buf_contents b)) m"

lemma kv_contents_simps [simp]:
  "kv_contents [] = []" "kv_contents ((k, b) # m) = (k, buf_contents b) # kv_contents m"
  by (simp_all add: kv_contents_def)

lemma kv_contents_assign: "kv_contents (om_assign k b m) = om_assign k (buf_contents b) (kv_contents m)"
  by (induction k b m rule: om_assign.induct) auto

lemma kv_contents_find: "om_find k (kv_contents m) = map_option buf_contents (om_find k m)"
  by (induction m) (auto simp: om_find_def)

lemma om_inv_contents: "om_inv (kv_contents m) = om_inv m"
  by (simp add: om_inv_def kv_contents_def comp_def case_prod_beta)

lemma set_om_assign: "set (om_assign k v m) \<subseteq> insert (k, v) (set m)"
  by (induction k v m rule: om_assign.induct) auto

lemma kv_inv_assign: "kv_inv m \<Longrightarrow> buf_inv b \<Longrightarrow> kv_inv (om_assign k b m)"
  unfolding kv_inv_def by (auto simp: om_assign_inv dest!: subsetD[OF set_om_assign])

lemma kv_inv_find: "kv_inv m \<Longrightarrow> om_find k m = Some b \<Longrightarrow> buf_inv b"
  by (force simp: kv_inv_def om_find_def dest: map_of_SomeD)

lemma om_assign_twice: "om_inv m \<Longrightarrow> om_assign k v (om_assign k u m) = om_assign k v m"
  by (rule om_ext) (simp_all add: om.inv_assign om.find_assign)

text \<open>\<open>cstr\<close> gives a pointer whose first bytes are the contents.\<close>

lemma cstr_ok:
  assumes "buf_inv b"
  shows "\<exists>p b'. cBuffer_cstr b = Inr (p, b') \<and> buf_inv b' \<and> buf_contents b' = buf_contents b \<and>
    m_iTail b' = m_iTail b \<and> take (length (buf_contents b)) (deref p) = buf_contents b \<and>
    (p = None \<longrightarrow> buf_contents b = [])"
proof -
  obtain b' where b': "cBuffer_MakeString b = Inr b'" "buf_inv b'" "buf_contents b' = buf_contents b"
    "m_iTail b' = m_iTail b" using MakeString_ok[OF assms] by blast
  have "cBuffer_cstr b = Inr (m_pBuffer b', b')"
    using b'(1) by (auto simp: cBuffer_cstr_def cBuffer_MakeString_def res_simps split: option.splits)
  moreover have "take (length (buf_contents b)) (deref (m_pBuffer b')) = buf_contents b"
    using b'(3,4) length_buf_contents[OF assms] by (metis buf_contents_def nat_int)
  moreover have "m_pBuffer b' = None \<Longrightarrow> buf_contents b = []"
    using b'(3) by (simp add: buf_contents_def)
  ultimately show ?thesis using b'
    by (intro exI[of _ "m_pBuffer b'"] exI[of _ b']) simp
qed

lemma cstr_length:
  "take (length (buf_contents b)) (deref p) = buf_contents b \<Longrightarrow> length (buf_contents b) \<le> length (deref p)"
  by (metis length_take min.cobounded2 min.commute)

text \<open>\<open>ReplaceWith\<close> from a pointer that may be null.\<close>

lemma replace_ptr:
  assumes "malloc_total ml" and "buf_inv b" and "take n (deref p) = s" and "length s = n"
    and "p = None \<longrightarrow> n = 0"
  shows "\<exists>rc b'. cBuffer_ReplaceWith ml p (int n) b = Inr (rc, b') \<and> buf_inv b' \<and> buf_contents b' = s"
proof (cases p)
  case None
  with assms show ?thesis by (auto simp: cBuffer_ReplaceWith_def buf_inv_Reset)
next
  case (Some blk)
  then have "n \<le> length blk" using assms(3,4) by auto
  from safe_res_total[OF ReplaceWith_safe[OF malloc_total_spec[OF assms(1)] assms(2) this] assms(1)]
  show ?thesis using assms(3) Some by auto
qed

lemma Set_ok:
  assumes "malloc_total ml" and "kv_inv m" and "take n (deref p) = s" and "length s = n"
    and "p = None \<longrightarrow> n = 0"
  shows "\<exists>m'. cKeyValue_Set ml k p (int n) m = Inr m' \<and> kv_inv m' \<and>
    kv_contents m' = om_assign k s (kv_contents m)"
proof -
  obtain b0 m1 where sel: "(case om_find k m of None \<Rightarrow> (cBuffer_new, om_insert k cBuffer_new m)
      | Some b \<Rightarrow> (b, m)) = (b0, m1)" by fastforce
  have "buf_inv b0" "kv_inv m1" "\<And>v. om_assign k v m1 = om_assign k v m"
    using sel assms(2) kv_inv_find[OF assms(2), of k]
    by (auto simp: om_insert_def kv_inv_assign om_assign_twice kv_inv_def om_assign_inv split: option.splits
        dest!: subsetD[OF set_om_assign])
  with replace_ptr[OF assms(1) _ assms(3,4,5), of b0] sel show ?thesis
    by (fastforce simp: cKeyValue_Set_def kv_inv_assign kv_contents_assign assms(2))
qed

section \<open>Streams\<close>

fun kv_stream :: "bool \<Rightarrow> string omap \<Rightarrow> string" where
  "kv_stream enc [] = []"
| "kv_stream enc ((k, v) # m) =
     k @ CHR ''|'' # (if enc then enc_bytes v else v) @ CHR ''|'' # kv_stream enc m"

lemma get_stream_ok:
  "malloc_total ml \<Longrightarrow> (\<forall>b \<in> snd ` set m. buf_inv b) \<Longrightarrow> buf_inv temp \<Longrightarrow>
   \<exists>m'. get_stream_loop ml enc temp m s = Inr (s @ kv_stream enc (kv_contents m), m') \<and>
     kv_contents m' = kv_contents m"
proof (induction m arbitrary: s temp)
  case (Cons e m)
  obtain k b where e: "e = (k, b)" by (cases e)
  note ml = Cons.prems(1)
  define out where "out = (if enc then enc_bytes (buf_contents b) else buf_contents b)"
  have b: "buf_inv b" using Cons.prems(2) e by auto
  obtain p b' where c: "cBuffer_cstr b = Inr (p, b')" "buf_contents b' = buf_contents b"
    "m_iTail b' = m_iTail b" "take (length (buf_contents b)) (deref p) = buf_contents b"
    "p = None \<longrightarrow> buf_contents b = []" using cstr_ok[OF b] by blast
  obtain rc t1 where t1: "cBuffer_ReplaceWith ml p (m_iTail b) temp = Inr (rc, t1)" "buf_inv t1"
    "buf_contents t1 = buf_contents b"
    using replace_ptr[OF ml Cons.prems(3) c(4) refl] c(5) length_buf_contents[OF b] by auto
  obtain t2 where t2: "(if enc then bindE (cBase64_Encode ml cBase64_new t1) (\<lambda>(_, _, t). Inr t) else Inr t1) = Inr t2"
    "buf_inv t2" "buf_contents t2 = out"
    using safe_res_total[OF Encode_safe[OF malloc_total_spec[OF ml] _ t1(2), of cBase64_new] ml] t1 that
    by (cases enc) (auto simp: out_def)
  obtain pt t3 where t3: "cBuffer_cstr t2 = Inr (pt, t3)" "buf_inv t3" "buf_contents t3 = out"
    "m_iTail t3 = m_iTail t2" "take (length out) (deref pt) = out"
    using cstr_ok[OF t2(2)] t2(3) by auto
  have get: "mem_get (deref pt) 0 (m_iTail t3) = Inr out"
    using t3(5) cstr_length[of t2 pt] length_buf_contents[OF t2(2)] t2(3) t3(4)
    by (simp add: mem_get_ok flip: length_buf_contents[OF t2(2)])
  from Cons.IH[OF ml _ t3(2), of "s @ k @ ''|'' @ out @ ''|''"] Cons.prems(2)
  obtain m' where m': "get_stream_loop ml enc t3 m (s @ k @ ''|'' @ out @ ''|'') =
      Inr ((s @ k @ ''|'' @ out @ ''|'') @ kv_stream enc (kv_contents m), m')" "kv_contents m' = kv_contents m"
    by auto
  show ?case
    using m' by (simp add: e c(1-3) t1(1) t2(1) t3(1) get cBuffer_GetBufferCount_def) (simp add: out_def)
qed simp

text \<open>One value of the stream, decoded and stored.\<close>

lemma parse_value_ok:
  assumes ml: "malloc_total ml" and m: "kv_inv m" and k: "NUL \<notin> set k"
    and v: "take (length v) (drop mark (deref p)) = v" and p: "p \<noteq> None"
  shows "\<exists>m'. parse_value ml enc p (int mark) (int (mark + length v)) k m = Inr m' \<and> kv_inv m' \<and>
    kv_contents m' = om_assign k (if enc then dec_bytes v else v) (kv_contents m)"
proof -
  define out where "out = (if enc then dec_bytes v else v)"
  have "take (length v) (deref (map_option (drop mark) p)) = v" using v p by auto
  then obtain rc b1 where b1: "cBuffer_ReplaceWith ml (map_option (drop mark) p) (int (length v)) cBuffer_new
      = Inr (rc, b1)" "buf_inv b1" "buf_contents b1 = v"
    using replace_ptr[OF ml buf_inv_new _ refl] p by fastforce
  obtain b2 where b2: "decode_value ml enc b1 = Inr b2" "buf_inv b2" "buf_contents b2 = out"
    using safe_res_total[OF Decode_safe[OF malloc_total_spec[OF ml] _ b1(2), of cBase64_new] ml] b1 that
    by (cases enc) (auto simp: out_def decode_value_def)
  obtain pv b3 where b3: "cBuffer_cstr b2 = Inr (pv, b3)" "buf_inv b3" "buf_contents b3 = out"
    "take (length out) (deref pv) = out" "pv = None \<longrightarrow> out = []"
    using cstr_ok[OF b2(2)] b2(3) by auto
  obtain m' where "cKeyValue_Set ml k pv (int (length out)) m = Inr m'" "kv_inv m'"
    "kv_contents m' = om_assign k out (kv_contents m)"
    using Set_ok[OF ml m b3(4) refl] b3(5) by auto
  moreover have "m_iTail b3 = int (length out)" using length_buf_contents[OF b3(2)] b3(3) by simp
  ultimately show ?thesis
    using b1(1) b2(1) b3(1)
    by (simp add: parse_value_def cBuffer_GetBufferCount_def c_prefix_id[OF k] out_def)
qed

text \<open>One turn of the loop: the text up to the next separator.\<close>

lemma loop_turn:
  assumes "buf_inv buffer" and c: "buf_contents buffer = pre @ w @ CHR ''|'' # rest"
    and w: "CHR ''|'' \<notin> set w"
  shows "\<exists>p buffer'. buf_inv buffer' \<and> buf_contents buffer' = buf_contents buffer \<and> p \<noteq> None \<and>
    take (length w) (drop (length pre) (deref p)) = w \<and> length pre + length w \<le> length (deref p) \<and>
    parse_loop ml enc buffer val k (int (length pre)) (int (length pre)) m =
      (if \<not> val
       then parse_loop ml enc buffer' True (k @ w) (int (length (pre @ w) + 1)) (int (length (pre @ w) + 1)) m
       else bindE (parse_value ml enc p (int (length pre)) (int (length pre + length w)) k m) (\<lambda>m.
         parse_loop ml enc buffer' False [] (int (length (pre @ w) + 1)) (int (length (pre @ w) + 1)) m))"
proof -
  have find: "cBuffer_FindChar (CHR ''|'') (int (length pre)) buffer = Inr (int (length pre + length w))"
    using FindChar_ok[OF assms(1), of "length pre" "CHR ''|''"] char_find_append[OF w] by (simp add: c)
  obtain p b' where p: "cBuffer_cstr buffer = Inr (p, b')" "buf_inv b'"
    "buf_contents b' = buf_contents buffer"
    "take (length (buf_contents buffer)) (deref p) = buf_contents buffer" "p \<noteq> None"
    using cstr_ok[OF assms(1)] c by auto
  have len: "length pre + length w \<le> length (deref p)"
    using cstr_length[OF p(4)] by (simp add: c)
  have "take (length w) (drop (length pre) (take (length (buf_contents buffer)) (deref p))) = w"
    using p(4) by (simp add: c)
  then have w': "take (length w) (drop (length pre) (deref p)) = w"
    by (simp add: c drop_take take_take min_def)
  have "mem_get (deref p) (int (length pre)) (int (length w)) = Inr w"
    using len w' by (simp add: mem_get_ok)
  then show ?thesis
    using p len w' by (intro exI[of _ p] exI[of _ b']) (subst parse_loop.simps, simp add: find add_ac)
qed

lemma parse_stream_ok:
  "malloc_total ml \<Longrightarrow> kv_inv m \<Longrightarrow> buf_inv buffer \<Longrightarrow>
   buf_contents buffer = pre @ kv_stream enc kvs \<Longrightarrow>
   \<forall>(k, v) \<in> set kvs. NUL \<notin> set k \<and> CHR ''|'' \<notin> set k \<and> (enc \<or> CHR ''|'' \<notin> set v) \<Longrightarrow>
   \<exists>m'. parse_loop ml enc buffer False [] (int (length pre)) (int (length pre)) m = Inr m' \<and> kv_inv m' \<and>
     kv_contents m' = fold (\<lambda>(k, v). om_assign k v) kvs (kv_contents m)"
proof (induction kvs arbitrary: pre m buffer)
  case Nil
  then have "cBuffer_FindChar (CHR ''|'') (int (length pre)) buffer = Inr (-1)"
    using FindChar_ok[of buffer "length pre" "CHR ''|''"] by simp
  with Nil show ?case by (subst parse_loop.simps) simp
next
  case (Cons e kvs)
  obtain k v where e: "e = (k, v)" by (cases e)
  define w where "w = (if enc then enc_bytes v else v)"
  note ml = Cons.prems(1)
  have k: "NUL \<notin> set k" "CHR ''|'' \<notin> set k" and w: "CHR ''|'' \<notin> set w"
    using Cons.prems(5) e enc_bytes_alphabet by (auto simp: w_def)
  have c: "buf_contents buffer = pre @ k @ CHR ''|'' # w @ CHR ''|'' # kv_stream enc kvs"
    using Cons.prems(4) by (simp add: e w_def)
  obtain b1 where b1: "buf_inv b1" "buf_contents b1 = buf_contents buffer"
    "parse_loop ml enc buffer False [] (int (length pre)) (int (length pre)) m =
      parse_loop ml enc b1 True k (int (length (pre @ k) + 1)) (int (length (pre @ k) + 1)) m"
    using loop_turn[OF Cons.prems(3) c k(2), of ml enc False "[]" m] by auto
  define pre1 where "pre1 = pre @ k @ ''|''"
  have "buf_contents b1 = pre1 @ w @ CHR ''|'' # kv_stream enc kvs" using b1(2) c by (simp add: pre1_def)
  from loop_turn[OF b1(1) this w, of ml enc True k m] obtain p b2 where b2: "buf_inv b2"
    "buf_contents b2 = buf_contents b1" "p \<noteq> None" "take (length w) (drop (length pre1) (deref p)) = w"
    "parse_loop ml enc b1 True k (int (length pre1)) (int (length pre1)) m =
      bindE (parse_value ml enc p (int (length pre1)) (int (length pre1 + length w)) k m) (\<lambda>m.
        parse_loop ml enc b2 False [] (int (length (pre1 @ w) + 1)) (int (length (pre1 @ w) + 1)) m)"
    by auto
  from parse_value_ok[OF ml Cons.prems(2) k(1) b2(4,3), of enc] obtain m1 where m1:
    "parse_value ml enc p (int (length pre1)) (int (length pre1 + length w)) k m = Inr m1" "kv_inv m1"
    "kv_contents m1 = om_assign k v (kv_contents m)"
    by (auto simp: w_def dec_enc_bytes split: if_splits)
  define pre2 where "pre2 = pre1 @ w @ ''|''"
  have "buf_contents b2 = pre2 @ kv_stream enc kvs" using b2(2) b1(2) c by (simp add: pre1_def pre2_def)
  from Cons.IH[OF ml m1(2) b2(1) this] Cons.prems(5) obtain m2 where
    "parse_loop ml enc b2 False [] (int (length pre2)) (int (length pre2)) m1 = Inr m2" "kv_inv m2"
    "kv_contents m2 = fold (\<lambda>(k, v). om_assign k v) kvs (kv_contents m1)" by auto
  with b1(3) b2(5) m1(1,3) show ?case by (auto simp: e pre1_def pre2_def)
qed

section \<open>Properties\<close>

text \<open>(C32) A key-value map written out with Base64 values, or without when no value holds the
  separator, and parsed back into an empty map has the same keys with the same bytes, for all
  keys free of the separator and of zero bytes; writing it out leaves its contents unchanged.\<close>

theorem key_value_roundtrip:
  assumes "malloc_total ml" and "kv_inv m"
    and "\<forall>(k, v) \<in> set (kv_contents m). NUL \<notin> set k \<and> CHR ''|'' \<notin> set k \<and> (enc \<or> CHR ''|'' \<notin> set v)"
  shows "\<exists>s m1 m2. cKeyValue_GetStream ml [] enc m = Inr (s, m1) \<and>
    cKeyValue_Parse ml (Some s) (int (length s)) enc [] = Inr (0, m2) \<and>
    kv_contents m1 = kv_contents m \<and> kv_contents m2 = kv_contents m \<and> kv_inv m2"
proof -
  define s where "s = kv_stream enc (kv_contents m)"
  have "\<forall>b \<in> snd ` set m. buf_inv b" using assms(2) by (simp add: kv_inv_def)
  from get_stream_ok[OF assms(1) this buf_inv_new, of enc "[]"] obtain m1 where m1:
    "cKeyValue_GetStream ml [] enc m = Inr (s, m1)" "kv_contents m1 = kv_contents m"
    by (auto simp: cKeyValue_GetStream_def s_def)
  obtain rc b where b: "cBuffer_ReplaceWith ml (Some s) (int (length s)) cBuffer_new = Inr (rc, b)"
    "buf_inv b" "buf_contents b = s"
    using replace_ptr[OF assms(1) buf_inv_new, of "length s" "Some s" s] by auto
  have "kv_inv []" by (simp add: kv_inv_def om.inv_empty)
  from parse_stream_ok[OF assms(1) this b(2), of "[]" enc "kv_contents m"] b(3) assms(3)
  obtain m2 where "parse_loop ml enc b False [] 0 0 [] = Inr m2" "kv_inv m2"
    "kv_contents m2 = fold (\<lambda>(k, v). om_assign k v) (kv_contents m) []" by (auto simp: s_def)
  moreover have "om_inv (kv_contents m)" using assms(2) by (simp add: om_inv_contents kv_inv_def)
  ultimately show ?thesis using m1 b(1) om_rebuild[OF _ refl] by (simp add: cKeyValue_Parse_def)
qed

theorem key_value_roundtrip_witness:
  "\<exists>s m1 m2. cKeyValue_GetStream zero_malloc [] True [(''id'', cBuffer_new)] = Inr (s, m1) \<and>
    cKeyValue_Parse zero_malloc (Some s) (int (length s)) True [] = Inr (0, m2) \<and>
    kv_contents m1 = [(''id'', [])] \<and> kv_contents m2 = [(''id'', [])] \<and> kv_inv m2"
  using key_value_roundtrip[of zero_malloc "[(''id'', cBuffer_new)]" True]
  by (simp add: malloc_total_zero kv_inv_def om_inv_def)

end
