(* ===== verification/Porter.thy ===== *)
theory Porter
  imports Strtok Buffer
begin

text \<open>
  The Porter stemmer of \<open>pstemming.cpp\<close>. The word is a block of bytes addressed from \<open>b\<close>; every
  read and write of the code is checked against that block. A suffix literal of the source
  starts with its length, as in \<open>"\04" "sses"\<close>; here it is the string alone.

  The theorem on \<open>stem\<close> states the comment of the source, that stemming never lengthens a word
  and stays inside it, and describes exactly the words for which the code reads before its
  first byte.
\<close>

section \<open>The word under the stemmer\<close>

record stemmer =
  sb :: block
  sk :: int
  sk0 :: int
  sj :: int

definition is_vowel :: "char \<Rightarrow> bool" where
  "is_vowel c \<longleftrightarrow> c \<in> set ''aeiou''"

function cons_at :: "stemmer \<Rightarrow> int \<Rightarrow> bool res" where
  "cons_at s i =
     bindE (mem_read (sb s) i) (\<lambda>c.
     if is_vowel c then Inr False
     else if c = CHR ''y''
       then (if i = sk0 s then Inr True else bindE (cons_at s (i - 1)) (\<lambda>x. Inr (\<not> x)))
     else Inr True)"
  by pat_completeness auto
termination
  by (relation "measure (\<lambda>(s, i). nat (i + 1))") (auto simp: mem_read_def split: if_splits)

declare cons_at.simps [simp del]

text \<open>The three inner loops of \<open>m\<close> and the loop of \<open>vowelinstem\<close>: \<open>None\<close> when \<open>i\<close> passes \<open>j\<close>.\<close>

function find_kind :: "stemmer \<Rightarrow> bool \<Rightarrow> int \<Rightarrow> int option res" where
  "find_kind s want i =
     (if i > sj s then Inr None
      else bindE (cons_at s i) (\<lambda>x. if x = want then Inr (Some i) else find_kind s want (i + 1)))"
  by pat_completeness auto
termination
  by (relation "measure (\<lambda>(s, want, i). nat (sj s + 1 - i))") auto

declare find_kind.simps [simp del]

lemma find_kind_range: "find_kind s want i = Inr (Some i') \<Longrightarrow> i \<le> i' \<and> i' \<le> sj s"
proof (induction s want i rule: find_kind.induct)
  case (1 s want i)
  then show ?case
    by (subst (asm) (2) find_kind.simps) (fastforce simp: res_simps split: if_splits)
qed

function m_loop :: "stemmer \<Rightarrow> int \<Rightarrow> int \<Rightarrow> int res" where
  "m_loop s n i =
     bindE (find_kind s True i) (\<lambda>r. case r of
       None \<Rightarrow> Inr n
     | Some i \<Rightarrow>
         bindE (find_kind s False (i + 1)) (\<lambda>r. case r of
           None \<Rightarrow> Inr (n + 1)
         | Some i \<Rightarrow> m_loop s (n + 1) (i + 1)))"
  by pat_completeness auto
termination
  by (relation "measure (\<lambda>(s, n, i). nat (sj s + 1 - i))") (auto dest!: find_kind_range)

declare m_loop.simps [simp del]

definition stem_m :: "stemmer \<Rightarrow> int res" where
  "stem_m s =
     bindE (find_kind s False (sk0 s)) (\<lambda>r. case r of
       None \<Rightarrow> Inr 0
     | Some i \<Rightarrow> m_loop s 0 (i + 1))"

definition vowelinstem :: "stemmer \<Rightarrow> bool res" where
  "vowelinstem s = bindE (find_kind s False (sk0 s)) (\<lambda>r. Inr (r \<noteq> None))"

definition doublec :: "stemmer \<Rightarrow> int \<Rightarrow> bool res" where
  "doublec s j =
     (if j < sk0 s + 1 then Inr False
      else
        bindE (mem_read (sb s) j) (\<lambda>c.
        bindE (mem_read (sb s) (j - 1)) (\<lambda>d.
        if c \<noteq> d then Inr False else cons_at s j)))"

definition cvc :: "stemmer \<Rightarrow> int \<Rightarrow> bool res" where
  "cvc s i =
     (if i < sk0 s + 2 then Inr False
      else
        bindE (cons_at s i) (\<lambda>x. if \<not> x then Inr False else
        bindE (cons_at s (i - 1)) (\<lambda>y. if y then Inr False else
        bindE (cons_at s (i - 2)) (\<lambda>z. if \<not> z then Inr False else
        bindE (mem_read (sb s) i) (\<lambda>ch.
        Inr (\<not> (ch = CHR ''w'' \<or> ch = CHR ''x'' \<or> ch = CHR ''y'')))))))"

definition stem_ends :: "string \<Rightarrow> stemmer \<Rightarrow> (bool \<times> stemmer) res" where
  "stem_ends suf s =
     bindE (mem_read (sb s) (sk s)) (\<lambda>c.
     if last suf \<noteq> c then Inr (False, s)
     else if int (length suf) > sk s - sk0 s + 1 then Inr (False, s)
     else
       bindE (mem_get (sb s) (sk s - int (length suf) + 1) (int (length suf))) (\<lambda>d.
       if d \<noteq> suf then Inr (False, s)
       else Inr (True, s\<lparr>sj := sk s - int (length suf)\<rparr>)))"

definition setto :: "string \<Rightarrow> stemmer \<Rightarrow> stemmer res" where
  "setto rep s =
     bindE (mem_put (sb s) (sj s + 1) rep) (\<lambda>b.
     Inr (s\<lparr>sb := b, sk := sj s + int (length rep)\<rparr>))"

definition stem_r :: "string \<Rightarrow> stemmer \<Rightarrow> stemmer res" where
  "stem_r rep s = bindE (stem_m s) (\<lambda>n. if n > 0 then setto rep s else Inr s)"

section \<open>The steps\<close>

definition step1a :: "stemmer \<Rightarrow> stemmer res" where
  "step1a s =
     bindE (mem_read (sb s) (sk s)) (\<lambda>c.
     if c = CHR ''s''
     then
       bindE (stem_ends ''sses'' s) (\<lambda>(e, s).
       if e then Inr (s\<lparr>sk := sk s - 2\<rparr>)
       else
         bindE (stem_ends ''ies'' s) (\<lambda>(e, s).
         if e then setto ''i'' s
         else
           bindE (mem_read (sb s) (sk s - 1)) (\<lambda>d.
           if d \<noteq> CHR ''s'' then Inr (s\<lparr>sk := sk s - 1\<rparr>) else Inr s)))
     else Inr s)"

text \<open>After \<open>-ed\<close> or \<open>-ing\<close> has been taken off: \<open>-at\<close>, \<open>-bl\<close>, \<open>-iz\<close>, double consonants, short words.\<close>

definition tidy_stem :: "stemmer \<Rightarrow> stemmer res" where
  "tidy_stem s =
     bindE (stem_ends ''at'' s) (\<lambda>(e, s). if e then setto ''ate'' s else
     bindE (stem_ends ''bl'' s) (\<lambda>(e, s). if e then setto ''ble'' s else
     bindE (stem_ends ''iz'' s) (\<lambda>(e, s). if e then setto ''ize'' s else
     bindE (doublec s (sk s)) (\<lambda>dc.
     if dc
     then
       (let s = s\<lparr>sk := sk s - 1\<rparr> in
        bindE (mem_read (sb s) (sk s)) (\<lambda>ch.
        if ch = CHR ''l'' \<or> ch = CHR ''s'' \<or> ch = CHR ''z'' then Inr (s\<lparr>sk := sk s + 1\<rparr>) else Inr s))
     else
       bindE (stem_m s) (\<lambda>n.
       if n \<noteq> 1 then Inr s
       else bindE (cvc s (sk s)) (\<lambda>x. if x then setto ''e'' s else Inr s))))))"

definition step1b :: "stemmer \<Rightarrow> stemmer res" where
  "step1b s =
     bindE (stem_ends ''eed'' s) (\<lambda>(e, s).
     if e then bindE (stem_m s) (\<lambda>n. if n > 0 then Inr (s\<lparr>sk := sk s - 1\<rparr>) else Inr s)
     else
       bindE (stem_ends ''ed'' s) (\<lambda>(e, s).
       bindE (if e then Inr (True, s) else stem_ends ''ing'' s) (\<lambda>(e, s).
       if \<not> e then Inr s
       else
         bindE (vowelinstem s) (\<lambda>v.
         if v then tidy_stem (s\<lparr>sk := sj s\<rparr>) else Inr s))))"

definition step1ab :: "stemmer \<Rightarrow> stemmer res" where
  "step1ab s = bindE (step1a s) step1b"

definition step1c :: "stemmer \<Rightarrow> stemmer res" where
  "step1c s =
     bindE (stem_ends ''y'' s) (\<lambda>(e, s).
     if \<not> e then Inr s
     else
       bindE (vowelinstem s) (\<lambda>v.
       if v then bindE (mem_write (sb s) (sk s) (CHR ''i'')) (\<lambda>b. Inr (s\<lparr>sb := b\<rparr>)) else Inr s))"

text \<open>A \<open>case\<close> of steps 2 and 3: the first suffix that fits is replaced through \<open>r\<close>.\<close>

fun rule_chain :: "(string \<times> string) list \<Rightarrow> stemmer \<Rightarrow> stemmer res" where
  "rule_chain [] s = Inr s"
| "rule_chain ((suf, rep) # rules) s =
     bindE (stem_ends suf s) (\<lambda>(e, s). if e then stem_r rep s else rule_chain rules s)"

definition step2_rules :: "char \<Rightarrow> (string \<times> string) list" where
  "step2_rules c =
     (if c = CHR ''a'' then [(''ational'', ''ate''), (''tional'', ''tion'')]
      else if c = CHR ''c'' then [(''enci'', ''ence''), (''anci'', ''ance'')]
      else if c = CHR ''e'' then [(''izer'', ''ize'')]
      else if c = CHR ''l'' then [(''bli'', ''ble''), (''alli'', ''al''), (''entli'', ''ent''),
        (''eli'', ''e''), (''ousli'', ''ous'')]
      else if c = CHR ''o'' then [(''ization'', ''ize''), (''ation'', ''ate''), (''ator'', ''ate'')]
      else if c = CHR ''s'' then [(''alism'', ''al''), (''iveness'', ''ive''), (''fulness'', ''ful''),
        (''ousness'', ''ous'')]
      else if c = CHR ''t'' then [(''aliti'', ''al''), (''iviti'', ''ive''), (''biliti'', ''ble'')]
      else if c = CHR ''g'' then [(''logi'', ''log'')]
      else [])"

definition step2 :: "stemmer \<Rightarrow> stemmer res" where
  "step2 s = bindE (mem_read (sb s) (sk s - 1)) (\<lambda>c. rule_chain (step2_rules c) s)"

definition step3_rules :: "char \<Rightarrow> (string \<times> string) list" where
  "step3_rules c =
     (if c = CHR ''e'' then [(''icate'', ''ic''), (''ative'', []), (''alize'', ''al'')]
      else if c = CHR ''i'' then [(''iciti'', ''ic'')]
      else if c = CHR ''l'' then [(''ical'', ''ic''), (''ful'', [])]
      else if c = CHR ''s'' then [(''ness'', [])]
      else [])"

definition step3 :: "stemmer \<Rightarrow> stemmer res" where
  "step3 s = bindE (mem_read (sb s) (sk s)) (\<lambda>c. rule_chain (step3_rules c) s)"

fun any_ends :: "string list \<Rightarrow> stemmer \<Rightarrow> (bool \<times> stemmer) res" where
  "any_ends [] s = Inr (False, s)"
| "any_ends (suf # sufs) s =
     bindE (stem_ends suf s) (\<lambda>(e, s). if e then Inr (True, s) else any_ends sufs s)"

definition step4_suffixes :: "char \<Rightarrow> string list" where
  "step4_suffixes c =
     (if c = CHR ''a'' then [''al'']
      else if c = CHR ''c'' then [''ance'', ''ence'']
      else if c = CHR ''e'' then [''er'']
      else if c = CHR ''i'' then [''ic'']
      else if c = CHR ''l'' then [''able'', ''ible'']
      else if c = CHR ''n'' then [''ant'', ''ement'', ''ment'', ''ent'']
      else if c = CHR ''s'' then [''ism'']
      else if c = CHR ''t'' then [''ate'', ''iti'']
      else if c = CHR ''u'' then [''ous'']
      else if c = CHR ''v'' then [''ive'']
      else if c = CHR ''z'' then [''ize'']
      else [])"

definition step4_match :: "char \<Rightarrow> stemmer \<Rightarrow> (bool \<times> stemmer) res" where
  "step4_match c s =
     (if c = CHR ''o''
      then
        bindE (stem_ends ''ion'' s) (\<lambda>(e, s).
        bindE (if e
               then bindE (mem_read (sb s) (sj s)) (\<lambda>d. Inr (d = CHR ''s'' \<or> d = CHR ''t''))
               else Inr False) (\<lambda>hit.
        if hit then Inr (True, s) else stem_ends ''ou'' s))
      else any_ends (step4_suffixes c) s)"

definition step4 :: "stemmer \<Rightarrow> stemmer res" where
  "step4 s =
     bindE (mem_read (sb s) (sk s - 1)) (\<lambda>c.
     bindE (step4_match c s) (\<lambda>(hit, s).
     if \<not> hit then Inr s
     else bindE (stem_m s) (\<lambda>n. if n > 1 then Inr (s\<lparr>sk := sj s\<rparr>) else Inr s)))"

definition step5_e :: "stemmer \<Rightarrow> stemmer res" where
  "step5_e s =
     bindE (mem_read (sb s) (sk s)) (\<lambda>c.
     if c \<noteq> CHR ''e'' then Inr s
     else
       bindE (stem_m s) (\<lambda>a.
       if a > 1 then Inr (s\<lparr>sk := sk s - 1\<rparr>)
       else if a = 1
         then bindE (cvc s (sk s - 1)) (\<lambda>x. if \<not> x then Inr (s\<lparr>sk := sk s - 1\<rparr>) else Inr s)
       else Inr s))"

definition step5 :: "stemmer \<Rightarrow> stemmer res" where
  "step5 s =
     bindE (step5_e (s\<lparr>sj := sk s\<rparr>)) (\<lambda>s.
     bindE (mem_read (sb s) (sk s)) (\<lambda>c.
     if c \<noteq> CHR ''l'' then Inr s
     else
       bindE (doublec s (sk s)) (\<lambda>dc.
       if \<not> dc then Inr s
       else bindE (stem_m s) (\<lambda>n. if n > 1 then Inr (s\<lparr>sk := sk s - 1\<rparr>) else Inr s))))"

definition steps1c_3 :: "stemmer \<Rightarrow> stemmer res" where
  "steps1c_3 s = bindE (step1c s) (\<lambda>s. bindE (step2 s) step3)"

text \<open>The parameters copied into the members.\<close>

definition stem_start :: "block \<Rightarrow> int \<Rightarrow> int \<Rightarrow> stemmer \<Rightarrow> stemmer" where
  "stem_start p i j s = s\<lparr>sb := p, sk := j, sk0 := i\<rparr>"

definition stem :: "block \<Rightarrow> int \<Rightarrow> int \<Rightarrow> stemmer \<Rightarrow> (int \<times> stemmer) res" where
  "stem p i j s =
     (let s = stem_start p i j s in
      if sk s \<le> sk0 s + 1 then Inr (sk s, s)
      else
        bindE (step1ab s) (\<lambda>s.
        bindE (steps1c_3 s) (\<lambda>s.
        bindE (step4 s) (\<lambda>s.
        bindE (step5 s) (\<lambda>s. Inr (sk s, s))))))"

section \<open>Every access stays in the word\<close>

text \<open>\<open>returns r P\<close>: the execution returns a value with \<open>P\<close>.\<close>

definition returns :: "'a res \<Rightarrow> ('a \<Rightarrow> bool) \<Rightarrow> bool" where
  "returns r P \<longleftrightarrow> (\<exists>x. r = Inr x \<and> P x)"

lemma returns_Inr [simp]: "returns (Inr x) P = P x"
  by (simp add: returns_def)

lemma returns_Inl [simp]: "\<not> returns (Inl e) P"
  by (simp add: returns_def)

lemma returns_bindE: "returns m Q \<Longrightarrow> (\<And>x. Q x \<Longrightarrow> returns (f x) P) \<Longrightarrow> returns (bindE m f) P"
  by (auto simp: returns_def)

lemma returns_mono: "returns m Q \<Longrightarrow> (\<And>x. Q x \<Longrightarrow> P x) \<Longrightarrow> returns m P"
  by (auto simp: returns_def)

lemma returns_read: "0 \<le> i \<Longrightarrow> i < int (length b) \<Longrightarrow> returns (mem_read b i) (\<lambda>c. c = b ! nat i)"
  by (simp add: mem_read_def)

lemma cons_ok: "sk0 s \<le> i \<Longrightarrow> 0 \<le> sk0 s \<Longrightarrow> i < int (length (sb s)) \<Longrightarrow> returns (cons_at s i) (\<lambda>x. True)"
proof (induction s i rule: cons_at.induct)
  case (1 s i)
  define c where "c = sb s ! nat i"
  have read: "mem_read (sb s) i = Inr c" using 1(2,3,4) by (simp add: mem_read_def c_def)
  show ?case
  proof (cases "\<not> is_vowel c \<and> c = CHR ''y'' \<and> i \<noteq> sk0 s")
    case True
    with 1(2-) have "sk0 s \<le> i - 1" "i - 1 < int (length (sb s))" by simp_all
    with 1(1)[OF read _ _ _ _ 1(3)] True have "returns (cons_at s (i - 1)) (\<lambda>x. True)" by blast
    then obtain x where "cons_at s (i - 1) = Inr x" by (auto simp: returns_def)
    with True show ?thesis by (subst cons_at.simps) (simp add: read)
  next
    case False
    then show ?thesis by (subst cons_at.simps) (auto simp: read)
  qed
qed

lemma find_kind_ok:
  "sk0 s \<le> i \<Longrightarrow> 0 \<le> sk0 s \<Longrightarrow> sj s < int (length (sb s)) \<Longrightarrow>
   returns (find_kind s want i) (\<lambda>r. \<forall>i'. r = Some i' \<longrightarrow> i \<le> i' \<and> i' \<le> sj s)"
proof (induction s want i rule: find_kind.induct)
  case (1 s want i)
  show ?case
  proof (cases "i > sj s")
    case False
    with 1 obtain x where x: "cons_at s i = Inr x" using cons_ok[of s i] by (auto simp: returns_def)
    show ?thesis
    proof (cases "x = want")
      case True
      with False show ?thesis by (subst find_kind.simps) (simp add: x)
    next
      case neq: False
      with 1(1)[OF False x neq] 1(2-) False
      have "returns (find_kind s want (i + 1)) (\<lambda>r. \<forall>i'. r = Some i' \<longrightarrow> i + 1 \<le> i' \<and> i' \<le> sj s)" by simp
      then have "returns (find_kind s want (i + 1)) (\<lambda>r. \<forall>i'. r = Some i' \<longrightarrow> i \<le> i' \<and> i' \<le> sj s)"
        by (rule returns_mono) fastforce
      with False neq show ?thesis by (subst find_kind.simps) (simp add: x)
    qed
  qed (subst find_kind.simps, simp)
qed

lemma m_loop_ok:
  "sk0 s \<le> i \<Longrightarrow> 0 \<le> sk0 s \<Longrightarrow> sj s < int (length (sb s)) \<Longrightarrow>
   returns (m_loop s n i) (\<lambda>k. n \<le> k \<and> (n < k \<longrightarrow> i \<le> sj s))"
proof (induction s n i rule: m_loop.induct)
  case (1 s n i)
  obtain r where r: "find_kind s True i = Inr r" "\<forall>i'. r = Some i' \<longrightarrow> i \<le> i' \<and> i' \<le> sj s"
    using find_kind_ok[OF 1(2,3,4), of True] by (auto simp: returns_def)
  show ?case
  proof (cases r)
    case None
    then show ?thesis by (subst m_loop.simps) (simp add: r)
  next
    case (Some a)
    with r 1(2) have a: "i \<le> a" "a \<le> sj s" "sk0 s \<le> a + 1" by auto
    obtain q where q: "find_kind s False (a + 1) = Inr q" "\<forall>i'. q = Some i' \<longrightarrow> a + 1 \<le> i' \<and> i' \<le> sj s"
      using find_kind_ok[OF a(3) 1(3,4), of False] by (auto simp: returns_def)
    show ?thesis
    proof (cases q)
      case None
      moreover have "i \<le> sj s" using a by linarith
      ultimately show ?thesis using Some by (subst m_loop.simps) (simp add: r q)
    next
      case (Some b)
      with q a have "sk0 s \<le> b + 1" by auto
      have "returns (m_loop s (n + 1) (b + 1)) (\<lambda>k. n \<le> k \<and> (n < k \<longrightarrow> i \<le> sj s))"
        using 1(1)[OF r(1) \<open>r = Some a\<close> q(1) Some \<open>sk0 s \<le> b + 1\<close> 1(3,4)] by (rule returns_mono) (use a in auto)
      then show ?thesis using \<open>r = Some a\<close> Some by (subst m_loop.simps) (simp add: r q)
    qed
  qed
qed

lemma stem_m_ok:
  assumes "0 \<le> sk0 s" and "sj s < int (length (sb s))"
  shows "returns (stem_m s) (\<lambda>n. 0 \<le> n \<and> (0 < n \<longrightarrow> sk0 s + 1 \<le> sj s))"
  unfolding stem_m_def
proof (rule returns_bindE[OF find_kind_ok[OF order_refl assms]])
  fix r assume r: "\<forall>i'. r = Some i' \<longrightarrow> sk0 s \<le> i' \<and> i' \<le> sj s"
  show "returns (case r of None \<Rightarrow> Inr 0 | Some i \<Rightarrow> m_loop s 0 (i + 1)) (\<lambda>n. 0 \<le> n \<and> (0 < n \<longrightarrow> sk0 s + 1 \<le> sj s))"
    using r m_loop_ok[of s "the r + 1" 0] assms
    by (cases r) (auto elim!: returns_mono)
qed

text \<open>
  The invariant of the steps: the word has \<open>n\<close> bytes at the start of the block, \<open>k\<close> is inside it,
  and what follows it is untouched.
\<close>

definition stem_inv :: "nat \<Rightarrow> block \<Rightarrow> stemmer \<Rightarrow> bool" where
  "stem_inv n rest s \<longleftrightarrow>
     sk0 s = 0 \<and> 0 \<le> sk s \<and> sk s < int n \<and> length (sb s) = n + length rest \<and> drop n (sb s) = rest"

lemma stem_inv_sj: "stem_inv n rest s \<Longrightarrow> stem_inv n rest (s\<lparr>sj := j\<rparr>)"
  by (simp add: stem_inv_def)

lemma stem_inv_sk: "stem_inv n rest s \<Longrightarrow> 0 \<le> k \<Longrightarrow> k \<le> sk s \<Longrightarrow> stem_inv n rest (s\<lparr>sk := k\<rparr>)"
  by (simp add: stem_inv_def)

lemma ends_ok:
  assumes "stem_inv n rest s" and "suf \<noteq> []"
  shows "returns (stem_ends suf s) (\<lambda>(e, s').
    s' = (if e then s\<lparr>sj := sk s - int (length suf)\<rparr> else s) \<and>
    (e \<longrightarrow> int (length suf) \<le> sk s + 1 \<and>
       take (length suf) (drop (nat (sk s - int (length suf) + 1)) (sb s)) = suf))"
proof -
  have k: "0 \<le> sk s" "sk s < int (length (sb s))" "sk0 s = 0" using assms by (auto simp: stem_inv_def)
  show ?thesis
    unfolding stem_ends_def
    using k by (auto simp: mem_read_def mem_get_def assms(2))
qed

lemma setto_ok:
  assumes "stem_inv n rest s" and "-1 \<le> sj s" and "sj s + int (length rep) < int n" and "0 \<le> sj s + int (length rep)"
  shows "returns (setto rep s) (\<lambda>s'. stem_inv n rest s' \<and> sk s' = sj s + int (length rep))"
proof -
  define j where "j = nat (sj s + 1)"
  have j: "sj s + 1 = int j" "j + length rep \<le> n" using assms(2,3) by (auto simp: j_def)
  have len: "length (sb s) = n + length rest" using assms(1) by (simp add: stem_inv_def)
  have "mem_put (sb s) (int j) rep = Inr (take j (sb s) @ rep @ drop (j + length rep) (sb s))"
    using j len by (simp add: mem_put_ok)
  moreover have "drop n (take j (sb s) @ rep @ drop (j + length rep) (sb s)) = drop n (sb s)"
    using j len by (simp add: min_absorb2)
  ultimately show ?thesis
    using assms j len by (auto simp: setto_def stem_inv_def)
qed

lemma stem_m_inv:
  "stem_inv n rest s \<Longrightarrow> sj s \<le> sk s \<Longrightarrow> returns (stem_m s) (\<lambda>k. 0 \<le> k \<and> (0 < k \<longrightarrow> 1 \<le> sj s))"
  using stem_m_ok[of s] by (simp add: stem_inv_def)

lemma read_inv:
  "stem_inv n rest s \<Longrightarrow> 0 \<le> i \<Longrightarrow> i \<le> sk s + 1 \<Longrightarrow> i < int n \<Longrightarrow> returns (mem_read (sb s) i) (\<lambda>c. True)"
  by (simp add: mem_read_def stem_inv_def)

lemma vowelinstem_ok:
  "stem_inv n rest s \<Longrightarrow> sj s \<le> sk s \<Longrightarrow> returns (vowelinstem s) (\<lambda>v. v \<longrightarrow> 0 \<le> sj s)"
  unfolding vowelinstem_def
  by (rule returns_bindE[OF find_kind_ok]) (auto simp: stem_inv_def)

lemma doublec_ok: "stem_inv n rest s \<Longrightarrow> returns (doublec s (sk s)) (\<lambda>d. d \<longrightarrow> 1 \<le> sk s)"
  using cons_ok[of s "sk s"]
  by (auto simp: doublec_def stem_inv_def mem_read_def elim!: returns_mono)

lemma cvc_ok:
  assumes "stem_inv n rest s" and "i \<le> sk s"
  shows "returns (cvc s i) (\<lambda>_. True)"
proof (cases "i < 2")
  case True
  with assms show ?thesis by (simp add: cvc_def stem_inv_def)
next
  case False
  with assms have *: "sk0 s = 0" "0 \<le> i - 2" "i < int (length (sb s))" by (auto simp: stem_inv_def)
  then have "returns (cons_at s i) (\<lambda>_. True)" "returns (cons_at s (i - 1)) (\<lambda>_. True)"
    "returns (cons_at s (i - 2)) (\<lambda>_. True)" by (auto intro!: cons_ok)
  then show ?thesis using * by (auto simp: cvc_def returns_def mem_read_def)
qed

text \<open>The replacement through \<open>r\<close> after a suffix at least as long as the replacement.\<close>

lemma stem_r_ok:
  assumes "stem_inv n rest s" and "sj s + int (length rep) \<le> sk s" and "1 \<le> sk s"
  shows "returns (stem_r rep s) (\<lambda>s'. stem_inv n rest s' \<and> 1 \<le> sk s' \<and> sk s' \<le> sk s)"
  unfolding stem_r_def
proof (rule returns_bindE[OF stem_m_inv[OF assms(1)]])
  show "sj s \<le> sk s" using assms(2) by simp
  fix k assume k: "0 \<le> k \<and> (0 < k \<longrightarrow> 1 \<le> sj s)"
  show "returns (if k > 0 then setto rep s else Inr s) (\<lambda>s'. stem_inv n rest s' \<and> 1 \<le> sk s' \<and> sk s' \<le> sk s)"
  proof (cases "k > 0")
    case True
    with k have "1 \<le> sj s" by simp
    with assms have "returns (setto rep s) (\<lambda>s'. stem_inv n rest s' \<and> sk s' = sj s + int (length rep))"
      by (intro setto_ok) (auto simp: stem_inv_def)
    then have "returns (setto rep s) (\<lambda>s'. stem_inv n rest s' \<and> 1 \<le> sk s' \<and> sk s' \<le> sk s)"
      by (rule returns_mono) (use \<open>1 \<le> sj s\<close> assms in auto)
    with True show ?thesis by simp
  qed (use assms in simp)
qed

lemma rule_chain_ok:
  "stem_inv n rest s \<Longrightarrow> 1 \<le> sk s \<Longrightarrow> \<forall>(suf, rep) \<in> set rules. suf \<noteq> [] \<and> length rep \<le> length suf \<Longrightarrow>
   returns (rule_chain rules s) (\<lambda>s'. stem_inv n rest s' \<and> 1 \<le> sk s' \<and> sk s' \<le> sk s)"
proof (induction rules)
  case (Cons rule rules)
  obtain suf rep where rule: "rule = (suf, rep)" by (cases rule)
  with Cons.prems have suf: "suf \<noteq> []" "length rep \<le> length suf" by auto
  obtain e s' where e: "stem_ends suf s = Inr (e, s')"
    "s' = (if e then s\<lparr>sj := sk s - int (length suf)\<rparr> else s)"
    using ends_ok[OF Cons.prems(1) suf(1)] by (auto simp: returns_def)
  show ?case
  proof (cases e)
    case True
    then show ?thesis
      using stem_r_ok[OF stem_inv_sj[OF Cons.prems(1)], of "sk s - int (length suf)" rep] suf Cons.prems(2) e
      by (simp add: rule)
  qed (use e Cons in \<open>simp add: rule\<close>)
qed simp

lemma step2_ok:
  assumes "stem_inv n rest s" and "1 \<le> sk s"
  shows "returns (step2 s) (\<lambda>s'. stem_inv n rest s' \<and> 1 \<le> sk s' \<and> sk s' \<le> sk s)"
  unfolding step2_def
proof (rule returns_bindE[OF read_inv[OF assms(1)]])
  show "returns (rule_chain (step2_rules c) s) (\<lambda>s'. stem_inv n rest s' \<and> 1 \<le> sk s' \<and> sk s' \<le> sk s)" for c
    using assms by (intro rule_chain_ok) (auto simp: step2_rules_def)
qed (use assms in \<open>auto simp: stem_inv_def\<close>)

lemma step3_ok:
  assumes "stem_inv n rest s" and "1 \<le> sk s"
  shows "returns (step3 s) (\<lambda>s'. stem_inv n rest s' \<and> 1 \<le> sk s' \<and> sk s' \<le> sk s)"
  unfolding step3_def
proof (rule returns_bindE[OF read_inv[OF assms(1)]])
  show "returns (rule_chain (step3_rules c) s) (\<lambda>s'. stem_inv n rest s' \<and> 1 \<le> sk s' \<and> sk s' \<le> sk s)" for c
    using assms by (intro rule_chain_ok) (auto simp: step3_rules_def)
qed (use assms in \<open>auto simp: stem_inv_def\<close>)

text \<open>A condition on \<open>ends\<close>: both branches, with what the suffix says about \<open>j\<close> and \<open>k\<close>.\<close>

lemma ends_cases:
  assumes "stem_inv n rest s" and "suf \<noteq> []"
    and "\<And>s'. s' = s\<lparr>sj := sk s - int (length suf)\<rparr> \<Longrightarrow> int (length suf) \<le> sk s + 1 \<Longrightarrow>
      stem_inv n rest s' \<Longrightarrow> returns (f (True, s')) P"
    and "returns (f (False, s)) P"
  shows "returns (bindE (stem_ends suf s) f) P"
proof (rule returns_bindE[OF ends_ok[OF assms(1,2)]])
  fix x assume x: "case x of (e, s') \<Rightarrow> s' = (if e then s\<lparr>sj := sk s - int (length suf)\<rparr> else s) \<and>
    (e \<longrightarrow> int (length suf) \<le> sk s + 1 \<and>
       take (length suf) (drop (nat (sk s - int (length suf) + 1)) (sb s)) = suf)"
  obtain e s' where "x = (e, s')" by (cases x)
  with x assms(3)[of s'] assms(4) stem_inv_sj[OF assms(1)] show "returns (f x) P" by (cases e) auto
qed

lemma step1a_ok:
  assumes "stem_inv n rest s" and "2 \<le> sk s"
  shows "returns (step1a s) (\<lambda>s'. stem_inv n rest s' \<and> sk s' \<le> sk s)"
  unfolding step1a_def
proof (rule returns_bindE[OF read_inv[OF assms(1)]])
  fix c
  let ?P = "\<lambda>s'. stem_inv n rest s' \<and> sk s' \<le> sk s"
  have last: "returns (bindE (mem_read (sb s) (sk s - 1)) (\<lambda>d.
      if d \<noteq> CHR ''s'' then Inr (s\<lparr>sk := sk s - 1\<rparr>) else Inr s)) ?P"
    using assms by (intro returns_bindE[OF read_inv[OF assms(1)]]) (auto simp: stem_inv_def)
  have ies: "returns (bindE (stem_ends ''ies'' s) (\<lambda>(e, s).
      if e then setto ''i'' s
      else bindE (mem_read (sb s) (sk s - 1)) (\<lambda>d.
        if d \<noteq> CHR ''s'' then Inr (s\<lparr>sk := sk s - 1\<rparr>) else Inr s))) ?P"
  proof (rule ends_cases[OF assms(1)])
    fix s' assume s': "s' = s\<lparr>sj := sk s - int (length ''ies'')\<rparr>" "stem_inv n rest s'"
    have "returns (setto ''i'' s') (\<lambda>s''. stem_inv n rest s'' \<and> sk s'' = sj s' + int (length ''i''))"
      using s' assms by (intro setto_ok) (auto simp: stem_inv_def)
    then show "returns (case (True, s') of (e, s) \<Rightarrow> if e then setto ''i'' s
      else bindE (mem_read (sb s) (sk s - 1)) (\<lambda>d.
        if d \<noteq> CHR ''s'' then Inr (s\<lparr>sk := sk s - 1\<rparr>) else Inr s)) ?P"
      using s' by (auto elim!: returns_mono)
  qed (use last in simp_all)
  have "returns (bindE (stem_ends ''sses'' s) (\<lambda>(e, s).
      if e then Inr (s\<lparr>sk := sk s - 2\<rparr>)
      else bindE (stem_ends ''ies'' s) (\<lambda>(e, s).
        if e then setto ''i'' s
        else bindE (mem_read (sb s) (sk s - 1)) (\<lambda>d.
          if d \<noteq> CHR ''s'' then Inr (s\<lparr>sk := sk s - 1\<rparr>) else Inr s)))) ?P"
    by (rule ends_cases[OF assms(1)]) (use ies in \<open>auto simp: stem_inv_def\<close>)
  then show "returns (if c = CHR ''s'' then bindE (stem_ends ''sses'' s) (\<lambda>(e, s).
      if e then Inr (s\<lparr>sk := sk s - 2\<rparr>)
      else bindE (stem_ends ''ies'' s) (\<lambda>(e, s).
        if e then setto ''i'' s
        else bindE (mem_read (sb s) (sk s - 1)) (\<lambda>d.
          if d \<noteq> CHR ''s'' then Inr (s\<lparr>sk := sk s - 1\<rparr>) else Inr s))) else Inr s) ?P"
    using assms by simp
qed (use assms in \<open>auto simp: stem_inv_def\<close>)

lemma setto_suffix:
  assumes "stem_inv n rest s" and "s' = s\<lparr>sj := sk s - int (length suf)\<rparr>" and "int (length suf) \<le> sk s + 1"
    and "sk s + 1 < int n" and "length rep = length suf + 1"
  shows "returns (setto rep s') (\<lambda>s''. stem_inv n rest s'' \<and> sk s'' \<le> sk s + 1)"
proof -
  have "returns (setto rep s') (\<lambda>s''. stem_inv n rest s'' \<and> sk s'' = sj s' + int (length rep))"
    using assms stem_inv_sj[OF assms(1)] by (intro setto_ok) (auto simp: stem_inv_def)
  then show ?thesis by (rule returns_mono) (use assms in auto)
qed

lemma tidy_double_ok:
  assumes "stem_inv n rest s" and "1 \<le> sk s"
  shows "returns (let s = s\<lparr>sk := sk s - 1\<rparr> in
        bindE (mem_read (sb s) (sk s)) (\<lambda>ch.
        if ch = CHR ''l'' \<or> ch = CHR ''s'' \<or> ch = CHR ''z'' then Inr (s\<lparr>sk := sk s + 1\<rparr>) else Inr s))
     (\<lambda>s'. stem_inv n rest s' \<and> sk s' \<le> sk s + 1)"
  unfolding Let_def
  by (rule returns_bindE[OF read_inv[of n rest "s\<lparr>sk := sk s - 1\<rparr>"]])
    (use assms in \<open>auto simp: stem_inv_def\<close>)

lemma tidy_short_ok:
  assumes "stem_inv n rest s" and "sk s + 1 < int n" and "sj s = sk s"
  shows "returns (bindE (stem_m s) (\<lambda>a.
       if a \<noteq> 1 then Inr s
       else bindE (cvc s (sk s)) (\<lambda>x. if x then setto ''e'' s else Inr s)))
     (\<lambda>s'. stem_inv n rest s' \<and> sk s' \<le> sk s + 1)"
proof (rule returns_bindE[OF stem_m_inv[OF assms(1)]])
  have "returns (setto ''e'' s) (\<lambda>s''. stem_inv n rest s'' \<and> sk s'' = sj s + int (length ''e''))"
    using assms by (intro setto_ok) (auto simp: stem_inv_def)
  then have e: "returns (setto ''e'' s) (\<lambda>s'. stem_inv n rest s' \<and> sk s' \<le> sk s + 1)"
    by (rule returns_mono) (use assms in auto)
  show "returns (if a \<noteq> 1 then Inr s else bindE (cvc s (sk s)) (\<lambda>x. if x then setto ''e'' s else Inr s))
      (\<lambda>s'. stem_inv n rest s' \<and> sk s' \<le> sk s + 1)" for a
  proof (cases "a = 1")
    case True
    have "returns (bindE (cvc s (sk s)) (\<lambda>x. if x then setto ''e'' s else Inr s))
        (\<lambda>s'. stem_inv n rest s' \<and> sk s' \<le> sk s + 1)"
      by (rule returns_bindE[OF cvc_ok[OF assms(1) order_refl]]) (use e assms in auto)
    with True show ?thesis by simp
  qed (use assms in simp)
qed (use assms in simp)

lemma tidy_stem_ok:
  assumes "stem_inv n rest s" and "sk s + 1 < int n" and "sj s = sk s"
  shows "returns (tidy_stem s) (\<lambda>s'. stem_inv n rest s' \<and> sk s' \<le> sk s + 1)"
proof -
  let ?P = "\<lambda>s'. stem_inv n rest s' \<and> sk s' \<le> sk s + 1"
  have set: "returns (setto rep (s\<lparr>sj := sk s - 2\<rparr>)) ?P" if "length rep = 3" "1 \<le> sk s" for rep
    by (rule setto_suffix[OF assms(1), where suf = "''at''"]) (use that assms in auto)
  have tail: "returns (bindE (doublec s (sk s)) (\<lambda>dc.
     if dc
     then
       (let s = s\<lparr>sk := sk s - 1\<rparr> in
        bindE (mem_read (sb s) (sk s)) (\<lambda>ch.
        if ch = CHR ''l'' \<or> ch = CHR ''s'' \<or> ch = CHR ''z'' then Inr (s\<lparr>sk := sk s + 1\<rparr>) else Inr s))
     else
       bindE (stem_m s) (\<lambda>n.
       if n \<noteq> 1 then Inr s
       else bindE (cvc s (sk s)) (\<lambda>x. if x then setto ''e'' s else Inr s)))) ?P"
    by (rule returns_bindE[OF doublec_ok[OF assms(1)]])
      (use tidy_double_ok[OF assms(1)] tidy_short_ok[OF assms] in auto)
  show ?thesis
    unfolding tidy_stem_def
    by (rule ends_cases[OF assms(1)], simp, simp add: set, simp only: prod.case if_False)+ (rule tail)
qed

lemma step1b_strip_ok:
  assumes s': "s' = s\<lparr>sj := sk s - int l\<rparr>" "2 \<le> l" and s: "stem_inv n rest s"
  shows "returns (bindE (vowelinstem s') (\<lambda>v. if v then tidy_stem (s'\<lparr>sk := sj s'\<rparr>) else Inr s'))
    (\<lambda>t. stem_inv n rest t \<and> sk t \<le> sk s)"
proof (rule returns_bindE[OF vowelinstem_ok])
  show "stem_inv n rest s'" using s' s by (simp add: stem_inv_sj)
  show "sj s' \<le> sk s'" using s' by simp
  fix v assume v: "v \<longrightarrow> 0 \<le> sj s'"
  show "returns (if v then tidy_stem (s'\<lparr>sk := sj s'\<rparr>) else Inr s') (\<lambda>t. stem_inv n rest t \<and> sk t \<le> sk s)"
  proof (cases v)
    case True
    have "returns (tidy_stem (s'\<lparr>sk := sj s'\<rparr>)) (\<lambda>t. stem_inv n rest t \<and> sk t \<le> sj s' + 1)"
      using tidy_stem_ok[of n rest "s'\<lparr>sk := sj s'\<rparr>"] s' s v True by (simp add: stem_inv_def)
    then have "returns (tidy_stem (s'\<lparr>sk := sj s'\<rparr>)) (\<lambda>t. stem_inv n rest t \<and> sk t \<le> sk s)"
      by (rule returns_mono) (use s' in auto)
    with True show ?thesis by simp
  qed (use s' s in \<open>simp add: stem_inv_sj\<close>)
qed

lemma step1b_ok:
  assumes "stem_inv n rest s"
  shows "returns (step1b s) (\<lambda>s'. stem_inv n rest s' \<and> sk s' \<le> sk s)"
proof -
  let ?P = "\<lambda>s'. stem_inv n rest s' \<and> sk s' \<le> sk s"
  let ?strip = "\<lambda>(e, s). if \<not> e then Inr s
       else bindE (vowelinstem s) (\<lambda>v. if v then tidy_stem (s\<lparr>sk := sj s\<rparr>) else Inr s)"
  note strip = step1b_strip_ok[OF _ _ assms]
  have ing: "returns (bindE (stem_ends ''ing'' s) ?strip) ?P"
    by (rule ends_cases[OF assms]) (use strip[of _ 3] assms in simp_all)
  have ed: "returns (bindE (stem_ends ''ed'' s) (\<lambda>(e, s).
       bindE (if e then Inr (True, s) else stem_ends ''ing'' s) ?strip)) ?P"
    by (rule ends_cases[OF assms]) (use strip[of _ 2] ing in simp_all)
  show ?thesis
    unfolding step1b_def
  proof (rule ends_cases[OF assms])
    fix s' assume s': "s' = s\<lparr>sj := sk s - int (length ''eed'')\<rparr>" "int (length ''eed'') \<le> sk s + 1" "stem_inv n rest s'"
    have "returns (bindE (stem_m s') (\<lambda>a. if a > 0 then Inr (s'\<lparr>sk := sk s' - 1\<rparr>) else Inr s')) ?P"
      by (rule returns_bindE[OF stem_m_inv[OF s'(3)]]) (use s' assms in \<open>auto simp: stem_inv_def\<close>)
    then show "returns (case (True, s') of (e, s) \<Rightarrow>
       if e then bindE (stem_m s) (\<lambda>n. if n > 0 then Inr (s\<lparr>sk := sk s - 1\<rparr>) else Inr s)
       else bindE (stem_ends ''ed'' s) (\<lambda>(e, s).
         bindE (if e then Inr (True, s) else stem_ends ''ing'' s) ?strip)) ?P" by simp
  qed (use ed in simp_all)
qed

lemma step1c_ok:
  assumes "stem_inv n rest s"
  shows "returns (step1c s) (\<lambda>s'. stem_inv n rest s' \<and> sk s' = sk s)"
  unfolding step1c_def
proof (rule ends_cases[OF assms])
  fix s' assume s': "s' = s\<lparr>sj := sk s - int (length ''y'')\<rparr>" "stem_inv n rest s'"
  have "returns (bindE (vowelinstem s') (\<lambda>v.
       if v then bindE (mem_write (sb s') (sk s') (CHR ''i'')) (\<lambda>b. Inr (s'\<lparr>sb := b\<rparr>)) else Inr s'))
     (\<lambda>s'. stem_inv n rest s' \<and> sk s' = sk s)"
    by (rule returns_bindE[OF vowelinstem_ok[OF s'(2)]])
      (use s' in \<open>auto simp: mem_write_def stem_inv_def\<close>)
  then show "returns (case (True, s') of (e, s) \<Rightarrow> if \<not> e then Inr s
       else bindE (vowelinstem s) (\<lambda>v.
         if v then bindE (mem_write (sb s) (sk s) (CHR ''i'')) (\<lambda>b. Inr (s\<lparr>sb := b\<rparr>)) else Inr s))
     (\<lambda>s'. stem_inv n rest s' \<and> sk s' = sk s)" by simp
qed (use assms in simp_all)

text \<open>Step 4 reads \<open>b[j]\<close> after \<open>-ion\<close>; when that is the whole word, \<open>j\<close> is before its start.\<close>

definition whole_ion :: "stemmer \<Rightarrow> bool" where
  "whole_ion s \<longleftrightarrow> sk s = 2 \<and> take 3 (sb s) = ''ion''"

definition matched :: "nat \<Rightarrow> block \<Rightarrow> stemmer \<Rightarrow> bool \<times> stemmer \<Rightarrow> bool" where
  "matched n rest s = (\<lambda>(e, s'). stem_inv n rest s' \<and> sk s' = sk s \<and> (e \<longrightarrow> sj s' \<le> sk s'))"

lemma ends_matched:
  assumes "stem_inv n rest s" and "suf \<noteq> []"
  shows "returns (stem_ends suf s) (matched n rest s)"
  using ends_ok[OF assms]
proof (rule returns_mono)
  fix x assume "case x of (e, s') \<Rightarrow> s' = (if e then s\<lparr>sj := sk s - int (length suf)\<rparr> else s) \<and>
    (e \<longrightarrow> int (length suf) \<le> sk s + 1 \<and>
       take (length suf) (drop (nat (sk s - int (length suf) + 1)) (sb s)) = suf)"
  then show "matched n rest s x"
    using assms by (auto simp: matched_def stem_inv_sj split: prod.splits if_splits)
qed

lemma any_ends_ok:
  "stem_inv n rest s \<Longrightarrow> [] \<notin> set sufs \<Longrightarrow> returns (any_ends sufs s) (matched n rest s)"
proof (induction sufs)
  case (Cons suf sufs)
  show ?case
    unfolding any_ends.simps
    by (rule ends_cases[OF Cons.prems(1)]) (use Cons in \<open>auto simp: matched_def\<close>)
qed (simp add: matched_def)

lemma step4_suffixes_nonempty: "[] \<notin> set (step4_suffixes c)"
  by (simp add: step4_suffixes_def)

lemma step4_match_ok:
  assumes inv: "stem_inv n rest s" and ion: "\<not> whole_ion s"
  shows "returns (step4_match c s) (matched n rest s)"
proof (cases "c = CHR ''o''")
  case False
  with any_ends_ok[OF inv step4_suffixes_nonempty] show ?thesis by (simp add: step4_match_def)
next
  case True
  obtain e s' where e: "stem_ends ''ion'' s = Inr (e, s')" "s' = (if e then s\<lparr>sj := sk s - 3\<rparr> else s)"
    "e \<longrightarrow> 2 \<le> sk s \<and> take 3 (drop (nat (sk s - 2)) (sb s)) = ''ion''"
    using ends_ok[OF inv, of "''ion''"] by (fastforce simp: returns_def numeral_3_eq_3)
  have inv': "stem_inv n rest s'" "sk s' = sk s" using inv e(2) by (auto simp: stem_inv_sj)
  have ou: "returns (stem_ends ''ou'' s') (matched n rest s)"
    using ends_matched[OF inv'(1), of "''ou''"] inv'(2) by (simp add: matched_def)
  show ?thesis
  proof (cases e)
    case True
    with e ion have "3 \<le> sk s" by (cases "sk s = 2") (auto simp: whole_ion_def)
    with e True inv have "0 \<le> sj s'" "sj s' < int (length (sb s'))" by (auto simp: stem_inv_def)
    with e True ou inv' \<open>c = CHR ''o''\<close> show ?thesis
      by (simp add: step4_match_def mem_read_def matched_def)
  qed (use e ou \<open>c = CHR ''o''\<close> in \<open>simp add: step4_match_def\<close>)
qed

lemma step4_ok:
  assumes inv: "stem_inv n rest s" and k: "1 \<le> sk s" and ion: "\<not> whole_ion s"
  shows "returns (step4 s) (\<lambda>s'. stem_inv n rest s' \<and> sk s' \<le> sk s)"
  unfolding step4_def
proof (rule returns_bindE[OF read_inv[OF inv]])
  fix c
  show "returns (bindE (step4_match c s) (\<lambda>(hit, s).
     if \<not> hit then Inr s
     else bindE (stem_m s) (\<lambda>n. if n > 1 then Inr (s\<lparr>sk := sj s\<rparr>) else Inr s)))
     (\<lambda>s'. stem_inv n rest s' \<and> sk s' \<le> sk s)"
  proof (rule returns_bindE[OF step4_match_ok[OF inv ion]])
    fix x assume "matched n rest s x"
    then obtain hit s' where x: "x = (hit, s')" "stem_inv n rest s'" "sk s' = sk s" "hit \<longrightarrow> sj s' \<le> sk s'"
      by (cases x) (auto simp: matched_def)
    show "returns (case x of (hit, s) \<Rightarrow> if \<not> hit then Inr s
       else bindE (stem_m s) (\<lambda>n. if n > 1 then Inr (s\<lparr>sk := sj s\<rparr>) else Inr s))
       (\<lambda>s'. stem_inv n rest s' \<and> sk s' \<le> sk s)"
    proof (cases hit)
      case True
      have "returns (bindE (stem_m s') (\<lambda>n. if n > 1 then Inr (s'\<lparr>sk := sj s'\<rparr>) else Inr s'))
         (\<lambda>s'. stem_inv n rest s' \<and> sk s' \<le> sk s)"
        by (rule returns_bindE[OF stem_m_inv[OF x(2)]])
          (use x True stem_inv_sk[OF x(2), of "sj s'"] in auto)
      with x(1) True show ?thesis by simp
    qed (use x in simp)
  qed
qed (use k inv in \<open>auto simp: stem_inv_def\<close>)

lemma step4_fault:
  assumes "stem_inv n rest s" and "whole_ion s"
  shows "step4 s = Inl MemFault"
proof -
  obtain bs where b: "sb s = ''ion'' @ bs"
    using assms(2) by (metis append_take_drop_id whole_ion_def)
  show ?thesis
    using assms b by (simp add: step4_def whole_ion_def step4_match_def stem_ends_def mem_read_def
        mem_get_def stem_inv_def)
qed

lemma step5_e_ok:
  assumes "stem_inv n rest s" and "sj s = sk s"
  shows "returns (step5_e s) (\<lambda>s'. stem_inv n rest s' \<and> sk s' \<le> sk s \<and> sj s' = sj s)"
  unfolding step5_e_def
proof (rule returns_bindE[OF read_inv[OF assms(1)]])
  let ?P = "\<lambda>s'. stem_inv n rest s' \<and> sk s' \<le> sk s \<and> sj s' = sj s"
  have "returns (bindE (stem_m s) (\<lambda>a.
       if a > 1 then Inr (s\<lparr>sk := sk s - 1\<rparr>)
       else if a = 1
         then bindE (cvc s (sk s - 1)) (\<lambda>x. if \<not> x then Inr (s\<lparr>sk := sk s - 1\<rparr>) else Inr s)
       else Inr s)) ?P"
  proof (rule returns_bindE[OF stem_m_inv[OF assms(1)]])
    show "sj s \<le> sk s" using assms by simp
    fix a :: int assume a: "0 \<le> a \<and> (0 < a \<longrightarrow> 1 \<le> sj s)"
    have "returns (bindE (cvc s (sk s - 1)) (\<lambda>x. if \<not> x then Inr (s\<lparr>sk := sk s - 1\<rparr>) else Inr s)) ?P"
      if "a = 1"
      by (rule returns_bindE[OF cvc_ok[OF assms(1)]]) (use that a assms stem_inv_sk[OF assms(1)] in auto)
    then show "returns (if a > 1 then Inr (s\<lparr>sk := sk s - 1\<rparr>)
       else if a = 1
         then bindE (cvc s (sk s - 1)) (\<lambda>x. if \<not> x then Inr (s\<lparr>sk := sk s - 1\<rparr>) else Inr s)
       else Inr s) ?P"
      using a assms stem_inv_sk[OF assms(1)] by auto
  qed
  then show "returns (if c \<noteq> CHR ''e'' then Inr s
     else
       bindE (stem_m s) (\<lambda>a.
       if a > 1 then Inr (s\<lparr>sk := sk s - 1\<rparr>)
       else if a = 1
         then bindE (cvc s (sk s - 1)) (\<lambda>x. if \<not> x then Inr (s\<lparr>sk := sk s - 1\<rparr>) else Inr s)
       else Inr s)) ?P" for c using assms by simp
qed (use assms in \<open>auto simp: stem_inv_def\<close>)

lemma stem_m_wide:
  "stem_inv n rest s \<Longrightarrow> sj s < int n \<Longrightarrow> returns (stem_m s) (\<lambda>k. 0 \<le> k)"
  by (rule returns_mono[OF stem_m_ok]) (auto simp: stem_inv_def)

lemma step5_ok:
  assumes "stem_inv n rest s"
  shows "returns (step5 s) (\<lambda>s'. stem_inv n rest s' \<and> sk s' \<le> sk s)"
  unfolding step5_def
proof (rule returns_bindE[OF step5_e_ok[OF stem_inv_sj[OF assms]]], simp)
  fix t assume t: "stem_inv n rest t \<and> sk t \<le> sk (s\<lparr>sj := sk s\<rparr>) \<and> sj t = sj (s\<lparr>sj := sk s\<rparr>)"
  then have inv: "stem_inv n rest t" "sk t \<le> sk s" "sj t < int n" using assms by (auto simp: stem_inv_def)
  have m: "returns (bindE (stem_m t) (\<lambda>n. if n > 1 then Inr (t\<lparr>sk := sk t - 1\<rparr>) else Inr t))
      (\<lambda>s'. stem_inv n rest s' \<and> sk s' \<le> sk s)" if "1 \<le> sk t"
    by (rule returns_bindE[OF stem_m_wide[OF inv(1,3)]]) (use that inv stem_inv_sk[OF inv(1)] in auto)
  have d: "returns (bindE (doublec t (sk t)) (\<lambda>dc. if \<not> dc then Inr t
      else bindE (stem_m t) (\<lambda>n. if n > 1 then Inr (t\<lparr>sk := sk t - 1\<rparr>) else Inr t)))
      (\<lambda>s'. stem_inv n rest s' \<and> sk s' \<le> sk s)"
    by (rule returns_bindE[OF doublec_ok[OF inv(1)]]) (use m inv in auto)
  show "returns (bindE (mem_read (sb t) (sk t)) (\<lambda>c.
     if c \<noteq> CHR ''l'' then Inr t
     else bindE (doublec t (sk t)) (\<lambda>dc. if \<not> dc then Inr t
       else bindE (stem_m t) (\<lambda>n. if n > 1 then Inr (t\<lparr>sk := sk t - 1\<rparr>) else Inr t))))
     (\<lambda>s'. stem_inv n rest s' \<and> sk s' \<le> sk s)"
    by (rule returns_bindE[OF read_inv[OF inv(1)]]) (use d inv in \<open>auto simp: stem_inv_def\<close>)
qed

section \<open>The whole algorithm\<close>

text \<open>
  The two ways a word makes the code read before its first byte: after steps 1a and 1b a single
  letter is left (step 2 reads \<open>b[k-1]\<close>), or steps 1 to 3 leave the word \<open>ion\<close>.
\<close>

definition reads_before :: "stemmer \<Rightarrow> bool" where
  "reads_before s =
     (case step1ab s of
        Inl _ \<Rightarrow> False
      | Inr s \<Rightarrow> sk s = 0 \<or> (case steps1c_3 s of Inl _ \<Rightarrow> False | Inr s \<Rightarrow> whole_ion s))"

lemma steps_ok:
  assumes "stem_inv n rest s" and "2 \<le> sk s"
  shows "if reads_before s
    then bindE (step1ab s) (\<lambda>s. bindE (steps1c_3 s) (\<lambda>s. bindE (step4 s) step5)) = Inl MemFault
    else returns (bindE (step1ab s) (\<lambda>s. bindE (steps1c_3 s) (\<lambda>s. bindE (step4 s) step5)))
      (\<lambda>s'. stem_inv n rest s' \<and> sk s' \<le> sk s)"
proof -
  have "returns (step1ab s) (\<lambda>s'. stem_inv n rest s' \<and> sk s' \<le> sk s)"
    unfolding step1ab_def
    by (rule returns_bindE[OF step1a_ok[OF assms]]) (auto intro: returns_mono[OF step1b_ok])
  then obtain s1 where s1: "step1ab s = Inr s1" "stem_inv n rest s1" "sk s1 \<le> sk s" by (auto simp: returns_def)
  from step1c_ok[OF s1(2)] obtain s2 where s2: "step1c s1 = Inr s2" "stem_inv n rest s2" "sk s2 = sk s1"
    by (auto simp: returns_def)
  show ?thesis
  proof (cases "sk s1 = 0")
    case True
    then have "step2 s2 = Inl MemFault" using s2(3) by (simp add: step2_def mem_read_def)
    with s1 s2 True show ?thesis by (simp add: reads_before_def steps1c_3_def)
  next
    case False
    then have "1 \<le> sk s2" using s2(2,3) by (simp add: stem_inv_def)
    with s2 have "returns (steps1c_3 s1) (\<lambda>s'. stem_inv n rest s' \<and> 1 \<le> sk s' \<and> sk s' \<le> sk s2)"
      unfolding steps1c_3_def s2(1) bindE.simps
      by (intro returns_bindE[OF step2_ok]) (auto intro: returns_mono[OF step3_ok])
    then obtain s3 where s3: "steps1c_3 s1 = Inr s3" "stem_inv n rest s3" "1 \<le> sk s3" "sk s3 \<le> sk s2"
      by (auto simp: returns_def)
    show ?thesis
    proof (cases "whole_ion s3")
      case True
      with s1 s3 step4_fault[OF s3(2)] show ?thesis by (simp add: reads_before_def)
    next
      case ion: False
      have "returns (bindE (step4 s3) step5) (\<lambda>s'. stem_inv n rest s' \<and> sk s' \<le> sk s3)"
        by (rule returns_bindE[OF step4_ok[OF s3(2,3) ion]]) (auto intro: returns_mono[OF step5_ok])
      then have "returns (bindE (step4 s3) step5) (\<lambda>s'. stem_inv n rest s' \<and> sk s' \<le> sk s)"
        by (rule returns_mono) (use s1 s2 s3 in auto)
      with False ion s1 s3 show ?thesis by (simp add: reads_before_def)
    qed
  qed
qed

text \<open>(C22) Stemming never lengthens a word and stays inside it: for every word and whatever follows
  it in memory, \<open>stem\<close> returns an end point inside the word and leaves the bytes after the word
  alone, except that it reads before the first byte exactly for the words that steps 1a and 1b
  cut down to one letter or that are \<open>ion\<close> when step 4 starts.\<close>

theorem stem_stays_in_word:
  assumes "w \<noteq> []"
  shows "if 3 \<le> length w \<and> reads_before (stem_start (w @ rest) 0 (int (length w) - 1) s)
    then stem (w @ rest) 0 (int (length w) - 1) s = Inl MemFault
    else \<exists>k s'. stem (w @ rest) 0 (int (length w) - 1) s = Inr (k, s') \<and> 0 \<le> k \<and> k < int (length w) \<and>
      (\<exists>w'. length w' = length w \<and> sb s' = w' @ rest)"
proof -
  define start where "start = stem_start (w @ rest) 0 (int (length w) - 1) s"
  have inv: "stem_inv (length w) rest start" using assms by (cases w) (auto simp: start_def stem_start_def stem_inv_def)
  have result: "\<exists>w'. length w' = length w \<and> sb s' = w' @ rest" if "stem_inv (length w) rest s'" for s'
    using that by (intro exI[of _ "take (length w) (sb s')"]) (auto simp: stem_inv_def intro: append_take_drop_id[symmetric])
  have run: "stem (w @ rest) 0 (int (length w) - 1) s =
    (if length w < 3 then Inr (int (length w) - 1, start)
     else bindE (bindE (step1ab start) (\<lambda>s. bindE (steps1c_3 s) (\<lambda>s. bindE (step4 s) step5))) (\<lambda>s. Inr (sk s, s)))"
    by (auto simp: stem_def Let_def start_def stem_start_def bindE_assoc)
  show ?thesis
  proof (cases "length w < 3")
    case True
    with run result[OF inv] assms show ?thesis by (cases w) auto
  next
    case False
    then have "2 \<le> sk start" by (simp add: start_def stem_start_def)
    note ok = steps_ok[OF inv this]
    show ?thesis
    proof (cases "reads_before start")
      case True
      with ok run False show ?thesis unfolding start_def[symmetric] by simp
    next
      case nf: False
      with ok obtain s' where s': "bindE (step1ab start) (\<lambda>s. bindE (steps1c_3 s) (\<lambda>s. bindE (step4 s) step5)) = Inr s'"
        "stem_inv (length w) rest s'" unfolding returns_def by auto
      then have "stem (w @ rest) 0 (int (length w) - 1) s = Inr (sk s', s')"
        using run False by simp
      moreover have "0 \<le> sk s'" "sk s' < int (length w)" using s'(2) by (auto simp: stem_inv_def)
      ultimately show ?thesis using nf result[OF s'(2)] unfolding start_def[symmetric] by auto
    qed
  qed
qed

theorem stem_stays_in_word_witness:
  "stem (cstr ''ies'') 0 2 \<lparr>sb = [], sk = 0, sk0 = 0, sj = 0\<rparr> = Inl MemFault \<and>
   (\<exists>k s'. stem (cstr ''hopes'') 0 4 \<lparr>sb = [], sk = 0, sk0 = 0, sj = 0\<rparr> = Inr (k, s') \<and> 0 \<le> k \<and> k < 5 \<and>
     (\<exists>w'. length w' = length ''hopes'' \<and> sb s' = w' @ [NUL]))"
proof -
  have "reads_before \<lparr>sb = ''ies'' @ [NUL], sk = 2, sk0 = 0, sj = 0\<rparr>"
    and "\<not> reads_before \<lparr>sb = ''hopes'' @ [NUL], sk = 4, sk0 = 0, sj = 0\<rparr>" by code_simp+
  then show ?thesis
    using stem_stays_in_word[of "''ies''" "[NUL]" "\<lparr>sb = [], sk = 0, sk0 = 0, sj = 0\<rparr>"]
      stem_stays_in_word[of "''hopes''" "[NUL]" "\<lparr>sb = [], sk = 0, sk0 = 0, sj = 0\<rparr>"]
    by (simp add: cstr_def stem_start_def flip: numeral_eq_Suc)
qed

end
