(* ===== verification/PorterText.thy ===== *)
theory PorterText
  imports Porter
begin

text \<open>
  \<open>cPorterStemming::Process\<close> of \<open>pstemming.cpp\<close>: the words of a text are stemmed in the buffer
  \<open>m_Word\<close>, collected in \<open>m_OutBuffer\<close> with a blank after each, and copied back over the text. The text is the caller's array, with its size.
\<close>

record cPorterStemming =
  m_Word :: cBuffer
  m_InBuffer :: cBuffer
  m_OutBuffer :: cBuffer
  m_stemmer :: stemmer

definition cPorterStemming_new :: "stemmer \<Rightarrow> cPorterStemming" where
  "cPorterStemming_new junk =
     \<lparr>m_Word = cBuffer_new, m_InBuffer = cBuffer_new, m_OutBuffer = cBuffer_new, m_stemmer = junk\<rparr>"

definition stem_seps :: string where
  "stem_seps = '' |<>@!#$%^'' @ [CHR 0x27, CHR 0x60] @ ''&*()~:;'' @ [CHR 0x22] @ ''.,_-+='' @ [TAB, CHR ''?'']"

text \<open>
  The body of the loop for one word: \<open>True\<close> when it ends with the \<open>break\<close>. \<open>Append\<close> takes the
  C string of the word, up to the terminator written at \<open>len + 1\<close>.
\<close>

definition process_word :: "malloc \<Rightarrow> string \<Rightarrow> cPorterStemming \<Rightarrow> (bool \<times> cPorterStemming) res" where
  "process_word ml p o1 =
     bindE (cBuffer_ReplaceWith ml (Some (cstr p)) (-1) (m_Word o1)) (\<lambda>(_, wd).
     bindE (cBuffer_cstr wd) (\<lambda>(pWord, wd).
     bindE (cstr_at (deref pWord) 0) (\<lambda>str.
     bindE (stem (deref pWord) 0 (int (length str) - 1) (m_stemmer o1)) (\<lambda>(len, st).
     let o1 = o1\<lparr>m_Word := set_block (sb st) wd, m_stemmer := st\<rparr> in
     if len = 0 then Inr (True, o1)
     else
       bindE (mem_write (sb st) (len + 1) NUL) (\<lambda>blk.
       bindE (cBuffer_MakeString (set_block blk wd)) (\<lambda>wd.
       bindE (cBuffer_cstr wd) (\<lambda>(pw, wd).
       bindE (cBuffer_Append ml pw (-1) (m_OutBuffer o1)) (\<lambda>(_, out).
       bindE (cBuffer_Append ml (Some (cstr '' '')) (-1) out) (\<lambda>(_, out).
       Inr (False, o1\<lparr>m_Word := wd, m_OutBuffer := out\<rparr>))))))))))"

function process_loop :: "malloc \<Rightarrow> string option \<Rightarrow> block \<Rightarrow> cPorterStemming \<Rightarrow> cPorterStemming res" where
  "process_loop ml p mark o1 =
     (case p of
        None \<Rightarrow> Inr o1
      | Some w \<Rightarrow>
          bindE (process_word ml w o1) (\<lambda>(stop, o1).
          if stop then Inr o1
          else bindE (strtok stem_seps mark) (\<lambda>(p, mark).
            case p of None \<Rightarrow> Inr o1 | Some w' \<Rightarrow> process_loop ml (Some w') mark o1)))"
  by pat_completeness auto
termination
  by (relation "measure (\<lambda>(ml, p, mark, o1). length mark)") (auto dest!: strtok_shorter(1))

declare process_loop.simps [simp del]

text \<open>
  A null first argument makes \<open>strtok\<close> continue with a marker that no call has set; the model
  faults there. At the end the blank after the last word is cut off by position.
\<close>

definition cPorterStemming_Process ::
    "malloc \<Rightarrow> block \<Rightarrow> cPorterStemming \<Rightarrow> (int \<times> block \<times> cPorterStemming) res" where
  "cPorterStemming_Process ml pszString o1 =
     bindE (cBuffer_ReplaceWith ml (Some pszString) (-1) (m_InBuffer o1)) (\<lambda>(_, inb).
     bindE (cBuffer_cstr inb) (\<lambda>(p, inb).
     let o1 = o1\<lparr>m_InBuffer := inb, m_OutBuffer := cBuffer_Reset (m_OutBuffer o1)\<rparr> in
     bindE (strtok stem_seps (deref p)) (\<lambda>(p, mark).
     bindE (process_loop ml p mark o1) (\<lambda>o1.
     bindE (cBuffer_cstr (m_OutBuffer o1)) (\<lambda>(p, out).
       case p of
         None \<Rightarrow> Inr (0, pszString, o1\<lparr>m_OutBuffer := out\<rparr>)
       | Some blk \<Rightarrow>
           bindE (mem_write blk (cBuffer_StringLen out - 1) NUL) (\<lambda>blk.
           bindE (cBuffer_MakeString (set_block blk out)) (\<lambda>out.
           bindE (cBuffer_cstr out) (\<lambda>(q, out).
           bindE (cstr_at (deref q) 0) (\<lambda>s.
           bindE (mem_put pszString 0 (cstr s)) (\<lambda>txt.
           Inr (0, txt, o1\<lparr>m_OutBuffer := out\<rparr>)))))))))))"

section \<open>A word of one letter\<close>

lemma stem_one: "stem blk 0 0 s = Inr (0, stem_start blk 0 0 s)"
  by (simp add: stem_def stem_start_def Let_def)

text \<open>Storing a non-empty C string in a buffer and taking its pointer.\<close>

lemma replace_cstr:
  assumes "malloc_total ml" and "buf_inv b" and "NUL \<notin> set s" and "s \<noteq> []"
  shows "\<exists>rc b1 blk b2. cBuffer_ReplaceWith ml (Some (cstr s)) (-1) b = Inr (rc, b1) \<and>
    cBuffer_cstr b1 = Inr (Some blk, b2) \<and> buf_inv b2 \<and> (\<exists>r. blk = s @ NUL # r)"
proof -
  have len: "length s \<le> length (cstr s)" by simp
  obtain rc b1 where b1: "cBuffer_ReplaceWith ml (Some (cstr s)) (-1) b = Inr (rc, b1)" "buf_inv b1"
    "buf_contents b1 = s" "buf_terminated b1" "m_pBuffer b1 \<noteq> None"
  proof -
    have "\<exists>x. cBuffer_Append ml (Some (cstr s)) (int (length s)) (cBuffer_Reset b) = Inr x \<and>
      (case x of (rc, b') \<Rightarrow> buf_inv b' \<and> buf_contents b' = s \<and> buf_terminated b' \<and> m_pBuffer b' \<noteq> None)"
      using safe_res_total[OF Append_safe[OF malloc_total_spec[OF assms(1)] buf_inv_Reset[OF assms(2)] len] assms(1)]
        assms(4) by fastforce
    then show ?thesis using that by (auto simp: cBuffer_ReplaceWith_def arg_len_cstr[OF assms(3)])
  qed
  obtain blk where blk: "m_pBuffer b1 = Some blk" using b1(5) by auto
  from buf_inv_Some_nat[OF b1(2) blk] obtain t z where t: "m_iTail b1 = int t" "t < length blk"
    by (metis dual_order.strict_trans1 of_nat_less_iff)
  have s: "take t blk = s" "length s = t" using b1(3) blk t by (auto simp: buf_contents_def)
  have "buf_terminated b1" by (rule b1(4))
  with blk t have "blk ! t = NUL" by (simp add: buf_terminated_def)
  then have shape: "blk = s @ NUL # drop (Suc t) blk" using t(2) s(1) by (metis id_take_nth_drop)
  have "cBuffer_cstr b1 = Inr (Some blk, b1)"
    using blk t \<open>blk ! t = NUL\<close> by (auto simp: cBuffer_cstr_def mem_write_ok list_update_same_conv)
  then show ?thesis using b1(1,2) shape by blast
qed

text \<open>A word of one letter stops the processing of a text: when it comes first, a fresh stemmer
  leaves the whole text as it was, and a stemmer that has produced output before writes a zero
  byte in front of its output buffer.\<close>

theorem one_letter_word_stops:
  assumes "malloc_total ml" and "buf_inv (m_InBuffer o1)" and "buf_inv (m_Word o1)"
    and "is_token stem_seps [c]" and "NUL \<notin> set rest"
  shows "if m_pBuffer (m_OutBuffer o1) = None
    then \<exists>o2. cPorterStemming_Process ml (cstr (c # CHR '' '' # rest)) o1 = Inr (0, cstr (c # CHR '' '' # rest), o2)
    else cPorterStemming_Process ml (cstr (c # CHR '' '' # rest)) o1 = Inl MemFault"
proof -
  let ?text = "c # CHR '' '' # rest"
  have c: "c \<noteq> NUL" using assms(4) by (auto simp: is_token_def)
  obtain rc i1 iblk i2 r where i: "cBuffer_ReplaceWith ml (Some (cstr ?text)) (-1) (m_InBuffer o1) = Inr (rc, i1)"
    "cBuffer_cstr i1 = Inr (Some iblk, i2)" "iblk = ?text @ NUL # r"
    using replace_cstr[OF assms(1,2), of ?text] c assms(5) by auto
  have tok: "strtok stem_seps iblk = Inr (Some [c], rest @ NUL # r)"
    using strtok_sep[OF assms(4), of "CHR '' ''" "rest @ NUL # r"] by (simp add: i(3) stem_seps_def)
  obtain rc' w1 wblk w2 q where w: "cBuffer_ReplaceWith ml (Some (cstr [c])) (-1) (m_Word o1) = Inr (rc', w1)"
    "cBuffer_cstr w1 = Inr (Some wblk, w2)" "wblk = [c] @ NUL # q"
    using replace_cstr[OF assms(1,3), of "[c]"] c by auto
  have str: "cstr_at wblk 0 = Inr [c]" using c by (simp add: w(3) cstr_at_def c_prefix_def)
  define o2 where "o2 = o1\<lparr>m_InBuffer := i2, m_OutBuffer := cBuffer_Reset (m_OutBuffer o1)\<rparr>"
  obtain o3 where o3: "process_word ml [c] o2 = Inr (True, o3)" "m_OutBuffer o3 = cBuffer_Reset (m_OutBuffer o1)"
    using w str by (simp add: process_word_def stem_one Let_def o2_def)
  then have loop: "process_loop ml (Some [c]) (rest @ NUL # r) o2 = Inr o3"
    by (subst process_loop.simps) simp
  define fin where "fin = (\<lambda>(p, out). case p of
         None \<Rightarrow> Inr (0 :: int, cstr ?text, o3\<lparr>m_OutBuffer := out\<rparr>)
       | Some blk \<Rightarrow>
           bindE (mem_write blk (cBuffer_StringLen out - 1) NUL) (\<lambda>blk.
           bindE (cBuffer_MakeString (set_block blk out)) (\<lambda>out.
           bindE (cBuffer_cstr out) (\<lambda>(q, out).
           bindE (cstr_at (deref q) 0) (\<lambda>s.
           bindE (mem_put (cstr ?text) 0 (cstr s)) (\<lambda>txt.
           Inr (0, txt, o3\<lparr>m_OutBuffer := out\<rparr>)))))))"
  have run: "cPorterStemming_Process ml (cstr ?text) o1 = bindE (cBuffer_cstr (cBuffer_Reset (m_OutBuffer o1))) fin"
    unfolding cPorterStemming_Process_def i(1) bindE.simps prod.case i(2) Let_def
    by (simp add: tok loop o3(2) fin_def flip: o2_def)
  show ?thesis
    unfolding run
    by (auto simp: fin_def cBuffer_cstr_def cBuffer_Reset_def cBuffer_StringLen_def mem_write_def
        split: option.splits)
qed

theorem one_letter_word_stops_witness:
  "\<exists>o2. cPorterStemming_Process zero_malloc (cstr ''a text'')
     (cPorterStemming_new \<lparr>sb = [], sk = 0, sk0 = 0, sj = 0\<rparr>) = Inr (0, cstr ''a text'', o2)"
proof -
  have null: "m_pBuffer cBuffer_new = None" by (simp add: cBuffer_new_def)
  show ?thesis
  using one_letter_word_stops[of zero_malloc "cPorterStemming_new \<lparr>sb = [], sk = 0, sk0 = 0, sj = 0\<rparr>"
      "CHR ''a''" "''text''"]
  by (simp add: malloc_total_zero cPorterStemming_new_def is_token_def stem_seps_def null)
qed

end
