(* ===== verification/XmlList.thy ===== *)
theory XmlList
  imports Mc_Prelude
begin

text \<open>
  \<open>cXMLLiteList\<close> of \<open>xmlliteparser.cpp\<close>: a doubly linked list with a cursor. The nodes live in a
  store of their own, addressed by numbers; following a pointer to a node that was freed or
  never set faults. The abstract specification is a plain list with a cursor position and a
  saved position, and every sequence of in-contract calls gives the same results on both.
\<close>

definition HRC_XMLLITELIST_OK :: int where "HRC_XMLLITELIST_OK = 0"
definition HRC_XMLLITELIST_EMPTY :: int where "HRC_XMLLITELIST_EMPTY = 1"
definition HRC_XMLLITELIST_BEGIN :: int where "HRC_XMLLITELIST_BEGIN = 2"
definition HRC_XMLLITELIST_END :: int where "HRC_XMLLITELIST_END = 3"
definition HRC_XMLLITEPARSER_ALLOC :: int where "HRC_XMLLITEPARSER_ALLOC = 3"

section \<open>Nodes and the list\<close>

record 'd node =
  pData :: "'d option"
  pNext :: "nat option"
  pPrev :: "nat option"

record 'd cXMLLiteList =
  nodes :: "nat \<rightharpoonup> 'd node"
  fresh :: nat
  m_pHead :: "nat option"
  m_pTail :: "nat option"
  m_pCurrent :: "nat option"
  m_pMarker :: "nat option"
  m_iTotalEntries :: int

text \<open>The constructor leaves \<open>m_pMarker\<close> alone.\<close>

definition cXMLLiteList_new :: "nat option \<Rightarrow> 'd cXMLLiteList" where
  "cXMLLiteList_new marker =
     \<lparr>nodes = Map.empty, fresh = 0, m_pHead = None, m_pTail = None, m_pCurrent = None,
      m_pMarker = marker, m_iTotalEntries = 0\<rparr>"

definition at_node :: "nat option \<Rightarrow> 'd cXMLLiteList \<Rightarrow> 'd node res" where
  "at_node p l =
     (case p of None \<Rightarrow> Inl MemFault
      | Some a \<Rightarrow> (case nodes l a of None \<Rightarrow> Inl MemFault | Some n \<Rightarrow> Inr n))"

definition set_node :: "nat option \<Rightarrow> 'd node \<Rightarrow> 'd cXMLLiteList \<Rightarrow> 'd cXMLLiteList" where
  "set_node p n l = (case p of None \<Rightarrow> l | Some a \<Rightarrow> l\<lparr>nodes := (nodes l)(a \<mapsto> n)\<rparr>)"

text \<open>\<open>malloc(sizeof(List))\<close>, which succeeds when \<open>ok\<close> holds; the new node holds \<open>junk\<close>.\<close>

definition new_node :: "bool \<Rightarrow> 'd node \<Rightarrow> 'd cXMLLiteList \<Rightarrow> nat option \<times> 'd cXMLLiteList" where
  "new_node ok junk l =
     (if ok then (Some (fresh l), l\<lparr>nodes := (nodes l)(fresh l \<mapsto> junk), fresh := fresh l + 1\<rparr>)
      else (None, l))"

text \<open>The loop of \<open>Clear\<close> frees the nodes from the tail to the head.\<close>

fun clear_loop :: "nat \<Rightarrow> nat option \<Rightarrow> 'd cXMLLiteList \<Rightarrow> 'd cXMLLiteList res" where
  "clear_loop fuel None l = Inr l"
| "clear_loop 0 (Some a) l = Inl Diverge"
| "clear_loop (Suc fuel) (Some a) l =
     bindE (at_node (Some a) l) (\<lambda>n.
     clear_loop fuel (pPrev n) (l\<lparr>nodes := (nodes l)(a := None)\<rparr>))"

definition cXMLLiteList_Clear :: "'d cXMLLiteList \<Rightarrow> 'd cXMLLiteList res" where
  "cXMLLiteList_Clear l =
     (if m_pHead l = None then Inr l
      else
        bindE (clear_loop (fresh l) (m_pTail l) l) (\<lambda>l.
        Inr (l\<lparr>m_pHead := None, m_pTail := None, m_pCurrent := None\<rparr>)))"

definition cXMLLiteList_PlaceAtHead :: "bool \<Rightarrow> 'd node \<Rightarrow> 'd option \<Rightarrow> 'd cXMLLiteList \<Rightarrow> int \<times> 'd cXMLLiteList" where
  "cXMLLiteList_PlaceAtHead ok junk d l =
     (case new_node ok junk l of
        (None, l) \<Rightarrow> (HRC_XMLLITEPARSER_ALLOC, l\<lparr>m_pHead := None\<rparr>)
      | (Some a, l) \<Rightarrow>
          (HRC_XMLLITELIST_OK,
           (set_node (Some a) \<lparr>pData = d, pNext = None, pPrev = None\<rparr> l)
             \<lparr>m_pHead := Some a, m_pCurrent := Some a, m_pTail := Some a,
              m_iTotalEntries := m_iTotalEntries l + 1\<rparr>))"

definition cXMLLiteList_Add :: "bool \<Rightarrow> 'd node \<Rightarrow> 'd option \<Rightarrow> 'd cXMLLiteList \<Rightarrow> (int \<times> 'd cXMLLiteList) res" where
  "cXMLLiteList_Add ok junk d l =
     (if m_pHead l = None then Inr (cXMLLiteList_PlaceAtHead ok junk d l)
      else
        bindE (at_node (m_pTail l) l) (\<lambda>p.
        case new_node ok junk l of
          (None, l) \<Rightarrow> Inr (HRC_XMLLITEPARSER_ALLOC, set_node (m_pTail l) (p\<lparr>pNext := None\<rparr>) l)
        | (Some a, l) \<Rightarrow>
            (let l = set_node (m_pTail l) (p\<lparr>pNext := Some a\<rparr>) l in
             Inr (HRC_XMLLITELIST_OK,
               (set_node (Some a) \<lparr>pData = d, pNext = None, pPrev = m_pTail l\<rparr> l)
                 \<lparr>m_pTail := Some a, m_iTotalEntries := m_iTotalEntries l + 1\<rparr>))))"

text \<open>\<open>Insert\<close> never stores \<open>pData\<close> in the node and leaves the tail and the count alone.\<close>

definition cXMLLiteList_Insert :: "bool \<Rightarrow> 'd node \<Rightarrow> 'd option \<Rightarrow> 'd cXMLLiteList \<Rightarrow> (int \<times> 'd cXMLLiteList) res" where
  "cXMLLiteList_Insert ok junk d l =
     (if m_pHead l = None then Inr (cXMLLiteList_PlaceAtHead ok junk d l)
      else
        case new_node ok junk l of
          (None, l) \<Rightarrow> Inr (HRC_XMLLITEPARSER_ALLOC, l)
        | (Some a, l) \<Rightarrow>
            bindE (at_node (m_pCurrent l) l) (\<lambda>c.
            if pNext c = None
            then
              Inr (HRC_XMLLITELIST_OK,
                set_node (Some a) (junk\<lparr>pPrev := m_pCurrent l, pNext := None\<rparr>)
                  (set_node (m_pCurrent l) (c\<lparr>pNext := Some a\<rparr>) l))
            else
              bindE (at_node (pNext c) l) (\<lambda>n.
              Inr (HRC_XMLLITELIST_OK,
                set_node (m_pCurrent l) (c\<lparr>pNext := Some a\<rparr>)
                  (set_node (pNext c) (n\<lparr>pPrev := Some a\<rparr>)
                    (set_node (Some a) (junk\<lparr>pNext := pNext c, pPrev := m_pCurrent l\<rparr>) l))))))"

definition cXMLLiteList_GetData :: "'d cXMLLiteList \<Rightarrow> 'd option res" where
  "cXMLLiteList_GetData l =
     (if m_pCurrent l = None then Inr None
      else bindE (at_node (m_pCurrent l) l) (\<lambda>n. Inr (pData n)))"

definition cXMLLiteList_MoveToHead :: "'d cXMLLiteList \<Rightarrow> int \<times> 'd cXMLLiteList" where
  "cXMLLiteList_MoveToHead l =
     (if m_pHead l = None then (HRC_XMLLITELIST_EMPTY, l\<lparr>m_pCurrent := None\<rparr>)
      else (HRC_XMLLITELIST_OK, l\<lparr>m_pCurrent := m_pHead l\<rparr>))"

definition cXMLLiteList_MoveToTail :: "'d cXMLLiteList \<Rightarrow> int \<times> 'd cXMLLiteList" where
  "cXMLLiteList_MoveToTail l =
     (if m_pTail l = None then (HRC_XMLLITELIST_EMPTY, l\<lparr>m_pCurrent := None\<rparr>)
      else (HRC_XMLLITELIST_OK, l\<lparr>m_pCurrent := m_pTail l\<rparr>))"

definition move_along ::
    "('d node \<Rightarrow> nat option) \<Rightarrow> int \<Rightarrow> 'd cXMLLiteList \<Rightarrow> (int \<times> 'd cXMLLiteList) res" where
  "move_along link rc l =
     (if m_pHead l = None then Inr (HRC_XMLLITELIST_EMPTY, l\<lparr>m_pCurrent := None\<rparr>)
      else if m_pCurrent l = None then Inr (rc, l)
      else
        bindE (at_node (m_pCurrent l) l) (\<lambda>n.
        if link n \<noteq> None then Inr (HRC_XMLLITELIST_OK, l\<lparr>m_pCurrent := link n\<rparr>)
        else Inr (rc, l\<lparr>m_pCurrent := None\<rparr>)))"

definition cXMLLiteList_MoveNext :: "'d cXMLLiteList \<Rightarrow> (int \<times> 'd cXMLLiteList) res" where
  "cXMLLiteList_MoveNext l = move_along pNext HRC_XMLLITELIST_END l"

definition cXMLLiteList_MovePrev :: "'d cXMLLiteList \<Rightarrow> (int \<times> 'd cXMLLiteList) res" where
  "cXMLLiteList_MovePrev l = move_along pPrev HRC_XMLLITELIST_BEGIN l"

definition cXMLLiteList_GetCurrentNode :: "'d cXMLLiteList \<Rightarrow> nat option" where
  "cXMLLiteList_GetCurrentNode l = m_pCurrent l"

definition cXMLLiteList_MoveToNode :: "nat option \<Rightarrow> 'd cXMLLiteList \<Rightarrow> int \<times> 'd cXMLLiteList" where
  "cXMLLiteList_MoveToNode h l = (HRC_XMLLITELIST_OK, l\<lparr>m_pCurrent := h\<rparr>)"

definition cXMLLiteList_IsEmpty :: "'d cXMLLiteList \<Rightarrow> bool" where
  "cXMLLiteList_IsEmpty l \<longleftrightarrow> m_pHead l = None"

definition cXMLLiteList_GetTotalEntries :: "'d cXMLLiteList \<Rightarrow> int" where
  "cXMLLiteList_GetTotalEntries l = m_iTotalEntries l"

definition cXMLLiteList_SavePos :: "'d cXMLLiteList \<Rightarrow> 'd cXMLLiteList" where
  "cXMLLiteList_SavePos l = l\<lparr>m_pMarker := m_pCurrent l\<rparr>"

definition cXMLLiteList_RestorePos :: "'d cXMLLiteList \<Rightarrow> 'd cXMLLiteList" where
  "cXMLLiteList_RestorePos l = l\<lparr>m_pCurrent := m_pMarker l\<rparr>"

section \<open>The specification: a list with a cursor\<close>

record 'd clist =
  items :: "'d option list"
  cursor :: "nat option"
  saved :: "nat option option"
  added :: int

datatype 'd list_op =
    LAdd "'d option" | LClear | LGetData | LHead | LTail | LNext | LPrev | LSave | LRestore
  | LIsEmpty | LTotal

datatype 'd list_out = OutCode int | OutData "'d option" | OutFlag bool | OutNone

text \<open>\<open>None\<close> where the contract is broken: \<open>RestorePos\<close> with no position saved in this list.\<close>

fun spec_op :: "'d list_op \<Rightarrow> 'd clist \<Rightarrow> ('d list_out \<times> 'd clist) option" where
  "spec_op (LAdd d) c = Some (OutCode HRC_XMLLITELIST_OK,
     c\<lparr>items := items c @ [d], cursor := (if items c = [] then Some 0 else cursor c), added := added c + 1\<rparr>)"
| "spec_op LClear c = Some (OutNone,
     (if items c = [] then c else c\<lparr>items := [], cursor := None, saved := None\<rparr>))"
| "spec_op LGetData c = Some (OutData (case cursor c of None \<Rightarrow> None | Some i \<Rightarrow> items c ! i), c)"
| "spec_op LHead c = Some (if items c = [] then (OutCode HRC_XMLLITELIST_EMPTY, c\<lparr>cursor := None\<rparr>)
     else (OutCode HRC_XMLLITELIST_OK, c\<lparr>cursor := Some 0\<rparr>))"
| "spec_op LTail c = Some (if items c = [] then (OutCode HRC_XMLLITELIST_EMPTY, c\<lparr>cursor := None\<rparr>)
     else (OutCode HRC_XMLLITELIST_OK, c\<lparr>cursor := Some (length (items c) - 1)\<rparr>))"
| "spec_op LNext c = Some (if items c = [] then (OutCode HRC_XMLLITELIST_EMPTY, c\<lparr>cursor := None\<rparr>)
     else case cursor c of
       None \<Rightarrow> (OutCode HRC_XMLLITELIST_END, c)
     | Some i \<Rightarrow> if i + 1 < length (items c) then (OutCode HRC_XMLLITELIST_OK, c\<lparr>cursor := Some (i + 1)\<rparr>)
         else (OutCode HRC_XMLLITELIST_END, c\<lparr>cursor := None\<rparr>))"
| "spec_op LPrev c = Some (if items c = [] then (OutCode HRC_XMLLITELIST_EMPTY, c\<lparr>cursor := None\<rparr>)
     else case cursor c of
       None \<Rightarrow> (OutCode HRC_XMLLITELIST_BEGIN, c)
     | Some i \<Rightarrow> if i > 0 then (OutCode HRC_XMLLITELIST_OK, c\<lparr>cursor := Some (i - 1)\<rparr>)
         else (OutCode HRC_XMLLITELIST_BEGIN, c\<lparr>cursor := None\<rparr>))"
| "spec_op LSave c = Some (OutNone, c\<lparr>saved := Some (cursor c)\<rparr>)"
| "spec_op LRestore c = map_option (\<lambda>p. (OutNone, c\<lparr>cursor := p\<rparr>)) (saved c)"
| "spec_op LIsEmpty c = Some (OutFlag (items c = []), c)"
| "spec_op LTotal c = Some (OutCode (added c), c)"

text \<open>The code's side of an operation, with a successful \<open>malloc\<close> of a node holding \<open>junk\<close>.\<close>

fun run_list_op :: "'d node \<Rightarrow> 'd list_op \<Rightarrow> 'd cXMLLiteList \<Rightarrow> ('d list_out \<times> 'd cXMLLiteList) res" where
  "run_list_op junk (LAdd d) l = bindE (cXMLLiteList_Add True junk d l) (\<lambda>(rc, l). Inr (OutCode rc, l))"
| "run_list_op junk LClear l = bindE (cXMLLiteList_Clear l) (\<lambda>l. Inr (OutNone, l))"
| "run_list_op junk LGetData l = bindE (cXMLLiteList_GetData l) (\<lambda>d. Inr (OutData d, l))"
| "run_list_op junk LHead l = (case cXMLLiteList_MoveToHead l of (rc, l) \<Rightarrow> Inr (OutCode rc, l))"
| "run_list_op junk LTail l = (case cXMLLiteList_MoveToTail l of (rc, l) \<Rightarrow> Inr (OutCode rc, l))"
| "run_list_op junk LNext l = bindE (cXMLLiteList_MoveNext l) (\<lambda>(rc, l). Inr (OutCode rc, l))"
| "run_list_op junk LPrev l = bindE (cXMLLiteList_MovePrev l) (\<lambda>(rc, l). Inr (OutCode rc, l))"
| "run_list_op junk LSave l = Inr (OutNone, cXMLLiteList_SavePos l)"
| "run_list_op junk LRestore l = Inr (OutNone, cXMLLiteList_RestorePos l)"
| "run_list_op junk LIsEmpty l = Inr (OutFlag (cXMLLiteList_IsEmpty l), l)"
| "run_list_op junk LTotal l = Inr (OutCode (cXMLLiteList_GetTotalEntries l), l)"

section \<open>The representation\<close>

text \<open>The \<open>i\<close>-th node of a list of addresses \<open>xs\<close> with contents \<open>ds\<close>.\<close>

definition link_at :: "nat list \<Rightarrow> nat \<Rightarrow> nat option" where
  "link_at xs i = (if i < length xs then Some (xs ! i) else None)"

definition node_at :: "nat list \<Rightarrow> 'd option list \<Rightarrow> nat \<Rightarrow> 'd node" where
  "node_at xs ds i =
     \<lparr>pData = ds ! i, pNext = link_at xs (Suc i), pPrev = (if i = 0 then None else link_at xs (i - 1))\<rparr>"

definition chain :: "nat list \<Rightarrow> 'd option list \<Rightarrow> 'd cXMLLiteList \<Rightarrow> bool" where
  "chain xs ds l \<longleftrightarrow>
     length xs = length ds \<and> distinct xs \<and> (\<forall>a \<in> set xs. a < fresh l) \<and>
     (\<forall>i < length xs. nodes l (xs ! i) = Some (node_at xs ds i)) \<and>
     m_pHead l = link_at xs 0 \<and> m_pTail l = (if xs = [] then None else Some (last xs))"

definition at_pos :: "nat list \<Rightarrow> nat option \<Rightarrow> nat option \<Rightarrow> bool" where
  "at_pos xs p a \<longleftrightarrow> (case p of None \<Rightarrow> a = None | Some i \<Rightarrow> i < length xs \<and> a = Some (xs ! i))"

definition represents :: "'d cXMLLiteList \<Rightarrow> 'd clist \<Rightarrow> bool" where
  "represents l c \<longleftrightarrow>
     (\<exists>xs. chain xs (items c) l \<and> at_pos xs (cursor c) (m_pCurrent l) \<and>
       (\<forall>p. saved c = Some p \<longrightarrow> at_pos xs p (m_pMarker l)) \<and> m_iTotalEntries l = added c)"

lemma chain_node: "chain xs ds l \<Longrightarrow> i < length xs \<Longrightarrow> at_node (Some (xs ! i)) l = Inr (node_at xs ds i)"
  by (simp add: chain_def at_node_def)

lemma chain_empty: "chain xs ds l \<Longrightarrow> m_pHead l = None \<longleftrightarrow> ds = []"
  by (auto simp: chain_def link_at_def)

lemma chain_cursor: "chain xs ds (l\<lparr>m_pCurrent := p\<rparr>) = chain xs ds l"
  "chain xs ds (l\<lparr>m_pMarker := p\<rparr>) = chain xs ds l"
  by (simp_all add: chain_def)

lemma at_pos_append: "at_pos xs p a \<Longrightarrow> at_pos (xs @ ys) p a"
  by (auto simp: at_pos_def nth_append split: option.splits)

text \<open>Appending a node links the old tail to it and changes no other node.\<close>

lemma node_at_append:
  assumes "length xs = length ds" and "i < length xs"
  shows "node_at (xs @ [a]) (ds @ [d]) i =
    (if Suc i = length xs then (node_at xs ds i)\<lparr>pNext := Some a\<rparr> else node_at xs ds i)"
  using assms by (auto simp: node_at_def link_at_def nth_append)

lemma Add_ok:
  assumes "chain xs ds l"
  shows "\<exists>l'. cXMLLiteList_Add True junk d l = Inr (HRC_XMLLITELIST_OK, l') \<and>
    chain (xs @ [fresh l]) (ds @ [d]) l' \<and> m_iTotalEntries l' = m_iTotalEntries l + 1 \<and>
    m_pMarker l' = m_pMarker l \<and>
    m_pCurrent l' = (if xs = [] then Some (fresh l) else m_pCurrent l)"
proof (cases "xs = []")
  case True
  with assms show ?thesis
    by (auto simp: cXMLLiteList_Add_def cXMLLiteList_PlaceAtHead_def new_node_def set_node_def chain_def
        link_at_def node_at_def)
next
  case False
  define k where "k = length xs - 1"
  have k: "k < length xs" "Suc k = length xs" "last xs = xs ! k"
    using False by (auto simp: k_def last_conv_nth)
  have tail: "m_pTail l = Some (xs ! k)" "m_pHead l = Some (xs ! 0)" and len: "length xs = length ds"
    and dist: "distinct xs" and old: "\<forall>a \<in> set xs. a < fresh l"
    and nd: "\<forall>i < length xs. nodes l (xs ! i) = Some (node_at xs ds i)"
    using assms False k by (auto simp: chain_def link_at_def)
  define l' where "l' = l\<lparr>nodes := (nodes l)(fresh l \<mapsto> \<lparr>pData = d, pNext = None, pPrev = Some (xs ! k)\<rparr>,
      xs ! k \<mapsto> (node_at xs ds k)\<lparr>pNext := Some (fresh l)\<rparr>), fresh := fresh l + 1, m_pTail := Some (fresh l),
      m_iTotalEntries := m_iTotalEntries l + 1\<rparr>"
  have neq: "xs ! k \<noteq> fresh l" "\<And>i. i < length xs \<Longrightarrow> xs ! i \<noteq> fresh l"
    using old k(1) by (metis nth_mem less_irrefl)+
  have add: "cXMLLiteList_Add True junk d l = Inr (HRC_XMLLITELIST_OK, l')"
    using tail chain_node[OF assms k(1)] neq(1)
    by (simp add: cXMLLiteList_Add_def new_node_def set_node_def l'_def fun_upd_twist)
  have "nodes l' ((xs @ [fresh l]) ! i) = Some (node_at (xs @ [fresh l]) (ds @ [d]) i)"
    if "i < length (xs @ [fresh l])" for i
  proof (cases "i < length xs")
    case True
    then have "xs ! i = xs ! k \<longleftrightarrow> i = k" using dist k(1) by (simp add: nth_eq_iff_index_eq)
    with True k neq(2) nd show ?thesis
      by (auto simp: l'_def nth_append node_at_append[OF len])
  next
    case False
    with that have i: "i = length xs" by simp
    have "length ds - 1 = k" using k(2) len by simp
    with i k neq(1) len show ?thesis
      by (simp add: l'_def nth_append node_at_def link_at_def) auto
  qed
  with assms False have "chain (xs @ [fresh l]) (ds @ [d]) l'"
    by (auto simp: chain_def l'_def link_at_def nth_append)
  with add False show ?thesis by (auto simp: l'_def)
qed

text \<open>Freeing from the tail: what is left is the chain of the nodes before.\<close>

lemma clear_loop_ok:
  "k \<le> length xs \<Longrightarrow> distinct xs \<Longrightarrow> k \<le> fuel \<Longrightarrow>
   \<forall>i < k. nodes l (xs ! i) = Some (node_at xs ds i) \<Longrightarrow>
   \<exists>ns. clear_loop fuel (if k = 0 then None else Some (xs ! (k - 1))) l = Inr (l\<lparr>nodes := ns\<rparr>)"
proof (induction k arbitrary: fuel l)
  case 0
  show ?case by (intro exI[of _ "nodes l"]) simp
next
  case (Suc k)
  then obtain fuel' where f: "fuel = Suc fuel'" "k \<le> fuel'" by (cases fuel) auto
  define l' where "l' = l\<lparr>nodes := (nodes l)(xs ! k := None)\<rparr>"
  have at: "at_node (Some (xs ! k)) l = Inr (node_at xs ds k)"
    using Suc.prems by (simp add: at_node_def)
  have prev: "pPrev (node_at xs ds k) = (if k = 0 then None else Some (xs ! (k - 1)))"
    using Suc.prems(1) by (auto simp: node_at_def link_at_def)
  have "xs ! i \<noteq> xs ! k" if "i < k" for i
    using that Suc.prems(1,2) by (simp add: nth_eq_iff_index_eq)
  then have "\<forall>i < k. nodes l' (xs ! i) = Some (node_at xs ds i)" using Suc.prems(4) by (simp add: l'_def)
  from Suc.IH[OF _ Suc.prems(2) f(2) this] Suc.prems(1)
  obtain ns where "clear_loop fuel' (if k = 0 then None else Some (xs ! (k - 1))) l' = Inr (l'\<lparr>nodes := ns\<rparr>)"
    by auto
  then show ?case using at prev by (auto simp: f(1) l'_def)
qed

lemma distinct_bound: "distinct xs \<Longrightarrow> \<forall>a \<in> set xs. a < n \<Longrightarrow> length xs \<le> (n :: nat)"
proof -
  assume a: "distinct xs" "\<forall>a \<in> set xs. a < n"
  then have "set xs \<subseteq> {..<n}" by auto
  then have "card (set xs) \<le> n" using card_mono[of "{..<n}" "set xs"] by simp
  with a(1) show ?thesis by (simp add: distinct_card)
qed

lemma Clear_ok:
  assumes "chain xs ds l"
  shows "\<exists>l'. cXMLLiteList_Clear l = Inr l' \<and> chain [] [] l' \<and> m_iTotalEntries l' = m_iTotalEntries l \<and>
    (if ds = [] then l' = l else m_pCurrent l' = None)"
proof (cases "xs = []")
  case True
  with assms show ?thesis by (auto simp: cXMLLiteList_Clear_def chain_def link_at_def)
next
  case False
  have "distinct xs" "length xs \<le> fresh l" "\<forall>i < length xs. nodes l (xs ! i) = Some (node_at xs ds i)"
    using assms distinct_bound[of xs "fresh l"] by (auto simp: chain_def)
  from clear_loop_ok[OF order_refl this(1,2,3)] False obtain ns where
    "clear_loop (fresh l) (m_pTail l) l = Inr (l\<lparr>nodes := ns\<rparr>)"
    using assms by (auto simp: chain_def last_conv_nth)
  with assms False show ?thesis
    by (auto simp: cXMLLiteList_Clear_def chain_def link_at_def)
qed

lemma represents_cursor:
  assumes "chain xs (items c) l" and "\<forall>p. saved c = Some p \<longrightarrow> at_pos xs p (m_pMarker l)"
    and "m_iTotalEntries l = added c" and "at_pos xs q p"
  shows "represents (l\<lparr>m_pCurrent := p\<rparr>) (c\<lparr>cursor := q\<rparr>)"
  unfolding represents_def using assms by (intro exI[of _ xs]) (simp add: chain_cursor)

text \<open>\<open>MoveNext\<close> and \<open>MovePrev\<close> follow a link that leads from position \<open>i\<close> to \<open>to i\<close>.\<close>

lemma move_along_ok:
  assumes ch: "chain xs (items c) l" and cur: "at_pos xs (cursor c) (m_pCurrent l)"
    and "\<forall>p. saved c = Some p \<longrightarrow> at_pos xs p (m_pMarker l)" and "m_iTotalEntries l = added c"
    and link: "\<And>i. i < length xs \<Longrightarrow> at_pos xs (dest i) (link (node_at xs (items c) i))"
  shows "\<exists>l'. move_along link rc l = Inr
      (if items c = [] then HRC_XMLLITELIST_EMPTY
       else case cursor c of None \<Rightarrow> rc | Some i \<Rightarrow> (if dest i = None then rc else HRC_XMLLITELIST_OK), l') \<and>
    represents l' (c\<lparr>cursor := if items c = [] then None else Option.bind (cursor c) dest\<rparr>)"
proof (cases "items c = [] \<or> cursor c = None")
  case True
  have none: "represents (l\<lparr>m_pCurrent := None\<rparr>) (c\<lparr>cursor := None\<rparr>)"
    by (rule represents_cursor[OF ch assms(3,4)]) (simp add: at_pos_def)
  show ?thesis
  proof (cases "items c = []")
    case True
    with chain_empty[OF ch] none show ?thesis by (simp add: move_along_def)
  next
    case False
    with True cur have "cursor c = None" "m_pCurrent l = None" by (auto simp: at_pos_def)
    moreover have "l\<lparr>m_pCurrent := None\<rparr> = l" using calculation(2) by simp
    moreover have "represents l (c\<lparr>cursor := None\<rparr>)" using none unfolding \<open>l\<lparr>m_pCurrent := None\<rparr> = l\<close> .
    ultimately show ?thesis using False chain_empty[OF ch]
      by (intro exI[of _ l]) (auto simp: move_along_def)
  qed
next
  case False
  then obtain i where i: "cursor c = Some i" "i < length xs" "m_pCurrent l = Some (xs ! i)"
    using cur by (auto simp: at_pos_def)
  have go: "represents (l\<lparr>m_pCurrent := link (node_at xs (items c) i)\<rparr>) (c\<lparr>cursor := dest i\<rparr>)"
    using represents_cursor[OF ch assms(3,4) link[OF i(2)]] .
  have "link (node_at xs (items c) i) = None \<longleftrightarrow> dest i = None"
    using link[OF i(2)] by (auto simp: at_pos_def split: option.splits)
  with go False i chain_empty[OF ch] chain_node[OF ch i(2)] show ?thesis
    by (cases "dest i") (auto simp: move_along_def)
qed

lemma next_link: "i < length xs \<Longrightarrow>
   at_pos xs (if i + 1 < length xs then Some (i + 1) else None) (pNext (node_at xs ds i))"
  by (auto simp: at_pos_def node_at_def link_at_def)

lemma prev_link: "i < length xs \<Longrightarrow>
   at_pos xs (if i > 0 then Some (i - 1) else None) (pPrev (node_at xs ds i))"
  by (auto simp: at_pos_def node_at_def link_at_def)

lemma represents_Add:
  assumes "represents l c"
  shows "\<exists>l'. run_list_op junk (LAdd d) l = Inr (OutCode HRC_XMLLITELIST_OK, l') \<and>
    represents l' (c\<lparr>items := items c @ [d], cursor := (if items c = [] then Some 0 else cursor c), added := added c + 1\<rparr>)"
proof -
  obtain xs where xs: "chain xs (items c) l" "at_pos xs (cursor c) (m_pCurrent l)"
    "\<forall>p. saved c = Some p \<longrightarrow> at_pos xs p (m_pMarker l)" "m_iTotalEntries l = added c"
    using assms by (auto simp: represents_def)
  obtain l' where l': "cXMLLiteList_Add True junk d l = Inr (HRC_XMLLITELIST_OK, l')"
    "chain (xs @ [fresh l]) (items c @ [d]) l'" "m_iTotalEntries l' = m_iTotalEntries l + 1"
    "m_pMarker l' = m_pMarker l" "m_pCurrent l' = (if xs = [] then Some (fresh l) else m_pCurrent l)"
    using Add_ok[OF xs(1)] by blast
  have "xs = [] \<longleftrightarrow> items c = []" using xs(1) by (auto simp: chain_def)
  then have "at_pos (xs @ [fresh l]) (if items c = [] then Some 0 else cursor c) (m_pCurrent l')"
    using l'(5) at_pos_append[OF xs(2)] by (auto simp: at_pos_def)
  then have "represents l' (c\<lparr>items := items c @ [d], cursor := (if items c = [] then Some 0 else cursor c),
      added := added c + 1\<rparr>)"
    unfolding represents_def using l' xs at_pos_append
    by (intro exI[of _ "xs @ [fresh l]"]) simp
  with l'(1) show ?thesis by simp
qed

lemma represents_Clear:
  assumes "represents l c"
  shows "\<exists>l'. run_list_op junk LClear l = Inr (OutNone, l') \<and>
    represents l' (if items c = [] then c else c\<lparr>items := [], cursor := None, saved := None\<rparr>)"
proof -
  obtain xs where xs: "chain xs (items c) l" "m_iTotalEntries l = added c"
    using assms by (auto simp: represents_def)
  obtain l' where l': "cXMLLiteList_Clear l = Inr l'" "chain [] [] l'" "m_iTotalEntries l' = m_iTotalEntries l"
    "if items c = [] then l' = l else m_pCurrent l' = None" using Clear_ok[OF xs(1)] by blast
  show ?thesis
  proof (cases "items c = []")
    case False
    with l' xs have "represents l' (c\<lparr>items := [], cursor := None, saved := None\<rparr>)"
      by (auto simp: represents_def at_pos_def)
    with l' False show ?thesis by simp
  qed (use l' assms in simp)
qed

lemma cursor_self: "cursor c = p \<Longrightarrow> c\<lparr>cursor := p\<rparr> = c"
  by (cases c) simp

lemma represents_step:
  assumes "represents l c" and "spec_op x c = Some (out, c')"
  shows "\<exists>l'. run_list_op junk x l = Inr (out, l') \<and> represents l' c'"
proof -
  obtain xs where xs: "chain xs (items c) l" "at_pos xs (cursor c) (m_pCurrent l)"
    "\<forall>p. saved c = Some p \<longrightarrow> at_pos xs p (m_pMarker l)" "m_iTotalEntries l = added c"
    using assms(1) by (auto simp: represents_def)
  have len: "length xs = length (items c)" and tail: "m_pHead l = link_at xs 0"
    "m_pTail l = (if xs = [] then None else Some (last xs))" using xs(1) by (auto simp: chain_def)
  note cursor = represents_cursor[OF xs(1,3,4)]
  note move = move_along_ok[OF xs]
  show ?thesis
  proof (cases x)
    case (LAdd d)
    with assms represents_Add show ?thesis by fastforce
  next
    case LClear
    with assms represents_Clear show ?thesis by fastforce
  next
    case LGetData
    with assms xs chain_node[OF xs(1)] show ?thesis
      by (auto simp: cXMLLiteList_GetData_def at_pos_def node_at_def split: option.splits)
  next
    case LHead
    have "items c \<noteq> [] \<Longrightarrow> at_pos xs (Some 0) (link_at xs 0)" using len by (auto simp: at_pos_def link_at_def)
    with LHead assms(2) cursor cursor[of None None] chain_empty[OF xs(1)] tail show ?thesis
      by (auto simp: cXMLLiteList_MoveToHead_def at_pos_def split: if_splits)
  next
    case LTail
    have "items c \<noteq> [] \<Longrightarrow> at_pos xs (Some (length (items c) - 1)) (Some (last xs))"
      using len last_conv_nth[of xs] by (cases "xs = []") (auto simp: at_pos_def)
    with LTail assms(2) cursor cursor[of None None] len tail show ?thesis
      by (auto simp: cXMLLiteList_MoveToTail_def at_pos_def split: if_splits)
  next
    case LNext
    from move[where link = pNext and dest = "\<lambda>i. if i + 1 < length xs then Some (i + 1) else None",
        OF next_link, of HRC_XMLLITELIST_END] LNext assms(2) show ?thesis
      by (auto simp: cXMLLiteList_MoveNext_def len cursor_self split: if_splits option.splits)
  next
    case LPrev
    from move[where link = pPrev and dest = "\<lambda>i. if i > 0 then Some (i - 1) else None",
        OF prev_link, of HRC_XMLLITELIST_BEGIN] LPrev assms(2) show ?thesis
      by (auto simp: cXMLLiteList_MovePrev_def len cursor_self split: if_splits option.splits)
  next
    case LSave
    with assms(2) xs show ?thesis
      by (auto simp: cXMLLiteList_SavePos_def represents_def chain_cursor intro!: exI[of _ xs])
  next
    case LRestore
    with assms(2) xs cursor show ?thesis by (auto simp: cXMLLiteList_RestorePos_def)
  next
    case LIsEmpty
    with assms chain_empty[OF xs(1)] show ?thesis by (auto simp: cXMLLiteList_IsEmpty_def)
  next
    case LTotal
    with assms xs show ?thesis by (auto simp: cXMLLiteList_GetTotalEntries_def)
  qed
qed

fun run_list :: "'d node \<Rightarrow> 'd list_op list \<Rightarrow> 'd cXMLLiteList \<Rightarrow> ('d list_out list \<times> 'd cXMLLiteList) res" where
  "run_list junk [] l = Inr ([], l)"
| "run_list junk (x # xs) l =
     bindE (run_list_op junk x l) (\<lambda>(out, l).
     bindE (run_list junk xs l) (\<lambda>(outs, l). Inr (out # outs, l)))"

fun spec_run :: "'d list_op list \<Rightarrow> 'd clist \<Rightarrow> ('d list_out list \<times> 'd clist) option" where
  "spec_run [] c = Some ([], c)"
| "spec_run (x # xs) c =
     (case spec_op x c of None \<Rightarrow> None
      | Some (out, c) \<Rightarrow> map_option (\<lambda>(outs, c). (out # outs, c)) (spec_run xs c))"

definition clist_new :: "'d clist" where
  "clist_new = \<lparr>items = [], cursor = None, saved = None, added = 0\<rparr>"

lemma represents_run:
  "represents l c \<Longrightarrow> spec_run xs c = Some (outs, c') \<Longrightarrow>
   \<exists>l'. run_list junk xs l = Inr (outs, l') \<and> represents l' c'"
proof (induction xs arbitrary: l c outs)
  case (Cons x xs)
  then obtain out c1 outs1 where 1: "spec_op x c = Some (out, c1)" "spec_run xs c1 = Some (outs1, c')"
    "outs = out # outs1" by (auto split: option.splits)
  obtain l1 where "run_list_op junk x l = Inr (out, l1)" "represents l1 c1"
    using represents_step[OF Cons.prems(1) 1(1)] by blast
  with Cons.IH[OF _ 1(2)] 1(3) show ?case by fastforce
qed simp

lemma represents_new: "represents (cXMLLiteList_new marker) clist_new"
  by (simp add: represents_def cXMLLiteList_new_def clist_new_def chain_def link_at_def at_pos_def)

section \<open>Properties\<close>

text \<open>(C12) The linked list of nodes implements a list with a cursor: every sequence of additions,
  clearings, cursor moves, saved positions and reads that restores only positions saved in the
  same contents runs without following a bad pointer and gives the same answers as the list
  specification, whatever the contents of fresh memory.\<close>

theorem xml_list_refines:
  assumes "spec_run xs clist_new = Some (outs, c)"
  shows "\<exists>l. run_list junk xs (cXMLLiteList_new marker) = Inr (outs, l) \<and> represents l c"
  using represents_run[OF represents_new assms] .

theorem xml_list_refines_witness:
  "\<exists>l. run_list \<lparr>pData = None, pNext = Some 7, pPrev = Some 7\<rparr>
      [LAdd (Some ''a''), LAdd (Some ''b''), LSave, LNext, LGetData, LNext, LGetData, LRestore, LGetData, LTotal]
      (cXMLLiteList_new (Some 9)) =
    Inr ([OutCode 0, OutCode 0, OutNone, OutCode 0, OutData (Some ''b''), OutCode 3, OutData None,
      OutNone, OutData (Some ''a''), OutCode 2], l)"
proof -
  have "spec_run [LAdd (Some ''a''), LAdd (Some ''b''), LSave, LNext, LGetData, LNext, LGetData, LRestore,
      LGetData, LTotal] clist_new =
    Some ([OutCode 0, OutCode 0, OutNone, OutCode 0, OutData (Some ''b''), OutCode 3, OutData None,
      OutNone, OutData (Some ''a''), OutCode 2],
      \<lparr>items = [Some ''a'', Some ''b''], cursor = Some 0, saved = Some (Some 0), added = 2\<rparr>)"
    by code_simp
  from xml_list_refines[OF this] show ?thesis by blast
qed

text \<open>\<open>Insert\<close> at the last node does not move the tail, so a node added afterwards overwrites the
  link to the inserted one, which is lost.\<close>

lemma insert_then_add_loses:
  "\<exists>l. bindE (run_list \<lparr>pData = None, pNext = None, pPrev = None\<rparr> [LAdd (Some a)] (cXMLLiteList_new None)) (\<lambda>(_, l).
     bindE (cXMLLiteList_Insert True \<lparr>pData = None, pNext = None, pPrev = None\<rparr> (Some b) l) (\<lambda>(_, l).
     run_list \<lparr>pData = None, pNext = None, pPrev = None\<rparr> [LAdd (Some c), LHead, LGetData, LNext, LGetData, LNext] l)) =
   Inr ([OutCode 0, OutCode 0, OutData (Some a), OutCode 0, OutData (Some c), OutCode 3], l)"
  by (simp add: cXMLLiteList_new_def cXMLLiteList_Add_def cXMLLiteList_PlaceAtHead_def new_node_def set_node_def
      cXMLLiteList_Insert_def at_node_def cXMLLiteList_MoveToHead_def cXMLLiteList_GetData_def
      cXMLLiteList_MoveNext_def move_along_def HRC_XMLLITELIST_OK_def HRC_XMLLITELIST_END_def)

end
