(* ===== verification/XmlParse.thy ===== *)
theory XmlParse
  imports XmlList
begin

text \<open>
  \<open>cXMLLiteString\<close>, \<open>cXMLLiteAttributePair\<close>, \<open>cXMLLiteElement\<close> and \<open>cXMLLiteParser\<close> of
  \<open>xmlliteparser.cpp\<close>. The working buffers are blocks of the sizes the code allocates, so an
  access outside them faults. The elements live in a store and the list of the parser holds
  their addresses, as the code holds pointers; an attribute pair belongs to one list only and
  is kept in it by value.

  \<open>operator new\<close> of an element or attribute pair succeeds; the nodes and buffers come from the
  \<open>malloc\<close> parameter.
\<close>

section \<open>Strings\<close>

record cXMLLiteString =
  xs_data :: "block option"
  xs_length :: int

definition cXMLLiteString_new :: cXMLLiteString where
  "cXMLLiteString_new = \<lparr>xs_data = None, xs_length = 0\<rparr>"

definition src_size :: "block \<Rightarrow> int \<Rightarrow> int res" where
  "src_size src iLen = (if iLen \<noteq> -1 then Inr iLen else bindE (cstr_at src 0) (\<lambda>s. Inr (int (length s))))"

text \<open>The copy into a block of at least \<open>iSize + 1\<close> bytes, with the terminator.\<close>

definition store_string :: "block option \<Rightarrow> block \<Rightarrow> int \<Rightarrow> (int \<times> cXMLLiteString) res" where
  "store_string p src iSize =
     bindE (mem_get src 0 iSize) (\<lambda>d.
     bindE (mem_put (deref p) 0 d) (\<lambda>b.
     bindE (mem_write b iSize NUL) (\<lambda>b.
     Inr (0, \<lparr>xs_data = Some b, xs_length = iSize\<rparr>))))"

definition cXMLLiteString_ReplaceWith ::
    "malloc \<Rightarrow> block \<Rightarrow> int \<Rightarrow> cXMLLiteString \<Rightarrow> (int \<times> cXMLLiteString) res" where
  "cXMLLiteString_ReplaceWith ml src iLen x =
     bindE (src_size src iLen) (\<lambda>iSize.
     let iAllocSize = (if iSize < 16 then 16 else iSize) in
     if iAllocSize > xs_length x \<or> xs_data x = None
     then
       (case ml (iAllocSize + 1) of
          None \<Rightarrow> Inr (HRC_XMLLITEPARSER_ALLOC, x\<lparr>xs_data := None\<rparr>)
        | Some b \<Rightarrow> store_string (Some b) src iSize)
     else store_string (xs_data x) src iSize)"

definition cXMLLiteString_cstr :: "cXMLLiteString \<Rightarrow> block option" where
  "cXMLLiteString_cstr x = xs_data x"

section \<open>Attributes and elements\<close>

record cXMLLiteAttributePair =
  m_AttributeName :: cXMLLiteString
  m_AttributeValue :: cXMLLiteString

definition cXMLLiteAttributePair_SetPair ::
    "malloc \<Rightarrow> block \<Rightarrow> block \<Rightarrow> cXMLLiteAttributePair \<Rightarrow> cXMLLiteAttributePair res" where
  "cXMLLiteAttributePair_SetPair ml pName pValue a =
     bindE (cXMLLiteString_ReplaceWith ml pName (-1) (m_AttributeName a)) (\<lambda>(_, n).
     bindE (cXMLLiteString_ReplaceWith ml pValue (-1) (m_AttributeValue a)) (\<lambda>(_, v).
     Inr \<lparr>m_AttributeName = n, m_AttributeValue = v\<rparr>))"

text \<open>\<open>atoi\<close> and \<open>atol\<close> on a possibly null string.\<close>

definition string_as_int :: "block option \<Rightarrow> int res" where
  "string_as_int p =
     (case p of None \<Rightarrow> Inr (-1) | Some b \<Rightarrow> bindE (cstr_at b 0) (\<lambda>s. Inr (atoi s)))"

definition cXMLLiteAttributePair_GetAttributeValueAsInt :: "cXMLLiteAttributePair \<Rightarrow> int res" where
  "cXMLLiteAttributePair_GetAttributeValueAsInt a = string_as_int (xs_data (m_AttributeValue a))"

record cXMLLiteElement =
  m_xmlCDATA :: cXMLLiteString
  m_xmlTagName :: cXMLLiteString
  m_xmlValue :: cXMLLiteString
  m_xmlAttributes :: "cXMLLiteAttributePair cXMLLiteList"
  m_hasCDATA :: bool

definition cXMLLiteElement_new :: cXMLLiteElement where
  "cXMLLiteElement_new =
     \<lparr>m_xmlCDATA = cXMLLiteString_new, m_xmlTagName = cXMLLiteString_new, m_xmlValue = cXMLLiteString_new,
      m_xmlAttributes = cXMLLiteList_new None, m_hasCDATA = False\<rparr>"

definition cXMLLiteElement_SetElementName :: "malloc \<Rightarrow> block \<Rightarrow> cXMLLiteElement \<Rightarrow> cXMLLiteElement res" where
  "cXMLLiteElement_SetElementName ml pName e =
     bindE (cXMLLiteString_ReplaceWith ml pName (-1) (m_xmlTagName e)) (\<lambda>(_, x). Inr (e\<lparr>m_xmlTagName := x\<rparr>))"

definition cXMLLiteElement_SetElementValue :: "malloc \<Rightarrow> block \<Rightarrow> cXMLLiteElement \<Rightarrow> cXMLLiteElement res" where
  "cXMLLiteElement_SetElementValue ml pValue e =
     bindE (cXMLLiteString_ReplaceWith ml pValue (-1) (m_xmlValue e)) (\<lambda>(_, x). Inr (e\<lparr>m_xmlValue := x\<rparr>))"

definition cXMLLiteElement_SetElementCDATA ::
    "malloc \<Rightarrow> block \<Rightarrow> int \<Rightarrow> cXMLLiteElement \<Rightarrow> cXMLLiteElement res" where
  "cXMLLiteElement_SetElementCDATA ml pBlock iLen e =
     bindE (cXMLLiteString_ReplaceWith ml pBlock iLen (m_xmlCDATA e)) (\<lambda>(_, x).
     Inr (e\<lparr>m_hasCDATA := True, m_xmlCDATA := x\<rparr>))"

text \<open>
  The node of a list is a \<open>malloc\<close> of three pointers; every field of it is assigned by \<open>Add\<close>. The
  pair is filled in after it has been added in the code, here before, since nothing looks at
  it in between.
\<close>

definition sizeof_List :: int where "sizeof_List = 24"

definition blank_node :: "'d node" where
  "blank_node = \<lparr>pData = None, pNext = None, pPrev = None\<rparr>"

definition cXMLLiteElement_AddAttributePair ::
    "malloc \<Rightarrow> block \<Rightarrow> block \<Rightarrow> cXMLLiteElement \<Rightarrow> cXMLLiteElement res" where
  "cXMLLiteElement_AddAttributePair ml pName pValue e =
     bindE (cXMLLiteAttributePair_SetPair ml pName pValue
       \<lparr>m_AttributeName = cXMLLiteString_new, m_AttributeValue = cXMLLiteString_new\<rparr>) (\<lambda>a.
     bindE (cXMLLiteList_Add (ml sizeof_List \<noteq> None) blank_node (Some a) (m_xmlAttributes e)) (\<lambda>(_, l).
     Inr (e\<lparr>m_xmlAttributes := l\<rparr>)))"

text \<open>\<open>Flush\<close> walks the list from the tail, deleting the pairs, and clears it.\<close>

fun flush_pairs :: "nat \<Rightarrow> 'd cXMLLiteList \<Rightarrow> 'd cXMLLiteList res" where
  "flush_pairs 0 l = Inl Diverge"
| "flush_pairs (Suc fuel) l =
     bindE (cXMLLiteList_GetData l) (\<lambda>_.
     bindE (cXMLLiteList_MovePrev l) (\<lambda>(rc, l).
     if rc = HRC_XMLLITELIST_OK then flush_pairs fuel l else Inr l))"

definition cXMLLiteElement_Flush :: "cXMLLiteElement \<Rightarrow> cXMLLiteElement res" where
  "cXMLLiteElement_Flush e =
     (case cXMLLiteList_MoveToTail (m_xmlAttributes e) of (rc, l) \<Rightarrow>
        bindE (if rc = HRC_XMLLITELIST_OK then flush_pairs (fresh l) l else Inr l) (\<lambda>l.
        bindE (cXMLLiteList_Clear l) (\<lambda>l. Inr (e\<lparr>m_xmlAttributes := l\<rparr>))))"

definition cXMLLiteElement_MoveHead :: "cXMLLiteElement \<Rightarrow> int \<times> cXMLLiteElement" where
  "cXMLLiteElement_MoveHead e =
     (case cXMLLiteList_MoveToHead (m_xmlAttributes e) of
        (rc, l) \<Rightarrow> (if rc = HRC_XMLLITELIST_OK then 0 else 1, e\<lparr>m_xmlAttributes := l\<rparr>))"

definition parser_code :: "int \<Rightarrow> int" where
  "parser_code rc =
     (if rc = HRC_XMLLITELIST_OK then 0
      else if rc = HRC_XMLLITELIST_EMPTY then 1
      else if rc = HRC_XMLLITELIST_END then 2 else rc)"

definition cXMLLiteElement_MoveNext :: "cXMLLiteElement \<Rightarrow> (int \<times> cXMLLiteElement) res" where
  "cXMLLiteElement_MoveNext e =
     bindE (cXMLLiteList_MoveNext (m_xmlAttributes e)) (\<lambda>(rc, l).
     Inr (parser_code rc, e\<lparr>m_xmlAttributes := l\<rparr>))"

definition cXMLLiteElement_GetAttributePair :: "cXMLLiteElement \<Rightarrow> cXMLLiteAttributePair option res" where
  "cXMLLiteElement_GetAttributePair e = cXMLLiteList_GetData (m_xmlAttributes e)"

definition cXMLLiteElement_hasAttributes :: "cXMLLiteElement \<Rightarrow> (bool \<times> cXMLLiteElement) res" where
  "cXMLLiteElement_hasAttributes e =
     (let e = snd (cXMLLiteElement_MoveHead e) in
      bindE (cXMLLiteElement_GetAttributePair e) (\<lambda>a. Inr (a \<noteq> None, e)))"

text \<open>\<open>GetAttributeValue\<close> walks the list; \<open>strcmp\<close> on a null name faults.\<close>

fun attr_loop :: "nat \<Rightarrow> string \<Rightarrow> cXMLLiteElement \<Rightarrow> (block option \<times> cXMLLiteElement) res" where
  "attr_loop 0 name e = Inl Diverge"
| "attr_loop (Suc fuel) name e =
     bindE (cXMLLiteElement_GetAttributePair e) (\<lambda>pAttr.
       case pAttr of
         None \<Rightarrow> Inr (Some (cstr []), e)
       | Some a \<Rightarrow>
           bindE (cstr_at (deref (xs_data (m_AttributeName a))) 0) (\<lambda>p.
           if name = p then Inr (xs_data (m_AttributeValue a), e)
           else bindE (cXMLLiteElement_MoveNext e) (\<lambda>(_, e). attr_loop fuel name e)))"

definition cXMLLiteElement_GetAttributeValue ::
    "string \<Rightarrow> cXMLLiteElement \<Rightarrow> (block option \<times> cXMLLiteElement) res" where
  "cXMLLiteElement_GetAttributeValue pAttributeName e =
     attr_loop (fresh (m_xmlAttributes e) + 1) pAttributeName (snd (cXMLLiteElement_MoveHead e))"

definition cXMLLiteElement_GetElementValueAsInt :: "cXMLLiteElement \<Rightarrow> int res" where
  "cXMLLiteElement_GetElementValueAsInt e = string_as_int (xs_data (m_xmlValue e))"

section \<open>Cleaning a buffer in place\<close>

definition xml_blank :: "char \<Rightarrow> bool" where
  "xml_blank c \<longleftrightarrow> c = CHR '' '' \<or> c = LF \<or> c = CR \<or> c = TAB"

definition is_quote :: "char \<Rightarrow> bool" where
  "is_quote c \<longleftrightarrow> c = CHR 0x22 \<or> c = CHR 0x27"

text \<open>The characters \<open>StripChars\<close> keeps.\<close>

fun strip_chars :: "bool \<Rightarrow> string \<Rightarrow> string" where
  "strip_chars q [] = []"
| "strip_chars q (c # cs) =
     (let q = (if is_quote c then \<not> q else q) in
      if c = CHR ''<'' \<or> c = CHR ''>'' \<or> c = CR \<or> c = LF \<or> c = TAB then strip_chars q cs
      else if \<not> q \<and> c = CHR ''?'' then strip_chars q cs
      else c # strip_chars q cs)"

text \<open>The loop copies the terminator as well, and another zero byte is written after it.\<close>

definition cXMLLiteParser_StripChars :: "block \<Rightarrow> block res" where
  "cXMLLiteParser_StripChars b =
     bindE (cstr_at b 0) (\<lambda>s. mem_put b 0 (strip_chars False s @ [NUL, NUL]))"

definition strip_leading :: "(char \<Rightarrow> bool) \<Rightarrow> block \<Rightarrow> block res" where
  "strip_leading blank b = bindE (cstr_at b 0) (\<lambda>s. mem_put b 0 (dropWhile blank s @ [NUL]))"

text \<open>The loops over trailing characters stop before index 0.\<close>

definition trim_end :: "(char \<Rightarrow> bool) \<Rightarrow> string \<Rightarrow> string" where
  "trim_end blank s =
     (case s of [] \<Rightarrow> [] | c # cs \<Rightarrow> c # rev (dropWhile blank (rev cs)))"

definition strip_trailing :: "(char \<Rightarrow> bool) \<Rightarrow> block \<Rightarrow> block res" where
  "strip_trailing blank b =
     bindE (cstr_at b 0) (\<lambda>s.
     let r = trim_end blank s in mem_put b 0 (r @ replicate (length s - length r) NUL))"

definition cXMLLiteParser_StripLeading :: "block \<Rightarrow> block res" where
  "cXMLLiteParser_StripLeading b = strip_leading xml_blank b"

definition cXMLLiteParser_StripTrailing :: "block \<Rightarrow> block res" where
  "cXMLLiteParser_StripTrailing b = strip_trailing xml_blank b"

definition cXMLLiteParser_StripLeadingSpaces :: "block \<Rightarrow> block res" where
  "cXMLLiteParser_StripLeadingSpaces b = strip_leading (\<lambda>c. c = CHR '' '') b"

definition cXMLLiteParser_StripTrailingSpaces :: "block \<Rightarrow> block res" where
  "cXMLLiteParser_StripTrailingSpaces b = strip_trailing (\<lambda>c. c = CHR '' '') b"

text \<open>The index of the first quote, and of the last one above index 0 (0 when there is none).\<close>

fun first_quote :: "string \<Rightarrow> nat option" where
  "first_quote [] = None"
| "first_quote (c # cs) = (if is_quote c then Some 0 else map_option Suc (first_quote cs))"

fun last_quote :: "string \<Rightarrow> nat \<Rightarrow> nat" where
  "last_quote s 0 = 0"
| "last_quote s (Suc i) = (if Suc i < length s \<and> is_quote (s ! Suc i) then Suc i else last_quote s i)"

definition cXMLLiteParser_StripBeginningAndEndingQoutes :: "block \<Rightarrow> block res" where
  "cXMLLiteParser_StripBeginningAndEndingQoutes b =
     bindE (cstr_at b 0) (\<lambda>s.
       case first_quote s of
         None \<Rightarrow> Inr b
       | Some i \<Rightarrow>
           bindE (mem_put b (int i) (drop (i + 1) s @ [NUL])) (\<lambda>b.
           bindE (cstr_at b 0) (\<lambda>s.
           let k = last_quote s (length s) in
           bindE (mem_get b (int k + 1) (int (length s - k))) (\<lambda>d.
           bindE (mem_put b (int k) d) (\<lambda>b.
           mem_write b (int k) NUL)))))"

definition cXMLLiteParser_TerminateAtChar :: "char \<Rightarrow> block \<Rightarrow> block res" where
  "cXMLLiteParser_TerminateAtChar ch b =
     bindE (cstr_at b 0) (\<lambda>s.
       case char_find s ch of None \<Rightarrow> Inr b | Some i \<Rightarrow> mem_write b (int i) NUL)"

definition cXMLLiteParser_CleanInput :: "block \<Rightarrow> block res" where
  "cXMLLiteParser_CleanInput b =
     bindE (cXMLLiteParser_StripChars b) (\<lambda>b.
     bindE (mem_read b 0) (\<lambda>c. if c = NUL then Inr b else
     bindE (cXMLLiteParser_StripLeadingSpaces b) (\<lambda>b.
     bindE (mem_read b 0) (\<lambda>c. if c = NUL then Inr b else
     bindE (cXMLLiteParser_StripTrailingSpaces b) (\<lambda>b.
     bindE (mem_read b 0) (\<lambda>c. if c = NUL then Inr b else
     cXMLLiteParser_StripBeginningAndEndingQoutes b))))))"

text \<open>
  The entity at the start of a string: its length and the character it stands for. The rest of
  the string is moved down over it.
\<close>

definition xml_entity :: "string \<Rightarrow> (nat \<times> char) option" where
  "xml_entity s =
     (if starts_with ''&lt;'' s then Some (4, CHR ''<'')
      else if starts_with ''&gt;'' s then Some (4, CHR ''>'')
      else if starts_with ''&apos;'' s then Some (6, CHR 0x27)
      else if starts_with ''&amp;'' s then Some (5, CHR ''&'')
      else if starts_with ''&quot;'' s then Some (6, CHR 0x22)
      else None)"

definition move_down :: "nat \<Rightarrow> block \<Rightarrow> block" where
  "move_down n b = (let s = drop n (c_prefix b) @ [NUL] in take (length b) (s @ drop (length s) b))"

lemma length_move_down [simp]: "length (move_down n b) \<le> length b"
  by (simp add: move_down_def Let_def)

function transform_entities :: "block \<Rightarrow> block" where
  "transform_entities [] = []"
| "transform_entities (c # b) =
     (if c = NUL then c # b
      else case xml_entity (c_prefix (c # b)) of
        Some (n, d) \<Rightarrow> d # transform_entities (move_down (n - 1) b)
      | None \<Rightarrow> c # transform_entities b)"
  by pat_completeness auto
termination
  by (relation "measure length") (auto simp: less_Suc_eq_le)

definition cXMLLiteParser_TransformXMLEntities :: "block \<Rightarrow> block res" where
  "cXMLLiteParser_TransformXMLEntities b = bindE (cstr_at b 0) (\<lambda>_. Inr (transform_entities b))"

end
