(* ===== verification/XmlParser.thy ===== *)
theory XmlParser
  imports XmlParse
begin

text \<open>
  The parser of \<open>xmlliteparser.cpp\<close>: the object with its list of elements and its three working
  buffers, and \<open>Parse\<close> as a step function on the local variables of its loop.
\<close>

section \<open>The object\<close>

record cXMLLiteParser =
  m_xmlElements :: "nat cXMLLiteList"
  elems :: "nat \<rightharpoonup> cXMLLiteElement"
  next_elem :: nat
  m_pWorkingBuffer :: "block option"
  m_iWorkingBufferSize :: int
  m_pSplitBufferName :: "block option"
  m_pSplitBufferValue :: "block option"
  m_iSplitBufferNameSize :: int

definition cXMLLiteParser_new :: "nat option \<Rightarrow> cXMLLiteParser" where
  "cXMLLiteParser_new marker =
     \<lparr>m_xmlElements = cXMLLiteList_new marker, elems = Map.empty, next_elem = 0, m_pWorkingBuffer = None,
      m_iWorkingBufferSize = 0, m_pSplitBufferName = None, m_pSplitBufferValue = None,
      m_iSplitBufferNameSize = 0\<rparr>"

text \<open>\<open>Flush\<close> deletes the elements from the tail on and clears the list.\<close>

fun flush_elements :: "nat \<Rightarrow> cXMLLiteParser \<Rightarrow> cXMLLiteParser res" where
  "flush_elements 0 p = Inl Diverge"
| "flush_elements (Suc fuel) p =
     bindE (cXMLLiteList_GetData (m_xmlElements p)) (\<lambda>d.
     let p = (case d of None \<Rightarrow> p | Some a \<Rightarrow> p\<lparr>elems := (elems p)(a := None)\<rparr>) in
     bindE (cXMLLiteList_MovePrev (m_xmlElements p)) (\<lambda>(rc, l).
     let p = p\<lparr>m_xmlElements := l\<rparr> in
     if rc = HRC_XMLLITELIST_OK then flush_elements fuel p else Inr p))"

definition cXMLLiteParser_Flush :: "cXMLLiteParser \<Rightarrow> cXMLLiteParser res" where
  "cXMLLiteParser_Flush p =
     (case cXMLLiteList_MoveToTail (m_xmlElements p) of (rc, l) \<Rightarrow>
        bindE (if rc = HRC_XMLLITELIST_OK then flush_elements (fresh l) (p\<lparr>m_xmlElements := l\<rparr>)
               else Inr (p\<lparr>m_xmlElements := l\<rparr>)) (\<lambda>p.
        bindE (cXMLLiteList_Clear (m_xmlElements p)) (\<lambda>l. Inr (p\<lparr>m_xmlElements := l\<rparr>))))"

definition INITAL_WORKING_BUFFER_SIZE :: int where "INITAL_WORKING_BUFFER_SIZE = 1024"

definition cXMLLiteParser_CheckWorkingBuffer :: "malloc \<Rightarrow> int \<Rightarrow> cXMLLiteParser \<Rightarrow> (int \<times> cXMLLiteParser) res" where
  "cXMLLiteParser_CheckWorkingBuffer ml iAgainstNewSize p =
     (if m_iWorkingBufferSize p = 0
      then
        (let b = ml INITAL_WORKING_BUFFER_SIZE;
             p = p\<lparr>m_iWorkingBufferSize := INITAL_WORKING_BUFFER_SIZE, m_pWorkingBuffer := b\<rparr>
         in Inr (if b = None then HRC_XMLLITEPARSER_ALLOC else 0, p))
      else if m_iWorkingBufferSize p < iAgainstNewSize
      then
        (let iNewAlloc = iAgainstNewSize * 2 in
         case ml iNewAlloc of
           None \<Rightarrow> Inr (HRC_XMLLITEPARSER_ALLOC, p)
         | Some b \<Rightarrow>
             bindE (mem_get (deref (m_pWorkingBuffer p)) 0 (m_iWorkingBufferSize p)) (\<lambda>d.
             bindE (mem_put b 0 d) (\<lambda>b.
             Inr (0, p\<lparr>m_pWorkingBuffer := Some b, m_iWorkingBufferSize := iNewAlloc\<rparr>))))
      else Inr (0, p))"

definition set_work :: "block \<Rightarrow> cXMLLiteParser \<Rightarrow> cXMLLiteParser" where
  "set_work b p = p\<lparr>m_pWorkingBuffer := map_option (\<lambda>_. b) (m_pWorkingBuffer p)\<rparr>"

definition work :: "cXMLLiteParser \<Rightarrow> block" where
  "work p = deref (m_pWorkingBuffer p)"

definition cXMLLiteParser_GetNewEntry :: "malloc \<Rightarrow> cXMLLiteParser \<Rightarrow> (nat option \<times> cXMLLiteParser) res" where
  "cXMLLiteParser_GetNewEntry ml p =
     (let a = next_elem p;
          p = p\<lparr>elems := (elems p)(a \<mapsto> cXMLLiteElement_new), next_elem := a + 1\<rparr>
      in bindE (cXMLLiteList_Add (ml sizeof_List \<noteq> None) blank_node (Some a) (m_xmlElements p)) (\<lambda>(_, l).
         Inr (Some a, p\<lparr>m_xmlElements := l\<rparr>)))"

text \<open>A call of a member of the element at address \<open>a\<close>; a null or dangling pointer faults.\<close>

definition with_elem ::
    "nat option \<Rightarrow> (cXMLLiteElement \<Rightarrow> cXMLLiteElement res) \<Rightarrow> cXMLLiteParser \<Rightarrow> cXMLLiteParser res" where
  "with_elem pElement f p =
     (case pElement of None \<Rightarrow> Inl MemFault
      | Some a \<Rightarrow>
          (case elems p a of None \<Rightarrow> Inl MemFault
           | Some e \<Rightarrow> bindE (f e) (\<lambda>e. Inr (p\<lparr>elems := (elems p)(a \<mapsto> e)\<rparr>))))"

text \<open>The buffers of \<open>SplitParam\<close> grow together to the size of the parameter.\<close>

definition split_buffers :: "malloc \<Rightarrow> int \<Rightarrow> cXMLLiteParser \<Rightarrow> cXMLLiteParser" where
  "split_buffers ml iBufSize p =
     (if m_iSplitBufferNameSize p < iBufSize
      then p\<lparr>m_iSplitBufferNameSize := iBufSize, m_pSplitBufferName := ml (iBufSize + 1),
             m_pSplitBufferValue := ml (iBufSize + 1)\<rparr>
      else p)"

text \<open>The last character of the value is compared with \<open>'\r'\<close> even when the value is empty.\<close>

definition cXMLLiteParser_SplitParam ::
    "malloc \<Rightarrow> string \<Rightarrow> nat option \<Rightarrow> cXMLLiteParser \<Rightarrow> (int \<times> cXMLLiteParser) res" where
  "cXMLLiteParser_SplitParam ml pBuf pElement p =
     (let iFound = (case char_find pBuf (CHR ''='') of None \<Rightarrow> 0 | Some i \<Rightarrow> i) in
      if iFound = 0 then Inr (0, p)
      else
        (let p = split_buffers ml (int (length pBuf)) p;
             v = iFound + 1 + (if cstr pBuf ! (iFound + 1) = CHR '' '' then 1 else 0)
         in bindE (mem_put (deref (m_pSplitBufferName p)) 0 (take iFound pBuf)) (\<lambda>nb.
            bindE (mem_write nb (int iFound) NUL) (\<lambda>nb.
            bindE (mem_put (deref (m_pSplitBufferValue p)) 0 (drop v (cstr pBuf))) (\<lambda>vb.
            let i = int (length (drop v pBuf)) in
            bindE (mem_read vb (i - 1)) (\<lambda>c.
            bindE (if c = CR then mem_write vb (i - 1) NUL else Inr vb) (\<lambda>vb.
            bindE (cXMLLiteParser_TransformXMLEntities vb) (\<lambda>vb.
            let p = p\<lparr>m_pSplitBufferName := Some nb, m_pSplitBufferValue := Some vb\<rparr> in
            bindE (with_elem pElement (cXMLLiteElement_AddAttributePair ml nb vb) p) (\<lambda>p.
            Inr (0, p))))))))))"

definition cXMLLiteParser_MoveHead :: "cXMLLiteParser \<Rightarrow> int \<times> cXMLLiteParser" where
  "cXMLLiteParser_MoveHead p =
     (case cXMLLiteList_MoveToHead (m_xmlElements p) of
        (rc, l) \<Rightarrow> (if rc = HRC_XMLLITELIST_OK then 0 else 1, p\<lparr>m_xmlElements := l\<rparr>))"

definition cXMLLiteParser_MoveNext :: "cXMLLiteParser \<Rightarrow> (int \<times> cXMLLiteParser) res" where
  "cXMLLiteParser_MoveNext p =
     bindE (cXMLLiteList_MoveNext (m_xmlElements p)) (\<lambda>(rc, l). Inr (parser_code rc, p\<lparr>m_xmlElements := l\<rparr>))"

definition cXMLLiteParser_GetElement :: "cXMLLiteParser \<Rightarrow> nat option res" where
  "cXMLLiteParser_GetElement p = cXMLLiteList_GetData (m_xmlElements p)"

definition cXMLLiteParser_GetCurrentNodeHandle :: "cXMLLiteParser \<Rightarrow> nat option" where
  "cXMLLiteParser_GetCurrentNodeHandle p = cXMLLiteList_GetCurrentNode (m_xmlElements p)"

definition cXMLLiteParser_MoveToNode :: "nat option \<Rightarrow> cXMLLiteParser \<Rightarrow> int \<times> cXMLLiteParser" where
  "cXMLLiteParser_MoveToNode h p =
     (case cXMLLiteList_MoveToNode h (m_xmlElements p) of (rc, l) \<Rightarrow> (rc, p\<lparr>m_xmlElements := l\<rparr>))"

text \<open>The name of the element under the cursor; \<open>None\<close> for a null name.\<close>

definition elem_name :: "nat \<Rightarrow> cXMLLiteParser \<Rightarrow> string option res" where
  "elem_name a p =
     (case elems p a of None \<Rightarrow> Inl MemFault
      | Some e \<Rightarrow>
          (case xs_data (m_xmlTagName e) of None \<Rightarrow> Inr None
           | Some b \<Rightarrow> bindE (cstr_at b 0) (\<lambda>s. Inr (Some s))))"

fun find_loop :: "nat \<Rightarrow> string \<Rightarrow> string option \<Rightarrow> cXMLLiteParser \<Rightarrow> (nat option \<times> cXMLLiteParser) res" where
  "find_loop 0 pTag pNot p = Inl Diverge"
| "find_loop (Suc fuel) pTag pNot p =
     bindE (cXMLLiteParser_GetElement p) (\<lambda>d.
     bindE (case d of None \<Rightarrow> Inr None | Some a \<Rightarrow> elem_name a p) (\<lambda>name.
     if name \<noteq> None \<and> pNot \<noteq> None \<and> name = pNot then Inr (None, p)
     else if name = Some pTag then Inr (d, p)
     else
       bindE (cXMLLiteList_MoveNext (m_xmlElements p)) (\<lambda>(rc, l).
       let p = p\<lparr>m_xmlElements := l\<rparr> in
       if rc = HRC_XMLLITELIST_OK then find_loop fuel pTag pNot p
       else Inr (None, p\<lparr>m_xmlElements := cXMLLiteList_RestorePos l\<rparr>))))"

definition cXMLLiteParser_FindTag :: "string \<Rightarrow> cXMLLiteParser \<Rightarrow> (nat option \<times> cXMLLiteParser) res" where
  "cXMLLiteParser_FindTag pTag p =
     (let l = cXMLLiteList_SavePos (m_xmlElements p) in
      case cXMLLiteList_MoveToHead l of (rc, l) \<Rightarrow>
        if rc = HRC_XMLLITELIST_OK then find_loop (fresh l + 1) pTag None (p\<lparr>m_xmlElements := l\<rparr>)
        else Inr (None, p\<lparr>m_xmlElements := cXMLLiteList_RestorePos l\<rparr>))"

definition cXMLLiteParser_FindNextTag ::
    "string \<Rightarrow> string option \<Rightarrow> cXMLLiteParser \<Rightarrow> (nat option \<times> cXMLLiteParser) res" where
  "cXMLLiteParser_FindNextTag pTag pNot p =
     bindE (cXMLLiteList_MoveNext (cXMLLiteList_SavePos (m_xmlElements p))) (\<lambda>(_, l).
     find_loop (fresh l + 1) pTag pNot (p\<lparr>m_xmlElements := l\<rparr>))"

section \<open>The state machine\<close>

datatype xml_state = stTagScan | stTagBegin | stTagProcess | stTagEnd

record xml_vars =
  idx :: int
  inQoute :: int
  iTagMarkStart :: int
  iAttribMarkStart :: int
  iScanMarkStart :: int
  iState :: xml_state
  iLastState :: xml_state
  pElement :: "nat option"

definition xml_start :: xml_vars where
  "xml_start =
     \<lparr>idx = 0, inQoute = 0, iTagMarkStart = 0, iAttribMarkStart = 0, iScanMarkStart = 0,
      iState = stTagScan, iLastState = stTagScan, pElement = None\<rparr>"

text \<open>One turn of the loop goes on, or ends the parse with a code.\<close>

datatype xml_turn = Go cXMLLiteParser xml_vars | Stop int cXMLLiteParser

text \<open>\<open>CheckWorkingBuffer\<close> with the early return on an allocation failure.\<close>

definition checked ::
    "malloc \<Rightarrow> int \<Rightarrow> cXMLLiteParser \<Rightarrow> (cXMLLiteParser \<Rightarrow> xml_turn res) \<Rightarrow> xml_turn res" where
  "checked ml n p f =
     bindE (cXMLLiteParser_CheckWorkingBuffer ml n p) (\<lambda>(rc, p).
     if rc = HRC_XMLLITEPARSER_ALLOC then Inr (Stop HRC_XMLLITEPARSER_ALLOC p) else f p)"

text \<open>
  \<open>strncpy(m_pWorkingBuffer, &pszData[start], n)\<close> and the terminator at \<open>n\<close>. \<open>strncpy\<close> stops at
  a zero byte of the source and pads the rest.
\<close>

definition strncpy_get :: "block \<Rightarrow> int \<Rightarrow> int \<Rightarrow> string res" where
  "strncpy_get data start n =
     (let s = c_prefix (drop (nat start) data) in
      if 0 \<le> start \<and> NUL \<in> set (drop (nat start) data) \<and> int (length s) < n
      then Inr (s @ replicate (nat n - length s) NUL)
      else mem_get data start n)"

definition copy_work :: "block \<Rightarrow> int \<Rightarrow> int \<Rightarrow> cXMLLiteParser \<Rightarrow> cXMLLiteParser res" where
  "copy_work data start n p =
     bindE (strncpy_get data start n) (\<lambda>d.
     bindE (mem_put (work p) 0 d) (\<lambda>b.
     bindE (mem_write b n NUL) (\<lambda>b. Inr (set_work b p))))"

definition clean_work :: "(block \<Rightarrow> block res) \<Rightarrow> cXMLLiteParser \<Rightarrow> cXMLLiteParser res" where
  "clean_work f p = bindE (f (work p)) (\<lambda>b. Inr (set_work b p))"

text \<open>The attribute text from \<open>start\<close> up to \<open>i\<close>, copied, cleaned and split.\<close>

definition attrib_text :: "malloc \<Rightarrow> block \<Rightarrow> int \<Rightarrow> int \<Rightarrow> nat option \<Rightarrow> cXMLLiteParser \<Rightarrow> cXMLLiteParser res" where
  "attrib_text ml data start i pElem p =
     bindE (copy_work data start (i - start + 1) p) (\<lambda>p.
     bindE (clean_work cXMLLiteParser_CleanInput p) (\<lambda>p.
     bindE (cstr_at (work p) 0) (\<lambda>s.
     if s = [] then Inr p
     else bindE (cXMLLiteParser_SplitParam ml s pElem p) (\<lambda>(_, p). Inr p))))"

text \<open>The text since the last tag becomes the value of the last element.\<close>

definition begin_value :: "malloc \<Rightarrow> xml_vars \<Rightarrow> cXMLLiteParser \<Rightarrow> cXMLLiteParser res" where
  "begin_value ml v p =
     bindE (mem_write (work p) (idx v - iScanMarkStart v) NUL) (\<lambda>b.
     bindE (cXMLLiteParser_StripLeading b) (\<lambda>b.
     bindE (cXMLLiteParser_StripTrailing b) (\<lambda>b.
     bindE (mem_read b 0) (\<lambda>c.
     if c = NUL \<or> pElement v = None then Inr (set_work b p)
     else
       bindE (cXMLLiteParser_TransformXMLEntities b) (\<lambda>b.
       with_elem (pElement v) (cXMLLiteElement_SetElementValue ml b) (set_work b p))))))"

definition tag_begin :: "malloc \<Rightarrow> xml_vars \<Rightarrow> cXMLLiteParser \<Rightarrow> xml_turn res" where
  "tag_begin ml v p =
     bindE
       (if iScanMarkStart v > 0 \<and> iLastState v = stTagScan \<and> idx v - iScanMarkStart v > 0
        then checked ml (idx v - iScanMarkStart v + 1) p (\<lambda>p. bindE (begin_value ml v p) (\<lambda>p. Inr (Go p v)))
        else Inr (Go p v)) (\<lambda>t.
       case t of
         Stop rc p \<Rightarrow> Inr (Stop rc p)
       | Go p v \<Rightarrow>
           bindE (cXMLLiteParser_GetNewEntry ml p) (\<lambda>(e, p).
           Inr (Go p (v\<lparr>pElement := e, iScanMarkStart := 0, iTagMarkStart := idx v,
                       iLastState := stTagBegin, iState := stTagProcess, idx := idx v + 1\<rparr>))))"

definition tag_process :: "malloc \<Rightarrow> block \<Rightarrow> char \<Rightarrow> xml_vars \<Rightarrow> cXMLLiteParser \<Rightarrow> xml_turn res" where
  "tag_process ml data ch v p =
     (let v = (if ch = CHR 0x22
               then v\<lparr>inQoute := (if inQoute v = 0 then 1 else if inQoute v = 1 then 0 else inQoute v)\<rparr>
               else v) in
      if ch = CHR '' '' \<and> iAttribMarkStart v = 0
      then Inr (Go p (v\<lparr>iAttribMarkStart := idx v, idx := idx v + 1\<rparr>))
      else if (ch = CHR '' '' \<or> ch = TAB) \<and> inQoute v = 0
      then
        checked ml (idx v - iAttribMarkStart v + 1) p (\<lambda>p.
        bindE (attrib_text ml data (iAttribMarkStart v) (idx v) (pElement v) p) (\<lambda>p.
        Inr (Go p (v\<lparr>iAttribMarkStart := idx v, idx := idx v + 1\<rparr>))))
      else Inr (Go p (v\<lparr>idx := idx v + 1\<rparr>)))"

text \<open>A CDATA section; the position after it is advanced by two bytes too many.\<close>

definition cdata :: "malloc \<Rightarrow> block \<Rightarrow> nat \<Rightarrow> xml_vars \<Rightarrow> cXMLLiteParser \<Rightarrow> xml_turn res" where
  "cdata ml data marker v p =
     (let iSize = int marker - 1 - 8 in
      bindE (with_elem (pElement v) (cXMLLiteElement_SetElementCDATA ml (drop (nat (idx v + 9)) data) iSize) p) (\<lambda>p.
      let i = idx v + iSize + 9 + 3 + 2 in
      bindE (cstr_at data i) (\<lambda>s.
      Inr (Go p (v\<lparr>iState := stTagBegin,
        idx := (case str_find s ''<'' of None \<Rightarrow> i | Some k \<Rightarrow> i + int k)\<rparr>)))))"

text \<open>The end of a tag: the name, the last attribute and the entry for a short terminator.\<close>

definition end_name :: "malloc \<Rightarrow> bool \<Rightarrow> nat option \<Rightarrow> cXMLLiteParser \<Rightarrow> cXMLLiteParser res" where
  "end_name ml short pElem p =
     (if pElem = None then Inr p
      else
        bindE (clean_work (cXMLLiteParser_TerminateAtChar (CHR '' '')) p) (\<lambda>p.
        bindE (if short then clean_work (cXMLLiteParser_TerminateAtChar (CHR ''/'')) p else Inr p) (\<lambda>p.
        with_elem pElem (cXMLLiteElement_SetElementName ml (work p)) p)))"

definition tag_end :: "malloc \<Rightarrow> block \<Rightarrow> xml_vars \<Rightarrow> cXMLLiteParser \<Rightarrow> xml_turn res" where
  "tag_end ml data v p =
     (let n = idx v - iTagMarkStart v + 1 in
      checked ml n p (\<lambda>p.
      bindE (copy_work data (iTagMarkStart v) n p) (\<lambda>p.
      bindE (cstr_at (work p) 0) (\<lambda>s.
      bindE (mem_read (work p) (int (length s) - 2)) (\<lambda>c.
      let short = (c = CHR ''/'') in
      bindE (clean_work cXMLLiteParser_CleanInput p) (\<lambda>p.
      bindE (end_name ml short (pElement v) p) (\<lambda>p.
      bindE (if iAttribMarkStart v \<noteq> 0
             then attrib_text ml data (iAttribMarkStart v) (idx v) (pElement v) p else Inr p) (\<lambda>p.
      bindE (if pElement v \<noteq> None \<and> short
             then bindE (cXMLLiteParser_GetNewEntry ml p) (\<lambda>(e, p).
                  bindE (with_elem e (cXMLLiteElement_SetElementName ml (cstr ''/>'')) p) (\<lambda>p. Inr (e, p)))
             else Inr (pElement v, p)) (\<lambda>(e, p).
      Inr (Go p (v\<lparr>pElement := e, iAttribMarkStart := 0, iTagMarkStart := 0, iLastState := iState v,
                  iState := stTagScan, iScanMarkStart := idx v + 1, idx := idx v + 1\<rparr>)))))))))))"

definition tag_scan :: "malloc \<Rightarrow> char \<Rightarrow> xml_vars \<Rightarrow> cXMLLiteParser \<Rightarrow> xml_turn res" where
  "tag_scan ml ch v p =
     (let store = (\<lambda>p. bindE (mem_write (work p) (idx v - iScanMarkStart v) ch) (\<lambda>b.
                 Inr (Go (set_work b p) (v\<lparr>idx := idx v + 1\<rparr>))))
      in if idx v - iScanMarkStart v + 1 > m_iWorkingBufferSize p
         then checked ml (idx v - iScanMarkStart v + 1) p store else store p)"

definition xml_dispatch :: "malloc \<Rightarrow> block \<Rightarrow> char \<Rightarrow> string \<Rightarrow> xml_vars \<Rightarrow> cXMLLiteParser \<Rightarrow> xml_turn res" where
  "xml_dispatch ml data ch suf v p =
     (case iState v of
        stTagBegin \<Rightarrow> tag_begin ml v p
      | stTagProcess \<Rightarrow> tag_process ml data ch v p
      | stTagEnd \<Rightarrow>
          (case (if pElement v \<noteq> None \<and> starts_with ''<![CDATA'' suf then str_find suf '']]>'' else None) of
             Some marker \<Rightarrow> cdata ml data marker v p
           | None \<Rightarrow> tag_end ml data v p)
      | stTagScan \<Rightarrow> tag_scan ml ch v p)"

text \<open>The changes of state on \<open>'<'\<close> and \<open>'>'\<close>; \<open>strncmp\<close> compares eight characters.\<close>

definition mark_state :: "char \<Rightarrow> string \<Rightarrow> xml_vars \<Rightarrow> xml_vars" where
  "mark_state ch suf v =
     (if ch = CHR ''<''
      then v\<lparr>iLastState := iState v, iState := (if starts_with ''<![CDATA'' suf then stTagEnd else stTagBegin)\<rparr>
      else if ch = CHR ''>'' then v\<lparr>iLastState := iState v, iState := stTagEnd\<rparr>
      else v)"

definition xml_step :: "malloc \<Rightarrow> block \<Rightarrow> xml_vars \<Rightarrow> cXMLLiteParser \<Rightarrow> xml_turn res" where
  "xml_step ml data v p =
     bindE (mem_read data (idx v)) (\<lambda>ch.
     if ch = NUL then Inr (Stop 0 p)
     else
       bindE (cstr_at data (idx v)) (\<lambda>suf.
       case (if starts_with ''<!--'' suf then str_find suf ''-->'' else None) of
         Some k \<Rightarrow>
           bindE (if m_pWorkingBuffer p = None then Inr p
                  else bindE (mem_write (work p) 0 NUL) (\<lambda>b. Inr (set_work b p))) (\<lambda>p.
           Inr (Go p (v\<lparr>idx := idx v + int k + 3, iState := stTagScan\<rparr>)))
       | None \<Rightarrow> xml_dispatch ml data ch suf (mark_state ch suf v) p))"

fun xml_loop :: "nat \<Rightarrow> malloc \<Rightarrow> block \<Rightarrow> xml_vars \<Rightarrow> cXMLLiteParser \<Rightarrow> (int \<times> cXMLLiteParser) res" where
  "xml_loop 0 ml data v p = Inl Diverge"
| "xml_loop (Suc fuel) ml data v p =
     bindE (xml_step ml data v p) (\<lambda>t.
       case t of Stop rc p \<Rightarrow> Inr (rc, p) | Go p v \<Rightarrow> xml_loop fuel ml data v p)"

text \<open>Every turn moves \<open>idx\<close> forward, so the length of the text is enough fuel.\<close>

definition cXMLLiteParser_Parse :: "malloc \<Rightarrow> block \<Rightarrow> cXMLLiteParser \<Rightarrow> (int \<times> cXMLLiteParser) res" where
  "cXMLLiteParser_Parse ml data p =
     bindE (cXMLLiteParser_Flush p) (\<lambda>p. xml_loop (length data + 1) ml data xml_start p)"

end
