(* ===== verification/XmlWellFormed.thy ===== *)
theory XmlWellFormed
  imports XmlParser
begin

text \<open>
  What every operation of the XML parser keeps, whatever the input: strings end in a zero byte
  inside their block, the lists are proper chains, the elements they hold are live, and the
  working buffer has the size the object believes. \<open>yields r P\<close> says that an execution that
  returns gives a value with \<open>P\<close>, and that it does not run out of fuel.
\<close>

definition yields :: "'a res \<Rightarrow> ('a \<Rightarrow> bool) \<Rightarrow> bool" where
  "yields r P \<longleftrightarrow> r \<noteq> Inl Diverge \<and> (\<forall>x. r = Inr x \<longrightarrow> P x)"

lemma yields_Inr [simp]: "yields (Inr x) P = P x"
  by (simp add: yields_def)

lemma yields_Inl [simp]: "yields (Inl e) P \<longleftrightarrow> e \<noteq> Diverge"
  by (simp add: yields_def)

lemma yields_bindE: "yields m Q \<Longrightarrow> (\<And>x. Q x \<Longrightarrow> yields (f x) P) \<Longrightarrow> yields (bindE m f) P"
  by (cases m) (auto simp: yields_def)

lemma yields_mono: "yields m Q \<Longrightarrow> (\<And>x. Q x \<Longrightarrow> P x) \<Longrightarrow> yields m P"
  by (auto simp: yields_def)

lemma yields_read: "yields (mem_read b i) (\<lambda>_. 0 \<le> i \<and> i < int (length b))"
  by (simp add: mem_read_def)

lemma yields_get: "yields (mem_get b i n) (\<lambda>d. int (length d) = n)"
  by (auto simp: mem_get_def)

lemma yields_put: "yields (mem_put b i d) (\<lambda>b'. length b' = length b)"
  by (auto simp: mem_put_def)

lemma yields_write:
  "yields (mem_write b i c) (\<lambda>b'. 0 \<le> i \<and> i < int (length b) \<and> b' = b[nat i := c] \<and> length b' = length b)"
  by (auto simp: mem_write_def)

lemma yields_cstr: "yields (cstr_at b i) (\<lambda>s. length s \<le> length b)"
proof -
  have "length (c_prefix (drop (nat i) b)) \<le> length (drop (nat i) b)"
    unfolding c_prefix_def by (rule length_takeWhile_le)
  then have "length (c_prefix (drop (nat i) b)) \<le> length b" by simp
  then show ?thesis by (simp add: cstr_at_def)
qed

section \<open>Strings, pairs, lists, elements\<close>

definition str_wf :: "cXMLLiteString \<Rightarrow> bool" where
  "str_wf x \<longleftrightarrow> (case xs_data x of None \<Rightarrow> True
     | Some b \<Rightarrow> 0 \<le> xs_length x \<and> xs_length x < int (length b) \<and> b ! nat (xs_length x) = NUL)"

lemma str_wf_None: "str_wf (x\<lparr>xs_data := None\<rparr>)"
  by (simp add: str_wf_def)

lemma yields_store: "yields (store_string p src n) (\<lambda>(rc, x). str_wf x)"
  unfolding store_string_def
  by (rule yields_bindE[OF yields_get] yields_bindE[OF yields_put] yields_bindE[OF yields_write])+
    (auto simp: str_wf_def)

lemma yields_ReplaceWith: "yields (cXMLLiteString_ReplaceWith ml src n x) (\<lambda>(rc, x). str_wf x)"
proof -
  have "yields (src_size src n) (\<lambda>_. True)"
    unfolding src_size_def by (auto intro: yields_bindE[OF yields_cstr])
  then show ?thesis
    unfolding cXMLLiteString_ReplaceWith_def
    by (rule yields_bindE) (auto simp: Let_def yields_store str_wf_None split: option.split)
qed

definition pair_wf :: "cXMLLiteAttributePair \<Rightarrow> bool" where
  "pair_wf a \<longleftrightarrow> str_wf (m_AttributeName a) \<and> str_wf (m_AttributeValue a)"

lemma yields_SetPair: "yields (cXMLLiteAttributePair_SetPair ml n v a) pair_wf"
  unfolding cXMLLiteAttributePair_SetPair_def
  by (rule yields_bindE[OF yields_ReplaceWith], clarsimp)+ (simp add: pair_wf_def)

definition list_wf :: "('d \<Rightarrow> bool) \<Rightarrow> 'd cXMLLiteList \<Rightarrow> bool" where
  "list_wf Q l \<longleftrightarrow> (\<exists>c. represents l c \<and> (\<forall>d \<in> set (items c). \<exists>x. d = Some x \<and> Q x))"

lemma list_wf_mono: "list_wf P l \<Longrightarrow> (\<And>x. P x \<Longrightarrow> Q x) \<Longrightarrow> list_wf Q l"
  unfolding list_wf_def by blast

lemma list_wf_new: "list_wf Q (cXMLLiteList_new marker)"
  unfolding list_wf_def using represents_new[of marker] by (auto simp: clist_new_def)

lemma Add_fails:
  assumes "represents l c"
  shows "\<exists>rc. cXMLLiteList_Add False junk d l = Inr (rc, l)"
proof -
  obtain xs where xs: "chain xs (items c) l" using assms by (auto simp: represents_def)
  show ?thesis
  proof (cases "xs = []")
    case True
    with xs show ?thesis
      by (cases l) (auto simp: cXMLLiteList_Add_def cXMLLiteList_PlaceAtHead_def new_node_def chain_def link_at_def)
  next
    case False
    define k where "k = length xs - 1"
    have k: "k < length xs" "Suc k = length xs" "last xs = xs ! k"
      using False by (auto simp: k_def last_conv_nth)
    have tail: "m_pTail l = Some (xs ! k)" "m_pHead l = Some (xs ! 0)"
      and nd: "nodes l (xs ! k) = Some (node_at xs (items c) k)" "pNext (node_at xs (items c) k) = None"
      using xs False k by (auto simp: chain_def link_at_def node_at_def)
    have "(node_at xs (items c) k)\<lparr>pNext := None\<rparr> = node_at xs (items c) k"
      using nd(2) by (cases "node_at xs (items c) k") simp
    moreover have "(nodes l)(xs ! k \<mapsto> node_at xs (items c) k) = nodes l" using nd(1) by (simp add: fun_upd_idem)
    ultimately show ?thesis
      using tail chain_node[OF xs k(1)]
      by (cases l) (simp add: cXMLLiteList_Add_def new_node_def set_node_def)
  qed
qed

lemma yields_Add:
  assumes "list_wf Q l" and "Q x"
  shows "yields (cXMLLiteList_Add ok junk (Some x) l) (\<lambda>(rc, l'). list_wf Q l')"
proof -
  obtain c where c: "represents l c" "\<forall>d \<in> set (items c). \<exists>x. d = Some x \<and> Q x"
    using assms(1) by (auto simp: list_wf_def)
  show ?thesis
  proof (cases ok)
    case True
    from represents_Add[OF c(1), of junk "Some x"] obtain l' where l':
      "cXMLLiteList_Add True junk (Some x) l = Inr (HRC_XMLLITELIST_OK, l')"
      "represents l' (c\<lparr>items := items c @ [Some x], cursor := (if items c = [] then Some 0 else cursor c),
         added := added c + 1\<rparr>)"
      by (auto simp: res_simps split: prod.splits)
    have "list_wf Q l'"
      unfolding list_wf_def by (rule exI, rule conjI, rule l'(2)) (use c(2) assms(2) in auto)
    then show ?thesis using True l'(1) by simp
  next
    case False
    then show ?thesis using Add_fails[OF c(1), of junk "Some x"] assms(1) by auto
  qed
qed

lemma yields_Clear:
  assumes "list_wf P l"
  shows "yields (cXMLLiteList_Clear l) (list_wf Q)"
proof -
  obtain c where c: "represents l c" using assms by (auto simp: list_wf_def)
  from represents_Clear[OF this, of undefined] obtain l' where
    l': "cXMLLiteList_Clear l = Inr l'"
      "represents l' (if items c = [] then c else c\<lparr>items := [], cursor := None, saved := None\<rparr>)"
    by (auto simp: res_simps)
  have "list_wf Q l'"
    unfolding list_wf_def by (rule exI, rule conjI, rule l'(2)) simp
  then show ?thesis by (simp add: l'(1))
qed

definition elem_wf :: "cXMLLiteElement \<Rightarrow> bool" where
  "elem_wf e \<longleftrightarrow> str_wf (m_xmlCDATA e) \<and> str_wf (m_xmlTagName e) \<and> str_wf (m_xmlValue e) \<and>
     list_wf pair_wf (m_xmlAttributes e)"

lemma elem_wf_new: "elem_wf cXMLLiteElement_new"
  by (simp add: elem_wf_def cXMLLiteElement_new_def str_wf_def cXMLLiteString_new_def list_wf_new)

lemma yields_elem_set:
  "elem_wf e \<Longrightarrow> yields (cXMLLiteElement_SetElementName ml b e) elem_wf"
  "elem_wf e \<Longrightarrow> yields (cXMLLiteElement_SetElementValue ml b e) elem_wf"
  "elem_wf e \<Longrightarrow> yields (cXMLLiteElement_SetElementCDATA ml b n e) elem_wf"
  unfolding cXMLLiteElement_SetElementName_def cXMLLiteElement_SetElementValue_def
    cXMLLiteElement_SetElementCDATA_def
  by (rule yields_bindE[OF yields_ReplaceWith], simp add: elem_wf_def split: prod.splits)+

lemma yields_AddAttributePair:
  "elem_wf e \<Longrightarrow> yields (cXMLLiteElement_AddAttributePair ml n v e) elem_wf"
  unfolding cXMLLiteElement_AddAttributePair_def
  by (rule yields_bindE[OF yields_SetPair], rule yields_bindE[OF yields_Add[where Q = pair_wf]])
    (auto simp: elem_wf_def)

section \<open>The parser object\<close>

definition parser_wf :: "cXMLLiteParser \<Rightarrow> bool" where
  "parser_wf p \<longleftrightarrow>
     list_wf (\<lambda>a. a \<in> dom (elems p)) (m_xmlElements p) \<and> (\<forall>e \<in> ran (elems p). elem_wf e) \<and>
     (\<forall>a \<in> dom (elems p). a < next_elem p) \<and>
     (\<forall>b. m_pWorkingBuffer p = Some b \<longrightarrow> int (length b) = m_iWorkingBufferSize p)"

lemma parser_wf_new: "parser_wf (cXMLLiteParser_new marker)"
  by (simp add: parser_wf_def cXMLLiteParser_new_def list_wf_new)

lemma parser_wf_work: "parser_wf p \<Longrightarrow> length b = length (work p) \<Longrightarrow> parser_wf (set_work b p)"
  unfolding parser_wf_def set_work_def work_def
  by (cases "m_pWorkingBuffer p") (simp_all add: deref_def)

lemma parser_wf_cursor: "parser_wf p \<Longrightarrow> list_wf (\<lambda>a. a \<in> dom (elems p)) l \<Longrightarrow> parser_wf (p\<lparr>m_xmlElements := l\<rparr>)"
  by (simp add: parser_wf_def)

lemma yields_CheckWorkingBuffer:
  assumes "malloc_spec ml" and "parser_wf p"
  shows "yields (cXMLLiteParser_CheckWorkingBuffer ml n p) (\<lambda>(rc, p'). parser_wf p')"
proof -
  have grow: "yields (bindE (mem_get c 0 k) (\<lambda>d. bindE (mem_put b 0 d) (\<lambda>b.
      Inr (0, p\<lparr>m_pWorkingBuffer := Some b, m_iWorkingBufferSize := m\<rparr>)))) (\<lambda>(rc, p'). parser_wf p')"
    if "ml m = Some b" for b m c k
    by (rule yields_bindE[OF yields_get], rule yields_bindE[OF yields_put])
      (use assms that in \<open>auto simp: parser_wf_def malloc_spec_def\<close>)
  show ?thesis
    using assms grow
    by (auto simp: cXMLLiteParser_CheckWorkingBuffer_def Let_def split: option.split)
      (auto simp: parser_wf_def malloc_spec_def split: option.splits)
qed

lemma yields_GetNewEntry:
  assumes "parser_wf p"
  shows "yields (cXMLLiteParser_GetNewEntry ml p) (\<lambda>(e, p'). parser_wf p')"
proof -
  let ?p = "p\<lparr>elems := (elems p)(next_elem p \<mapsto> cXMLLiteElement_new), next_elem := next_elem p + 1\<rparr>"
  have "list_wf (\<lambda>a. a \<in> dom (elems ?p)) (m_xmlElements ?p)"
    using assms by (auto simp: parser_wf_def elim!: list_wf_mono)
  moreover have "\<forall>e \<in> ran (elems ?p). elem_wf e"
    using assms elem_wf_new by (auto simp: parser_wf_def ran_def split: if_splits)
  ultimately show ?thesis
    unfolding cXMLLiteParser_GetNewEntry_def Let_def
    by (intro yields_bindE[OF yields_Add[where Q = "\<lambda>a. a \<in> dom (elems ?p)"]])
      (use assms in \<open>auto simp: parser_wf_def less_Suc_eq\<close>)
qed

lemma yields_with_elem:
  assumes "parser_wf p" and "\<And>e. elem_wf e \<Longrightarrow> yields (f e) elem_wf"
  shows "yields (with_elem a f p) parser_wf"
proof (cases "Option.bind a (elems p)")
  case None
  then show ?thesis by (cases a) (auto simp: with_elem_def)
next
  case (Some e)
  then obtain i where i: "a = Some i" "elems p i = Some e" by (cases a) auto
  then have e: "elem_wf e" using assms(1) by (auto simp: parser_wf_def intro: ranI)
  have "dom ((elems p)(i \<mapsto> x)) = dom (elems p)" for x using i(2) by auto
  then have "parser_wf (p\<lparr>elems := (elems p)(i \<mapsto> x)\<rparr>)" if "elem_wf x" for x
    using assms(1) that by (auto simp: parser_wf_def ran_def split: if_splits)
  then show ?thesis
    using i by (simp add: with_elem_def) (rule yields_bindE[OF assms(2)[OF e]], simp)
qed

lemma MovePrev_ok:
  assumes "represents l c" and "cursor c = Some i" and "items c \<noteq> []"
  shows "\<exists>l'. cXMLLiteList_MovePrev l = Inr (if i > 0 then HRC_XMLLITELIST_OK else HRC_XMLLITELIST_BEGIN, l') \<and>
    represents l' (c\<lparr>cursor := (if i > 0 then Some (i - 1) else None)\<rparr>)"
  using assms represents_step[where l = l and c = c and x = LPrev and junk = undefined and
      out = "OutCode (if i > 0 then HRC_XMLLITELIST_OK else HRC_XMLLITELIST_BEGIN)" and
      c' = "c\<lparr>cursor := (if i > 0 then Some (i - 1) else None)\<rparr>"]
  by (cases "i > 0") (auto simp: res_simps)

lemma MoveToTail_ok:
  assumes "represents l c"
  shows "\<exists>l'. cXMLLiteList_MoveToTail l = (if items c = [] then HRC_XMLLITELIST_EMPTY else HRC_XMLLITELIST_OK, l') \<and>
    represents l' (c\<lparr>cursor := (if items c = [] then None else Some (length (items c) - 1))\<rparr>)"
  using assms represents_step[where l = l and c = c and x = LTail and junk = undefined and
      out = "OutCode (if items c = [] then HRC_XMLLITELIST_EMPTY else HRC_XMLLITELIST_OK)" and
      c' = "c\<lparr>cursor := (if items c = [] then None else Some (length (items c) - 1))\<rparr>"]
  by (cases "items c = []") (auto split: prod.splits)

lemma flush_elements_ok:
  assumes "represents (m_xmlElements p) c" and "cursor c = Some i" and "i < length (items c)" and "i < n"
  shows "\<exists>p' c'. flush_elements n p = Inr p' \<and> represents (m_xmlElements p') c' \<and> elems p' \<subseteq>\<^sub>m elems p \<and>
    next_elem p' = next_elem p \<and> m_pWorkingBuffer p' = m_pWorkingBuffer p \<and>
    m_iWorkingBufferSize p' = m_iWorkingBufferSize p"
  using assms
proof (induction n arbitrary: p c i)
  case 0
  then show ?case by simp
next
  case (Suc n)
  let ?q = "case items c ! i of None \<Rightarrow> p | Some a \<Rightarrow> p\<lparr>elems := (elems p)(a := None)\<rparr>"
  have q: "m_xmlElements ?q = m_xmlElements p" "elems ?q \<subseteq>\<^sub>m elems p" "next_elem ?q = next_elem p"
    "m_pWorkingBuffer ?q = m_pWorkingBuffer p" "m_iWorkingBufferSize ?q = m_iWorkingBufferSize p"
    by (auto simp: map_le_def split: option.split)
  have d: "cXMLLiteList_GetData (m_xmlElements p) = Inr (items c ! i)"
    using represents_step[OF Suc.prems(1), of LGetData] Suc.prems(2) by (auto simp: res_simps)
  have ne: "items c \<noteq> []" using Suc.prems(3) by auto
  define c' where "c' = c\<lparr>cursor := (if i > 0 then Some (i - 1) else None)\<rparr>"
  obtain l' where l': "cXMLLiteList_MovePrev (m_xmlElements p) =
      Inr (if i > 0 then HRC_XMLLITELIST_OK else HRC_XMLLITELIST_BEGIN, l')" "represents l' c'"
    using MovePrev_ok[OF Suc.prems(1,2) ne] unfolding c'_def by blast
  show ?case
  proof (cases "i > 0")
    case True
    have "\<exists>p' c''. flush_elements n (?q\<lparr>m_xmlElements := l'\<rparr>) = Inr p' \<and> represents (m_xmlElements p') c'' \<and>
      elems p' \<subseteq>\<^sub>m elems (?q\<lparr>m_xmlElements := l'\<rparr>) \<and> next_elem p' = next_elem (?q\<lparr>m_xmlElements := l'\<rparr>) \<and>
      m_pWorkingBuffer p' = m_pWorkingBuffer (?q\<lparr>m_xmlElements := l'\<rparr>) \<and>
      m_iWorkingBufferSize p' = m_iWorkingBufferSize (?q\<lparr>m_xmlElements := l'\<rparr>)"
      by (rule Suc.IH[of _ c' "i - 1"]) (use l'(2) Suc.prems True in \<open>auto simp: c'_def\<close>)
    with True d l'(1) q show ?thesis
      by (simp add: Let_def del: map_le_def) (meson map_le_trans)
  next
    case False
    then show ?thesis
      using d l' q by (simp add: Let_def HRC_XMLLITELIST_OK_def HRC_XMLLITELIST_BEGIN_def) blast
  qed
qed

lemma parser_wf_restrict:
  assumes "parser_wf p" and "elems q \<subseteq>\<^sub>m elems p" and "next_elem q = next_elem p"
    and "m_pWorkingBuffer q = m_pWorkingBuffer p" and "m_iWorkingBufferSize q = m_iWorkingBufferSize p"
    and "list_wf (\<lambda>a. a \<in> dom (elems q)) (m_xmlElements q)"
  shows "parser_wf q"
proof -
  have "elems p a = Some e" if "elems q a = Some e" for a e
    using assms(2) that by (force simp: map_le_def dom_def)
  then show ?thesis using assms by (auto simp: parser_wf_def ran_def dom_def)
qed

lemma yields_Flush:
  assumes "parser_wf p"
  shows "yields (cXMLLiteParser_Flush p) parser_wf"
proof -
  obtain c where c: "represents (m_xmlElements p) c" using assms by (auto simp: parser_wf_def list_wf_def)
  obtain rc l where l: "cXMLLiteList_MoveToTail (m_xmlElements p) = (rc, l)"
    "represents l (c\<lparr>cursor := (if items c = [] then None else Some (length (items c) - 1))\<rparr>)"
    "rc = (if items c = [] then HRC_XMLLITELIST_EMPTY else HRC_XMLLITELIST_OK)"
    using MoveToTail_ok[OF c] by blast
  let ?c = "c\<lparr>cursor := (if items c = [] then None else Some (length (items c) - 1))\<rparr>"
  have len: "length (items c) \<le> fresh l"
    using l(2) distinct_bound by (fastforce simp: represents_def chain_def)
  have "items c \<noteq> [] \<Longrightarrow> length (items c) - 1 < fresh l"
    using len by (cases "items c") auto
  then have "\<exists>p' c'. (if rc = HRC_XMLLITELIST_OK then flush_elements (fresh l) (p\<lparr>m_xmlElements := l\<rparr>)
      else Inr (p\<lparr>m_xmlElements := l\<rparr>)) = Inr p' \<and> represents (m_xmlElements p') c' \<and>
    elems p' \<subseteq>\<^sub>m elems p \<and> next_elem p' = next_elem p \<and>
    m_pWorkingBuffer p' = m_pWorkingBuffer p \<and> m_iWorkingBufferSize p' = m_iWorkingBufferSize p"
    using l(2,3) flush_elements_ok[of "p\<lparr>m_xmlElements := l\<rparr>" ?c "length (items c) - 1" "fresh l"]
    by (cases "items c = []") (auto simp: HRC_XMLLITELIST_OK_def HRC_XMLLITELIST_EMPTY_def)
  then obtain p' c' where p': "(if rc = HRC_XMLLITELIST_OK then flush_elements (fresh l) (p\<lparr>m_xmlElements := l\<rparr>)
      else Inr (p\<lparr>m_xmlElements := l\<rparr>)) = Inr p'" "represents (m_xmlElements p') c'"
    "elems p' \<subseteq>\<^sub>m elems p" "next_elem p' = next_elem p"
    "m_pWorkingBuffer p' = m_pWorkingBuffer p" "m_iWorkingBufferSize p' = m_iWorkingBufferSize p" by blast
  obtain l2 where l2: "cXMLLiteList_Clear (m_xmlElements p') = Inr l2"
    "represents l2 (if items c' = [] then c' else c'\<lparr>items := [], cursor := None, saved := None\<rparr>)"
    using represents_Clear[OF p'(2), of undefined] by (auto simp: res_simps)
  have lw: "list_wf (\<lambda>a. a \<in> dom (elems p')) l2"
    unfolding list_wf_def by (rule exI, rule conjI, rule l2(2)) simp
  have "parser_wf (p'\<lparr>m_xmlElements := l2\<rparr>)"
    by (rule parser_wf_restrict[OF assms]) (use p'(3-6) lw in simp_all)
  then show ?thesis by (simp add: cXMLLiteParser_Flush_def l(1) p'(1) l2(1))
qed

section \<open>Cleaning keeps the size of the buffer\<close>

definition keeps_size :: "(block \<Rightarrow> block res) \<Rightarrow> bool" where
  "keeps_size f \<longleftrightarrow> (\<forall>b. yields (f b) (\<lambda>b'. length b' = length b))"

lemma keeps_sizeD: "keeps_size f \<Longrightarrow> length b = n \<Longrightarrow> yields (f b) (\<lambda>b'. length b' = n)"
  by (auto simp: keeps_size_def)

lemma keeps_bind: "keeps_size f \<Longrightarrow> keeps_size g \<Longrightarrow> keeps_size (\<lambda>b. bindE (f b) g)"
  unfolding keeps_size_def
proof (intro allI)
  fix b :: block assume "\<forall>b. yields (f b) (\<lambda>b'. length b' = length b)" and g: "\<forall>b. yields (g b) (\<lambda>b'. length b' = length b)"
  then have "yields (f b) (\<lambda>b'. length b' = length b)" by simp
  then show "yields (bindE (f b) g) (\<lambda>b'. length b' = length b)"
  proof (rule yields_bindE)
    fix x :: block assume "length x = length b"
    then show "yields (g x) (\<lambda>b'. length b' = length b)" using g[rule_format, of x] by simp
  qed
qed

lemma keeps_guard:
  "keeps_size g \<Longrightarrow> keeps_size (\<lambda>b. bindE (mem_read b 0) (\<lambda>c. if c = NUL then Inr b else g b))"
  unfolding keeps_size_def by (auto intro: yields_bindE[OF yields_read])

lemma keeps_cstr_put: "keeps_size (\<lambda>b. bindE (cstr_at b 0) (\<lambda>s. mem_put b 0 (g s)))"
  unfolding keeps_size_def by (intro allI yields_bindE[OF yields_cstr] yields_put)

lemma keeps_strip:
  "keeps_size cXMLLiteParser_StripChars" "keeps_size (strip_leading f)" "keeps_size (strip_trailing f)"
  unfolding cXMLLiteParser_StripChars_def[abs_def] strip_leading_def[abs_def] strip_trailing_def[abs_def] Let_def
  by (rule keeps_cstr_put)+

lemma keeps_quotes: "keeps_size cXMLLiteParser_StripBeginningAndEndingQoutes"
proof -
  have w: "yields (mem_write b i c) (\<lambda>b'. length b' = n)" if "length b = n" for b i c n
    using yields_write[of b i c] that by (auto elim: yields_mono)
  have q: "yields (mem_put b i d) (\<lambda>b'. length b' = n)" if "length b = n" for b i d n
    using yields_put[of b i d] that by simp
  show ?thesis
    unfolding keeps_size_def cXMLLiteParser_StripBeginningAndEndingQoutes_def
    by (intro allI yields_bindE[OF yields_cstr])
      (auto simp: Let_def split: option.split
        intro!: yields_bindE[OF q] yields_bindE[OF yields_cstr] yields_bindE[OF yields_get] w)
qed

lemma keeps_terminate: "keeps_size (cXMLLiteParser_TerminateAtChar c)"
  unfolding keeps_size_def cXMLLiteParser_TerminateAtChar_def
  by (intro allI yields_bindE[OF yields_cstr])
    (auto split: option.split intro: yields_mono[OF yields_write])

lemma keeps_clean: "keeps_size cXMLLiteParser_CleanInput"
  unfolding cXMLLiteParser_CleanInput_def[abs_def] cXMLLiteParser_StripLeadingSpaces_def
    cXMLLiteParser_StripTrailingSpaces_def
  by (intro keeps_bind keeps_guard keeps_strip keeps_quotes)

lemma length_move_down_eq: "length (move_down n b) = length b"
  by (auto simp: move_down_def Let_def)

lemma length_transform: "length (transform_entities b) = length b"
  by (induction b rule: transform_entities.induct) (simp_all add: length_move_down_eq split: option.split)

lemma keeps_transform: "keeps_size cXMLLiteParser_TransformXMLEntities"
  unfolding keeps_size_def cXMLLiteParser_TransformXMLEntities_def
  by (intro allI yields_bindE[OF yields_cstr]) (simp add: length_transform)

lemma yields_clean_work:
  "keeps_size f \<Longrightarrow> parser_wf p \<Longrightarrow> yields (clean_work f p) parser_wf"
  unfolding clean_work_def by (rule yields_bindE[OF keeps_sizeD]) (auto intro: parser_wf_work)

section \<open>The steps of the parser\<close>

lemma parser_wf_split:
  "parser_wf p \<Longrightarrow> parser_wf (split_buffers ml n p)"
  "parser_wf p \<Longrightarrow> parser_wf (p\<lparr>m_pSplitBufferName := nb, m_pSplitBufferValue := vb\<rparr>)"
  by (simp_all add: parser_wf_def split_buffers_def)

lemma yields_seq: "r \<noteq> Inl Diverge \<Longrightarrow> (\<And>x. yields (f x) P) \<Longrightarrow> yields (bindE r f) P"
  by (cases r) (auto simp: yields_def)

lemma yields_if:
  "(c \<Longrightarrow> yields a P) \<Longrightarrow> (\<not> c \<Longrightarrow> yields b P) \<Longrightarrow> yields (if c then a else b) P"
  by simp

lemma yields_option:
  "yields a P \<Longrightarrow> (\<And>x. yields (f x) P) \<Longrightarrow> yields (case r of None \<Rightarrow> a | Some x \<Rightarrow> f x) P"
  by (cases r) auto

lemma no_diverge:
  "mem_put b i d \<noteq> Inl Diverge" "mem_get b i n \<noteq> Inl Diverge" "mem_write b i c \<noteq> Inl Diverge"
  "mem_read b i \<noteq> Inl Diverge" "cstr_at b i \<noteq> Inl Diverge"
  "(if q then mem_write b i c else Inr b) \<noteq> Inl Diverge"
  "cXMLLiteParser_TransformXMLEntities b \<noteq> Inl Diverge"
  by (auto simp: mem_put_def mem_get_def mem_write_def mem_read_def cstr_at_def
    cXMLLiteParser_TransformXMLEntities_def)

lemma yields_SplitParam:
  assumes "parser_wf p"
  shows "yields (cXMLLiteParser_SplitParam ml s e p) (\<lambda>(rc, p). parser_wf p)"
  unfolding cXMLLiteParser_SplitParam_def Let_def
  by (intro yields_if yields_seq no_diverge yields_bindE[OF yields_with_elem] parser_wf_split
      yields_AddAttributePair assms)
    (simp_all add: assms)

lemma yields_copy_work: "parser_wf p \<Longrightarrow> yields (copy_work data start n p) parser_wf"
  unfolding copy_work_def
  by (rule yields_seq, simp add: strncpy_get_def Let_def no_diverge, rule yields_bindE[OF yields_put],
    rule yields_bindE[OF yields_write]) (auto intro: parser_wf_work)

lemma yields_attrib_text: "parser_wf p \<Longrightarrow> yields (attrib_text ml data start i e p) parser_wf"
  unfolding attrib_text_def
  by (rule yields_bindE[OF yields_copy_work], assumption, rule yields_bindE[OF yields_clean_work[OF keeps_clean]],
    assumption, rule yields_bindE[OF yields_cstr])
    (auto intro!: yields_bindE[OF yields_SplitParam])

definition turn_wf :: "xml_vars \<Rightarrow> xml_turn \<Rightarrow> bool" where
  "turn_wf v t = (case t of Stop rc p \<Rightarrow> parser_wf p | Go p v' \<Rightarrow> parser_wf p \<and> idx v < idx v')"

lemma yields_checked:
  assumes "malloc_spec ml" and "parser_wf p" and "\<And>p. parser_wf p \<Longrightarrow> yields (f p) P"
    and "\<And>rc p. parser_wf p \<Longrightarrow> P (Stop rc p)"
  shows "yields (checked ml n p f) P"
  unfolding checked_def
  by (rule yields_bindE[OF yields_CheckWorkingBuffer[OF assms(1,2)]]) (use assms(3,4) in auto)

lemma yields_begin_value:
  assumes "parser_wf p"
  shows "yields (begin_value ml v p) parser_wf"
proof -
  have str: "yields (cXMLLiteParser_StripLeading b) (\<lambda>b'. length b' = n)"
    "yields (cXMLLiteParser_StripTrailing b) (\<lambda>b'. length b' = n)"
    "yields (cXMLLiteParser_TransformXMLEntities b) (\<lambda>b'. length b' = n)" if "length b = n" for b n
    using that keeps_strip(2,3) keeps_transform
    by (auto simp: cXMLLiteParser_StripLeading_def cXMLLiteParser_StripTrailing_def intro: keeps_sizeD)
  have w: "yields (mem_write (work p) i c) (\<lambda>b'. length b' = length (work p))" for i c
    by (rule yields_mono[OF yields_write]) simp
  show ?thesis
    unfolding begin_value_def
  proof (rule yields_bindE[OF w], rule yields_bindE[OF str(1)], assumption, rule yields_bindE[OF str(2)],
      assumption, rule yields_bindE[OF yields_read], rule yields_if)
    fix b :: block assume b: "length b = length (work p)"
    then show "yields (Inr (set_work b p)) parser_wf" by (simp add: parser_wf_work assms)
    show "yields (bindE (cXMLLiteParser_TransformXMLEntities b) (\<lambda>b.
        with_elem (pElement v) (cXMLLiteElement_SetElementValue ml b) (set_work b p))) parser_wf"
      by (rule yields_bindE[OF str(3)[OF b]], rule yields_with_elem)
        (auto intro: parser_wf_work assms yields_elem_set)
  qed
qed

lemma turn_wf_simps [simp]:
  "turn_wf v (Stop rc p) = parser_wf p"
  "turn_wf v (Go p v') \<longleftrightarrow> parser_wf p \<and> idx v < idx v'"
  by (simp_all add: turn_wf_def)

lemma yields_tag_begin:
  assumes "malloc_spec ml" and "parser_wf p"
  shows "yields (tag_begin ml v p) (turn_wf v)"
  unfolding tag_begin_def
proof (rule yields_bindE)
  let ?Q = "\<lambda>t. case t of Stop rc p \<Rightarrow> parser_wf p | Go p v' \<Rightarrow> parser_wf p \<and> v' = v"
  show "yields (if iScanMarkStart v > 0 \<and> iLastState v = stTagScan \<and> idx v - iScanMarkStart v > 0
      then checked ml (idx v - iScanMarkStart v + 1) p (\<lambda>p. bindE (begin_value ml v p) (\<lambda>p. Inr (Go p v)))
      else Inr (Go p v)) ?Q"
    by (intro yields_if yields_checked[OF assms] yields_bindE[OF yields_begin_value]) (simp_all add: assms)
  show "yields (case t of Stop rc p \<Rightarrow> Inr (Stop rc p)
      | Go p v \<Rightarrow> bindE (cXMLLiteParser_GetNewEntry ml p) (\<lambda>(e, p).
           Inr (Go p (v\<lparr>pElement := e, iScanMarkStart := 0, iTagMarkStart := idx v,
                       iLastState := stTagBegin, iState := stTagProcess, idx := idx v + 1\<rparr>)))) (turn_wf v)"
    if "?Q t" for t
    using that by (cases t) (auto intro!: yields_bindE[OF yields_GetNewEntry])
qed

lemma yields_tag_process:
  assumes "malloc_spec ml" and "parser_wf p"
  shows "yields (tag_process ml data ch v p) (turn_wf v)"
  unfolding tag_process_def Let_def
  by (intro yields_if yields_checked[OF assms] yields_bindE[OF yields_attrib_text]) (simp_all add: assms)

lemma yields_cdata:
  assumes "parser_wf p"
  shows "yields (cdata ml data marker v p) (turn_wf v)"
  unfolding cdata_def Let_def
  by (intro yields_bindE[OF yields_with_elem] yields_seq no_diverge yields_elem_set assms)
    (auto split: option.split)

lemma yields_end_name:
  assumes "parser_wf p"
  shows "yields (end_name ml short e p) parser_wf"
  unfolding end_name_def
  by (intro yields_if yields_bindE[OF yields_clean_work[OF keeps_terminate]] yields_with_elem
      yields_elem_set yields_bindE[where Q = parser_wf])
    (auto simp: assms intro: yields_clean_work[OF keeps_terminate] yields_with_elem yields_elem_set)

lemma yields_tag_end:
  assumes "malloc_spec ml" and "parser_wf p"
  shows "yields (tag_end ml data v p) (turn_wf v)"
proof -
  have attr: "yields (if q then attrib_text ml data a i e p else Inr p) parser_wf" if "parser_wf p" for p q a i e
    using that by (simp add: yields_attrib_text)
  have entry: "yields (if q then bindE (cXMLLiteParser_GetNewEntry ml p) (\<lambda>(e, p).
      bindE (with_elem e (cXMLLiteElement_SetElementName ml b) p) (\<lambda>p. Inr (e, p))) else Inr (e, p))
      (\<lambda>(e, p). parser_wf p)" if "parser_wf p" for p q e b
    using that
    by (auto intro!: yields_bindE[OF yields_GetNewEntry] yields_bindE[OF yields_with_elem] yields_elem_set)
  show ?thesis
    unfolding tag_end_def Let_def
    by (rule yields_checked[OF assms], rule yields_bindE[OF yields_copy_work], assumption,
      rule yields_seq[OF no_diverge(5)], rule yields_seq[OF no_diverge(4)],
      rule yields_bindE[OF yields_clean_work[OF keeps_clean]], assumption,
      rule yields_bindE[OF yields_end_name], assumption, rule yields_bindE[OF attr], assumption,
      rule yields_bindE[OF entry], assumption) auto
qed

lemma yields_tag_scan:
  assumes "malloc_spec ml" and "parser_wf p"
  shows "yields (tag_scan ml ch v p) (turn_wf v)"
proof -
  have "yields (bindE (mem_write (work p) i c) (\<lambda>b. Inr (Go (set_work b p) (v\<lparr>idx := idx v + 1\<rparr>)))) (turn_wf v)"
    if "parser_wf p" for p i c
    by (rule yields_bindE[OF yields_write]) (use that in \<open>auto intro: parser_wf_work\<close>)
  then show ?thesis
    unfolding tag_scan_def Let_def by (intro yields_if yields_checked[OF assms]) (simp_all add: assms)
qed

lemma idx_mark_state [simp]: "idx (mark_state ch suf v) = idx v"
  by (simp add: mark_state_def)

lemma turn_wf_mark_state: "turn_wf (mark_state ch suf v) = turn_wf v"
  unfolding turn_wf_def by (simp cong: xml_turn.case_cong)

lemma yields_dispatch:
  assumes "malloc_spec ml" and "parser_wf p"
  shows "yields (xml_dispatch ml data ch suf v p) (turn_wf v)"
  unfolding xml_dispatch_def
  by (auto simp: assms yields_tag_begin yields_tag_process yields_cdata yields_tag_end yields_tag_scan
    split: xml_state.split option.split)

lemma yields_step:
  assumes "malloc_spec ml" and "parser_wf p"
  shows "yields (xml_step ml data v p) (\<lambda>t. turn_wf v t \<and> 0 \<le> idx v \<and> idx v < int (length data))"
proof (cases "0 \<le> idx v \<and> idx v < int (length data)")
  case False
  then show ?thesis by (auto simp: xml_step_def mem_read_def)
next
  case True
  have d: "yields (xml_dispatch ml data ch suf (mark_state ch suf v) p) (turn_wf v)" for ch suf
    using yields_dispatch[OF assms] turn_wf_mark_state by metis
  have w: "yields (mem_write (work p) 0 NUL) (\<lambda>b'. length b' = length (work p))"
    by (rule yields_mono[OF yields_write]) simp
  have z: "yields (if m_pWorkingBuffer p = None then Inr p
      else bindE (mem_write (work p) 0 NUL) (\<lambda>b. Inr (set_work b p))) parser_wf"
    by (intro yields_if yields_bindE[OF w]) (simp_all add: assms parser_wf_work)
  have "yields (xml_step ml data v p) (turn_wf v)"
    unfolding xml_step_def
    by (rule yields_seq[OF no_diverge(4)], rule yields_if, simp add: assms, rule yields_seq[OF no_diverge(5)],
      rule yields_option, rule d, rule yields_bindE[OF z], simp)
  with True show ?thesis by simp
qed

lemma yields_loop:
  assumes "malloc_spec ml" and "parser_wf p" and "0 \<le> idx v" and "int (length data) - idx v < int n" and "0 < n"
  shows "yields (xml_loop n ml data v p) (\<lambda>(rc, p). parser_wf p)"
  using assms(2-)
proof (induction n arbitrary: v p)
  case 0
  then show ?case by simp
next
  case (Suc n)
  show ?case
    unfolding xml_loop.simps
  proof (rule yields_bindE[OF yields_step[OF assms(1) Suc.prems(1)]])
    fix t assume t: "turn_wf v t \<and> 0 \<le> idx v \<and> idx v < int (length data)"
    then show "yields (case t of Stop rc p \<Rightarrow> Inr (rc, p) | Go p v \<Rightarrow> xml_loop n ml data v p) (\<lambda>(rc, p). parser_wf p)"
      using Suc.IH Suc.prems(3) by (cases t) auto
  qed
qed

lemma Parse_yields:
  assumes "malloc_spec ml" and "parser_wf p"
  shows "yields (cXMLLiteParser_Parse ml data p) (\<lambda>(rc, p). parser_wf p)"
  unfolding cXMLLiteParser_Parse_def
  by (rule yields_bindE[OF yields_Flush[OF assms(2)]], rule yields_loop[OF assms(1)])
    (simp_all add: xml_start_def)

text \<open>(C0) Whatever text \<open>(C13) Parse\<close> is given, it terminates, and unless it faults it leaves a well-typed
parser: the element list is a proper doubly linked chain of live elements, every string it set
ends in a zero byte inside its block, every attribute list is a chain of such pairs, and the
working buffer has the size the object records. A fresh parser is well-typed, and the
guarantee carries over a sequence of parses with the same object.\<close>

theorem xml_parse_well_formed:
  assumes "malloc_spec ml"
  shows "parser_wf (cXMLLiteParser_new marker) \<and>
    (parser_wf p \<longrightarrow> cXMLLiteParser_Parse ml data p \<noteq> Inl Diverge \<and>
      (\<forall>rc q. cXMLLiteParser_Parse ml data p = Inr (rc, q) \<longrightarrow> parser_wf q))"
  using Parse_yields[OF assms, of p data] parser_wf_new by (auto simp: yields_def)

theorem xml_parse_well_formed_witness:
  "\<exists>q. cXMLLiteParser_Parse zero_malloc (cstr ''<a>x</a>'') (cXMLLiteParser_new None) = Inr (0, q) \<and>
     parser_wf q \<and> m_iTotalEntries (m_xmlElements q) = 2"
proof -
  have "case cXMLLiteParser_Parse zero_malloc (cstr ''<a>x</a>'') (cXMLLiteParser_new None) of
      Inl e \<Rightarrow> False | Inr (rc, q) \<Rightarrow> rc = 0 \<and> m_iTotalEntries (m_xmlElements q) = 2"
    by code_simp
  then obtain q where "cXMLLiteParser_Parse zero_malloc (cstr ''<a>x</a>'') (cXMLLiteParser_new None) = Inr (0, q)"
    "m_iTotalEntries (m_xmlElements q) = 2" by (auto split: sum.splits)
  then show ?thesis
    using xml_parse_well_formed[of zero_malloc None "cXMLLiteParser_new None" "cstr ''<a>x</a>''"] malloc_total_spec[OF malloc_total_zero] by blast
qed

end
