(* ===== verification/WebFiles.thy ===== *)
theory WebFiles
  imports Buffer OrdMap
begin

text \<open>
  What the web server serves files with: the table of content types (\<open>mimemap.cpp\<close>), the virtual
  directories of hosts and ports (\<open>virtualdirectorymap.cpp\<close>) and the cache of file contents
  (\<open>filecache.cpp\<close>). The locks are left out. The cache holds pointers to its entries; a replaced
  entry is never freed, so a pointer to it keeps its values, and entries are values here. MD5 is
  a parameter.
\<close>

section \<open>Content types\<close>

definition mime_lines :: "string list" where
  "mime_lines = [
    ''.3dmf=x-world/x-3dmf'', ''.3dm=x-world/x-3dmf'', ''.a=application/octet-stream'',
     ''.aab=application/x-authorware-bin'', ''.aam=application/x-authorware-map'',
     ''.aas=application/x-authorware-seg'', ''.abc=text/vnd.abc'', ''.acgi=text/html'',
     ''.afl=video/animaflex'', ''.ai=application/postscript'', ''.aif=audio/x-aiff'',
     ''.aifc=audio/x-aiff'', ''.aiff=audio/x-aiff'', ''.aim=application/x-aim'',
     ''.aip=text/x-audiosoft-intra'', ''.ani=application/x-navi-animation'',
     ''.aos=application/x-nokia-9000-communicator-add-on-software'', ''.aps=application/mime'',
     ''.arc=application/octet-stream'', ''.arj=application/octet-stream'', ''.art=image/x-jg'',
     ''.asf=video/x-ms-asf'', ''.asm=text/x-asm'', ''.asp=text/asp'', ''.asx=video/x-ms-asf'',
     ''.au=audio/x-au'', ''.avi=video/x-msvideo'', ''.avs=video/avs-video'',
     ''.bcpio=application/x-bcpio'', ''.bin=application/octet-stream'', ''.bm=image/bmp'',
     ''.bmp=image/x-windows-bmp'', ''.boo=application/book'', ''.book=application/book'',
     ''.boz=application/x-bzip2'', ''.bsh=application/x-bsh'', ''.bz=application/x-bzip'',
     ''.bz2=application/x-bzip2'', ''.c=text/plain'', ''.c++=text/plain'',
     ''.cat=application/vnd.ms-pki.seccat'', ''.cc=text/plain'', ''.ccad=application/clariscad'',
     ''.cco=application/x-cocoa'', ''.cdf=application/x-cdf'', ''.cer=application/x-x509-ca-cert'',
     ''.cha=application/x-chat'', ''.chat=application/x-chat'', ''.class=application/x-java-class'',
     ''.com=application/octet-stream'', ''.conf=text/plain'', ''.cpio=application/x-cpio'',
     ''.cpp=text/x-c'', ''.cpt=application/x-compactpro'', ''.crl=application/pkix-crl'',
     ''.crt=application/x-x509-ca-cert'', ''.csh=text/x-script.csh'', ''.css=text/css'',
     ''.cxx=text/plain'', ''.dcr=application/x-director'', ''.deepv=application/x-deepv'',
     ''.def=text/plain'', ''.der=application/x-x509-ca-cert'', ''.dif=video/x-dv'',
     ''.dir=application/x-director'', ''.dl=video/x-dl'', ''.doc=application/msword'',
     ''.dot=application/msword'', ''.dp=application/commonground'', ''.drw=application/drafting'',
     ''.dump=application/octet-stream'', ''.dv=video/x-dv'', ''.dvi=application/x-dvi'',
     ''.dwf=model/vnd.dwf'', ''.dwg=image/x-dwg'', ''.dxf=image/x-dwg'', ''.dxr=application/x-director'',
     ''.el=text/x-script.elisp'', ''.elc=application/x-elc'', ''.env=application/x-envoy'',
     ''.eps=application/postscript'', ''.es=application/x-esrehber'', ''.etx=text/x-setext'',
     ''.evy=application/x-envoy'', ''.exe=application/octet-stream'', ''.f=text/plain'',
     ''.f=text/x-fortran'', ''.f77=text/x-fortran'', ''.f90=text/plain'', ''.f90=text/x-fortran'',
     ''.fdf=application/vnd.fdf'', ''.fif=image/fif'', ''.fli=video/x-fli'', ''.flo=image/florian'',
     ''.flx=text/vnd.fmi.flexstor'', ''.fmf=video/x-atomic3d-feature'', ''.for=text/plain'',
     ''.fpx=image/vnd.net-fpx'', ''.frl=application/freeloader'', ''.funk=audio/make'', ''.g=text/plain'',
     ''.g3=image/g3fax'', ''.gif=image/gif'', ''.gl=video/x-gl'', ''.gsd=audio/x-gsm'',
     ''.gsm=audio/x-gsm'', ''.gsp=application/x-gsp'', ''.gss=application/x-gss'',
     ''.gtar=application/x-gtar'', ''.gz=application/x-gzip'', ''.gzip=application/x-gzip'',
     ''.h=text/plain'', ''.hdf=application/x-hdf'', ''.help=application/x-helpfile'',
     ''.hgl=application/vnd.hp-HPGL'', ''.hh=text/plain'', ''.hlb=text/x-script'',
     ''.hlp=application/x-winhelp'', ''.hpg=application/vnd.hp-HPGL'', ''.hpgl=application/vnd.hp-HPGL'',
     ''.hqx=application/x-mac-binhex40'', ''.hta=application/hta'', ''.htm=text/html'',
     ''.html=text/html'', ''.htmls=text/html'', ''.htt=text/webviewhtml'', ''.htx=text/html'',
     ''.ice=x-conference/x-cooltalk'', ''.ico=image/x-icon'', ''.idc=text/plain'', ''.ief=image/ief'',
     ''.iefs=image/ief'', ''.iges=application/iges'', ''.igs=application/iges'',
     ''.ima=application/x-ima'', ''.imap=application/x-httpd-imap'', ''.inf=application/inf'',
     ''.ins=application/x-internett-signup'', ''.ip=application/x-ip2'', ''.isu=video/x-isvideo'',
     ''.it=audio/it'', ''.iv=application/x-inventor'', ''.ivr=i-world/i-vrml'',
     ''.ivy=application/x-livescreen'', ''.jam=audio/x-jam'', ''.jav=text/plain'', ''.java=text/plain'',
     ''.jcm=application/x-java-commerce'', ''.jfif=image/jpeg'', ''.jfif-tbnl=image/jpeg'',
     ''.jpe=image/jpeg'', ''.jpeg=image/jpeg'', ''.jpg=image/jpeg'', ''.jps=image/x-jps'',
     ''.js=application/x-javascript'', ''.jut=image/jutvision'', ''.kar=music/x-karaoke'',
     ''.ksh=text/x-script.ksh'', ''.la=audio/x-nspaudio'', ''.lam=audio/x-liveaudio'',
     ''.latex=application/x-latex'', ''.lha=application/octet-stream'', ''.lhx=application/octet-stream'',
     ''.list=text/plain'', ''.lma=audio/x-nspaudio'', ''.log=text/plain'', ''.lsp=text/x-script.lisp'',
     ''.lst=text/plain'', ''.lsx=text/x-la-asf'', ''.ltx=application/x-latex'',
     ''.lzh=application/octet-stream'', ''.lzx=application/octet-stream'', ''.m=text/plain'',
     ''.m1v=video/mpeg'', ''.m2a=audio/mpeg'', ''.m2v=video/mpeg'', ''.m3u=audio/x-mpequrl'',
     ''.man=application/x-troff-man'', ''.map=application/x-navimap'', ''.mar=text/plain'',
     ''.mbd=application/mbedlet'', ''.mc$=application/x-magic-cap-package-1.0'',
     ''.mcd=application/x-mathcad'', ''.mcf=text/mcf'', ''.mcp=application/netmc'',
     ''.me=application/x-troff-me'', ''.mht=message/rfc822'', ''.mhtml=message/rfc822'',
     ''.mid=x-music/x-midi'', ''.midi=audio/x-midi'', ''.mif=application/x-mif'', ''.mime=www/mime'',
     ''.mjf=audio/x-vnd.AudioExplosion.MjuiceMediaFile'', ''.mjpg=video/x-motion-jpeg'',
     ''.mm=application/base64'', ''.mme=application/base64'', ''.mod=audio/x-mod'',
     ''.moov=video/quicktime'', ''.mov=video/quicktime'', ''.movie=video/x-sgi-movie'',
     ''.mp2=audio/x-mpeg'', ''.mp3=video/x-mpeg'', ''.mpa=audio/mpeg'', ''.mpc=application/x-project'',
     ''.mpe=video/mpeg'', ''.mpeg=video/mpeg'', ''.mpg=video/mpeg'', ''.mpga=audio/mpeg'',
     ''.mpp=application/vnd.ms-project'', ''.mpt=application/x-project'', ''.mpv=application/x-project'',
     ''.mpx=application/x-project'', ''.mrc=application/marc'', ''.ms=application/x-troff-ms'',
     ''.mv=video/x-sgi-movie'', ''.my=audio/make'', ''.mzz=application/x-vnd.AudioExplosion.mzz'',
     ''.nap=image/naplps'', ''.naplps=image/naplps'', ''.nc=application/x-netcdf'',
     ''.ncm=application/vnd.nokia.configuration-message'', ''.nif=image/x-niff'', ''.niff=image/x-niff'',
     ''.nix=application/x-mix-transfer'', ''.nsc=application/x-conference'',
     ''.nvd=application/x-navidoc'', ''.o=application/octet-stream'', ''.oda=application/oda'',
     ''.omc=application/x-omc'', ''.omcd=application/x-omcdatamaker'',
     ''.omcr=application/x-omcregerator'', ''.p=text/x-pascal'', ''.p10=application/x-pkcs10'',
     ''.p12=application/x-pkcs12'', ''.p7a=application/x-pkcs7-signature'',
     ''.p7c=application/x-pkcs7-mime'', ''.p7m=application/x-pkcs7-mime'',
     ''.p7r=application/x-pkcs7-certreqresp'', ''.p7s=application/pkcs7-signature'',
     ''.part=application/pro_eng'', ''.pas=text/pascal'', ''.pbm=image/x-portable-bitmap'',
     ''.pcl=application/x-pcl'', ''.pct=image/x-pict'', ''.pcx=image/x-pcx'', ''.pdb =chemical/x-pdb'',
     ''.pdf=application/pdf'', ''.pfunk=audio/make'', ''.pfunk=audio/make.my.funk'',
     ''.pgm=image/x-portable-graymap'', ''.pgm=image/x-portable-greymap'', ''.pic=image/pict'',
     ''.pict=image/pict'', ''.pkg=application/x-newton-compatible-pkg'',
     ''.pko=application/vnd.ms-pki.pko'', ''.pl=text/plain'', ''.plx=application/x-PiXCLscript'',
     ''.pm=image/x-xpixmap'', ''.pm4=application/x-pagemaker'', ''.pm5=application/x-pagemaker'',
     ''.png=image/png'', ''.pnm=application/x-portable-anymap'', ''.pot=application/vnd.ms-powerpoint'',
     ''.pov=model/x-pov'', ''.ppa=application/vnd.ms-powerpoint'', ''.ppm=image/x-portable-pixmap'',
     ''.pps=application/vnd.ms-powerpoint'', ''.ppt=application/vnd.ms-powerpoint'',
     ''.ppz=application/mspowerpoint'', ''.pre=application/x-freelance'', ''.prt=application/pro_eng'',
     ''.ps=application/postscript'', ''.psd=application/octet-stream'', ''.pvu=paleovu/x-pv'',
     ''.pwz=application/vnd.ms-powerpoint'', ''.py=text/x-script.phyton'',
     ''.pyc=applicaiton/x-bytecode.python'', ''.qcp=audio/vnd.qcelp'', ''.qd3=x-world/x-3dmf'',
     ''.qd3d=x-world/x-3dmf'', ''.qif=image/x-quicktime'', ''.qt=video/quicktime'', ''.qtc=video/x-qtc'',
     ''.qti=image/x-quicktime'', ''.qtif=image/x-quicktime'', ''.ra=audio/x-realaudio'',
     ''.ram=audio/x-pn-realaudio'', ''.ras=image/x-cmu-raster'', ''.rast=image/cmu-raster'',
     ''.rexx=text/x-script.rexx'', ''.rf=image/vnd.rn-realflash'', ''.rgb=image/x-rgb'',
     ''.rm=application/vnd.rn-realmedia'', ''.rmi=audio/mid'', ''.rmm=audio/x-pn-realaudio'',
     ''.rmp=audio/x-pn-realaudio'', ''.rng=application/ringing-tones'',
     ''.rnx=application/vnd.rn-realplayer'', ''.roff=application/x-troff'', ''.rp=image/vnd.rn-realpix'',
     ''.rpm=audio/x-pn-realaudio-plugin'', ''.rt=text/vnd.rn-realtext'', ''.rtf=text/richtext'',
     ''.rtx=text/richtext'', ''.rv=video/vnd.rn-realvideo'', ''.s=text/x-asm'', ''.s3m=audio/s3m'',
     ''.saveme=application/octet-stream'', ''.sbk=application/x-tbook'', ''.scm=text/x-script.scheme'',
     ''.sdml=text/plain'', ''.sdp=application/sdp'', ''.sdp=application/x-sdp'',
     ''.sdr=application/sounder'', ''.sea=application/sea'', ''.sea=application/x-sea'',
     ''.sexpr=text/s-expression'', ''.set=application/set'', ''.sgm=text/x-sgml'', ''.sgml=text/x-sgml'',
     ''.sh=text/x-script.sh'', ''.shar=application/x-bsh'', ''.shtml=text/x-server-parsed-html'',
     ''.sid=audio/x-psid'', ''.sit=application/x-sit'', ''.skd=application/x-koan'',
     ''.skm=application/x-koan'', ''.skp=application/x-koan'', ''.skt=application/x-koan'',
     ''.sl=application/x-seelogo'', ''.smi=application/smil'', ''.smil=application/smil'',
     ''.snd=audio/x-adpcm'', ''.sol=application/solids'', ''.spc=text/x-speech'',
     ''.spl=application/futuresplash'', ''.spr=application/x-sprite'', ''.sprite=application/x-sprite'',
     ''.src=application/x-wais-source'', ''.ssi=text/x-server-parsed-html'',
     ''.ssm=application/streamingmedia'', ''.sst=application/vnd.ms-pki.certstore'',
     ''.step=application/step'', ''.stl=application/x-navistyle'', ''.stp=application/step'',
     ''.sv4cpio=application/x-sv4cpio'', ''.sv4crc=application/x-sv4crc'', ''.svf=image/x-dwg'',
     ''.svr=x-world/x-svr'', ''.swf=application/x-shockwave-flash'', ''.t=application/x-troff'',
     ''.talk=text/x-speech'', ''.tar=application/x-tar'', ''.tbk=application/x-tbook'',
     ''.tcl=text/x-script.tcl'', ''.tcsh=text/x-script.tcsh'', ''.tex=application/x-tex'',
     ''.texi=application/x-texinfo'', ''.texinfo=application/x-texinfo'', ''.text=text/plain'',
     ''.tgz=application/x-compressed'', ''.tif=image/x-tiff'', ''.tiff=image/x-tiff'',
     ''.tr=application/x-troff'', ''.tsi=audio/tsp-audio'', ''.tsp=audio/tsplayer'',
     ''.tsv=text/tab-separated-values'', ''.turbot=image/florian'', ''.txt=text/plain'',
     ''.uil=text/x-uil'', ''.uni=text/uri-list'', ''.unis=text/uri-list'', ''.unv=application/i-deas'',
     ''.uri=text/uri-list'', ''.uris=text/uri-list'', ''.ustar=application/x-ustar'',
     ''.uu=text/x-uuencode'', ''.uue=text/x-uuencode'', ''.vcd=application/x-cdlink'',
     ''.vcs=text/x-vCalendar'', ''.vda=application/vda'', ''.vdo=video/vdo'',
     ''.vew=application/groupwise'', ''.viv=video/vnd.vivo'', ''.vivo=video/vnd.vivo'',
     ''.vmd=application/vocaltec-media-desc'', ''.vmf=application/vocaltec-media-file'',
     ''.voc=audio/voc'', ''.voc=audio/x-voc'', ''.vos=video/vosaic'', ''.vox=audio/voxware'',
     ''.vqe=audio/x-twinvq-plugin'', ''.vqf=audio/x-twinvq'', ''.vql=audio/x-twinvq-plugin'',
     ''.vrml=application/x-vrml'', ''.vrt=x-world/x-vrt'', ''.vsd=application/x-visio'',
     ''.vst=application/x-visio'', ''.vsw=application/x-visio'', ''.w60=application/wordperfect6.0'',
     ''.w61=application/wordperfect6.1'', ''.w6w=application/msword'', ''.wav=audio/x-wav'',
     ''.wb1=application/x-qpro'', ''.wbmp=image/vnd.wap.wbmp'', ''.web=application/vnd.xara'',
     ''.wiz=application/msword'', ''.wk1=application/x-123'', ''.wmf=windows/metafile'',
     ''.wml=text/vnd.wap.wml'', ''.wmlc=application/vnd.wap.wmlc'', ''.wmls=text/vnd.wap.wmlscript'',
     ''.wmlsc=application/vnd.wap.wmlscriptc'', ''.word=application/msword'',
     ''.wp=application/wordperfect'', ''.wp5=application/wordperfect'', ''.wp6=application/wordperfect'',
     ''.wpd=application/wordperfect'', ''.wq1=application/x-lotus'', ''.wri=application/mswrite'',
     ''.wrl=x-world/x-vrml'', ''.wrz=x-world/x-vrml'', ''.wsc=text/scriplet'',
     ''.wsrc=application/x-wais-source'', ''.wtk=application/x-wintalk'', ''.x-png=image/png'',
     ''.xbm=image/x-xbitmap'', ''.xdr=video/x-amt-demorun'', ''.xgz=xgl/drawing'', ''.xif=image/vnd.xiff'',
     ''.xl=application/excel'', ''.xla=application/x-msexcel'', ''.xlb=application/vnd.ms-excel'',
     ''.xlc=application/vnd.ms-excel'', ''.xld=application/x-excel'', ''.xlk=application/x-excel'',
     ''.xll=application/vnd.ms-excel'', ''.xlm=application/x-excel'', ''.xls=application/vnd.ms-excel'',
     ''.xls=application/x-msexcel'', ''.xlt=application/x-excel'', ''.xlv=application/x-excel'',
     ''.xlw=application/vnd.ms-excel'', ''.xm=audio/xm'', ''.xml=text/xml'', ''.xmz=xgl/movie'',
     ''.xpix=application/x-vnd.ls-xpix'', ''.xpm=image/x-xpixmap'', ''.xsr=video/x-amt-showrun'',
     ''.xwd=image/x-xwd'', ''.xyz=chemical/x-pdb'', ''.z=application/x-compress'',
     ''.zip=application/x-zip-compressed'', ''.zoo=application/octet-stream'', ''.zsh=text/x-script.zsh'']"

definition pMIMETypes :: "string list" where
  "pMIMETypes = mime_lines @ [[]]"

text \<open>
  The constructor reads the table up to the first entry that does not start with a dot. An entry
  without \<open>=\<close> would subtract from a null pointer.
\<close>

fun mime_loop :: "string list \<Rightarrow> string omap \<Rightarrow> string omap res" where
  "mime_loop [] m = Inl MemFault"
| "mime_loop (s # ss) m =
     (if cstr s ! 0 = CHR ''.'' then
        (case char_find s (CHR ''='') of
           None \<Rightarrow> Inl MemFault
         | Some imark \<Rightarrow> mime_loop ss (om_insert (take imark s) (drop (imark + 1) s) m))
      else Inr m)"

definition cMIMEMap_new :: "string omap res" where
  "cMIMEMap_new = mime_loop pMIMETypes []"

definition cMIMEMap_GetContentType :: "string \<Rightarrow> string omap \<Rightarrow> string" where
  "cMIMEMap_GetContentType fileExtention m =
     (case om_find fileExtention m of None \<Rightarrow> [] | Some t \<Rightarrow> t)"

text \<open>The overload on pointers returns null for an unknown extension.\<close>

definition cMIMEMap_GetContentTypePtr :: "block \<Rightarrow> string omap \<Rightarrow> string option res" where
  "cMIMEMap_GetContentTypePtr pFileExtention m =
     bindE (cstr_at pFileExtention 0) (\<lambda>sFileExtention.
     Inr (map_option c_prefix (om_find sFileExtention m)))"

section \<open>Virtual directories\<close>

type_synonym cVirtualDirectoryMap = "string omap"

definition cVirtualDirectoryMap_GetVirtualDirectory :: "string \<Rightarrow> cVirtualDirectoryMap \<Rightarrow> string" where
  "cVirtualDirectoryMap_GetVirtualDirectory portName m =
     (case om_find portName m of None \<Rightarrow> [] | Some d \<Rightarrow> d)"

definition cVirtualDirectoryMap_MapVirtualDirectory ::
    "string \<Rightarrow> string \<Rightarrow> cVirtualDirectoryMap \<Rightarrow> cVirtualDirectoryMap" where
  "cVirtualDirectoryMap_MapVirtualDirectory portName virtualDirectory m = om_insert portName virtualDirectory m"

definition cVirtualDirectoryMap_HasVirtualDirectory :: "string \<Rightarrow> cVirtualDirectoryMap \<Rightarrow> bool" where
  "cVirtualDirectoryMap_HasVirtualDirectory portName m = (om_find portName m \<noteq> None)"

section \<open>The file cache\<close>

record cFileCacheEntry =
  fileName :: string
  fileData :: cBuffer
  fileTimeStamp :: int
  fileLastAccessedTimeStamp :: int
  accessCount :: int
  entityTag :: string

record cFileCache =
  fc_map :: "cFileCacheEntry omap"
  m_CacheSize :: int
  m_CurrentCacheInUse :: int

definition cFileCache_new :: cFileCache where
  "cFileCache_new = \<lparr>fc_map = [], m_CacheSize = 4096000, m_CurrentCacheInUse = 0\<rparr>"

definition fc_update :: "string \<Rightarrow> (cFileCacheEntry \<Rightarrow> cFileCacheEntry) \<Rightarrow> cFileCache \<Rightarrow> cFileCache" where
  "fc_update name f c =
     (case om_find name (fc_map c) of
        None \<Rightarrow> c
      | Some e \<Rightarrow> c\<lparr>fc_map := om_assign name (f e) (fc_map c)\<rparr>)"

definition cFileCache_GetFileEntry :: "string \<Rightarrow> cFileCache \<Rightarrow> cFileCacheEntry option \<times> cFileCache" where
  "cFileCache_GetFileEntry name c =
     (let c = fc_update name (\<lambda>e. e\<lparr>accessCount := accessCount e + 1\<rparr>) c
      in (om_find name (fc_map c), c))"

definition cFileCache_UpdateFileAccessTime :: "int \<Rightarrow> string \<Rightarrow> cFileCache \<Rightarrow> cFileCache" where
  "cFileCache_UpdateFileAccessTime now name c =
     fc_update name (\<lambda>e. e\<lparr>fileLastAccessedTimeStamp := now\<rparr>) c"

definition cFileCache_HasEntry :: "string \<Rightarrow> cFileCache \<Rightarrow> bool" where
  "cFileCache_HasEntry name c = (om_find name (fc_map c) \<noteq> None)"

definition cFileCache_GetEntityTag :: "string \<Rightarrow> cFileCache \<Rightarrow> string option" where
  "cFileCache_GetEntityTag name c = map_option (\<lambda>e. c_prefix (entityTag e)) (om_find name (fc_map c))"

definition cFileCache_SetCacheMaxSize :: "int \<Rightarrow> cFileCache \<Rightarrow> cFileCache" where
  "cFileCache_SetCacheMaxSize cacheSize c = c\<lparr>m_CacheSize := cacheSize\<rparr>"

text \<open>
  \<open>Store\<close> refuses a file larger than the whole cache, and makes no room for any other: nothing
  ever adds to \<open>m_CurrentCacheInUse\<close>. The entity tag is the MD5 of the name and the time stamp,
  formatted in a buffer of 1024 bytes.
\<close>

definition cFileCache_Store ::
    "malloc \<Rightarrow> (string \<Rightarrow> string) \<Rightarrow> int \<Rightarrow> string \<Rightarrow> cBuffer \<Rightarrow> int \<Rightarrow> cFileCache \<Rightarrow> (bool \<times> cBuffer \<times> cFileCache) res"
where
  "cFileCache_Store ml md5 now name d stamp c =
     (if cBuffer_GetBufferCount d > m_CacheSize c then Inr (False, d, c)
      else
        (let mp = om_erase name (fc_map c) in
         bindE (cBuffer_cstr d) (\<lambda>(p, d).
         bindE (cBuffer_ReplaceWith ml p (cBuffer_GetBufferCount d) cBuffer_new) (\<lambda>(_, data).
         bindE (cBuffer_Sprintf ml 1024 (c_prefix name @ show_int stamp) cBuffer_new) (\<lambda>(_, ent).
         bindE (cBuffer_MakeString ent) (\<lambda>ent.
         bindE (cBuffer_cstr ent) (\<lambda>(q, ent).
         bindE (cstr_at (deref q) 0) (\<lambda>s.
         Inr (True, d, c\<lparr>fc_map := om_insert name
           \<lparr>fileName = name, fileData = data, fileTimeStamp = stamp, fileLastAccessedTimeStamp = now,
            accessCount = 0, entityTag = md5 s\<rparr> mp\<rparr>)))))))))"

section \<open>The content types of the table\<close>

definition mime_line :: "string \<Rightarrow> string \<times> string" where
  "mime_line s = (let i = the (char_find s (CHR ''='')) in (take i s, drop (i + 1) s))"

definition mime_ok :: "string \<Rightarrow> bool" where
  "mime_ok s \<longleftrightarrow> cstr s ! 0 = CHR ''.'' \<and> char_find s (CHR ''='') \<noteq> None"

lemma mime_loop_ok:
  assumes "om_inv m" and "\<forall>s \<in> set ss. mime_ok s"
  shows "\<exists>m'. mime_loop (ss @ [[]]) m = Inr m' \<and> om_inv m' \<and>
    (\<forall>k. om_find k m' = (case om_find k m of Some t \<Rightarrow> Some t | None \<Rightarrow> map_of (map mime_line ss) k))"
  using assms
proof (induction ss arbitrary: m)
  case Nil
  then show ?case by (auto simp: cstr_def split: option.split)
next
  case (Cons s ss)
  obtain i where i: "cstr s ! 0 = CHR ''.''" "char_find s (CHR ''='') = Some i"
    using Cons.prems(2) by (auto simp: mime_ok_def)
  let ?m = "om_insert (take i s) (drop (i + 1) s) m"
  have "om_inv ?m" using Cons.prems(1) by (rule om.inv_insert)
  from Cons.IH[OF this] Cons.prems(2) obtain m' where m': "mime_loop (ss @ [[]]) ?m = Inr m'" "om_inv m'"
    "\<forall>k. om_find k m' = (case om_find k ?m of Some t \<Rightarrow> Some t | None \<Rightarrow> map_of (map mime_line ss) k)" by auto
  have "om_find k m' = (case om_find k m of Some t \<Rightarrow> Some t | None \<Rightarrow> map_of (map mime_line (s # ss)) k)" for k
    using m'(3) i(2) om.find_insert[OF Cons.prems(1), of k "take i s" "drop (i + 1) s"]
    by (auto simp: mime_line_def split: option.split)
  with m' i show ?case by simp
qed

lemma mime_table_ok: "list_all mime_ok mime_lines"
  by (simp add: mime_lines_def mime_ok_def cstr_def)

text \<open>The content type of an extension is the one of the first line of the table that names it,
later lines for the same extension having no effect, and the empty string for an extension the
table does not name; the pointer overload tells an unknown extension by a null pointer.\<close>

theorem content_type_first_line:
  "\<exists>m. cMIMEMap_new = Inr m \<and>
     (\<forall>ext. cMIMEMap_GetContentType ext m =
       (case map_of (map mime_line mime_lines) ext of None \<Rightarrow> [] | Some t \<Rightarrow> t))"
proof -
  obtain m where "mime_loop pMIMETypes [] = Inr m"
    "\<forall>k. om_find k m = (case om_find k [] of Some t \<Rightarrow> Some t | None \<Rightarrow> map_of (map mime_line mime_lines) k)"
    using mime_loop_ok[of "[]" mime_lines] mime_table_ok om.inv_empty
    by (auto simp: list_all_iff pMIMETypes_def)
  then show ?thesis by (auto simp: cMIMEMap_new_def cMIMEMap_GetContentType_def om_find_def)
qed

end
