(* ===== verification/WebRequest.thy ===== *)
theory WebRequest
  imports WebFiles MsgQueue
begin

text \<open>
  The web server's request handler (\<open>webrequesthandler.cpp\<close>): from the raw text of a request to
  the reply message. Parameters are what the code calls outside the repository: the file system
  (a path to the time stamp and the contents of the file, if it can be opened), the Tcl
  interpreter, MD5, the clock and the strings of the core object. The code is the one compiled on
  Linux, with \<open>/\<close> between path elements.

  An exception ends the execution here as everywhere: on Linux \<open>LOGALL\<close>, which every handler of
  an exception calls, throws the text of the exception again.
\<close>

section \<open>The script engine\<close>

text \<open>
  The interpreter evaluates a script in its state. It returns the text the script wrote with the
  \<open>write\<close> command and either the result or the text of the exception, which \<open>Execute\<close> passes on.
\<close>

type_synonym 'i tcl = "string \<Rightarrow> 'i \<Rightarrow> (string \<times> (string + string)) \<times> 'i"

definition namespace_script :: "string \<Rightarrow> string \<Rightarrow> string" where
  "namespace_script ns input = ''namespace eval '' @ ns @ '' {'' @ [LF] @ input @ [LF] @ ''}''"

definition cScriptEngine_Execute ::
    "'i tcl \<Rightarrow> string \<Rightarrow> string \<Rightarrow> bool \<Rightarrow> 'i \<Rightarrow> (bool \<times> string \<times> 'i) res" where
  "cScriptEngine_Execute ev ns input silent i =
     (case ev (namespace_script ns input) i of
        ((w, Inl e), i) \<Rightarrow> Inl StdException
      | ((w, Inr r), i) \<Rightarrow> Inr (True, if silent then w else w @ r, i))"

definition cScriptEngine_DeleteNamespace :: "'i tcl \<Rightarrow> string \<Rightarrow> 'i \<Rightarrow> (string \<times> 'i) res" where
  "cScriptEngine_DeleteNamespace ev ns i =
     (case ev (''namespace delete '' @ c_prefix ns) i of
        ((w, Inl e), i) \<Rightarrow> Inl StdException
      | ((w, Inr r), i) \<Rightarrow> Inr (w, i))"

section \<open>The handler\<close>

record cWebRequestHandler =
  m_bConnected :: bool
  m_URI :: "string list"
  m_CGI :: "string list"
  m_CGIParams :: string
  m_CGIScript :: string
  m_bMessageTypeGet :: bool
  m_bCachedNotModified :: bool
  m_Response :: cBuffer
  m_sPath :: string
  m_sContentType :: string
  m_sEntityTag :: string
  m_sMessageETag :: string
  m_sServerLabel :: string
  m_sInterpreterNamespace :: string
  m_MIMEMap :: "string omap"
  m_bWebPage :: bool

definition APP_VERSION :: string where "APP_VERSION = ''v0.3.0207''"

definition server_label :: string where "server_label = ''Server: msgCourier/'' @ APP_VERSION"

text \<open>A new handler, with the label that its thread sets before its loop.\<close>

definition cWebRequestHandler_new :: "string omap \<Rightarrow> cWebRequestHandler" where
  "cWebRequestHandler_new mm =
     \<lparr>m_bConnected = False, m_URI = [], m_CGI = [], m_CGIParams = [], m_CGIScript = [],
      m_bMessageTypeGet = False, m_bCachedNotModified = False, m_Response = cBuffer_new, m_sPath = [],
      m_sContentType = [], m_sEntityTag = [], m_sMessageETag = [], m_sServerLabel = server_label,
      m_sInterpreterNamespace = [], m_MIMEMap = mm, m_bWebPage = False\<rparr>"

text \<open>\<open>Setup\<close> takes a fresh identifier for the name space of the interpreter.\<close>

definition cWebRequestHandler_Setup ::
    "uuid_gen \<Rightarrow> cUniqueIDProvider \<Rightarrow> cWebRequestHandler \<Rightarrow> (cWebRequestHandler \<times> cUniqueIDProvider) res" where
  "cWebRequestHandler_Setup gen p h =
     bindE (cUniqueIDProvider_GetID gen p) (\<lambda>(s, p).
     Inr (h\<lparr>m_bConnected := True, m_sInterpreterNamespace := s\<rparr>, p))"

section \<open>The request\<close>

text \<open>\<open>boost::tokenizer\<close> with a \<open>char_separator\<close>: empty tokens are dropped.\<close>

fun char_tokens :: "string \<Rightarrow> string \<Rightarrow> string \<Rightarrow> string list" where
  "char_tokens seps acc [] = (if acc = [] then [] else [rev acc])"
| "char_tokens seps acc (c # cs) =
     (if c \<in> set seps then (if acc = [] then [] else [rev acc]) @ char_tokens seps [] cs
      else char_tokens seps (c # acc) cs)"

text \<open>A token with an equals sign is the parameter string, the others are path elements.\<close>

fun sort_tokens :: "string list \<Rightarrow> string list \<times> string \<Rightarrow> string list \<times> string" where
  "sort_tokens [] up = up"
| "sort_tokens (t # ts) (u, p) =
     (if char_find t (CHR ''='') \<noteq> None then sort_tokens ts (u, t) else sort_tokens ts (u @ [t], p))"

definition uri_seps :: string where "uri_seps = [CHR 0x5C, CHR ''/'', CHR ''?'']"

text \<open>
  The text of the URI between the method and \<open>" HTTP/"\<close>. Without \<open>" HTTP/"\<close> the code subtracts from
  a null pointer; a negative length is a huge one. The start, 4 or 5, is never past the end.
\<close>

definition request_uri :: "bool \<Rightarrow> string \<Rightarrow> string res" where
  "request_uri is_get msg =
     (let off = (if is_get then 3 else 4) + 1 in
      case str_find msg '' HTTP/'' of
        None \<Rightarrow> Inl MemFault
      | Some iHeaderEnd \<Rightarrow>
          Inr (if iHeaderEnd < off then drop off msg else take (iHeaderEnd - off) (drop off msg)))"

definition uri_part :: "malloc \<Rightarrow> string \<Rightarrow> cWebRequestHandler \<Rightarrow> cWebRequestHandler res" where
  "uri_part ml msg h =
     (let is_get = starts_with ''GET'' msg in
      bindE (request_uri is_get msg) (\<lambda>srcURI.
      bindE (cURL_Decode ml srcURI) (\<lambda>decURI.
      case sort_tokens (char_tokens uri_seps [] decURI) ([], []) of (u, p) \<Rightarrow>
        Inr (h\<lparr>m_bMessageTypeGet := is_get, m_CGIScript := [], m_CGIParams := p,
               m_URI := (if u = [] then [''index.html''] else u)\<rparr>))))"

definition script_tags :: "(string \<times> string) list" where
  "script_tags =
     [(''<PRE>'', [LF]), (''<pre>'', [LF]), (''</PRE>'', [LF]), (''</pre>'', [LF]), (''<BR>'', [LF]),
      (''<br>'', [LF]), (''<P>'', []), (''<p>'', []), (''</P>'', [LF]), (''</p>'', [LF]), (''&nbsp;'', '' ''),
      (''&lt;'', ''<''), (''&gt;'', ''>'')]"

fun replace_tags :: "malloc \<Rightarrow> (string \<times> string) list \<Rightarrow> cBuffer \<Rightarrow> cBuffer res" where
  "replace_tags ml [] b = Inr b"
| "replace_tags ml ((t, r) # ts) b = bindE (cBuffer_ReplaceAll ml t r b) (replace_tags ml ts)"

definition script_text :: "malloc \<Rightarrow> string \<Rightarrow> string res" where
  "script_text ml s =
     bindE (cBuffer_ReplaceWith ml (Some (cstr s)) (-1) cBuffer_new) (\<lambda>(_, buf).
     bindE (replace_tags ml script_tags buf) (\<lambda>buf.
     bindE (cBuffer_cstr buf) (\<lambda>(p, _).
     case p of None \<Rightarrow> Inr [] | Some q \<Rightarrow> cstr_at q 0)))"

definition post_params :: "malloc \<Rightarrow> string \<Rightarrow> string \<Rightarrow> cWebRequestHandler \<Rightarrow> cWebRequestHandler res" where
  "post_params ml sContentType decURI h =
     (if sContentType = ''application/x-www-form-urlencoded'' then
        (case str_find decURI ''tclscript='' of
           Some pos \<Rightarrow>
             bindE (script_text ml (drop (pos + length ''tclscript='') decURI)) (\<lambda>s.
             Inr (h\<lparr>m_CGIScript := s\<rparr>))
         | None \<Rightarrow> Inr (h\<lparr>m_CGIParams := m_CGIParams h @ decURI\<rparr>))
      else Inr h)"

definition etag_part :: "cHeaderExtract \<Rightarrow> cWebRequestHandler \<Rightarrow> cWebRequestHandler" where
  "etag_part he h =
     (let sETag = cHeaderExtract_GetValue ''If-None-Match'' he in
      if length sETag \<noteq> 0 then h\<lparr>m_sMessageETag := take (length sETag - 2) (drop 1 sETag)\<rparr> else h)"

text \<open>The body of a POST is taken from the end of the message, at the length the header gives.\<close>

definition post_part ::
    "malloc \<Rightarrow> int \<Rightarrow> cBuffer \<Rightarrow> cHeaderExtract \<Rightarrow> cWebRequestHandler \<Rightarrow> cWebRequestHandler res" where
  "post_part ml iSize buf he h =
     (let sContentType = cHeaderExtract_GetValue ''Content-Type'' he;
          len = atoi (c_prefix (cHeaderExtract_GetValue ''Content-Length'' he))
      in if len > 0 then
           bindE (mem_get (deref (m_pBuffer buf)) (iSize - len) len) (\<lambda>srcURI.
           bindE (cURL_Decode ml srcURI) (\<lambda>decURI.
           post_params ml sContentType decURI h))
         else Inr h)"

definition header_part ::
    "malloc \<Rightarrow> block option \<Rightarrow> int \<Rightarrow> cWebRequestHandler \<Rightarrow> (cHeaderExtract \<times> cWebRequestHandler) res" where
  "header_part ml pHTTPMessage iSize h =
     bindE (cBuffer_ReplaceWith ml pHTTPMessage iSize cBuffer_new) (\<lambda>(_, buf).
     bindE (cHeaderExtract_Parse buf cHeaderExtract_new) (\<lambda>(buf, he).
     let h = etag_part he h in
     if m_bMessageTypeGet h then Inr (he, h)
     else bindE (post_part ml iSize buf he h) (\<lambda>h. Inr (he, h))))"

definition host_path :: "cVirtualDirectoryMap \<Rightarrow> int \<Rightarrow> cHeaderExtract \<Rightarrow> string" where
  "host_path vd iPort he =
     (let sHost = cHeaderExtract_GetValue ''Host'' he;
          path = (if length sHost > 0
                  then cVirtualDirectoryMap_GetVirtualDirectory (''host_'' @ sHost) vd else [])
      in if length path < 1
         then cVirtualDirectoryMap_GetVirtualDirectory (''port_'' @ show_int iPort) vd else path)"

text \<open>The path elements are appended as they are.\<close>

definition path_part :: "string list \<Rightarrow> string" where
  "path_part us = concat (map (\<lambda>u. ''/'' @ u) us)"

definition cWebRequestHandler_ProcessHTTPHeader ::
    "malloc \<Rightarrow> cVirtualDirectoryMap \<Rightarrow> cMsg \<Rightarrow> cWebRequestHandler \<Rightarrow> (bool \<times> cWebRequestHandler) res" where
  "cWebRequestHandler_ProcessHTTPHeader ml vd msg h =
     bindE (cstr_at (deref (cMsg_GetRawBuffer msg)) 0) (\<lambda>text.
     bindE (uri_part ml text h) (\<lambda>h.
     bindE (header_part ml (cMsg_GetRawBuffer msg) (cMsg_GetRawBufferSize msg) h) (\<lambda>(he, h).
     let path = host_path vd (cMsg_GetArrivalPort msg) he in
     if path = [] then Inr (False, h\<lparr>m_sPath := []\<rparr>)
     else Inr (True, h\<lparr>m_sPath := path @ path_part (m_URI h)\<rparr>))))"

section \<open>The resource\<close>

type_synonym file_system = "string \<Rightarrow> (int \<times> block) option"

definition str_rfind :: "string \<Rightarrow> char \<Rightarrow> nat option" where
  "str_rfind s c = map_option (\<lambda>i. length s - 1 - i) (char_find (rev s) c)"

definition cWebRequestHandler_GetResourceContentType :: "cWebRequestHandler \<Rightarrow> cWebRequestHandler" where
  "cWebRequestHandler_GetResourceContentType h =
     (case str_rfind (m_sPath h) (CHR ''.'') of
        Some k \<Rightarrow> h\<lparr>m_sContentType := cMIMEMap_GetContentType (drop k (m_sPath h)) (m_MIMEMap h)\<rparr>
      | None \<Rightarrow> h\<lparr>m_sContentType := ''application/octet-stream''\<rparr>)"

definition READ_SIZE :: nat where "READ_SIZE = 16384"

text \<open>The file is read in pieces of at most 16384 bytes.\<close>

function read_loop :: "malloc \<Rightarrow> block \<Rightarrow> cBuffer \<Rightarrow> cBuffer res" where
  "read_loop ml d b =
     (if d = [] then Inr b
      else bindE (cBuffer_Append ml (Some (take READ_SIZE d)) (int (length (take READ_SIZE d))) b) (\<lambda>(_, b).
           read_loop ml (drop READ_SIZE d) b))"
  by pat_completeness auto
termination
  by (relation "measure (\<lambda>(ml, d, b). length d)") (auto simp: READ_SIZE_def)

declare read_loop.simps [simp del]

text \<open>
  The time stamp used for the cached copy: the one of the file, when the entry was last used in an
  earlier second and the file can be opened, and the one of the entry otherwise.
\<close>

definition resource_stamp :: "file_system \<Rightarrow> int \<Rightarrow> string \<Rightarrow> cFileCacheEntry option \<Rightarrow> int" where
  "resource_stamp fs now path e =
     (let old = (case e of None \<Rightarrow> 0 | Some x \<Rightarrow> fileTimeStamp x);
          look = (case e of None \<Rightarrow> True | Some x \<Rightarrow> fileLastAccessedTimeStamp x < now)
      in if look then (case fs (c_prefix path) of Some (t, _) \<Rightarrow> t | None \<Rightarrow> old) else old)"

definition serve_cached ::
    "malloc \<Rightarrow> cFileCacheEntry \<Rightarrow> cWebRequestHandler \<Rightarrow> cFileCache \<Rightarrow> (cWebRequestHandler \<times> cFileCache) res" where
  "serve_cached ml e h c =
     (let h = h\<lparr>m_sEntityTag := entityTag e\<rparr> in
      bindE
        (if m_sMessageETag h = m_sEntityTag h then
           (if m_bWebPage h then
              bindE (cBuffer_Find ''<?mc'' 0 (fileData e)) (\<lambda>(r, b).
              let c = fc_update (m_sPath h) (\<lambda>x. x\<lparr>fileData := b\<rparr>) c in
              Inr (r = -1, e\<lparr>fileData := b\<rparr>, c))
            else Inr (True, e, c))
         else Inr (False, e, c)) (\<lambda>(not_modified, e, c).
      if not_modified then Inr (h\<lparr>m_bCachedNotModified := True\<rparr>, c)
      else
        (let h = (if m_sMessageETag h = m_sEntityTag h then h\<lparr>m_bCachedNotModified := False\<rparr> else h) in
         bindE (cBuffer_ReplaceWith ml (cBuffer_GetRawBuffer (fileData e))
                  (cBuffer_GetBufferCount (fileData e)) (m_Response h)) (\<lambda>(_, b).
         Inr (cWebRequestHandler_GetResourceContentType (h\<lparr>m_Response := b\<rparr>), c)))))"

definition serve_file ::
    "malloc \<Rightarrow> (string \<Rightarrow> string) \<Rightarrow> file_system \<Rightarrow> int \<Rightarrow> int \<Rightarrow> cWebRequestHandler \<Rightarrow> cFileCache \<Rightarrow>
     (cWebRequestHandler \<times> cFileCache) res" where
  "serve_file ml md5 fs now stamp h c =
     (let h = h\<lparr>m_Response := cBuffer_Reset (m_Response h)\<rparr> in
      if m_sPath h = [] then Inr (h, c)
      else case fs (c_prefix (m_sPath h)) of
        None \<Rightarrow> Inr (h, c)
      | Some (_, d) \<Rightarrow>
          bindE (read_loop ml d (m_Response h)) (\<lambda>b.
          bindE (cFileCache_Store ml md5 now (m_sPath h) b stamp c) (\<lambda>(bStored, b, c).
          let h = h\<lparr>m_Response := b\<rparr> in
          bindE (if bStored
                 then (case cFileCache_GetEntityTag (m_sPath h) c of
                         None \<Rightarrow> Inl MemFault | Some t \<Rightarrow> Inr (h\<lparr>m_sEntityTag := t\<rparr>))
                 else Inr h) (\<lambda>h.
          Inr (cWebRequestHandler_GetResourceContentType h, c)))))"

definition cWebRequestHandler_GetResource ::
    "malloc \<Rightarrow> (string \<Rightarrow> string) \<Rightarrow> file_system \<Rightarrow> int \<Rightarrow> cWebRequestHandler \<Rightarrow> cFileCache \<Rightarrow>
     (cWebRequestHandler \<times> cFileCache) res" where
  "cWebRequestHandler_GetResource ml md5 fs now h c =
     (let h = h\<lparr>m_Response := cBuffer_Reset (m_Response h),
                m_bWebPage := (m_bWebPage h \<or> str_find (m_sPath h) ''.htm'' \<noteq> None)\<rparr>;
          (pFileEntry, c) = (if cFileCache_HasEntry (m_sPath h) c then cFileCache_GetFileEntry (m_sPath h) c
                             else (None, c));
          stamp = resource_stamp fs now (m_sPath h) pFileEntry;
          c = cFileCache_UpdateFileAccessTime now (m_sPath h) c
      in case pFileEntry of
           Some e \<Rightarrow> if fileTimeStamp e = stamp then serve_cached ml e h c
                     else serve_file ml md5 fs now stamp h c
         | None \<Rightarrow> serve_file ml md5 fs now stamp h c)"

end
