(* ===== verification/WebReply.thy ===== *)
theory WebReply
  imports WebRequest
begin

text \<open>
  The rest of the request handler: scripts embedded in a page and in a POST, the special tags, the
  reply message, and the server's choice of a handler (\<open>webserver.cpp\<close>).

  The two loops over a page take fuel: whether they end depends on what the interpreter writes
  and on the tags of the page.
\<close>

section \<open>Server-side scripts\<close>

fun cgi_loop :: "'i tcl \<Rightarrow> string \<Rightarrow> string list \<Rightarrow> string list \<Rightarrow> 'i \<Rightarrow> (string list \<times> 'i) res" where
  "cgi_loop ev ns [] cgi i = Inr (cgi, i)"
| "cgi_loop ev ns (t # ts) cgi i =
     (case char_find t (CHR ''='') of
        None \<Rightarrow> cgi_loop ev ns ts cgi i
      | Some k \<Rightarrow>
          (let sVar = take k t; sVal = drop (k + 1) t in
           bindE (cScriptEngine_Execute ev ns (''set '' @ sVar @ '' {'' @ sVal @ ''}'') False i) (\<lambda>(_, _, i).
           cgi_loop ev ns ts (cgi @ [sVar]) i)))"

text \<open>The directive on the first line of a script is removed.\<close>

definition silent_directive :: string where "silent_directive = '' -silent''"

definition script_directive :: "string \<Rightarrow> string \<times> bool" where
  "script_directive s =
     (case char_find s LF of
        None \<Rightarrow> (s, False)
      | Some e \<Rightarrow>
          (case str_find (take e s) silent_directive of
             None \<Rightarrow> (s, False)
           | Some _ \<Rightarrow>
               (case str_find s silent_directive of
                  None \<Rightarrow> (s, True)
                | Some k \<Rightarrow> (take k s @ drop (k + length silent_directive) s, True))))"

fun script_loop :: "nat \<Rightarrow> malloc \<Rightarrow> 'i tcl \<Rightarrow> string \<Rightarrow> cBuffer \<Rightarrow> 'i \<Rightarrow> (cBuffer \<times> 'i) res" where
  "script_loop 0 ml ev ns b i = Inl Diverge"
| "script_loop (Suc n) ml ev ns b i =
     bindE (cBuffer_Find ''<?mc'' 0 b) (\<lambda>(index, b).
     if index = -1 then Inr (b, i)
     else
       bindE (cBuffer_Find ''?>'' index b) (\<lambda>(scriptend, b).
       if scriptend = -1 then Inr (b, i)
       else
         bindE (cBuffer_cstr b) (\<lambda>(p, b).
         bindE (mem_get (deref p) (index + 4) (scriptend - index - 4)) (\<lambda>script.
         case script_directive script of (script, bSilent) \<Rightarrow>
         bindE (cScriptEngine_Execute ev ns script bSilent i) (\<lambda>(_, output, i).
         bindE (cBuffer_Remove index ((scriptend + 2) - index) b) (\<lambda>(_, b).
         bindE (if output \<noteq> [] then cBuffer_Insert ml index (cstr output) (int (length output)) b
                else Inr b) (\<lambda>b.
         script_loop n ml ev ns b i)))))))"

section \<open>Special tags\<close>

text \<open>
  The tag at \<open>index\<close> is taken for the first tag that occurs anywhere from there on, and the search
  goes on behind the length of the tag. A page with an unknown tag moves \<open>offset\<close> by \<open>index\<close>.
\<close>

definition put_tag :: "malloc \<Rightarrow> int \<Rightarrow> string \<Rightarrow> block \<Rightarrow> int \<Rightarrow> cBuffer \<Rightarrow> cBuffer res" where
  "put_tag ml index tag text n b =
     bindE (cBuffer_Remove index (int (length tag)) b) (\<lambda>(_, b). cBuffer_Insert ml index text n b)"

record page_info =
  pg_addr :: string
  pg_time :: string
  pg_elapsed :: string

fun tag_loop :: "nat \<Rightarrow> malloc \<Rightarrow> page_info \<Rightarrow> int \<Rightarrow> cBuffer \<Rightarrow> cBuffer res" where
  "tag_loop 0 ml pg offset b = Inl Diverge"
| "tag_loop (Suc n) ml pg offset b =
     bindE (cBuffer_Find ''{{MC_'' offset b) (\<lambda>(index, b).
     if index = -1 then Inr b
     else
       bindE (cBuffer_Find ''{{MC_SERVERADDR}}'' index b) (\<lambda>(k, b).
       if k \<noteq> -1 then
         bindE (put_tag ml index ''{{MC_SERVERADDR}}'' (cstr (pg_addr pg)) (-1) b) (\<lambda>b.
         tag_loop n ml pg (index + int (length ''{{MC_SERVERADDR}}'')) b)
       else
         bindE (cBuffer_Find ''{{MC_SERVERTIME}}'' index b) (\<lambda>(k, b).
         if k \<noteq> -1 then
           bindE (put_tag ml index ''{{MC_SERVERTIME}}'' (cstr (pg_time pg)) (int (length (pg_time pg)) - 1) b) (\<lambda>b.
           tag_loop n ml pg (index + int (length ''{{MC_SERVERTIME}}'')) b)
         else
           bindE (cBuffer_Find ''{{MC_PAGETIME}}'' index b) (\<lambda>(k, b).
           if k \<noteq> -1 then
             bindE (put_tag ml index ''{{MC_PAGETIME}}'' (cstr (pg_elapsed pg)) (-1) b) (\<lambda>b.
             tag_loop n ml pg (index + int (length ''{{MC_PAGETIME}}'')) b)
           else tag_loop n ml pg (offset + index) b))))"

definition cgi_seps :: string where "cgi_seps = ''?&''"

definition cWebRequestHandler_ProcessServerSideScripts ::
    "nat \<Rightarrow> malloc \<Rightarrow> 'i tcl \<Rightarrow> page_info \<Rightarrow> cWebRequestHandler \<Rightarrow> 'i \<Rightarrow> (cWebRequestHandler \<times> 'i) res" where
  "cWebRequestHandler_ProcessServerSideScripts fuel ml ev pg h i =
     bindE (cBuffer_Find ''<?mc'' 0 (m_Response h)) (\<lambda>(r, b).
     let h = h\<lparr>m_Response := b\<rparr> in
     bindE
       (if r \<noteq> -1 then
          bindE (cgi_loop ev (m_sInterpreterNamespace h) (char_tokens cgi_seps [] (m_CGIParams h)) [] i) (\<lambda>(cgi, i).
          bindE (script_loop fuel ml ev (m_sInterpreterNamespace h) b i) (\<lambda>(b, i).
          bindE (cScriptEngine_DeleteNamespace ev (m_sInterpreterNamespace h) i) (\<lambda>(_, i).
          Inr (h\<lparr>m_CGI := cgi, m_Response := b\<rparr>, i))))
        else Inr (h, i)) (\<lambda>(h, i).
     bindE (tag_loop fuel ml pg 0 (m_Response h)) (\<lambda>b. Inr (h\<lparr>m_Response := b\<rparr>, i))))"

text \<open>The script of a POST; the script engine is used without a test for null.\<close>

definition cWebRequestHandler_ProcessEmbeddedScript ::
    "malloc \<Rightarrow> 'i tcl option \<Rightarrow> cWebRequestHandler \<Rightarrow> 'i \<Rightarrow> 'i res" where
  "cWebRequestHandler_ProcessEmbeddedScript ml eng h i =
     (if m_CGIScript h = [] then Inr i
      else case eng of
        None \<Rightarrow> Inl MemFault
      | Some ev \<Rightarrow>
          bindE (cScriptEngine_Execute ev (m_sInterpreterNamespace h) (m_CGIScript h) False i) (\<lambda>(_, output, i).
          bindE (if output \<noteq> [] then cURL_Encode ml output else Inr output) (\<lambda>output.
          bindE (cScriptEngine_Execute ev (m_sInterpreterNamespace h)
                  (''set tclscriptout {'' @ c_prefix output @ ''}'') False i) (\<lambda>(_, _, i). Inr i))))"

section \<open>The reply\<close>

definition crlf :: string where "crlf = [CR, LF]"

definition connection_line :: "bool \<Rightarrow> string" where
  "connection_line keep = (if keep then ''Connection: Keep-Alive'' else ''Connection: close'') @ crlf"

definition not_modified_header :: "bool \<Rightarrow> string \<Rightarrow> string \<Rightarrow> string" where
  "not_modified_header keep date label =
     ''HTTP/1.1 304 Not Modified'' @ crlf @ connection_line keep @ ''Date: '' @ date @ crlf @ label @ crlf @ crlf"

definition found_header :: "bool \<Rightarrow> string \<Rightarrow> string \<Rightarrow> string \<Rightarrow> string \<Rightarrow> int \<Rightarrow> string" where
  "found_header keep date label etag ctype n =
     ''HTTP/1.1 200 OK'' @ crlf @ connection_line keep @ ''Date: '' @ date @ crlf @ label @ crlf @
     ''ETag: '' @ [CHR 0x22] @ etag @ [CHR 0x22] @ crlf @ ''Content-Type: '' @ ctype @ crlf @
     ''Content-Length: '' @ show_int n @ crlf @ crlf"

definition node_page :: "string \<Rightarrow> string" where
  "node_page name =
     ''<html><head><title>Node: '' @ name @ ''</title></head><body>'' @ ''<h2>Node: '' @ name @ ''</h2>'' @
     ''<p>Running based on zero-configuration. Note: this node will only accept connections on the same subnet.</p>'' @
     ''<hr>'' @ ''<address>msgCourier/'' @ APP_VERSION @ ''</address>'' @ ''</body></html>''"

definition not_found_page :: string where
  "not_found_page =
     ''<html><head><title>404 Not Found</title></head><body>'' @ ''<h1>Resource Not Found</h1>'' @
     ''</title></head><body>'' @ ''<p>The requested resource was not found on this server</p>'' @ ''</h2>'' @
     ''<hr>'' @ ''<address>msgCourier/'' @ APP_VERSION @ ''</address>'' @ ''</body></html>''"

definition node_label :: "string \<Rightarrow> string" where
  "node_label name = ''Server: msgCourier/'' @ APP_VERSION @ '' node('' @ name @ '')'' @ crlf"

definition node_reply :: "string \<Rightarrow> string \<Rightarrow> string \<Rightarrow> string" where
  "node_reply name date etag =
     ''HTTP/1.1 200 OK'' @ crlf @ ''Date: '' @ date @ crlf @ node_label name @
     ''ETag: '' @ [CHR 0x22] @ etag @ [CHR 0x22] @ crlf @ ''Content-Type: text/html'' @ crlf @
     ''Content-Length: '' @ show_int (int (length (node_page name))) @ crlf @ crlf @ node_page name"

definition not_found_reply :: "bool \<Rightarrow> string \<Rightarrow> string \<Rightarrow> string" where
  "not_found_reply keep name date =
     ''HTTP/1.1 404 Not Found'' @ crlf @ connection_line keep @ ''Date: '' @ date @ crlf @ node_label name @
     ''Content-Type: text/html'' @ crlf @
     ''Content-Length: '' @ show_int (int (length not_found_page)) @ crlf @ crlf @ not_found_page"

record 'i web_env =
  we_env :: env
  we_md5 :: "string \<Rightarrow> string"
  we_files :: file_system
  we_date :: tm
  we_page :: page_info
  we_tcl :: "'i tcl option"
  we_zero :: bool
  we_fuel :: nat

record 'i web =
  w_handler :: cWebRequestHandler
  w_queue :: cMsgQueue
  w_cache :: cFileCache
  w_vdirs :: cVirtualDirectoryMap
  w_state :: 'i

text \<open>\<open>if (m_sContentType.find("htm"))\<close> holds unless the match is at the very start.\<close>

definition wants_scripts :: "string \<Rightarrow> bool" where
  "wants_scripts ctype = (str_find ctype ''htm'' \<noteq> Some 0)"

text \<open>The text of the reply, as the pointer and length the payload is set from.\<close>

definition reply_text ::
    "'i web_env \<Rightarrow> bool \<Rightarrow> cWebRequestHandler \<Rightarrow> 'i \<Rightarrow> (block option \<times> int \<times> cWebRequestHandler \<times> 'i) res" where
  "reply_text we keep h i =
     (let ml = e_malloc (we_env we); date = c_prefix (cDate_GetDate (we_date we));
          label = c_prefix (m_sServerLabel h); name = e_name (we_env we)
      in if m_bCachedNotModified h then
           bindE (cBuffer_ReplaceWith ml (Some (cstr (not_modified_header keep date label))) (-1) (m_Response h)) (\<lambda>(_, b).
           Inr (cBuffer_GetRawBuffer b, cBuffer_GetBufferCount b, h\<lparr>m_Response := b\<rparr>, i))
         else if cBuffer_GetBufferCount (m_Response h) \<noteq> 0 then
           bindE
             (case (if wants_scripts (m_sContentType h) then we_tcl we else None) of
                None \<Rightarrow> Inr (h, i)
              | Some ev \<Rightarrow> cWebRequestHandler_ProcessServerSideScripts (we_fuel we) ml ev (we_page we) h i) (\<lambda>(h, i).
           let hd = found_header keep date label (c_prefix (m_sEntityTag h)) (c_prefix (m_sContentType h))
                      (cBuffer_GetBufferCount (m_Response h)) in
           bindE (cBuffer_Prepend ml (Some (cstr hd)) (-1) (m_Response h)) (\<lambda>(_, b).
           Inr (cBuffer_GetRawBuffer b, cBuffer_GetBufferCount b, h\<lparr>m_Response := b\<rparr>, i)))
         else
           (let s = (if we_zero we then node_reply name date (m_sEntityTag h) else not_found_reply keep name date)
            in Inr (Some (cstr s), int (length s), h, i)))"

definition cWebRequestHandler_Process :: "'i web_env \<Rightarrow> msg_addr \<Rightarrow> 'i web \<Rightarrow> 'i web res" where
  "cWebRequestHandler_Process we a w =
     (let ev = we_env we; ml = e_malloc ev;
          h = (w_handler w)\<lparr>m_bWebPage := False, m_bCachedNotModified := False, m_sEntityTag := [], m_sMessageETag := []\<rparr>
      in bindE (get_msg a (w_queue w)) (\<lambda>m.
         bindE (cWebRequestHandler_ProcessHTTPHeader ml (w_vdirs w) m h) (\<lambda>(_, h).
         bindE (cWebRequestHandler_ProcessEmbeddedScript ml (we_tcl we) h (w_state w)) (\<lambda>i.
         bindE (cMsgQueue_CreateMessageReply ev (Some a) (w_queue w)) (\<lambda>(r, q).
         bindE (cWebRequestHandler_GetResource ml (we_md5 we) (we_files we) (e_now ev) h (w_cache w)) (\<lambda>(h, c).
         bindE (get_msg r q) (\<lambda>n.
         bindE (reply_text we (cMsg_IsKeepAlive n) h i) (\<lambda>(p, len, h, i).
         bindE (cMsg_SetContentPayload ml r p len n) (\<lambda>n.
         bindE (upd_msg r (\<lambda>_. cMsg_DispatchMsg (e_name ev) (e_addr ev) n) q) (\<lambda>q.
         bindE (upd_msg a cMsg_MarkProcessed q) (\<lambda>q.
         Inr (w\<lparr>w_handler := h\<lparr>m_CGI := []\<rparr>, w_queue := q, w_cache := c, w_state := i\<rparr>))))))))))))"

section \<open>The server\<close>

text \<open>
  \<open>OnProcess\<close> gives the message to the first handler that is not connected, then to a new one, and
  puts it back to the pending state when all \<open>m_iMaxHandlers\<close> are busy; the comparison is
  unsigned, so a negative limit is none. A new handler's thread is assumed to start. The result is the number of the handler that got the message.
\<close>

record cWebServer =
  m_iMaxHandlers :: int
  m_WebRequestHandlers :: "cWebRequestHandler list"
  m_iTotalThreads :: int

definition cWebServer_new :: "int \<Rightarrow> cWebServer" where
  "cWebServer_new n = \<lparr>m_iMaxHandlers = n, m_WebRequestHandlers = [], m_iTotalThreads = 0\<rparr>"

fun idle_handler :: "cWebRequestHandler list \<Rightarrow> nat option" where
  "idle_handler [] = None"
| "idle_handler (h # hs) = (if \<not> m_bConnected h then Some 0 else map_option Suc (idle_handler hs))"

definition cWebServer_OnProcess ::
    "uuid_gen \<Rightarrow> string omap \<Rightarrow> msg_addr \<Rightarrow> cWebServer \<times> 'z sys_scheme \<Rightarrow> (nat option \<times> cWebServer \<times> 'z sys_scheme) res"
where
  "cWebServer_OnProcess gen mm a ws =
     (case ws of (v, s) \<Rightarrow>
      case idle_handler (m_WebRequestHandlers v) of
        Some k \<Rightarrow>
          bindE (cWebRequestHandler_Setup gen (uid s) (m_WebRequestHandlers v ! k)) (\<lambda>(h, p).
          Inr (Some k, v\<lparr>m_WebRequestHandlers := (m_WebRequestHandlers v)[k := h]\<rparr>, s\<lparr>uid := p\<rparr>))
      | None \<Rightarrow>
          if int (length (m_WebRequestHandlers v)) < m_iMaxHandlers v \<or> m_iMaxHandlers v < 0 then
            bindE (cWebRequestHandler_Setup gen (uid s) (cWebRequestHandler_new mm)) (\<lambda>(h, p).
            Inr (Some (length (m_WebRequestHandlers v)),
                 v\<lparr>m_iTotalThreads := m_iTotalThreads v + 1, m_WebRequestHandlers := m_WebRequestHandlers v @ [h]\<rparr>,
                 s\<lparr>uid := p\<rparr>))
          else
            bindE (upd_msg a (cMsg_SetMsgState MSG_STATE_PENDING) s) (\<lambda>s. Inr (None, v, s)))"

definition cWebServer_OnShutdown :: "cWebServer \<Rightarrow> cWebServer" where
  "cWebServer_OnShutdown v = v\<lparr>m_WebRequestHandlers := []\<rparr>"

text \<open>A handler's thread ends its turn by dropping the connection flag.\<close>

definition handler_done :: "cWebRequestHandler \<Rightarrow> cWebRequestHandler" where
  "handler_done h = h\<lparr>m_bConnected := False\<rparr>"

definition cWebRequestHandler_Run_turn :: "'i web_env \<Rightarrow> msg_addr \<Rightarrow> 'i web \<Rightarrow> 'i web res" where
  "cWebRequestHandler_Run_turn we a w =
     bindE (cWebRequestHandler_Process we a w) (\<lambda>w. Inr (w\<lparr>w_handler := handler_done (w_handler w)\<rparr>))"

end
