(* ===== verification/WebServe.thy ===== *)
theory WebServe
  imports WebReply KeyValue
begin

text \<open>
  What the web server does with a request: the path it is mapped to, the contents and the tag of
  the resource, and the reply.
\<close>

section \<open>The path of a request\<close>

text \<open>A path element that reaches the server as it is. It may well be \<open>..\<close>.\<close>

definition plain_segment :: "string \<Rightarrow> bool" where
  "plain_segment s \<longleftrightarrow> s \<noteq> [] \<and>
     set s \<inter> {CHR 0x5C, CHR ''/'', CHR ''?'', CHR ''='', CHR ''%'', CHR ''+'', CHR '' '', CHR '':'', CR, NUL} = {}"

lemma char_tokens_word: "set w \<inter> set seps = {} \<Longrightarrow> char_tokens seps acc (w @ s) = char_tokens seps (rev w @ acc) s"
  by (induction w arbitrary: acc) auto

lemma char_tokens_path:
  assumes "\<forall>s \<in> set us. plain_segment s"
  shows "char_tokens uri_seps [] (path_part us) = us"
    and "us \<noteq> [] \<Longrightarrow> char_tokens uri_seps acc (path_part us) = (if acc = [] then [] else [rev acc]) @ us"
proof -
  have *: "us \<noteq> [] \<longrightarrow> char_tokens uri_seps acc (path_part us) = (if acc = [] then [] else [rev acc]) @ us" for acc
    using assms
  proof (induction us arbitrary: acc)
    case (Cons u us)
    have u: "set u \<inter> set uri_seps = {}" "u \<noteq> []" using Cons.prems by (auto simp: plain_segment_def uri_seps_def)
    have sl: "CHR ''/'' \<in> set uri_seps" by (simp add: uri_seps_def)
    have "char_tokens uri_seps [] (u @ path_part us) = u # us"
      using Cons.IH[of "rev u"] Cons.prems u char_tokens_word[OF u(1), of "[]" "[]"]
      by (cases us) (auto simp: char_tokens_word path_part_def)
    then show ?case using sl by (simp add: path_part_def)
  qed simp
  then show "us \<noteq> [] \<Longrightarrow> char_tokens uri_seps acc (path_part us) = (if acc = [] then [] else [rev acc]) @ us" by simp
  show "char_tokens uri_seps [] (path_part us) = us"
    using *[of "[]"] by (cases "us = []") (auto simp: path_part_def)
qed

lemma sort_tokens_path: "\<forall>s \<in> set us. plain_segment s \<Longrightarrow> sort_tokens us (u, p) = (u @ us, p)"
proof (induction us arbitrary: u)
  case (Cons s us)
  then have "char_find s (CHR ''='') = None" by (auto simp: char_find_None plain_segment_def)
  with Cons show ?case by simp
qed simp

lemma url_decode_plain: "CHR ''%'' \<notin> set s \<Longrightarrow> CHR ''+'' \<notin> set s \<Longrightarrow> url_decode s = s"
  by (induction s) auto

lemma path_part_chars:
  assumes "\<forall>s \<in> set us. plain_segment s"
  shows "set (path_part us) \<inter> {CHR ''?'', CHR ''='', CHR ''%'', CHR ''+'', CHR '' '', CHR '':'', CR, NUL} = {}"
  using assms by (induction us) (auto simp: path_part_def plain_segment_def)

lemma str_find_skip:
  "c \<notin> set w \<Longrightarrow> str_find (w @ s) (c # p) = map_option (\<lambda>i. i + length w) (str_find s (c # p))"
  by (induction w) (auto simp: option.map_comp comp_def option.map_ident)

definition get_line :: "string list \<Rightarrow> string" where
  "get_line us = ''GET '' @ path_part us @ '' HTTP/1.1''"

lemma request_uri_get:
  assumes "us \<noteq> []" and "\<forall>s \<in> set us. plain_segment s"
  shows "request_uri True (get_line us @ r) = Inr (path_part us)"
proof -
  obtain u vs where us: "us = u # vs" using assms(1) by (cases us) auto
  have "CHR '' '' \<notin> set (path_part us)" using path_part_chars[OF assms(2)] by auto
  from str_find_skip[OF this, of "'' HTTP/1.1'' @ r" "''HTTP/''"]
  have "str_find (path_part us @ '' HTTP/1.1'' @ r) '' HTTP/'' = Some (length (path_part us))" by simp
  then have "str_find (get_line us @ r) '' HTTP/'' = Some (4 + length (path_part us))"
    using us by (simp add: get_line_def path_part_def)
  then show ?thesis by (simp add: request_uri_def get_line_def)
qed

lemma uri_part_get:
  assumes "malloc_total ml" and us: "us \<noteq> []" "\<forall>s \<in> set us. plain_segment s"
  shows "uri_part ml (get_line us @ r) h =
    Inr (h\<lparr>m_bMessageTypeGet := True, m_CGIScript := [], m_CGIParams := [], m_URI := us\<rparr>)"
proof -
  have get: "starts_with ''GET'' (get_line us @ r)" by (simp add: get_line_def)
  let ?p = "path_part us"
  have p: "NUL \<notin> set ?p" "CHR ''%'' \<notin> set ?p" "CHR ''+'' \<notin> set ?p"
    using path_part_chars[OF us(2)] by auto
  have "?p \<noteq> []" using us(1) by (cases us) (auto simp: path_part_def)
  then have len: "int (length ?p) < int (length ?p) * 3" by simp
  have "cURL_Decode ml ?p = Inr ?p"
    using safe_res_total[OF through_array_safe[OF malloc_total_spec[OF assms(1)] _ len] assms(1)]
      p by (auto simp: cURL_Decode_def c_prefix_id url_decode_plain)
  then show ?thesis
    using us by (simp add: uri_part_def get request_uri_get char_tokens_path(1) sort_tokens_path)
qed


lemma get_line_ok:
  assumes "\<forall>s \<in> set us. plain_segment s"
  shows "status_ok (get_line us)"
  using path_part_chars[OF assms] by (auto simp: status_ok_def get_line_def)

lemma header_part_get:
  assumes ml: "malloc_total ml" and b: "buf_inv b" and f: "fields_ok flds" "status_ok st"
    and c: "buf_contents b = header_text st flds @ CRLF2 @ body" and g: "m_bMessageTypeGet h"
  shows "\<exists>he. header_part ml (m_pBuffer b) (m_iTail b) h = Inr (he, etag_part he h) \<and> m_Params he = map_of (rev flds)"
proof -
  have ne: "buf_contents b \<noteq> []" using c by (simp add: header_text_def)
  then obtain blk where blk: "m_pBuffer b = Some blk" using buf_contents_block[of b] by (cases "m_pBuffer b") auto
  obtain t where t: "m_iTail b = int t" "t \<le> length blk" "buf_contents b = take t blk"
    using buf_inv_nat[OF b] blk by (metis deref_simps(2) le_trans)
  obtain rc buf where buf: "cBuffer_ReplaceWith ml (Some blk) (int t) cBuffer_new = Inr (rc, buf)"
    "buf_inv buf" "buf_contents buf = take t blk"
    using safe_res_total[OF ReplaceWith_safe[OF malloc_total_spec[OF ml] buf_inv_new t(2)] ml] by auto
  then obtain buf' he where "cHeaderExtract_Parse buf cHeaderExtract_new = Inr (buf', he)"
    "m_Params he = map_of (rev flds)"
    using Parse_ok[OF buf(2) f, of body cHeaderExtract_new] c t(3) by auto
  moreover have "m_bMessageTypeGet (etag_part he h)" using g by (simp add: etag_part_def Let_def)
  ultimately show ?thesis using blk t(1) buf(1) by (simp add: header_part_def Let_def)
qed

text \<open>The headers of a request as the parser holds them, and the directory they select.\<close>

definition request_headers :: "(string \<times> string) list \<Rightarrow> cHeaderExtract" where
  "request_headers flds = cHeaderExtract_new\<lparr>m_Params := map_of (rev flds)\<rparr>"

definition holds_get :: "string list \<Rightarrow> (string \<times> string) list \<Rightarrow> string \<Rightarrow> cMsg \<Rightarrow> bool" where
  "holds_get us flds body m \<longleftrightarrow> buf_inv (MsgRawBuffer m) \<and> buf_terminated (MsgRawBuffer m) \<and>
     us \<noteq> [] \<and> (\<forall>s \<in> set us. plain_segment s) \<and> fields_ok flds \<and>
     buf_contents (MsgRawBuffer m) = header_text (get_line us) flds @ CRLF2 @ body"

lemma same_params: "m_Params he = m_Params he' \<Longrightarrow> etag_part he = etag_part he' \<and> host_path vd p he = host_path vd p he'"
  by (simp add: etag_part_def host_path_def cHeaderExtract_GetValue_def fun_eq_iff)

lemma ProcessHTTPHeader_get:
  assumes ml: "malloc_total ml" and m: "holds_get us flds body m"
    and r: "root = host_path vd (MsgArrivalPort m) (request_headers flds)" "root \<noteq> []"
  shows "cWebRequestHandler_ProcessHTTPHeader ml vd m h = Inr (True,
    (etag_part (request_headers flds) (h\<lparr>m_bMessageTypeGet := True, m_CGIScript := [], m_CGIParams := [], m_URI := us\<rparr>))
      \<lparr>m_sPath := root @ path_part us\<rparr>)"
proof -
  let ?b = "MsgRawBuffer m"
  have b: "buf_inv ?b" "buf_terminated ?b" and us: "us \<noteq> []" "\<forall>s \<in> set us. plain_segment s" and f: "fields_ok flds"
    and c: "buf_contents ?b = header_text (get_line us) flds @ CRLF2 @ body" using m by (auto simp: holds_get_def)
  have st: "status_ok (get_line us)" by (rule get_line_ok[OF us(2)])
  have "m_pBuffer ?b \<noteq> None" using c by (intro buf_contents_block) (simp add: header_text_def)
  moreover have "\<exists>r. c_prefix (buf_contents ?b) = get_line us @ r"
    unfolding c header_text_def append_assoc using st by (subst c_prefix_append_left) (auto simp: status_ok_def)
  ultimately obtain x where rawtext: "cstr_at (deref (cMsg_GetRawBuffer m)) 0 = Inr (get_line us @ x)"
    using cstr_at_prefix[OF b(1,2), of 0] by (auto simp: cMsg_GetRawBuffer_def cBuffer_GetRawBuffer_def)
  let ?h = "h\<lparr>m_bMessageTypeGet := True, m_CGIScript := [], m_CGIParams := [], m_URI := us\<rparr>"
  have "m_bMessageTypeGet ?h" by simp
  from header_part_get[OF ml b(1) f st c this] obtain he where
    he: "header_part ml (cMsg_GetRawBuffer m) (cMsg_GetRawBufferSize m) ?h = Inr (he, etag_part he ?h)"
    "m_Params he = m_Params (request_headers flds)"
    by (auto simp: cMsg_GetRawBuffer_def cMsg_GetRawBufferSize_def cBuffer_GetRawBuffer_def
      cBuffer_GetBufferCount_def request_headers_def)
  from same_params[OF he(2)] have he': "etag_part he = etag_part (request_headers flds)"
    "host_path vd (MsgArrivalPort m) he = root" using r(1) by auto
  have "m_URI (etag_part he ?h) = us" by (simp add: etag_part_def Let_def)
  then show ?thesis
    using rawtext uri_part_get[OF ml us] he he' r(2)
    by (simp add: cWebRequestHandler_ProcessHTTPHeader_def cMsg_GetArrivalPort_def Let_def)
qed


section \<open>The resource\<close>

lemma read_loop_ok:
  assumes "malloc_total ml" and "buf_inv b"
  shows "\<exists>b'. read_loop ml d b = Inr b' \<and> buf_inv b' \<and> buf_contents b' = buf_contents b @ d"
  using assms(2)
proof (induction "length d" arbitrary: d b rule: less_induct)
  case less
  show ?case
  proof (cases "d = []")
    case True
    with less show ?thesis by (simp add: read_loop.simps)
  next
    case False
    define x where "x = take READ_SIZE d"
    obtain rc b1 where b1: "cBuffer_Append ml (Some x) (int (length x)) b = Inr (rc, b1)" "buf_inv b1"
      "buf_contents b1 = buf_contents b @ x"
      using safe_res_total[OF Append_safe[OF malloc_total_spec[OF assms(1)] less.prems le_refl[of "length x"]] assms(1)]
      by auto
    have "length (drop READ_SIZE d) < length d" using False by (simp add: READ_SIZE_def)
    from less.hyps[OF this b1(2)] obtain b' where "read_loop ml (drop READ_SIZE d) b1 = Inr b'" "buf_inv b'"
      "buf_contents b' = buf_contents b1 @ drop READ_SIZE d" by blast
    with b1 False show ?thesis by (simp add: read_loop.simps[of ml d] x_def)
  qed
qed

lemma show_int_no_NUL: "NUL \<notin> set (show_int t)"
proof -
  have "\<not> is_digit NUL" by (simp add: is_digit_def)
  then show ?thesis by (auto simp: show_int_def dest: show_nat_digits)
qed

lemma cstr_read:
  assumes "buf_inv b" and "m_pBuffer b \<noteq> None"
  shows "\<exists>p b'. cBuffer_cstr b = Inr (p, b') \<and> cstr_at (deref p) 0 = Inr (c_prefix (buf_contents b))"
proof -
  obtain b' where b': "cBuffer_MakeString b = Inr b'" "buf_inv b'" "buf_contents b' = buf_contents b"
    "buf_terminated b'" "m_pBuffer b' \<noteq> None" using MakeString_ok[OF assms(1)] assms(2) by auto
  then have "cBuffer_cstr b = Inr (m_pBuffer b', b')"
    using assms(2) by (auto simp: cBuffer_cstr_def cBuffer_MakeString_def res_simps)
  with cstr_at_prefix[OF b'(2,4,5), of 0] b'(3) show ?thesis by simp
qed

text \<open>The version of a path: what its entity tag is computed from.\<close>

definition version_tag :: "(string \<Rightarrow> string) \<Rightarrow> string \<Rightarrow> int \<Rightarrow> string" where
  "version_tag md5 path t = md5 (c_prefix path @ show_int t)"

text \<open>
  Every entry carries the tag of its version, and an entry with the time stamp of the file holds the
  contents of the file.
\<close>

definition entry_ok :: "(string \<Rightarrow> string) \<Rightarrow> file_system \<Rightarrow> string \<Rightarrow> cFileCacheEntry \<Rightarrow> bool" where
  "entry_ok md5 fs path e \<longleftrightarrow> buf_inv (fileData e) \<and> entityTag e = version_tag md5 path (fileTimeStamp e) \<and>
     (\<forall>t d. fs (c_prefix path) = Some (t, d) \<longrightarrow> t = fileTimeStamp e \<longrightarrow> buf_contents (fileData e) = d)"

definition cache_ok :: "(string \<Rightarrow> string) \<Rightarrow> file_system \<Rightarrow> cFileCache \<Rightarrow> bool" where
  "cache_ok md5 fs c \<longleftrightarrow> om_inv (fc_map c) \<and>
     (\<forall>path e. om_find path (fc_map c) = Some e \<longrightarrow> entry_ok md5 fs path e)"

lemma cache_ok_new: "cache_ok md5 fs cFileCache_new"
  by (simp add: cache_ok_def cFileCache_new_def om_inv_def om_find_def)

lemma cache_okD: "cache_ok md5 fs c \<Longrightarrow> om_find path (fc_map c) = Some e \<Longrightarrow> entry_ok md5 fs path e"
  by (simp add: cache_ok_def)

lemma fc_update_ok:
  assumes "cache_ok md5 fs c" and "\<And>e. entry_ok md5 fs path e \<Longrightarrow> entry_ok md5 fs path (f e)"
  shows "cache_ok md5 fs (fc_update path f c)"
    and "om_find path (fc_map (fc_update path f c)) = map_option f (om_find path (fc_map c))"
proof -
  have inv: "om_inv (fc_map c)" using assms(1) by (simp add: cache_ok_def)
  show "om_find path (fc_map (fc_update path f c)) = map_option f (om_find path (fc_map c))"
    using om.find_assign[OF inv] by (simp add: fc_update_def split: option.split)
  show "cache_ok md5 fs (fc_update path f c)"
  proof (cases "om_find path (fc_map c)")
    case None
    with assms(1) show ?thesis by (simp add: fc_update_def)
  next
    case (Some e)
    have "cache_ok md5 fs (c\<lparr>fc_map := om_assign path (f e) (fc_map c)\<rparr>)"
      using om.inv_assign[OF inv] om.find_assign[OF inv] assms(2) cache_okD[OF assms(1)] Some
      by (auto simp: cache_ok_def)
    with Some show ?thesis by (simp add: fc_update_def)
  qed
qed

lemma Store_ok:
  assumes ml: "malloc_total ml" and md5: "\<forall>s. NUL \<notin> set (md5 s)" and c: "cache_ok md5 fs c" and d: "buf_inv d"
    and short: "length (c_prefix path @ show_int t) < 1024" and fs: "fs (c_prefix path) = Some (t, buf_contents d)"
  shows "\<exists>ok d' c'. cFileCache_Store ml md5 now path d t c = Inr (ok, d', c') \<and> buf_inv d' \<and>
    buf_contents d' = buf_contents d \<and> cache_ok md5 fs c' \<and>
    (ok \<longrightarrow> cFileCache_GetEntityTag path c' = Some (version_tag md5 path t)) \<and>
    (ok \<longleftrightarrow> int (length (buf_contents d)) \<le> m_CacheSize c)"
proof (cases "int (length (buf_contents d)) \<le> m_CacheSize c")
  case False
  with c d show ?thesis
    by (intro exI[of _ False] exI[of _ d] exI[of _ c]) (simp add: cFileCache_Store_def cBuffer_GetBufferCount_def length_buf_contents)
next
  case True
  have inv: "om_inv (fc_map c)" using c by (simp add: cache_ok_def)
  have count: "\<not> cBuffer_GetBufferCount d > m_CacheSize c"
    using True d by (simp add: cBuffer_GetBufferCount_def length_buf_contents)
  obtain p d' where d': "cBuffer_cstr d = Inr (p, d')" "buf_inv d'" "buf_contents d' = buf_contents d"
    "m_iTail d' = m_iTail d" "take (length (buf_contents d)) (deref p) = buf_contents d" "p = None \<longrightarrow> buf_contents d = []"
    using cstr_ok[OF d] by blast
  have n: "cBuffer_GetBufferCount d' = int (length (buf_contents d))"
    using d'(4) length_buf_contents[OF d] by (simp add: cBuffer_GetBufferCount_def)
  obtain rc data where data: "cBuffer_ReplaceWith ml p (int (length (buf_contents d))) cBuffer_new = Inr (rc, data)"
    "buf_inv data" "buf_contents data = buf_contents d"
    using replace_ptr[OF ml buf_inv_new d'(5)] d'(6) by auto
  let ?v = "c_prefix path @ show_int t"
  have v: "NUL \<notin> set ?v" using show_int_no_NUL c_prefix_no_NUL by auto
  obtain k ent where ent: "cBuffer_Sprintf ml 1024 ?v cBuffer_new = Inr (k, ent)" "buf_inv ent" "buf_contents ent = ?v"
    "m_pBuffer ent \<noteq> None"
    using safe_res_total[OF Sprintf_safe[OF malloc_total_spec[OF ml] buf_inv_new v] ml, of 1024] short by auto
  obtain ent2 where ent2: "cBuffer_MakeString ent = Inr ent2" "buf_inv ent2" "buf_contents ent2 = ?v" "m_pBuffer ent2 \<noteq> None"
    using MakeString_ok[OF ent(2)] ent(3,4) by auto
  obtain q ent3 where q: "cBuffer_cstr ent2 = Inr (q, ent3)" "cstr_at (deref q) 0 = Inr ?v"
    using cstr_read[OF ent2(2,4)] ent2(3) c_prefix_id[OF v] by auto
  let ?e = "\<lparr>fileName = path, fileData = data, fileTimeStamp = t, fileLastAccessedTimeStamp = now,
    accessCount = 0, entityTag = md5 ?v\<rparr>"
  let ?m = "om_insert path ?e (om_erase path (fc_map c))"
  let ?c = "c\<lparr>fc_map := ?m\<rparr>"
  have store: "cFileCache_Store ml md5 now path d t c = Inr (True, d', ?c)"
    using count d'(1) n data(1) ent(1) ent2(1) q by (simp add: cFileCache_Store_def)
  have f: "om_find x ?m = (if x = path then Some ?e else om_find x (fc_map c))" for x
    using om.find_insert[OF om.inv_erase[OF inv]] om.find_erase[OF inv] by auto
  have "entry_ok md5 fs path ?e" using data(2,3) fs by (simp add: entry_ok_def version_tag_def)
  then have "cache_ok md5 fs ?c"
    using om.inv_insert[OF om.inv_erase[OF inv]] f cache_okD[OF c] by (auto simp: cache_ok_def)
  moreover have "cFileCache_GetEntityTag path ?c = Some (version_tag md5 path t)"
    using f md5 by (simp add: cFileCache_GetEntityTag_def version_tag_def c_prefix_id)
  ultimately show ?thesis using store d' True by blast
qed


text \<open>The content type of a path.\<close>

definition path_type :: "string omap \<Rightarrow> string \<Rightarrow> string" where
  "path_type mm path =
     (case str_rfind path (CHR ''.'') of
        Some k \<Rightarrow> cMIMEMap_GetContentType (drop k path) mm | None \<Rightarrow> ''application/octet-stream'')"

lemma GetResourceContentType_eq:
  "cWebRequestHandler_GetResourceContentType h = h\<lparr>m_sContentType := path_type (m_MIMEMap h) (m_sPath h)\<rparr>"
  by (simp add: cWebRequestHandler_GetResourceContentType_def path_type_def split: option.split)

text \<open>What serving a resource leaves alone in the handler.\<close>

definition same_request :: "cWebRequestHandler \<Rightarrow> cWebRequestHandler \<Rightarrow> bool" where
  "same_request h h' \<longleftrightarrow> m_sPath h' = m_sPath h \<and> m_MIMEMap h' = m_MIMEMap h \<and> m_sServerLabel h' = m_sServerLabel h \<and>
     m_CGIParams h' = m_CGIParams h \<and> m_sInterpreterNamespace h' = m_sInterpreterNamespace h"

text \<open>
  The outcome of \<open>GetResource\<close> for version \<open>t\<close> with contents \<open>d\<close>: the contents with the type of
  the path, or nothing when the client has this version.
\<close>

definition outcome_ok :: "(string \<Rightarrow> string) \<Rightarrow> int \<Rightarrow> block \<Rightarrow> cWebRequestHandler \<Rightarrow> cWebRequestHandler \<Rightarrow> bool" where
  "outcome_ok md5 t d h h' \<longleftrightarrow> same_request h h' \<and> buf_inv (m_Response h') \<and>
     (if m_bCachedNotModified h' then m_sMessageETag h = version_tag md5 (m_sPath h) t
      else buf_contents (m_Response h') = d \<and> m_sContentType h' = path_type (m_MIMEMap h) (m_sPath h)) \<and>
     (m_sEntityTag h' = version_tag md5 (m_sPath h) t \<or> m_sEntityTag h' = m_sEntityTag h)"

lemma serve_file_ok:
  assumes ml: "malloc_total ml" and md5: "\<forall>s. NUL \<notin> set (md5 s)" and c: "cache_ok md5 fs c"
    and r: "buf_inv (m_Response h)" and p: "m_sPath h \<noteq> []" and fs: "fs (c_prefix (m_sPath h)) = Some (t, d)"
    and short: "length (c_prefix (m_sPath h) @ show_int t) < 1024" and nm: "\<not> m_bCachedNotModified h"
  shows "\<exists>h' c'. serve_file ml md5 fs now t h c = Inr (h', c') \<and> cache_ok md5 fs c' \<and> outcome_ok md5 t d h h' \<and>
    \<not> m_bCachedNotModified h'"
proof -
  obtain b where b: "read_loop ml d (cBuffer_Reset (m_Response h)) = Inr b" "buf_inv b" "buf_contents b = d"
    using read_loop_ok[OF ml buf_inv_Reset[OF r], of d] by auto
  have "fs (c_prefix (m_sPath h)) = Some (t, buf_contents b)" using fs b(3) by simp
  from Store_ok[OF ml md5 c b(2) short this] obtain ok b' c' where
    s: "cFileCache_Store ml md5 now (m_sPath h) b t c = Inr (ok, b', c')" "buf_inv b'" "buf_contents b' = d"
    "cache_ok md5 fs c'" "ok \<longrightarrow> cFileCache_GetEntityTag (m_sPath h) c' = Some (version_tag md5 (m_sPath h) t)"
    using b(3) by blast
  then show ?thesis
    using b(1) p fs nm
    by (cases ok) (auto simp: serve_file_def GetResourceContentType_eq outcome_ok_def same_request_def)
qed

lemma serve_cached_ok:
  assumes ml: "malloc_total ml" and c: "cache_ok md5 fs c" and e: "entry_ok md5 fs (m_sPath h) e"
    and r: "buf_inv (m_Response h)" and fs: "fs (c_prefix (m_sPath h)) = Some (t, d)" and t: "t = fileTimeStamp e"
    and nm: "\<not> m_bCachedNotModified h"
  shows "\<exists>h' c'. serve_cached ml e h c = Inr (h', c') \<and> cache_ok md5 fs c' \<and> outcome_ok md5 t d h h'"
proof -
  have d: "buf_inv (fileData e)" "buf_contents (fileData e) = d" "entityTag e = version_tag md5 (m_sPath h) t"
    using e fs t by (auto simp: entry_ok_def)
  have send: "\<exists>rc b. cBuffer_ReplaceWith ml (cBuffer_GetRawBuffer (fileData x)) (cBuffer_GetBufferCount (fileData x)) (m_Response h)
      = Inr (rc, b) \<and> buf_inv b \<and> buf_contents b = d" if x: "buf_inv (fileData x)" "buf_contents (fileData x) = d" for x
  proof -
    have n: "m_iTail (fileData x) = int (length d)" using length_buf_contents[OF x(1)] x(2) by simp
    have "take (length d) (deref (m_pBuffer (fileData x))) = d"
      using x(2) n by (simp add: buf_contents_def)
    moreover have "m_pBuffer (fileData x) = None \<longrightarrow> length d = 0" using x(2) buf_contents_block[of "fileData x"] by (cases "d = []") auto
    ultimately show ?thesis
      using replace_ptr[OF ml r, of "length d" "m_pBuffer (fileData x)" d] n by (simp add: cBuffer_GetRawBuffer_def cBuffer_GetBufferCount_def)
  qed
  show ?thesis
  proof (cases "m_sMessageETag h = entityTag e \<and> m_bWebPage h")
    case True
    have "\<exists>k b. cBuffer_Find ''<?mc'' 0 (fileData e) = Inr (k, b) \<and> buf_inv b \<and> buf_contents b = d"
      using Find_prefix[OF d(1), of 0 "''<?mc''"] Find_empty[OF d(1), of "''<?mc''" 0] d by (cases "d = []") auto
    then obtain k b where b: "cBuffer_Find ''<?mc'' 0 (fileData e) = Inr (k, b)" "buf_inv b" "buf_contents b = d" by blast
    have c': "cache_ok md5 fs (fc_update (m_sPath h) (\<lambda>x. x\<lparr>fileData := b\<rparr>) c)"
      by (rule fc_update_ok(1)[OF c]) (use b(2,3) fs in \<open>auto simp: entry_ok_def\<close>)
    obtain rc b2 where b2: "cBuffer_ReplaceWith ml (cBuffer_GetRawBuffer b) (cBuffer_GetBufferCount b) (m_Response h)
      = Inr (rc, b2)" "buf_inv b2" "buf_contents b2 = d" using send[of "e\<lparr>fileData := b\<rparr>"] b by auto
    show ?thesis
      using True b(1) c' b2 d(3) nm r
      by (cases "k = -1") (auto simp: serve_cached_def GetResourceContentType_eq outcome_ok_def same_request_def)
  next
    case False
    obtain rc b2 where b2: "cBuffer_ReplaceWith ml (cBuffer_GetRawBuffer (fileData e)) (cBuffer_GetBufferCount (fileData e)) (m_Response h)
      = Inr (rc, b2)" "buf_inv b2" "buf_contents b2 = d" using send[of e] d by auto
    show ?thesis
      using False c b2 d(3) nm r
      by (cases "m_sMessageETag h = entityTag e")
        (auto simp: serve_cached_def GetResourceContentType_eq outcome_ok_def same_request_def)
  qed
qed


lemma GetResource_ok:
  assumes ml: "malloc_total ml" and md5: "\<forall>s. NUL \<notin> set (md5 s)" and c: "cache_ok md5 fs c"
    and r: "buf_inv (m_Response h)" and p: "m_sPath h \<noteq> []" and fs: "fs (c_prefix (m_sPath h)) = Some (t, d)"
    and short: "length (c_prefix (m_sPath h) @ show_int t) < 1024" and nm: "\<not> m_bCachedNotModified h"
    and look: "\<forall>e. om_find (m_sPath h) (fc_map c) = Some e \<longrightarrow> fileLastAccessedTimeStamp e < now \<or> fileTimeStamp e = t"
  shows "\<exists>h' c'. cWebRequestHandler_GetResource ml md5 fs now h c = Inr (h', c') \<and> cache_ok md5 fs c' \<and>
    outcome_ok md5 t d h h'"
proof -
  let ?h = "h\<lparr>m_Response := cBuffer_Reset (m_Response h),
    m_bWebPage := (m_bWebPage h \<or> str_find (m_sPath h) ''.htm'' \<noteq> None)\<rparr>"
  have h: "buf_inv (m_Response ?h)" "m_sPath ?h \<noteq> []" "fs (c_prefix (m_sPath ?h)) = Some (t, d)"
    "length (c_prefix (m_sPath ?h) @ show_int t) < 1024" "\<not> m_bCachedNotModified ?h"
    using buf_inv_Reset[OF r] p fs short nm by simp_all
  have out: "outcome_ok md5 t d ?h h' = outcome_ok md5 t d h h'" for h'
    by (simp add: outcome_ok_def same_request_def)
  let ?a = "\<lambda>e. e\<lparr>accessCount := accessCount e + 1\<rparr>" and ?u = "\<lambda>e. e\<lparr>fileLastAccessedTimeStamp := now\<rparr>"
  have ok: "entry_ok md5 fs path e \<Longrightarrow> entry_ok md5 fs path (?a e)" "entry_ok md5 fs path e \<Longrightarrow> entry_ok md5 fs path (?u e)"
    for path e by (simp_all add: entry_ok_def)
  show ?thesis
  proof (cases "om_find (m_sPath h) (fc_map c)")
    case None
    have "resource_stamp fs now (m_sPath h) None = t" using fs by (simp add: resource_stamp_def)
    then have "cWebRequestHandler_GetResource ml md5 fs now h c = serve_file ml md5 fs now t ?h (fc_update (m_sPath h) ?u c)"
      using None
      by (simp add: cWebRequestHandler_GetResource_def cFileCache_HasEntry_def cFileCache_UpdateFileAccessTime_def Let_def)
    moreover have "cache_ok md5 fs (fc_update (m_sPath h) ?u c)" by (rule fc_update_ok(1)[OF c ok(2)])
    note serve_file_ok[OF ml md5 this h, where now = now]
    ultimately show ?thesis using out by metis
  next
    case (Some e)
    have c1: "cache_ok md5 fs (fc_update (m_sPath h) ?a c)"
      "om_find (m_sPath h) (fc_map (fc_update (m_sPath h) ?a c)) = Some (?a e)"
      using fc_update_ok[OF c ok(1)] Some by auto
    have stamp: "resource_stamp fs now (m_sPath h) (Some (?a e)) = t"
      using fs look Some by (auto simp: resource_stamp_def Let_def)
    have e: "entry_ok md5 fs (m_sPath ?h) (?a e)" using ok(1) cache_okD[OF c Some] by simp
    let ?c = "cFileCache_UpdateFileAccessTime now (m_sPath h) (fc_update (m_sPath h) ?a c)"
    have c2: "cache_ok md5 fs ?c"
      unfolding cFileCache_UpdateFileAccessTime_def by (rule fc_update_ok(1)[OF c1(1) ok(2)])
    have eq: "cWebRequestHandler_GetResource ml md5 fs now h c =
      (if fileTimeStamp e = t then serve_cached ml (?a e) ?h ?c else serve_file ml md5 fs now t ?h ?c)"
      using Some c1(2) stamp
      by (simp add: cWebRequestHandler_GetResource_def cFileCache_HasEntry_def cFileCache_GetFileEntry_def Let_def)
    show ?thesis
    proof (cases "fileTimeStamp e = t")
      case True
      then have "t = fileTimeStamp (?a e)" by simp
      from serve_cached_ok[OF ml c2 e h(1,3) this h(5)] obtain h' c' where
        "serve_cached ml (?a e) ?h ?c = Inr (h', c')" "cache_ok md5 fs c'" "outcome_ok md5 t d ?h h'" by blast
      then show ?thesis unfolding eq out using True by (intro exI[of _ h'] exI[of _ c']) (simp only: if_True refl simp_thms)
    next
      case False
      from serve_file_ok[OF ml md5 c2 h, where now = now] obtain h' c' where
        "serve_file ml md5 fs now t ?h ?c = Inr (h', c')" "cache_ok md5 fs c'" "outcome_ok md5 t d ?h h'" by blast
      then show ?thesis unfolding eq out using False by (intro exI[of _ h'] exI[of _ c']) (simp only: if_False simp_thms)
    qed
  qed
qed


text \<open>(C11) The resource that is served is the file as it is, unless it changed in the second of its last
use: with a cache whose entries carry the tag of their version, and when the cached entry of the
path, if there is one, was last used in an earlier second or still has the time stamp of the file,
\<open>GetResource\<close> either puts the current contents of the file into the response, with the content type of
its extension, or decides for "304 Not Modified", and then the client has sent the tag of the current
version. It keeps the cache so. The file is looked at again only when the entry was last used in an
earlier second, so without that condition a file changed within the second is served as it was.\<close>

theorem resource_is_current:
  assumes "malloc_total ml" and "\<forall>s. NUL \<notin> set (md5 s)" and "cache_ok md5 fs c" and "buf_inv (m_Response h)"
    and "m_sPath h \<noteq> []" and "fs (c_prefix (m_sPath h)) = Some (t, d)"
    and "length (c_prefix (m_sPath h) @ show_int t) < 1024" and "\<not> m_bCachedNotModified h"
    and "\<forall>e. om_find (m_sPath h) (fc_map c) = Some e \<longrightarrow> fileLastAccessedTimeStamp e < now \<or> fileTimeStamp e = t"
  shows "\<exists>h' c'. cWebRequestHandler_GetResource ml md5 fs now h c = Inr (h', c') \<and> cache_ok md5 fs c' \<and>
    (if m_bCachedNotModified h' then m_sMessageETag h = md5 (c_prefix (m_sPath h) @ show_int t)
     else buf_contents (m_Response h') = d \<and> m_sContentType h' = path_type (m_MIMEMap h) (m_sPath h))"
proof -
  obtain h' c' where "cWebRequestHandler_GetResource ml md5 fs now h c = Inr (h', c')" "cache_ok md5 fs c'"
    "outcome_ok md5 t d h h'" using GetResource_ok[OF assms] by blast
  then show ?thesis by (auto simp: outcome_ok_def version_tag_def)
qed

definition demo_files :: file_system where
  "demo_files path = (if path = ''/www/../secret'' then Some (7, ''hello'') else None)"

lemma demo_path: "c_prefix ''/www/../secret'' = ''/www/../secret''"
  "length (c_prefix ''/www/../secret'' @ show_int 7) < 1024"
  by code_simp+

theorem resource_is_current_witness:
  "\<exists>h' c'. cWebRequestHandler_GetResource zero_malloc (\<lambda>s. ''0'') demo_files 9
       ((cWebRequestHandler_new [])\<lparr>m_sPath := ''/www/../secret''\<rparr>) cFileCache_new = Inr (h', c') \<and>
     cache_ok (\<lambda>s. ''0'') demo_files c' \<and> buf_contents (m_Response h') = ''hello''"
proof -
  let ?h = "(cWebRequestHandler_new [])\<lparr>m_sPath := ''/www/../secret''\<rparr>"
  have h: "buf_inv (m_Response ?h)" "m_sPath ?h \<noteq> []" "demo_files (c_prefix (m_sPath ?h)) = Some (7, ''hello'')"
    "length (c_prefix (m_sPath ?h) @ show_int 7) < 1024" "\<not> m_bCachedNotModified ?h"
    using demo_path by (simp_all add: cWebRequestHandler_new_def demo_files_def)
  have "\<forall>e. om_find (m_sPath ?h) (fc_map cFileCache_new) = Some e \<longrightarrow> fileLastAccessedTimeStamp e < 9 \<or> fileTimeStamp e = 7"
    by (simp add: cFileCache_new_def om_find_def)
  moreover have "\<forall>s. NUL \<notin> set ((\<lambda>s :: string. ''0'') s)" by simp
  moreover have "cache_ok (\<lambda>s. ''0'') demo_files cFileCache_new" by (rule cache_ok_new)
  ultimately have "\<exists>h' c'. cWebRequestHandler_GetResource zero_malloc (\<lambda>s. ''0'') demo_files 9 ?h cFileCache_new = Inr (h', c') \<and>
      cache_ok (\<lambda>s. ''0'') demo_files c' \<and> (if m_bCachedNotModified h' then m_sMessageETag ?h = ''0''
      else buf_contents (m_Response h') = ''hello'' \<and> m_sContentType h' = path_type (m_MIMEMap ?h) (m_sPath ?h))"
    using resource_is_current[where ?md5.0 = "\<lambda>s. ''0''" and fs = demo_files and h = ?h and t = 7 and d = "''hello''"
        and c = cFileCache_new and now = 9, OF malloc_total_zero] h by blast
  then
  show ?thesis by (auto simp: cWebRequestHandler_new_def split: if_splits)
qed

section \<open>Pages without scripts and tags\<close>

lemma str_find_c_prefix: "str_find s p = None \<Longrightarrow> str_find (c_prefix s) p = None"
proof -
  assume *: "str_find s p = None"
  obtain r where r: "s = c_prefix s @ r" by (metis c_prefix_def takeWhile_dropWhile_id)
  have "starts_with p (drop j s)" if "j \<le> length (c_prefix s)" "starts_with p (drop j (c_prefix s))" for j
    using that by (subst r) (auto simp: starts_with_iff)
  moreover have "length (c_prefix s) \<le> length s" by (simp add: c_prefix_def length_takeWhile_le)
  ultimately show ?thesis using * by (auto simp: str_find_None_iff)
qed

lemma Find_absent:
  assumes "buf_inv b" and "str_find (buf_contents b) pat = None"
  shows "\<exists>b'. cBuffer_Find pat 0 b = Inr (-1, b') \<and> buf_inv b' \<and> buf_contents b' = buf_contents b"
  using Find_prefix[OF assms(1), of 0 pat] Find_empty[OF assms(1), of pat 0] str_find_c_prefix[OF assms(2)] assms(1)
  by (cases "buf_contents b = []") auto

lemma plain_page:
  assumes b: "buf_inv (m_Response h)" and "str_find (buf_contents (m_Response h)) ''<?mc'' = None"
    and "str_find (buf_contents (m_Response h)) ''{{MC_'' = None" and "0 < fuel"
  shows "\<exists>b'. cWebRequestHandler_ProcessServerSideScripts fuel ml ev pg h i = Inr (h\<lparr>m_Response := b'\<rparr>, i) \<and>
    buf_inv b' \<and> buf_contents b' = buf_contents (m_Response h)"
proof -
  obtain b1 where b1: "cBuffer_Find ''<?mc'' 0 (m_Response h) = Inr (-1, b1)" "buf_inv b1"
    "buf_contents b1 = buf_contents (m_Response h)" using Find_absent[OF b assms(2)] by blast
  then obtain b2 where b2: "cBuffer_Find ''{{MC_'' 0 b1 = Inr (-1, b2)" "buf_inv b2"
    "buf_contents b2 = buf_contents (m_Response h)" using Find_absent[OF b1(2)] assms(3) by auto
  obtain n where "fuel = Suc n" using assms(4) by (cases fuel) auto
  with b1(1) b2 show ?thesis
    by (intro exI[of _ b2]) (simp add: cWebRequestHandler_ProcessServerSideScripts_def Let_def)
qed

text \<open>(C37) A page with an unknown tag at its start and no known tag anywhere is never sent: with text that
begins with \<open>{{MC_\<close> and contains none of the three known tags, the loop over the tags stays at offset 0
for ever. (A known tag behind it is found from offset 0 and replaced, and the loop can end.)\<close>

theorem unknown_tag_hangs:
  assumes "buf_inv b" and "starts_with ''{{MC_'' (buf_contents b)"
    and "str_find (buf_contents b) ''{{MC_SERVERADDR}}'' = None"
    and "str_find (buf_contents b) ''{{MC_SERVERTIME}}'' = None"
    and "str_find (buf_contents b) ''{{MC_PAGETIME}}'' = None"
  shows "tag_loop fuel ml pg 0 b = Inl Diverge"
  using assms
proof (induction fuel arbitrary: b)
  case (Suc n)
  obtain r where r: "buf_contents b = ''{{MC_'' @ r" using Suc.prems(2) by (auto simp: starts_with_iff)
  have "str_find (c_prefix (buf_contents b)) ''{{MC_'' = Some 0"
    unfolding r by (simp add: c_prefix_def)
  with Find_prefix[OF Suc.prems(1), of 0 "''{{MC_''"] obtain b1 where b1: "cBuffer_Find ''{{MC_'' 0 b = Inr (0, b1)"
    "buf_inv b1" "buf_contents b1 = buf_contents b" using r by auto
  obtain b2 where b2: "cBuffer_Find ''{{MC_SERVERADDR}}'' 0 b1 = Inr (-1, b2)" "buf_inv b2"
    "buf_contents b2 = buf_contents b" using Find_absent[OF b1(2)] Suc.prems(3) b1(3) by auto
  obtain b3 where b3: "cBuffer_Find ''{{MC_SERVERTIME}}'' 0 b2 = Inr (-1, b3)" "buf_inv b3"
    "buf_contents b3 = buf_contents b" using Find_absent[OF b2(2)] Suc.prems(4) b2(3) by auto
  obtain b4 where b4: "cBuffer_Find ''{{MC_PAGETIME}}'' 0 b3 = Inr (-1, b4)" "buf_inv b4"
    "buf_contents b4 = buf_contents b" using Find_absent[OF b3(2)] Suc.prems(5) b3(3) by auto
  have "tag_loop n ml pg 0 b4 = Inl Diverge" using Suc.IH[OF b4(2)] Suc.prems b4(3) by simp
  with b1(1) b2(1) b3(1) b4(1) show ?case by simp
qed simp


theorem unknown_tag_hangs_witness:
  "\<forall>pg. \<exists>b. buf_contents b = ''{{MC_X}}'' \<and> tag_loop 1000 zero_malloc pg 0 b = Inl Diverge"
proof
  fix pg
  obtain b where b: "buf_inv b" "buf_contents b = ''{{MC_X}}''"
    using buf.assign_returns[OF malloc_total_zero buf_inv_new, of "''{{MC_X}}''"] by blast
  have "starts_with ''{{MC_'' ''{{MC_X}}''" "str_find ''{{MC_X}}'' ''{{MC_SERVERADDR}}'' = None"
    "str_find ''{{MC_X}}'' ''{{MC_SERVERTIME}}'' = None" "str_find ''{{MC_X}}'' ''{{MC_PAGETIME}}'' = None" by simp_all
  with unknown_tag_hangs[OF b(1), of 1000] b(2)
  show "\<exists>b. buf_contents b = ''{{MC_X}}'' \<and> tag_loop 1000 zero_malloc pg 0 b = Inl Diverge" by auto
qed

section \<open>The reply to a request\<close>

lemma CreateReply_ok:
  assumes g: "uuid_spec (e_gen ev)" and inv: "sys_inv (e_gen ev) s" and new: "e_new ev"
    and b: "heap s b = Some t" "MsgState t \<noteq> MSG_STATE_INACTIVE"
  shows "\<exists>a s' n. cMsgQueue_CreateMessageReply ev (Some b) s = Inr (a, s') \<and> a \<noteq> b \<and> heap s' a = Some n \<and>
    heap s' b = Some (t\<lparr>MsgCloned := True\<rparr>) \<and> m_bKeepAlive n = m_bKeepAlive t \<and> buf_inv (MsgBuffer n) \<and>
    MsgConnectionType n = answer_type (MsgConnectionType t)"
proof -
  obtain a s1 where s1: "cMsgPool_GetMessage ev s = Inr (a, s1)" "taken ev s a s1"
    using GetMessage_ok[OF g inv new] by blast
  then obtain n where n: "heap s1 = (heap s)(a \<mapsto> n)" "MsgState n = MSG_STATE_INUSE" "fresh_msg (e_now ev) n" "msg_inv n"
    by (auto simp: taken_def)
  have "in_state s b (MsgState t)" using b by (simp add: in_state_def)
  then have "b \<notin> set (m_FreeMsgStack (pool s))" "b < next_addr s"
    using inuse_not_free[OF inv _ b(2)] inv b(1) by (auto simp: sys_inv_def live_def)
  then have ab: "a \<noteq> b" using s1(2) by (auto simp: taken_def split: list.splits)
  let ?t = "t\<lparr>MsgCloned := True\<rparr>"
  have keep: "m_bKeepAlive (reply_fields ?t n) = m_bKeepAlive t" "MsgBuffer (reply_fields ?t n) = MsgBuffer n"
    by (cases "MsgConnectionType t";
      simp add: reply_fields_def getter_defs setter_defs cMsg_UpdateMsgConnectionType_def cMsg_SetBench_def Let_def)+
  let ?h = "(heap s1)(b \<mapsto> ?t, a \<mapsto> reply_fields ?t n)"
  have "cMsgQueue_CreateMessageReply ev (Some b) s = Inr (a, s1\<lparr>heap := ?h\<rparr>)"
    using s1(1) n(1) b(1) ab by (simp add: cMsgQueue_CreateMessageReply_def upd_msg_def get_msg_def cMsg_SetCloned_def)
  with reply_fields_eq[OF n(3), of ?t] n(4) keep ab show ?thesis
    by (intro exI[of _ a] exI[of _ "s1\<lparr>heap := ?h\<rparr>"] exI[of _ "reply_fields ?t n"]) (auto simp: Let_def msg_inv_def)
qed

lemma Prepend_cstr_ok:
  assumes "malloc_total ml" and "buf_inv b" and "NUL \<notin> set s"
  shows "\<exists>rc b'. cBuffer_Prepend ml (Some (cstr s)) (-1) b = Inr (rc, b') \<and> buf_inv b' \<and> buf_contents b' = s @ buf_contents b"
proof -
  obtain b' where "cBuffer_Insert ml 0 (cstr s) (int (length s)) b = Inr b'" "buf_inv b'"
    "buf_contents b' = s @ buf_contents b"
    using safe_res_total[OF Insert_safe[OF malloc_total_spec[OF assms(1)] assms(2), of 0 "length s" "cstr s"] assms(1)]
    by auto
  then show ?thesis using assms(3) by (simp add: cBuffer_Prepend_def arg_len_cstr)
qed

lemma header_no_NUL:
  "NUL \<notin> set (found_header keep (c_prefix a) (c_prefix b) (c_prefix e) (c_prefix c) n)"
  using c_prefix_no_NUL[of a] c_prefix_no_NUL[of b] c_prefix_no_NUL[of e] c_prefix_no_NUL[of c] show_int_no_NUL[of n]
  by (simp add: found_header_def connection_line_def crlf_def)

lemma whole_buffer:
  assumes "buf_inv b"
  shows "m_iTail b = int (length (buf_contents b))"
    and "take (length (buf_contents b)) (deref (m_pBuffer b)) = buf_contents b"
    and "m_pBuffer b = None \<longrightarrow> length (buf_contents b) = 0"
  using length_buf_contents[OF assms] buf_contents_block[of b]
  by (auto simp: buf_contents_def)

lemma reply_text_found:
  assumes ml: "malloc_total (e_malloc (we_env we))" and b: "buf_inv (m_Response h)" "buf_contents (m_Response h) = d" "d \<noteq> []"
    and nm: "\<not> m_bCachedNotModified h" and plain: "str_find d ''<?mc'' = None" "str_find d ''{{MC_'' = None" "0 < we_fuel we"
  shows "\<exists>p h' i'. reply_text we keep h i = Inr (p, m_iTail (m_Response h'), h', i) \<and> p = m_pBuffer (m_Response h') \<and>
    buf_inv (m_Response h') \<and> buf_contents (m_Response h') =
      found_header keep (c_prefix (cDate_GetDate (we_date we))) (c_prefix (m_sServerLabel h)) (c_prefix (m_sEntityTag h))
        (c_prefix (m_sContentType h)) (int (length d)) @ d"
proof -
  have n: "cBuffer_GetBufferCount (m_Response h) \<noteq> 0"
    using whole_buffer(1)[OF b(1)] b(2,3) by (simp add: cBuffer_GetBufferCount_def)
  obtain b' where b': "(case (if wants_scripts (m_sContentType h) then we_tcl we else None) of None \<Rightarrow> Inr (h, i)
      | Some ev \<Rightarrow> cWebRequestHandler_ProcessServerSideScripts (we_fuel we) (e_malloc (we_env we)) ev (we_page we) h i)
      = Inr (h\<lparr>m_Response := b'\<rparr>, i)" "buf_inv b'" "buf_contents b' = d"
  proof (cases "if wants_scripts (m_sContentType h) then we_tcl we else None")
    case None
    then show ?thesis using that[of "m_Response h"] b by simp
  next
    case (Some ev)
    obtain b' where "cWebRequestHandler_ProcessServerSideScripts (we_fuel we) (e_malloc (we_env we)) ev (we_page we) h i
      = Inr (h\<lparr>m_Response := b'\<rparr>, i)" "buf_inv b'" "buf_contents b' = d"
      using plain_page[OF b(1), of "we_fuel we" "e_malloc (we_env we)" ev "we_page we" i] plain b(2) by auto
    with that[of b'] Some show ?thesis by simp
  qed
  let ?hd = "found_header keep (c_prefix (cDate_GetDate (we_date we))) (c_prefix (m_sServerLabel h)) (c_prefix (m_sEntityTag h))
        (c_prefix (m_sContentType h)) (int (length d))"
  obtain rc b2 where b2: "cBuffer_Prepend (e_malloc (we_env we)) (Some (cstr ?hd)) (-1) b' = Inr (rc, b2)" "buf_inv b2"
    "buf_contents b2 = ?hd @ d" using Prepend_cstr_ok[OF ml b'(2) header_no_NUL] b'(3) by blast
  have "m_iTail b' = int (length d)" using whole_buffer(1)[OF b'(2)] b'(3) by simp
  then show ?thesis
    using nm n b'(1) b2
    by (simp add: reply_text_def Let_def cBuffer_GetBufferCount_def cBuffer_GetRawBuffer_def)
qed


lemma etag_part_none: "map_of (rev flds) ''If-None-Match'' = None \<Longrightarrow> etag_part (request_headers flds) h = h"
  by (simp add: etag_part_def request_headers_def cHeaderExtract_GetValue_def)

text \<open>(C10) A plain GET for a static file is answered: when the request carries no \<open>If-None-Match\<close> and
names, under its host or arrival port and by path elements without escapes or parameters, a path
that the file system can open, the file is not empty (an empty one is answered as missing) and has no
scripts or tags, and a cached entry of it was last used in an earlier second or has the file's
time stamp, \<open>Process\<close> returns, leaves the request delivered, and leaves one new pending message on the answering connection whose payload is the
"200 OK" header, with the content type of the path and the length of the file, followed by the
contents of the file. The path is the directory of the host followed by the path elements of the
request exactly as they were sent; an element \<open>..\<close> is one of them.\<close>

theorem get_request_served:
  assumes ml: "malloc_total (e_malloc (we_env we))" and g: "uuid_spec (e_gen (we_env we))" and new: "e_new (we_env we)"
    and md5: "\<forall>s. we_md5 we s \<noteq> [] \<and> NUL \<notin> set (we_md5 we s)" and fuel: "0 < we_fuel we"
    and q: "sys_inv (e_gen (we_env we)) (w_queue w)" and c: "cache_ok (we_md5 we) (we_files we) (w_cache w)"
    and b: "buf_inv (m_Response (w_handler w))"
    and m: "heap (w_queue w) a = Some m" "MsgState m \<noteq> MSG_STATE_INACTIVE" "MsgConnectionType m = MSG_CT_IB_TCP"
    and get: "holds_get us flds body m" "map_of (rev flds) ''If-None-Match'' = None"
    and root: "root = host_path (w_vdirs w) (MsgArrivalPort m) (request_headers flds)" "root \<noteq> []"
    and path: "path = root @ path_part us"
    and fil: "we_files we (c_prefix path) = Some (t, d)" "d \<noteq> []" "length (c_prefix path @ show_int t) < 1024"
    and look: "\<forall>e. om_find path (fc_map (w_cache w)) = Some e \<longrightarrow>
      fileLastAccessedTimeStamp e < e_now (we_env we) \<or> fileTimeStamp e = t"
    and plain: "str_find d ''<?mc'' = None" "str_find d ''{{MC_'' = None"
  shows "\<exists>w' r n m' etag. cWebRequestHandler_Process we a w = Inr w' \<and>
    r \<noteq> a \<and> heap (w_queue w') r = Some n \<and> MsgState n = MSG_STATE_PENDING \<and> MsgConnectionType n = MSG_CT_OB_TCP \<and>
    m_pPayload n = PMsg r 0 \<and> MsgContentLength n = int (length (buf_contents (MsgBuffer n))) \<and>
    buf_contents (MsgBuffer n) =
      found_header (m_bKeepAlive m) (c_prefix (cDate_GetDate (we_date we))) (c_prefix (m_sServerLabel (w_handler w)))
        (c_prefix etag) (c_prefix (path_type (m_MIMEMap (w_handler w)) path)) (int (length d)) @ d \<and>
    etag \<in> {we_md5 we (c_prefix path @ show_int t), []} \<and>
    heap (w_queue w') a = Some m' \<and> MsgState m' = MSG_STATE_DELIVERED \<and>
    cache_ok (we_md5 we) (we_files we) (w_cache w')"
proof -
  let ?ml = "e_malloc (we_env we)"
  let ?h = "(w_handler w)\<lparr>m_bWebPage := False, m_bCachedNotModified := False, m_sEntityTag := [], m_sMessageETag := []\<rparr>"
  define h1 where "h1 = ?h\<lparr>m_bMessageTypeGet := True, m_CGIScript := [], m_CGIParams := [], m_URI := us, m_sPath := path\<rparr>"
  have p1: "cWebRequestHandler_ProcessHTTPHeader ?ml (w_vdirs w) m ?h = Inr (True, h1)"
    using ProcessHTTPHeader_get[OF ml get(1) root] by (simp add: etag_part_none[OF get(2)] h1_def path)
  have p2: "cWebRequestHandler_ProcessEmbeddedScript ?ml (we_tcl we) h1 (w_state w) = Inr (w_state w)"
    by (simp add: cWebRequestHandler_ProcessEmbeddedScript_def h1_def)
  obtain r q1 n where p3: "cMsgQueue_CreateMessageReply (we_env we) (Some a) (w_queue w) = Inr (r, q1)" "r \<noteq> a"
    "heap q1 r = Some n" "heap q1 a = Some (m\<lparr>MsgCloned := True\<rparr>)" "m_bKeepAlive n = m_bKeepAlive m" "buf_inv (MsgBuffer n)"
    "MsgConnectionType n = MSG_CT_OB_TCP"
    using CreateReply_ok[OF g q new m(1,2)] m(3) by auto
  have h1: "buf_inv (m_Response h1)" "m_sPath h1 \<noteq> []" "we_files we (c_prefix (m_sPath h1)) = Some (t, d)"
    "length (c_prefix (m_sPath h1) @ show_int t) < 1024" "\<not> m_bCachedNotModified h1"
    "\<forall>e. om_find (m_sPath h1) (fc_map (w_cache w)) = Some e \<longrightarrow>
      fileLastAccessedTimeStamp e < e_now (we_env we) \<or> fileTimeStamp e = t"
    using b fil look root(2) path by (simp_all add: h1_def)
  obtain h2 c2 where p4: "cWebRequestHandler_GetResource ?ml (we_md5 we) (we_files we) (e_now (we_env we)) h1 (w_cache w) = Inr (h2, c2)"
    "cache_ok (we_md5 we) (we_files we) c2" "outcome_ok (we_md5 we) t d h1 h2"
    using GetResource_ok[OF ml _ c h1] md5 by blast
  have "version_tag (we_md5 we) (m_sPath h1) t \<noteq> m_sMessageETag h1" using md5 by (simp add: version_tag_def h1_def)
  then have nm2: "\<not> m_bCachedNotModified h2" using p4(3) by (auto simp: outcome_ok_def)
  then have h2: "\<not> m_bCachedNotModified h2" "buf_inv (m_Response h2)" "buf_contents (m_Response h2) = d"
    "m_sContentType h2 = path_type (m_MIMEMap (w_handler w)) path" "m_sServerLabel h2 = m_sServerLabel (w_handler w)"
    "m_sEntityTag h2 \<in> {we_md5 we (c_prefix path @ show_int t), []}"
    using p4(3) nm2 by (auto simp: outcome_ok_def same_request_def version_tag_def h1_def)
  obtain p h3 i where p5: "reply_text we (m_bKeepAlive m) h2 (w_state w) = Inr (p, m_iTail (m_Response h3), h3, i)"
    "p = m_pBuffer (m_Response h3)" "buf_inv (m_Response h3)" "buf_contents (m_Response h3) =
      found_header (m_bKeepAlive m) (c_prefix (cDate_GetDate (we_date we))) (c_prefix (m_sServerLabel (w_handler w)))
        (c_prefix (m_sEntityTag h2)) (c_prefix (path_type (m_MIMEMap (w_handler w)) path)) (int (length d)) @ d"
    using reply_text_found[OF ml h2(2,3) fil(2) h2(1) plain fuel] h2(4,5) by metis
  let ?s = "buf_contents (m_Response h3)"
  obtain rc b' where b': "cBuffer_ReplaceWith ?ml p (int (length ?s)) (MsgBuffer n) = Inr (rc, b')" "buf_inv b'" "buf_contents b' = ?s"
    using replace_ptr[OF ml p3(6), of "length ?s" p ?s] whole_buffer(2,3)[OF p5(3)] p5(2) by auto
  have "?s \<noteq> []" using p5(4) by (simp add: found_header_def)
  then have "m_pBuffer b' \<noteq> None" using b'(3) buf_contents_block[of b'] by simp
  then have p6: "cMsg_SetContentPayload ?ml r p (m_iTail (m_Response h3)) n =
      Inr (n\<lparr>MsgBuffer := b', m_pPayload := PMsg r 0, MsgContentLength := int (length ?s)\<rparr>)"
    using b'(1) whole_buffer(1)[OF p5(3)] by (simp add: cMsg_SetContentPayload_def cBuffer_GetRawBuffer_def)
  define n' where "n' = cMsg_DispatchMsg (e_name (we_env we)) (e_addr (we_env we))
      (n\<lparr>MsgBuffer := b', m_pPayload := PMsg r 0, MsgContentLength := int (length ?s)\<rparr>)"
  have n': "MsgState n' = MSG_STATE_PENDING" "MsgConnectionType n' = MSG_CT_OB_TCP" "m_pPayload n' = PMsg r 0"
    "MsgContentLength n' = int (length ?s)" "MsgBuffer n' = b'"
    using p3(7) by (simp_all add: n'_def cMsg_DispatchMsg_def Let_def)
  let ?q = "(q1\<lparr>heap := (heap q1)(r \<mapsto> n')\<rparr>)\<lparr>heap := (heap q1)(r \<mapsto> n', a \<mapsto> cMsg_MarkProcessed (m\<lparr>MsgCloned := True\<rparr>))\<rparr>"
  have keep: "cMsg_IsKeepAlive n = m_bKeepAlive m" using p3(5) by (simp add: cMsg_IsKeepAlive_def)
  have "cWebRequestHandler_Process we a w =
      Inr (w\<lparr>w_handler := h3\<lparr>m_CGI := []\<rparr>, w_queue := ?q, w_cache := c2, w_state := i\<rparr>)"
    unfolding cWebRequestHandler_Process_def Let_def get_msg_def m(1) option.case bindE.simps p1 prod.case p2 p3(1,3) p4(1)
      keep p5(1) p6 upd_msg_def n'_def[symmetric]
    using p3(2,4) by simp
  then show ?thesis
    using p3(2) n' b'(3) p5(4) h2(6) p4(2)
    by (intro exI[of _ "w\<lparr>w_handler := h3\<lparr>m_CGI := []\<rparr>, w_queue := ?q, w_cache := c2, w_state := i\<rparr>"] exI[of _ r]
        exI[of _ n'] exI[of _ "cMsg_MarkProcessed (m\<lparr>MsgCloned := True\<rparr>)"] exI[of _ "m_sEntityTag h2"])
      (auto simp: cMsg_MarkProcessed_def cMsg_CloseIfCloned_def)
qed


text \<open>A server with one virtual host and one request.\<close>

definition demo_page :: page_info where
  "demo_page = \<lparr>pg_addr = ''10.0.0.1'', pg_time = ''now'', pg_elapsed = ''0''\<rparr>"

definition demo_web_env :: "unit web_env" where
  "demo_web_env = \<lparr>we_env = demo_env, we_md5 = (\<lambda>s. ''0''), we_files = demo_files,
     we_date = \<lparr>tm_sec = 0, tm_min = 0, tm_hour = 0, tm_mday = 1, tm_mon = 0, tm_year = 105, tm_wday = 6\<rparr>,
     we_page = demo_page, we_tcl = None, we_zero = False, we_fuel = 1\<rparr>"

definition demo_web :: "cMsg \<Rightarrow> unit web" where
  "demo_web m = \<lparr>w_handler = cWebRequestHandler_new [], w_queue = demo_queue m, w_cache = cFileCache_new,
     w_vdirs = [(''host_x'', ''/www'')], w_state = ()\<rparr>"

theorem get_request_served_witness:
  "\<exists>m w' r n hd. holds_get [''..'', ''secret''] [(''Host'', ''x'')] [] m \<and>
     cWebRequestHandler_Process demo_web_env 0 (demo_web m) = Inr w' \<and> heap (w_queue w') r = Some n \<and>
     buf_contents (MsgBuffer n) = hd @ ''hello''"
proof -
  let ?s = "header_text (get_line [''..'', ''secret'']) [(''Host'', ''x'')] @ CRLF2 @ []"
  obtain b where b: "buf_inv b" "buf_contents b = ?s"
    using buf.assign_returns[OF malloc_total_zero buf_inv_new, of ?s] by blast
  then obtain b' where b': "buf_inv b'" "buf_terminated b'" "buf_contents b' = ?s" using MakeString_ok[of b] by auto
  define m where "m = cMsg_raw\<lparr>MsgState := MSG_STATE_INUSE, MsgConnectionType := MSG_CT_IB_TCP, MsgRawBuffer := b'\<rparr>"
  have get: "holds_get [''..'', ''secret''] [(''Host'', ''x'')] [] m" "map_of (rev [(''Host'', ''x'')]) ''If-None-Match'' = None"
    using b' by (simp_all add: holds_get_def m_def plain_segment_def fields_ok_def)
  have "msg_inv m" using b'(1) by (simp add: msg_inv_def m_def cMsg_raw_def)
  then have q: "sys_inv (e_gen (we_env demo_web_env)) (w_queue (demo_web m))"
    using demo_inv by (simp add: demo_web_env_def demo_web_def demo_env_def)
  have env: "malloc_total (e_malloc (we_env demo_web_env))" "uuid_spec (e_gen (we_env demo_web_env))" "e_new (we_env demo_web_env)"
    "\<forall>s. we_md5 demo_web_env s \<noteq> [] \<and> NUL \<notin> set (we_md5 demo_web_env s)" "0 < we_fuel demo_web_env"
    using malloc_total_zero example_gen_spec by (simp_all add: demo_web_env_def demo_env_def)
  have c: "cache_ok (we_md5 demo_web_env) (we_files demo_web_env) (w_cache (demo_web m))"
    "buf_inv (m_Response (w_handler (demo_web m)))"
    using cache_ok_new by (simp_all add: demo_web_def cWebRequestHandler_new_def)
  have m: "heap (w_queue (demo_web m)) 0 = Some m" "MsgState m \<noteq> MSG_STATE_INACTIVE" "MsgConnectionType m = MSG_CT_IB_TCP"
    by (simp_all add: demo_web_def m_def)
  have root: "''/www'' = host_path (w_vdirs (demo_web m)) (MsgArrivalPort m) (request_headers [(''Host'', ''x'')])"
    by (simp add: host_path_def demo_web_def request_headers_def cHeaderExtract_GetValue_def
      cVirtualDirectoryMap_GetVirtualDirectory_def om_find_def)
  have path: "''/www/../secret'' = ''/www'' @ path_part [''..'', ''secret'']" by (simp add: path_part_def)
  have fil: "we_files demo_web_env (c_prefix ''/www/../secret'') = Some (7, ''hello'')"
    by (simp add: demo_web_env_def demo_path(1) demo_files_def)
  have look: "\<forall>e. om_find ''/www/../secret'' (fc_map (w_cache (demo_web m))) = Some e \<longrightarrow>
      fileLastAccessedTimeStamp e < e_now (we_env demo_web_env) \<or> fileTimeStamp e = 7"
    by (simp add: demo_web_def cFileCache_new_def om_find_def)
  have ne: "''/www'' \<noteq> []" "''hello'' \<noteq> []" "str_find ''hello'' ''<?mc'' = None" "str_find ''hello'' ''{{MC_'' = None" by simp_all
  obtain w' r n etag where "cWebRequestHandler_Process demo_web_env 0 (demo_web m) = Inr w'" "heap (w_queue w') r = Some n"
    "buf_contents (MsgBuffer n) =
      found_header (m_bKeepAlive m) (c_prefix (cDate_GetDate (we_date demo_web_env)))
        (c_prefix (m_sServerLabel (w_handler (demo_web m)))) (c_prefix etag)
        (c_prefix (path_type (m_MIMEMap (w_handler (demo_web m))) ''/www/../secret'')) (int (length ''hello'')) @ ''hello''"
    using get_request_served[OF env q c m get root ne(1) path fil ne(2) demo_path(2) look ne(3,4)] by blast
  with get(1) show ?thesis by blast
qed

end
