(* ===== verification/MsgOwner.thy ===== *)
theory MsgOwner
  imports MsgQueue
begin

text \<open>
  Who may touch a message. A message that is in use is at one place: in the priority queue, in the
  job queue of a command handler, in the outbound queue of the connections, or held by a caller that
  got it from the message queue or from one of these queues. The theory lets all parts of the server
  run in any order, one operation at a time, and shows that a message never is at two places and that
  the pool never hands out a message somebody still has.

  The threads that empty the job queues and the outbound queue look at the top, work on the message,
  and pop the entry only then (\<open>cCommandHandlerDecorator::Run\<close>,
  \<open>cConnectionQueue::ProcessOutboundTasks\<close>); other parts run in between. Such an entry is left over
  while its reader works: the message is with the reader, and once the reader has finished it, it may
  be flushed and handed out anew before the entry is popped. What is at a queue's place are therefore
  the other entries.
\<close>

datatype place = InQueue | InJob string | InOut | IsHeld

text \<open>The readers of queues, and the position of the entry each is working on.\<close>

datatype reader = Handler string | Sender

type_synonym work = "reader \<Rightarrow> nat option"

definition raw_job :: "cMsgQueue \<Rightarrow> string \<Rightarrow> msg_addr list" where
  "raw_job s k = (case m_pCommandHandlerFactory s k of None \<Rightarrow> [] | Some d \<Rightarrow> m_jobQueue d)"

definition raw_out :: "cMsgQueue \<Rightarrow> msg_addr list" where
  "raw_out s = m_outbound_priority_queue (m_pConnectionQueue s)"

fun raw_queue :: "cMsgQueue \<Rightarrow> reader \<Rightarrow> msg_addr list" where
  "raw_queue s (Handler k) = raw_job s k"
| "raw_queue s Sender = raw_out s"

text \<open>A queue without the entry its reader is working on.\<close>

definition unread :: "work \<Rightarrow> cMsgQueue \<Rightarrow> reader \<Rightarrow> msg_addr list" where
  "unread w s r = (case w r of None \<Rightarrow> raw_queue s r | Some i \<Rightarrow> pq_remove i (raw_queue s r))"

definition work_ok :: "work \<Rightarrow> cMsgQueue \<Rightarrow> bool" where
  "work_ok w s \<longleftrightarrow> (\<forall>r i. w r = Some i \<longrightarrow> i < length (raw_queue s r))"

fun at_place :: "msg_addr set \<Rightarrow> work \<Rightarrow> cMsgQueue \<Rightarrow> place \<Rightarrow> msg_addr set" where
  "at_place held w s InQueue = set (m_priority_queue s)"
| "at_place held w s (InJob k) = set (unread w s (Handler k))"
| "at_place held w s InOut = set (unread w s Sender)"
| "at_place held w s IsHeld = held"

definition queues_distinct :: "work \<Rightarrow> cMsgQueue \<Rightarrow> bool" where
  "queues_distinct w s \<longleftrightarrow> distinct (m_priority_queue s) \<and> (\<forall>r. distinct (unread w s r))"

text \<open>The messages: consistent store, dispatched messages have a connection type, header sizes lie
  within the buffers.\<close>

definition msgs_ok :: "uuid_gen \<Rightarrow> cMsgQueue \<Rightarrow> bool" where
  "msgs_ok gen s \<longleftrightarrow> sys_inv gen s \<and> pend_ok s \<and> (\<forall>m \<in> ran (heap s). msg_ready m)"

definition own_inv :: "uuid_gen \<Rightarrow> msg_addr set \<Rightarrow> work \<Rightarrow> cMsgQueue \<Rightarrow> bool" where
  "own_inv gen held w s \<longleftrightarrow> msgs_ok gen s \<and> engine_inv (m_pRouterRulesEngine s) \<and> queues_distinct w s \<and> work_ok w s \<and>
     (\<forall>p. \<forall>a \<in> at_place held w s p. in_state s a MSG_STATE_INUSE) \<and>
     (\<forall>p q. p \<noteq> q \<longrightarrow> at_place held w s p \<inter> at_place held w s q = {})"

section \<open>Rules for the invariant\<close>

lemma place_cases: "P InQueue \<Longrightarrow> (\<And>k. P (InJob k)) \<Longrightarrow> P InOut \<Longrightarrow> P IsHeld \<Longrightarrow> P p"
  by (cases p) auto

lemma same_queues:
  assumes "raw_job s' = raw_job s" "raw_out s' = raw_out s"
  shows "raw_queue s' = raw_queue s" "unread w s' = unread w s" "work_ok w s' = work_ok w s"
proof -
  show q: "raw_queue s' = raw_queue s"
  proof
    show "raw_queue s' r = raw_queue s r" for r using assms by (cases r) simp_all
  qed
  show "unread w s' = unread w s" "work_ok w s' = work_ok w s"
    by (simp_all add: unread_def work_ok_def q fun_eq_iff split: option.split)
qed

text \<open>Queues as before, fewer messages held, and all messages at a place still in use.\<close>

lemma own_keep:
  assumes "own_inv gen held w s" "msgs_ok gen s'" "engine_inv (m_pRouterRulesEngine s')" "held' \<subseteq> held"
    and "m_priority_queue s' = m_priority_queue s" "raw_job s' = raw_job s" "raw_out s' = raw_out s"
    and "\<And>p a. a \<in> at_place held' w s p \<Longrightarrow> in_state s' a MSG_STATE_INUSE"
  shows "own_inv gen held' w s'"
proof -
  have p: "at_place held' w s' p = at_place held' w s p" for p using assms(5) same_queues[OF assms(6,7)] by (cases p) simp_all
  have "at_place held' w s p \<subseteq> at_place held w s p" for p using assms(4) by (cases p) auto
  then have "at_place held' w s p \<inter> at_place held' w s q = {}" if "p \<noteq> q" for p q
    using assms(1) that unfolding own_inv_def by blast
  then show ?thesis using assms p same_queues[OF assms(6,7)] by (simp add: own_inv_def queues_distinct_def)
qed

lemma own_add:
  assumes "own_inv gen held w s" "in_state s a MSG_STATE_INUSE" "\<And>p. a \<notin> at_place held w s p"
  shows "own_inv gen (insert a held) w s"
proof -
  have p: "at_place (insert a held) w s p = (if p = IsHeld then insert a (at_place held w s p) else at_place held w s p)" for p
    by (cases p) simp_all
  obtain Q where Q: "\<And>p. at_place held w s p = Q p" by blast
  show ?thesis using assms unfolding own_inv_def p Q by auto
qed

text \<open>Moving a message from its holder to the end of one of the queues, and back.\<close>

lemma own_move:
  assumes own: "own_inv gen held w s" and same: "heap s' = heap s" "msgs_ok gen s'" "m_pRouterRulesEngine s' = m_pRouterRulesEngine s"
    and dist: "queues_distinct w' s'" "work_ok w' s'"
    and pl: "\<And>p. at_place held' w' s' p \<subseteq> at_place held w s p \<union> {a}" "a \<in> at_place held w s src" "a \<in> at_place held' w' s' dst"
      "\<And>p. p \<noteq> dst \<Longrightarrow> a \<notin> at_place held' w' s' p"
  shows "own_inv gen held' w' s'"
proof -
  have st: "in_state s' b = in_state s b" for b using same(1) by (simp add: in_state_def fun_eq_iff)
  have "in_state s' b MSG_STATE_INUSE" if "b \<in> at_place held' w' s' p" for p b
  proof -
    have "b \<in> at_place held w s p \<or> b \<in> at_place held w s src" using pl(1)[of p] pl(2) that by auto
    then show ?thesis using own unfolding own_inv_def st by blast
  qed
  moreover have "at_place held' w' s' p \<inter> at_place held' w' s' q = {}" if "p \<noteq> q" for p q
  proof -
    have "at_place held w s p \<inter> at_place held w s q = {}" using own that unfolding own_inv_def by blast
    moreover have "a \<notin> at_place held' w' s' p \<or> a \<notin> at_place held' w' s' q" using pl(4) that by metis
    ultimately show ?thesis using pl(1)[of p] pl(1)[of q] by blast
  qed
  ultimately show ?thesis using own same dist by (simp add: own_inv_def)
qed

lemma own_only_held: "own_inv gen held w s \<Longrightarrow> a \<in> held \<Longrightarrow> p \<noteq> IsHeld \<Longrightarrow> a \<notin> at_place held w s p"
  unfolding own_inv_def by (metis at_place.simps(4) disjoint_iff)

lemma msgs_ok_fields [simp]:
  "msgs_ok gen (s\<lparr>m_priority_queue := x1\<rparr>) = msgs_ok gen s" "msgs_ok gen (s\<lparr>m_timer := x2\<rparr>) = msgs_ok gen s"
  "msgs_ok gen (s\<lparr>m_pCommandHandlerFactory := x3\<rparr>) = msgs_ok gen s" "msgs_ok gen (s\<lparr>m_pRouterRulesEngine := x4\<rparr>) = msgs_ok gen s"
  "msgs_ok gen (s\<lparr>m_pServiceEngine := x5\<rparr>) = msgs_ok gen s" "msgs_ok gen (s\<lparr>m_pSysMetrics := x6\<rparr>) = msgs_ok gen s"
  "msgs_ok gen (s\<lparr>m_pConnectionQueue := x7\<rparr>) = msgs_ok gen s" "msgs_ok gen (s\<lparr>m_dbFile := x8\<rparr>) = msgs_ok gen s"
  by (simp_all add: msgs_ok_def sys_inv_def live_def in_state_def pend_ok_def)

lemma lists_fields [simp]:
  "raw_job (s\<lparr>m_priority_queue := x1\<rparr>) = raw_job s" "raw_out (s\<lparr>m_priority_queue := x1\<rparr>) = raw_out s"
  "raw_job (s\<lparr>m_timer := x2\<rparr>) = raw_job s" "raw_out (s\<lparr>m_timer := x2\<rparr>) = raw_out s"
  "raw_job (s\<lparr>m_pRouterRulesEngine := x3\<rparr>) = raw_job s" "raw_out (s\<lparr>m_pRouterRulesEngine := x3\<rparr>) = raw_out s"
  "raw_job (s\<lparr>m_pServiceEngine := x4\<rparr>) = raw_job s" "raw_out (s\<lparr>m_pServiceEngine := x4\<rparr>) = raw_out s"
  "raw_job (s\<lparr>m_pSysMetrics := x5\<rparr>) = raw_job s" "raw_out (s\<lparr>m_pSysMetrics := x5\<rparr>) = raw_out s"
  "raw_job (s\<lparr>m_dbFile := x6\<rparr>) = raw_job s" "raw_out (s\<lparr>m_dbFile := x6\<rparr>) = raw_out s"
  "raw_job (s\<lparr>m_pConnectionQueue := x7\<rparr>) = raw_job s" "raw_out (s\<lparr>m_pCommandHandlerFactory := x8\<rparr>) = raw_out s"
  "raw_job (s\<lparr>heap := x9\<rparr>) = raw_job s" "raw_out (s\<lparr>heap := x9\<rparr>) = raw_out s"
  "raw_job (s\<lparr>pool := x10\<rparr>) = raw_job s" "raw_out (s\<lparr>pool := x10\<rparr>) = raw_out s"
  by (simp_all add: raw_job_def raw_out_def fun_eq_iff)

lemma unread_fields [simp]:
  "unread w (s\<lparr>m_priority_queue := x1\<rparr>) = unread w s" "work_ok w (s\<lparr>m_priority_queue := x1\<rparr>) = work_ok w s"
  "unread w (s\<lparr>m_timer := x2\<rparr>) = unread w s" "work_ok w (s\<lparr>m_timer := x2\<rparr>) = work_ok w s"
  "unread w (s\<lparr>heap := x9\<rparr>) = unread w s" "work_ok w (s\<lparr>heap := x9\<rparr>) = work_ok w s"
  "unread w (s\<lparr>pool := x10\<rparr>) = unread w s" "work_ok w (s\<lparr>pool := x10\<rparr>) = work_ok w s"
  by (rule same_queues; simp)+

lemma in_state_fields [simp]:
  "in_state (s\<lparr>m_priority_queue := x1\<rparr>) = in_state s" "in_state (s\<lparr>m_timer := x2\<rparr>) = in_state s"
  "in_state (s\<lparr>m_pCommandHandlerFactory := x3\<rparr>) = in_state s" "in_state (s\<lparr>m_pRouterRulesEngine := x4\<rparr>) = in_state s"
  "in_state (s\<lparr>m_pServiceEngine := x5\<rparr>) = in_state s" "in_state (s\<lparr>m_pSysMetrics := x6\<rparr>) = in_state s"
  "in_state (s\<lparr>m_pConnectionQueue := x7\<rparr>) = in_state s" "in_state (s\<lparr>m_dbFile := x8\<rparr>) = in_state s"
  "in_state (s\<lparr>pool := x9\<rparr>) = in_state s"
  by (simp_all add: in_state_def fun_eq_iff)

section \<open>Operations of the holder of a message\<close>

text \<open>Replacing a held message, keeping or giving up the hold.\<close>

lemma own_write:
  assumes own: "own_inv gen held w s" and a: "a \<in> held" and m': "msg_inv m'" "msg_ready m'"
    and ok: "MsgState m' \<in> {MSG_STATE_PENDING, MSG_STATE_UNDELIVERED} \<Longrightarrow> MsgConnectionType m' \<noteq> MSG_CT_NOTSET"
    and held': "held' = held \<and> MsgState m' = MSG_STATE_INUSE \<or> held' = held - {a}"
  shows "own_inv gen held' w (s\<lparr>heap := (heap s)(a \<mapsto> m')\<rparr>)"
proof (rule own_keep[OF own])
  have i: "msgs_ok gen s" "in_state s a MSG_STATE_INUSE" "engine_inv (m_pRouterRulesEngine s)"
    using own a unfolding own_inv_def by (auto dest: spec[of _ IsHeld])
  have "a \<notin> set (m_FreeMsgStack (pool s))" using inuse_not_free[OF _ i(2)] i(1) by (auto simp: msgs_ok_def)
  then have "sys_inv gen (s\<lparr>heap := (heap s)(a \<mapsto> m')\<rparr>)"
    using sys_inv_upd[of gen s a m'] i m' in_state_live by (auto simp: msgs_ok_def)
  moreover have "pend_ok (s\<lparr>heap := (heap s)(a \<mapsto> m')\<rparr>)" using i(1) ok by (auto simp: msgs_ok_def pend_ok_def)
  ultimately show "msgs_ok gen (s\<lparr>heap := (heap s)(a \<mapsto> m')\<rparr>)"
    using i(1) m'(2) by (auto simp: msgs_ok_def ran_def)
  show "engine_inv (m_pRouterRulesEngine (s\<lparr>heap := (heap s)(a \<mapsto> m')\<rparr>))" using i(3) by simp
  show "held' \<subseteq> held" using held' by auto
  show "in_state (s\<lparr>heap := (heap s)(a \<mapsto> m')\<rparr>) b MSG_STATE_INUSE" if "b \<in> at_place held' w s p" for p b
  proof (cases "b = a")
    case True
    have "p = IsHeld" using own_only_held[OF own a, of p] that True by (cases p) auto
    then show ?thesis using that held' True by (auto simp: in_state_def)
  next
    case False
    have "b \<in> at_place held w s p" using that held' by (cases p) auto
    then show ?thesis using False own unfolding own_inv_def by (auto simp: in_state_def)
  qed
qed simp_all

lemma own_held:
  assumes "own_inv gen held w s" "a \<in> held"
  shows "\<exists>m. heap s a = Some m \<and> MsgState m = MSG_STATE_INUSE \<and> msg_inv m \<and> msg_ready m"
proof -
  have "in_state s a MSG_STATE_INUSE" "msgs_ok gen s" using assms unfolding own_inv_def by (auto dest: spec[of _ IsHeld])
  moreover from this obtain m where "heap s a = Some m" "MsgState m = MSG_STATE_INUSE" by (auto simp: in_state_def)
  moreover from this have "m \<in> ran (heap s)" by (auto simp: ran_def)
  ultimately show ?thesis by (auto simp: msgs_ok_def sys_inv_def)
qed

lemma own_upd:
  assumes own: "own_inv gen held w s" and a: "a \<in> held" and run: "upd_msg a f s = Inr s'"
    and f: "\<And>m. MsgState m = MSG_STATE_INUSE \<Longrightarrow> msg_inv m \<Longrightarrow> msg_ready m \<Longrightarrow> heap s a = Some m \<Longrightarrow> msg_inv (f m) \<and> msg_ready (f m) \<and>
      (MsgState (f m) \<in> {MSG_STATE_PENDING, MSG_STATE_UNDELIVERED} \<longrightarrow> MsgConnectionType (f m) \<noteq> MSG_CT_NOTSET) \<and>
      (held' = held \<and> MsgState (f m) = MSG_STATE_INUSE \<or> held' = held - {a})"
  shows "own_inv gen held' w s'"
proof -
  obtain m where m: "heap s a = Some m" "MsgState m = MSG_STATE_INUSE" "msg_inv m" "msg_ready m"
    using own_held[OF own a] by blast
  then have "s' = s\<lparr>heap := (heap s)(a \<mapsto> f m)\<rparr>" using run by (simp add: upd_msg_def)
  then show ?thesis using own_write[OF own a, of "f m" held'] f[OF m(2-4,1)] by simp
qed

lemma queue_more:
  "sys.more s' = sys.more s \<Longrightarrow> m_priority_queue s' = m_priority_queue s \<and> m_timer s' = m_timer s \<and>
     m_bUseDB s' = m_bUseDB s \<and> m_pCommandHandlerFactory s' = m_pCommandHandlerFactory s \<and>
     m_pRouterRulesEngine s' = m_pRouterRulesEngine s \<and> m_pServiceEngine s' = m_pServiceEngine s \<and>
     m_pSysMetrics s' = m_pSysMetrics s \<and> m_pConnectionQueue s' = m_pConnectionQueue s \<and> m_dbFile s' = m_dbFile s"
  for s s' :: cMsgQueue
  by (cases s, cases s') simp

lemma own_take:
  assumes own: "own_inv gen held w s" and g: "uuid_spec gen" "e_gen ev = gen" "e_new ev"
    and run: "cMsgPool_GetMessage ev s = Inr (a, s')"
  shows "own_inv gen (insert a held) w s' \<and> (\<forall>p. a \<notin> at_place held w s p) \<and> m_pCommandHandlerFactory s' = m_pCommandHandlerFactory s \<and>
    set (m_FreeMsgStack (pool s')) \<subseteq> set (m_FreeMsgStack (pool s))"
proof -
  have inv: "sys_inv gen s" and ok: "msgs_ok gen s" using own by (simp_all add: own_inv_def msgs_ok_def)
  have tk: "taken ev s a s'" "sys_inv gen s'" using GetMessage_ok[of ev s] g inv run by auto
  then obtain m where m: "heap s' = (heap s)(a \<mapsto> m)" "MsgState m = MSG_STATE_INUSE" "fresh_msg (e_now ev) m" "msg_inv m"
    by (auto simp: taken_def)
  have more: "sys.more s' = sys.more s" using tk(1) by (simp add: taken_def)
  note mf = queue_more[OF more]
  have lists: "raw_job s' = raw_job s" "raw_out s' = raw_out s"
    using mf by (simp_all add: raw_job_def raw_out_def fun_eq_iff)
  have new: "\<not> in_state s a MSG_STATE_INUSE"
    using tk(1) inv by (auto simp: taken_def sys_inv_def in_state_def live_def split: list.splits)
  then have na: "a \<notin> at_place held w s p" for p using own by (auto simp: own_inv_def)
  have "msg_ready m" using m(3,4) by (simp add: fresh_msg_def msg_ready_def msg_inv_def contents_def)
  then have "msgs_ok gen s'" using ok tk(2) m by (auto simp: msgs_ok_def pend_ok_def ran_def)
  moreover have "in_state s' b MSG_STATE_INUSE" if "b \<in> at_place held w s p" for p b
    using that own na m(1) unfolding own_inv_def by (auto simp: in_state_def)
  ultimately have "own_inv gen held w s'"
    using own_keep[OF own, of s' held] mf lists own by (simp add: own_inv_def)
  moreover have "a \<notin> at_place held w s' p" for p using na[of p] mf same_queues[OF lists] by (cases p) simp_all
  moreover have "set (m_FreeMsgStack (pool s')) \<subseteq> set (m_FreeMsgStack (pool s))"
    using tk(1) by (auto simp: taken_def split: list.splits)
  ultimately show ?thesis using own_add m(1,2) na mf by (auto simp: in_state_def)
qed

section \<open>Moving messages between places\<close>

lemma own_pop:
  assumes own: "own_inv gen held w s" and i: "i < length (m_priority_queue s)"
  shows "own_inv gen (insert (m_priority_queue s ! i) held) w (s\<lparr>m_priority_queue := pq_remove i (m_priority_queue s)\<rparr>)"
proof (rule own_move[OF own, where a = "m_priority_queue s ! i" and src = InQueue and dst = IsHeld])
  have d: "distinct (m_priority_queue s)" using own by (simp add: own_inv_def queues_distinct_def)
  note r = set_pq_remove[OF i d]
  show "queues_distinct w (s\<lparr>m_priority_queue := pq_remove i (m_priority_queue s)\<rparr>)"
    using own distinct_pq_remove[OF d] by (simp add: own_inv_def queues_distinct_def)
  show "at_place (insert (m_priority_queue s ! i) held) w (s\<lparr>m_priority_queue := pq_remove i (m_priority_queue s)\<rparr>) p
      \<subseteq> at_place held w s p \<union> {m_priority_queue s ! i}" for p
    by (cases p) (use r in auto)
  have a: "m_priority_queue s ! i \<in> at_place held w s InQueue" using i by simp
  then show "m_priority_queue s ! i \<in> at_place held w s InQueue" .
  show "m_priority_queue s ! i \<notin> at_place (insert (m_priority_queue s ! i) held) w (s\<lparr>m_priority_queue := pq_remove i (m_priority_queue s)\<rparr>) p"
    if "p \<noteq> IsHeld" for p
  proof -
    have "m_priority_queue s ! i \<notin> at_place held w s p" if "p \<noteq> InQueue" for p
      using own a that unfolding own_inv_def by (metis disjoint_iff)
    from this[of p] that show ?thesis using r by (cases p) simp_all
  qed
qed (use own in \<open>simp_all add: own_inv_def\<close>)

text \<open>The end of a queue may grow, also while its reader works on an entry.\<close>

lemma unread_push:
  assumes "work_ok w s" "\<And>q. raw_queue s' q = (if q = r then raw_queue s r @ [a] else raw_queue s q)"
  shows "unread w s' q = (if q = r then unread w s r @ [a] else unread w s q)" "work_ok w s'"
proof -
  have "i < length (raw_queue s q)" if "w q = Some i" for i using assms(1) that by (simp add: work_ok_def)
  then show "unread w s' q = (if q = r then unread w s r @ [a] else unread w s q)"
    by (cases "w q") (auto simp: unread_def pq_remove_def assms(2))
  show "work_ok w s'" using assms by (auto simp: work_ok_def less_SucI)
qed

definition place_of :: "reader \<Rightarrow> place" where
  "place_of r = (case r of Handler k \<Rightarrow> InJob k | Sender \<Rightarrow> InOut)"

lemma at_place_of [simp]: "at_place held w s (place_of r) = set (unread w s r)"
  by (cases r) (simp_all add: place_of_def)

lemma place_of_cases:
  obtains "p = InQueue" | "p = IsHeld" | r where "p = place_of r"
proof (cases p)
  case (InJob k)
  with that(3)[of "Handler k"] show ?thesis by (simp add: place_of_def)
next
  case InOut
  with that(3)[of Sender] show ?thesis by (simp add: place_of_def)
qed (use that in simp_all)

lemma place_of_ne [simp]: "place_of r \<noteq> IsHeld" "place_of r \<noteq> InQueue" "IsHeld \<noteq> place_of r" "InQueue \<noteq> place_of r"
  "place_of r = place_of q \<longleftrightarrow> r = q"
  by (cases r; cases q; simp add: place_of_def)+

lemma own_push:
  assumes own: "own_inv gen held w s" and a: "a \<in> held"
    and same: "heap s' = heap s" "msgs_ok gen s'" "m_pRouterRulesEngine s' = m_pRouterRulesEngine s"
      "m_priority_queue s' = m_priority_queue s"
    and q: "\<And>q. raw_queue s' q = (if q = r then raw_queue s r @ [a] else raw_queue s q)"
  shows "own_inv gen (held - {a}) w s'"
proof (rule own_move[OF own same(1-3), where a = a and src = IsHeld and dst = "place_of r"])
  have w: "work_ok w s" using own by (simp add: own_inv_def)
  note wp = unread_push[where r = r, OF w q]
  have na: "a \<notin> at_place held w s p" if "p \<noteq> IsHeld" for p using own_only_held[OF own a that] .
  show "queues_distinct w s'"
    using own na[of "place_of r"] by (auto simp: own_inv_def queues_distinct_def wp(1) same(4))
  show "work_ok w s'" by (rule wp(2))
  show "at_place (held - {a}) w s' p \<subseteq> at_place held w s p \<union> {a}" for p
    by (cases p rule: place_of_cases) (auto simp: wp(1) same(4))
  show "a \<in> at_place held w s IsHeld" using a by simp
  show "a \<in> at_place (held - {a}) w s' (place_of r)" by (simp add: wp(1))
  show "a \<notin> at_place (held - {a}) w s' p" if "p \<noteq> place_of r" for p
    using that na[of p] by (cases p rule: place_of_cases) (auto simp: wp(1) same(4))
qed

lemma own_to_job:
  assumes own: "own_inv gen held w s" and a: "a \<in> held" and k: "m_pCommandHandlerFactory s k = Some d"
  shows "own_inv gen (held - {a}) w (s\<lparr>m_pCommandHandlerFactory :=
    (m_pCommandHandlerFactory s)(k \<mapsto> cCommandHandlerDecorator_OnProcess a d)\<rparr>)"
proof (rule own_push[OF own a, where r = "Handler k"])
  let ?s = "s\<lparr>m_pCommandHandlerFactory := (m_pCommandHandlerFactory s)(k \<mapsto> cCommandHandlerDecorator_OnProcess a d)\<rparr>"
  show "raw_queue ?s q = (if q = Handler k then raw_queue s (Handler k) @ [a] else raw_queue s q)" for q
    using k by (cases q) (auto simp: raw_job_def raw_out_def cCommandHandlerDecorator_OnProcess_def pq_push_def)
qed (use own in \<open>simp_all add: own_inv_def\<close>)

lemma own_to_out:
  assumes own: "own_inv gen held w s" and a: "a \<in> held"
    and q: "m_outbound_priority_queue q = raw_out s @ [a]"
  shows "own_inv gen (held - {a}) w (s\<lparr>m_pConnectionQueue := q\<rparr>)"
proof (rule own_push[OF own a, where r = Sender])
  show "raw_queue (s\<lparr>m_pConnectionQueue := q\<rparr>) x = (if x = Sender then raw_queue s Sender @ [a] else raw_queue s x)" for x
    using q by (cases x) (auto simp: raw_job_def raw_out_def)
qed (use own in \<open>simp_all add: own_inv_def\<close>)

text \<open>A reader takes the message on top, whose entry stays.\<close>

lemma own_top:
  assumes own: "own_inv gen held w s" and r: "w r = None" and i: "i < length (raw_queue s r)"
  shows "own_inv gen (insert (raw_queue s r ! i) held) (w(r \<mapsto> i)) s"
proof (rule own_move[OF own, where a = "raw_queue s r ! i" and src = "place_of r" and dst = IsHeld])
  let ?w = "w(r \<mapsto> i)" and ?a = "raw_queue s r ! i"
  have wr: "unread w s r = raw_queue s r" using r by (simp add: unread_def)
  have wt: "unread ?w s q = (if q = r then pq_remove i (raw_queue s r) else unread w s q)" for q
    by (simp add: unread_def)
  have d: "distinct (raw_queue s r)" using own wr by (metis own_inv_def queues_distinct_def)
  note sr = set_pq_remove[OF i d]
  have a: "?a \<in> at_place held w s (place_of r)" using i wr by simp
  have na: "?a \<notin> at_place held w s p" if "p \<noteq> place_of r" for p
    using own a that unfolding own_inv_def by (metis disjoint_iff)
  show "queues_distinct ?w s" using own distinct_pq_remove[OF d] by (auto simp: own_inv_def queues_distinct_def wt)
  show "work_ok ?w s" using own i by (auto simp: own_inv_def work_ok_def)
  show "at_place (insert ?a held) ?w s p \<subseteq> at_place held w s p \<union> {?a}" for p
    by (cases p rule: place_of_cases) (use sr wr in \<open>auto simp: wt\<close>)
  show "?a \<in> at_place held w s (place_of r)" by (rule a)
  show "?a \<notin> at_place (insert ?a held) ?w s p" if "p \<noteq> IsHeld" for p
    using that na[of p] sr by (cases p rule: place_of_cases) (auto simp: wt)
qed (use own in \<open>simp_all add: own_inv_def\<close>)

text \<open>The reader pops the entry: the other entries are as before.\<close>

lemma own_popped:
  assumes own: "own_inv gen held w s" and r: "w r = Some i"
    and same: "heap s' = heap s" "msgs_ok gen s'" "m_pRouterRulesEngine s' = m_pRouterRulesEngine s"
      "m_priority_queue s' = m_priority_queue s"
    and q: "\<And>q. raw_queue s' q = (if q = r then pq_remove i (raw_queue s r) else raw_queue s q)"
  shows "own_inv gen held (w(r := None)) s'"
proof -
  have wt: "unread (w(r := None)) s' = unread w s"
  proof
    show "unread (w(r := None)) s' x = unread w s x" for x using r by (simp add: unread_def q split: option.split)
  qed
  have p: "at_place held (w(r := None)) s' p = at_place held w s p" for p
    by (cases p) (simp_all add: wt same(4))
  have st: "in_state s' = in_state s" using same(1) by (simp add: in_state_def fun_eq_iff)
  have "work_ok (w(r := None)) s'" using own by (auto simp: own_inv_def work_ok_def q)
  then show ?thesis using own same(2-4) by (simp add: own_inv_def p st queues_distinct_def wt)
qed

lemma own_pop_job:
  assumes own: "own_inv gen held w s" and r: "w (Handler k) = Some i" and k: "m_pCommandHandlerFactory s k = Some d"
  shows "own_inv gen held (w(Handler k := None)) (s\<lparr>m_pCommandHandlerFactory :=
    (m_pCommandHandlerFactory s)(k \<mapsto> cCommandHandlerDecorator_pop i d)\<rparr>)"
proof (rule own_popped[OF own r])
  let ?s = "s\<lparr>m_pCommandHandlerFactory := (m_pCommandHandlerFactory s)(k \<mapsto> cCommandHandlerDecorator_pop i d)\<rparr>"
  show "raw_queue ?s q = (if q = Handler k then pq_remove i (raw_queue s (Handler k)) else raw_queue s q)" for q
    using k by (cases q) (auto simp: raw_job_def raw_out_def cCommandHandlerDecorator_pop_def)
qed (use own in \<open>simp_all add: own_inv_def\<close>)

lemma own_pop_out:
  assumes own: "own_inv gen held w s" and r: "w Sender = Some i" and q: "m_outbound_priority_queue q = pq_remove i (raw_out s)"
  shows "own_inv gen held (w(Sender := None)) (s\<lparr>m_pConnectionQueue := q\<rparr>)"
proof (rule own_popped[OF own r])
  show "raw_queue (s\<lparr>m_pConnectionQueue := q\<rparr>) x = (if x = Sender then pq_remove i (raw_queue s Sender) else raw_queue s x)" for x
    using q by (cases x) (auto simp: raw_job_def raw_out_def)
qed (use own in \<open>simp_all add: own_inv_def\<close>)

section \<open>The message queue as holder\<close>

lemma own_same_lists:
  assumes "own_inv gen held w s" "msgs_ok gen s'" "engine_inv (m_pRouterRulesEngine s')" "heap s' = heap s"
    "m_priority_queue s' = m_priority_queue s" "raw_job s' = raw_job s" "raw_out s' = raw_out s"
  shows "own_inv gen held w s'"
proof -
  have "in_state s' = in_state s" using assms(4) by (simp add: in_state_def fun_eq_iff)
  then show ?thesis using own_keep[of gen held w s s' held] assms unfolding own_inv_def by auto
qed

lemma own_deliver:
  assumes own: "own_inv gen held w s" and a: "a \<in> held" and run: "deliver h a s = Inr s'"
  shows "own_inv gen (held - {a}) w s'"
proof -
  obtain s1 x where s1: "inc_delivered s = Inr s1" "s1 = s\<lparr>m_pSysMetrics := x\<rparr>"
    using run by (auto simp: deliver_def inc_delivered_def res_simps split: option.splits)
  have own1: "own_inv gen held w s1" by (rule own_same_lists[OF own]) (use own s1(2) in \<open>simp_all add: own_inv_def\<close>)
  obtain k d where "m_pCommandHandlerFactory s1 k = Some d"
    "s' = s1\<lparr>m_pCommandHandlerFactory := (m_pCommandHandlerFactory s1)(k \<mapsto> cCommandHandlerDecorator_OnProcess a d)\<rparr>"
    using run s1(1) by (auto simp: deliver_def handler_OnProcess_def res_simps split: option.splits)
  then show ?thesis using own_to_job[OF own1 a] by simp
qed

lemma own_internal:
  assumes own: "own_inv gen held w s" and a: "a \<in> held" and t: "heap s a = Some m" "MsgConnectionType m = MSG_CT_INTERNAL"
    and run: "cMsgQueue_ProcessInternalMessage a s = Inr s'"
  shows "own_inv gen (held - {a}) w s'"
proof (cases "cCommandHandlerFactory_GetCommandHandler (cMsg_GetCommand m) (m_pCommandHandlerFactory s) = None")
  case True
  then have "upd_msg a (cMsg_SetMsgState MSG_STATE_UNDELIVERED) s = Inr s'"
    using run t(1) by (simp add: cMsgQueue_ProcessInternalMessage_def get_msg_def)
  then show ?thesis
    by (rule own_upd[OF own a]) (use t in \<open>auto simp: cMsg_SetMsgState_def msg_ready_def contents_def\<close>)
next
  case False
  then show ?thesis using run t(1) own_deliver[OF own a] by (auto simp: cMsgQueue_ProcessInternalMessage_def get_msg_def Let_def)
qed

lemma own_handle:
  assumes own: "own_inv gen held w s" and a: "a \<in> held" and run: "inbound_handle h a s = Inr s'"
  shows "own_inv gen (held - {a}) w s'"
proof (cases "h = None")
  case False
  then have "deliver h a s = Inr s'" using run unfolding inbound_handle_def by (simp only: if_False)
  then show ?thesis by (rule own_deliver[OF own a])
next
  case True
  obtain m where m: "heap s a = Some m" using own_held[OF own a] by blast
  obtain ps sv where q: "cService_QueryServiceFirst (Some (cMsg_GetCommand m)) (m_pServiceEngine s) = (ps, sv)" by force
  let ?s1 = "s\<lparr>m_pServiceEngine := sv\<rparr>"
  have own1: "own_inv gen held w ?s1" by (rule own_same_lists[OF own]) (use own in \<open>simp_all add: own_inv_def\<close>)
  obtain f s2 where u: "upd_msg a f ?s1 = Inr s2" "f = cMsg_SetRemoteHandler ps \<or> f = cMsg_SetCommand ''MC.ERROR''"
    and d: "deliver (cCommandHandlerFactory_GetCommandHandler ''MC'' (m_pCommandHandlerFactory s)) a s2 = Inr s'"
    using run True m q by (auto simp: inbound_handle_def get_msg_def res_simps Let_def split: if_splits)
  have "own_inv gen held w s2"
    by (rule own_upd[OF own1 a u(1)])
      (use u(2) in \<open>auto simp: cMsg_SetRemoteHandler_def cMsg_SetCommand_def msg_inv_def msg_ready_def contents_def\<close>)
  then show ?thesis using own_deliver a d by blast
qed

lemma notify_dispatch:
  assumes "msg_inv n" "msg_ready n"
  shows "let n' = cMsg_DispatchMsg nm ad (notify_fields t n) in msg_inv n' \<and> msg_ready n' \<and>
    MsgConnectionType n' \<noteq> MSG_CT_NOTSET"
  using assms
  by (auto simp: Let_def cMsg_DispatchMsg_def notify_fields_def setter_defs cMsg_UpdateMsgConnectionType_def
      msg_inv_def msg_ready_def contents_def cMsg_SetBench_def)

lemma own_notify:
  assumes own: "own_inv gen held w s" and g: "uuid_spec gen" "e_gen ev = gen" "e_new ev"
    and run: "cMsgQueue_PostNotifyMessage ev b s = Inr s'"
  shows "own_inv gen held w s'"
proof -
  obtain a s1 t where s1: "cMsgPool_GetMessage ev s = Inr (a, s1)" "get_msg b s1 = Inr t"
    "upd_msg a (\<lambda>n. cMsg_DispatchMsg (e_name ev) (e_addr ev) (notify_fields t n)) s1 = Inr s'"
    using run by (auto simp: cMsgQueue_PostNotifyMessage_def res_simps)
  have own1: "own_inv gen (insert a held) w s1" and na: "a \<notin> held"
    using own_take[OF own g s1(1)] by (auto dest: spec[of _ IsHeld])
  have "own_inv gen (insert a held - {a}) w s'"
    by (rule own_upd[OF own1 _ s1(3)]) (use notify_dispatch in \<open>auto simp: Let_def\<close>)
  then show ?thesis using na by simp
qed

lemma same_rules_inv:
  assumes "same_rules e e'" "engine_inv e"
  shows "engine_inv e'"
proof -
  have l: "length (m_RuleSets e') = length (m_RuleSets e)"
    using assms(1) by (auto simp: same_rules_def dest: map_eq_imp_length_eq)
  have m: "map m_RuleSet (m_RuleSets e') = map m_RuleSet (m_RuleSets e)" "m_RulesMap e' = m_RulesMap e"
    using assms(1) by (simp_all add: same_rules_def)
  have ne: "(\<forall>rs \<in> set x. m_RuleSet rs \<noteq> []) \<longleftrightarrow> [] \<notin> set (map m_RuleSet x)" for x
    by (simp add: image_iff) metis
  show ?thesis using assms(2) unfolding engine_inv_def l m(2) ne m(1) by blast
qed

lemma own_inbound:
  assumes own: "own_inv gen held w s" and a: "a \<in> held" and g: "uuid_spec gen" "e_gen ev = gen" "e_new ev"
    and run: "cMsgQueue_ProcessInboundMessage ev rx a s = Inr s'"
  shows "own_inv gen (held - {a}) w s'"
proof -
  obtain m where m: "heap s a = Some m" using own_held[OF own a] by blast
  obtain s1 where s1: "own_inv gen held w s1"
    and rest: "bindE (get_msg a s1) (\<lambda>m.
     if starts_with ''MCP/'' (cMsg_GetCommand m)
     then deliver (cCommandHandlerFactory_GetCommandHandler ''MC'' (m_pCommandHandlerFactory s1)) a s1
     else
       bindE (cMsgRouterRulesEngine_Search rx (m_pRouterRulesEngine s1) m) (\<lambda>(Match, e, m').
       bindE (upd_msg a (\<lambda>_. m') (s1\<lparr>m_pRouterRulesEngine := e\<rparr>)) (\<lambda>s.
       inbound_handle
         (case Match of
            Some r \<Rightarrow>
              if r \<noteq> [] then cCommandHandlerFactory_GetCommandHandler (c_prefix r) (m_pCommandHandlerFactory s)
              else cCommandHandlerFactory_GetCommandHandler (cMsg_GetCommand m') (m_pCommandHandlerFactory s)
          | None \<Rightarrow> cCommandHandlerFactory_GetCommandHandler (cMsg_GetCommand m') (m_pCommandHandlerFactory s))
         a s))) = Inr s'"
  proof (cases "cMsg_GetNotifyAction m = MSG_NOTIFY_ACTION_YES")
    case False
    then show ?thesis using that[OF own] run m by (simp add: cMsgQueue_ProcessInboundMessage_def get_msg_def)
  next
    case True
    then obtain s0 s1 where s0: "cMsgQueue_PostNotifyMessage ev a s = Inr s0"
      and s1: "upd_msg a (cMsg_SetNotifyAction MSG_NOTIFY_ACTION_NO) s0 = Inr s1"
      and r: "cMsgQueue_ProcessInboundMessage ev rx a s = bindE (get_msg a s1) (\<lambda>m.
     if starts_with ''MCP/'' (cMsg_GetCommand m)
     then deliver (cCommandHandlerFactory_GetCommandHandler ''MC'' (m_pCommandHandlerFactory s1)) a s1
     else
       bindE (cMsgRouterRulesEngine_Search rx (m_pRouterRulesEngine s1) m) (\<lambda>(Match, e, m').
       bindE (upd_msg a (\<lambda>_. m') (s1\<lparr>m_pRouterRulesEngine := e\<rparr>)) (\<lambda>s.
       inbound_handle
         (case Match of
            Some r \<Rightarrow>
              if r \<noteq> [] then cCommandHandlerFactory_GetCommandHandler (c_prefix r) (m_pCommandHandlerFactory s)
              else cCommandHandlerFactory_GetCommandHandler (cMsg_GetCommand m') (m_pCommandHandlerFactory s)
          | None \<Rightarrow> cCommandHandlerFactory_GetCommandHandler (cMsg_GetCommand m') (m_pCommandHandlerFactory s))
         a s)))"
      using run m by (auto simp: cMsgQueue_ProcessInboundMessage_def get_msg_def bindE_eq_Inr)
    have "own_inv gen held w s0" by (rule own_notify[OF own g s0])
    then have "own_inv gen held w s1"
      by (rule own_upd[OF _ a s1])
        (auto simp: cMsg_SetNotifyAction_def msg_inv_def msg_ready_def contents_def)
    then show ?thesis using that r run by simp
  qed
  obtain m1 where m1: "heap s1 a = Some m1" "MsgState m1 = MSG_STATE_INUSE" "msg_inv m1" "msg_ready m1"
    using own_held[OF s1 a] by blast
  show ?thesis
  proof (cases "starts_with ''MCP/'' (cMsg_GetCommand m1)")
    case True
    then show ?thesis using rest m1(1) own_deliver[OF s1 a] by (simp add: get_msg_def)
  next
    case False
    have e1: "engine_inv (m_pRouterRulesEngine s1)" using s1 by (simp add: own_inv_def)
    obtain x where x: "cMsgRouterRulesEngine_Search rx (m_pRouterRulesEngine s1) m1 = Inr x"
      using rest m1(1) False by (auto simp: get_msg_def bindE_eq_Inr)
    obtain r e m2 where se: "cMsgRouterRulesEngine_Search rx (m_pRouterRulesEngine s1) m1 = Inr (r, e, m2)"
      "same_rules (m_pRouterRulesEngine s1) e" "same_text m1 m2"
      using Search_total[OF x m1(4) e1] x by blast
    let ?s2 = "s1\<lparr>m_pRouterRulesEngine := e\<rparr>"
    have own2: "own_inv gen held w ?s2"
      by (rule own_same_lists[OF s1]) (use s1 same_rules_inv[OF se(2) e1] in \<open>simp_all add: own_inv_def\<close>)
    obtain s3 where s3: "upd_msg a (\<lambda>_. m2) ?s2 = Inr s3" using m1(1) by (simp add: upd_msg_def)
    have "own_inv gen held w s3"
      by (rule own_upd[OF own2 a s3])
        (use m1 se(3) same_text_ready[OF se(3) m1(4)] in \<open>auto simp: same_text_def msg_inv_def\<close>)
    then show ?thesis using rest m1(1) False se(1) s3 own_handle[of gen held w s3 a] a by (simp add: get_msg_def)
  qed
qed

lemma SendMsg_out:
  "cConnectionQueue_SendMsg a m q = Inr q' \<Longrightarrow> m_outbound_priority_queue q' = m_outbound_priority_queue q @ [a]"
  by (auto simp: cConnectionQueue_SendMsg_def pq_push_def Let_def split: if_splits sum.splits)

lemma own_outbound:
  assumes own: "own_inv gen held w s" and a: "a \<in> held" and run: "cMsgQueue_ProcessOutboundMessage a s = Inr s'"
  shows "own_inv gen (held - {a}) w s'"
proof -
  obtain m where m: "heap s a = Some m" using own_held[OF own a] by blast
  show ?thesis
  proof (cases "cMsg_GetReplyAction m = MSG_REPLY_ACTION_NONE")
    case True
    then have "upd_msg a cMsg_MarkProcessed s = Inr s'" using run m by (simp add: cMsgQueue_ProcessOutboundMessage_def get_msg_def)
    then show ?thesis
      by (rule own_upd[OF own a])
        (auto simp: cMsg_MarkProcessed_def cMsg_CloseIfCloned_def msg_ready_def contents_def)
  next
    case False
    then obtain q where "cConnectionQueue_SendMsg a m (m_pConnectionQueue s) = Inr q" "s' = s\<lparr>m_pConnectionQueue := q\<rparr>"
      using run m by (auto simp: cMsgQueue_ProcessOutboundMessage_def get_msg_def res_simps)
    then show ?thesis using own_to_out[OF own a, of q] SendMsg_out by (simp add: raw_out_def)
  qed
qed

lemma own_process:
  assumes own: "own_inv gen held w s" and i: "i < length (m_priority_queue s)"
    and g: "uuid_spec gen" "e_gen ev = gen" "e_new ev"
    and run: "cMsgQueue_ProcessPriorityQueue ev rx i s = Inr s'"
  shows "own_inv gen held w s'"
proof -
  let ?a = "m_priority_queue s ! i" and ?s = "s\<lparr>m_priority_queue := pq_remove i (m_priority_queue s)\<rparr>"
  have own1: "own_inv gen (insert ?a held) w ?s" by (rule own_pop[OF own i])
  then obtain m where m: "heap ?s ?a = Some m" using own_held[OF own1] by blast
  have na: "?a \<notin> held" using own i unfolding own_inv_def by (metis at_place.simps(1,4) disjoint_iff nth_mem place.distinct(5))
  have "own_inv gen (insert ?a held - {?a}) w s'"
  proof (cases "MsgConnectionType m")
    case MSG_CT_INTERNAL
    then show ?thesis using run m own_internal[OF own1 insertI1 m] by (simp add: cMsgQueue_ProcessPriorityQueue_def get_msg_def getter_defs)
  qed (use run m own_outbound[OF own1 insertI1] own_inbound[OF own1 insertI1 g] in
      \<open>auto simp: cMsgQueue_ProcessPriorityQueue_def get_msg_def getter_defs\<close>)
  then show ?thesis using na by simp
qed

lemma own_pending:
  assumes own: "own_inv gen held w s" and run: "cMsgQueue_ProcessPendingMessages now s = Inr s'"
  shows "own_inv gen held w s'"
proof -
  have inv: "sys_inv gen s" "pend_ok s" "\<forall>m \<in> ran (heap s). msg_ready m" using own by (simp_all add: own_inv_def msgs_ok_def)
  let ?new = "filter (\<lambda>a. in_state s a MSG_STATE_PENDING) (m_Messages (pool s))"
  obtain s1 where "cMsgQueue_ProcessPendingMessages now s = Inr s1" "sys_inv gen s1" "pend_ok s1"
    "heap s1 = (\<lambda>a. map_option (pend now) (heap s a))" "m_priority_queue s1 = m_priority_queue s @ ?new" "same_rest s s1"
    using pending_pass[OF inv(1,2)] by blast
  then have s': "sys_inv gen s'" "pend_ok s'" "heap s' = (\<lambda>a. map_option (pend now) (heap s a))"
    "m_priority_queue s' = m_priority_queue s @ ?new" "same_rest s s'" using run by simp_all
  have lists: "raw_job s' = raw_job s" "raw_out s' = raw_out s" "m_pRouterRulesEngine s' = m_pRouterRulesEngine s"
    using s'(5) by (simp_all add: same_rest_def raw_job_def raw_out_def fun_eq_iff)
  have keep: "in_state s' a MSG_STATE_INUSE" if "in_state s a MSG_STATE_INUSE \<or> in_state s a MSG_STATE_PENDING" for a
  proof -
    note st = that
    obtain m where "heap s a = Some m" "MsgState m = MSG_STATE_INUSE \<or> MsgState m = MSG_STATE_PENDING"
      using st by (auto simp: in_state_def)
    then show ?thesis unfolding in_state_def s'(3) by (auto simp: pend_def)
  qed
  have new: "a \<notin> at_place held w s p" if "a \<in> set ?new" for a p
  proof
    assume "a \<in> at_place held w s p"
    then have "in_state s a MSG_STATE_INUSE" using own unfolding own_inv_def by blast
    then show False using that in_state_fun by fastforce
  qed
  have pl: "at_place held w s' p = (if p = InQueue then at_place held w s p \<union> set ?new else at_place held w s p)" for p
    by (cases p) (simp_all add: s'(4) same_queues[OF lists(1,2)])
  have "queues_distinct w s'"
    using own new[of _ InQueue] inv(1) s'(4) same_queues[OF lists(1,2)] by (auto simp: own_inv_def queues_distinct_def sys_inv_def)
  moreover have "msg_ready (pend now m)" if "msg_ready m" for m
    using that by (simp add: msg_ready_def contents_def pend_def retry_msg_def setter_defs getter_defs Let_def split: eMsgState.splits)
  then have "msgs_ok gen s'" using s'(1-3) inv(3) by (auto simp: msgs_ok_def ran_def)
  moreover have "in_state s' a MSG_STATE_INUSE" if "a \<in> at_place held w s' p" for p a
  proof -
    have "a \<in> at_place held w s p \<or> a \<in> set ?new" using that pl by (auto split: if_splits)
    then have "in_state s a MSG_STATE_INUSE \<or> in_state s a MSG_STATE_PENDING"
    proof
      assume "a \<in> at_place held w s p"
      then show ?thesis using own unfolding own_inv_def by blast
    qed simp
    then show ?thesis by (rule keep)
  qed
  moreover have "at_place held w s' p \<inter> at_place held w s' q = {}" if "p \<noteq> q" for p q
  proof -
    have "at_place held w s p \<inter> at_place held w s q = {}" using own that unfolding own_inv_def by blast
    then show ?thesis using new that unfolding pl by auto
  qed
  ultimately show ?thesis using own same_queues[OF lists(1,2)] lists(3) by (simp add: own_inv_def)
qed

text \<open>A message that nobody has may change its state.\<close>

lemma own_other:
  assumes own: "own_inv gen held w s" and m: "heap s a = Some m" "MsgState m \<noteq> MSG_STATE_INUSE"
    and h: "heap s' = heap s \<or> heap s' = (heap s)(a := x)" and ok: "msgs_ok gen s'"
    and same: "m_priority_queue s' = m_priority_queue s" "raw_job s' = raw_job s" "raw_out s' = raw_out s"
      "m_pRouterRulesEngine s' = m_pRouterRulesEngine s"
  shows "own_inv gen held w s'"
proof (rule own_keep[OF own ok _ subset_refl same(1-3)])
  show "engine_inv (m_pRouterRulesEngine s')" using own same(4) by (simp add: own_inv_def)
  show "in_state s' b MSG_STATE_INUSE" if "b \<in> at_place held w s p" for p b
  proof -
    have b: "in_state s b MSG_STATE_INUSE" using own that unfolding own_inv_def by blast
    then have "b \<noteq> a" using m by (auto simp: in_state_def)
    with b h show ?thesis by (auto simp: in_state_def)
  qed
qed

lemma msgs_ok_it [simp]:
  "msgs_ok gen (s\<lparr>pool := (pool s)\<lparr>m_it := i\<rparr>\<rparr>) = msgs_ok gen s"
  "msgs_ok gen (s\<lparr>pool := (pool s)\<lparr>m_bLocked := b\<rparr>\<rparr>) = msgs_ok gen s"
  by (simp_all add: msgs_ok_def sys_inv_pool_it sys_inv_lock)

lemma own_it [simp]:
  "own_inv gen held w (s\<lparr>pool := (pool s)\<lparr>m_it := i\<rparr>\<rparr>) = own_inv gen held w s"
  "own_inv gen held w (s\<lparr>pool := (pool s)\<lparr>m_bLocked := b\<rparr>\<rparr>) = own_inv gen held w s"
  "own_inv gen held w (s\<lparr>pool := (pool s)\<lparr>m_it := i, m_bLocked := b\<rparr>\<rparr>) = own_inv gen held w s"
proof -
  have "msgs_ok gen (s\<lparr>pool := (pool s)\<lparr>m_it := i, m_bLocked := b\<rparr>\<rparr>) = msgs_ok gen s"
    by (simp add: msgs_ok_def sys_inv_def live_def in_state_def)
  moreover have "at_place held w (s\<lparr>pool := x\<rparr>) p = at_place held w s p" for x p by (cases p) simp_all
  ultimately show "own_inv gen held w (s\<lparr>pool := (pool s)\<lparr>m_it := i\<rparr>\<rparr>) = own_inv gen held w s"
    "own_inv gen held w (s\<lparr>pool := (pool s)\<lparr>m_bLocked := b\<rparr>\<rparr>) = own_inv gen held w s"
    "own_inv gen held w (s\<lparr>pool := (pool s)\<lparr>m_it := i, m_bLocked := b\<rparr>\<rparr>) = own_inv gen held w s"
    by (simp_all add: own_inv_def queues_distinct_def)
qed

lemma walk_rule:
  assumes "walk f n a s = Inr s'" "F a s" and body: "\<And>a s s1. F a s \<Longrightarrow> f a s = Inr s1 \<Longrightarrow> G s1"
    and nxt: "\<And>s r p. G s \<Longrightarrow> cMsgPool_GetNext (pool s) = Inr (r, p) \<Longrightarrow>
      (case r of None \<Rightarrow> H (s\<lparr>pool := p\<rparr>) | Some b \<Rightarrow> F b (s\<lparr>pool := p\<rparr>))"
  shows "H s'"
  using assms(1,2)
proof (induction n arbitrary: a s)
  case (Suc n)
  then obtain s1 r p where 1: "f a s = Inr s1" "cMsgPool_GetNext (pool s1) = Inr (r, p)"
    "(case r of None \<Rightarrow> Inr (s1\<lparr>pool := p\<rparr>) | Some b \<Rightarrow> walk f n b (s1\<lparr>pool := p\<rparr>)) = Inr s'"
    by (auto simp: res_simps Let_def)
  with nxt[OF body[OF Suc.prems(2) 1(1)] 1(2)] Suc.IH show ?case by (cases r) auto
qed simp

text \<open>While a flush stands at \<open>a\<close>, only messages before \<open>a\<close> are on the free stack.\<close>

definition flush_at :: "uuid_gen \<Rightarrow> msg_addr set \<Rightarrow> work \<Rightarrow> msg_addr \<Rightarrow> cMsgQueue \<Rightarrow> bool" where
  "flush_at gen held w a s \<longleftrightarrow> own_inv gen held w s \<and> m_bLocked (pool s) \<and>
     (\<exists>us vs. m_Messages (pool s) = us @ a # vs \<and> m_it (pool s) = ItAt a \<and> set (m_FreeMsgStack (pool s)) \<subseteq> set us)"

definition flush_after :: "uuid_gen \<Rightarrow> msg_addr set \<Rightarrow> work \<Rightarrow> cMsgQueue \<Rightarrow> bool" where
  "flush_after gen held w s \<longleftrightarrow> own_inv gen held w s \<and> m_bLocked (pool s) \<and>
     (m_it (pool s) = ItEnd \<or>
      (\<exists>us a vs. m_Messages (pool s) = us @ a # vs \<and> m_it (pool s) = ItAt a \<and>
         set (m_FreeMsgStack (pool s)) \<subseteq> set (us @ [a])))"

lemma own_sys: "own_inv gen held w s \<Longrightarrow> sys_inv gen s" by (simp add: own_inv_def msgs_ok_def)

lemma flush_body_keeps:
  assumes F: "flush_at gen held w a s" and run: "flush_body now a s = Inr s1"
  shows "flush_after gen held w s1"
proof -
  obtain us vs where l: "m_Messages (pool s) = us @ a # vs" "m_it (pool s) = ItAt a" "set (m_FreeMsgStack (pool s)) \<subseteq> set us"
    and own: "own_inv gen held w s" and lock: "m_bLocked (pool s)" using F by (auto simp: flush_at_def)
  have inv: "sys_inv gen s" by (rule own_sys[OF own])
  have d: "distinct (us @ a # vs)" using inv l(1) by (simp add: sys_inv_def)
  have "a \<in> set (m_Messages (pool s))" using l(1) by simp
  then obtain m where m: "heap s a = Some m" using inv by (auto simp: sys_inv_def live_def)
  then have mi: "msg_inv m" "msg_ready m" "m \<in> ran (heap s)"
    using own by (auto simp: own_inv_def msgs_ok_def sys_inv_def ran_def)
  have na: "a \<notin> set (m_FreeMsgStack (pool s))" using l(3) d by auto
  show ?thesis
  proof (cases "idle now m")
    case False
    let ?h = "(heap s)(a \<mapsto> flushed m)" and ?st = "(if reusable m then [a] else []) @ m_FreeMsgStack (pool s)"
    have s1: "s1 = s\<lparr>heap := ?h, pool := (pool s)\<lparr>m_FreeMsgStack := ?st\<rparr>\<rparr>"
      using run flush_body_eq[of s a m now] m False by simp
    have "own_inv gen held w s1"
    proof (cases "reusable m")
      case True
      have "sys_inv gen (s\<lparr>heap := ?h\<rparr>)" using sys_inv_upd[OF inv, of a "flushed m"] m na mi(1)
        by (auto simp: live_Some msg_inv_flushed)
      then have "sys_inv gen s1" using True na s1 by (auto simp: sys_inv_def live_def in_state_def flushed_def)
      moreover have "pend_ok s1" using own True s1 by (auto simp: own_inv_def msgs_ok_def pend_ok_def flushed_def)
      moreover have "msg_ready (flushed m)" using mi(2) by (simp add: flushed_def msg_ready_def contents_def)
      ultimately have "msgs_ok gen s1" using own s1 by (auto simp: own_inv_def msgs_ok_def ran_def)
      moreover have "MsgState m \<noteq> MSG_STATE_INUSE" using True by (auto simp: reusable_def)
      ultimately show ?thesis using own_other[OF own m, of s1 "Some (flushed m)"] s1 by simp
    next
      case False
      then have "?h = heap s" using m by (auto simp: flushed_def)
      then show ?thesis using s1 own False by simp
    qed
    moreover have "set ?st \<subseteq> set (us @ [a])" using l(3) by auto
    ultimately show ?thesis using lock l s1 by (auto simp: flush_after_def)
  next
    case True
    then have st: "MsgState m = MSG_STATE_INACTIVE" by (simp add: idle_def)
    have "flush_body now a s = bindE (cMsgPool_DeleteCurrent (pool s)) (\<lambda>p. Inr (s\<lparr>pool := p, heap := (heap s)(a := None)\<rparr>))"
      using m True by (simp add: flush_body_def get_msg_def upd_msg_def getter_defs cMsg_SetMsgState_def idle_def
          delete_msg_def Let_def)
    then obtain p where p: "cMsgPool_DeleteCurrent (pool s) = Inr p" "s1 = s\<lparr>pool := p, heap := (heap s)(a := None)\<rparr>"
      using run by (cases "cMsgPool_DeleteCurrent (pool s)") auto
    have r: "rest_after a (us @ a # vs) = vs" "remove1 a (us @ a # vs) = us @ vs"
      using d by (auto simp: rest_after_split remove1_append)
    obtain v ws where vs: "vs = v # ws"
      using p(1) l(1,2) r by (cases vs) (auto simp: cMsgPool_DeleteCurrent_def first_it_def it_incr_def Let_def)
    have v: "v \<notin> set us" using d vs by auto
    have p': "p = (pool s)\<lparr>m_Messages := us @ v # ws, m_it := first_it ws\<rparr>"
      using p(1) l(1,2) r vs it_incr_split[OF v, of ws]
      by (simp add: cMsgPool_DeleteCurrent_def first_it_def Let_def)
    have "set (us @ v # ws) = live s - {a}" using inv l(1) d vs by (auto simp: sys_inv_def)
    then have "sys_inv gen s1" using inv l d vs na p(2) p'
      by (auto simp: sys_inv_def live_def in_state_def ran_def)
    moreover have "pend_ok s1" using own p(2) by (auto simp: own_inv_def msgs_ok_def pend_ok_def)
    ultimately have "msgs_ok gen s1" using own p(2) by (auto simp: own_inv_def msgs_ok_def ran_def)
    then have "own_inv gen held w s1" using own_other[OF own m, of s1 None] st p(2) by simp
    moreover have "m_it p = ItEnd \<or> (\<exists>us' a' vs'. m_Messages p = us' @ a' # vs' \<and> m_it p = ItAt a' \<and>
        set (m_FreeMsgStack p) \<subseteq> set (us' @ [a']))"
    proof (cases ws)
      case Nil
      then show ?thesis using p' by (simp add: first_it_def)
    next
      case (Cons w ws')
      then have "m_Messages p = (us @ [v]) @ w # ws' \<and> m_it p = ItAt w \<and> set (m_FreeMsgStack p) \<subseteq> set ((us @ [v]) @ [w])"
        using p' l(3) by (auto simp: first_it_def)
      then show ?thesis by blast
    qed
    ultimately show ?thesis using lock p(2) p' by (simp add: flush_after_def)
  qed
qed

lemma flush_next_keeps:
  assumes G: "flush_after gen held w s" and run: "cMsgPool_GetNext (pool s) = Inr (r, p)"
  shows "case r of None \<Rightarrow> own_inv gen held w (s\<lparr>pool := p\<rparr>) | Some b \<Rightarrow> flush_at gen held w b (s\<lparr>pool := p\<rparr>)"
proof -
  have own: "own_inv gen held w s" and lock: "m_bLocked (pool s)" using G by (simp_all add: flush_after_def)
  have "m_it (pool s) \<noteq> ItEnd" using run lock by (auto simp: cMsgPool_GetNext_def it_incr_def)
  then obtain us a vs where l: "m_Messages (pool s) = us @ a # vs" "m_it (pool s) = ItAt a"
    "set (m_FreeMsgStack (pool s)) \<subseteq> set (us @ [a])" using G by (auto simp: flush_after_def)
  have "a \<notin> set us" using own_sys[OF own] l(1) by (simp add: sys_inv_def)
  from GetNext_split[OF lock l(1) this l(2)] run
  have p: "r = (case vs of [] \<Rightarrow> None | b # _ \<Rightarrow> Some b)" "p = (pool s)\<lparr>m_it := first_it vs\<rparr>" by simp_all
  show ?thesis
  proof (cases vs)
    case Nil
    then show ?thesis using p own by simp
  next
    case (Cons b bs)
    then have "m_Messages p = (us @ [a]) @ b # bs" "m_it p = ItAt b" "set (m_FreeMsgStack p) \<subseteq> set (us @ [a])"
      using p(2) l by (simp_all add: first_it_def)
    then have "\<exists>us vs. m_Messages p = us @ b # vs \<and> m_it p = ItAt b \<and> set (m_FreeMsgStack p) \<subseteq> set us" by blast
    then show ?thesis using p lock own Cons by (simp add: flush_at_def)
  qed
qed

lemma own_flush:
  assumes own: "own_inv gen held w s" and run: "cMsgQueue_FlushMessages now s = Inr s'"
  shows "own_inv gen held w s'"
proof -
  let ?s = "upd_pool cMsgPool_FlushFreeStack (upd_pool cMsgPool_Lock s)"
  have p: "at_place held w ?s q = at_place held w s q" for q by (cases q) (simp_all add: upd_pool_def)
  have own1: "own_inv gen held w ?s"
    using own unfolding own_inv_def p
    by (auto simp: msgs_ok_def sys_inv_def live_def in_state_def cMsgPool_FlushFreeStack_def queues_distinct_def upd_pool_def
        pend_ok_def cMsgPool_Lock_def)
  have lock: "m_bLocked (pool ?s)" by (simp add: cMsgPool_FlushFreeStack_def)
  show ?thesis
  proof (cases "m_Messages (pool ?s)")
    case Nil
    then have "s' = ?s\<lparr>pool := (pool ?s)\<lparr>m_it := ItEnd, m_bLocked := False\<rparr>\<rparr>"
      using run unfolding cMsgQueue_FlushMessages_def pool_loop_def GetHead_locked[OF lock]
      by (simp add: cMsgPool_Unlock_def)
    then show ?thesis using own1 by (simp only: own_it)
  next
    case (Cons a l)
    let ?t = "?s\<lparr>pool := (pool ?s)\<lparr>m_it := ItAt a\<rparr>\<rparr>"
    have "m_Messages (pool ?t) = [] @ a # l \<and> m_it (pool ?t) = ItAt a \<and> set (m_FreeMsgStack (pool ?t)) \<subseteq> set []"
      using Cons by (simp add: cMsgPool_FlushFreeStack_def)
    moreover have "own_inv gen held w ?t" using own1 by (simp only: own_it)
    moreover have "m_bLocked (pool ?t)" using lock by simp
    ultimately have "flush_at gen held w a ?t" unfolding flush_at_def by blast
    moreover obtain s1 where s1: "walk (flush_body now) (length (m_Messages (pool ?s))) a ?t = Inr s1" "s' = upd_pool cMsgPool_Unlock s1"
      using run Cons unfolding cMsgQueue_FlushMessages_def pool_loop_def GetHead_locked[OF lock] by (auto simp: res_simps)
    ultimately have "own_inv gen held w s1"
      using walk_rule[of "flush_body now" _ a ?t s1 "flush_at gen held w" "flush_after gen held w" "own_inv gen held w"]
        flush_body_keeps flush_next_keeps by blast
    then show ?thesis using s1(2) by (simp add: upd_pool_def cMsgPool_Unlock_def)
  qed
qed

lemma flush_db_keeps:
  assumes own: "own_inv gen held w s" and run: "flush_db_body step a s = Inr s1"
  shows "own_inv gen held w s1"
proof -
  obtain m where m: "heap s a = Some m" using run by (auto simp: flush_db_body_def get_msg_def split: option.splits)
  show ?thesis
  proof (cases "MsgState m \<in> {MSG_STATE_UNDELIVERED, MSG_STATE_DELIVERED, MSG_STATE_PROCESSED} \<and> step (row_of m)")
    case False
    then have "s1 = s" using run m by (auto simp: flush_db_body_def get_msg_def getter_defs Let_def split: if_splits)
    then show ?thesis using own by simp
  next
    case True
    let ?m = "m\<lparr>MsgState := MSG_STATE_MARKFORREUSE\<rparr>" and ?s = "s\<lparr>m_dbFile := m_dbFile s @ [row_of m]\<rparr>"
    have s1: "s1 = ?s\<lparr>heap := (heap s)(a \<mapsto> ?m)\<rparr>"
      using run m True by (auto simp: flush_db_body_def get_msg_def getter_defs upd_msg_def cMsg_SetMsgState_def Let_def)
    have ok: "msgs_ok gen ?s" using own by (simp add: own_inv_def)
    have "in_state ?s a (MsgState m)" using m by (simp add: in_state_def)
    then have na: "a \<notin> set (m_FreeMsgStack (pool ?s))"
      using inuse_not_free[of gen ?s a "MsgState m"] True ok by (auto simp: msgs_ok_def)
    have mi: "msg_inv m" "msg_ready m" using own m by (auto simp: own_inv_def msgs_ok_def sys_inv_def ran_def)
    have "sys_inv gen s1" unfolding s1
      using sys_inv_upd[of gen ?s a ?m] ok m na mi(1) by (auto simp: msgs_ok_def live_Some)
    moreover have "pend_ok s1" using ok s1 by (auto simp: msgs_ok_def pend_ok_def)
    moreover have "msg_ready ?m" using mi(2) by (simp add: msg_ready_def contents_def)
    ultimately have "msgs_ok gen s1" using ok s1 by (auto simp: msgs_ok_def ran_def)
    then show ?thesis using own_other[OF own m, of s1 "Some ?m"] True s1 by auto
  qed
qed

lemma own_flush_db:
  assumes own: "own_inv gen held w s" and run: "cMsgQueue_FlushMessagesToDB prep step s = Inr (r, s')"
  shows "own_inv gen held w s'"
proof (cases "fst prep \<noteq> 0 \<and> \<not> snd prep")
  case True
  then show ?thesis using run own by (simp add: cMsgQueue_FlushMessagesToDB_def)
next
  case False
  have own1: "own_inv gen held w (upd_pool cMsgPool_Lock s)"
    unfolding upd_pool_def cMsgPool_Lock_def own_it(2) by (rule own)
  have loop: "pool_loop (flush_db_body step) (upd_pool cMsgPool_Lock s) = Inr s'"
    using run False by (auto simp: cMsgQueue_FlushMessagesToDB_def res_simps Let_def)
  show ?thesis
    by (rule pool_loop_keeps[OF loop, where P = "own_inv gen held w"]) (use own1 flush_db_keeps in \<open>simp_all\<close>)
qed

lemma own_timer [simp]: "own_inv gen held w (s\<lparr>m_timer := x\<rparr>) = own_inv gen held w s"
proof -
  have "at_place held w (s\<lparr>m_timer := x\<rparr>) p = at_place held w s p" for p by (cases p) simp_all
  then show ?thesis by (simp add: own_inv_def queues_distinct_def)
qed

text \<open>The position the caller passes for the top of the priority queue is a greatest element.\<close>

definition top_choice :: "int \<Rightarrow> nat \<Rightarrow> cMsgQueue \<Rightarrow> bool" where
  "top_choice now i s \<longleftrightarrow>
     (case cMsgQueue_ProcessPendingMessages now s of
        Inl _ \<Rightarrow> True
      | Inr s1 \<Rightarrow> m_priority_queue s1 = [] \<or> pq_top (queue_less (heap s1)) (m_priority_queue s1) i)"

lemma own_turn:
  assumes own: "own_inv gen held w s" and g: "uuid_spec gen" "e_gen ev = gen" "e_new ev"
    and top: "top_choice (e_now ev) i s" and run: "cMsgQueue_Run_turn ev rx db i s = Inr s'"
  shows "own_inv gen held w s'"
proof -
  obtain s1 s2 where s1: "cMsgQueue_ProcessPendingMessages (e_now ev) s = Inr s1"
    and s2: "(if m_priority_queue s1 \<noteq> [] then cMsgQueue_ProcessPriorityQueue ev rx i s1 else Inr s1) = Inr s2"
    and r: "(if cTimer_IsReady (e_now ev) (m_timer s2) then
       bindE (if m_bUseDB s2 then bindE (cMsgQueue_FlushMessagesToDB (fst db) (snd db) s2) (\<lambda>(_, s). Inr s)
              else cMsgQueue_FlushMessages (e_now ev) s2) (\<lambda>s.
       Inr (s\<lparr>m_timer := cTimer_Reset (e_now ev) (m_timer s)\<rparr>))
     else Inr s2) = Inr s'"
    using run unfolding cMsgQueue_Run_turn_def by (auto simp only: bindE_eq_Inr)
  have own1: "own_inv gen held w s1" by (rule own_pending[OF own s1])
  have own2: "own_inv gen held w s2"
  proof (cases "m_priority_queue s1 = []")
    case False
    then have "i < length (m_priority_queue s1)" using top s1 by (simp add: top_choice_def pq_top_def)
    then show ?thesis using own_process[OF own1 _ g, of i rx s2] s2 False by simp
  qed (use own1 s2 in simp)
  show ?thesis
  proof (cases "cTimer_IsReady (e_now ev) (m_timer s2)")
    case True
    then obtain s3 where s3: "(if m_bUseDB s2 then bindE (cMsgQueue_FlushMessagesToDB (fst db) (snd db) s2) (\<lambda>(_, s). Inr s)
        else cMsgQueue_FlushMessages (e_now ev) s2) = Inr s3" "s' = s3\<lparr>m_timer := cTimer_Reset (e_now ev) (m_timer s3)\<rparr>"
      using r by (auto simp: bindE_eq_Inr)
    have "own_inv gen held w s3"
    proof (cases "m_bUseDB s2")
      case True
      then obtain x where "cMsgQueue_FlushMessagesToDB (fst db) (snd db) s2 = Inr (x, s3)"
        using s3(1) by (auto simp: bindE_eq_Inr)
      then show ?thesis by (rule own_flush_db[OF own2])
    next
      case False
      then show ?thesis using s3(1) own_flush[OF own2] by simp
    qed
    then show ?thesis using s3(2) by simp
  qed (use own2 r in simp)
qed

section \<open>All parts of the server\<close>

text \<open>
  The steps of the server on the messages held, the entries readers work on, and the state. A caller
  may take a new message (plain, as a reply, or internal), change a message it holds by the setters,
  dispatch it, or finish it; a command handler's thread takes the top of its job queue and later pops
  it, and so does the connection thread with the outbound queue; and the message queue's thread makes
  a turn. What a reader does between the two is any sequence of the steps of a caller, so it may finish
  the message, keep it, or give it on while its entry is still in the queue. That the lock of a job
  queue keeps others from adding to it meanwhile is not needed and not modelled.
\<close>

type_synonym mq_state = "msg_addr set \<times> work \<times> cMsgQueue"

inductive mq_step :: "uuid_gen \<Rightarrow> regex \<Rightarrow> mq_state \<Rightarrow> mq_state \<Rightarrow> bool"
  for gen rx where
  st_create: "e_gen ev = gen \<Longrightarrow> e_new ev \<Longrightarrow> cMsgQueue_CreateMessage ev s = Inr (a, s') \<Longrightarrow>
    mq_step gen rx (held, w, s) (insert a held, w, s')"
| st_reply: "e_gen ev = gen \<Longrightarrow> e_new ev \<Longrightarrow> b \<in> held \<Longrightarrow> cMsgQueue_CreateMessageReply ev (Some b) s = Inr (a, s') \<Longrightarrow>
    mq_step gen rx (held, w, s) (insert a held, w, s')"
| st_internal: "e_gen ev = gen \<Longrightarrow> e_new ev \<Longrightarrow> cMsgQueue_CreateInternalMessage ev s = Inr (a, s') \<Longrightarrow>
    mq_step gen rx (held, w, s) (insert a held, w, s')"
| st_edit: "a \<in> held \<Longrightarrow> MsgState m = MSG_STATE_INUSE \<Longrightarrow> msg_inv m \<Longrightarrow> msg_ready m \<Longrightarrow>
    mq_step gen rx (held, w, s) (held, w, s\<lparr>heap := (heap s)(a \<mapsto> m)\<rparr>)"
| st_dispatch: "a \<in> held \<Longrightarrow> upd_msg a (cMsg_DispatchMsg name addr) s = Inr s' \<Longrightarrow>
    mq_step gen rx (held, w, s) (held - {a}, w, s')"
| st_finish: "a \<in> held \<Longrightarrow> st \<in> {MSG_STATE_DELIVERED, MSG_STATE_PROCESSED, MSG_STATE_MARKFORREUSE} \<Longrightarrow>
    upd_msg a (cMsg_SetMsgState st) s = Inr s' \<Longrightarrow> mq_step gen rx (held, w, s) (held - {a}, w, s')"
| st_processed: "a \<in> held \<Longrightarrow> upd_msg a cMsg_MarkProcessed s = Inr s' \<Longrightarrow> mq_step gen rx (held, w, s) (held - {a}, w, s')"
| st_undelivered: "a \<in> held \<Longrightarrow> heap s a = Some m \<Longrightarrow> MsgConnectionType m \<noteq> MSG_CT_NOTSET \<Longrightarrow>
    upd_msg a (cMsg_SetMsgState MSG_STATE_UNDELIVERED) s = Inr s' \<Longrightarrow> mq_step gen rx (held, w, s) (held - {a}, w, s')"
| st_handler_top: "w (Handler k) = None \<Longrightarrow> m_pCommandHandlerFactory s k = Some d \<Longrightarrow>
    pq_top (queue_less (heap s)) (m_jobQueue d) i \<Longrightarrow> cCommandHandlerDecorator_top i d = Some a \<Longrightarrow>
    mq_step gen rx (held, w, s) (insert a held, w(Handler k \<mapsto> i), s)"
| st_handler_pop: "w (Handler k) = Some i \<Longrightarrow> m_pCommandHandlerFactory s k = Some d \<Longrightarrow>
    mq_step gen rx (held, w, s) (held, w(Handler k := None),
      s\<lparr>m_pCommandHandlerFactory := (m_pCommandHandlerFactory s)(k \<mapsto> cCommandHandlerDecorator_pop i d)\<rparr>)"
| st_sender_top: "w Sender = None \<Longrightarrow> pq_top (queue_less (heap s)) (raw_out s) i \<Longrightarrow>
    mq_step gen rx (held, w, s) (insert (raw_out s ! i) held, w(Sender \<mapsto> i), s)"
| st_sender_pop: "w Sender = Some i \<Longrightarrow> m_outbound_priority_queue q = pq_remove i (raw_out s) \<Longrightarrow>
    mq_step gen rx (held, w, s) (held, w(Sender := None), s\<lparr>m_pConnectionQueue := q\<rparr>)"
| st_turn: "e_gen ev = gen \<Longrightarrow> e_new ev \<Longrightarrow> top_choice (e_now ev) i s \<Longrightarrow> cMsgQueue_Run_turn ev rx db i s = Inr s' \<Longrightarrow>
    mq_step gen rx (held, w, s) (held, w, s')"

inductive_cases mq_stepE: "mq_step gen rx (held, w, s) (held', w', s')"

lemmas mq_step_cases = mq_stepE [consumes 1, case_names create reply internal edit dispatch finish processed undelivered
  handler_top handler_pop sender_top sender_pop turn]

lemma reply_keeps:
  "msg_inv (reply_fields t n) = msg_inv n \<and> msg_ready (reply_fields t n) = msg_ready n \<and>
     MsgState (reply_fields t n) = MsgState n"
  by (simp add: reply_fields_def setter_defs cMsg_UpdateMsgConnectionType_def cMsg_SetBench_def msg_inv_def msg_ready_def
      contents_def Let_def)

lemma mq_step_own:
  assumes "mq_step gen rx (held, w, s) (held', w', s')" and own: "own_inv gen held w s" and g: "uuid_spec gen"
  shows "own_inv gen held' w' s'"
  using assms(1)
proof (cases rule: mq_step_cases)
  case (create ev a)
  then show ?thesis using own_take[OF own g] by (simp add: cMsgQueue_CreateMessage_def)
next
  case (reply ev b a)
  then obtain s1 s2 t where s1: "cMsgPool_GetMessage ev s = Inr (a, s1)" "upd_msg b cMsg_SetCloned s1 = Inr s2"
    "upd_msg a (reply_fields t) s2 = Inr s'" by (auto simp: cMsgQueue_CreateMessageReply_def res_simps)
  have own1: "own_inv gen (insert a held) w s1" using own_take[OF own g reply(1,2) s1(1)] by simp
  have own2: "own_inv gen (insert a held) w s2"
    by (rule own_upd[OF own1 _ s1(2)])
      (use reply in \<open>auto simp: cMsg_SetCloned_def msg_inv_def msg_ready_def contents_def\<close>)
  show ?thesis unfolding reply(5,6)
    by (rule own_upd[OF own2 _ s1(3)]) (auto simp: reply_keeps)
next
  case (internal ev a)
  then obtain s1 where s1: "cMsgPool_GetMessage ev s = Inr (a, s1)"
    "upd_msg a (\<lambda>m. cMsg_SetNotifyAction MSG_NOTIFY_ACTION_NO
       (cMsg_SetReplyAction MSG_REPLY_ACTION_NONE (cMsg_SetConnectionType MSG_CT_INTERNAL m))) s1 = Inr s'"
    by (auto simp: cMsgQueue_CreateInternalMessage_def res_simps)
  have own1: "own_inv gen (insert a held) w s1" using own_take[OF own g internal(1,2) s1(1)] by simp
  show ?thesis unfolding internal(4,5)
    by (rule own_upd[OF own1 _ s1(2)])
      (auto simp: setter_defs cMsg_UpdateMsgConnectionType_def msg_inv_def msg_ready_def contents_def Let_def)
next
  case (edit a m)
  then show ?thesis using own_write[OF own, of a m held] by simp
next
  case (dispatch a name addr)
  show ?thesis unfolding dispatch(3,4)
    by (rule own_upd[OF own dispatch(1,2)])
      (auto simp: cMsg_DispatchMsg_def msg_inv_def msg_ready_def contents_def Let_def)
next
  case (finish a st)
  show ?thesis unfolding finish(4,5)
    by (rule own_upd[OF own finish(1,3)])
      (use finish(2) in \<open>auto simp: cMsg_SetMsgState_def msg_ready_def contents_def\<close>)
next
  case (processed a)
  show ?thesis unfolding processed(3,4)
    by (rule own_upd[OF own processed(1,2)])
      (auto simp: cMsg_MarkProcessed_def cMsg_CloseIfCloned_def msg_ready_def contents_def)
next
  case (undelivered a m)
  show ?thesis unfolding undelivered(5,6)
    by (rule own_upd[OF own undelivered(1,4)])
      (use undelivered in \<open>auto simp: cMsg_SetMsgState_def msg_ready_def contents_def\<close>)
next
  case (handler_top k d i a)
  have "raw_queue s (Handler k) = m_jobQueue d" using handler_top(2) by (simp add: raw_job_def)
  then show ?thesis using handler_top own_top[OF own handler_top(1), of i]
    by (auto simp: pq_top_def cCommandHandlerDecorator_top_def split: if_splits)
next
  case (handler_pop k i d)
  show ?thesis unfolding handler_pop(3-5) by (rule own_pop_job[OF own handler_pop(1,2)])
next
  case (sender_top i)
  then show ?thesis using own_top[OF own sender_top(1), of i] by (simp add: pq_top_def)
next
  case (sender_pop i q)
  show ?thesis unfolding sender_pop(3-5) by (rule own_pop_out[OF own sender_pop(1,2)])
next
  case (turn ev i db)
  then show ?thesis using own_turn[OF own g] by auto
qed

lemma mq_steps_own:
  assumes "(mq_step gen rx)\<^sup>*\<^sup>* (held, w, s) (held', w', s')" "own_inv gen held w s" "uuid_spec gen"
  shows "own_inv gen held' w' s'"
  using assms
proof (induction "(held', w', s')" arbitrary: held' w' s' rule: rtranclp_induct)
  case (step y)
  obtain h1 w1 s1 where "y = (h1, w1, s1)" by (cases y)
  with step show ?case using mq_step_own by metis
qed simp

text \<open>The state at the start: the components as the configuration leaves them, no messages.\<close>

definition queue_start :: "uuid_gen \<Rightarrow> cMsgQueue \<Rightarrow> bool" where
  "queue_start gen s \<longleftrightarrow> (\<exists>p f calls sv q issued. s = cMsgQueue_new p f (add_rules calls) sv q \<and> uid_inv gen issued p \<and>
     (\<forall>k d. f k = Some d \<longrightarrow> m_jobQueue d = []) \<and> m_outbound_priority_queue q = [])"

lemma queue_start_own: "queue_start gen s \<Longrightarrow> own_inv gen {} Map.empty s"
proof -
  assume "queue_start gen s"
  then obtain p f calls sv q issued where s: "s = cMsgQueue_new p f (add_rules calls) sv q" "uid_inv gen issued p"
    "\<forall>k d. f k = Some d \<longrightarrow> m_jobQueue d = []" "m_outbound_priority_queue q = []"
    by (auto simp: queue_start_def)
  have q: "raw_queue s r = []" for r
    using s by (cases r) (auto simp: cMsgQueue_new_def raw_job_def raw_out_def split: option.splits)
  have u: "unread Map.empty s r = []" for r by (simp add: unread_def q)
  have m: "m_priority_queue s = []" using s(1) by (simp add: cMsgQueue_new_def)
  have e: "at_place {} Map.empty s x = {}" for x by (cases x) (simp_all add: u m)
  have "queues_distinct Map.empty s" "work_ok Map.empty s" by (simp_all add: queues_distinct_def work_ok_def u m)
  moreover have "msgs_ok gen s"
    using s(1,2) by (auto simp: msgs_ok_def sys_inv_def live_def pend_ok_def cMsgQueue_new_def cMsgPool_new_def)
  moreover have "engine_inv (m_pRouterRulesEngine s)" using s(1) add_rules_inv by (simp add: cMsgQueue_new_def)
  ultimately show ?thesis by (simp add: own_inv_def e)
qed

text \<open>
  (C1) Exclusive ownership of messages: in every state the server can reach, by any interleaving of
  callers that take, fill, dispatch and finish messages, of command handlers and the sending thread,
  which look at the top of their queue, work, and pop it afterwards, and of the queue's own thread
  (with deletions, flushes to memory or database, retries and notifications included), a message that
  waits in a queue or is held by a part of the server is in use and is at exactly one such place, no
  queue has it waiting twice, and a message handed out by \<open>CreateMessage\<close> is one that nobody had. The
  one entry of a queue that its reader is working on does not count: that message is with the reader,
  and from the moment the reader has finished it the pool may hand it out again, before it is popped.
\<close>

theorem message_ownership:
  assumes gen: "uuid_spec gen" and start: "queue_start gen s0"
    and steps: "(mq_step gen rx)\<^sup>*\<^sup>* ({}, Map.empty, s0) (held, w, s)"
  shows "(\<forall>a p q. a \<in> at_place held w s p \<longrightarrow> in_state s a MSG_STATE_INUSE \<and> (a \<in> at_place held w s q \<longrightarrow> p = q)) \<and>
    queues_distinct w s \<and>
    (\<forall>ev a s'. e_gen ev = gen \<longrightarrow> e_new ev \<longrightarrow> cMsgQueue_CreateMessage ev s = Inr (a, s') \<longrightarrow>
       (\<forall>p. a \<notin> at_place held w s p))"
proof -
  have own: "own_inv gen held w s" by (rule mq_steps_own[OF steps queue_start_own[OF start] gen])
  then have "p = q" if "a \<in> at_place held w s p" "a \<in> at_place held w s q" for a p q
    using that unfolding own_inv_def by (metis disjoint_iff)
  moreover have "a \<notin> at_place held w s p" if "e_gen ev = gen" "e_new ev" "cMsgQueue_CreateMessage ev s = Inr (a, s')" for ev a s' p
    using own_take[OF own gen that(1,2)] that(3) by (simp add: cMsgQueue_CreateMessage_def)
  moreover have "in_state s a MSG_STATE_INUSE" if "a \<in> at_place held w s p" for a p
    using own that unfolding own_inv_def by blast
  ultimately show ?thesis using own by (auto simp: own_inv_def)
qed

theorem message_ownership_witness:
  "\<exists>a s. (mq_step example_gen (\<lambda>_ _. None))\<^sup>*\<^sup>*
      ({}, Map.empty, cMsgQueue_new (cUniqueIDProvider_new example_gen 0) Map.empty (add_rules []) cService_new (cConnectionQueue_new 60))
      ({a}, Map.empty, s) \<and> in_state s a MSG_STATE_INUSE \<and>
    (\<forall>b s'. cMsgQueue_CreateMessage demo_env s = Inr (b, s') \<longrightarrow> b \<noteq> a)"
proof -
  let ?s0 = "cMsgQueue_new (cUniqueIDProvider_new example_gen 0) Map.empty (add_rules []) cService_new (cConnectionQueue_new 60)"
  have start: "queue_start example_gen ?s0"
    unfolding queue_start_def
    by (intro exI conjI, rule refl, rule uid_inv_new[OF example_gen_spec]) (auto simp: cConnectionQueue_new_def)
  have ev: "e_gen demo_env = example_gen" "e_new demo_env" by (simp_all add: demo_env_def)
  obtain a s where s: "cMsgQueue_CreateMessage demo_env ?s0 = Inr (a, s)"
    using GetMessage_ok[of demo_env ?s0] example_gen_spec own_sys[OF queue_start_own[OF start]] ev
    by (auto simp: cMsgQueue_CreateMessage_def)
  have st: "(mq_step example_gen (\<lambda>_ _. None))\<^sup>*\<^sup>* ({}, Map.empty, ?s0) ({a}, Map.empty, s)"
    using st_create[OF ev s, of "\<lambda>_ _. None" "{}" Map.empty] by simp
  from message_ownership[OF example_gen_spec start st]
  have "in_state s a MSG_STATE_INUSE"
    "cMsgQueue_CreateMessage demo_env s = Inr (b, s') \<Longrightarrow> b \<noteq> a" for b s'
    using ev by (metis at_place.simps(4) insertI1)+
  then show ?thesis using st by blast
qed

end
