(* ===== verification/McScript.thy ===== *)
theory McScript
  imports XmlParser Levenshtein
begin

text \<open>
  The translator of XML scripts to Tcl, \<open>cMCScript\<close> (\<open>mcscript.h\<close>, \<open>mcscript.cpp\<close>): the object, the
  keyword table, the inclusion of files, the validation of a parsed script and the translation of
  statements. The keyword handlers and \<open>Translate\<close> follow in \<open>McHandlers\<close>.

  Parameters: the files, the searches of \<open>boost::regex\<close> (each returns the position and the length of
  the leftmost match), the new name of a namespace, and the indeterminate value of a member that is
  not initialised. Nothing changes the elements of a parsed script, so the translator reads them
  as a list, \<open>xml_items\<close>; the cursor of the parser is the part of the list that is left. The
  printing of the debugging output is left out. An exception ends the execution: on Linux
  \<open>LOGALL\<close>, which every handler calls, throws the text of the exception again.
\<close>

section \<open>The elements of a parsed document\<close>

text \<open>C strings of an element; \<open>None\<close> is a null pointer.\<close>

record xml_item =
  xi_name :: "string option"
  xi_value :: "string option"
  xi_attrs :: "(string option \<times> string option) list"
  xi_hasCDATA :: bool
  xi_cdata :: "string option"

definition opt_cstr :: "block option \<Rightarrow> string option res" where
  "opt_cstr p = (case p of None \<Rightarrow> Inr None | Some b \<Rightarrow> bindE (cstr_at b 0) (\<lambda>s. Inr (Some s)))"

fun attrs_loop :: "nat \<Rightarrow> cXMLLiteElement \<Rightarrow> (string option \<times> string option) list res" where
  "attrs_loop 0 e = Inl Diverge"
| "attrs_loop (Suc fuel) e =
     bindE (cXMLLiteElement_GetAttributePair e) (\<lambda>d.
     case d of
       None \<Rightarrow> Inr []
     | Some a \<Rightarrow>
         bindE (opt_cstr (xs_data (m_AttributeName a))) (\<lambda>n.
         bindE (opt_cstr (xs_data (m_AttributeValue a))) (\<lambda>v.
         bindE (cXMLLiteElement_MoveNext e) (\<lambda>(_, e).
         bindE (attrs_loop fuel e) (\<lambda>r. Inr ((n, v) # r))))))"

definition item_of :: "cXMLLiteElement \<Rightarrow> xml_item res" where
  "item_of e =
     bindE (opt_cstr (xs_data (m_xmlTagName e))) (\<lambda>n.
     bindE (opt_cstr (xs_data (m_xmlValue e))) (\<lambda>v.
     bindE (attrs_loop (fresh (m_xmlAttributes e) + 1) (snd (cXMLLiteElement_MoveHead e))) (\<lambda>r.
     bindE (if m_hasCDATA e then opt_cstr (xs_data (m_xmlCDATA e)) else Inr None) (\<lambda>c.
     Inr \<lparr>xi_name = n, xi_value = v, xi_attrs = r, xi_hasCDATA = m_hasCDATA e, xi_cdata = c\<rparr>))))"

fun items_loop :: "nat \<Rightarrow> cXMLLiteParser \<Rightarrow> xml_item list res" where
  "items_loop 0 p = Inl Diverge"
| "items_loop (Suc fuel) p =
     bindE (cXMLLiteParser_GetElement p) (\<lambda>d.
     case d of
       None \<Rightarrow> Inr []
     | Some a \<Rightarrow>
         (case elems p a of
            None \<Rightarrow> Inl MemFault
          | Some e \<Rightarrow>
              bindE (item_of e) (\<lambda>x.
              bindE (cXMLLiteParser_MoveNext p) (\<lambda>(_, p).
              bindE (items_loop fuel p) (\<lambda>r. Inr (x # r))))))"

definition xml_items :: "cXMLLiteParser \<Rightarrow> xml_item list res" where
  "xml_items p = items_loop (fresh (m_xmlElements p) + 1) (snd (cXMLLiteParser_MoveHead p))"

text \<open>A C string that is used: null is a fault.\<close>

definition non_null :: "string option \<Rightarrow> string res" where
  "non_null p = (case p of None \<Rightarrow> Inl MemFault | Some s \<Rightarrow> Inr s)"

definition item_name :: "xml_item \<Rightarrow> string res" where
  "item_name x = non_null (xi_name x)"

text \<open>\<open>GetAttributeValue\<close>, whose result every caller measures with \<open>strlen\<close>.\<close>

fun find_attr :: "string \<Rightarrow> (string option \<times> string option) list \<Rightarrow> string res" where
  "find_attr name [] = Inr []"
| "find_attr name ((n, v) # r) =
     bindE (non_null n) (\<lambda>n. if name = n then non_null v else find_attr name r)"

definition item_attr :: "string \<Rightarrow> xml_item \<Rightarrow> string res" where
  "item_attr name x = find_attr name (xi_attrs x)"

section \<open>The object\<close>

definition HRC_MCSCRIPT_OK :: int where "HRC_MCSCRIPT_OK = 0"
definition HRC_MCSCRIPT_FILE_ERROR :: int where "HRC_MCSCRIPT_FILE_ERROR = 1"
definition HRC_MCSCRIPT_MEMORY_ERROR :: int where "HRC_MCSCRIPT_MEMORY_ERROR = 2"
definition HRC_MCSCRIPT_XMLDATA_EMPTY :: int where "HRC_MCSCRIPT_XMLDATA_EMPTY = 3"
definition HRC_MCSCRIPT_XMLDATA_NEEDLOWERCASE_ELEMENT :: int where "HRC_MCSCRIPT_XMLDATA_NEEDLOWERCASE_ELEMENT = 4"
definition HRC_MCSCRIPT_XMLDATA_NEEDLOWERCASE_ATTRIBUTE :: int where "HRC_MCSCRIPT_XMLDATA_NEEDLOWERCASE_ATTRIBUTE = 5"
definition HRC_MCSCRIPT_XMLDATA_INVALIDROOT :: int where "HRC_MCSCRIPT_XMLDATA_INVALIDROOT = 6"
definition HRC_MCSCRIPT_XMLDATA_INVALIDTAGS :: int where "HRC_MCSCRIPT_XMLDATA_INVALIDTAGS = 7"
definition HRC_MCSCRIPT_XMLDATA_OPENCLOSE_TAGMISMATCH :: int where "HRC_MCSCRIPT_XMLDATA_OPENCLOSE_TAGMISMATCH = 8"
definition HRC_MCSCRIPT_INIT_FAILED :: int where "HRC_MCSCRIPT_INIT_FAILED = 11"
definition HRC_MCSCRIPT_STATEMENT_INCORRECTLY_FORMED :: int where "HRC_MCSCRIPT_STATEMENT_INCORRECTLY_FORMED = 0x2000"
definition HRC_MCSCRIPT_STATEMENT_MULTIPARAM_NOTALLOWED :: int where "HRC_MCSCRIPT_STATEMENT_MULTIPARAM_NOTALLOWED = 0x2001"
definition HRC_MCSCRIPT_STATEMENT_WASNOT_TRANSLATED :: int where "HRC_MCSCRIPT_STATEMENT_WASNOT_TRANSLATED = 0x2002"
definition HRC_MCSCRIPT_PROCNAME_NOT_FOUND :: int where "HRC_MCSCRIPT_PROCNAME_NOT_FOUND = 0x3000"

datatype keyword_handler =
    cMCAttributeHandler | cMCBreakHandler | cMCCallHandler | cMCCaseHandler | cMCContinueHandler
  | cMCDefaultHandler | cMCElseIfHandler | cMCElseHandler | cMCExprHandler | cMCForeachHandler
  | cMCForHandler | cMCIfHandler | cMCImportHandler | cMCIncrHandler | cMCListHandler | cMCMapHandler
  | cMCMcscriptHandler | cMCOutputHandler | cMCPairHandler | cMCProcedureHandler | cMCRegexHandler
  | cMCReturnHandler | cMCScriptHandler | cMCStringHandler | cMCSwitchHandler | cMCVariableHandler
  | cMCWhileHandler

text \<open>The inserts of \<open>PrepareKeywordMap\<close>, in order: of two with the same word the first stays.\<close>

definition keyword_inserts :: "(string \<times> keyword_handler) list" where
  "keyword_inserts =
     [(''by'', cMCAttributeHandler), (''break'', cMCBreakHandler), (''call'', cMCCallHandler),
      (''case'', cMCCaseHandler), (''chars'', cMCAttributeHandler), (''continue'', cMCContinueHandler),
      (''copy'', cMCAttributeHandler), (''default'', cMCDefaultHandler), (''end'', cMCAttributeHandler),
      (''elseif'', cMCElseIfHandler), (''else'', cMCElseHandler), (''expr'', cMCExprHandler),
      (''fallthrough'', cMCAttributeHandler), (''file'', cMCAttributeHandler), (''foreach'', cMCForeachHandler),
      (''for'', cMCForHandler), (''if'', cMCIfHandler), (''import'', cMCImportHandler), (''incr'', cMCIncrHandler),
      (''incr'', cMCAttributeHandler), (''key'', cMCAttributeHandler), (''len'', cMCAttributeHandler),
      (''list'', cMCListHandler), (''list'', cMCAttributeHandler), (''item'', cMCAttributeHandler),
      (''language'', cMCAttributeHandler), (''matchcase'', cMCAttributeHandler), (''map'', cMCMapHandler),
      (''mcscript'', cMCMcscriptHandler), (''name'', cMCAttributeHandler), (''operation'', cMCAttributeHandler),
      (''output'', cMCOutputHandler), (''pair'', cMCPairHandler), (''param'', cMCAttributeHandler),
      (''pattern'', cMCAttributeHandler), (''procedure'', cMCProcedureHandler), (''proc-name'', cMCAttributeHandler),
      (''regex'', cMCRegexHandler), (''return'', cMCReturnHandler), (''retvar'', cMCAttributeHandler),
      (''script'', cMCScriptHandler), (''start'', cMCAttributeHandler), (''statement'', cMCAttributeHandler),
      (''string'', cMCStringHandler), (''switch'', cMCSwitchHandler), (''test'', cMCAttributeHandler),
      (''text'', cMCAttributeHandler), (''trimleft'', cMCAttributeHandler), (''trimright'', cMCAttributeHandler),
      (''value'', cMCAttributeHandler), (''variable'', cMCVariableHandler), (''var'', cMCAttributeHandler),
      (''var1'', cMCAttributeHandler), (''var2'', cMCAttributeHandler), (''while'', cMCWhileHandler),
      (''with'', cMCAttributeHandler)]"

text \<open>The names offered for a misspelt one; a comma is missing between two of them in the code.\<close>

definition m_LegalNames :: "string list" where
  "m_LegalNames =
     [''break'', ''by'', ''case'', ''chars'', ''choose'', ''compare'', ''continue'', ''copy'', ''default'',
      ''elseif'', ''else'', ''end'', ''expr'', ''file'', ''foreach'', ''for'', ''if'', ''import'', ''include'', ''incr'', ''key'',
      ''language'', ''len'', ''list'', ''item'', ''map'', ''matchcase'', ''mcscript'', ''name'', ''operation'',
      ''output'', ''param'', ''pair'', ''pattern'', ''procedure'', ''regex'', ''return'',
      ''retvar'', ''test'', ''text'', ''trimleft'', ''trimrightscript'', ''start'',
      ''statement'', ''string'', ''switch'', ''value'', ''variable'', ''var'', ''var1'', ''var2'',
      ''while'', ''with'']"

datatype eSymbolType = ST_LEFT_PAREM | ST_RIGHT_PAREM | ST_LEFT_BRACE | ST_RIGHT_BRACE
datatype eStatementType = ST_ARRAY | ST_MAP

text \<open>A statement type that is neither, \<open>None\<close>, is only possible when it was never assigned.\<close>

record cMCStatementParseElement =
  se_symbol :: eSymbolType
  se_statementType :: "eStatementType option"
  se_string :: string
  se_start_pos :: nat
  se_end_pos :: nat

record cMCScript =
  m_bInitFailed :: bool
  m_xml :: cXMLLiteParser
  m_TCLScript :: string
  m_InvalidTagMessages :: string
  m_LastCommand :: string
  m_KeywordMap :: "string \<rightharpoonup> keyword_handler"
  m_ProcedureMap :: "string set"
  m_StatementStack :: "cMCStatementParseElement list"
  m_StatementQueue :: "cMCStatementParseElement list"
  m_VariableDeclarations :: string
  m_iVariableCount :: int
  m_IndentTabs :: string
  m_LastMarkMarker :: int

definition cMCScript_PrepareKeywordMap :: "cMCScript \<Rightarrow> int \<times> cMCScript" where
  "cMCScript_PrepareKeywordMap s = (HRC_MCSCRIPT_OK, s\<lparr>m_KeywordMap := m_KeywordMap s ++ map_of keyword_inserts\<rparr>)"

definition cMCScript_new :: "nat option \<Rightarrow> cMCScript" where
  "cMCScript_new marker =
     (let s = \<lparr>m_bInitFailed = False, m_xml = cXMLLiteParser_new marker, m_TCLScript = [], m_InvalidTagMessages = [],
               m_LastCommand = [], m_KeywordMap = Map.empty, m_ProcedureMap = {}, m_StatementStack = [],
               m_StatementQueue = [], m_VariableDeclarations = [], m_iVariableCount = 0, m_IndentTabs = [],
               m_LastMarkMarker = -1\<rparr>;
          (rc, s) = cMCScript_PrepareKeywordMap s
      in if rc \<noteq> HRC_MCSCRIPT_OK then s\<lparr>m_bInitFailed := True\<rparr> else s)"

text \<open>What the code uses of its environment.\<close>

record mcs_env =
  me_file :: "string \<Rightarrow> string option"
  me_namespace :: string
  me_junk :: "eStatementType option"
  rx_func :: "string \<Rightarrow> (nat \<times> nat) option"
  rx_array :: "string \<Rightarrow> (nat \<times> nat) option"
  rx_map :: "string \<Rightarrow> (nat \<times> nat) option"
  rx_procname :: "string \<Rightarrow> (nat \<times> nat) option"
  rx_var :: "string \<Rightarrow> (nat \<times> nat) option"
  rx_value :: "string \<Rightarrow> (nat \<times> nat) option"
  rx_quoted :: "string \<Rightarrow> (nat \<times> nat) option"

definition matched :: "nat \<times> nat \<Rightarrow> string \<Rightarrow> string" where
  "matched w s = take (snd w) (drop (fst w) s)"

definition cMCScript_IncreaseIndentDepth :: "cMCScript \<Rightarrow> cMCScript" where
  "cMCScript_IncreaseIndentDepth s = s\<lparr>m_IndentTabs := m_IndentTabs s @ [TAB]\<rparr>"

definition cMCScript_DecreaseIndentDepth :: "cMCScript \<Rightarrow> cMCScript" where
  "cMCScript_DecreaseIndentDepth s =
     (if length (m_IndentTabs s) > 0 then s\<lparr>m_IndentTabs := take (length (m_IndentTabs s) - 1) (m_IndentTabs s)\<rparr> else s)"

definition cMCScript_GetIndentTabs :: "cMCScript \<Rightarrow> string" where
  "cMCScript_GetIndentTabs s = m_IndentTabs s"

definition cMCScript_SetMapMarker :: "int \<Rightarrow> cMCScript \<Rightarrow> cMCScript" where
  "cMCScript_SetMapMarker pos s = s\<lparr>m_LastMarkMarker := pos\<rparr>"

definition cMCScript_GetMapMarker :: "cMCScript \<Rightarrow> int" where
  "cMCScript_GetMapMarker s = m_LastMarkMarker s"

definition cMCScript_GetVariableDeclarations :: "cMCScript \<Rightarrow> string" where
  "cMCScript_GetVariableDeclarations s = c_prefix (m_VariableDeclarations s)"

definition cMCScript_GetLastCommand :: "cMCScript \<Rightarrow> string" where
  "cMCScript_GetLastCommand s = c_prefix (m_LastCommand s)"

definition cMCScript_AddProcedure :: "string \<Rightarrow> cMCScript \<Rightarrow> cMCScript" where
  "cMCScript_AddProcedure p s = s\<lparr>m_ProcedureMap := insert p (m_ProcedureMap s)\<rparr>"

section \<open>Expressions\<close>

definition cMCScript_GetProcedureName :: "mcs_env \<Rightarrow> string \<Rightarrow> int \<times> string" where
  "cMCScript_GetProcedureName me sStatement =
     (case rx_procname me sStatement of
        None \<Rightarrow> (HRC_MCSCRIPT_PROCNAME_NOT_FOUND, [])
      | Some w \<Rightarrow> (HRC_MCSCRIPT_OK, c_prefix (drop 1 (matched w sStatement))))"

definition cMCScript_ExistsProcedure :: "mcs_env \<Rightarrow> string \<Rightarrow> cMCScript \<Rightarrow> bool" where
  "cMCScript_ExistsProcedure me p s =
     (case cMCScript_GetProcedureName me p of (ret, sProcName) \<Rightarrow>
        if ret \<noteq> HRC_MCSCRIPT_OK then False else sProcName \<in> m_ProcedureMap s)"

text \<open>\<open>substr\<close> past the end throws; the result of \<open>GetVarValue\<close> is always \<open>true\<close>.\<close>

definition cMCScript_GetVarValue :: "mcs_env \<Rightarrow> string \<Rightarrow> (string \<times> string) res" where
  "cMCScript_GetVarValue me sExpression =
     (case rx_var me sExpression of
        None \<Rightarrow> Inr ([], [])
      | Some w \<Rightarrow>
          (let sVar = matched w sExpression in
           bindE (substr sExpression (length sVar + 1) (length sExpression)) (\<lambda>sSearch.
           case rx_value me sSearch of None \<Rightarrow> Inr (sVar, []) | Some w \<Rightarrow> Inr (sVar, matched w sSearch))))"

definition cMCScript_GetQoutedValue :: "mcs_env \<Rightarrow> string \<Rightarrow> string" where
  "cMCScript_GetQoutedValue me sExpression =
     (case rx_quoted me sExpression of
        None \<Rightarrow> []
      | Some w \<Rightarrow> (let v = drop 1 (matched w sExpression) in take (length v - 1) v))"

section \<open>Files\<close>

text \<open>\<open>erase\<close> and the tag \<open>word\<close> of an included file.\<close>

definition erase_at :: "nat \<Rightarrow> nat \<Rightarrow> string \<Rightarrow> string" where
  "erase_at i n s = take i s @ drop (i + n) s"

definition erase_word :: "string \<Rightarrow> string \<Rightarrow> string" where
  "erase_word w s = (case str_find s w of None \<Rightarrow> s | Some i \<Rightarrow> erase_at i (length w) s)"

text \<open>
  One turn of the loop of \<open>HandleRecursiveInclude\<close> for the tag at \<open>mark1\<close> whose end is at \<open>mark2\<close>.
  The end is taken four bytes further on instead of two, and the text searched for the file name
  is \<open>mark2\<close> bytes long.
\<close>

definition include_turn :: "mcs_env \<Rightarrow> nat \<Rightarrow> nat \<Rightarrow> string \<Rightarrow> string" where
  "include_turn me mark1 mark2 s =
     (let mark2 = mark2 + 4;
          sValue = cMCScript_GetQoutedValue me (take mark2 (drop mark1 s));
          sInsert = (case me_file me (c_prefix sValue) of None \<Rightarrow> [] | Some t \<Rightarrow> t);
          s = erase_at mark1 (mark2 - mark1) s
      in if length sInsert > 0
         then take mark1 s @ erase_word ''</mcscript>'' (erase_word ''<mcscript>'' sInsert) @ [LF] @ drop mark1 s
         else s)"

text \<open>The loop need not end: \<open>None\<close>.\<close>

partial_function (option) include_loop :: "mcs_env \<Rightarrow> string \<Rightarrow> string option" where
  "include_loop me s =
     (case str_find s ''<include'' of
        None \<Rightarrow> Some s
      | Some mark1 \<Rightarrow>
          (case str_find (drop mark1 s) ''/>'' of
             None \<Rightarrow> include_loop me s
           | Some k \<Rightarrow> include_loop me (include_turn me mark1 (mark1 + k) s)))"

definition cMCScript_HandleRecursiveInclude :: "mcs_env \<Rightarrow> string \<Rightarrow> string option" where
  "cMCScript_HandleRecursiveInclude me s = include_loop me s"

text \<open>\<open>None\<close>: the inclusion runs forever.\<close>

definition cMCScript_LoadXML :: "malloc \<Rightarrow> mcs_env \<Rightarrow> string \<Rightarrow> cMCScript \<Rightarrow> (int \<times> cMCScript) res option" where
  "cMCScript_LoadXML ml me contents s =
     (if m_bInitFailed s then Some (Inr (HRC_MCSCRIPT_INIT_FAILED, s))
      else
        map_option (\<lambda>contents.
          let s = s\<lparr>m_ProcedureMap := {}\<rparr>;
              contents = filter (\<lambda>c. c \<noteq> TAB) (filter (\<lambda>c. c \<noteq> CR) contents) in
          bindE (cXMLLiteParser_Parse ml (cstr contents) (m_xml s)) (\<lambda>(ret, x).
          Inr (if ret = 0 then HRC_MCSCRIPT_OK
               else if ret = HRC_XMLLITEPARSER_ALLOC then HRC_MCSCRIPT_MEMORY_ERROR else ret, s\<lparr>m_xml := x\<rparr>)))
          (cMCScript_HandleRecursiveInclude me contents))"

definition cMCScript_LoadXML_file :: "malloc \<Rightarrow> mcs_env \<Rightarrow> string \<Rightarrow> cMCScript \<Rightarrow> (int \<times> cMCScript) res option" where
  "cMCScript_LoadXML_file ml me xmlFileName s =
     (if m_bInitFailed s then Some (Inr (HRC_MCSCRIPT_INIT_FAILED, s))
      else
        (case me_file me xmlFileName of
           None \<Rightarrow> Some (Inr (HRC_MCSCRIPT_FILE_ERROR, s))
         | Some sXML \<Rightarrow> cMCScript_LoadXML ml me sXML s))"

end
