(* ===== verification/McStatement.thy ===== *)
theory McStatement
  imports McScript
begin

text \<open>
  The translation of statements and the validation of scripts in \<open>cMCScript\<close> (\<open>mcscript.cpp\<close>).

  A statement contains calls \<open>$f(x)\<close>, list elements \<open>$l[i]\<close> and map elements \<open>#m[k]\<close>, which may be
  nested. \<open>TranslateStatement\<close> replaces each of them by a new variable and collects the Tcl
  commands that assign these variables. Its three loops are bounded by the number of brackets: a
  match contains an opening bracket and the variable that replaces it has none.
\<close>

section \<open>Nested statements\<close>

definition is_bracket :: "char \<Rightarrow> bool" where
  "is_bracket c \<longleftrightarrow> c \<in> set ''()[]''"

text \<open>
  The loop of \<open>ParseNestedStatements\<close> over the text from \<open>mark\<close> on; \<open>junk\<close> is what an unassigned
  \<open>m_statementType\<close> holds. The first byte of an empty string reads as zero.
\<close>

definition statement_element :: "eStatementType option \<Rightarrow> char \<Rightarrow> string \<Rightarrow> nat \<Rightarrow> cMCStatementParseElement" where
  "statement_element junk ch text mark =
     \<lparr>se_symbol = (if ch = CHR ''('' then ST_LEFT_PAREM else if ch = CHR ''['' then ST_LEFT_BRACE
                   else if ch = CHR '')'' then ST_RIGHT_PAREM else ST_RIGHT_BRACE),
      se_statementType = (if starts_with ''$'' text then Some ST_ARRAY else if starts_with ''#'' text then Some ST_MAP else junk),
      se_string = (if ch = CHR ''('' \<and> starts_with ''$'' text then drop 1 text else text),
      se_start_pos = mark, se_end_pos = length text\<rparr>"

fun nested_loop ::
    "nat \<Rightarrow> eStatementType option \<Rightarrow> string \<Rightarrow> nat \<Rightarrow> cMCStatementParseElement list \<Rightarrow> cMCStatementParseElement list \<Rightarrow>
       cMCStatementParseElement list \<times> cMCStatementParseElement list" where
  "nested_loop 0 junk s mark st q = (st, q)"
| "nested_loop (Suc n) junk s mark st q =
     (let text = takeWhile (\<lambda>c. \<not> is_bracket c) (drop mark s); pos = mark + length text in
      if pos \<ge> length s then (st, q)
      else
        (let ch = s ! pos; elm = statement_element junk ch text mark in
         if ch = CHR ''('' \<or> ch = CHR ''['' then nested_loop n junk s (pos + 1) (elm # st) q
         else nested_loop n junk s (pos + 1) st (q @ [elm])))"

definition cMCScript_ParseNestedStatements :: "mcs_env \<Rightarrow> string \<Rightarrow> cMCScript \<Rightarrow> int \<times> cMCScript" where
  "cMCScript_ParseNestedStatements me sStatement s =
     (if CHR '','' \<in> set sStatement \<and> (CHR ''('' \<in> set sStatement \<or> CHR '','' \<in> set sStatement) \<and>
         \<not> (CHR 39 \<in> set sStatement \<or> CHR 34 \<in> set sStatement)
      then (HRC_MCSCRIPT_STATEMENT_MULTIPARAM_NOTALLOWED, s)
      else
        (case nested_loop (Suc (length sStatement)) (me_junk me) sStatement 0 [] [] of (st, q) \<Rightarrow>
           (if length st \<noteq> length q then HRC_MCSCRIPT_STATEMENT_INCORRECTLY_FORMED else HRC_MCSCRIPT_OK,
            s\<lparr>m_StatementStack := st, m_StatementQueue := q\<rparr>)))"

definition cMCScript_HandleArray ::
    "cMCStatementParseElement \<Rightarrow> cMCStatementParseElement \<Rightarrow> string \<Rightarrow> string \<Rightarrow> string \<times> string" where
  "cMCScript_HandleArray leftElm rightElm sStatement sLastStatement =
     (if se_symbol rightElm = ST_RIGHT_BRACE then
        (let t = (if se_string rightElm = []
                  then ''[lindex '' @ se_string leftElm @ '' '' @ sLastStatement @ '']''
                  else ''[lindex '' @ se_string leftElm @ '' '' @ se_string rightElm @ '']'') in (t, t))
      else if se_symbol rightElm = ST_RIGHT_PAREM then
        (let t = (if se_string rightElm = [] \<or> CHR '','' \<in> set (se_string rightElm)
                  then ''['' @ se_string leftElm @ '' '' @ sLastStatement @ '']''
                  else ''['' @ se_string leftElm @ '' '' @ se_string rightElm @ '']'') in (t, t))
      else (sStatement, sLastStatement))"

text \<open>\<open>substr(1, ...)\<close> of an empty string throws; the text of a map element starts with \<open>#\<close>.\<close>

definition cMCScript_HandleMap ::
    "cMCStatementParseElement \<Rightarrow> cMCStatementParseElement \<Rightarrow> string \<Rightarrow> string \<Rightarrow> (string \<times> string) res" where
  "cMCScript_HandleMap leftElm rightElm sStatement sLastStatement =
     (let cut = (if se_string leftElm = [] then Inl StdException else Inr (drop 1 (se_string leftElm))) in
      if se_symbol rightElm = ST_RIGHT_BRACE then
        bindE cut (\<lambda>v.
        let t = (if se_string rightElm = [] then ''$'' @ v @ ''('' @ sLastStatement @ '')''
                 else ''$'' @ v @ ''('' @ se_string rightElm @ '')'') in Inr (t, t))
      else if se_symbol rightElm = ST_RIGHT_PAREM then
        (if se_string rightElm = [] \<or> CHR '','' \<in> set (se_string rightElm)
         then bindE cut (\<lambda>v. let t = ''$'' @ v @ ''('' @ sLastStatement @ '')'' in Inr (t, t))
         else (let t = ''$'' @ se_string leftElm @ ''('' @ se_string rightElm @ '')'' in Inr (t, t)))
      else Inr (sStatement, sLastStatement))"

text \<open>
  The loop of \<open>ProcessNestedStatements\<close>: the innermost opening bracket with the first closing one.
\<close>

fun pairs_process_loop ::
    "cMCStatementParseElement list \<Rightarrow> cMCStatementParseElement list \<Rightarrow> string \<Rightarrow> string \<Rightarrow>
       (string \<times> cMCStatementParseElement list \<times> cMCStatementParseElement list) res" where
  "pairs_process_loop (l # st) (r # q) t lst =
     (case se_statementType l of
        Some ST_ARRAY \<Rightarrow> (case cMCScript_HandleArray l r t lst of (t, lst) \<Rightarrow> pairs_process_loop st q t lst)
      | Some ST_MAP \<Rightarrow> bindE (cMCScript_HandleMap l r t lst) (\<lambda>(t, lst). pairs_process_loop st q t lst)
      | None \<Rightarrow> pairs_process_loop st q t lst)"
| "pairs_process_loop st q t lst = Inr (t, st, q)"

definition cMCScript_ProcessNestedStatements :: "cMCScript \<Rightarrow> (string \<times> cMCScript) res" where
  "cMCScript_ProcessNestedStatements s =
     (if length (m_StatementStack s) \<noteq> length (m_StatementQueue s) then Inr ([], s)
      else if length (m_StatementStack s) = 0 \<or> length (m_StatementQueue s) = 0 then Inr ([], s)
      else
        bindE (pairs_process_loop (m_StatementStack s) (m_StatementQueue s) [] []) (\<lambda>(t, st, q).
        Inr (t, s\<lparr>m_StatementStack := st, m_StatementQueue := q\<rparr>)))"

section \<open>A statement\<close>

definition cMCScript_CreateNewVariable :: "cMCScript \<Rightarrow> string \<times> cMCScript" where
  "cMCScript_CreateNewVariable s =
     (let n = m_iVariableCount s + 1 in (''$__variable'' @ show_int n, s\<lparr>m_iVariableCount := n\<rparr>))"

text \<open>The two branches for \<open>bIsArray\<close> are the same.\<close>

definition cMCScript_ProcessStatementFragment ::
    "mcs_env \<Rightarrow> string \<Rightarrow> nat \<Rightarrow> string \<Rightarrow> bool \<Rightarrow> cMCScript \<Rightarrow> (int \<times> string \<times> cMCScript) res" where
  "cMCScript_ProcessStatementFragment me subexpr index statement bIsArray s =
     (let statement = erase_at index (length subexpr) statement;
          (sVariable, s) = cMCScript_CreateNewVariable s;
          statement = take index statement @ sVariable @ drop index statement;
          (ret, s) = cMCScript_ParseNestedStatements me subexpr s
      in if ret \<noteq> HRC_MCSCRIPT_OK then Inr (ret, statement, s)
         else
           bindE (cMCScript_ProcessNestedStatements s) (\<lambda>(sTemp, s).
           Inr (HRC_MCSCRIPT_OK, statement,
             s\<lparr>m_VariableDeclarations := m_VariableDeclarations s @ [LF] @ m_IndentTabs s @ ''set '' @ drop 1 sVariable @
                                         '' '' @ sTemp @ [LF]\<rparr>)))"

definition brackets :: "string \<Rightarrow> nat" where
  "brackets t = length (filter (\<lambda>c. c = CHR ''('' \<or> c = CHR ''['') t)"

text \<open>One of the three loops; the flag says whether it had a turn.\<close>

fun fragment_loop ::
    "nat \<Rightarrow> mcs_env \<Rightarrow> (string \<Rightarrow> (nat \<times> nat) option) \<Rightarrow> bool \<Rightarrow> string \<Rightarrow> bool \<Rightarrow> cMCScript \<Rightarrow>
       (string \<times> bool \<times> cMCScript) res" where
  "fragment_loop 0 me rx arr t b s = Inl Diverge"
| "fragment_loop (Suc n) me rx arr t b s =
     (case rx t of
        None \<Rightarrow> Inr (t, b, s)
      | Some w \<Rightarrow>
          bindE (cMCScript_ProcessStatementFragment me (matched w t) (fst w) t arr s) (\<lambda>(_, t, s).
          fragment_loop n me rx arr t True s))"

definition cMCScript_TranslateStatement :: "mcs_env \<Rightarrow> string \<Rightarrow> cMCScript \<Rightarrow> (int \<times> string \<times> cMCScript) res" where
  "cMCScript_TranslateStatement me sStatement s =
     (let n = Suc (brackets sStatement) in
      bindE (fragment_loop n me (rx_func me) False sStatement False (s\<lparr>m_VariableDeclarations := []\<rparr>)) (\<lambda>(t, b, s).
      bindE (fragment_loop n me (rx_array me) True t b s) (\<lambda>(t, b, s).
      bindE (fragment_loop n me (rx_map me) True t b s) (\<lambda>(t, b, s).
      Inr (if \<not> b then HRC_MCSCRIPT_STATEMENT_WASNOT_TRANSLATED else HRC_MCSCRIPT_OK, t, s)))))"

section \<open>Validation\<close>

fun closest_loop :: "string \<Rightarrow> string list \<Rightarrow> int \<Rightarrow> string option \<Rightarrow> int \<times> string option" where
  "closest_loop sName [] closest best = (closest, best)"
| "closest_loop sName (v # vs) closest best =
     (let d = cLevenshtein_distance sName v in
      if d < closest then closest_loop sName vs d (Some v) else closest_loop sName vs closest best)"

definition cMCScript_GetClosestNameMatch :: "string \<Rightarrow> string" where
  "cMCScript_GetClosestNameMatch sName =
     (case closest_loop sName m_LegalNames 999999 None of
        (closest, Some v) \<Rightarrow> if closest < 2 then v else []
      | (closest, None) \<Rightarrow> [])"

definition name_at :: "xml_item list \<Rightarrow> nat \<Rightarrow> string option res" where
  "name_at xs i = (if i < length xs then Inr (xi_name (xs ! i)) else Inl MemFault)"

definition cMCScript_ValidateRoot :: "xml_item list \<Rightarrow> int res" where
  "cMCScript_ValidateRoot xs =
     bindE (name_at xs 0) (\<lambda>d.
     case d of
       None \<Rightarrow> Inr HRC_MCSCRIPT_XMLDATA_INVALIDROOT
     | Some p \<Rightarrow>
         if p = ''xml''
         then bindE (name_at xs 1) (\<lambda>d. bindE (non_null d) (\<lambda>p.
              Inr (if p \<noteq> ''mcscript'' then HRC_MCSCRIPT_XMLDATA_INVALIDROOT else HRC_MCSCRIPT_OK)))
         else Inr (if p \<noteq> ''mcscript'' then HRC_MCSCRIPT_XMLDATA_INVALIDROOT else HRC_MCSCRIPT_OK))"

definition first_char :: "string \<Rightarrow> char" where
  "first_char p = (if p = [] then NUL else hd p)"

text \<open>A plain \<open>char\<close> is signed: a byte above 127 is below every letter.\<close>

definition not_lowercase :: "string \<Rightarrow> bool" where
  "not_lowercase p \<longleftrightarrow>
     (let n = of_char (first_char p) :: nat in 128 \<le> n \<or> n < 97) \<and> first_char p \<noteq> CHR ''/''"

fun lower_attrs :: "(string option \<times> string option) list \<Rightarrow> bool res" where
  "lower_attrs [] = Inr True"
| "lower_attrs ((n, v) # r) = bindE (non_null n) (\<lambda>p. if not_lowercase p then Inr False else lower_attrs r)"

fun cMCScript_ValidateLowercaseTags :: "xml_item list \<Rightarrow> int res" where
  "cMCScript_ValidateLowercaseTags [] = Inr HRC_MCSCRIPT_OK"
| "cMCScript_ValidateLowercaseTags (x # xs) =
     bindE (item_name x) (\<lambda>p.
     if not_lowercase p then Inr HRC_MCSCRIPT_XMLDATA_NEEDLOWERCASE_ELEMENT
     else bindE (lower_attrs (xi_attrs x)) (\<lambda>ok.
       if \<not> ok then Inr HRC_MCSCRIPT_XMLDATA_NEEDLOWERCASE_ATTRIBUTE else cMCScript_ValidateLowercaseTags xs))"

text \<open>What \<open>ValidateTagNames\<close> says of an unknown name.\<close>

definition invalid_name :: "string \<Rightarrow> string \<Rightarrow> string \<Rightarrow> string" where
  "invalid_name what slash sName =
     ''[-] Invalid '' @ what @ '' name '' @ [CHR 39] @ slash @ sName @ [CHR 39] @ '' detected.'' @
     (let levSearch = cMCScript_GetClosestNameMatch sName in
      if length levSearch > 0 then '' Did you mean '' @ [CHR 39] @ slash @ levSearch @ [CHR 39] @ ''?'' @ [LF] else [LF])"

fun attr_names :: "(string \<rightharpoonup> keyword_handler) \<Rightarrow> (string option \<times> string option) list \<Rightarrow> string res" where
  "attr_names kw [] = Inr []"
| "attr_names kw ((n, v) # r) =
     bindE (non_null n) (\<lambda>p. bindE (attr_names kw r) (\<lambda>t.
     Inr ((if kw p = None then invalid_name ''attribute'' [] p else []) @ t)))"

fun tag_names :: "(string \<rightharpoonup> keyword_handler) \<Rightarrow> xml_item list \<Rightarrow> string res" where
  "tag_names kw [] = Inr []"
| "tag_names kw (x # xs) =
     bindE (item_name x) (\<lambda>p.
     let bTerm = (first_char p = CHR ''/''); sName = (if bTerm then drop 1 p else p);
         own = (if p \<noteq> ''/>'' \<and> kw sName = None then invalid_name ''element'' (if bTerm then ''/'' else []) sName else [])
     in bindE (attr_names kw (xi_attrs x)) (\<lambda>t. bindE (tag_names kw xs) (\<lambda>u. Inr (own @ t @ u))))"

definition cMCScript_ValidateTagNames :: "xml_item list \<Rightarrow> cMCScript \<Rightarrow> (int \<times> cMCScript) res" where
  "cMCScript_ValidateTagNames xs s =
     bindE (tag_names (m_KeywordMap s) xs) (\<lambda>t.
     Inr (if length t \<noteq> 0 then HRC_MCSCRIPT_XMLDATA_INVALIDTAGS else HRC_MCSCRIPT_OK, s\<lparr>m_InvalidTagMessages := t\<rparr>))"

fun count_tags :: "xml_item list \<Rightarrow> (int \<times> int) res" where
  "count_tags [] = Inr (0, 0)"
| "count_tags (x # xs) =
     bindE (item_name x) (\<lambda>p. bindE (count_tags xs) (\<lambda>(a, b).
     Inr (if first_char p \<noteq> CHR ''/'' then (a + 1, b) else (a, b + 1))))"

definition cMCScript_ValidateOpenCloseTags :: "xml_item list \<Rightarrow> int res" where
  "cMCScript_ValidateOpenCloseTags xs =
     bindE (count_tags xs) (\<lambda>(a, b). Inr (if a \<noteq> b then HRC_MCSCRIPT_XMLDATA_OPENCLOSE_TAGMISMATCH else HRC_MCSCRIPT_OK))"

definition cMCScript_ExecuteScriptValidationTests :: "xml_item list \<Rightarrow> cMCScript \<Rightarrow> (int \<times> cMCScript) res" where
  "cMCScript_ExecuteScriptValidationTests xs s =
     (if xs = [] then Inr (HRC_MCSCRIPT_XMLDATA_EMPTY, s)
      else
        bindE (cMCScript_ValidateRoot xs) (\<lambda>ret. if ret \<noteq> HRC_MCSCRIPT_OK then Inr (ret, s)
        else bindE (cMCScript_ValidateOpenCloseTags xs) (\<lambda>ret. if ret \<noteq> HRC_MCSCRIPT_OK then Inr (ret, s)
        else bindE (cMCScript_ValidateLowercaseTags xs) (\<lambda>ret. if ret \<noteq> HRC_MCSCRIPT_OK then Inr (ret, s)
        else cMCScript_ValidateTagNames xs s))))"

end
