(* ===== verification/McHandlers.thy ===== *)
theory McHandlers
  imports McStatement
begin

text \<open>
  The keyword handlers of the script translator (\<open>mcscript-*-handler.h\<close>) and \<open>Translate\<close>
  (\<open>mcscript.cpp\<close>). A handler gets the elements from the one under the cursor on, the object and
  the text written so far; it returns a code, the elements from the new cursor on, the object and
  the text. All handlers but those of \<open>list\<close> and \<open>map\<close> only append to the text, and all but that of
  \<open>list\<close> leave the cursor where it is.
\<close>

definition HRC_MCSCRIPT_XMLDATA_OUTPUTCMD_MISSING_TEXT_ATTRIBUTE :: int where "HRC_MCSCRIPT_XMLDATA_OUTPUTCMD_MISSING_TEXT_ATTRIBUTE = 0x0A"
definition HRC_MCSCRIPT_XMLDATA_VARIABLECMD_MISSING_NAME_ATTRIBUTE :: int where "HRC_MCSCRIPT_XMLDATA_VARIABLECMD_MISSING_NAME_ATTRIBUTE = 0x0C"
definition HRC_MCSCRIPT_XMLDATA_VARIABLECMD_INCLUDES_VALUEANDEXPR_ATTRIBUTE :: int where "HRC_MCSCRIPT_XMLDATA_VARIABLECMD_INCLUDES_VALUEANDEXPR_ATTRIBUTE = 0x0D"
definition HRC_MCSCRIPT_XMLDATA_IFCMD_MISSING_TEST_ATTRIBUTE :: int where "HRC_MCSCRIPT_XMLDATA_IFCMD_MISSING_TEST_ATTRIBUTE = 0x0F"
definition HRC_MCSCRIPT_XMLDATA_INCRCMD_MISSING_VARIABLE_ATTRIBUTE :: int where "HRC_MCSCRIPT_XMLDATA_INCRCMD_MISSING_VARIABLE_ATTRIBUTE = 0x10"
definition HRC_MCSCRIPT_XMLDATA_INCRCMD_MISSING_BY_ATTRIBUTE :: int where "HRC_MCSCRIPT_XMLDATA_INCRCMD_MISSING_BY_ATTRIBUTE = 0x11"
definition HRC_MCSCRIPT_XMLDATA_WHILECMD_MISSING_TEST_ATTRIBUTE :: int where "HRC_MCSCRIPT_XMLDATA_WHILECMD_MISSING_TEST_ATTRIBUTE = 0x12"
definition HRC_MCSCRIPT_XMLDATA_LISTCMD_MISSING_NAME_ATTRIBUTE :: int where "HRC_MCSCRIPT_XMLDATA_LISTCMD_MISSING_NAME_ATTRIBUTE = 0x13"
definition HRC_MCSCRIPT_XMLDATA_SCRIPTCMD_MISSING_LANGUAGE_ATTRIBUTE :: int where "HRC_MCSCRIPT_XMLDATA_SCRIPTCMD_MISSING_LANGUAGE_ATTRIBUTE = 0x14"
definition HRC_MCSCRIPT_XMLDATA_SCRIPTCMD_LANGUAGE_MUSTBE_TCL :: int where "HRC_MCSCRIPT_XMLDATA_SCRIPTCMD_LANGUAGE_MUSTBE_TCL = 0x15"
definition HRC_MCSCRIPT_XMLDATA_SCRIPTCMD_ISMISSING_CDATA_SECTION :: int where "HRC_MCSCRIPT_XMLDATA_SCRIPTCMD_ISMISSING_CDATA_SECTION = 0x16"
definition HRC_MCSCRIPT_XMLDATA_IMPORTCMD_MISSING_FILE_ATTRIBUTE :: int where "HRC_MCSCRIPT_XMLDATA_IMPORTCMD_MISSING_FILE_ATTRIBUTE = 0x17"
definition HRC_MCSCRIPT_XMLDATA_IMPORTCMD_FILELOAD_FAILED :: int where "HRC_MCSCRIPT_XMLDATA_IMPORTCMD_FILELOAD_FAILED = 0x18"
definition HRC_MCSCRIPT_XMLDATA_CALLCMD_MISSING_STATEMENT_ATTRIBUTE :: int where "HRC_MCSCRIPT_XMLDATA_CALLCMD_MISSING_STATEMENT_ATTRIBUTE = 0x19"
definition HRC_MCSCRIPT_XMLDATA_PROCEDURECMD_MISSING_PROCNAME_ATTRIBUTE :: int where "HRC_MCSCRIPT_XMLDATA_PROCEDURECMD_MISSING_PROCNAME_ATTRIBUTE = 0x21"
definition HRC_MCSCRIPT_XMLDATA_PROCEDURECMD_MISSING_PARAMNAME_ATTRIBUTE :: int where "HRC_MCSCRIPT_XMLDATA_PROCEDURECMD_MISSING_PARAMNAME_ATTRIBUTE = 0x22"
definition HRC_MCSCRIPT_XMLDATA_RETURNCMD_MISSING_VALUE_ATTRIBUTE :: int where "HRC_MCSCRIPT_XMLDATA_RETURNCMD_MISSING_VALUE_ATTRIBUTE = 0x23"
definition HRC_MCSCRIPT_XMLDATA_STRINGCMD_MISSING_RETVAR_ATTRIBUTE :: int where "HRC_MCSCRIPT_XMLDATA_STRINGCMD_MISSING_RETVAR_ATTRIBUTE = 0x24"
definition HRC_MCSCRIPT_XMLDATA_STRINGCMD_MISSING_OPERATION_ATTRIBUTE :: int where "HRC_MCSCRIPT_XMLDATA_STRINGCMD_MISSING_OPERATION_ATTRIBUTE = 0x25"
definition HRC_MCSCRIPT_XMLDATA_STRINGCMD_UNKNOWN_OPERATION_ATTRIBUTE :: int where "HRC_MCSCRIPT_XMLDATA_STRINGCMD_UNKNOWN_OPERATION_ATTRIBUTE = 0x26"
definition HRC_MCSCRIPT_XMLDATA_STRINGCMD_MATCHCASE_ATTRIBUTE_NOT_YESNO :: int where "HRC_MCSCRIPT_XMLDATA_STRINGCMD_MATCHCASE_ATTRIBUTE_NOT_YESNO = 0x27"
definition HRC_MCSCRIPT_XMLDATA_STRINGCMD_COMPARE_ATTRIBUTE_REQUIRES_VAR1VAR2 :: int where "HRC_MCSCRIPT_XMLDATA_STRINGCMD_COMPARE_ATTRIBUTE_REQUIRES_VAR1VAR2 = 0x28"
definition HRC_MCSCRIPT_XMLDATA_STRINGCMD_RETVAR_NOT_DOLLAR_PREFIXED :: int where "HRC_MCSCRIPT_XMLDATA_STRINGCMD_RETVAR_NOT_DOLLAR_PREFIXED = 0x29"
definition HRC_MCSCRIPT_XMLDATA_STRINGCMD_LENGTH_ATTRIBUTE_DOESNT_USE_VAR1VAR2 :: int where "HRC_MCSCRIPT_XMLDATA_STRINGCMD_LENGTH_ATTRIBUTE_DOESNT_USE_VAR1VAR2 = 0x30"
definition HRC_MCSCRIPT_XMLDATA_STRINGCMD_LENGTH_REQUIRES_VAR_ATTRIBUTE :: int where "HRC_MCSCRIPT_XMLDATA_STRINGCMD_LENGTH_REQUIRES_VAR_ATTRIBUTE = 0x31"
definition HRC_MCSCRIPT_XMLDATA_STRINGCMD_MATCH_REQUIRES_VAR_ATTRIBUTE :: int where "HRC_MCSCRIPT_XMLDATA_STRINGCMD_MATCH_REQUIRES_VAR_ATTRIBUTE = 0x32"
definition HRC_MCSCRIPT_XMLDATA_STRINGCMD_MATCH_REQUIRES_PATTERN_ATTRIBUTE :: int where "HRC_MCSCRIPT_XMLDATA_STRINGCMD_MATCH_REQUIRES_PATTERN_ATTRIBUTE = 0x33"
definition HRC_MCSCRIPT_XMLDATA_STRINGCMD_COPY_REQUIRES_VAR_ATTRIBUTE :: int where "HRC_MCSCRIPT_XMLDATA_STRINGCMD_COPY_REQUIRES_VAR_ATTRIBUTE = 0x34"
definition HRC_MCSCRIPT_XMLDATA_STRINGCMD_REPLACE_REQUIRES_VAR_ATTRIBUTE :: int where "HRC_MCSCRIPT_XMLDATA_STRINGCMD_REPLACE_REQUIRES_VAR_ATTRIBUTE = 0x35"
definition HRC_MCSCRIPT_XMLDATA_STRINGCMD_TOLOWER_REQUIRES_VAR_ATTRIBUTE :: int where "HRC_MCSCRIPT_XMLDATA_STRINGCMD_TOLOWER_REQUIRES_VAR_ATTRIBUTE = 0x36"
definition HRC_MCSCRIPT_XMLDATA_STRINGCMD_TOUPPER_REQUIRES_VAR_ATTRIBUTE :: int where "HRC_MCSCRIPT_XMLDATA_STRINGCMD_TOUPPER_REQUIRES_VAR_ATTRIBUTE = 0x37"
definition HRC_MCSCRIPT_XMLDATA_STRINGCMD_TRIMLEFT_REQUIRES_VAR_ATTRIBUTE :: int where "HRC_MCSCRIPT_XMLDATA_STRINGCMD_TRIMLEFT_REQUIRES_VAR_ATTRIBUTE = 0x38"
definition HRC_MCSCRIPT_XMLDATA_STRINGCMD_TRIMRIGHT_REQUIRES_VAR_ATTRIBUTE :: int where "HRC_MCSCRIPT_XMLDATA_STRINGCMD_TRIMRIGHT_REQUIRES_VAR_ATTRIBUTE = 0x39"
definition HRC_MCSCRIPT_XMLDATA_FORCMD_MISSING_START_ATTRIBUTE :: int where "HRC_MCSCRIPT_XMLDATA_FORCMD_MISSING_START_ATTRIBUTE = 0x40"
definition HRC_MCSCRIPT_XMLDATA_FORCMD_MISSING_TEST_ATTRIBUTE :: int where "HRC_MCSCRIPT_XMLDATA_FORCMD_MISSING_TEST_ATTRIBUTE = 0x41"
definition HRC_MCSCRIPT_XMLDATA_FORCMD_MISSING_INCR_ATTRIBUTE :: int where "HRC_MCSCRIPT_XMLDATA_FORCMD_MISSING_INCR_ATTRIBUTE = 0x42"
definition HRC_MCSCRIPT_XMLDATA_FORCMD_START_NOT_DOLLAR_PREFIX :: int where "HRC_MCSCRIPT_XMLDATA_FORCMD_START_NOT_DOLLAR_PREFIX = 0x43"
definition HRC_MCSCRIPT_XMLDATA_FORCMD_START_MAYNOT_USE_ARRAY :: int where "HRC_MCSCRIPT_XMLDATA_FORCMD_START_MAYNOT_USE_ARRAY = 0x44"
definition HRC_MCSCRIPT_XMLDATA_FORCMD_TEST_MAYNOT_USE_ARRAY :: int where "HRC_MCSCRIPT_XMLDATA_FORCMD_TEST_MAYNOT_USE_ARRAY = 0x45"
definition HRC_MCSCRIPT_XMLDATA_FORCMD_TEST_NOT_DOLLAR_PREFIX :: int where "HRC_MCSCRIPT_XMLDATA_FORCMD_TEST_NOT_DOLLAR_PREFIX = 0x46"
definition HRC_MCSCRIPT_XMLDATA_FOREACHCMD_MISSING_VAR_ATTRIBUTE :: int where "HRC_MCSCRIPT_XMLDATA_FOREACHCMD_MISSING_VAR_ATTRIBUTE = 0x47"
definition HRC_MCSCRIPT_XMLDATA_FOREACHCMD_MISSING_LIST_ATTRIBUTE :: int where "HRC_MCSCRIPT_XMLDATA_FOREACHCMD_MISSING_LIST_ATTRIBUTE = 0x48"
definition HRC_MCSCRIPT_XMLDATA_FOREACHCMD_VAR_NOT_DOLLAR_PREFIX :: int where "HRC_MCSCRIPT_XMLDATA_FOREACHCMD_VAR_NOT_DOLLAR_PREFIX = 0x49"
definition HRC_MCSCRIPT_XMLDATA_FOREACHCMD_VAR_MAYNOT_USE_ARRAY :: int where "HRC_MCSCRIPT_XMLDATA_FOREACHCMD_VAR_MAYNOT_USE_ARRAY = 0x50"
definition HRC_MCSCRIPT_XMLDATA_FOREACHCMD_TEST_NOT_DOLLAR_PREFIX :: int where "HRC_MCSCRIPT_XMLDATA_FOREACHCMD_TEST_NOT_DOLLAR_PREFIX = 0x51"
definition HRC_MCSCRIPT_XMLDATA_FOREACHCMD_TEST_MAYNOT_USE_ARRAY :: int where "HRC_MCSCRIPT_XMLDATA_FOREACHCMD_TEST_MAYNOT_USE_ARRAY = 0x52"
definition HRC_MCSCRIPT_XMLDATA_SWITCHCMD_MISSING_PATTERN_ATTRIBUTE :: int where "HRC_MCSCRIPT_XMLDATA_SWITCHCMD_MISSING_PATTERN_ATTRIBUTE = 0x53"
definition HRC_MCSCRIPT_XMLDATA_SWITCHCMD_MISSING_FALLTHROUGH_ATTRIBUTE :: int where "HRC_MCSCRIPT_XMLDATA_SWITCHCMD_MISSING_FALLTHROUGH_ATTRIBUTE = 0x54"
definition HRC_MCSCRIPT_XMLDATA_SWITCHCMD_FALLTHROUGH_MUSTBE_TRUE_OR_FALSE :: int where "HRC_MCSCRIPT_XMLDATA_SWITCHCMD_FALLTHROUGH_MUSTBE_TRUE_OR_FALSE = 0x55"
definition HRC_MCSCRIPT_XMLDATA_SWITCHCMD_MISSING_OPERATION_ATTRIBUTE :: int where "HRC_MCSCRIPT_XMLDATA_SWITCHCMD_MISSING_OPERATION_ATTRIBUTE = 0x56"
definition HRC_MCSCRIPT_XMLDATA_SWITCHCMD_MISSING_VAR_ATTRIBUTE :: int where "HRC_MCSCRIPT_XMLDATA_SWITCHCMD_MISSING_VAR_ATTRIBUTE = 0x57"
definition HRC_MCSCRIPT_XMLDATA_SWITCHCMD_INVALID_OPERATION :: int where "HRC_MCSCRIPT_XMLDATA_SWITCHCMD_INVALID_OPERATION = 0x58"
definition HRC_MCSCRIPT_XMLDATA_SWITCHCMD_VAR_NOT_DOLLAR_PREFIX :: int where "HRC_MCSCRIPT_XMLDATA_SWITCHCMD_VAR_NOT_DOLLAR_PREFIX = 0x59"
definition HRC_MCSCRIPT_XMLDATA_SWITCHCMD_VAR_MAYNOT_USE_ARRAY :: int where "HRC_MCSCRIPT_XMLDATA_SWITCHCMD_VAR_MAYNOT_USE_ARRAY = 0x60"
definition HRC_MCSCRIPT_XMLDATA_ELSEIFCMD_MISSING_TEST_ATTRIBUTE :: int where "HRC_MCSCRIPT_XMLDATA_ELSEIFCMD_MISSING_TEST_ATTRIBUTE = 0x61"
definition HRC_MCSCRIPT_XMLDATA_ELSECMD_MUST_FOLLOW_IFORELSEIF :: int where "HRC_MCSCRIPT_XMLDATA_ELSECMD_MUST_FOLLOW_IFORELSEIF = 0x62"
definition HRC_MCSCRIPT_XMLDATA_ELSEIFCMD_MUST_FOLLOW_IFORELSEIF :: int where "HRC_MCSCRIPT_XMLDATA_ELSEIFCMD_MUST_FOLLOW_IFORELSEIF = 0x63"
definition HRC_MCSCRIPT_XMLDATA_MAPCMD_MISSING_NAME_ATTRIBUTE :: int where "HRC_MCSCRIPT_XMLDATA_MAPCMD_MISSING_NAME_ATTRIBUTE = 0x64"
definition HRC_MCSCRIPT_XMLDATA_PAIRCMD_MISSING_KEY_ATTRIBUTE :: int where "HRC_MCSCRIPT_XMLDATA_PAIRCMD_MISSING_KEY_ATTRIBUTE = 0x65"
definition HRC_MCSCRIPT_XMLDATA_PAIRCMD_MISSING_VALUE_ATTRIBUTE :: int where "HRC_MCSCRIPT_XMLDATA_PAIRCMD_MISSING_VALUE_ATTRIBUTE = 0x66"

section \<open>Helpers\<close>

text \<open>A handler that reads its own element only: the code, the object and the text.\<close>

type_synonym handled_item = "(int \<times> cMCScript \<times> string) res"

text \<open>A missing attribute is an empty string, for which the handler returns the code \<open>rc\<close>.\<close>

definition need :: "string \<Rightarrow> int \<Rightarrow> xml_item \<Rightarrow> cMCScript \<Rightarrow> string \<Rightarrow> (string \<Rightarrow> handled_item) \<Rightarrow> handled_item" where
  "need name rc x s out f =
     bindE (item_attr name x) (\<lambda>v. if length v = 0 then Inr (rc, s, out) else f v)"

text \<open>\<open>append("\n"); append(GetIndentTabs())\<close>.\<close>

definition new_line :: "cMCScript \<Rightarrow> string \<Rightarrow> string" where
  "new_line s out = out @ [LF] @ cMCScript_GetIndentTabs s"

definition quot :: string where "quot = [CHR 34]"

section \<open>The handlers\<close>

definition cMCAttributeHandler_Process :: "cMCScript \<Rightarrow> string \<Rightarrow> handled_item" where
  "cMCAttributeHandler_Process s out = Inr (0, s, out)"

definition cMCExprHandler_Process :: "cMCScript \<Rightarrow> string \<Rightarrow> handled_item" where
  "cMCExprHandler_Process s out = Inr (0, s, out)"

definition cMCRegexHandler_Process :: "cMCScript \<Rightarrow> string \<Rightarrow> handled_item" where
  "cMCRegexHandler_Process s out = Inr (0, s, out)"

definition cMCBreakHandler_Process :: "cMCScript \<Rightarrow> string \<Rightarrow> handled_item" where
  "cMCBreakHandler_Process s out = Inr (0, s, new_line s out @ ''break'')"

definition cMCContinueHandler_Process :: "cMCScript \<Rightarrow> string \<Rightarrow> handled_item" where
  "cMCContinueHandler_Process s out = Inr (0, s, new_line s out @ ''continue'')"

definition cMCCallHandler_Process :: "mcs_env \<Rightarrow> xml_item \<Rightarrow> cMCScript \<Rightarrow> string \<Rightarrow> handled_item" where
  "cMCCallHandler_Process me x s out =
     need ''statement'' HRC_MCSCRIPT_XMLDATA_CALLCMD_MISSING_STATEMENT_ATTRIBUTE x s out (\<lambda>pStatement.
     bindE (item_attr ''retvar'' x) (\<lambda>pRetVar.
     let out = new_line s out in
     bindE (cMCScript_TranslateStatement me pStatement s) (\<lambda>(ret, sStatement, s).
     Inr (ret, s,
       if ret = HRC_MCSCRIPT_OK then
         (if length pRetVar \<noteq> 0
          then new_line s (out @ cMCScript_GetVariableDeclarations s) @ ''set '' @ drop 1 pRetVar @ '' '' @ sStatement
          else out @ cMCScript_GetVariableDeclarations s)
       else out))))"

definition cMCCaseHandler_Process :: "xml_item \<Rightarrow> cMCScript \<Rightarrow> string \<Rightarrow> handled_item" where
  "cMCCaseHandler_Process x s out =
     need ''pattern'' HRC_MCSCRIPT_XMLDATA_SWITCHCMD_MISSING_PATTERN_ATTRIBUTE x s out (\<lambda>pPattern.
     need ''fallthrough'' HRC_MCSCRIPT_XMLDATA_SWITCHCMD_MISSING_FALLTHROUGH_ATTRIBUTE x s out (\<lambda>pFallthrough.
     if pFallthrough \<noteq> ''true'' \<and> pFallthrough \<noteq> ''false''
     then Inr (HRC_MCSCRIPT_XMLDATA_SWITCHCMD_FALLTHROUGH_MUSTBE_TRUE_OR_FALSE, s, out)
     else
       let out = new_line s out @ quot @ pPattern in
       if pFallthrough = ''false'' then Inr (0, cMCScript_IncreaseIndentDepth s, out @ quot @ '' {'')
       else Inr (0, s, out @ quot @ '' -'')))"

definition cMCDefaultHandler_Process :: "cMCScript \<Rightarrow> string \<Rightarrow> handled_item" where
  "cMCDefaultHandler_Process s out = Inr (0, cMCScript_IncreaseIndentDepth s, new_line s out @ ''default {'')"

definition cMCElseHandler_Process :: "cMCScript \<Rightarrow> string \<Rightarrow> handled_item" where
  "cMCElseHandler_Process s out =
     (if cMCScript_GetLastCommand s \<noteq> ''if'' \<and> cMCScript_GetLastCommand s \<noteq> ''elseif'' \<and> cMCScript_GetLastCommand s \<noteq> ''else''
      then Inr (HRC_MCSCRIPT_XMLDATA_ELSECMD_MUST_FOLLOW_IFORELSEIF, s, out)
      else Inr (0, cMCScript_IncreaseIndentDepth s, out @ '' else {''))"

definition cMCElseIfHandler_Process :: "xml_item \<Rightarrow> cMCScript \<Rightarrow> string \<Rightarrow> handled_item" where
  "cMCElseIfHandler_Process x s out =
     need ''test'' HRC_MCSCRIPT_XMLDATA_ELSEIFCMD_MISSING_TEST_ATTRIBUTE x s out (\<lambda>pExpression.
     if cMCScript_GetLastCommand s \<noteq> ''if'' \<and> cMCScript_GetLastCommand s \<noteq> ''elseif''
     then Inr (HRC_MCSCRIPT_XMLDATA_ELSEIFCMD_MUST_FOLLOW_IFORELSEIF, s, out)
     else Inr (0, cMCScript_IncreaseIndentDepth s, out @ '' elseif {'' @ pExpression @ ''} {''))"

definition cMCForHandler_Process :: "mcs_env \<Rightarrow> xml_item \<Rightarrow> cMCScript \<Rightarrow> string \<Rightarrow> handled_item" where
  "cMCForHandler_Process me x s out =
     need ''start'' HRC_MCSCRIPT_XMLDATA_FORCMD_MISSING_START_ATTRIBUTE x s out (\<lambda>pStart.
     need ''test'' HRC_MCSCRIPT_XMLDATA_FORCMD_MISSING_TEST_ATTRIBUTE x s out (\<lambda>pTest.
     need ''incr'' HRC_MCSCRIPT_XMLDATA_FORCMD_MISSING_INCR_ATTRIBUTE x s out (\<lambda>pIncrby.
     if hd pStart \<noteq> CHR ''$'' then Inr (HRC_MCSCRIPT_XMLDATA_FORCMD_START_NOT_DOLLAR_PREFIX, s, out)
     else if CHR ''['' \<in> set pStart then Inr (HRC_MCSCRIPT_XMLDATA_FORCMD_START_MAYNOT_USE_ARRAY, s, out)
     else if hd pTest \<noteq> CHR ''$'' then Inr (HRC_MCSCRIPT_XMLDATA_FORCMD_TEST_NOT_DOLLAR_PREFIX, s, out)
     else if CHR ''['' \<in> set pTest then Inr (HRC_MCSCRIPT_XMLDATA_FORCMD_TEST_MAYNOT_USE_ARRAY, s, out)
     else
       bindE (cMCScript_GetVarValue me pStart) (\<lambda>(sVar, sValue).
       Inr (0, cMCScript_IncreaseIndentDepth s,
         new_line s out @ ''for {set '' @ sVar @ '' '' @ sValue @ ''} {'' @ pTest @ ''} {incr '' @ sVar @ '' '' @ pIncrby @ ''} {'')))))"

definition cMCForeachHandler_Process :: "xml_item \<Rightarrow> cMCScript \<Rightarrow> string \<Rightarrow> handled_item" where
  "cMCForeachHandler_Process x s out =
     need ''var'' HRC_MCSCRIPT_XMLDATA_FOREACHCMD_MISSING_VAR_ATTRIBUTE x s out (\<lambda>pVariable.
     need ''list'' HRC_MCSCRIPT_XMLDATA_FOREACHCMD_MISSING_LIST_ATTRIBUTE x s out (\<lambda>pList.
     if hd pVariable \<noteq> CHR ''$'' then Inr (HRC_MCSCRIPT_XMLDATA_FOREACHCMD_VAR_NOT_DOLLAR_PREFIX, s, out)
     else if CHR ''['' \<in> set pVariable then Inr (HRC_MCSCRIPT_XMLDATA_FOREACHCMD_VAR_MAYNOT_USE_ARRAY, s, out)
     else if hd pList \<noteq> CHR ''$'' then Inr (HRC_MCSCRIPT_XMLDATA_FOREACHCMD_TEST_NOT_DOLLAR_PREFIX, s, out)
     else if CHR ''['' \<in> set pList then Inr (HRC_MCSCRIPT_XMLDATA_FOREACHCMD_TEST_MAYNOT_USE_ARRAY, s, out)
     else
       Inr (0, cMCScript_IncreaseIndentDepth s,
         new_line s (new_line s out @ ''set '' @ drop 1 pVariable @ '' 0'') @
         ''foreach '' @ drop 1 pVariable @ '' '' @ pList @ '' {'')))"

definition cMCIfHandler_Process :: "xml_item \<Rightarrow> cMCScript \<Rightarrow> string \<Rightarrow> handled_item" where
  "cMCIfHandler_Process x s out =
     need ''test'' HRC_MCSCRIPT_XMLDATA_IFCMD_MISSING_TEST_ATTRIBUTE x s out (\<lambda>pExpression.
     Inr (0, cMCScript_IncreaseIndentDepth s, new_line s out @ ''if {'' @ pExpression @ ''} {''))"

definition cMCWhileHandler_Process :: "xml_item \<Rightarrow> cMCScript \<Rightarrow> string \<Rightarrow> handled_item" where
  "cMCWhileHandler_Process x s out =
     need ''test'' HRC_MCSCRIPT_XMLDATA_WHILECMD_MISSING_TEST_ATTRIBUTE x s out (\<lambda>pExpression.
     Inr (0, cMCScript_IncreaseIndentDepth s, new_line s out @ ''while {'' @ pExpression @ ''} {''))"

definition cMCImportHandler_Process :: "mcs_env \<Rightarrow> xml_item \<Rightarrow> cMCScript \<Rightarrow> string \<Rightarrow> handled_item" where
  "cMCImportHandler_Process me x s out =
     need ''file'' HRC_MCSCRIPT_XMLDATA_IMPORTCMD_MISSING_FILE_ATTRIBUTE x s out (\<lambda>pFile.
     case me_file me pFile of
       Some sText \<Rightarrow> Inr (0, s, out @ [LF] @ c_prefix sText)
     | None \<Rightarrow> Inr (HRC_MCSCRIPT_XMLDATA_IMPORTCMD_FILELOAD_FAILED, s, out))"

definition cMCIncrHandler_Process :: "xml_item \<Rightarrow> cMCScript \<Rightarrow> string \<Rightarrow> handled_item" where
  "cMCIncrHandler_Process x s out =
     need ''variable'' HRC_MCSCRIPT_XMLDATA_INCRCMD_MISSING_VARIABLE_ATTRIBUTE x s out (\<lambda>pVariable.
     need ''by'' HRC_MCSCRIPT_XMLDATA_INCRCMD_MISSING_BY_ATTRIBUTE x s out (\<lambda>pBy.
     Inr (0, s, new_line s out @ ''incr '' @
       (if hd pVariable = CHR ''$'' then drop 1 pVariable else pVariable) @ '' '' @ pBy)))"

definition cMCMapHandler_Process :: "mcs_env \<Rightarrow> xml_item \<Rightarrow> cMCScript \<Rightarrow> string \<Rightarrow> handled_item" where
  "cMCMapHandler_Process me x s out =
     need ''name'' HRC_MCSCRIPT_XMLDATA_MAPCMD_MISSING_NAME_ATTRIBUTE x s out (\<lambda>pName.
     bindE (item_attr ''key'' x) (\<lambda>pKey.
     bindE (item_attr ''value'' x) (\<lambda>pValue.
     let s = cMCScript_SetMapMarker (int (length out)) s in
     if length pKey \<noteq> 0 \<and> length pValue \<noteq> 0 then
       let out = new_line s out @ ''set '' @ pName @ ''('' @ pKey @ '') '' in
       bindE (cMCScript_TranslateStatement me pValue s) (\<lambda>(ret, sStatement, s).
       if ret = HRC_MCSCRIPT_OK then
         let n = nat (cMCScript_GetMapMarker s) in
         Inr (0, s, take n out @ cMCScript_GetVariableDeclarations s @ drop n out @ sStatement)
       else Inr (0, s, out @ pValue))
     else
       Inr (0, cMCScript_IncreaseIndentDepth s, new_line s out @ ''array set '' @ pName @ '' {''))))"

definition cMCMcscriptHandler_Process :: "mcs_env \<Rightarrow> cMCScript \<Rightarrow> string \<Rightarrow> handled_item" where
  "cMCMcscriptHandler_Process me s out =
     Inr (0, cMCScript_IncreaseIndentDepth s, out @ ''namespace eval '' @ me_namespace me @ '' {'')"

definition cMCOutputHandler_Process :: "mcs_env \<Rightarrow> xml_item \<Rightarrow> cMCScript \<Rightarrow> string \<Rightarrow> handled_item" where
  "cMCOutputHandler_Process me x s out =
     need ''text'' HRC_MCSCRIPT_XMLDATA_OUTPUTCMD_MISSING_TEXT_ATTRIBUTE x s out (\<lambda>pText.
     bindE (cMCScript_TranslateStatement me pText s) (\<lambda>(ret, sStatement, s).
     if ret = HRC_MCSCRIPT_OK
     then Inr (0, s, new_line s (new_line s out @ cMCScript_GetVariableDeclarations s) @ ''puts '' @ quot @ sStatement @ quot)
     else Inr (0, s, new_line s out @ ''puts '' @ quot @ pText @ quot)))"

definition cMCPairHandler_Process :: "xml_item \<Rightarrow> cMCScript \<Rightarrow> string \<Rightarrow> handled_item" where
  "cMCPairHandler_Process x s out =
     need ''key'' HRC_MCSCRIPT_XMLDATA_PAIRCMD_MISSING_KEY_ATTRIBUTE x s out (\<lambda>pKey.
     need ''value'' HRC_MCSCRIPT_XMLDATA_PAIRCMD_MISSING_VALUE_ATTRIBUTE x s out (\<lambda>pValue.
     Inr (0, s, new_line s out @ ''{'' @ pKey @ ''} {'' @ pValue @ ''}'')))"

definition cMCProcedureHandler_Process :: "xml_item \<Rightarrow> cMCScript \<Rightarrow> string \<Rightarrow> handled_item" where
  "cMCProcedureHandler_Process x s out =
     need ''name'' HRC_MCSCRIPT_XMLDATA_PROCEDURECMD_MISSING_PROCNAME_ATTRIBUTE x s out (\<lambda>pProcName.
     need ''param'' HRC_MCSCRIPT_XMLDATA_PROCEDURECMD_MISSING_PARAMNAME_ATTRIBUTE x s out (\<lambda>pParamName.
     bindE (item_attr ''retvar'' x) (\<lambda>_.
     Inr (0, cMCScript_AddProcedure pProcName (cMCScript_IncreaseIndentDepth s),
       new_line s out @ ''proc '' @ pProcName @ '' {'' @ pParamName @ ''} {''))))"

definition cMCReturnHandler_Process :: "xml_item \<Rightarrow> cMCScript \<Rightarrow> string \<Rightarrow> handled_item" where
  "cMCReturnHandler_Process x s out =
     need ''value'' HRC_MCSCRIPT_XMLDATA_RETURNCMD_MISSING_VALUE_ATTRIBUTE x s out (\<lambda>pValue.
     Inr (0, s, new_line s out @ ''return '' @ pValue))"

definition cMCScriptHandler_Process :: "xml_item \<Rightarrow> cMCScript \<Rightarrow> string \<Rightarrow> handled_item" where
  "cMCScriptHandler_Process x s out =
     need ''language'' HRC_MCSCRIPT_XMLDATA_SCRIPTCMD_MISSING_LANGUAGE_ATTRIBUTE x s out (\<lambda>pLanguage.
     if pLanguage \<noteq> ''Tcl'' then Inr (HRC_MCSCRIPT_XMLDATA_SCRIPTCMD_LANGUAGE_MUSTBE_TCL, s, out)
     else if xi_hasCDATA x = False then Inr (HRC_MCSCRIPT_XMLDATA_SCRIPTCMD_ISMISSING_CDATA_SECTION, s, out)
     else bindE (non_null (xi_cdata x)) (\<lambda>t. Inr (0, s, new_line s out @ t)))"

definition cMCSwitchHandler_Process :: "xml_item \<Rightarrow> cMCScript \<Rightarrow> string \<Rightarrow> handled_item" where
  "cMCSwitchHandler_Process x s out =
     need ''operation'' HRC_MCSCRIPT_XMLDATA_SWITCHCMD_MISSING_OPERATION_ATTRIBUTE x s out (\<lambda>pOperation.
     need ''var'' HRC_MCSCRIPT_XMLDATA_SWITCHCMD_MISSING_VAR_ATTRIBUTE x s out (\<lambda>pVariable.
     if pOperation \<noteq> ''exact'' \<and> pOperation \<noteq> ''glob'' \<and> pOperation \<noteq> ''regexp''
     then Inr (HRC_MCSCRIPT_XMLDATA_SWITCHCMD_INVALID_OPERATION, s, out)
     else if hd pVariable \<noteq> CHR ''$'' then Inr (HRC_MCSCRIPT_XMLDATA_SWITCHCMD_VAR_NOT_DOLLAR_PREFIX, s, out)
     else if CHR ''['' \<in> set pVariable then Inr (HRC_MCSCRIPT_XMLDATA_SWITCHCMD_VAR_MAYNOT_USE_ARRAY, s, out)
     else Inr (0, cMCScript_IncreaseIndentDepth s, new_line s out @ ''switch -'' @ pOperation @ '' '' @ pVariable @ '' {'')))"

definition cMCVariableHandler_Process :: "mcs_env \<Rightarrow> xml_item \<Rightarrow> cMCScript \<Rightarrow> string \<Rightarrow> handled_item" where
  "cMCVariableHandler_Process me x s out =
     need ''name'' HRC_MCSCRIPT_XMLDATA_VARIABLECMD_MISSING_NAME_ATTRIBUTE x s out (\<lambda>pVarName.
     bindE (item_attr ''value'' x) (\<lambda>pValue.
     bindE (item_attr ''expr'' x) (\<lambda>pExpr.
     let bHasExpr = (length pExpr \<noteq> 0); bHasValue = (length pValue \<noteq> 0 \<or> \<not> bHasExpr) in
     if bHasValue \<and> bHasExpr then Inr (HRC_MCSCRIPT_XMLDATA_VARIABLECMD_INCLUDES_VALUEANDEXPR_ATTRIBUTE, s, out)
     else if bHasValue then
       bindE (cMCScript_TranslateStatement me pValue s) (\<lambda>(ret, sStatement, s).
       if ret = HRC_MCSCRIPT_OK
       then Inr (0, s, out @ cMCScript_GetVariableDeclarations s @ cMCScript_GetIndentTabs s @ ''set '' @ pVarName @ '' '' @
                       quot @ sStatement @ quot)
       else Inr (0, s, new_line s out @ ''set '' @ pVarName @ '' '' @ quot @ pValue @ quot))
     else Inr (0, s, new_line s out @ ''set '' @ pVarName @ '' [expr { '' @ pExpr @ '' }]''))))"

section \<open>Strings\<close>

definition AppendMatchCase :: "string \<Rightarrow> string \<Rightarrow> string" where
  "AppendMatchCase out pMatchCase = (if length pMatchCase \<noteq> 0 \<and> pMatchCase = ''no'' then out @ ''-nocase '' else out)"

definition AppendLength :: "string \<Rightarrow> string \<Rightarrow> string" where
  "AppendLength out pLength = (if length pLength \<noteq> 0 then out @ ''-length '' @ pLength @ '' '' else out)"

text \<open>
  The start of every operation: the text \<open>set v [string op \<close>; and the shapes that several operations
  share: a range of a variable, and the trimming of some characters.
\<close>

definition string_cmd :: "cMCScript \<Rightarrow> string \<Rightarrow> string \<Rightarrow> string \<Rightarrow> string" where
  "string_cmd s out pRetVar op = new_line s out @ ''set '' @ drop 1 pRetVar @ '' [string '' @ op @ '' ''"

definition or_default :: "string \<Rightarrow> string \<Rightarrow> string" where
  "or_default d v = (if length v = 0 then d else v)"

definition string_range :: "string \<Rightarrow> string \<Rightarrow> string \<Rightarrow> string" where
  "string_range pVar pStart pEnd = pVar @ '' '' @ or_default ''0'' pStart @ '' '' @ or_default ''end'' pEnd"

definition string_trim :: "string \<Rightarrow> string \<Rightarrow> string" where
  "string_trim pVar pChars = pVar @ (if length pChars \<noteq> 0 then '' '' @ quot @ pChars @ quot else []) @ '']''"

definition string_op ::
    "xml_item \<Rightarrow> string \<Rightarrow> string \<Rightarrow> string \<Rightarrow> cMCScript \<Rightarrow> string \<Rightarrow> handled_item" where
  "string_op x pRetVar sOperation pMatchCase s out =
     bindE (item_attr ''var'' x) (\<lambda>pVar. bindE (item_attr ''var1'' x) (\<lambda>pVar1. bindE (item_attr ''var2'' x) (\<lambda>pVar2.
     bindE (item_attr ''len'' x) (\<lambda>pLen. bindE (item_attr ''start'' x) (\<lambda>pStart. bindE (item_attr ''end'' x) (\<lambda>pEnd.
     bindE (item_attr ''with'' x) (\<lambda>pWith. bindE (item_attr ''chars'' x) (\<lambda>pChars. bindE (item_attr ''pattern'' x) (\<lambda>pPattern.
     let cmd = (\<lambda>op. string_cmd s out pRetVar op);
         var = (\<lambda>rc t. if length pVar = 0 then Inr (rc, s, out) else Inr (0, s, t))
     in if sOperation = ''compare'' then
          (if length pVar1 = 0 \<or> length pVar2 = 0
           then Inr (HRC_MCSCRIPT_XMLDATA_STRINGCMD_COMPARE_ATTRIBUTE_REQUIRES_VAR1VAR2, s, out)
           else Inr (0, s, AppendLength (AppendMatchCase (cmd ''compare'') pMatchCase) pLen @ pVar1 @ '' '' @ pVar2 @ '']''))
        else if sOperation = ''copy'' then
          var HRC_MCSCRIPT_XMLDATA_STRINGCMD_COPY_REQUIRES_VAR_ATTRIBUTE (cmd ''range'' @ string_range pVar pStart pEnd @ '']'')
        else if sOperation = ''length'' then
          (if length pVar = 0 \<and> (length pVar1 \<noteq> 0 \<or> length pVar2 \<noteq> 0)
           then Inr (HRC_MCSCRIPT_XMLDATA_STRINGCMD_LENGTH_ATTRIBUTE_DOESNT_USE_VAR1VAR2, s, out)
           else var HRC_MCSCRIPT_XMLDATA_STRINGCMD_LENGTH_REQUIRES_VAR_ATTRIBUTE (cmd ''length'' @ pVar @ '']''))
        else if sOperation = ''match'' then
          (if length pVar = 0 then Inr (HRC_MCSCRIPT_XMLDATA_STRINGCMD_MATCH_REQUIRES_VAR_ATTRIBUTE, s, out)
           else if length pPattern = 0 then Inr (HRC_MCSCRIPT_XMLDATA_STRINGCMD_MATCH_REQUIRES_PATTERN_ATTRIBUTE, s, out)
           else Inr (0, s, AppendMatchCase (cmd ''match'') pMatchCase @ ''{'' @ pPattern @ ''} '' @ pVar @ '']''))
        else if sOperation = ''replace'' then
          var HRC_MCSCRIPT_XMLDATA_STRINGCMD_REPLACE_REQUIRES_VAR_ATTRIBUTE
            (cmd ''replace'' @ string_range pVar pStart pEnd @ '' {'' @ pWith @ ''}]'')
        else if sOperation = ''tolower'' then
          var HRC_MCSCRIPT_XMLDATA_STRINGCMD_TOLOWER_REQUIRES_VAR_ATTRIBUTE (cmd ''tolower'' @ string_range pVar pStart pEnd @ '']'')
        else if sOperation = ''toupper'' then
          var HRC_MCSCRIPT_XMLDATA_STRINGCMD_TOUPPER_REQUIRES_VAR_ATTRIBUTE (cmd ''toupper'' @ string_range pVar pStart pEnd @ '']'')
        else if sOperation = ''trimleft'' then
          var HRC_MCSCRIPT_XMLDATA_STRINGCMD_TRIMLEFT_REQUIRES_VAR_ATTRIBUTE (cmd ''trimleft'' @ string_trim pVar pChars)
        else if sOperation = ''trimright'' then
          var HRC_MCSCRIPT_XMLDATA_STRINGCMD_TRIMRIGHT_REQUIRES_VAR_ATTRIBUTE (cmd ''trimright'' @ string_trim pVar pChars)
        else Inr (HRC_MCSCRIPT_XMLDATA_STRINGCMD_UNKNOWN_OPERATION_ATTRIBUTE, s, out))))))))))"

definition cMCStringHandler_Process :: "xml_item \<Rightarrow> cMCScript \<Rightarrow> string \<Rightarrow> handled_item" where
  "cMCStringHandler_Process x s out =
     need ''retvar'' HRC_MCSCRIPT_XMLDATA_STRINGCMD_MISSING_RETVAR_ATTRIBUTE x s out (\<lambda>pRetVar.
     if hd pRetVar \<noteq> CHR ''$'' then Inr (HRC_MCSCRIPT_XMLDATA_STRINGCMD_RETVAR_NOT_DOLLAR_PREFIXED, s, out)
     else
       need ''operation'' HRC_MCSCRIPT_XMLDATA_STRINGCMD_MISSING_OPERATION_ATTRIBUTE x s out (\<lambda>pOperation.
       bindE (item_attr ''matchcase'' x) (\<lambda>pMatchCase.
       if length pMatchCase \<noteq> 0 \<and> pMatchCase \<noteq> ''yes'' \<and> pMatchCase \<noteq> ''no''
       then Inr (HRC_MCSCRIPT_XMLDATA_STRINGCMD_MATCHCASE_ATTRIBUTE_NOT_YESNO, s, out)
       else string_op x pRetVar pOperation pMatchCase s out)))"

section \<open>Lists\<close>

text \<open>
  The items of a list, from the element after the \<open>list\<close> tag on; an item without a value is a null
  pointer. Without an element after it, the first look at the name is a fault.
\<close>

fun list_items :: "xml_item list \<Rightarrow> string \<Rightarrow> (xml_item list \<times> string) res" where
  "list_items [] out = Inr ([], out)"
| "list_items (x # xs) out =
     bindE (item_name x) (\<lambda>p.
     if p \<noteq> ''item'' \<and> p \<noteq> ''/item'' then Inr (x # xs, out)
     else if p \<noteq> ''/item''
     then bindE (non_null (xi_value x)) (\<lambda>v. list_items xs (out @ '' '' @ [CHR 39] @ v @ [CHR 39]))
     else list_items xs out)"

definition cMCListHandler_Process ::
    "xml_item list \<Rightarrow> cMCScript \<Rightarrow> string \<Rightarrow> (int \<times> xml_item list \<times> cMCScript \<times> string) res" where
  "cMCListHandler_Process xs s out =
     bindE (item_attr ''name'' (hd xs)) (\<lambda>pVarName.
     if length pVarName = 0 then Inr (HRC_MCSCRIPT_XMLDATA_LISTCMD_MISSING_NAME_ATTRIBUTE, xs, s, out)
     else if tl xs = [] then Inl MemFault
     else
       bindE (list_items (tl xs) (new_line s out @ ''set '' @ pVarName @ '' [list '')) (\<lambda>(xs, out).
       Inr (0, xs, s, out @ '']'')))"

section \<open>Translating\<close>

definition Process ::
    "mcs_env \<Rightarrow> keyword_handler \<Rightarrow> xml_item list \<Rightarrow> cMCScript \<Rightarrow> string \<Rightarrow>
       (int \<times> xml_item list \<times> cMCScript \<times> string) res" where
  "Process me k xs s out =
     (let x = hd xs; own = (\<lambda>r. bindE r (\<lambda>(rc, s, out). Inr (rc, xs, s, out))) in
      case k of
        cMCAttributeHandler \<Rightarrow> own (cMCAttributeHandler_Process s out)
      | cMCBreakHandler \<Rightarrow> own (cMCBreakHandler_Process s out)
      | cMCCallHandler \<Rightarrow> own (cMCCallHandler_Process me x s out)
      | cMCCaseHandler \<Rightarrow> own (cMCCaseHandler_Process x s out)
      | cMCContinueHandler \<Rightarrow> own (cMCContinueHandler_Process s out)
      | cMCDefaultHandler \<Rightarrow> own (cMCDefaultHandler_Process s out)
      | cMCElseIfHandler \<Rightarrow> own (cMCElseIfHandler_Process x s out)
      | cMCElseHandler \<Rightarrow> own (cMCElseHandler_Process s out)
      | cMCExprHandler \<Rightarrow> own (cMCExprHandler_Process s out)
      | cMCForeachHandler \<Rightarrow> own (cMCForeachHandler_Process x s out)
      | cMCForHandler \<Rightarrow> own (cMCForHandler_Process me x s out)
      | cMCIfHandler \<Rightarrow> own (cMCIfHandler_Process x s out)
      | cMCImportHandler \<Rightarrow> own (cMCImportHandler_Process me x s out)
      | cMCIncrHandler \<Rightarrow> own (cMCIncrHandler_Process x s out)
      | cMCListHandler \<Rightarrow> cMCListHandler_Process xs s out
      | cMCMapHandler \<Rightarrow> own (cMCMapHandler_Process me x s out)
      | cMCMcscriptHandler \<Rightarrow> own (cMCMcscriptHandler_Process me s out)
      | cMCOutputHandler \<Rightarrow> own (cMCOutputHandler_Process me x s out)
      | cMCPairHandler \<Rightarrow> own (cMCPairHandler_Process x s out)
      | cMCProcedureHandler \<Rightarrow> own (cMCProcedureHandler_Process x s out)
      | cMCRegexHandler \<Rightarrow> own (cMCRegexHandler_Process s out)
      | cMCReturnHandler \<Rightarrow> own (cMCReturnHandler_Process x s out)
      | cMCScriptHandler \<Rightarrow> own (cMCScriptHandler_Process x s out)
      | cMCStringHandler \<Rightarrow> own (cMCStringHandler_Process x s out)
      | cMCSwitchHandler \<Rightarrow> own (cMCSwitchHandler_Process x s out)
      | cMCVariableHandler \<Rightarrow> own (cMCVariableHandler_Process me x s out)
      | cMCWhileHandler \<Rightarrow> own (cMCWhileHandler_Process x s out))"

text \<open>A closing tag other than \<open>/script\<close> and the entry for a short tag.\<close>

definition close_tag :: "string \<Rightarrow> cMCScript \<Rightarrow> cMCScript" where
  "close_tag tag s =
     (if length tag \<ge> 2 \<and> tag ! 1 = CHR ''>'' then s
      else
        (let s = cMCScript_DecreaseIndentDepth (s\<lparr>m_LastCommand := drop 1 tag\<rparr>)
         in s\<lparr>m_TCLScript := m_TCLScript s @ [LF] @ cMCScript_GetIndentTabs s @ ''}''\<rparr>))"

text \<open>
  The loop of \<open>Translate\<close> over the elements from the cursor on; \<open>m_LastCommand\<close> becomes the name of
  the element the handler was called for. The fuel is the number of elements: every turn moves the
  cursor on.
\<close>

fun translate_loop :: "nat \<Rightarrow> mcs_env \<Rightarrow> xml_item list \<Rightarrow> cMCScript \<Rightarrow> (int \<times> cMCScript) res" where
  "translate_loop 0 me xs s = Inl Diverge"
| "translate_loop (Suc n) me xs s =
     (if xs = [] then Inl MemFault
      else
        bindE (item_name (hd xs)) (\<lambda>tag.
        bindE
          (if first_char tag = CHR ''/'' \<and> tag \<noteq> ''/script'' then Inr (0, xs, close_tag tag s)
           else
             bindE (case m_KeywordMap s tag of
                      None \<Rightarrow> Inr (0, xs, s)
                    | Some k \<Rightarrow>
                        bindE (Process me k xs s (m_TCLScript s)) (\<lambda>(ret, xs, s, out).
                        Inr (ret, xs, s\<lparr>m_TCLScript := out\<rparr>))) (\<lambda>(ret, xs, s).
             Inr (ret, xs, if ret = HRC_MCSCRIPT_OK then s\<lparr>m_LastCommand := tag\<rparr> else s))) (\<lambda>(ret, xs, s).
        if ret \<noteq> HRC_MCSCRIPT_OK then Inr (ret, s)
        else if length xs \<ge> 2 then translate_loop n me (tl xs) s
        else Inr (HRC_MCSCRIPT_OK, s))))"

text \<open>\<open>Translate\<close> for the elements \<open>xs\<close>. The indentation of an earlier, failed translation is kept.\<close>

definition translate_elements :: "mcs_env \<Rightarrow> xml_item list \<Rightarrow> cMCScript \<Rightarrow> (int \<times> cMCScript) res" where
  "translate_elements me xs s =
     (let s = s\<lparr>m_iVariableCount := 0\<rparr> in
      bindE (cMCScript_ExecuteScriptValidationTests xs s) (\<lambda>(ret, s).
      if ret \<noteq> HRC_MCSCRIPT_OK then Inr (ret, s)
      else translate_loop (length xs) me xs (s\<lparr>m_TCLScript := []\<rparr>)))"

definition cMCScript_Translate :: "mcs_env \<Rightarrow> cMCScript \<Rightarrow> (int \<times> cMCScript) res" where
  "cMCScript_Translate me s = bindE (xml_items (m_xml s)) (\<lambda>xs. translate_elements me xs s)"

end
