(* ===== verification/McTranslate.thy ===== *)
theory McTranslate
  imports McHandlers
begin

text \<open>
  The translator against a reference: abstract scripts, their XML elements, and a printer of Tcl
  that is defined on the abstract scripts alone.
\<close>

section \<open>Scripts\<close>

datatype stmt =
    SBreak
  | SContinue
  | SReturn string
  | SIncr string string
  | SOutput string
  | SAssign string string
  | SExpr string string
  | SWhile string "stmt list"
  | SForeach string string "stmt list"
  | SProc string string "stmt list"
  | SIf string "stmt list" "(string \<times> stmt list) list" "stmt list option"
  | SSwitch string string "(string \<times> stmt list) list" "stmt list option"

definition tag_item :: "string \<Rightarrow> (string \<times> string) list \<Rightarrow> xml_item" where
  "tag_item n as = \<lparr>xi_name = Some n, xi_value = None, xi_attrs = map (\<lambda>(a, v). (Some a, Some v)) as,
     xi_hasCDATA = False, xi_cdata = None\<rparr>"

definition short_tag :: "string \<Rightarrow> (string \<times> string) list \<Rightarrow> xml_item list" where
  "short_tag n as = [tag_item n as, tag_item ''/>'' []]"

definition block_tag :: "string \<Rightarrow> (string \<times> string) list \<Rightarrow> xml_item list \<Rightarrow> xml_item list" where
  "block_tag n as body = tag_item n as # body @ [tag_item (''/'' @ n) []]"

text \<open>The elements the parser makes of a script.\<close>

fun stmt_items :: "stmt \<Rightarrow> xml_item list" where
  "stmt_items SBreak = short_tag ''break'' []"
| "stmt_items SContinue = short_tag ''continue'' []"
| "stmt_items (SReturn v) = short_tag ''return'' [(''value'', v)]"
| "stmt_items (SIncr v b) = short_tag ''incr'' [(''variable'', v), (''by'', b)]"
| "stmt_items (SOutput t) = short_tag ''output'' [(''text'', t)]"
| "stmt_items (SAssign n v) = short_tag ''variable'' [(''name'', n), (''value'', v)]"
| "stmt_items (SExpr n e) = short_tag ''variable'' [(''name'', n), (''expr'', e)]"
| "stmt_items (SWhile t b) = block_tag ''while'' [(''test'', t)] (concat (map stmt_items b))"
| "stmt_items (SForeach v l b) = block_tag ''foreach'' [(''var'', v), (''list'', l)] (concat (map stmt_items b))"
| "stmt_items (SProc n p b) = block_tag ''procedure'' [(''name'', n), (''param'', p)] (concat (map stmt_items b))"
| "stmt_items (SIf t b eis e) =
     block_tag ''if'' [(''test'', t)] (concat (map stmt_items b)) @
     concat (map (\<lambda>(t, b). block_tag ''elseif'' [(''test'', t)] (concat (map stmt_items b))) eis) @
     (case e of None \<Rightarrow> [] | Some b \<Rightarrow> block_tag ''else'' [] (concat (map stmt_items b)))"
| "stmt_items (SSwitch m v cs d) =
     block_tag ''switch'' [(''operation'', m), (''var'', v)]
       (concat (map (\<lambda>(p, b). block_tag ''case'' [(''pattern'', p), (''fallthrough'', ''false'')] (concat (map stmt_items b))) cs) @
        (case d of None \<Rightarrow> [] | Some b \<Rightarrow> block_tag ''default'' [] (concat (map stmt_items b))))"

definition script_items :: "stmt list \<Rightarrow> xml_item list" where
  "script_items b = block_tag ''mcscript'' [] (concat (map stmt_items b))"

section \<open>The reference printer\<close>

definition nl :: "string \<Rightarrow> string" where
  "nl i = [LF] @ i"

definition braces :: "string \<Rightarrow> string \<Rightarrow> string" where
  "braces i body = ''{'' @ body @ nl i @ ''}''"

fun tcl :: "string \<Rightarrow> stmt \<Rightarrow> string" where
  "tcl i SBreak = nl i @ ''break''"
| "tcl i SContinue = nl i @ ''continue''"
| "tcl i (SReturn v) = nl i @ ''return '' @ v"
| "tcl i (SIncr v b) = nl i @ ''incr '' @ (if hd v = CHR ''$'' then tl v else v) @ '' '' @ b"
| "tcl i (SOutput t) = nl i @ ''puts '' @ quot @ t @ quot"
| "tcl i (SAssign n v) = nl i @ ''set '' @ n @ '' '' @ quot @ v @ quot"
| "tcl i (SExpr n e) = nl i @ ''set '' @ n @ '' [expr { '' @ e @ '' }]''"
| "tcl i (SWhile t b) = nl i @ ''while {'' @ t @ ''} '' @ braces i (concat (map (tcl (i @ [TAB])) b))"
| "tcl i (SForeach v l b) =
     nl i @ ''set '' @ tl v @ '' 0'' @ nl i @ ''foreach '' @ tl v @ '' '' @ l @ '' '' @
     braces i (concat (map (tcl (i @ [TAB])) b))"
| "tcl i (SProc n p b) = nl i @ ''proc '' @ n @ '' {'' @ p @ ''} '' @ braces i (concat (map (tcl (i @ [TAB])) b))"
| "tcl i (SIf t b eis e) =
     nl i @ ''if {'' @ t @ ''} '' @ braces i (concat (map (tcl (i @ [TAB])) b)) @
     concat (map (\<lambda>(t, b). '' elseif {'' @ t @ ''} '' @ braces i (concat (map (tcl (i @ [TAB])) b))) eis) @
     (case e of None \<Rightarrow> [] | Some b \<Rightarrow> '' else '' @ braces i (concat (map (tcl (i @ [TAB])) b)))"
| "tcl i (SSwitch m v cs d) =
     nl i @ ''switch -'' @ m @ '' '' @ v @ '' '' @
     braces i
       (concat (map (\<lambda>(p, b). nl (i @ [TAB]) @ quot @ p @ quot @ '' '' @
           braces (i @ [TAB]) (concat (map (tcl (i @ [TAB, TAB])) b))) cs) @
        (case d of None \<Rightarrow> [] | Some b \<Rightarrow> nl (i @ [TAB]) @ ''default '' @
           braces (i @ [TAB]) (concat (map (tcl (i @ [TAB, TAB])) b))))"

definition tcl_script :: "string \<Rightarrow> stmt list \<Rightarrow> string" where
  "tcl_script ns b = ''namespace eval '' @ ns @ '' '' @ braces [] (concat (map (tcl [TAB]) b))"

text \<open>
  The scripts that are meant: no attribute is empty, variables of loops and switches start with a
  dollar and are no arrays, and texts contain nothing that is to be translated.
\<close>

definition plain :: "mcs_env \<Rightarrow> string \<Rightarrow> bool" where
  "plain me t \<longleftrightarrow> t \<noteq> [] \<and> rx_func me t = None \<and> rx_array me t = None \<and> rx_map me t = None"

definition dollar :: "string \<Rightarrow> bool" where
  "dollar v \<longleftrightarrow> (\<exists>w. v = CHR ''$'' # w) \<and> CHR ''['' \<notin> set v"

fun stmt_ok :: "mcs_env \<Rightarrow> stmt \<Rightarrow> bool" where
  "stmt_ok me SBreak \<longleftrightarrow> True"
| "stmt_ok me SContinue \<longleftrightarrow> True"
| "stmt_ok me (SReturn v) \<longleftrightarrow> v \<noteq> []"
| "stmt_ok me (SIncr v b) \<longleftrightarrow> v \<noteq> [] \<and> b \<noteq> []"
| "stmt_ok me (SOutput t) \<longleftrightarrow> plain me t"
| "stmt_ok me (SAssign n v) \<longleftrightarrow> n \<noteq> [] \<and> plain me v"
| "stmt_ok me (SExpr n e) \<longleftrightarrow> n \<noteq> [] \<and> e \<noteq> []"
| "stmt_ok me (SWhile t b) \<longleftrightarrow> t \<noteq> [] \<and> (\<forall>x \<in> set b. stmt_ok me x)"
| "stmt_ok me (SForeach v l b) \<longleftrightarrow> dollar v \<and> dollar l \<and> (\<forall>x \<in> set b. stmt_ok me x)"
| "stmt_ok me (SProc n p b) \<longleftrightarrow> n \<noteq> [] \<and> p \<noteq> [] \<and> (\<forall>x \<in> set b. stmt_ok me x)"
| "stmt_ok me (SIf t b eis e) \<longleftrightarrow> t \<noteq> [] \<and> (\<forall>x \<in> set b. stmt_ok me x) \<and>
     (\<forall>(t, b) \<in> set eis. t \<noteq> [] \<and> (\<forall>x \<in> set b. stmt_ok me x)) \<and>
     (case e of None \<Rightarrow> True | Some b \<Rightarrow> \<forall>x \<in> set b. stmt_ok me x)"
| "stmt_ok me (SSwitch m v cs d) \<longleftrightarrow> m \<in> {''exact'', ''glob'', ''regexp''} \<and> dollar v \<and>
     (\<forall>(p, b) \<in> set cs. p \<noteq> [] \<and> (\<forall>x \<in> set b. stmt_ok me x)) \<and>
     (case d of None \<Rightarrow> True | Some b \<Rightarrow> \<forall>x \<in> set b. stmt_ok me x)"

section \<open>Runs of the loop\<close>

text \<open>The loop gets past the elements \<open>xs\<close>.\<close>

definition runs :: "mcs_env \<Rightarrow> xml_item list \<Rightarrow> cMCScript \<Rightarrow> cMCScript \<Rightarrow> bool" where
  "runs me xs s s' \<longleftrightarrow>
     (\<forall>rest f. rest \<noteq> [] \<longrightarrow> translate_loop (length xs + f) me (xs @ rest) s = translate_loop f me rest s')"

lemma runs_Nil: "runs me [] s s"
  by (simp add: runs_def)

lemma runs_append: "runs me xs s s1 \<Longrightarrow> runs me ys s1 s2 \<Longrightarrow> runs me (xs @ ys) s s2"
proof -
  assume 1: "runs me xs s s1" and 2: "runs me ys s1 s2"
  show ?thesis unfolding runs_def
  proof (intro allI impI)
    fix rest :: "xml_item list" and f assume r: "rest \<noteq> []"
    have "translate_loop (length (xs @ ys) + f) me ((xs @ ys) @ rest) s =
        translate_loop (length xs + (length ys + f)) me (xs @ (ys @ rest)) s" by (simp add: add.assoc)
    also have "\<dots> = translate_loop (length ys + f) me (ys @ rest) s1" using 1 r unfolding runs_def by blast
    also have "\<dots> = translate_loop f me rest s2" using 2 r unfolding runs_def by blast
    finally show "translate_loop (length (xs @ ys) + f) me ((xs @ ys) @ rest) s = translate_loop f me rest s2" .
  qed
qed

lemma item_name_tag [simp]: "item_name (tag_item n as) = Inr n"
  by (simp add: item_name_def tag_item_def non_null_def)

lemma runs_open:
  assumes "first_char n \<noteq> CHR ''/''" "m_KeywordMap s n = Some k"
    "\<And>rest. Process me k (tag_item n as # rest) s (m_TCLScript s) = Inr (0, tag_item n as # rest, s1, out)"
  shows "runs me [tag_item n as] s (s1\<lparr>m_TCLScript := out, m_LastCommand := n\<rparr>)"
  unfolding runs_def
proof (intro allI impI)
  fix rest :: "xml_item list" and f assume "rest \<noteq> []"
  then have "2 \<le> length (tag_item n as # rest)" by (cases rest) auto
  then show "translate_loop (length [tag_item n as] + f) me ([tag_item n as] @ rest) s =
      translate_loop f me rest (s1\<lparr>m_TCLScript := out, m_LastCommand := n\<rparr>)"
    using assms by (simp add: HRC_MCSCRIPT_OK_def)
qed

lemma runs_close:
  assumes "first_char n = CHR ''/''" "n \<noteq> ''/script''"
  shows "runs me [tag_item n as] s (close_tag n s)"
  unfolding runs_def
proof (intro allI impI)
  fix rest :: "xml_item list" and f assume "rest \<noteq> []"
  then have "2 \<le> length (tag_item n as # rest)" by (cases rest) auto
  then show "translate_loop (length [tag_item n as] + f) me ([tag_item n as] @ rest) s = translate_loop f me rest (close_tag n s)"
    using assms by (simp add: HRC_MCSCRIPT_OK_def)
qed

text \<open>What the loop leaves alone, and the text it adds.\<close>

definition adds :: "string \<Rightarrow> cMCScript \<Rightarrow> cMCScript \<Rightarrow> bool" where
  "adds t s s' \<longleftrightarrow> m_KeywordMap s' = m_KeywordMap s \<and> m_IndentTabs s' = m_IndentTabs s \<and> m_TCLScript s' = m_TCLScript s @ t"

lemma adds_refl: "adds [] s s"
  by (simp add: adds_def)

lemma adds_trans: "adds t s s1 \<Longrightarrow> adds u s1 s2 \<Longrightarrow> adds (t @ u) s s2"
  by (simp add: adds_def)

text \<open>
  From any state with the keyword table whose last command is in \<open>P\<close>, the loop gets past \<open>xs\<close>, adds
  the text \<open>u\<close> of the indentation, and leaves a last command in \<open>Q\<close>.
\<close>

definition translates ::
    "mcs_env \<Rightarrow> string set \<Rightarrow> xml_item list \<Rightarrow> (string \<Rightarrow> string) \<Rightarrow> string set \<Rightarrow> bool" where
  "translates me P xs u Q \<longleftrightarrow>
     (\<forall>s :: cMCScript. m_KeywordMap s = map_of keyword_inserts \<longrightarrow> m_LastCommand s \<in> P \<longrightarrow>
       (\<exists>s'. runs me xs s s' \<and> adds (u (m_IndentTabs s)) s s' \<and> m_LastCommand s' \<in> Q))"

lemma translates_Nil: "P \<subseteq> Q \<Longrightarrow> translates me P [] (\<lambda>i. []) Q"
  unfolding translates_def using runs_Nil adds_refl by blast

lemma translates_append:
  assumes "translates me P xs u Q" "translates me Q ys v R"
  shows "translates me P (xs @ ys) (\<lambda>i. u i @ v i) R"
  unfolding translates_def
proof (intro allI impI)
  fix s :: cMCScript assume "m_KeywordMap s = map_of keyword_inserts" "m_LastCommand s \<in> P"
  then obtain s1 where s1: "runs me xs s s1" "adds (u (m_IndentTabs s)) s s1" "m_LastCommand s1 \<in> Q"
    "m_KeywordMap s1 = map_of keyword_inserts"
    using assms(1) by (auto simp: translates_def adds_def)
  then obtain s2 where "runs me ys s1 s2" "adds (v (m_IndentTabs s1)) s1 s2" "m_LastCommand s2 \<in> R"
    using assms(2) by (auto simp: translates_def)
  then show "\<exists>s'. runs me (xs @ ys) s s' \<and> adds (u (m_IndentTabs s) @ v (m_IndentTabs s)) s s' \<and> m_LastCommand s' \<in> R"
    using s1 runs_append[OF s1(1)] adds_trans[OF s1(2)] by (intro exI[of _ s2]) (simp add: adds_def)
qed

lemma translates_weaken: "translates me P xs u Q \<Longrightarrow> P' \<subseteq> P \<Longrightarrow> Q \<subseteq> Q' \<Longrightarrow> translates me P' xs u Q'"
  unfolding translates_def by blast

lemma translates_concat:
  "(\<And>x. x \<in> set b \<Longrightarrow> translates me P (g x) (h x) P) \<Longrightarrow>
     translates me P (concat (map g b)) (\<lambda>i. concat (map (\<lambda>x. h x i) b)) P"
proof (induction b)
  case Nil
  then show ?case by (simp add: translates_Nil)
next
  case (Cons x b)
  then show ?case using translates_append[of me P "g x" "h x" P] by simp
qed

text \<open>A handler that succeeds, adds the text \<open>t\<close> of the indentation and changes the indentation by \<open>d\<close>.\<close>

definition handles ::
    "mcs_env \<Rightarrow> string set \<Rightarrow> xml_item \<Rightarrow> keyword_handler \<Rightarrow> (string \<Rightarrow> string) \<Rightarrow> string \<Rightarrow> bool" where
  "handles me P x k t d \<longleftrightarrow>
     (\<forall>s :: cMCScript. m_LastCommand s \<in> P \<longrightarrow>
       (\<exists>s1. (\<forall>rest. Process me k (x # rest) s (m_TCLScript s) = Inr (0, x # rest, s1, m_TCLScript s @ t (m_IndentTabs s))) \<and>
         m_KeywordMap s1 = m_KeywordMap s \<and> m_IndentTabs s1 = m_IndentTabs s @ d))"

text \<open>A short tag whose handler succeeds, and a block whose handler opens it.\<close>

lemma short_translates:
  assumes n: "first_char n \<noteq> CHR ''/''" "map_of keyword_inserts n = Some k"
    and step: "handles me P (tag_item n as) k t []"
  shows "translates me P (short_tag n as) t {n}"
  unfolding translates_def
proof (intro allI impI)
  fix s :: cMCScript assume s: "m_KeywordMap s = map_of keyword_inserts" "m_LastCommand s \<in> P"
  then obtain s1 where s1: "\<And>rest. Process me k (tag_item n as # rest) s (m_TCLScript s) =
      Inr (0, tag_item n as # rest, s1, m_TCLScript s @ t (m_IndentTabs s))"
    "m_KeywordMap s1 = m_KeywordMap s" "m_IndentTabs s1 = m_IndentTabs s"
    using step unfolding handles_def by fastforce
  let ?s = "s1\<lparr>m_TCLScript := m_TCLScript s @ t (m_IndentTabs s), m_LastCommand := n\<rparr>"
  have "runs me [tag_item ''/>'' []] ?s (close_tag ''/>'' ?s)" by (rule runs_close) (simp_all add: first_char_def)
  moreover have "close_tag ''/>'' ?s = ?s" by (simp add: close_tag_def)
  moreover have "runs me [tag_item n as] s ?s" using n s(1) s1(1) by (intro runs_open) simp_all
  ultimately have "runs me (short_tag n as) s ?s" unfolding short_tag_def
    using runs_append[of me "[tag_item n as]" s ?s "[tag_item ''/>'' []]" ?s] by simp
  then show "\<exists>s'. runs me (short_tag n as) s s' \<and> adds (t (m_IndentTabs s)) s s' \<and> m_LastCommand s' \<in> {n}"
    using s1 by (intro exI[of _ ?s]) (simp add: adds_def)
qed

lemma block_translates:
  assumes n: "n \<noteq> []" "first_char n \<noteq> CHR ''/''" "first_char n \<noteq> CHR ''>''" "n \<noteq> ''script''" "map_of keyword_inserts n = Some k"
    and step: "handles me P (tag_item n as) k t [TAB]"
    and body: "translates me UNIV body u UNIV"
  shows "translates me P (block_tag n as body) (\<lambda>i. t i @ u (i @ [TAB]) @ nl i @ ''}'') {n}"
  unfolding translates_def
proof (intro allI impI)
  fix s :: cMCScript assume s: "m_KeywordMap s = map_of keyword_inserts" "m_LastCommand s \<in> P"
  then obtain s1 where s1: "\<And>rest. Process me k (tag_item n as # rest) s (m_TCLScript s) =
      Inr (0, tag_item n as # rest, s1, m_TCLScript s @ t (m_IndentTabs s))"
    "m_KeywordMap s1 = m_KeywordMap s" "m_IndentTabs s1 = m_IndentTabs s @ [TAB]"
    using step unfolding handles_def by blast
  let ?s = "s1\<lparr>m_TCLScript := m_TCLScript s @ t (m_IndentTabs s), m_LastCommand := n\<rparr>"
  obtain s2 where s2: "runs me body ?s s2" "adds (u (m_IndentTabs ?s)) ?s s2"
    using body s(1) s1(2) unfolding translates_def by (auto dest: spec[of _ ?s])
  have o: "runs me [tag_item n as] s ?s" using n s(1) s1(1) by (intro runs_open) simp_all
  have c: "runs me [tag_item (''/'' @ n) []] s2 (close_tag (''/'' @ n) s2)"
    using n(4) by (intro runs_close) (simp_all add: first_char_def)
  have "runs me (block_tag n as body) s (close_tag (''/'' @ n) s2)"
    using runs_append[OF o runs_append[OF s2(1) c]] by (simp add: block_tag_def)
  moreover have "close_tag (''/'' @ n) s2 =
      s2\<lparr>m_LastCommand := n, m_IndentTabs := m_IndentTabs s, m_TCLScript := m_TCLScript s2 @ nl (m_IndentTabs s) @ ''}''\<rparr>"
    using n(1,3) s2(2) s1(3)
    by (cases n) (simp_all add: close_tag_def adds_def cMCScript_DecreaseIndentDepth_def cMCScript_GetIndentTabs_def
        nl_def first_char_def Let_def)
  ultimately show "\<exists>s'. runs me (block_tag n as body) s s' \<and>
      adds (t (m_IndentTabs s) @ u (m_IndentTabs s @ [TAB]) @ nl (m_IndentTabs s) @ ''}'') s s' \<and> m_LastCommand s' \<in> {n}"
    using s2(2) s1 by (auto simp: adds_def)
qed

section \<open>The handlers of the tags\<close>

lemma keyword_lookup [simp]:
  "map_of keyword_inserts ''break'' = Some cMCBreakHandler"
  "map_of keyword_inserts ''continue'' = Some cMCContinueHandler"
  "map_of keyword_inserts ''return'' = Some cMCReturnHandler"
  "map_of keyword_inserts ''incr'' = Some cMCIncrHandler"
  "map_of keyword_inserts ''output'' = Some cMCOutputHandler"
  "map_of keyword_inserts ''variable'' = Some cMCVariableHandler"
  "map_of keyword_inserts ''while'' = Some cMCWhileHandler"
  "map_of keyword_inserts ''foreach'' = Some cMCForeachHandler"
  "map_of keyword_inserts ''procedure'' = Some cMCProcedureHandler"
  "map_of keyword_inserts ''if'' = Some cMCIfHandler"
  "map_of keyword_inserts ''elseif'' = Some cMCElseIfHandler"
  "map_of keyword_inserts ''else'' = Some cMCElseHandler"
  "map_of keyword_inserts ''switch'' = Some cMCSwitchHandler"
  "map_of keyword_inserts ''case'' = Some cMCCaseHandler"
  "map_of keyword_inserts ''default'' = Some cMCDefaultHandler"
  "map_of keyword_inserts ''mcscript'' = Some cMCMcscriptHandler"
  by (simp_all add: keyword_inserts_def)

lemma item_attr_tag [simp]:
  "item_attr a (tag_item n []) = Inr []"
  "item_attr a (tag_item n ((b, v) # as)) = (if a = b then Inr v else item_attr a (tag_item n as))"
  by (simp_all add: item_attr_def tag_item_def non_null_def)

lemma TranslateStatement_plain:
  "plain me t \<Longrightarrow> cMCScript_TranslateStatement me t s =
     Inr (HRC_MCSCRIPT_STATEMENT_WASNOT_TRANSLATED, t, s\<lparr>m_VariableDeclarations := []\<rparr>)"
  by (simp add: cMCScript_TranslateStatement_def plain_def Let_def)

lemmas handler_defs = handles_def Process_def need_def new_line_def cMCScript_GetIndentTabs_def
  cMCScript_IncreaseIndentDepth_def nl_def Let_def HRC_MCSCRIPT_OK_def

lemma handles_simple:
  "handles me P (tag_item ''break'' []) cMCBreakHandler (\<lambda>i. nl i @ ''break'') []"
  "handles me P (tag_item ''continue'' []) cMCContinueHandler (\<lambda>i. nl i @ ''continue'') []"
  "v \<noteq> [] \<Longrightarrow> handles me P (tag_item ''return'' [(''value'', v)]) cMCReturnHandler (\<lambda>i. nl i @ ''return '' @ v) []"
  by (simp_all add: handler_defs cMCBreakHandler_Process_def cMCContinueHandler_Process_def cMCReturnHandler_Process_def)

lemma handles_incr:
  "v \<noteq> [] \<Longrightarrow> b \<noteq> [] \<Longrightarrow> handles me P (tag_item ''incr'' [(''variable'', v), (''by'', b)]) cMCIncrHandler
     (\<lambda>i. nl i @ ''incr '' @ (if hd v = CHR ''$'' then tl v else v) @ '' '' @ b) []"
  by (simp add: handler_defs cMCIncrHandler_Process_def drop_Suc)

lemma handles_output:
  "plain me t \<Longrightarrow> handles me P (tag_item ''output'' [(''text'', t)]) cMCOutputHandler (\<lambda>i. nl i @ ''puts '' @ quot @ t @ quot) []"
  by (simp add: handler_defs cMCOutputHandler_Process_def TranslateStatement_plain HRC_MCSCRIPT_STATEMENT_WASNOT_TRANSLATED_def)
    (simp add: plain_def)

lemma handles_assign:
  "n \<noteq> [] \<Longrightarrow> plain me v \<Longrightarrow> handles me P (tag_item ''variable'' [(''name'', n), (''value'', v)]) cMCVariableHandler
     (\<lambda>i. nl i @ ''set '' @ n @ '' '' @ quot @ v @ quot) []"
  by (simp add: handler_defs cMCVariableHandler_Process_def TranslateStatement_plain HRC_MCSCRIPT_STATEMENT_WASNOT_TRANSLATED_def)

lemma handles_expr:
  "n \<noteq> [] \<Longrightarrow> e \<noteq> [] \<Longrightarrow> handles me P (tag_item ''variable'' [(''name'', n), (''expr'', e)]) cMCVariableHandler
     (\<lambda>i. nl i @ ''set '' @ n @ '' [expr { '' @ e @ '' }]'') []"
  by (simp add: handler_defs cMCVariableHandler_Process_def)

lemma handles_while:
  "t \<noteq> [] \<Longrightarrow> handles me P (tag_item ''while'' [(''test'', t)]) cMCWhileHandler (\<lambda>i. nl i @ ''while {'' @ t @ ''} {'') [TAB]"
  by (simp add: handler_defs cMCWhileHandler_Process_def)

lemma handles_foreach:
  "dollar v \<Longrightarrow> dollar l \<Longrightarrow> handles me P (tag_item ''foreach'' [(''var'', v), (''list'', l)]) cMCForeachHandler
     (\<lambda>i. nl i @ ''set '' @ tl v @ '' 0'' @ nl i @ ''foreach '' @ tl v @ '' '' @ l @ '' {'') [TAB]"
  by (auto simp: handler_defs cMCForeachHandler_Process_def dollar_def)

lemma handles_procedure:
  "n \<noteq> [] \<Longrightarrow> p \<noteq> [] \<Longrightarrow> handles me P (tag_item ''procedure'' [(''name'', n), (''param'', p)]) cMCProcedureHandler
     (\<lambda>i. nl i @ ''proc '' @ n @ '' {'' @ p @ ''} {'') [TAB]"
  by (simp add: handler_defs cMCProcedureHandler_Process_def cMCScript_AddProcedure_def)

lemma handles_if:
  "t \<noteq> [] \<Longrightarrow> handles me P (tag_item ''if'' [(''test'', t)]) cMCIfHandler (\<lambda>i. nl i @ ''if {'' @ t @ ''} {'') [TAB]"
  by (simp add: handler_defs cMCIfHandler_Process_def)

text \<open>\<open>elseif\<close> and \<open>else\<close> depend on the last command.\<close>

lemma handles_elseif:
  "t \<noteq> [] \<Longrightarrow> handles me {''if'', ''elseif''} (tag_item ''elseif'' [(''test'', t)]) cMCElseIfHandler
     (\<lambda>i. '' elseif {'' @ t @ ''} {'') [TAB]"
  by (auto simp: handler_defs cMCElseIfHandler_Process_def cMCScript_GetLastCommand_def c_prefix_def)

lemma handles_else:
  "handles me {''if'', ''elseif''} (tag_item ''else'' []) cMCElseHandler (\<lambda>i. '' else {'') [TAB]"
  by (auto simp: handler_defs cMCElseHandler_Process_def cMCScript_GetLastCommand_def c_prefix_def)

lemma handles_switch:
  "m \<in> {''exact'', ''glob'', ''regexp''} \<Longrightarrow> dollar v \<Longrightarrow>
     handles me P (tag_item ''switch'' [(''operation'', m), (''var'', v)]) cMCSwitchHandler
       (\<lambda>i. nl i @ ''switch -'' @ m @ '' '' @ v @ '' {'') [TAB]"
  by (auto simp: handler_defs cMCSwitchHandler_Process_def dollar_def)

lemma handles_case:
  "p \<noteq> [] \<Longrightarrow> handles me P (tag_item ''case'' [(''pattern'', p), (''fallthrough'', ''false'')]) cMCCaseHandler
     (\<lambda>i. nl i @ quot @ p @ quot @ '' {'') [TAB]"
  by (simp add: handler_defs cMCCaseHandler_Process_def)

lemma handles_default:
  "handles me P (tag_item ''default'' []) cMCDefaultHandler (\<lambda>i. nl i @ ''default {'') [TAB]"
  by (simp add: handler_defs cMCDefaultHandler_Process_def)

section \<open>Statements\<close>

lemma translates_as:
  "translates me P xs u Q \<Longrightarrow> P' \<subseteq> P \<Longrightarrow> Q \<subseteq> Q' \<Longrightarrow> (\<And>i. u i = v i) \<Longrightarrow> translates me P' xs v Q'"
  by (auto simp: translates_def) blast

lemma body_translates:
  "(\<And>x. x \<in> set b \<Longrightarrow> translates me UNIV (stmt_items x) (\<lambda>i. tcl i x) UNIV) \<Longrightarrow>
     translates me UNIV (concat (map stmt_items b)) (\<lambda>i. concat (map (tcl i) b)) UNIV"
  using translates_concat[of b me UNIV stmt_items "\<lambda>x i. tcl i x"] by simp

text \<open>A block of statements that is opened by a handler that adds \<open>t\<close> and a brace.\<close>

lemma stmts_translates:
  assumes "n \<noteq> []" "first_char n \<noteq> CHR ''/''" "first_char n \<noteq> CHR ''>''" "n \<noteq> ''script''" "map_of keyword_inserts n = Some k"
    and "handles me P (tag_item n as) k (\<lambda>i. t i @ ''{'') [TAB]"
    and "\<And>x. x \<in> set b \<Longrightarrow> translates me UNIV (stmt_items x) (\<lambda>i. tcl i x) UNIV"
    and "n \<in> Q"
  shows "translates me P (block_tag n as (concat (map stmt_items b)))
    (\<lambda>i. t i @ braces i (concat (map (tcl (i @ [TAB])) b))) Q"
  by (rule translates_as[OF block_translates[OF assms(1-6) body_translates[OF assms(7)]]])
    (use assms(8) in \<open>auto simp: braces_def\<close>)

lemma chain_translates:
  assumes "\<forall>(t, b) \<in> set eis. t \<noteq> [] \<and> (\<forall>x \<in> set b. translates me UNIV (stmt_items x) (\<lambda>i. tcl i x) UNIV)"
  shows "translates me {''if'', ''elseif''}
    (concat (map (\<lambda>(t, b). block_tag ''elseif'' [(''test'', t)] (concat (map stmt_items b))) eis))
    (\<lambda>i. concat (map (\<lambda>(t, b). '' elseif {'' @ t @ ''} '' @ braces i (concat (map (tcl (i @ [TAB])) b))) eis))
    {''if'', ''elseif''}"
proof -
  let ?h = "\<lambda>x i. case x of (t, b) \<Rightarrow> '' elseif {'' @ t @ ''} '' @ braces i (concat (map (tcl (i @ [TAB])) b))"
  have "translates me {''if'', ''elseif''} (case x of (t, b) \<Rightarrow> block_tag ''elseif'' [(''test'', t)] (concat (map stmt_items b)))
      (?h x) {''if'', ''elseif''}" if "x \<in> set eis" for x
  proof -
    obtain t b where x: "x = (t, b)" by (cases x)
    have "handles me {''if'', ''elseif''} (tag_item ''elseif'' [(''test'', t)]) cMCElseIfHandler
        (\<lambda>i. ('' elseif {'' @ t @ ''} '') @ ''{'') [TAB]"
      using handles_elseif[of t me] assms that x by auto
    from stmts_translates[OF _ _ _ _ _ this, of b "{''if'', ''elseif''}"] show ?thesis
      using assms that x by (auto simp: first_char_def)
  qed
  from translates_concat[OF this] show ?thesis by (simp add: case_prod_unfold)
qed

lemma cases_translates:
  assumes "\<forall>(p, b) \<in> set cs. p \<noteq> [] \<and> (\<forall>x \<in> set b. translates me UNIV (stmt_items x) (\<lambda>i. tcl i x) UNIV)"
  shows "translates me UNIV
    (concat (map (\<lambda>(p, b). block_tag ''case'' [(''pattern'', p), (''fallthrough'', ''false'')] (concat (map stmt_items b))) cs))
    (\<lambda>i. concat (map (\<lambda>(p, b). nl i @ quot @ p @ quot @ '' '' @ braces i (concat (map (tcl (i @ [TAB])) b))) cs)) UNIV"
proof -
  let ?h = "\<lambda>x i. case x of (p, b) \<Rightarrow> nl i @ quot @ p @ quot @ '' '' @ braces i (concat (map (tcl (i @ [TAB])) b))"
  have "translates me UNIV (case x of (p, b) \<Rightarrow>
      block_tag ''case'' [(''pattern'', p), (''fallthrough'', ''false'')] (concat (map stmt_items b))) (?h x) UNIV"
    if "x \<in> set cs" for x
  proof -
    obtain p b where x: "x = (p, b)" by (cases x)
    have "handles me UNIV (tag_item ''case'' [(''pattern'', p), (''fallthrough'', ''false'')]) cMCCaseHandler
        (\<lambda>i. (nl i @ quot @ p @ quot @ '' '') @ ''{'') [TAB]"
      using handles_case[of p me] assms that x by auto
    from stmts_translates[OF _ _ _ _ _ this, of b UNIV] show ?thesis
      using assms that x by (auto simp: first_char_def)
  qed
  from translates_concat[OF this] show ?thesis by (simp add: case_prod_unfold)
qed

lemma else_translates:
  assumes "\<And>b x. e = Some b \<Longrightarrow> x \<in> set b \<Longrightarrow> translates me UNIV (stmt_items x) (\<lambda>i. tcl i x) UNIV"
  shows "translates me {''if'', ''elseif''} (case e of None \<Rightarrow> [] | Some b \<Rightarrow> block_tag ''else'' [] (concat (map stmt_items b)))
    (\<lambda>i. case e of None \<Rightarrow> [] | Some b \<Rightarrow> '' else '' @ braces i (concat (map (tcl (i @ [TAB])) b))) UNIV"
proof (cases e)
  case None
  then show ?thesis by (simp add: translates_Nil)
next
  case (Some b)
  have "handles me {''if'', ''elseif''} (tag_item ''else'' []) cMCElseHandler (\<lambda>i. '' else '' @ ''{'') [TAB]"
    using handles_else[of me] by simp
  from stmts_translates[OF _ _ _ _ _ this, of b UNIV] show ?thesis using assms Some by (auto simp: first_char_def)
qed

lemma default_translates:
  assumes "\<And>b x. e = Some b \<Longrightarrow> x \<in> set b \<Longrightarrow> translates me UNIV (stmt_items x) (\<lambda>i. tcl i x) UNIV"
  shows "translates me UNIV (case e of None \<Rightarrow> [] | Some b \<Rightarrow> block_tag ''default'' [] (concat (map stmt_items b)))
    (\<lambda>i. case e of None \<Rightarrow> [] | Some b \<Rightarrow> nl i @ ''default '' @ braces i (concat (map (tcl (i @ [TAB])) b))) UNIV"
proof (cases e)
  case None
  then show ?thesis by (simp add: translates_Nil)
next
  case (Some b)
  have "handles me UNIV (tag_item ''default'' []) cMCDefaultHandler (\<lambda>i. (nl i @ ''default '') @ ''{'') [TAB]"
    using handles_default[of me] by simp
  from stmts_translates[OF _ _ _ _ _ this, of b UNIV] show ?thesis using assms Some by (auto simp: first_char_def)
qed

lemma if_translates:
  assumes t: "t \<noteq> []"
    and b: "\<And>x. x \<in> set b \<Longrightarrow> translates me UNIV (stmt_items x) (\<lambda>i. tcl i x) UNIV"
    and eis: "\<forall>(t, b) \<in> set eis. t \<noteq> [] \<and> (\<forall>x \<in> set b. translates me UNIV (stmt_items x) (\<lambda>i. tcl i x) UNIV)"
    and e: "\<And>b x. e = Some b \<Longrightarrow> x \<in> set b \<Longrightarrow> translates me UNIV (stmt_items x) (\<lambda>i. tcl i x) UNIV"
  shows "translates me UNIV (stmt_items (SIf t b eis e)) (\<lambda>i. tcl i (SIf t b eis e)) UNIV"
proof -
  have "handles me UNIV (tag_item ''if'' [(''test'', t)]) cMCIfHandler (\<lambda>i. (nl i @ ''if {'' @ t @ ''} '') @ ''{'') [TAB]"
    using handles_if[OF t, of me UNIV] by simp
  from stmts_translates[OF _ _ _ _ _ this b, of b "{''if'', ''elseif''}"]
  have "translates me UNIV (block_tag ''if'' [(''test'', t)] (concat (map stmt_items b)))
      (\<lambda>i. (nl i @ ''if {'' @ t @ ''} '') @ braces i (concat (map (tcl (i @ [TAB])) b))) {''if'', ''elseif''}"
    by (simp add: first_char_def)
  from translates_as[OF translates_append[OF this translates_append[OF chain_translates[OF eis] else_translates[OF e]]], where P' = UNIV and Q' = UNIV]
  show ?thesis by simp
qed

lemma switch_translates:
  assumes m: "m \<in> {''exact'', ''glob'', ''regexp''}" "dollar v"
    and cs: "\<forall>(p, b) \<in> set cs. p \<noteq> [] \<and> (\<forall>x \<in> set b. translates me UNIV (stmt_items x) (\<lambda>i. tcl i x) UNIV)"
    and d: "\<And>b x. d = Some b \<Longrightarrow> x \<in> set b \<Longrightarrow> translates me UNIV (stmt_items x) (\<lambda>i. tcl i x) UNIV"
  shows "translates me UNIV (stmt_items (SSwitch m v cs d)) (\<lambda>i. tcl i (SSwitch m v cs d)) UNIV"
proof -
  note body = translates_append[OF cases_translates[OF cs] default_translates[OF d]]
  show ?thesis unfolding stmt_items.simps
    by (rule translates_as[OF block_translates[OF _ _ _ _ _ handles_switch[OF m, where P = UNIV] body]])
      (simp_all add: first_char_def braces_def split: option.split)
qed

lemma shorts_translates:
  "first_char n \<noteq> CHR ''/'' \<Longrightarrow> map_of keyword_inserts n = Some k \<Longrightarrow> handles me UNIV (tag_item n as) k t [] \<Longrightarrow>
     translates me UNIV (short_tag n as) t UNIV"
  by (rule translates_weaken[OF short_translates]) auto

lemma stmt_translates: "stmt_ok me st \<Longrightarrow> translates me UNIV (stmt_items st) (\<lambda>i. tcl i st) UNIV"
proof (induction st rule: stmt_items.induct)
  case 1
  show ?case unfolding stmt_items.simps tcl.simps
    by (rule shorts_translates[OF _ _ handles_simple(1)]) (simp_all add: first_char_def)
next
  case 2
  show ?case unfolding stmt_items.simps tcl.simps
    by (rule shorts_translates[OF _ _ handles_simple(2)]) (simp_all add: first_char_def)
next
  case (3 v)
  show ?case unfolding stmt_items.simps tcl.simps
    by (rule shorts_translates[OF _ _ handles_simple(3)]) (use 3 in \<open>simp_all add: first_char_def\<close>)
next
  case (4 v b)
  show ?case unfolding stmt_items.simps tcl.simps
    by (rule shorts_translates[OF _ _ handles_incr]) (use 4 in \<open>simp_all add: first_char_def\<close>)
next
  case (5 t)
  show ?case unfolding stmt_items.simps tcl.simps
    by (rule shorts_translates[OF _ _ handles_output]) (use 5 in \<open>simp_all add: first_char_def\<close>)
next
  case (6 n v)
  show ?case unfolding stmt_items.simps tcl.simps
    by (rule shorts_translates[OF _ _ handles_assign]) (use 6 in \<open>simp_all add: first_char_def\<close>)
next
  case (7 n e)
  show ?case unfolding stmt_items.simps tcl.simps
    by (rule shorts_translates[OF _ _ handles_expr]) (use 7 in \<open>simp_all add: first_char_def\<close>)
next
  case (8 t b)
  then have "handles me UNIV (tag_item ''while'' [(''test'', t)]) cMCWhileHandler (\<lambda>i. (nl i @ ''while {'' @ t @ ''} '') @ ''{'') [TAB]"
    using handles_while[of t me UNIV] by simp
  from stmts_translates[OF _ _ _ _ _ this, of b UNIV] 8 show ?case by (simp add: first_char_def)
next
  case (9 v l b)
  then have "handles me UNIV (tag_item ''foreach'' [(''var'', v), (''list'', l)]) cMCForeachHandler
      (\<lambda>i. (nl i @ ''set '' @ tl v @ '' 0'' @ nl i @ ''foreach '' @ tl v @ '' '' @ l @ '' '') @ ''{'') [TAB]"
    using handles_foreach[of v l me UNIV] by simp
  from stmts_translates[OF _ _ _ _ _ this, of b UNIV] 9 show ?case by (simp add: first_char_def)
next
  case (10 n p b)
  then have "handles me UNIV (tag_item ''procedure'' [(''name'', n), (''param'', p)]) cMCProcedureHandler
      (\<lambda>i. (nl i @ ''proc '' @ n @ '' {'' @ p @ ''} '') @ ''{'') [TAB]"
    using handles_procedure[of n p me UNIV] by simp
  from stmts_translates[OF _ _ _ _ _ this, of b UNIV] 10 show ?case by (simp add: first_char_def)
next
  case (11 t b eis e)
  then show ?case by (intro if_translates) (fastforce split: option.splits)+
next
  case (12 m v cs d)
  then show ?case by (intro switch_translates) (fastforce split: option.splits)+
qed

section \<open>The validation of a script\<close>

definition valid_items :: "xml_item list \<Rightarrow> bool" where
  "valid_items xs \<longleftrightarrow> (\<exists>k. count_tags xs = Inr (k, k)) \<and> cMCScript_ValidateLowercaseTags xs = Inr HRC_MCSCRIPT_OK \<and>
     tag_names (map_of keyword_inserts) xs = Inr []"

lemma count_tags_append:
  "count_tags xs = Inr (a, b) \<Longrightarrow> count_tags ys = Inr (c, d) \<Longrightarrow> count_tags (xs @ ys) = Inr (a + c, b + d)"
proof (induction xs arbitrary: a b)
  case (Cons x xs)
  then show ?case by (auto simp: res_simps algebra_simps split: if_splits)
qed simp

lemma lowercase_append:
  "cMCScript_ValidateLowercaseTags xs = Inr HRC_MCSCRIPT_OK \<Longrightarrow>
     cMCScript_ValidateLowercaseTags (xs @ ys) = cMCScript_ValidateLowercaseTags ys"
proof (induction xs)
  case (Cons x xs)
  then show ?case
    by (auto simp: res_simps HRC_MCSCRIPT_OK_def HRC_MCSCRIPT_XMLDATA_NEEDLOWERCASE_ELEMENT_def
        HRC_MCSCRIPT_XMLDATA_NEEDLOWERCASE_ATTRIBUTE_def split: if_splits)
qed simp

lemma tag_names_append:
  "tag_names kw xs = Inr t \<Longrightarrow> tag_names kw (xs @ ys) = bindE (tag_names kw ys) (\<lambda>u. Inr (t @ u))"
proof (induction xs arbitrary: t)
  case Nil
  then show ?case by (cases "tag_names kw ys") auto
next
  case (Cons x xs)
  then show ?case by (cases "tag_names kw ys") (auto simp: res_simps Let_def split: if_splits)
qed

lemma valid_Nil [simp]: "valid_items []"
  by (simp add: valid_items_def)

lemma valid_append: "valid_items xs \<Longrightarrow> valid_items ys \<Longrightarrow> valid_items (xs @ ys)"
  by (auto simp: valid_items_def lowercase_append tag_names_append dest: count_tags_append)

lemma valid_concat: "(\<And>x. x \<in> set b \<Longrightarrow> valid_items (g x)) \<Longrightarrow> valid_items (concat (map g b))"
  by (induction b) (auto intro: valid_append)

definition valid_tag :: "string \<Rightarrow> string list \<Rightarrow> bool" where
  "valid_tag n as \<longleftrightarrow> first_char n \<noteq> CHR ''/'' \<and> (\<forall>a \<in> set (n # as). \<not> not_lowercase a \<and> map_of keyword_inserts a \<noteq> None)"

lemmas tag_defs = valid_tag_def keyword_inserts_def not_lowercase_def first_char_def

lemma attrs_valid:
  "\<forall>a \<in> set (map fst as). \<not> not_lowercase a \<and> map_of keyword_inserts a \<noteq> None \<Longrightarrow>
     lower_attrs (map (\<lambda>(a, v). (Some a, Some v)) as) = Inr True \<and>
     attr_names (map_of keyword_inserts) (map (\<lambda>(a, v). (Some a, Some v)) as) = Inr []"
  by (induction as) (auto simp: non_null_def)

lemma xi_attrs_tag [simp]: "xi_attrs (tag_item n as) = map (\<lambda>(a, v). (Some a, Some v)) as"
  by (simp add: tag_item_def)

lemma valid_short:
  assumes "valid_tag n (map fst as)"
  shows "valid_items (short_tag n as)"
proof -
  have a: "lower_attrs (map (\<lambda>(a, v). (Some a, Some v)) as) = Inr True"
    "attr_names (map_of keyword_inserts) (map (\<lambda>(a, v). (Some a, Some v)) as) = Inr []"
    using attrs_valid[of as] assms by (auto simp: valid_tag_def)
  have "not_lowercase ''/>'' = False" "first_char ''/>'' = CHR ''/''" by (simp_all add: not_lowercase_def first_char_def)
  then show ?thesis using assms a
    by (auto simp: short_tag_def valid_items_def valid_tag_def Let_def)
qed

lemma valid_block:
  assumes n: "valid_tag n (map fst as)" and b: "valid_items body"
  shows "valid_items (block_tag n as body)"
proof -
  have a: "lower_attrs (map (\<lambda>(a, v). (Some a, Some v)) as) = Inr True"
    "attr_names (map_of keyword_inserts) (map (\<lambda>(a, v). (Some a, Some v)) as) = Inr []"
    using attrs_valid[of as] n by (auto simp: valid_tag_def)
  have c: "\<not> not_lowercase (''/'' @ n)" "first_char (''/'' @ n) = CHR ''/''"
    by (simp_all add: not_lowercase_def first_char_def)
  obtain k where k: "count_tags body = Inr (k, k)" using b by (auto simp: valid_items_def)
  have kw: "map_of keyword_inserts n \<noteq> None" "first_char n \<noteq> CHR ''/''" "\<not> not_lowercase n" using n by (auto simp: valid_tag_def)
  have "count_tags (body @ [tag_item (''/'' @ n) []]) = Inr (k, k + 1)"
    using count_tags_append[OF k, of "[tag_item (''/'' @ n) []]" 0 1] c by simp
  moreover have "cMCScript_ValidateLowercaseTags (body @ [tag_item (''/'' @ n) []]) = Inr HRC_MCSCRIPT_OK"
    using b c lowercase_append by (simp add: valid_items_def)
  moreover have "tag_names (map_of keyword_inserts) (body @ [tag_item (''/'' @ n) []]) = Inr []"
    using b c kw tag_names_append[of "map_of keyword_inserts" body "[]"] by (auto simp: valid_items_def Let_def)
  ultimately show ?thesis using a kw by (auto simp: block_tag_def valid_items_def Let_def)
qed

lemma stmt_valid: "valid_items (stmt_items st)"
proof (induction st rule: stmt_items.induct)
  case (11 t b eis e)
  have "valid_items (concat (map (\<lambda>(t, b). block_tag ''elseif'' [(''test'', t)] (concat (map stmt_items b))) eis))"
    using 11 by (intro valid_concat) (force intro!: valid_block valid_concat simp: tag_defs)
  moreover have "valid_items (case e of None \<Rightarrow> [] | Some b \<Rightarrow> block_tag ''else'' [] (concat (map stmt_items b)))"
    using 11 by (auto intro!: valid_block valid_concat simp: tag_defs split: option.split)
  moreover have "valid_items (block_tag ''if'' [(''test'', t)] (concat (map stmt_items b)))"
    using 11 by (auto intro!: valid_block valid_concat simp: tag_defs)
  ultimately show ?case by (simp add: valid_append)
next
  case (12 m v cs d)
  have "valid_items (concat (map (\<lambda>(p, b). block_tag ''case'' [(''pattern'', p), (''fallthrough'', ''false'')] (concat (map stmt_items b))) cs))"
    using 12 by (intro valid_concat) (force intro!: valid_block valid_concat simp: tag_defs)
  moreover have "valid_items (case d of None \<Rightarrow> [] | Some b \<Rightarrow> block_tag ''default'' [] (concat (map stmt_items b)))"
    using 12 by (auto intro!: valid_block valid_concat simp: tag_defs split: option.split)
  ultimately show ?case
    by (auto intro!: valid_block valid_append simp: tag_defs)
qed (auto intro!: valid_short valid_block valid_concat simp: tag_defs)

section \<open>The translation\<close>

lemma script_valid: "cMCScript_ExecuteScriptValidationTests (script_items b) s =
    (if m_KeywordMap s = map_of keyword_inserts then Inr (HRC_MCSCRIPT_OK, s\<lparr>m_InvalidTagMessages := []\<rparr>)
     else cMCScript_ExecuteScriptValidationTests (script_items b) s)"
proof (cases "m_KeywordMap s = map_of keyword_inserts")
  case True
  have "valid_items (script_items b)" unfolding script_items_def
    by (intro valid_block valid_concat stmt_valid)
      (simp add: tag_defs)
  moreover have "cMCScript_ValidateRoot (script_items b) = Inr HRC_MCSCRIPT_OK"
    by (simp add: cMCScript_ValidateRoot_def name_at_def script_items_def block_tag_def tag_item_def)
  moreover have "script_items b \<noteq> []" by (simp add: script_items_def block_tag_def)
  ultimately show ?thesis using True
    by (auto simp: cMCScript_ExecuteScriptValidationTests_def valid_items_def cMCScript_ValidateOpenCloseTags_def
        cMCScript_ValidateTagNames_def)
qed simp

text \<open>The translator writes what the reference printer writes.\<close>

lemma script_runs:
  assumes "m_KeywordMap s = map_of keyword_inserts" "m_IndentTabs s = []" "\<forall>st \<in> set b. stmt_ok me st"
  shows "\<exists>s'. translate_loop (length (script_items b)) me (script_items b) (s\<lparr>m_TCLScript := []\<rparr>) = Inr (HRC_MCSCRIPT_OK, s') \<and>
    m_TCLScript s' = tcl_script (me_namespace me) b"
proof -
  let ?body = "concat (map stmt_items b)" and ?last = "tag_item ''/mcscript'' []"
  let ?s1 = "s\<lparr>m_IndentTabs := [TAB], m_TCLScript := ''namespace eval '' @ me_namespace me @ '' {'', m_LastCommand := ''mcscript''\<rparr>"
  have "runs me [tag_item ''mcscript'' []] (s\<lparr>m_TCLScript := []\<rparr>)
      ((s\<lparr>m_TCLScript := [], m_IndentTabs := [TAB]\<rparr>)\<lparr>m_TCLScript := ''namespace eval '' @ me_namespace me @ '' {'', m_LastCommand := ''mcscript''\<rparr>)"
    by (rule runs_open[where k = cMCMcscriptHandler])
      (use assms in \<open>simp_all add: first_char_def Process_def cMCMcscriptHandler_Process_def cMCScript_IncreaseIndentDepth_def\<close>)
  then have 1: "runs me [tag_item ''mcscript'' []] (s\<lparr>m_TCLScript := []\<rparr>) ?s1" by simp
  have "translates me UNIV ?body (\<lambda>i. concat (map (tcl i) b)) UNIV"
    using assms(3) by (intro body_translates stmt_translates) simp
  then obtain s2 where 2: "runs me ?body ?s1 s2" "adds (concat (map (tcl [TAB]) b)) ?s1 s2"
    using assms(1) unfolding translates_def by (fastforce dest: spec[of _ ?s1])
  have "translate_loop (length (script_items b)) me (script_items b) (s\<lparr>m_TCLScript := []\<rparr>) =
      translate_loop (length ([tag_item ''mcscript'' []] @ ?body) + 1) me (([tag_item ''mcscript'' []] @ ?body) @ [?last]) (s\<lparr>m_TCLScript := []\<rparr>)"
    by (simp add: script_items_def block_tag_def)
  also have "\<dots> = translate_loop 1 me [?last] s2"
    using runs_append[OF 1 2(1)] unfolding runs_def by blast
  also have "\<dots> = Inr (HRC_MCSCRIPT_OK, close_tag ''/mcscript'' s2)"
    by (simp add: first_char_def HRC_MCSCRIPT_OK_def)
  finally show ?thesis using 2(2)
    by (simp add: close_tag_def adds_def cMCScript_DecreaseIndentDepth_def cMCScript_GetIndentTabs_def tcl_script_def braces_def nl_def)
qed

lemma script_elements_translate:
  assumes "m_KeywordMap s = map_of keyword_inserts" "m_IndentTabs s = []" "\<forall>st \<in> set b. stmt_ok me st"
  shows "\<exists>s'. translate_elements me (script_items b) s = Inr (HRC_MCSCRIPT_OK, s') \<and>
    m_TCLScript s' = tcl_script (me_namespace me) b"
proof -
  have "cMCScript_ExecuteScriptValidationTests (script_items b) (s\<lparr>m_iVariableCount := 0\<rparr>) =
      Inr (HRC_MCSCRIPT_OK, s\<lparr>m_iVariableCount := 0, m_InvalidTagMessages := []\<rparr>)"
    using script_valid[of b "s\<lparr>m_iVariableCount := 0\<rparr>"] assms(1) by simp
  then show ?thesis using script_runs[of "s\<lparr>m_iVariableCount := 0, m_InvalidTagMessages := []\<rparr>" b me] assms
    by (simp add: translate_elements_def)
qed

lemma fresh_keywords: "m_KeywordMap (cMCScript_new marker) = map_of keyword_inserts" "m_IndentTabs (cMCScript_new marker) = []"
  by (simp_all add: cMCScript_new_def cMCScript_PrepareKeywordMap_def)

text \<open>(C8) A new translator whose parser has read the elements of an abstract script of the supported
  statements translates it successfully, and the Tcl text is the one that the reference printer writes
  for the abstract script: every block with its braces and its indentation, every \<open>elseif\<close> and
  \<open>else\<close> on the line of the closing brace before it.\<close>

theorem script_translates:
  assumes "\<forall>st \<in> set b. stmt_ok me st"
  shows "\<exists>s'. translate_elements me (script_items b) ((cMCScript_new marker)\<lparr>m_xml := x\<rparr>) = Inr (HRC_MCSCRIPT_OK, s') \<and>
    m_TCLScript s' = tcl_script (me_namespace me) b"
  using script_elements_translate[of "(cMCScript_new marker)\<lparr>m_xml := x\<rparr>" b me] assms fresh_keywords[of marker] by simp

definition plain_env :: mcs_env where
  "plain_env = \<lparr>me_file = (\<lambda>_. None), me_namespace = ''ns'', me_junk = None, rx_func = (\<lambda>_. None), rx_array = (\<lambda>_. None),
     rx_map = (\<lambda>_. None), rx_procname = (\<lambda>_. None), rx_var = (\<lambda>_. None), rx_value = (\<lambda>_. None), rx_quoted = (\<lambda>_. None)\<rparr>"

theorem script_translates_witness:
  "\<exists>s'. translate_elements plain_env
      (script_items [SIf ''$a'' [SOutput ''hi''] [(''$b'', [SIncr ''$n'' ''2''])] (Some [SBreak]), SReturn ''0''])
      ((cMCScript_new None)\<lparr>m_xml := cXMLLiteParser_new None\<rparr>) = Inr (HRC_MCSCRIPT_OK, s') \<and>
    m_TCLScript s' = ''namespace eval ns {'' @ [LF, TAB] @ ''if {$a} {'' @ [LF, TAB, TAB] @ ''puts '' @ quot @ ''hi'' @ quot @ [LF, TAB] @
      ''} elseif {$b} {'' @ [LF, TAB, TAB] @ ''incr n 2'' @ [LF, TAB] @ ''} else {'' @ [LF, TAB, TAB] @ ''break'' @ [LF, TAB] @ ''}'' @
      [LF, TAB] @ ''return 0'' @ [LF] @ ''}''"
  using script_translates[of "[SIf ''$a'' [SOutput ''hi''] [(''$b'', [SIncr ''$n'' ''2''])] (Some [SBreak]), SReturn ''0'']" plain_env
      "cXMLLiteParser_new None" None]
  by (simp add: plain_env_def plain_def tcl_script_def braces_def nl_def)

section \<open>Files that are included\<close>

lemma include_unclosed:
  "include_loop me t = Some y \<Longrightarrow> \<not> (\<exists>i. str_find t ''<include'' = Some i \<and> str_find (drop i t) ''/>'' = None)"
  by (erule include_loop.raw_induct[rotated]) (fastforce split: option.splits)

text \<open>(C27) The inclusion does not end for a script with the start of an \<open>include\<close> tag after which no
  tag is closed with \<open>/>\<close>: the loop searches the same text again and again.\<close>

theorem unclosed_include_hangs:
  assumes "str_find s ''<include'' = Some i" "str_find (drop i s) ''/>'' = None"
  shows "cMCScript_HandleRecursiveInclude me s = None"
  using include_unclosed[of me s] assms unfolding cMCScript_HandleRecursiveInclude_def by (cases "include_loop me s") auto

theorem unclosed_include_hangs_witness:
  "cMCScript_HandleRecursiveInclude plain_env ''<mcscript><include file=1></mcscript>'' = None"
  by (rule unclosed_include_hangs[where i = 10]) code_simp+

end
