(* ===== verification/BufferInt.thy ===== *)
theory BufferInt
  imports Buffer
begin

text \<open>
  The buffer class with the 32-bit \<open>int\<close> of the source. Theory \<open>Buffer\<close> computes lengths and sizes
  without a bound; here every sum, difference and product that the code forms in an \<open>int\<close> is reduced to
  its 32-bit two's complement value by \<open>i32\<close>. (For \<open>iSize += sizeof(long)\<close> that is what the conversion
  from the 64-bit unsigned sum does; a sum of two \<open>int\<close>s that overflows is undefined in C++ and wraps on
  the platforms of the program.) A negative size given to \<open>malloc\<close> is a huge \<open>size_t\<close>, which no
  allocator grants.

  The lemmas show, operation by operation, that the two agree as long as the lengths stay below
  \<open>len_limit\<close> and the requested sizes below \<open>size_limit\<close>, so that the editing calls within these bounds
  have the meaning given in \<open>Buffer\<close>, and that the bounds are needed: a request near the end of the range
  wraps and the copy overruns the new block. The classes built on buffers use the operations of
  \<open>Buffer\<close>; what is shown of them is to be read for buffers below the limit.
\<close>

section \<open>Integers\<close>

definition i32 :: "int \<Rightarrow> int" where
  "i32 n = (n + 2147483648) mod 4294967296 - 2147483648"

lemma i32_id [simp]: "-2147483648 \<le> n \<Longrightarrow> n \<le> 2147483647 \<Longrightarrow> i32 n = n"
  by (simp add: i32_def)

lemma i32_range: "-2147483648 \<le> i32 n \<and> i32 n \<le> 2147483647"
  using pos_mod_bound[of 4294967296 "n + 2147483648"] pos_mod_sign[of 4294967296 "n + 2147483648"]
  unfolding i32_def by linarith

lemma i32_wrap:
  assumes "2147483648 \<le> n" "n \<le> 6442450943"
  shows "i32 n = n - 4294967296"
proof -
  have "(n + 2147483648) mod 4294967296 = (n + 2147483648 - 4294967296) mod 4294967296"
    by (rule minus_mod_self2[symmetric])
  also have "\<dots> = n + 2147483648 - 4294967296" using assms by (intro mod_pos_pos_trivial) simp_all
  finally show ?thesis by (simp add: i32_def)
qed

definition len_limit :: int where "len_limit = 2147483632"

definition size_limit :: int where "size_limit = 2147483639"

section \<open>The operations\<close>

definition cBuffer_AdjustSize_i32 :: "cBuffer \<Rightarrow> int \<Rightarrow> int" where
  "cBuffer_AdjustSize_i32 b iSize =
     (let s = i32 (iSize + sizeof_long) in
      if s \<le> m_minAlloc b then m_minAlloc b
      else if s > m_minAlloc b \<and> s < m_midAlloc b then i32 (s * 3) sdiv 2
      else s)"

definition cBuffer_SetBufferSize_i32 :: "malloc \<Rightarrow> int \<Rightarrow> cBuffer \<Rightarrow> cBuffer res" where
  "cBuffer_SetBufferSize_i32 ml iSize b =
     (case m_pBuffer b of
        Some blk \<Rightarrow>
          if iSize \<ge> m_iBufferSize b then
            (let n = cBuffer_AdjustSize_i32 b iSize in
             bindE (do_malloc ml n) (\<lambda>p.
             bindE (mem_get blk 0 (m_iBufferSize b)) (\<lambda>d.
             bindE (mem_put p 0 d) (\<lambda>p.
             Inr (b\<lparr>m_pBuffer := Some p, m_iBufferSize := n\<rparr>)))))
          else Inr b
      | None \<Rightarrow>
          (let n = cBuffer_AdjustSize_i32 b iSize in
           bindE (do_malloc ml n) (\<lambda>p.
           Inr (b\<lparr>m_pBuffer := Some p, m_iBufferSize := n, m_iTail := 0\<rparr>))))"

definition cBuffer_Remove_i32 :: "int \<Rightarrow> int \<Rightarrow> cBuffer \<Rightarrow> (int \<times> cBuffer) res" where
  "cBuffer_Remove_i32 iIndex iLength b =
     (if m_iTail b = 0 then Inr (BUFFER_IS_EMPTY, b)
      else
        let iLen = (if iLength > m_iBufferSize b then m_iBufferSize b else iLength);
            iCalcOffset = i32 (iLen + iIndex)
        in if iLen = 0 \<or> iCalcOffset > m_iBufferSize b then Inr (BUFFER_REGION_OUTOFBOUNDS, b)
        else
          bindE
            (if m_iTail b \<noteq> iCalcOffset then
               bindE (mem_get (deref (m_pBuffer b)) iCalcOffset (i32 (m_iTail b - iCalcOffset))) (\<lambda>d.
               mem_put (deref (m_pBuffer b)) iIndex d)
             else Inr (deref (m_pBuffer b))) (\<lambda>blk.
          Inr (BUFFER_NO_ERROR, (set_block blk b)\<lparr>m_iTail := i32 (m_iTail b - iLen)\<rparr>)))"

definition arg_len_i32 :: "block \<Rightarrow> int \<Rightarrow> int res" where
  "arg_len_i32 d n = (if n = -1 then bindE (cstr_at d 0) (\<lambda>s. Inr (i32 (int (length s)))) else Inr n)"

definition cBuffer_Insert_i32 :: "malloc \<Rightarrow> int \<Rightarrow> block \<Rightarrow> int \<Rightarrow> cBuffer \<Rightarrow> cBuffer res" where
  "cBuffer_Insert_i32 ml iIndex pData iLength b =
     bindE (arg_len_i32 pData iLength) (\<lambda>n.
     let iNewSize = i32 (i32 (n + m_iTail b) + 1) in
     if iNewSize > m_iBufferSize b then
       (let iNewSize = cBuffer_AdjustSize_i32 b iNewSize in
        bindE (do_malloc ml (i32 (iNewSize + 1))) (\<lambda>p.
        bindE (mem_get (deref (m_pBuffer b)) iIndex (i32 (m_iTail b - iIndex))) (\<lambda>suf.
        bindE (mem_put p (i32 (iIndex + n)) suf) (\<lambda>p.
        bindE (mem_get pData 0 n) (\<lambda>d.
        bindE (mem_put p iIndex d) (\<lambda>p.
        bindE (if iIndex \<noteq> 0 then bindE (mem_get (deref (m_pBuffer b)) 0 iIndex) (mem_put p 0)
               else Inr p) (\<lambda>p.
        cBuffer_MakeString (b\<lparr>m_pBuffer := Some p, m_iBufferSize := iNewSize,
          m_iTail := i32 (m_iTail b + n)\<rparr>))))))))
     else
       bindE (mem_get (deref (m_pBuffer b)) iIndex (i32 (m_iTail b - iIndex))) (\<lambda>suf.
       bindE (mem_put (deref (m_pBuffer b)) (i32 (iIndex + n)) suf) (\<lambda>p.
       bindE (mem_get pData 0 n) (\<lambda>d.
       bindE (mem_put p iIndex d) (\<lambda>p.
       cBuffer_MakeString ((set_block p b)\<lparr>m_iTail := i32 (m_iTail b + n)\<rparr>))))))"

definition cBuffer_Append_i32 :: "malloc \<Rightarrow> block option \<Rightarrow> int \<Rightarrow> cBuffer \<Rightarrow> (int \<times> cBuffer) res" where
  "cBuffer_Append_i32 ml pData iLen b =
     (if iLen = 0 then Inr (0, b)
      else case pData of
        None \<Rightarrow> Inr (BUFFER_PARAM_INVALID, b)
      | Some src \<Rightarrow>
          bindE (arg_len_i32 src iLen) (\<lambda>n.
          bindE
            (if n \<ge> i32 (m_iBufferSize b - m_iTail b) then
               cBuffer_SetBufferSize_i32 ml
                 (i32 (i32 (n - i32 (m_iBufferSize b - m_iTail b)) + m_iBufferSize b)) b
             else Inr b) (\<lambda>b.
          bindE (mem_get src 0 n) (\<lambda>d.
          bindE (mem_put (deref (m_pBuffer b)) (m_iTail b) d) (\<lambda>p.
          bindE (cBuffer_MakeString ((set_block p b)\<lparr>m_iTail := i32 (m_iTail b + n)\<rparr>)) (\<lambda>b.
          Inr (BUFFER_NO_ERROR, b)))))))"

definition cBuffer_Prepend_i32 :: "malloc \<Rightarrow> block option \<Rightarrow> int \<Rightarrow> cBuffer \<Rightarrow> (int \<times> cBuffer) res" where
  "cBuffer_Prepend_i32 ml pData iSize b =
     (case pData of
        None \<Rightarrow> Inr (BUFFER_PARAM_INVALID, b)
      | Some src \<Rightarrow>
          bindE (arg_len_i32 src iSize) (\<lambda>n.
          bindE (cBuffer_Insert_i32 ml 0 src n b) (\<lambda>b. Inr (BUFFER_NO_ERROR, b))))"

definition cBuffer_ReplaceWith_i32 :: "malloc \<Rightarrow> block option \<Rightarrow> int \<Rightarrow> cBuffer \<Rightarrow> (int \<times> cBuffer) res" where
  "cBuffer_ReplaceWith_i32 ml pData iSize b =
     (case pData of
        None \<Rightarrow> Inr (BUFFER_NO_ERROR, cBuffer_Reset b)
      | Some src \<Rightarrow>
          bindE (arg_len_i32 src iSize) (\<lambda>n. cBuffer_Append_i32 ml (Some src) n (cBuffer_Reset b)))"

definition cBuffer_Truncate_i32 :: "int \<Rightarrow> cBuffer \<Rightarrow> cBuffer" where
  "cBuffer_Truncate_i32 iCount b = b\<lparr>m_iTail := i32 (m_iTail b - iCount)\<rparr>"

fun replace_loop_i32 :: "nat \<Rightarrow> malloc \<Rightarrow> string \<Rightarrow> string \<Rightarrow> int \<Rightarrow> cBuffer \<Rightarrow> cBuffer res" where
  "replace_loop_i32 0 ml pat with idx b = Inl Diverge"
| "replace_loop_i32 (Suc fuel) ml pat with idx b =
     bindE (cBuffer_Find pat idx b) (\<lambda>(idx, b).
     if idx = -1 then Inr b
     else
       bindE (cBuffer_Remove_i32 idx (i32 (int (length pat))) b) (\<lambda>(_, b).
       bindE (cBuffer_Insert_i32 ml idx (cstr with) (i32 (int (length with))) b) (\<lambda>b.
       replace_loop_i32 fuel ml pat with (i32 (idx + int (length with))) b)))"

definition cBuffer_ReplaceAll_i32 :: "malloc \<Rightarrow> string \<Rightarrow> string \<Rightarrow> cBuffer \<Rightarrow> cBuffer res" where
  "cBuffer_ReplaceAll_i32 ml pPattern with b =
     replace_loop_i32 (Suc (nat (m_iTail b))) ml pPattern with 0 b"

section \<open>Agreement below the limits\<close>

text \<open>Sizes that are values of an \<open>int\<close>, and thresholds of the growth policy that leave room for it.\<close>

definition buf_i32 :: "cBuffer \<Rightarrow> bool" where
  "buf_i32 b \<longleftrightarrow> m_iBufferSize b \<le> 2147483647 \<and> 0 \<le> m_minAlloc b \<and> m_minAlloc b \<le> 2147483646 \<and>
     m_midAlloc b \<le> 715827882"

lemma buf_i32_new [simp]: "buf_i32 cBuffer_new"
  by (simp add: buf_i32_def cBuffer_new_def)

lemma buf_i32_fields [simp]:
  "buf_i32 (b\<lparr>m_pBuffer := x\<rparr>) = buf_i32 b" "buf_i32 (b\<lparr>m_iTail := t\<rparr>) = buf_i32 b"
  "buf_i32 (set_block y b) = buf_i32 b" "buf_i32 (cBuffer_Reset b) = buf_i32 b"
  by (simp_all add: buf_i32_def set_block_def cBuffer_Reset_def)

lemma sdiv_2: "0 \<le> (s :: int) \<Longrightarrow> s sdiv 2 = s div 2"
  by (cases "s = 0") (simp_all add: signed_divide_int_def)

lemma AdjustSize_i32_eq:
  assumes "buf_i32 b" "0 \<le> n" "n \<le> size_limit"
  shows "cBuffer_AdjustSize_i32 b n = cBuffer_AdjustSize b n"
    and "cBuffer_AdjustSize b n \<le> max (n + 8) 2147483646"
proof -
  define s where "s = n + 8"
  have s: "0 \<le> s" "s \<le> 2147483647" "n + sizeof_long = s" "i32 s = s"
    using assms(2,3) by (simp_all add: s_def size_limit_def sizeof_long_def)
  have t: "i32 (s * 3) = s * 3 \<and> (s * 3) sdiv 2 \<le> 2147483646" if "s < m_midAlloc b"
  proof -
    have "s < 715827882" using assms(1) that by (simp add: buf_i32_def)
    then have "i32 (s * 3) = s * 3" "(s * 3) div 2 \<le> 2147483646" using s(1) by simp_all
    then show ?thesis using s(1) by (simp add: sdiv_2)
  qed
  show "cBuffer_AdjustSize_i32 b n = cBuffer_AdjustSize b n"
    unfolding cBuffer_AdjustSize_i32_def cBuffer_AdjustSize_def s(3,4) Let_def using t by auto
  show "cBuffer_AdjustSize b n \<le> max (n + 8) 2147483646"
    unfolding cBuffer_AdjustSize_def s(3) Let_def s_def[symmetric] using t assms(1) by (auto simp: buf_i32_def)
qed

lemma AdjustSize_i32_range:
  assumes "buf_i32 b"
  shows "cBuffer_AdjustSize_i32 b n \<le> 2147483647"
proof -
  have "i32 (s * 3) sdiv 2 \<le> 2147483647" if "0 < s" "s < 715827882" for s :: int
    using that by (simp add: sdiv_2)
  then show ?thesis
    using assms i32_range[of "n + sizeof_long"]
    by (auto simp: cBuffer_AdjustSize_i32_def buf_i32_def Let_def)
qed

lemma SetBufferSize_i32_eq:
  assumes "buf_i32 b" "0 \<le> n" "n \<le> size_limit"
  shows "cBuffer_SetBufferSize_i32 ml n b = cBuffer_SetBufferSize ml n b"
  unfolding cBuffer_SetBufferSize_i32_def cBuffer_SetBufferSize_def AdjustSize_i32_eq(1)[OF assms] by (rule refl)

lemma SetBufferSize_i32_keeps:
  assumes "buf_i32 b" "cBuffer_SetBufferSize_i32 ml n b = Inr b'"
  shows "buf_i32 b'"
  using assms AdjustSize_i32_range[OF assms(1), of n]
  by (auto simp: cBuffer_SetBufferSize_i32_def buf_i32_def res_simps Let_def split: option.splits if_splits)

lemma tail_bounds: "buf_inv b \<Longrightarrow> 0 \<le> m_iTail b \<and> m_iTail b \<le> m_iBufferSize b"
  by (cases "m_pBuffer b") (auto simp: buf_inv_def)

lemma Remove_i32_eq:
  assumes "buf_inv b" "buf_i32 b" "i + n \<le> length (buf_contents b)"
  shows "cBuffer_Remove_i32 (int i) (int n) b = cBuffer_Remove (int i) (int n) b"
proof -
  have t: "int i + int n \<le> m_iTail b" "m_iTail b \<le> 2147483647" "m_iTail b \<le> m_iBufferSize b"
    using assms length_buf_contents[OF assms(1)] tail_bounds[OF assms(1)] by (auto simp: buf_i32_def)
  then have "\<not> int n > m_iBufferSize b" by linarith
  with t show ?thesis by (simp add: cBuffer_Remove_i32_def cBuffer_Remove_def Let_def)
qed

lemma Remove_i32_keeps: "buf_i32 b \<Longrightarrow> cBuffer_Remove_i32 i n b = Inr (r, b') \<Longrightarrow> buf_i32 b'"
  by (auto simp: cBuffer_Remove_i32_def res_simps Let_def split: if_splits)

lemma Insert_i32_eq:
  assumes "buf_inv b" "buf_i32 b" "i \<le> length (buf_contents b)" "int (length (buf_contents b) + n) \<le> len_limit"
  shows "cBuffer_Insert_i32 ml (int i) d (int n) b = cBuffer_Insert ml (int i) d (int n) b"
proof -
  have t: "int i \<le> m_iTail b" "m_iTail b + int n \<le> len_limit" "0 \<le> m_iTail b"
    using assms length_buf_contents[OF assms(1)] tail_bounds[OF assms(1)] by auto
  then have adj: "cBuffer_AdjustSize_i32 b (int n + m_iTail b + 1) = cBuffer_AdjustSize b (int n + m_iTail b + 1)"
    "cBuffer_AdjustSize b (int n + m_iTail b + 1) + 1 \<le> 2147483647" "0 \<le> cBuffer_AdjustSize b (int n + m_iTail b + 1)"
    using AdjustSize_i32_eq[OF assms(2), of "int n + m_iTail b + 1"] AdjustSize_ge[of "int n + m_iTail b + 1" b]
    by (auto simp: len_limit_def size_limit_def)
  have e: "i32 (i32 (int n + m_iTail b) + 1) = int n + m_iTail b + 1"
    "i32 (cBuffer_AdjustSize b (int n + m_iTail b + 1) + 1) = cBuffer_AdjustSize b (int n + m_iTail b + 1) + 1"
    "i32 (m_iTail b - int i) = m_iTail b - int i" "i32 (int i + int n) = int i + int n"
    "i32 (m_iTail b + int n) = m_iTail b + int n"
    using t adj(2,3) by (simp_all add: len_limit_def)
  have a: "arg_len_i32 d (int n) = Inr (int n)" by (simp add: arg_len_i32_def)
  show ?thesis
    unfolding cBuffer_Insert_i32_def cBuffer_Insert_def a arg_len_nat bindE.simps Let_def e adj(1) by (rule refl)
qed

lemma MakeString_i32 [simp]: "cBuffer_MakeString b = Inr b' \<Longrightarrow> buf_i32 b' = buf_i32 b"
  by (auto simp: cBuffer_MakeString_def res_simps split: option.splits)

lemma Insert_i32_keeps:
  assumes "buf_i32 b" "cBuffer_Insert_i32 ml i d n b = Inr b'"
  shows "buf_i32 b'"
proof -
  obtain k where run: "(let iNewSize = i32 (i32 (k + m_iTail b) + 1) in
     if iNewSize > m_iBufferSize b then
       (let iNewSize = cBuffer_AdjustSize_i32 b iNewSize in
        bindE (do_malloc ml (i32 (iNewSize + 1))) (\<lambda>p.
        bindE (mem_get (deref (m_pBuffer b)) i (i32 (m_iTail b - i))) (\<lambda>suf.
        bindE (mem_put p (i32 (i + k)) suf) (\<lambda>p.
        bindE (mem_get d 0 k) (\<lambda>d.
        bindE (mem_put p i d) (\<lambda>p.
        bindE (if i \<noteq> 0 then bindE (mem_get (deref (m_pBuffer b)) 0 i) (mem_put p 0)
               else Inr p) (\<lambda>p.
        cBuffer_MakeString (b\<lparr>m_pBuffer := Some p, m_iBufferSize := iNewSize,
          m_iTail := i32 (m_iTail b + k)\<rparr>))))))))
     else
       bindE (mem_get (deref (m_pBuffer b)) i (i32 (m_iTail b - i))) (\<lambda>suf.
       bindE (mem_put (deref (m_pBuffer b)) (i32 (i + k)) suf) (\<lambda>p.
       bindE (mem_get d 0 k) (\<lambda>d.
       bindE (mem_put p i d) (\<lambda>p.
       cBuffer_MakeString ((set_block p b)\<lparr>m_iTail := i32 (m_iTail b + k)\<rparr>)))))) = Inr b'"
    using assms(2) unfolding cBuffer_Insert_i32_def bindE_eq_Inr by blast
  let ?s = "i32 (i32 (k + m_iTail b) + 1)"
  show ?thesis
  proof (cases "?s > m_iBufferSize b")
    case True
    then obtain p where "cBuffer_MakeString (b\<lparr>m_pBuffer := Some p, m_iBufferSize := cBuffer_AdjustSize_i32 b ?s,
        m_iTail := i32 (m_iTail b + k)\<rparr>) = Inr b'"
      using run unfolding Let_def if_P[OF True] bindE_eq_Inr by blast
    from MakeString_i32[OF this] show ?thesis
      using assms(1) AdjustSize_i32_range[OF assms(1)] by (simp add: buf_i32_def)
  next
    case False
    then obtain p where "cBuffer_MakeString ((set_block p b)\<lparr>m_iTail := i32 (m_iTail b + k)\<rparr>) = Inr b'"
      using run unfolding Let_def if_not_P[OF False] bindE_eq_Inr by blast
    from MakeString_i32[OF this] show ?thesis using assms(1) by simp
  qed
qed

lemma Append_i32_eq:
  assumes "buf_inv b" "buf_i32 b" "int (length (buf_contents b) + n) \<le> len_limit"
    and "arg_len_i32 src k = Inr (int n)" "arg_len src k = Inr (int n)"
  shows "cBuffer_Append_i32 ml (Some src) k b = cBuffer_Append ml (Some src) k b"
proof -
  have t: "m_iTail b + int n \<le> len_limit" "0 \<le> m_iTail b" "m_iTail b \<le> m_iBufferSize b" "m_iBufferSize b \<le> 2147483647"
    using assms length_buf_contents[OF assms(1)] tail_bounds[OF assms(1)] by (auto simp: buf_i32_def)
  have e: "i32 (m_iBufferSize b - m_iTail b) = m_iBufferSize b - m_iTail b"
    "i32 (i32 (int n - (m_iBufferSize b - m_iTail b)) + m_iBufferSize b) = int n + m_iTail b"
    "int n - (m_iBufferSize b - m_iTail b) + m_iBufferSize b = int n + m_iTail b"
    using t by (simp_all add: len_limit_def)
  have s: "cBuffer_SetBufferSize_i32 ml (int n + m_iTail b) b = cBuffer_SetBufferSize ml (int n + m_iTail b) b"
    using t SetBufferSize_i32_eq[OF assms(2)] by (simp add: len_limit_def size_limit_def)
  have tail: "m_iTail b' = m_iTail b" if "cBuffer_SetBufferSize ml (int n + m_iTail b) b = Inr b'" for b'
    using that assms(1) by (auto simp: cBuffer_SetBufferSize_def buf_inv_def res_simps Let_def split: option.splits if_splits)
  have a: "i32 (m_iTail b + int n) = m_iTail b + int n" using t by (simp add: len_limit_def)
  show ?thesis
  proof (cases "k = 0")
    case False
    show ?thesis
      unfolding cBuffer_Append_i32_def cBuffer_Append_def option.case assms(4,5) bindE.simps e s if_not_P[OF False]
    proof (rule bindE_cong[OF refl])
      fix x assume "(if m_iBufferSize b - m_iTail b \<le> int n then cBuffer_SetBufferSize ml (int n + m_iTail b) b else Inr b) = Inr x"
      then have x: "m_iTail x = m_iTail b" using tail[of x] by (auto split: if_splits)
      show "bindE (mem_get src 0 (int n)) (\<lambda>d. bindE (mem_put (deref (m_pBuffer x)) (m_iTail x) d) (\<lambda>p.
          bindE (cBuffer_MakeString ((set_block p x)\<lparr>m_iTail := i32 (m_iTail x + int n)\<rparr>)) (\<lambda>b. Inr (BUFFER_NO_ERROR, b)))) =
        bindE (mem_get src 0 (int n)) (\<lambda>d. bindE (mem_put (deref (m_pBuffer x)) (m_iTail x) d) (\<lambda>p.
          bindE (cBuffer_MakeString ((set_block p x)\<lparr>m_iTail := m_iTail x + int n\<rparr>)) (\<lambda>b. Inr (BUFFER_NO_ERROR, b))))"
        unfolding x a by (rule refl)
    qed
  qed (simp add: cBuffer_Append_i32_def cBuffer_Append_def)
qed

lemma Append_i32_keeps:
  assumes "buf_i32 b" "cBuffer_Append_i32 ml p k b = Inr (r, b')"
  shows "buf_i32 b'"
proof (cases "k = 0 \<or> p = None")
  case True
  then show ?thesis using assms by (auto simp: cBuffer_Append_i32_def split: if_splits)
next
  case False
  then obtain src where src: "p = Some src" "k \<noteq> 0" by auto
  obtain n b1 blk b2 where
    grow: "(if n \<ge> i32 (m_iBufferSize b - m_iTail b) then
       cBuffer_SetBufferSize_i32 ml (i32 (i32 (n - i32 (m_iBufferSize b - m_iTail b)) + m_iBufferSize b)) b
     else Inr b) = Inr b1" and
    ms: "cBuffer_MakeString ((set_block blk b1)\<lparr>m_iTail := i32 (m_iTail b1 + n)\<rparr>) = Inr b2" and b2: "b2 = b'"
    using assms(2) unfolding cBuffer_Append_i32_def src(1) if_not_P[OF src(2)] option.case bindE_eq_Inr
    by blast
  have "buf_i32 b1"
    using grow assms(1) SetBufferSize_i32_keeps[OF assms(1)] by (auto split: if_splits)
  then show ?thesis using MakeString_i32[OF ms] b2 by simp
qed

text \<open>The two calls with an explicit length, as the interface of \<open>Buffer\<close> has them.\<close>

definition buf_extend_i32 :: "malloc \<Rightarrow> string \<Rightarrow> cBuffer \<Rightarrow> cBuffer res" where
  "buf_extend_i32 ml s b = bindE (cBuffer_Append_i32 ml (Some s) (int (length s)) b) (\<lambda>(_, b). Inr b)"

definition buf_assign_i32 :: "malloc \<Rightarrow> string \<Rightarrow> cBuffer \<Rightarrow> cBuffer res" where
  "buf_assign_i32 ml s b =
     bindE (cBuffer_ReplaceWith_i32 ml (Some s) (int (length s)) b) (\<lambda>(_, b). Inr b)"

lemma arg_len_i32_nat [simp]: "arg_len_i32 d (int n) = Inr (int n)"
  by (simp add: arg_len_i32_def)

lemma ReplaceWith_i32_eq:
  assumes "buf_inv b" "buf_i32 b" "int n \<le> len_limit"
  shows "cBuffer_ReplaceWith_i32 ml (Some src) (int n) b = cBuffer_ReplaceWith ml (Some src) (int n) b"
proof -
  have "buf_contents (cBuffer_Reset b) = []" by (rule buf.bytes_clear)
  then have "cBuffer_Append_i32 ml (Some src) (int n) (cBuffer_Reset b) = cBuffer_Append ml (Some src) (int n) (cBuffer_Reset b)"
    using assms by (intro Append_i32_eq) (simp_all add: buf_inv_Reset)
  then show ?thesis by (simp add: cBuffer_ReplaceWith_i32_def cBuffer_ReplaceWith_def)
qed

lemma ReplaceWith_i32_keeps:
  "buf_i32 b \<Longrightarrow> cBuffer_ReplaceWith_i32 ml (Some p) (int n) b = Inr (r, b') \<Longrightarrow> buf_i32 b'"
  using Append_i32_keeps[of "cBuffer_Reset b"] by (simp add: cBuffer_ReplaceWith_i32_def)

section \<open>Replacement\<close>

lemma Insert_i32_safe:
  assumes "malloc_spec ml" "buf_inv b" "buf_i32 b" "i \<le> length (buf_contents b)" "n \<le> length d"
    and "int (length (buf_contents b) + n) \<le> len_limit"
  shows "safe_res ml (cBuffer_Insert_i32 ml (int i) d (int n) b) (\<lambda>b'. (buf_inv b' \<and>
    buf_contents b' = take i (buf_contents b) @ take n d @ drop i (buf_contents b) \<and> buf_terminated b') \<and> buf_i32 b')"
proof (rule safe_res_conj)
  show "safe_res ml (cBuffer_Insert_i32 ml (int i) d (int n) b) (\<lambda>b'. buf_inv b' \<and>
    buf_contents b' = take i (buf_contents b) @ take n d @ drop i (buf_contents b) \<and> buf_terminated b')"
    unfolding Insert_i32_eq[OF assms(2-4,6)] by (rule Insert_safe[OF assms(1,2,4,5)])
qed (rule Insert_i32_keeps[OF assms(3)])

lemma length_replace_all: "pat \<noteq> [] \<Longrightarrow> length pat \<le> length w \<Longrightarrow> length s \<le> length (replace_all pat w s)"
proof (induction pat w s rule: replace_all.induct)
  case (1 pat w s)
  show ?case
  proof (cases "str_find s pat")
    case None
    then show ?thesis using "1.prems" by (simp add: replace_all.simps)
  next
    case (Some j)
    then show ?thesis
      using "1.IH"[OF _ Some] "1.prems" str_find_Some_bound[OF Some] by (simp add: replace_all.simps[of pat w s])
  qed
qed

lemma replace_loop_i32_safe:
  assumes ml: "malloc_spec ml" and pat: "pat \<noteq> []" and w: "NUL \<notin> set w"
  shows "buf_inv b \<Longrightarrow> buf_i32 b \<Longrightarrow> buf_contents b = pre @ s \<Longrightarrow> NUL \<notin> set (pre @ s) \<Longrightarrow> length s < fuel \<Longrightarrow>
    int (length (pre @ s)) \<le> len_limit \<Longrightarrow> int (length (pre @ replace_all pat w s)) \<le> len_limit \<Longrightarrow>
    safe_res ml (replace_loop_i32 fuel ml pat w (int (length pre)) b)
      (\<lambda>b'. (buf_inv b' \<and> buf_contents b' = pre @ replace_all pat w s) \<and> buf_i32 b')"
proof (induction fuel arbitrary: b pre s)
  case 0
  from 0(5) show ?case by (simp only: not_less_zero)
next
  case (Suc fuel)
  show ?case
  proof (cases "pre @ s = []")
    case True
    with Suc.prems show ?thesis by (simp add: Find_empty)
  next
    case False
    then have "\<exists>b'. cBuffer_Find pat (int (length pre)) b =
        Inr (case str_find s pat of Some j \<Rightarrow> int (length pre + j) | None \<Rightarrow> -1, b') \<and>
      buf_inv b' \<and> buf_contents b' = pre @ s"
      using Find_ok[OF Suc.prems(1), of "length pre" pat] Suc.prems(3,4) by auto
    then obtain b1 where b1: "cBuffer_Find pat (int (length pre)) b =
        Inr (case str_find s pat of Some j \<Rightarrow> int (length pre + j) | None \<Rightarrow> -1, b1)"
      "buf_inv b1" "buf_contents b1 = pre @ s" by blast
    have b1i: "buf_i32 b1"
      using b1(1) Suc.prems(2) by (auto simp: cBuffer_Find_def bindE_eq_Inr split: if_splits dest!: MakeString_i32)
    show ?thesis
    proof (cases "str_find s pat")
      case None
      with b1 b1i pat show ?thesis by (simp add: replace_all.simps)
    next
      case (Some j)
      note bound = str_find_Some_bound[OF Some]
      let ?i = "length pre + j" and ?rest = "drop (j + length pat) s"
      let ?pre = "pre @ take j s @ w"
      have final: "pre @ replace_all pat w s = ?pre @ replace_all pat w ?rest"
        using Some pat by (simp add: replace_all.simps[of pat w s])
      have lw: "int (length w) \<le> len_limit" "int (length ?pre) \<le> len_limit"
        using Suc.prems(7) unfolding final by simp_all
      have mid: "int (length (?pre @ ?rest)) \<le> len_limit"
      proof (cases "length pat \<le> length w")
        case True
        then show ?thesis using length_replace_all[OF pat True, of ?rest] Suc.prems(7) unfolding final by simp
      next
        case False
        then show ?thesis using bound Suc.prems(6) by simp
      qed
      have lp: "int (length pat) \<le> len_limit" using bound Suc.prems(6) by simp
      have e: "i32 (int (length pat)) = int (length pat)" "i32 (int (length w)) = int (length w)"
        "i32 (int ?i + int (length w)) = int (length ?pre)"
        using lw lp bound by (simp_all add: len_limit_def)
      have c1: "?i + length pat \<le> length (buf_contents b1)" using bound b1(3) by simp
      have "0 < length pat" using pat by simp
      from Remove_ok[OF b1(2) this c1] Remove_i32_eq[OF b1(2) b1i c1] obtain b2 where b2:
        "cBuffer_Remove_i32 (int ?i) (int (length pat)) b1 = Inr (BUFFER_NO_ERROR, b2)" "buf_inv b2"
        "buf_contents b2 = take ?i (buf_contents b1) @ drop (?i + length pat) (buf_contents b1)" by auto
      have c2: "buf_contents b2 = (pre @ take j s) @ ?rest" using b2(3) b1(3) bound by simp
      have b2i: "buf_i32 b2" by (rule Remove_i32_keeps[OF b1i b2(1)])
      have ins: "?i \<le> length (buf_contents b2)" "length w \<le> length (cstr w)"
        "int (length (buf_contents b2) + length w) \<le> len_limit"
        using c2 bound mid by simp_all
      have loop: "safe_res ml (replace_loop_i32 fuel ml pat w (i32 (int ?i + int (length w))) b3)
          (\<lambda>b'. (buf_inv b' \<and> buf_contents b' = pre @ replace_all pat w s) \<and> buf_i32 b')"
        if b3: "(buf_inv b3 \<and> buf_contents b3 = take ?i (buf_contents b2) @ take (length w) (cstr w) @ drop ?i (buf_contents b2) \<and>
          buf_terminated b3) \<and> buf_i32 b3" for b3
      proof -
        have "buf_contents b3 = ?pre @ ?rest" using b3 c2 bound by simp
        moreover have "NUL \<notin> set (?pre @ ?rest)" using Suc.prems(4) w by (auto dest: in_set_takeD in_set_dropD)
        moreover have "length ?rest < fuel" using Suc.prems(5) pat bound by (cases pat) auto
        ultimately show ?thesis
          unfolding e(3) final using Suc.IH[of b3 ?pre ?rest] b3 mid Suc.prems(7) unfolding final by blast
      qed
      have ne: "int ?i \<noteq> -1" by simp
      show ?thesis
        unfolding replace_loop_i32.simps b1(1) Some option.case bindE.simps prod.case if_not_P[OF ne] e(1,2) b2(1)
        by (rule safe_res_bindE[OF Insert_i32_safe[OF ml b2(2) b2i ins] loop])
    qed
  qed
qed

lemma ReplaceAll_i32_safe:
  assumes "malloc_spec ml" "buf_inv b" "buf_i32 b" "pat \<noteq> []" "NUL \<notin> set w" "NUL \<notin> set (buf_contents b)"
    and "int (length (buf_contents b)) \<le> len_limit" "int (length (replace_all pat w (buf_contents b))) \<le> len_limit"
  shows "safe_res ml (cBuffer_ReplaceAll_i32 ml pat w b)
    (\<lambda>b'. (buf_inv b' \<and> buf_contents b' = replace_all pat w (buf_contents b)) \<and> buf_i32 b')"
proof -
  have "nat (m_iTail b) = length (buf_contents b)"
    using length_buf_contents[OF assms(2)] by simp
  then show ?thesis
    using replace_loop_i32_safe[OF assms(1,4,5) assms(2,3), of "[]" "buf_contents b"
      "Suc (length (buf_contents b))"] assms(6-8)
    by (simp add: cBuffer_ReplaceAll_i32_def del: replace_loop_i32.simps)
qed

section \<open>Refinement of list edits\<close>

text \<open>The editing calls of \<open>Buffer\<close> in the 32-bit operations; a call within its contract is one within the
  contract of \<open>Buffer\<close> whose lengths, before and after, and whose requested size stay below the limits.\<close>

fun exec_op_i32 :: "malloc \<Rightarrow> buf_op \<Rightarrow> cBuffer \<Rightarrow> cBuffer res" where
  "exec_op_i32 ml (OpAppend s) b = buf_extend_i32 ml s b"
| "exec_op_i32 ml (OpAppendCStr s) b =
     bindE (cBuffer_Append_i32 ml (Some (cstr s)) (-1) b) (\<lambda>(_, b). Inr b)"
| "exec_op_i32 ml (OpPrepend s) b =
     bindE (cBuffer_Prepend_i32 ml (Some s) (int (length s)) b) (\<lambda>(_, b). Inr b)"
| "exec_op_i32 ml (OpInsert i s) b = cBuffer_Insert_i32 ml (int i) s (int (length s)) b"
| "exec_op_i32 ml (OpRemove i n) b = bindE (cBuffer_Remove_i32 (int i) (int n) b) (\<lambda>(_, b). Inr b)"
| "exec_op_i32 ml (OpReplaceWith s) b = buf_assign_i32 ml s b"
| "exec_op_i32 ml (OpReplaceAll pat w) b = cBuffer_ReplaceAll_i32 ml pat w b"
| "exec_op_i32 ml (OpTruncate n) b = Inr (cBuffer_Truncate_i32 (int n) b)"
| "exec_op_i32 ml (OpSetBufferSize n) b = cBuffer_SetBufferSize_i32 ml (int n) b"
| "exec_op_i32 ml OpMakeString b = cBuffer_MakeString b"
| "exec_op_i32 ml OpToUpper b = cBuffer_ToUpper b"
| "exec_op_i32 ml OpToLower b = cBuffer_ToLower b"
| "exec_op_i32 ml OpReset b = Inr (cBuffer_Reset b)"
| "exec_op_i32 ml OpFlush b = Inr (cBuffer_Flush b)"

definition op_size_ok :: "buf_op \<Rightarrow> bool" where
  "op_size_ok x = (case x of OpSetBufferSize n \<Rightarrow> int n \<le> size_limit | _ \<Rightarrow> True)"

definition abs_op_i32 :: "buf_op \<Rightarrow> string \<Rightarrow> string option" where
  "abs_op_i32 x c =
     (case abs_op x c of
        None \<Rightarrow> None
      | Some c' \<Rightarrow>
          if op_size_ok x \<and> int (length c) \<le> len_limit \<and> int (length c') \<le> len_limit then Some c' else None)"

fun abs_run_i32 :: "buf_op list \<Rightarrow> string \<Rightarrow> string option" where
  "abs_run_i32 [] c = Some c"
| "abs_run_i32 (x # xs) c = (case abs_op_i32 x c of None \<Rightarrow> None | Some c' \<Rightarrow> abs_run_i32 xs c')"

lemma map_buffer_i32: "map_buffer f b = Inr b' \<Longrightarrow> buf_i32 b' = buf_i32 b"
  by (auto simp: map_buffer_def bindE_eq_Inr)

lemma buf_i32_Flush: "buf_i32 b \<Longrightarrow> buf_i32 (cBuffer_Flush b)"
  by (simp add: buf_i32_def cBuffer_Flush_def)

lemma exec_i32_eq:
  assumes "buf_inv b" "buf_i32 b" "abs_op_i32 x (buf_contents b) = Some c" "\<And>pat w. x \<noteq> OpReplaceAll pat w"
  shows "exec_op_i32 ml x b = exec_op ml x b"
proof -
  have a: "abs_op x (buf_contents b) = Some c" "op_size_ok x" "int (length (buf_contents b)) \<le> len_limit" "int (length c) \<le> len_limit"
    using assms(3) by (auto simp: abs_op_i32_def split: option.splits if_splits)
  show ?thesis
  proof (cases x)
    case (OpAppend s)
    then have "cBuffer_Append_i32 ml (Some s) (int (length s)) b = cBuffer_Append ml (Some s) (int (length s)) b"
      using a by (intro Append_i32_eq[OF assms(1,2)]) auto
    with OpAppend show ?thesis by (simp add: buf_extend_i32_def buf_extend_def)
  next
    case (OpAppendCStr s)
    then have s: "NUL \<notin> set s" "int (length (buf_contents b) + length s) \<le> len_limit" using a by (auto split: if_splits)
    then have "i32 (int (length s)) = int (length s)" by (simp add: len_limit_def)
    with s have "cBuffer_Append_i32 ml (Some (cstr s)) (-1) b = cBuffer_Append ml (Some (cstr s)) (-1) b"
      using arg_len_cstr[OF s(1)]
      by (intro Append_i32_eq[OF assms(1,2) s(2)]) (auto simp: arg_len_i32_def arg_len_def bindE_eq_Inr)
    with OpAppendCStr show ?thesis by simp
  next
    case (OpPrepend s)
    then have "cBuffer_Insert_i32 ml (int 0) s (int (length s)) b = cBuffer_Insert ml (int 0) s (int (length s)) b"
      using a by (intro Insert_i32_eq[OF assms(1,2)]) auto
    with OpPrepend show ?thesis by (simp add: cBuffer_Prepend_i32_def cBuffer_Prepend_def)
  next
    case (OpInsert i s)
    then have "i \<le> length (buf_contents b)" "int (length (buf_contents b) + length s) \<le> len_limit"
      using a by (auto split: if_splits)
    from Insert_i32_eq[OF assms(1,2) this] OpInsert show ?thesis by simp
  next
    case (OpRemove i n)
    then have "i + n \<le> length (buf_contents b)" using a by (auto split: if_splits)
    from Remove_i32_eq[OF assms(1,2) this] OpRemove show ?thesis by simp
  next
    case (OpReplaceWith s)
    then show ?thesis
      using a ReplaceWith_i32_eq[OF assms(1,2), of "length s"] by (simp add: buf_assign_i32_def buf_assign_def)
  next
    case (OpTruncate n)
    then have "i32 (m_iTail b - int n) = m_iTail b - int n"
      using a length_buf_contents[OF assms(1)] by (auto simp: len_limit_def split: if_splits)
    with OpTruncate show ?thesis by (simp add: cBuffer_Truncate_i32_def cBuffer_Truncate_def)
  next
    case (OpSetBufferSize n)
    then show ?thesis using a SetBufferSize_i32_eq[OF assms(2)] by (simp add: op_size_ok_def)
  qed (use assms(4) in simp_all)
qed

lemma exec_i32_keeps:
  assumes "buf_i32 b" "exec_op_i32 ml x b = Inr b'" "\<And>pat w. x \<noteq> OpReplaceAll pat w"
  shows "buf_i32 b'"
  using assms
  by (cases x)
    (auto simp: buf_extend_i32_def buf_assign_i32_def cBuffer_Prepend_i32_def cBuffer_Truncate_i32_def cBuffer_ToUpper_def
      cBuffer_ToLower_def bindE_eq_Inr map_buffer_i32 buf_i32_Flush
      dest: Append_i32_keeps Insert_i32_keeps Remove_i32_keeps ReplaceWith_i32_keeps SetBufferSize_i32_keeps)

lemma exec_op_i32_refines:
  assumes "malloc_spec ml" "buf_inv b" "buf_i32 b" "abs_op_i32 x (buf_contents b) = Some c"
  shows "safe_res ml (exec_op_i32 ml x b) (\<lambda>b'. (buf_inv b' \<and> buf_contents b' = c) \<and> buf_i32 b')"
proof (cases "\<exists>pat w. x = OpReplaceAll pat w")
  case True
  then obtain pat w where x: "x = OpReplaceAll pat w" by blast
  show ?thesis
    using ReplaceAll_i32_safe[OF assms(1-3), of pat w] assms(4)
    by (auto simp: x abs_op_i32_def split: option.splits if_splits)
next
  case False
  then have x: "\<And>pat w. x \<noteq> OpReplaceAll pat w" by blast
  have "abs_op x (buf_contents b) = Some c" using assms(4) by (auto simp: abs_op_i32_def split: option.splits if_splits)
  note r = exec_op_refines[OF assms(1,2) this]
  show ?thesis
    by (rule safe_res_conj[OF r[folded exec_i32_eq[OF assms(2-4) x]] exec_i32_keeps[OF assms(3) _ x]])
qed

lemma exec_run_i32_refines:
  assumes ml: "malloc_spec ml"
  shows "buf_inv b \<Longrightarrow> buf_i32 b \<Longrightarrow> abs_run_i32 xs (buf_contents b) = Some c \<Longrightarrow>
    safe_res ml (foldE (exec_op_i32 ml) xs b) (\<lambda>b'. (buf_inv b' \<and> buf_contents b' = c) \<and> buf_i32 b')"
proof (induction xs arbitrary: b)
  case (Cons x xs)
  from Cons.prems obtain c' where c': "abs_op_i32 x (buf_contents b) = Some c'" "abs_run_i32 xs c' = Some c"
    by (auto split: option.splits)
  show ?case
    unfolding foldE.simps
    by (rule safe_res_bindE[OF exec_op_i32_refines[OF ml Cons.prems(1,2) c'(1)]])
      (use Cons.IH c'(2) in auto)
qed simp

section \<open>Properties\<close>

text \<open>
  (C9) Every sequence of editing calls, each within its contract (which keeps the lengths below
  \<open>len_limit\<close> and requested sizes below \<open>size_limit\<close>), runs on a new buffer without a memory fault, with
  the 32-bit arithmetic of the code, and leaves in the buffer exactly the string that the
  corresponding list edits give; the class invariant holds at the end. \<open>malloc\<close> is any allocator that
  does not fail.
\<close>

theorem editing_refines_lists:
  assumes "malloc_total ml" and "abs_run_i32 xs [] = Some c"
  shows "\<exists>b. foldE (exec_op_i32 ml) xs cBuffer_new = Inr b \<and> buf_inv b \<and> buf_contents b = c"
  using safe_res_total[OF exec_run_i32_refines[of ml cBuffer_new xs c]] assms malloc_total_spec
  by auto

theorem editing_refines_lists_witness:
  "\<exists>b. foldE (exec_op_i32 zero_malloc)
      [OpAppend ''world'', OpPrepend ''hello '', OpRemove 0 1, OpInsert 0 ''J'',
       OpReplaceAll ''l'' ''LL'', OpTruncate 1] cBuffer_new = Inr b \<and>
    buf_inv b \<and> buf_contents b = ''JeLLLLo worLL''"
proof -
  have "abs_run_i32 [OpAppend ''world'', OpPrepend ''hello '', OpRemove 0 1, OpInsert 0 ''J'',
      OpReplaceAll ''l'' ''LL'', OpTruncate 1] [] = Some ''JeLLLLo worLL''"
    by (simp add: abs_op_i32_def op_size_ok_def len_limit_def replace_all.simps)
  then show ?thesis using editing_refines_lists[OF malloc_total_zero] by blast
qed

text \<open>
  (C15) With an allocator that may fail, and with the 32-bit arithmetic of the code, an in-contract
  editing call on a buffer that satisfies the invariant and whose sizes are values of an \<open>int\<close> either
  throws the allocation exception or returns such a buffer; it never touches memory outside its
  block.
\<close>

theorem editing_memory_safe:
  assumes "malloc_spec ml" and "buf_inv b" and "buf_i32 b" and "abs_op_i32 x (buf_contents b) \<noteq> None"
  shows "exec_op_i32 ml x b = Inl BadAlloc \<or> (\<exists>b'. exec_op_i32 ml x b = Inr b' \<and> buf_inv b' \<and> buf_i32 b')"
  using exec_op_i32_refines[OF assms(1-3)] assms(4) by (cases "exec_op_i32 ml x b") fastforce+

theorem editing_memory_safe_witness:
  "exec_op_i32 (\<lambda>_. None) (OpAppend ''x'') cBuffer_new = Inl BadAlloc \<or>
   (\<exists>b'. exec_op_i32 (\<lambda>_. None) (OpAppend ''x'') cBuffer_new = Inr b' \<and> buf_inv b' \<and> buf_i32 b')"
  using editing_memory_safe[of "\<lambda>_. None" cBuffer_new "OpAppend ''x''"]
  by (simp add: malloc_spec_def abs_op_i32_def op_size_ok_def len_limit_def)

lemma malloc_total_block:
  assumes "malloc_total ml" "0 \<le> n"
  obtains p where "ml n = Some p" "length p = nat n"
proof -
  from assms obtain p where p: "ml n = Some p" by (auto simp: malloc_total_def)
  moreover from this assms(1) have "int (length p) = n" by (simp add: malloc_total_def malloc_spec_def)
  ultimately show ?thesis using that by auto
qed

text \<open>
  The limit is needed: a request within eight bytes of the greatest \<open>int\<close> wraps to a negative size,
  becomes the least size of 32 bytes, and the old block is copied into it.
\<close>

theorem huge_size_overruns:
  assumes "malloc_total ml" and "buf_inv b" and "m_pBuffer b = Some blk" and "m_minAlloc b = 32"
    and "32 < m_iBufferSize b" and "m_iBufferSize b \<le> n" and "size_limit < n" and "n \<le> 2147483647"
  shows "cBuffer_SetBufferSize_i32 ml n b = Inl MemFault"
proof -
  have "i32 (n + sizeof_long) < 0" using assms(7,8) by (simp add: i32_wrap sizeof_long_def size_limit_def)
  then have a: "cBuffer_AdjustSize_i32 b n = 32" using assms(4) by (simp add: cBuffer_AdjustSize_i32_def Let_def)
  obtain p where p: "ml 32 = Some p" "length p = 32" by (rule malloc_total_block[OF assms(1), of 32]) simp_all
  obtain t z where tz: "m_iBufferSize b = int z" "z \<le> length blk"
    using assms(2,3) by (rule buf_inv_Some_nat)
  have "mem_put p 0 (take z blk) = Inl MemFault" using p(2) tz assms(5) by (auto simp: mem_put_def)
  then show ?thesis using assms(3,5,6) a p(1) tz by (simp add: cBuffer_SetBufferSize_i32_def do_malloc_def mem_get_def)
qed

theorem huge_size_overruns_witness:
  "cBuffer_SetBufferSize_i32 zero_malloc 2147483647 (cBuffer_new\<lparr>m_pBuffer := Some (replicate 40 NUL), m_iBufferSize := 40\<rparr>) =
     Inl MemFault"
  by (rule huge_size_overruns) (simp_all add: malloc_total_zero buf_inv_def cBuffer_new_def size_limit_def)

end
