(* ===== verification/Base64Int.thy ===== *)
theory Base64Int
  imports BufferInt Base64
begin

text \<open>
  The Base64 codec with the 32-bit \<open>int\<close> of the source: \<open>in_len\<close> is \<open>unsigned int\<close>, and \<open>in_len*2\<close> is
  converted to the \<open>int\<close> argument of \<open>SetBufferSize\<close>. Below \<open>2 ^ 30 - 4\<close> input bytes the operations agree
  with those of \<open>Base64\<close> and never overrun the internal buffer; from \<open>2 ^ 30\<close> bytes on the product is
  negative, and \<open>Encode\<close> writes its output into a block of the least size.
\<close>

definition store_result_i32 ::
    "malloc \<Rightarrow> int \<Rightarrow> string \<Rightarrow> cBase64 \<Rightarrow> cBuffer \<Rightarrow> (int \<times> cBase64 \<times> cBuffer) res" where
  "store_result_i32 ml iSize out c b =
     bindE (cBuffer_SetBufferSize_i32 ml iSize (cBuffer_Reset (m_InternalBuffer c))) (\<lambda>ib.
     bindE (mem_put (deref (m_pBuffer ib)) 0 out) (\<lambda>blk.
     bindE (cBuffer_ReplaceWith_i32 ml (Some blk) (i32 (int (length out))) b) (\<lambda>(_, b).
     Inr (HRC_BASE64_OK,
       c\<lparr>m_InternalBuffer := set_block blk ib, m_status := HRC_BASE64_OK\<rparr>, b))))"

text \<open>The loops count \<open>in_len\<close> down from the length, which is not negative.\<close>

definition cBase64_Encode_i32 :: "malloc \<Rightarrow> cBase64 \<Rightarrow> cBuffer \<Rightarrow> (int \<times> cBase64 \<times> cBuffer) res" where
  "cBase64_Encode_i32 ml c b =
     (let in_len = m_iTail b mod 4294967296 in
      bindE (mem_get (deref (m_pBuffer b)) 0 in_len) (\<lambda>s.
      store_result_i32 ml (i32 ((in_len * 2) mod 4294967296)) (enc_bytes s) c b))"

definition cBase64_Decode_i32 :: "malloc \<Rightarrow> cBase64 \<Rightarrow> cBuffer \<Rightarrow> (int \<times> cBase64 \<times> cBuffer) res" where
  "cBase64_Decode_i32 ml c b =
     (let in_len = m_iTail b in
      bindE (mem_get (deref (m_pBuffer b)) 0 in_len) (\<lambda>s.
      store_result_i32 ml in_len (dec_bytes s) c b))"

lemma store_result_i32_eq:
  assumes "buf_i32 (m_InternalBuffer c)" "buf_inv b" "buf_i32 b" "0 \<le> n" "n \<le> size_limit" "int (length out) \<le> len_limit"
  shows "store_result_i32 ml n out c b = store_result ml n out c b"
proof -
  have e: "i32 (int (length out)) = int (length out)" using assms(6) by (simp add: len_limit_def)
  have s: "cBuffer_SetBufferSize_i32 ml n (cBuffer_Reset (m_InternalBuffer c)) =
      cBuffer_SetBufferSize ml n (cBuffer_Reset (m_InternalBuffer c))"
    using assms(1,4,5) by (intro SetBufferSize_i32_eq) simp_all
  show ?thesis
    unfolding store_result_i32_def store_result_def e s ReplaceWith_i32_eq[OF assms(2,3,6)] by (rule refl)
qed

text \<open>Below the limit of 1073741819 bytes both operations are those of \<open>Base64\<close>.\<close>

lemma Encode_i32_eq:
  assumes "buf_i32 (m_InternalBuffer c)" "buf_inv b" "buf_i32 b" "length (buf_contents b) \<le> 1073741819"
  shows "cBase64_Encode_i32 ml c b = cBase64_Encode ml c b"
proof -
  have t: "m_iTail b = int (length (buf_contents b))" using length_buf_contents[OF assms(2)] by simp
  have m: "m_iTail b mod 4294967296 = m_iTail b" "i32 ((m_iTail b * 2) mod 4294967296) = m_iTail b * 2"
    using t assms(4) by simp_all
  have "4 * ((n + 2) div 3) \<le> 2147483632" if "n \<le> 1073741819" for n :: nat using that by linarith
  from this[OF assms(4)] have "int (length (enc_bytes (buf_contents b))) \<le> len_limit"
    unfolding length_enc_bytes len_limit_def by linarith
  then have "store_result_i32 ml (m_iTail b * 2) (enc_bytes (buf_contents b)) c b =
      store_result ml (m_iTail b * 2) (enc_bytes (buf_contents b)) c b"
    using t assms(4) by (intro store_result_i32_eq[OF assms(1-3)]) (simp_all add: size_limit_def)
  then show ?thesis
    by (simp add: cBase64_Encode_i32_def cBase64_Encode_def m get_contents[OF assms(2)])
qed

lemma Decode_i32_eq:
  assumes "buf_i32 (m_InternalBuffer c)" "buf_inv b" "buf_i32 b" "int (length (buf_contents b)) \<le> len_limit"
  shows "cBase64_Decode_i32 ml c b = cBase64_Decode ml c b"
proof -
  have t: "m_iTail b = int (length (buf_contents b))" using length_buf_contents[OF assms(2)] by simp
  have "int (length (dec_bytes (buf_contents b))) \<le> len_limit"
    using length_dec_bytes[of "buf_contents b"] assms(4) by linarith
  then have "store_result_i32 ml (m_iTail b) (dec_bytes (buf_contents b)) c b =
      store_result ml (m_iTail b) (dec_bytes (buf_contents b)) c b"
    using t assms(4) by (intro store_result_i32_eq[OF assms(1-3)]) (simp_all add: size_limit_def len_limit_def)
  then show ?thesis
    by (simp add: cBase64_Decode_i32_def cBase64_Decode_def get_contents[OF assms(2)])
qed

section \<open>Properties\<close>

text \<open>
  (C34) Neither \<open>Encode\<close> nor \<open>Decode\<close> overruns the internal buffer it stores its output in, on any input
  of at most 1073741819 bytes, with the 32-bit arithmetic of the code and with any history of the codec
  object: they return or throw the allocation exception.
\<close>

theorem base64_memory_safe:
  assumes "malloc_spec ml" and "b64_inv c" and "buf_i32 (m_InternalBuffer c)" and "buf_inv b" and "buf_i32 b"
    and "length (buf_contents b) \<le> 1073741819"
  shows "cBase64_Encode_i32 ml c b \<noteq> Inl MemFault \<and> cBase64_Decode_i32 ml c b \<noteq> Inl MemFault"
proof -
  have "int (length (buf_contents b)) \<le> len_limit" using assms(6) by (simp add: len_limit_def)
  then show ?thesis
    using Encode_safe[OF assms(1,2,4)] Decode_safe[OF assms(1,2,4)]
      Encode_i32_eq[OF assms(3-6), of ml] Decode_i32_eq[OF assms(3-5), of ml] by auto
qed

theorem base64_memory_safe_witness:
  "cBase64_Encode_i32 zero_malloc cBase64_new cBuffer_new \<noteq> Inl MemFault \<and>
   cBase64_Decode_i32 zero_malloc cBase64_new cBuffer_new \<noteq> Inl MemFault"
  using base64_memory_safe[of zero_malloc cBase64_new cBuffer_new] malloc_total_zero malloc_total_spec
  by (simp add: cBase64_new_def b64_inv_new[unfolded cBase64_new_def])

text \<open>From \<open>2 ^ 30\<close> bytes on the size asked for is negative, a fresh codec allocates 32 bytes, and the
  output overruns them.\<close>

theorem huge_encode_overruns:
  assumes "malloc_total ml" and "buf_inv b" and "1073741824 \<le> length (buf_contents b)"
    and "length (buf_contents b) < 2147483640"
  shows "cBase64_Encode_i32 ml cBase64_new b = Inl MemFault"
proof -
  define n where "n = m_iTail b"
  have t: "n = int (length (buf_contents b))" using length_buf_contents[OF assms(2)] by (simp add: n_def)
  have m: "n mod 4294967296 = n" "(n * 2) mod 4294967296 = n * 2" using t assms(3,4) by simp_all
  have w: "i32 (n * 2) = n * 2 - 4294967296" using t assms(3,4) by (intro i32_wrap) simp_all
  have neg: "-2147483648 \<le> n * 2 - 4294967296 \<and> n * 2 - 4294967296 < -16" using t assms(3,4) by simp
  have i: "i32 (n * 2 - 4294967296 + sizeof_long) = n * 2 - 4294967296 + sizeof_long"
    using neg by (simp add: sizeof_long_def)
  let ?ib = "cBuffer_Reset (m_InternalBuffer cBase64_new)"
  have a: "cBuffer_AdjustSize_i32 ?ib (n * 2 - 4294967296) = 32"
    using neg unfolding cBuffer_AdjustSize_i32_def i by (simp add: sizeof_long_def Let_def cBase64_new_def cBuffer_new_def cBuffer_Reset_def)
  obtain p where p: "ml 32 = Some p" "length p = 32" by (rule malloc_total_block[OF assms(1), of 32]) simp_all
  have s: "cBuffer_SetBufferSize_i32 ml (n * 2 - 4294967296) ?ib =
      Inr (?ib\<lparr>m_pBuffer := Some p, m_iBufferSize := 32, m_iTail := 0\<rparr>)"
    unfolding cBuffer_SetBufferSize_i32_def a
    by (simp add: do_malloc_def p(1) cBase64_new_def cBuffer_new_def cBuffer_Reset_def)
  have "32 < length (enc_bytes (buf_contents b))" unfolding length_enc_bytes using assms(3) by linarith
  then have "mem_put p 0 (enc_bytes (buf_contents b)) = Inl MemFault" using p(2) by (auto simp: mem_put_def)
  then show ?thesis
    by (simp add: cBase64_Encode_i32_def n_def[symmetric] m w get_contents[OF assms(2), folded n_def] store_result_i32_def s)
qed

end
