(* ===== verification/Spec2Isabelle.thy ===== *)
theory Spec2Isabelle
  imports InboundFlow OutboundSend ConnectionRun Crc32 Levenshtein IPAccess Tuples KeyValue PorterText XmlWellFormed WebServe MsgOwner McTranslate Base64Int
begin

text \<open>
  A verification of msgCourier, a message server written in C++. The model is of the Linux build of
  the sources directly under \<open>src/\<close>; every definition is executable and carries the name of the
  function, method or type it translates.

  The program. A peer connects and sends a request (\<open>MCP\<close>, \<open>GET\<close> or \<open>POST\<close>).
  \<open>cConnectionHandlerInbound\<close> collects the bytes of the connection in a \<open>cBuffer\<close> until the header and
  the announced length are there, makes a \<open>cMsg\<close> out of them, and hands it to \<open>cMsgQueue\<close>, which keeps
  all messages in the pool \<open>cMsgPool\<close> and a priority queue of pending ones. \<open>cMsgQueue::Process\<close> routes
  a message: to a command handler (\<open>cCommandHandlerDecorator\<close>, one job queue and one thread each), to a
  service of \<open>cService\<close>, to a node of \<open>cPresence\<close>, or to the outbound queue of \<open>cConnectionQueue\<close>, whose
  thread sends it through \<open>cConnectionHandlerOutbound\<close>. Rule sets of \<open>cMsgRouterRulesEngine\<close> may choose
  the handler by the contents. The web server (\<open>cWebServer\<close>, \<open>cWebRequestHandler\<close>) is one of the handlers;
  it maps a path to a directory, keeps files in a cache, expands tags and scripts, and replies. A
  message that is done is marked, and the next flush returns it to the pool or writes it to the database.

  Theories and sources, in the order in which they build on each other:

  \<^item> \<open>Mc_Prelude\<close>: errors of executions, \<open>bindE\<close>, allocators, checked reads and writes, lists.
    \<open>OrdMap\<close>: \<open>std::map\<close> and \<open>std::multimap\<close> as lists sorted by key. \<open>Strtok\<close>: \<open>cbstrtok.h\<close>.
    \<open>Clock\<close>: \<open>timer.cpp\<close>, \<open>bench.cpp\<close>, \<open>date.cpp\<close>.
  \<^item> \<open>Buffer\<close>: \<open>buffer.cpp\<close> with lengths without a bound; \<open>BufferInt\<close>: its editing operations with the
    32-bit \<open>int\<close> of the source. \<open>Base64\<close> and \<open>Base64Int\<close>: \<open>base64.cpp\<close> in the same two ways.
    \<open>Url\<close>: \<open>url.cpp\<close>. \<open>Crc32\<close>: \<open>crc32.cpp\<close>. \<open>Levenshtein\<close>: \<open>levenshtein.cpp\<close>. \<open>Porter\<close>, \<open>PorterText\<close>:
    \<open>pstemming.cpp\<close>. \<open>KeyValue\<close>: \<open>keyvalue.cpp\<close>. \<open>Tuples\<close>: \<open>tuples.cpp\<close>. \<open>IPAccess\<close>: \<open>ipaccess.cpp\<close>.
  \<^item> \<open>XmlList\<close>, \<open>XmlParse\<close>, \<open>XmlParser\<close>, \<open>XmlWellFormed\<close>: \<open>xmlliteparser.cpp\<close>. \<open>McScript\<close>, \<open>McStatement\<close>,
    \<open>McHandlers\<close>, \<open>McTranslate\<close>: \<open>mcscript.cpp\<close> and the keyword handlers \<open>mcscript-*-handler.h\<close>.
  \<^item> \<open>HeaderExtract\<close>: \<open>headerextract.cpp\<close>. \<open>RoutingTag\<close>: \<open>routingtag.cpp\<close>. \<open>UniqueId\<close>:
    \<open>uniqueidprovider.cpp\<close>. \<open>Msg\<close>: \<open>imsg.h\<close>, \<open>msg.cpp\<close>. \<open>PrioQueue\<close>: \<open>msgprioritycomp.h\<close> and
    \<open>std::priority_queue\<close>. \<open>MsgPool\<close>: \<open>msgpool.cpp\<close>. \<open>MsgRouter\<close>: \<open>msgrouterruleset.cpp\<close>,
    \<open>msgrouterrulesengine.cpp\<close>.
  \<^item> \<open>Presence\<close>: \<open>presence.cpp\<close>. \<open>Handlers\<close>: \<open>commandhandlerfactory.cpp\<close>, \<open>commandhandlerdecorator.cpp\<close>.
    \<open>Service\<close>: \<open>service.cpp\<close>. \<open>SysMetrics\<close>: \<open>sysmetrics.cpp\<close>. \<open>ConnectionCache\<close>: \<open>connectioncache.cpp\<close>.
    \<open>ConnectionQueue\<close>: \<open>connectionqueue.cpp\<close>. \<open>MsgQueue\<close>: \<open>msgqueue.cpp\<close>. \<open>MsgOwner\<close>: all of these run
    by several threads.
  \<^item> \<open>AccessLog\<close>: \<open>accesslog.cpp\<close>. \<open>PeerRouting\<close>: \<open>peerroutingmap.cpp\<close>. \<open>Inbound\<close>, \<open>InboundFlow\<close>:
    \<open>connectionhandlerinbound.cpp\<close>. \<open>Outbound\<close>, \<open>OutboundSend\<close>: \<open>connectionhandleroutbound.cpp\<close>.
    \<open>ConnectionRun\<close>: the thread of \<open>connectionqueue.cpp\<close>.
  \<^item> \<open>WebFiles\<close>: \<open>mimemap.cpp\<close>, \<open>virtualdirectorymap.cpp\<close>, \<open>filecache.cpp\<close>. \<open>WebRequest\<close>, \<open>WebReply\<close>,
    \<open>WebServe\<close>: \<open>scriptengine.cpp\<close>, \<open>webrequesthandler.cpp\<close>, \<open>webserver.cpp\<close>.

  State. An object is a record with the members of its class. Objects that several parts share are
  addresses into a store that is passed along: messages (the pool's heap), connection records, nodes of
  the XML list. A call returns its result, the new state, or an error value: \<open>MemFault\<close> for an access
  outside a block or to freed memory, \<open>BadIterator\<close> for the use of an invalid iterator, \<open>BadAlloc\<close>,
  \<open>StdException\<close> for an exception that leaves the call, \<open>AssertFailed\<close>, and \<open>Diverge\<close>. On Linux the macro
  \<open>LOGALL\<close> of \<open>log.h\<close> throws a string, so an exception handler that calls it does not swallow the
  exception: the model of such a handler ends with \<open>StdException\<close>.

  What the lemmas show:

  \<^item> Messages and the queue: what a pass over the pool, a flush, a retry, a reply and a database flush do
    to every message (\<open>MsgQueue\<close>), that handlers serve their jobs by priority, and that no message ever
    is at two places (\<open>MsgOwner\<close>), for every interleaving of the operations of all threads, where a
    reader takes the top of a queue, works on it and pops it in separate steps.
  \<^item> Buffers: the editing operations refine operations on lists of bytes and never leave their block
    (\<open>BufferInt\<close>), with the 32-bit arithmetic of the code; beyond the bounds of the contract the model
    faults where the code overruns (\<open>huge_size_overruns\<close>, \<open>huge_encode_overruns\<close>).
  \<^item> Requests and replies: a request cut anywhere is put together again, a reply arrives whole and in
    order or is marked as delivered without having arrived (\<open>InboundFlow\<close>, \<open>OutboundSend\<close>).
  \<^item> Tables: connections, nodes, services, identifiers, logs and metrics keep their invariants over every
    sequence of operations.
  \<^item> Parsers and codecs: round trips for Base64, URLs, headers and key-value maps; the CRC against
    polynomial division; the edit distance against its recursion; the XML parser keeps its object well
    formed; the script translator prints what a reference printer prints.
  \<^item> Faults: inputs for which the code hangs, overruns or loses a message are theorems of their own, next
    to the ones that bound them.

  Interfaces are locales, interpreted on the model's own definitions in the theory of the component that
  provides them: \<open>byte_buffer\<close> (a buffer is a list of bytes, in \<open>Buffer\<close>), \<open>string_map\<close> (in \<open>OrdMap\<close>)
  and \<open>prio_queue\<close> (in \<open>PrioQueue\<close>).

  Bounds and fuel. Loops are recursive functions with a measure where they end. The loop of
  \<open>TimeoutConnections\<close>, which starts again after each connection it closes, and the loop over the
  included files of a script are partial functions into options: not returning is the value \<open>None\<close>, and
  it is proved that the first returns and when the second does not. Other loops get fuel, the length of
  the text or list they run over and a constant, and \<open>Diverge\<close> is the loop whose fuel is spent. That
  the fuel is enough is part of the theorems that give a result (the editing operations, the XML parser,
  the script translator, sending); that the loop over the tags of a page does not end is a theorem
  about every amount of fuel. Lists with which \<open>send\<close>, \<open>recv\<close> and \<open>select\<close> answer are as long as the
  theorem says. Buffers with 32-bit integers hold at most \<open>len_limit\<close> = 2147483632 bytes and are asked for
  at most \<open>size_limit\<close> = 2147483639, which leaves room for the terminator, the eight bytes
  \<open>cBuffer_AdjustSize\<close> adds and the rounding to 32, so no sum wraps. Theory \<open>Buffer\<close> and the components
  above it compute with unbounded lengths: below these bounds the two models agree, by the equality lemmas
  of \<open>BufferInt\<close>.

  Parameters of the model, with their laws as hypotheses of the theorems that need them: malloc (total, or
  failing at will), the clock, the sockets (\<open>recv\<close>, \<open>send\<close>, \<open>select\<close>, \<open>connect\<close>), the file system, SQLite,
  the Boost regular expressions (which may throw), formatter and tokenizer, MD5, the uuid library, the Tcl
  interpreter, floating point arithmetic, and the command handlers behind \<open>cICommandHandler\<close>.

  Not modelled: the start of the program and the wiring of its parts (\<open>core.cpp\<close>, \<open>main.cpp\<close>), the threads
  and locks themselves (\<open>thread.cpp\<close>, \<open>threadsync.cpp\<close>: a locked operation is one step of the model), the
  accept loops (\<open>tcpserver.cpp\<close>, \<open>udpserver.cpp\<close>), the built-in commands (\<open>msgCourier.cpp\<close>), the output of
  the log (except what \<open>cLog::Log\<close> does with a peer's text as its format, in \<open>Presence\<close>), plug-ins,
  processes, databases other than the queue's, OpenSSL, queries of the machine, the Windows parts, and the
  vendored libraries.
\<close>

end
